(* ===== verification/Prelude.thy ===== *)
theory Prelude
  imports Main "HOL-Library.AList" "HOL-Library.Word"
begin

text \<open>
  Shared vocabulary of the development: the identifier types of \<^verbatim>\<open>snaplace\<close>, the way a Rust
  computation that may panic or return an error is represented, hash maps and hash sets, and the
  generic list lemmas that the component theories use.

  \<^item> A Rust method with \<^verbatim>\<open>&mut self\<close> becomes a function from the state to a result and a new
    state. The new state is kept on the error path too: \<^verbatim>\<open>?\<close> leaves earlier mutations in place.
  \<^item> A \<^verbatim>\<open>HashMap\<close> that the code iterates over is an association list with distinct keys, whose
    order stands for the iteration order; a \<^verbatim>\<open>HashMap\<close> that is only probed is a partial function.
  \<^item> A \<^verbatim>\<open>HashSet\<close> that the code iterates over is a list without duplicates.
\<close>

section \<open>Identifiers and time\<close>

type_synonym worker_id = nat
type_synonym function_id = string
type_synonym sandbox_id = string

text \<open>\<^verbatim>\<open>Instant\<close> and \<^verbatim>\<open>Duration\<close> count nanoseconds on a monotonic clock.\<close>

type_synonym instant = nat
type_synonym duration = nat

section \<open>Panics and errors\<close>

text \<open>
  A computation fails either by returning a value of the code's own error type or by panicking
  (\<^verbatim>\<open>expect\<close>, \<^verbatim>\<open>assert!\<close>, \<^verbatim>\<open>unreachable!\<close>, \<^verbatim>\<open>todo!\<close>); the string names the panic site.
\<close>

datatype 'e fault = Panic string | Err 'e

definition is_panic :: "'e fault + 'a \<Rightarrow> bool" where
  "is_panic r \<longleftrightarrow> (\<exists>m. r = Inl (Panic m))"

lemma is_panic_simps [simp]:
  "is_panic (Inl (Panic m))" "\<not> is_panic (Inl (Err e))" "\<not> is_panic (Inr x)"
  by (simp_all add: is_panic_def)

text \<open>Sequencing through \<^verbatim>\<open>?\<close>: stop at the first error, keeping the state reached so far.\<close>

definition bindE :: "('e + 'a) \<times> 's \<Rightarrow> ('a \<Rightarrow> 's \<Rightarrow> ('e + 'b) \<times> 's) \<Rightarrow> ('e + 'b) \<times> 's" where
  "bindE r k = (case r of (Inl e, s) \<Rightarrow> (Inl e, s) | (Inr x, s) \<Rightarrow> k x s)"

lemma bindE_simps [simp]:
  "bindE (Inl e, s) k = (Inl e, s)"
  "bindE (Inr x, s) k = k x s"
  by (simp_all add: bindE_def)

lemma bindE_split:
  "P (bindE r k) \<longleftrightarrow>
    (\<forall>e s. r = (Inl e, s) \<longrightarrow> P (Inl e, s)) \<and> (\<forall>x s. r = (Inr x, s) \<longrightarrow> P (k x s))"
  by (cases r; cases "fst r") auto

section \<open>Hash sets as lists without duplicates\<close>

text \<open>\<^verbatim>\<open>HashSet::insert\<close> and \<^verbatim>\<open>HashSet::remove\<close> report whether the set changed.\<close>

definition hs_insert :: "'a \<Rightarrow> 'a list \<Rightarrow> bool \<times> 'a list" where
  "hs_insert x xs = (x \<notin> set xs, List.insert x xs)"

definition hs_remove :: "'a \<Rightarrow> 'a list \<Rightarrow> bool \<times> 'a list" where
  "hs_remove x xs = (x \<in> set xs, remove1 x xs)"

lemma fst_hs [simp]:
  "fst (hs_insert x xs) \<longleftrightarrow> x \<notin> set xs" "fst (hs_remove x xs) \<longleftrightarrow> x \<in> set xs"
  by (simp_all add: hs_insert_def hs_remove_def)

lemma set_hs [simp]:
  "set (snd (hs_insert x xs)) = insert x (set xs)"
  "distinct xs \<Longrightarrow> set (snd (hs_remove x xs)) = set xs - {x}"
  by (simp_all add: hs_insert_def hs_remove_def)

lemma distinct_hs [simp]:
  "distinct xs \<Longrightarrow> distinct (snd (hs_insert x xs))"
  "distinct xs \<Longrightarrow> distinct (snd (hs_remove x xs))"
  by (simp_all add: hs_insert_def hs_remove_def)

section \<open>Hash maps as association lists\<close>

abbreviation keys :: "('k \<times> 'v) list \<Rightarrow> 'k list" where
  "keys m \<equiv> map fst m"

lemma in_set_map_of:
  "distinct (keys m) \<Longrightarrow> (k, v) \<in> set m \<longleftrightarrow> map_of m k = Some v"
  by (metis map_of_SomeD map_of_is_SomeI)

lemma keys_map_snd [simp]: "keys (map (\<lambda>(k, v). (k, f k v)) m) = keys m"
  by (induction m) auto

lemma map_of_map_snd: "map_of (map (\<lambda>(k, v). (k, f v)) m) k = map_option f (map_of m k)"
  by (induction m) auto

lemma keys_update_present [simp]:
  "k \<in> set (keys m) \<Longrightarrow> keys (AList.update k v m) = keys m"
  by (induction m) auto

lemma sum_list_update:
  fixes g :: "'v \<Rightarrow> 'n::ab_group_add"
  shows "distinct (keys m) \<Longrightarrow> map_of m k = Some v \<Longrightarrow>
    sum_list (map (\<lambda>(k, x). g x) (AList.update k v' m)) =
    sum_list (map (\<lambda>(k, x). g x) m) - g v + g v'"
proof (induction m)
  case Nil
  then show ?case by simp
next
  case (Cons a m)
  then show ?case by (cases a) (auto simp: algebra_simps)
qed

lemma set_update_distinct:
  "distinct (keys m) \<Longrightarrow> set (AList.update k v m) = insert (k, v) {p \<in> set m. fst p \<noteq> k}"
proof (induction m)
  case Nil
  then show ?case by simp
next
  case (Cons a m)
  then show ?case by (cases a) (force simp: image_iff)
qed

lemma update_back:
  "map_of m k = Some v \<Longrightarrow> AList.update k v (AList.update k v' m) = m"
  by (induction m) (auto split: if_splits)

lemma in_keys_map_of: "k \<in> set (keys m) \<longleftrightarrow> (\<exists>v. map_of m k = Some v)"
  by (metis list.set_map map_of_eq_None_iff not_None_eq)

lemma sum_list_update_new:
  fixes g :: "'v \<Rightarrow> 'n::ab_group_add"
  shows "map_of m k = None \<Longrightarrow>
    sum_list (map (\<lambda>(k, x). g x) (AList.update k v' m)) = sum_list (map (\<lambda>(k, x). g x) m) + g v'"
  by (induction m) (auto simp: algebra_simps split: if_splits)

lemma dropWhile_filter_sorted:
  fixes f :: "'a \<Rightarrow> 'b::linorder"
  shows "sorted (map f xs) \<Longrightarrow> dropWhile (\<lambda>x. f x \<le> n) xs = filter (\<lambda>x. \<not> f x \<le> n) xs"
  by (induction xs) (auto intro!: filter_True [symmetric])

section \<open>Iterator idioms\<close>

text \<open>
  \<^verbatim>\<open>Iterator::max_by\<close> returns the last of several maximal elements and \<^verbatim>\<open>Iterator::min_by_key\<close> the
  first of several minimal ones.
\<close>

fun max_by_last :: "('a \<Rightarrow> 'b::linorder) \<Rightarrow> 'a list \<Rightarrow> 'a option" where
  "max_by_last f [] = None"
| "max_by_last f (x # xs) =
     (case max_by_last f xs of None \<Rightarrow> Some x | Some y \<Rightarrow> Some (if f x \<le> f y then y else x))"

fun min_by_first :: "('a \<Rightarrow> 'b::linorder) \<Rightarrow> 'a list \<Rightarrow> 'a option" where
  "min_by_first f [] = None"
| "min_by_first f (x # xs) =
     (case min_by_first f xs of None \<Rightarrow> Some x | Some y \<Rightarrow> Some (if f x \<le> f y then x else y))"

lemma max_by_last_None [simp]: "max_by_last f xs = None \<longleftrightarrow> xs = []"
  by (cases xs) (auto split: option.splits)

lemma min_by_first_None [simp]: "min_by_first f xs = None \<longleftrightarrow> xs = []"
  by (cases xs) (auto split: option.splits)

lemma max_by_last_Some:
  "max_by_last f xs = Some y \<Longrightarrow> y \<in> set xs \<and> (\<forall>x \<in> set xs. f x \<le> f y)"
  by (induction xs arbitrary: y) (force split: option.splits if_splits)+

lemma min_by_first_Some:
  "min_by_first f xs = Some y \<Longrightarrow> y \<in> set xs \<and> (\<forall>x \<in> set xs. f y \<le> f x)"
  by (induction xs arbitrary: y) (force split: option.splits if_splits)+

end
