(* ===== verification/Subnet_Pool.thy ===== *)
theory Subnet_Pool
  imports Prelude
begin

text \<open>
  The three IPv4 subnet pools of \<^verbatim>\<open>network/ip_utils/subnet_pool\<close>: the plain FIFO pool, the pool
  that recycles the smallest subnet first and the FIFO pool that also serves requests for a given
  subnet. \<^verbatim>\<open>ipnet\<close> is not part of the repository: a subnet is an element of a linear order
  (\<^verbatim>\<open>Ipv4Net: Ord\<close>), and splitting a network into subnets is the parameter \<open>subnets\<close>. Its iterator
  is the list of the subnets still to come; the theorems ask that list to be strictly increasing,
  which \<^verbatim>\<open>Ipv4Net::subnets\<close> documents.

  The contract the networking providers rely on is stated by two locales: every subnet of the
  pool's network is at any time either available or handed out, a hand-out takes an available
  subnet and a return makes exactly that subnet available again.
\<close>

section \<open>Errors and the shared iterator loop\<close>

datatype ('e, 'n) subnet_pool_error = PrefixLen 'e | SubnetNotFree 'n

text \<open>The \<^verbatim>\<open>loop\<close> of \<^verbatim>\<open>get_next\<close>: advance the iterator past the subnets taken out of order.\<close>

fun iter_skip_taken :: "'n set \<Rightarrow> 'n list \<Rightarrow> 'n option \<times> 'n list" where
  "iter_skip_taken T [] = (None, [])"
| "iter_skip_taken T (x # xs) = (if x \<in> T then iter_skip_taken T xs else (Some x, xs))"

section \<open>Ipv4SubnetPool\<close>

record 'n fifo_pool =
  fp_free :: "'n list"
  fp_iter :: "'n list"

definition fifo_new ::
  "('n \<Rightarrow> nat \<Rightarrow> 'e + 'n list) \<Rightarrow> nat \<Rightarrow> 'n \<Rightarrow> ('e, 'n) subnet_pool_error + 'n fifo_pool" where
  "fifo_new subnets P net =
     (case subnets net P of Inl e \<Rightarrow> Inl (PrefixLen e)
      | Inr it \<Rightarrow> Inr \<lparr>fp_free = [], fp_iter = it\<rparr>)"

definition fifo_get_next :: "'n fifo_pool \<Rightarrow> 'n option \<times> 'n fifo_pool" where
  "fifo_get_next p =
     (case fp_free p of
        x # q \<Rightarrow> (Some x, p\<lparr>fp_free := q\<rparr>)
      | [] \<Rightarrow> (case fp_iter p of
                 [] \<Rightarrow> (None, p)
               | x # it \<Rightarrow> (Some x, p\<lparr>fp_iter := it\<rparr>)))"

definition fifo_give_back :: "'n \<Rightarrow> 'n fifo_pool \<Rightarrow> 'n fifo_pool" where
  "fifo_give_back s p = p\<lparr>fp_free := fp_free p @ [s]\<rparr>"

section \<open>ExactIpv4SubnetPool\<close>

text \<open>The \<^verbatim>\<open>BTreeSet\<close> of free subnets is a strictly sorted list.\<close>

record 'n exact_pool =
  ep_iter :: "'n list"
  ep_free :: "'n list"
  ep_taken :: "'n set"

definition exact_new ::
  "('n \<Rightarrow> nat \<Rightarrow> 'e + 'n list) \<Rightarrow> nat \<Rightarrow> 'n \<Rightarrow> ('e, 'n) subnet_pool_error + 'n exact_pool" where
  "exact_new subnets P net =
     (case subnets net P of Inl e \<Rightarrow> Inl (PrefixLen e)
      | Inr it \<Rightarrow> Inr \<lparr>ep_iter = it, ep_free = [], ep_taken = {}\<rparr>)"

definition exact_get_next :: "'n exact_pool \<Rightarrow> 'n option \<times> 'n exact_pool" where
  "exact_get_next p =
     (case ep_free p of
        x # fr \<Rightarrow> (Some x, p\<lparr>ep_free := fr\<rparr>)
      | [] \<Rightarrow> (case iter_skip_taken (ep_taken p) (ep_iter p) of
                 (r, it) \<Rightarrow> (r, p\<lparr>ep_iter := it\<rparr>)))"

definition exact_give_back :: "'n::linorder \<Rightarrow> 'n exact_pool \<Rightarrow> 'n exact_pool" where
  "exact_give_back s p =
     (let p' = p\<lparr>ep_taken := ep_taken p - {s}\<rparr> in
      if s \<in> ep_taken p \<and> (case ep_iter p of nxt # _ \<Rightarrow> nxt \<le> s | [] \<Rightarrow> False)
      then p'
      else p'\<lparr>ep_free := insort_insert s (ep_free p)\<rparr>)"

definition exact_get ::
  "'n::linorder \<Rightarrow> 'n exact_pool \<Rightarrow> (('e, 'n) subnet_pool_error + 'n) \<times> 'n exact_pool" where
  "exact_get s p =
     (let from_free =
        (if s \<in> set (ep_free p) then (Inr s, p\<lparr>ep_free := remove1 s (ep_free p)\<rparr>)
         else (Inl (SubnetNotFree s), p)) in
      case ep_iter p of
        nxt # it \<Rightarrow>
          (if nxt < s then
             (if s \<notin> ep_taken p then (Inr s, p\<lparr>ep_taken := insert s (ep_taken p)\<rparr>)
              else (Inl (SubnetNotFree s), p))
           else if s = nxt then (Inr s, p\<lparr>ep_iter := it\<rparr>)
           else from_free)
      | [] \<Rightarrow> from_free)"

section \<open>FifoExactIpv4SubnetPool\<close>

record 'n fifo_exact_pool =
  fe_iter :: "'n list"
  fe_taken :: "'n set"
  fe_free_q :: "'n list"
  fe_free_set :: "'n set"

definition fifo_exact_new ::
  "('n \<Rightarrow> nat \<Rightarrow> 'e + 'n list) \<Rightarrow> nat \<Rightarrow> 'n \<Rightarrow> ('e, 'n) subnet_pool_error + 'n fifo_exact_pool"
where
  "fifo_exact_new subnets P net =
     (case subnets net P of Inl e \<Rightarrow> Inl (PrefixLen e)
      | Inr it \<Rightarrow> Inr \<lparr>fe_iter = it, fe_taken = {}, fe_free_q = [], fe_free_set = {}\<rparr>)"

text \<open>The \<^verbatim>\<open>while let\<close> over the queue: drop entries that are no longer in the free set.\<close>

fun pop_free :: "'n set \<Rightarrow> 'n list \<Rightarrow> 'n option \<times> 'n list" where
  "pop_free F [] = (None, [])"
| "pop_free F (x # q) = (if x \<in> F then (Some x, q) else pop_free F q)"

definition fifo_exact_get_next :: "'n fifo_exact_pool \<Rightarrow> 'n option \<times> 'n fifo_exact_pool" where
  "fifo_exact_get_next p =
     (case pop_free (fe_free_set p) (fe_free_q p) of
        (Some x, q) \<Rightarrow> (Some x, p\<lparr>fe_free_q := q, fe_free_set := fe_free_set p - {x}\<rparr>)
      | (None, q) \<Rightarrow> (case iter_skip_taken (fe_taken p) (fe_iter p) of
                        (r, it) \<Rightarrow> (r, p\<lparr>fe_free_q := q, fe_iter := it\<rparr>)))"

definition fifo_exact_give_back :: "'n::linorder \<Rightarrow> 'n fifo_exact_pool \<Rightarrow> 'n fifo_exact_pool" where
  "fifo_exact_give_back s p =
     (let p' = p\<lparr>fe_taken := fe_taken p - {s}\<rparr> in
      if s \<in> fe_taken p \<and> (case fe_iter p of nxt # _ \<Rightarrow> nxt \<le> s | [] \<Rightarrow> False)
      then p'
      else if s \<notin> fe_free_set p
      then p'\<lparr>fe_free_set := insert s (fe_free_set p), fe_free_q := fe_free_q p @ [s]\<rparr>
      else p')"

definition fifo_exact_get ::
  "'n::linorder \<Rightarrow> 'n fifo_exact_pool \<Rightarrow> (('e, 'n) subnet_pool_error + 'n) \<times> 'n fifo_exact_pool"
where
  "fifo_exact_get s p =
     (let from_free =
        (if s \<in> fe_free_set p then (Inr s, p\<lparr>fe_free_set := fe_free_set p - {s}\<rparr>)
         else (Inl (SubnetNotFree s), p)) in
      case fe_iter p of
        nxt # it \<Rightarrow>
          (if nxt < s then
             (if s \<notin> fe_taken p then (Inr s, p\<lparr>fe_taken := insert s (fe_taken p)\<rparr>)
              else (Inl (SubnetNotFree s), p))
           else if s = nxt then (Inr s, p\<lparr>fe_iter := it\<rparr>)
           else from_free)
      | [] \<Rightarrow> from_free)"

section \<open>The contract of a subnet pool\<close>

text \<open>
  \<open>inv U A p\<close>: pool \<open>p\<close>, made for the subnets \<open>U\<close>, has handed out exactly the subnets \<open>A\<close>.
\<close>

locale subnet_pool =
  fixes inv :: "'n set \<Rightarrow> 'n set \<Rightarrow> 'p \<Rightarrow> bool"
    and get_next :: "'p \<Rightarrow> 'n option \<times> 'p"
    and give_back :: "'n \<Rightarrow> 'p \<Rightarrow> 'p"
  assumes inv_sub: "inv U A p \<Longrightarrow> A \<subseteq> U"
    and next_Some: "inv U A p \<Longrightarrow> get_next p = (Some s, p') \<Longrightarrow> s \<in> U - A \<and> inv U (insert s A) p'"
    and next_None: "inv U A p \<Longrightarrow> get_next p = (None, p') \<Longrightarrow> A = U \<and> inv U A p'"
    and returned: "inv U A p \<Longrightarrow> s \<in> A \<Longrightarrow> inv U (A - {s}) (give_back s p)"

text \<open>
  \<open>doubly s p\<close> is the one request that the exact pools answer wrongly: \<open>s\<close> was handed out ahead of
  the iterator, and the iterator has since advanced to it.
\<close>

locale exact_subnet_pool = subnet_pool inv get_next give_back
  for inv :: "'n set \<Rightarrow> 'n set \<Rightarrow> 'p \<Rightarrow> bool"
    and get_next :: "'p \<Rightarrow> 'n option \<times> 'p"
    and give_back :: "'n \<Rightarrow> 'p \<Rightarrow> 'p" +
  fixes get :: "'n \<Rightarrow> 'p \<Rightarrow> (('e, 'n) subnet_pool_error + 'n) \<times> 'p"
    and doubly :: "'n \<Rightarrow> 'p \<Rightarrow> bool"
  assumes get_free: "inv U A p \<Longrightarrow> s \<in> U - A \<Longrightarrow>
      fst (get s p) = Inr s \<and> inv U (insert s A) (snd (get s p))"
    and get_taken: "inv U A p \<Longrightarrow> s \<in> A \<Longrightarrow> \<not> doubly s p \<Longrightarrow>
      get s p = (Inl (SubnetNotFree s), p)"

text \<open>
  A client's session: the operations in order, with the set of subnets it holds. \<open>None\<close> marks a
  session outside the documented use (returning a subnet that is not held, asking for a subnet of
  another network or for one in the \<open>doubly\<close> situation).
\<close>

datatype 'n pool_op = Next | Get 'n | Back 'n

fun session ::
  "('p \<Rightarrow> 'n option \<times> 'p) \<Rightarrow> ('n \<Rightarrow> 'p \<Rightarrow> 'p) \<Rightarrow> ('n \<Rightarrow> 'p \<Rightarrow> (('e, 'n) subnet_pool_error + 'n) \<times> 'p)
    \<Rightarrow> ('n \<Rightarrow> 'p \<Rightarrow> bool) \<Rightarrow> 'n set \<Rightarrow> 'n pool_op list \<Rightarrow> 'n list \<Rightarrow> 'p \<Rightarrow> ('n list \<times> 'p) option"
where
  "session nx bk gt db U [] H p = Some (H, p)"
| "session nx bk gt db U (Next # ops) H p =
     (case nx p of (Some s, p') \<Rightarrow> session nx bk gt db U ops (s # H) p'
      | (None, p') \<Rightarrow> session nx bk gt db U ops H p')"
| "session nx bk gt db U (Get s # ops) H p =
     (if s \<notin> U \<or> db s p then None
      else case gt s p of (Inr s', p') \<Rightarrow> session nx bk gt db U ops (s' # H) p'
           | (Inl _, p') \<Rightarrow> session nx bk gt db U ops H p')"
| "session nx bk gt db U (Back s # ops) H p =
     (if s \<notin> set H then None else session nx bk gt db U ops (remove1 s H) (bk s p))"

context exact_subnet_pool
begin

lemma session_inv:
  assumes "inv U (set H) p" and "distinct H"
    and "session get_next give_back get doubly U ops H p = Some (H', p')"
  shows "inv U (set H') p' \<and> distinct H'"
  using assms
proof (induction ops arbitrary: H p)
  case Nil
  then show ?case by simp
next
  case (Cons op ops)
  note IH = Cons.IH
  show ?case
  proof (cases op)
    case Next
    obtain r p1 where g: "get_next p = (r, p1)" by force
    show ?thesis
    proof (cases r)
      case None
      then show ?thesis using Cons.prems Next g next_None [OF Cons.prems(1)] IH by auto
    next
      case (Some s)
      then have "s \<notin> set H" "inv U (set (s # H)) p1"
        using next_Some [OF Cons.prems(1)] g by auto
      then show ?thesis using Cons.prems Next g Some IH [of "s # H" p1] by auto
    qed
  next
    case (Get s)
    then have s: "s \<in> U" "\<not> doubly s p" using Cons.prems(3) by (auto split: if_splits)
    show ?thesis
    proof (cases "s \<in> set H")
      case True
      then show ?thesis using Cons.prems Get s get_taken [OF Cons.prems(1) True s(2)] IH by auto
    next
      case False
      then have "fst (get s p) = Inr s" "inv U (set (s # H)) (snd (get s p))"
        using get_free [OF Cons.prems(1)] s by auto
      then show ?thesis
        using Cons.prems Get s False IH [of "s # H" "snd (get s p)"] by (cases "get s p") auto
    qed
  next
    case (Back s)
    then have "s \<in> set H" using Cons.prems(3) by (auto split: if_splits)
    then show ?thesis
      using Cons.prems Back returned [OF Cons.prems(1)] IH [of "remove1 s H" "give_back s p"] by simp
  qed
qed

end

section \<open>The bookkeeping behind the exact pools\<close>

text \<open>
  \<open>cursor U it\<close>: the iterator \<open>it\<close> still has to produce a final segment of \<open>U\<close>. \<open>exact_core\<close> ties the
  iterator, the subnets taken ahead of it and the free ones to the subnets handed out: what is not
  handed out is free or still to come and not taken.
\<close>

definition cursor :: "'n::linorder set \<Rightarrow> 'n list \<Rightarrow> bool" where
  "cursor U it \<longleftrightarrow> sorted_wrt (<) it \<and> set it \<subseteq> U \<and> (\<forall>x \<in> U - set it. \<forall>y \<in> set it. x < y)"

definition exact_core ::
  "'n::linorder set \<Rightarrow> 'n set \<Rightarrow> 'n list \<Rightarrow> 'n set \<Rightarrow> 'n set \<Rightarrow> bool" where
  "exact_core U A it T F \<longleftrightarrow>
     cursor U it \<and> A \<subseteq> U \<and> T \<subseteq> A \<and> F \<inter> set it = {} \<and> U - A = F \<union> (set it - T)"

lemma cursor_init: "sorted_wrt (<) it \<Longrightarrow> cursor (set it) it"
  by (simp add: cursor_def)

lemma cursor_tl: "cursor U (x # it) \<Longrightarrow> cursor U it"
  by (auto simp: cursor_def)

lemma cursor_before:
  "cursor U (nxt # it) \<Longrightarrow> s \<in> U \<Longrightarrow> s \<in> set (nxt # it) \<longleftrightarrow> nxt \<le> s"
  by (auto simp: cursor_def order.strict_iff_not intro: less_imp_le)

lemma exact_core_init: "sorted_wrt (<) it \<Longrightarrow> exact_core (set it) {} it {} {}"
  by (simp add: exact_core_def cursor_init)

lemma core_pop_free: "exact_core U A it T F \<Longrightarrow> x \<in> F \<Longrightarrow>
    x \<in> U - A \<and> exact_core U (insert x A) it T (F - {x})"
  by (auto simp: exact_core_def)

lemma core_skip_Some: "exact_core U A it T {} \<Longrightarrow> iter_skip_taken T it = (Some x, it') \<Longrightarrow>
    x \<in> U - A \<and> exact_core U (insert x A) it' T {}"
proof (induction T it rule: iter_skip_taken.induct)
  case (1 T)
  then show ?case by simp
next
  case (2 T y it)
  have c: "cursor U it" and d: "y \<notin> set it"
    using "2.prems"(1) by (auto simp: exact_core_def cursor_def)
  show ?case
  proof (cases "y \<in> T")
    case True
    then have "exact_core U A it T {}"
      using "2.prems"(1) c by (auto simp: exact_core_def)
    then show ?thesis using "2.IH" "2.prems" True by simp
  next
    case False
    then show ?thesis using "2.prems" c d by (auto simp: exact_core_def)
  qed
qed

lemma core_skip_None: "exact_core U A it T {} \<Longrightarrow> iter_skip_taken T it = (None, it') \<Longrightarrow>
    A = U \<and> exact_core U A it' T {}"
proof (induction T it rule: iter_skip_taken.induct)
  case (1 T)
  then show ?case by (auto simp: exact_core_def)
next
  case (2 T y it)
  then have "y \<in> T" and "iter_skip_taken T it = (None, it')" by (auto split: if_splits)
  moreover from this have "exact_core U A it T {}"
    using "2.prems"(1) cursor_tl by (auto simp: exact_core_def)
  ultimately show ?case using "2.IH" by blast
qed

lemma core_back_ahead:
  assumes "exact_core U A (nxt # it) T F" and "s \<in> T" and "nxt \<le> s"
  shows "exact_core U (A - {s}) (nxt # it) (T - {s}) F"
proof -
  have "s \<in> set (nxt # it)"
    using assms cursor_before [of U nxt it s] by (auto simp: exact_core_def)
  then show ?thesis using assms by (auto simp: exact_core_def)
qed

lemma core_back_behind:
  assumes "exact_core U A it T F" and "s \<in> A"
    and "\<not> (s \<in> T \<and> (case it of nxt # _ \<Rightarrow> nxt \<le> s | [] \<Rightarrow> False))"
  shows "exact_core U (A - {s}) it (T - {s}) (insert s F)"
proof -
  have "s \<notin> set it"
  proof (cases it)
    case Nil
    then show ?thesis by simp
  next
    case (Cons nxt it')
    then show ?thesis
      using assms cursor_before [of U nxt it' s] by (auto simp: exact_core_def)
  qed
  then show ?thesis using assms by (auto simp: exact_core_def)
qed

lemma core_get_ahead:
  assumes "exact_core U A (nxt # it) T F" and "nxt < s" and "s \<in> U"
  shows "s \<in> A \<longleftrightarrow> s \<in> T"
    and "s \<notin> A \<Longrightarrow> exact_core U (insert s A) (nxt # it) (insert s T) F"
proof -
  have "s \<in> set it"
    using assms cursor_before [of U nxt it s] by (auto simp: exact_core_def)
  then show "s \<in> A \<longleftrightarrow> s \<in> T" and
    "s \<notin> A \<Longrightarrow> exact_core U (insert s A) (nxt # it) (insert s T) F"
    using assms by (auto simp: exact_core_def)
qed

lemma core_get_head:
  assumes "exact_core U A (s # it) T F" and "s \<notin> A"
  shows "exact_core U (insert s A) it T F"
proof -
  have "s \<notin> set it" "cursor U it"
    using assms cursor_tl by (auto simp: exact_core_def cursor_def)
  then show ?thesis using assms by (auto simp: exact_core_def)
qed

lemma core_get_free:
  assumes "exact_core U A it T F" and "s \<in> U" and "case it of nxt # _ \<Rightarrow> s < nxt | [] \<Rightarrow> True"
  shows "s \<in> A \<longleftrightarrow> s \<notin> F"
proof -
  have "s \<notin> set it"
    using assms cursor_before [of U _ _ s] by (cases it) (fastforce simp: exact_core_def)+
  then show ?thesis using assms by (auto simp: exact_core_def)
qed

lemmas core_ops = core_pop_free core_skip_Some core_skip_None core_back_ahead core_back_behind
  core_get_ahead core_get_head core_get_free

section \<open>The pools keep the contract\<close>

text \<open>The FIFO pool: no subnet is twice among the free ones and those still to come.\<close>

definition fifo_inv :: "'n set \<Rightarrow> 'n set \<Rightarrow> 'n fifo_pool \<Rightarrow> bool" where
  "fifo_inv U A p \<longleftrightarrow>
     A \<subseteq> U \<and> distinct (fp_free p @ fp_iter p) \<and> U - A = set (fp_free p @ fp_iter p)"

definition exact_inv :: "'n::linorder set \<Rightarrow> 'n set \<Rightarrow> 'n exact_pool \<Rightarrow> bool" where
  "exact_inv U A p \<longleftrightarrow>
     exact_core U A (ep_iter p) (ep_taken p) (set (ep_free p)) \<and> sorted_wrt (<) (ep_free p)"

definition fifo_exact_inv :: "'n::linorder set \<Rightarrow> 'n set \<Rightarrow> 'n fifo_exact_pool \<Rightarrow> bool" where
  "fifo_exact_inv U A p \<longleftrightarrow>
     exact_core U A (fe_iter p) (fe_taken p) (fe_free_set p) \<and> fe_free_set p \<subseteq> set (fe_free_q p)"

definition exact_doubly :: "'n \<Rightarrow> 'n exact_pool \<Rightarrow> bool" where
  "exact_doubly s p \<longleftrightarrow> s \<in> ep_taken p \<and> (case ep_iter p of nxt # _ \<Rightarrow> s = nxt | [] \<Rightarrow> False)"

definition fifo_exact_doubly :: "'n \<Rightarrow> 'n fifo_exact_pool \<Rightarrow> bool" where
  "fifo_exact_doubly s p \<longleftrightarrow>
     s \<in> fe_taken p \<and> (case fe_iter p of nxt # _ \<Rightarrow> s = nxt | [] \<Rightarrow> False)"

interpretation fifo: subnet_pool fifo_inv fifo_get_next fifo_give_back
proof (unfold_locales, goal_cases)
  case 1
  then show ?case by (simp add: fifo_inv_def)
next
  case 2
  then show ?case by (auto simp: fifo_inv_def fifo_get_next_def split: list.splits)
next
  case 3
  then show ?case by (auto simp: fifo_inv_def fifo_get_next_def split: list.splits)
next
  case 4
  then show ?case by (auto simp: fifo_inv_def fifo_give_back_def)
qed

lemma sorted_wrt_less_insort_insert:
  "sorted_wrt (<) xs \<Longrightarrow> sorted_wrt (<) (insort_insert (x::'n::linorder) xs)"
  by (simp add: strict_sorted_iff sorted_insort distinct_insort insort_insert_key_def)

lemma sorted_wrt_less_remove1:
  "sorted_wrt (<) xs \<Longrightarrow> sorted_wrt (<) (remove1 (x::'n::linorder) xs)"
  by (simp add: strict_sorted_iff sorted_remove1)

lemma exact_next_Some:
  "exact_inv U A p \<Longrightarrow> exact_get_next p = (Some s, p') \<Longrightarrow>
     s \<in> U - A \<and> exact_inv U (insert s A) p'"
  unfolding exact_inv_def exact_get_next_def
  by (cases "ep_free p") (force dest: core_pop_free core_skip_Some split: prod.splits)+

lemma exact_next_None:
  "exact_inv U A p \<Longrightarrow> exact_get_next p = (None, p') \<Longrightarrow> A = U \<and> exact_inv U A p'"
  unfolding exact_inv_def exact_get_next_def
  by (cases "ep_free p") (auto dest: core_skip_None split: prod.splits)

lemma exact_returned:
  assumes "exact_inv U A p" and "s \<in> A"
  shows "exact_inv U (A - {s}) (exact_give_back s p)"
proof (cases "s \<in> ep_taken p \<and> (case ep_iter p of nxt # _ \<Rightarrow> nxt \<le> s | [] \<Rightarrow> False)")
  case True
  then show ?thesis
    using assms core_back_ahead [of U A _ _ "ep_taken p" "set (ep_free p)" s]
    by (auto simp: exact_inv_def exact_give_back_def split: list.splits)
next
  case False
  then show ?thesis
    using assms core_back_behind [of U A "ep_iter p" "ep_taken p" "set (ep_free p)" s]
    by (auto simp add: exact_inv_def exact_give_back_def Let_def set_insort_insert
        sorted_wrt_less_insort_insert)
qed

lemma exact_get_ok:
  assumes "exact_inv U A p" and "s \<in> U - A"
  shows "fst (exact_get s p) = Inr s \<and> exact_inv U (insert s A) (snd (exact_get s p))"
proof (cases "ep_iter p")
  case Nil
  then show ?thesis
    using assms core_get_free [of U A "[]" "ep_taken p" "set (ep_free p)" s]
      core_pop_free [of U A "[]" "ep_taken p" "set (ep_free p)" s]
    by (auto simp: exact_inv_def exact_get_def sorted_remove1 strict_sorted_iff)
next
  case (Cons nxt it)
  consider "nxt < s" | "s = nxt" | "s < nxt" by (rule linorder_cases)
  then show ?thesis
  proof cases
    case 1
    then show ?thesis
      using assms Cons core_get_ahead [of U A nxt it "ep_taken p" "set (ep_free p)" s]
      by (auto simp: exact_inv_def exact_get_def)
  next
    case 2
    then show ?thesis
      using assms Cons core_get_head [of U A s it "ep_taken p" "set (ep_free p)"]
      by (auto simp: exact_inv_def exact_get_def)
  next
    case 3
    then show ?thesis
      using assms Cons core_get_free [of U A "nxt # it" "ep_taken p" "set (ep_free p)" s]
        core_pop_free [of U A "nxt # it" "ep_taken p" "set (ep_free p)" s]
      by (auto simp: exact_inv_def exact_get_def sorted_remove1 strict_sorted_iff)
  qed
qed

lemma exact_get_denied:
  assumes "exact_inv U A p" and "s \<in> A" and "\<not> exact_doubly s p"
  shows "exact_get s p = (Inl (SubnetNotFree s), p)"
proof -
  have "s \<in> U" using assms by (auto simp: exact_inv_def exact_core_def)
  moreover have "s \<notin> set (ep_free p)" "s \<in> set (ep_iter p) \<Longrightarrow> s \<in> ep_taken p"
    using assms by (auto simp: exact_inv_def exact_core_def)
  ultimately show ?thesis
    using assms cursor_before [of U _ _ s]
    by (cases "ep_iter p") (auto simp: exact_inv_def exact_core_def exact_get_def exact_doubly_def)
qed

interpretation exact: exact_subnet_pool exact_inv exact_get_next exact_give_back exact_get exact_doubly
proof (unfold_locales, goal_cases)
  case 1
  then show ?case by (simp add: exact_inv_def exact_core_def)
next
  case 2
  then show ?case by (rule exact_next_Some)
next
  case 3
  then show ?case by (rule exact_next_None)
next
  case 4
  then show ?case by (rule exact_returned)
next
  case 5
  then show ?case by (rule exact_get_ok)
next
  case 6
  then show ?case by (rule exact_get_denied)
qed

lemma pop_free_Some: "pop_free F q = (Some x, q') \<Longrightarrow> x \<in> F \<and> (\<forall>y \<in> F. y \<in> set q \<longrightarrow> y = x \<or> y \<in> set q')"
  by (induction F q rule: pop_free.induct) (auto split: if_splits)

lemma pop_free_None: "pop_free F q = (None, q') \<Longrightarrow> q' = [] \<and> F \<inter> set q = {}"
  by (induction F q rule: pop_free.induct) (auto split: if_splits)

lemma fifo_exact_next_Some:
  assumes "fifo_exact_inv U A p" and "fifo_exact_get_next p = (Some s, p')"
  shows "s \<in> U - A \<and> fifo_exact_inv U (insert s A) p'"
proof (cases "pop_free (fe_free_set p) (fe_free_q p)")
  case (Pair r q)
  show ?thesis
  proof (cases r)
    case None
    then have "fe_free_set p = {}"
      using Pair assms pop_free_None by (fastforce simp: fifo_exact_inv_def)
    then show ?thesis
      using assms Pair None core_skip_Some [of U A "fe_iter p" "fe_taken p" s]
      by (auto simp: fifo_exact_inv_def fifo_exact_get_next_def split: prod.splits)
  next
    case (Some x)
    then show ?thesis
      using assms Pair pop_free_Some [of "fe_free_set p" "fe_free_q p" x q]
        core_pop_free [of U A "fe_iter p" "fe_taken p" "fe_free_set p" x]
      by (auto simp: fifo_exact_inv_def fifo_exact_get_next_def subset_iff)
  qed
qed

lemma fifo_exact_next_None:
  assumes "fifo_exact_inv U A p" and "fifo_exact_get_next p = (None, p')"
  shows "A = U \<and> fifo_exact_inv U A p'"
proof (cases "pop_free (fe_free_set p) (fe_free_q p)")
  case (Pair r q)
  then have "r = None" using assms(2) by (auto simp: fifo_exact_get_next_def split: option.splits)
  moreover from this have "fe_free_set p = {}"
    using Pair assms pop_free_None by (fastforce simp: fifo_exact_inv_def)
  ultimately show ?thesis
    using assms Pair core_skip_None [of U A "fe_iter p" "fe_taken p"]
    by (fastforce simp: fifo_exact_inv_def fifo_exact_get_next_def split: prod.splits)
qed

lemma fifo_exact_returned:
  assumes "fifo_exact_inv U A p" and "s \<in> A"
  shows "fifo_exact_inv U (A - {s}) (fifo_exact_give_back s p)"
proof (cases "s \<in> fe_taken p \<and> (case fe_iter p of nxt # _ \<Rightarrow> nxt \<le> s | [] \<Rightarrow> False)")
  case True
  then show ?thesis
    using assms core_back_ahead [of U A _ _ "fe_taken p" "fe_free_set p" s]
    by (auto simp: fifo_exact_inv_def fifo_exact_give_back_def split: list.splits)
next
  case False
  have "s \<notin> fe_free_set p" using assms by (auto simp: fifo_exact_inv_def exact_core_def)
  then show ?thesis
    using False assms core_back_behind [of U A "fe_iter p" "fe_taken p" "fe_free_set p" s]
    by (auto simp add: fifo_exact_inv_def fifo_exact_give_back_def Let_def)
qed

lemma fifo_exact_get_ok:
  assumes "fifo_exact_inv U A p" and "s \<in> U - A"
  shows "fst (fifo_exact_get s p) = Inr s \<and> fifo_exact_inv U (insert s A) (snd (fifo_exact_get s p))"
proof (cases "fe_iter p")
  case Nil
  then show ?thesis
    using assms core_get_free [of U A "[]" "fe_taken p" "fe_free_set p" s]
      core_pop_free [of U A "[]" "fe_taken p" "fe_free_set p" s]
    by (auto simp: fifo_exact_inv_def fifo_exact_get_def)
next
  case (Cons nxt it)
  consider "nxt < s" | "s = nxt" | "s < nxt" by (rule linorder_cases)
  then show ?thesis
  proof cases
    case 1
    then show ?thesis
      using assms Cons core_get_ahead [of U A nxt it "fe_taken p" "fe_free_set p" s]
      by (auto simp: fifo_exact_inv_def fifo_exact_get_def)
  next
    case 2
    then show ?thesis
      using assms Cons core_get_head [of U A s it "fe_taken p" "fe_free_set p"]
      by (auto simp: fifo_exact_inv_def fifo_exact_get_def)
  next
    case 3
    then show ?thesis
      using assms Cons core_get_free [of U A "nxt # it" "fe_taken p" "fe_free_set p" s]
        core_pop_free [of U A "nxt # it" "fe_taken p" "fe_free_set p" s]
      by (auto simp: fifo_exact_inv_def fifo_exact_get_def)
  qed
qed

lemma fifo_exact_get_denied:
  assumes "fifo_exact_inv U A p" and "s \<in> A" and "\<not> fifo_exact_doubly s p"
  shows "fifo_exact_get s p = (Inl (SubnetNotFree s), p)"
proof -
  have "s \<in> U" using assms by (auto simp: fifo_exact_inv_def exact_core_def)
  moreover have "s \<notin> fe_free_set p" "s \<in> set (fe_iter p) \<Longrightarrow> s \<in> fe_taken p"
    using assms by (auto simp: fifo_exact_inv_def exact_core_def)
  ultimately show ?thesis
    using assms cursor_before [of U _ _ s]
    by (cases "fe_iter p")
      (auto simp: fifo_exact_inv_def exact_core_def fifo_exact_get_def fifo_exact_doubly_def)
qed

interpretation fifo_exact: exact_subnet_pool fifo_exact_inv fifo_exact_get_next
  fifo_exact_give_back fifo_exact_get fifo_exact_doubly
proof (unfold_locales, goal_cases)
  case 1
  then show ?case by (simp add: fifo_exact_inv_def exact_core_def)
next
  case 2
  then show ?case by (rule fifo_exact_next_Some)
next
  case 3
  then show ?case by (rule fifo_exact_next_None)
next
  case 4
  then show ?case by (rule fifo_exact_returned)
next
  case 5
  then show ?case by (rule fifo_exact_get_ok)
next
  case 6
  then show ?case by (rule fifo_exact_get_denied)
qed

section \<open>Properties\<close>

text \<open>
  Over any session of a client with the pool that the networking providers use
  (\<^verbatim>\<open>FifoExactIpv4SubnetPool\<close>), starting from \<^verbatim>\<open>new\<close>, the client never holds a subnet twice, holds
  only subnets of the pool's network, and when \<^verbatim>\<open>get_next\<close> finally answers \<^verbatim>\<open>None\<close> it holds every
  one of them. The session returns only what it holds and requests subnets of the network that are
  not in the \<open>fifo_exact_doubly\<close> situation (see \<open>exact_pools_double_grant\<close>).
\<close>

theorem fifo_exact_session:
  assumes "fifo_exact_new subnets P net = Inr p0" and "subnets net P = Inr it"
    and "sorted_wrt (<) it"
    and "session fifo_exact_get_next fifo_exact_give_back fifo_exact_get fifo_exact_doubly (set it)
      ops [] p0 = Some (H, p)"
  shows "distinct H \<and> set H \<subseteq> set it
    \<and> (fst (fifo_exact_get_next p) = None \<longrightarrow> set H = set it)
    \<and> (\<forall>s. fst (fifo_exact_get_next p) = Some s \<longrightarrow> s \<in> set it - set H)"
proof -
  have "fifo_exact_inv (set it) (set []) p0"
    using assms exact_core_init [of it] by (auto simp: fifo_exact_new_def fifo_exact_inv_def)
  then have i: "fifo_exact_inv (set it) (set H) p" and d: "distinct H"
    using fifo_exact.session_inv assms(4) distinct.simps(1) by blast+
  show ?thesis
    using d fifo_exact.inv_sub [OF i] fifo_exact.next_None [OF i] fifo_exact.next_Some [OF i]
    by (cases "fifo_exact_get_next p") auto
qed

theorem fifo_exact_session_witness:
  "session fifo_exact_get_next fifo_exact_give_back fifo_exact_get fifo_exact_doubly
      (set [10, 20, 30::nat]) [Get 20, Next, Back 20, Next, Back 10, Get 10] []
      \<lparr>fe_iter = [10, 20, 30], fe_taken = {}, fe_free_q = [], fe_free_set = {}\<rparr>
    = Some ([10, 20], \<lparr>fe_iter = [30], fe_taken = {}, fe_free_q = [10], fe_free_set = {}\<rparr>)
   \<and> distinct [10, 20::nat] \<and> set [10, 20::nat] \<subseteq> set [10, 20, 30]"
  (is "?run \<and> _")
proof -
  have run: ?run by code_simp
  have new: "fifo_exact_new (\<lambda>(_::nat) (_::nat). Inr [10, 20, 30] :: unit + nat list) 24 0 =
      Inr \<lparr>fe_iter = [10, 20, 30], fe_taken = {}, fe_free_q = [], fe_free_set = {}\<rparr>"
    by (simp add: fifo_exact_new_def)
  show ?thesis
    using run fifo_exact_session [OF new _ _ run] by (intro conjI) simp_all
qed

text \<open>
  \<^verbatim>\<open>ExactIpv4SubnetPool\<close> keeps the same contract, and its automatic hand-out always takes the
  smallest free subnet, if there is one, before it advances the iterator.
\<close>

theorem exact_session:
  assumes "exact_new subnets P net = Inr p0" and "subnets net P = Inr it" and "sorted_wrt (<) it"
    and "session exact_get_next exact_give_back exact_get exact_doubly (set it) ops [] p0
      = Some (H, p)"
  shows "distinct H \<and> set H \<subseteq> set it
    \<and> (fst (exact_get_next p) = None \<longrightarrow> set H = set it)
    \<and> (\<forall>s. fst (exact_get_next p) = Some s \<longrightarrow>
          s \<in> set it - set H \<and> (\<forall>f \<in> set (ep_free p). s \<le> f))"
proof -
  have "exact_inv (set it) (set []) p0"
    using assms exact_core_init [of it] by (auto simp: exact_new_def exact_inv_def)
  then have i: "exact_inv (set it) (set H) p" and d: "distinct H"
    using exact.session_inv assms(4) distinct.simps(1) by blast+
  have "\<forall>s. fst (exact_get_next p) = Some s \<longrightarrow> (\<forall>f \<in> set (ep_free p). s \<le> f)"
    using i by (auto simp: exact_get_next_def exact_inv_def less_imp_le split: list.splits)
  then show ?thesis
    using d exact.inv_sub [OF i] exact.next_None [OF i] exact.next_Some [OF i]
    by (cases "exact_get_next p") auto
qed

theorem exact_session_witness:
  "session exact_get_next exact_give_back exact_get exact_doubly (set [10, 20, 30::nat])
      [Next, Next, Back 20, Back 10] [] \<lparr>ep_iter = [10, 20, 30], ep_free = [], ep_taken = {}\<rparr>
    = Some ([], \<lparr>ep_iter = [30], ep_free = [10, 20], ep_taken = {}\<rparr>)
   \<and> fst (exact_get_next \<lparr>ep_iter = [30], ep_free = [10, 20], ep_taken = {}\<rparr>) = Some (10::nat)
   \<and> (10::nat) \<in> set [10, 20, 30] - set []"
  (is "?run \<and> ?next \<and> _")
proof -
  have run: ?run by code_simp
  have nxt: ?next by code_simp
  have new: "exact_new (\<lambda>(_::nat) (_::nat). Inr [10, 20, 30] :: unit + nat list) 24 0 =
      Inr \<lparr>ep_iter = [10, 20, 30], ep_free = [], ep_taken = {}\<rparr>"
    by (simp add: exact_new_def)
  show ?thesis
    using run nxt exact_session [OF new _ _ run] by (intro conjI) simp_all
qed

text \<open>
  The exact pools hand out the same subnet twice. A subnet requested ahead of the iterator is
  recorded in \<^verbatim>\<open>taken\<close> only; once \<^verbatim>\<open>get_next\<close> has advanced the iterator up to it, the second branch
  of \<^verbatim>\<open>get\<close> compares it with the iterator's head and grants it again without looking at \<^verbatim>\<open>taken\<close>.
  Here the third of four subnets is granted twice with no return in between, by both pools.
\<close>

theorem exact_pools_double_grant:
  "(let p0 = \<lparr>fe_iter = [10, 20, 30, 40::nat], fe_taken = {}, fe_free_q = [], fe_free_set = {}\<rparr>;
        (r1 :: (unit, nat) subnet_pool_error + nat, p1) = fifo_exact_get 30 p0;
        (n1, p2) = fifo_exact_get_next p1; (n2, p3) = fifo_exact_get_next p2;
        (r2 :: (unit, nat) subnet_pool_error + nat, p4) = fifo_exact_get 30 p3
    in r1 = Inr 30 \<and> n1 = Some 10 \<and> n2 = Some 20 \<and> r2 = Inr 30)
   \<and> (let q0 = \<lparr>ep_iter = [10, 20, 30, 40::nat], ep_free = [], ep_taken = {}\<rparr>;
           (r1 :: (unit, nat) subnet_pool_error + nat, q1) = exact_get 30 q0;
           (n1, q2) = exact_get_next q1; (n2, q3) = exact_get_next q2;
           (r2 :: (unit, nat) subnet_pool_error + nat, q4) = exact_get 30 q3
       in r1 = Inr 30 \<and> n1 = Some 10 \<and> n2 = Some 20 \<and> r2 = Inr 30)"
  by (simp add: fifo_exact_get_next_def fifo_exact_get_def exact_get_next_def exact_get_def)

end
