(* ===== verification/Cpuset.thy ===== *)
theory Cpuset
  imports Prelude
begin

text \<open>
  \<^verbatim>\<open>sbpool/cpuset.rs\<close>: parsing of cpuset strings and the manager that gives every running worker
  the CPU with the fewest occupants. Strings are ASCII. The \<^verbatim>\<open>PriorityQueue\<close> of the
  \<^verbatim>\<open>priority-queue\<close> crate is the parameter \<open>pq_ops\<close>; \<open>pq_spec\<close> states the documented behaviour of
  the operations that are used. Arithmetic on \<^verbatim>\<open>u16\<close> wraps, as it does in a release build.
\<close>

section \<open>String primitives of the standard library\<close>

definition is_ws :: "char \<Rightarrow> bool" where
  "is_ws c \<longleftrightarrow> c \<in> set [CHR 0x09, CHR 0x0A, CHR 0x0B, CHR 0x0C, CHR 0x0D, CHR '' '']"

definition trim :: "string \<Rightarrow> string" where
  "trim s = rev (dropWhile is_ws (rev (dropWhile is_ws s)))"

fun split_on :: "char \<Rightarrow> string \<Rightarrow> string list" where
  "split_on c [] = [[]]"
| "split_on c (x # xs) =
     (if x = c then [] # split_on c xs
      else case split_on c xs of [] \<Rightarrow> [[x]] | y # ys \<Rightarrow> (x # y) # ys)"

definition split_terminator :: "char \<Rightarrow> string \<Rightarrow> string list" where
  "split_terminator c s =
     (let ps = split_on c s in if last ps = [] then butlast ps else ps)"

definition starts_with :: "string \<Rightarrow> string \<Rightarrow> bool" where
  "starts_with pre s \<longleftrightarrow> take (length pre) s = pre"

datatype int_error_kind = Empty | InvalidDigit | PosOverflow

definition to_digit :: "char \<Rightarrow> nat option" where
  "to_digit c =
     (let n = of_char c :: nat in if 48 \<le> n \<and> n \<le> 57 then Some (n - 48) else None)"

text \<open>\<^verbatim>\<open>u16::from_str\<close>: an optional plus sign, then at least one decimal digit, in range.\<close>

fun parse_digits :: "nat \<Rightarrow> string \<Rightarrow> int_error_kind + nat" where
  "parse_digits acc [] = Inr acc"
| "parse_digits acc (c # cs) =
     (case to_digit c of None \<Rightarrow> Inl InvalidDigit
      | Some d \<Rightarrow> if 10 * acc + d < 65536 then parse_digits (10 * acc + d) cs else Inl PosOverflow)"

definition parse_u16 :: "string \<Rightarrow> int_error_kind + 16 word" where
  "parse_u16 s =
     (let go = (\<lambda>ds. case parse_digits 0 ds of Inl e \<Rightarrow> Inl e | Inr n \<Rightarrow> Inr (of_nat n)) in
      case s of [] \<Rightarrow> Inl Empty
      | c # cs \<Rightarrow> if c = CHR ''+'' then (if cs = [] then Inl InvalidDigit else go cs)
                  else if c = CHR ''-'' \<and> cs = [] then Inl InvalidDigit
                  else go (c # cs))"

section \<open>Parsing\<close>

datatype cpuset_error =
  ParseCpuRange "int_error_kind option"
| AllocationNotFound worker_id

text \<open>One item of the comma-separated list: a CPU or a range. Only the first two dash-separated
  numbers are looked at. The range \<^verbatim>\<open>start..end + 1\<close> is computed on \<^verbatim>\<open>u16\<close>.\<close>

definition parse_item :: "string \<Rightarrow> cpuset_error + 16 word list" where
  "parse_item item =
     (case map trim (split_on CHR ''-'' item) of
        [] \<Rightarrow> Inr []
      | [a] \<Rightarrow> (case parse_u16 a of Inl e \<Rightarrow> Inl (ParseCpuRange (Some e)) | Inr n \<Rightarrow> Inr [n])
      | a # b # _ \<Rightarrow>
          (case parse_u16 a of Inl e \<Rightarrow> Inl (ParseCpuRange (Some e))
           | Inr start \<Rightarrow>
               (case parse_u16 b of Inl e \<Rightarrow> Inl (ParseCpuRange (Some e))
                | Inr stop \<Rightarrow>
                    if stop < start then Inl (ParseCpuRange None)
                    else Inr (map of_nat [unat start ..< unat (stop + 1)]))))"

fun parse_items :: "string list \<Rightarrow> cpuset_error + 16 word list" where
  "parse_items [] = Inr []"
| "parse_items (c # cs) =
     (if trim c = [] then parse_items cs
      else case parse_item (trim c) of Inl e \<Rightarrow> Inl e
           | Inr xs \<Rightarrow> (case parse_items cs of Inl e \<Rightarrow> Inl e | Inr ys \<Rightarrow> Inr (xs @ ys)))"

definition parse_cpuset :: "string \<Rightarrow> cpuset_error + 16 word list" where
  "parse_cpuset s = parse_items (split_terminator CHR '','' s)"

text \<open>\<open>status\<close> is the content of \<^verbatim>\<open>/proc/self/status\<close>, \<open>None\<close> when it cannot be read.\<close>

definition all_allowed_cpus :: "string option \<Rightarrow> cpuset_error fault + 16 word list" where
  "all_allowed_cpus status =
     (case status of None \<Rightarrow> Inl (Panic ''failed to open /proc/self/status'')
      | Some st \<Rightarrow>
          (case List.find (\<lambda>l. starts_with ''Cpus_allowed_list'' (trim l)) (rev (split_on CHR 0x0A st)) of
             None \<Rightarrow> Inl (Panic ''failed to find and parse all available CPUs'')
           | Some l \<Rightarrow> (case parse_cpuset (trim (last (split_on CHR '':'' l))) of
                          Inl e \<Rightarrow> Inl (Err e) | Inr xs \<Rightarrow> Inr xs)))"

section \<open>The manager\<close>

type_synonym cpu = "16 word"

record 'q pq_ops =
  pq_empty :: 'q
  pq_push :: "cpu \<Rightarrow> 16 word \<Rightarrow> 'q \<Rightarrow> 'q"
  pq_peek :: "'q \<Rightarrow> (cpu \<times> 16 word) option"
  pq_get_priority :: "cpu \<Rightarrow> 'q \<Rightarrow> 16 word option"
  pq_change_priority :: "cpu \<Rightarrow> 16 word \<Rightarrow> 'q \<Rightarrow> 16 word option \<times> 'q"

definition pq_spec :: "'q pq_ops \<Rightarrow> bool" where
  "pq_spec ops \<longleftrightarrow>
     (\<forall>c. pq_get_priority ops c (pq_empty ops) = None)
   \<and> (\<forall>c n q c'. pq_get_priority ops c' (pq_push ops c n q) =
        (if c' = c then Some n else pq_get_priority ops c' q))
   \<and> (\<forall>q. pq_peek ops q = None \<longleftrightarrow> (\<forall>c. pq_get_priority ops c q = None))
   \<and> (\<forall>q c n. pq_peek ops q = Some (c, n) \<longrightarrow> pq_get_priority ops c q = Some n
        \<and> (\<forall>c' n'. pq_get_priority ops c' q = Some n' \<longrightarrow> n \<le> n'))
   \<and> (\<forall>c n q. fst (pq_change_priority ops c n q) = pq_get_priority ops c q)
   \<and> (\<forall>c n q c'. pq_get_priority ops c' (snd (pq_change_priority ops c n q)) =
        (if c' = c \<and> pq_get_priority ops c q \<noteq> None then Some n else pq_get_priority ops c' q))"

record 'q cpuset_manager =
  cm_pq :: 'q
  cm_allocations :: "worker_id \<rightharpoonup> cpu"

definition cpuset_new ::
  "'q pq_ops \<Rightarrow> string option \<Rightarrow> string \<Rightarrow> cpuset_error fault + 'q cpuset_manager" where
  "cpuset_new ops status cpusets =
     (case (case parse_cpuset cpusets of Inl e \<Rightarrow> Inl (Err e)
            | Inr xs \<Rightarrow> if xs = [] then all_allowed_cpus status else Inr xs) of
        Inl e \<Rightarrow> Inl e
      | Inr cpus \<Rightarrow> Inr \<lparr>cm_pq = fold (\<lambda>c q. pq_push ops c 0 q) cpus (pq_empty ops),
                        cm_allocations = Map.empty\<rparr>)"

definition cpuset_alloc ::
  "'q pq_ops \<Rightarrow> worker_id \<Rightarrow> 'q cpuset_manager \<Rightarrow> (cpuset_error fault + cpu) \<times> 'q cpuset_manager" where
  "cpuset_alloc ops w m =
     (case pq_peek ops (cm_pq m) of
        None \<Rightarrow> (Inl (Panic ''cpuset priority queue never empties''), m)
      | Some (c, n) \<Rightarrow>
          (let m' = m\<lparr>cm_pq := snd (pq_change_priority ops c (n + 1) (cm_pq m)),
                      cm_allocations := (cm_allocations m)(w \<mapsto> c)\<rparr> in
           if cm_allocations m w = None then (Inr c, m')
           else (Inl (Panic ''WorkerId conflict in cpuset priority queue''), m')))"

definition cpuset_release ::
  "'q pq_ops \<Rightarrow> worker_id \<Rightarrow> 'q cpuset_manager
    \<Rightarrow> (cpuset_error fault + unit) \<times> 'q cpuset_manager" where
  "cpuset_release ops w m =
     (case cm_allocations m w of
        None \<Rightarrow> (Inl (Err (AllocationNotFound w)), m)
      | Some c \<Rightarrow>
          (let m' = m\<lparr>cm_allocations := (cm_allocations m)(w := None)\<rparr> in
           case pq_get_priority ops c (cm_pq m) of
             None \<Rightarrow> (Inl (Panic ''no CPU can ever be missing from the priority queue''), m')
           | Some n \<Rightarrow>
               (Inr (), m'\<lparr>cm_pq := snd (pq_change_priority ops c (n - 1) (cm_pq m))\<rparr>)))"

section \<open>Occupancy\<close>

definition occupants :: "'q cpuset_manager \<Rightarrow> cpu \<Rightarrow> nat" where
  "occupants m c = card {w. cm_allocations m w = Some c}"

definition managed :: "'q pq_ops \<Rightarrow> 'q cpuset_manager \<Rightarrow> cpu set" where
  "managed ops m = {c. pq_get_priority ops c (cm_pq m) \<noteq> None}"

text \<open>The priority of every CPU is the number of workers allocated to it.\<close>

definition cpuset_inv :: "'q pq_ops \<Rightarrow> 'q cpuset_manager \<Rightarrow> bool" where
  "cpuset_inv ops m \<longleftrightarrow>
     finite (dom (cm_allocations m)) \<and> ran (cm_allocations m) \<subseteq> managed ops m
   \<and> (\<forall>c n. pq_get_priority ops c (cm_pq m) = Some n \<longrightarrow> unat n = occupants m c)"

lemma pq_specD:
  assumes "pq_spec ops"
  shows "pq_get_priority ops c (pq_empty ops) = None"
    and "pq_get_priority ops c' (pq_push ops c n q) =
      (if c' = c then Some n else pq_get_priority ops c' q)"
    and "pq_peek ops q = None \<longleftrightarrow> (\<forall>c. pq_get_priority ops c q = None)"
    and "pq_peek ops q = Some (c, n) \<Longrightarrow> pq_get_priority ops c q = Some n"
    and "pq_peek ops q = Some (c, n) \<Longrightarrow> pq_get_priority ops c' q = Some n' \<Longrightarrow> n \<le> n'"
    and "pq_get_priority ops c' (snd (pq_change_priority ops c n q)) =
      (if c' = c \<and> pq_get_priority ops c q \<noteq> None then Some n else pq_get_priority ops c' q)"
  using assms unfolding pq_spec_def by metis+

lemma finite_occupants: "finite (dom (cm_allocations m)) \<Longrightarrow> finite {w. cm_allocations m w = Some c}"
  by (rule finite_subset [of _ "dom (cm_allocations m)"]) auto

lemma occupants_le: "finite (dom (cm_allocations m)) \<Longrightarrow> occupants m c \<le> card (dom (cm_allocations m))"
  unfolding occupants_def by (rule card_mono) auto

lemma occupants_upd:
  assumes "finite (dom (cm_allocations m))" and "cm_allocations m w = None"
    and "cm_allocations m' = (cm_allocations m)(w \<mapsto> c)"
  shows "occupants m' c' = (if c' = c then Suc (occupants m c) else occupants m c')"
proof -
  have "{v. cm_allocations m' v = Some c} = insert w {v. cm_allocations m v = Some c}"
    using assms by auto
  moreover have "{v. cm_allocations m' v = Some c'} = {v. cm_allocations m v = Some c'}" if "c' \<noteq> c"
    using assms that by auto
  ultimately show ?thesis
    using assms finite_occupants [OF assms(1)] by (auto simp: occupants_def)
qed

lemma occupants_del:
  assumes "finite (dom (cm_allocations m))" and "cm_allocations m w = Some c"
    and "cm_allocations m' = (cm_allocations m)(w := None)"
  shows "occupants m' c' = (if c' = c then occupants m c - 1 else occupants m c')"
    and "0 < occupants m c"
proof -
  have "{v. cm_allocations m' v = Some c} = {v. cm_allocations m v = Some c} - {w}"
    using assms by auto
  moreover have "{v. cm_allocations m' v = Some c'} = {v. cm_allocations m v = Some c'}" if "c' \<noteq> c"
    using assms that by auto
  moreover have "w \<in> {v. cm_allocations m v = Some c}" using assms by simp
  ultimately show "occupants m' c' = (if c' = c then occupants m c - 1 else occupants m c')"
    and "0 < occupants m c"
    using finite_occupants [OF assms(1)] by (auto simp: occupants_def card_gt_0_iff)
qed

lemma fold_push_get:
  assumes "pq_spec ops"
  shows "pq_get_priority ops c (fold (\<lambda>c q. pq_push ops c 0 q) cs q) =
    (if c \<in> set cs then Some 0 else pq_get_priority ops c q)"
  by (induction cs arbitrary: q) (auto simp: pq_specD [OF assms])

lemma cpuset_new_inv:
  assumes "pq_spec ops" and "cpuset_new ops status s = Inr m"
  shows "cpuset_inv ops m" and "\<forall>c \<in> managed ops m. occupants m c = 0"
  using assms
  by (auto simp: cpuset_new_def cpuset_inv_def managed_def occupants_def fold_push_get pq_specD
      split: sum.splits if_splits)

lemma cpuset_alloc_ok:
  assumes spec: "pq_spec ops" and i: "cpuset_inv ops m" and ne: "managed ops m \<noteq> {}"
    and w: "cm_allocations m w = None" and bd: "card (dom (cm_allocations m)) < 2 ^ 16 - 1"
  shows "\<exists>c m'. cpuset_alloc ops w m = (Inr c, m') \<and> c \<in> managed ops m
    \<and> (\<forall>c' \<in> managed ops m. occupants m c \<le> occupants m c')
    \<and> cm_allocations m' = (cm_allocations m)(w \<mapsto> c) \<and> managed ops m' = managed ops m
    \<and> (\<forall>c'. occupants m' c' = (if c' = c then Suc (occupants m c) else occupants m c'))
    \<and> cpuset_inv ops m'"
proof -
  note D = pq_specD [OF spec]
  from ne obtain c n where pk: "pq_peek ops (cm_pq m) = Some (c, n)"
    using D(3) [of "cm_pq m"] by (cases "pq_peek ops (cm_pq m)") (auto simp: managed_def)
  define m' where "m' = m\<lparr>cm_pq := snd (pq_change_priority ops c (n + 1) (cm_pq m)),
                      cm_allocations := (cm_allocations m)(w \<mapsto> c)\<rparr>"
  have al: "cpuset_alloc ops w m = (Inr c, m')"
    using pk w by (simp add: cpuset_alloc_def m'_def)
  have gc: "pq_get_priority ops c (cm_pq m) = Some n" by (rule D(4) [OF pk])
  have fin: "finite (dom (cm_allocations m))" and un: "unat n = occupants m c"
    and eq: "\<And>c n. pq_get_priority ops c (cm_pq m) = Some n \<Longrightarrow> unat n = occupants m c"
    using i gc by (auto simp: cpuset_inv_def)
  have occ: "\<forall>c'. occupants m' c' = (if c' = c then Suc (occupants m c) else occupants m c')"
    using occupants_upd [OF fin w, of m' c] by (simp add: m'_def)
  have "unat n < 2 ^ 16 - 1" using occupants_le [OF fin, of c] un bd by linarith
  then have un': "unat (n + 1) = Suc (unat n)" by (simp add: unat_word_ariths)
  have man: "managed ops m' = managed ops m" using gc by (auto simp: managed_def m'_def D(6))
  have "cpuset_inv ops m'"
    using i gc occ un un' eq man
    by (auto simp: cpuset_inv_def m'_def D(6) managed_def ran_def split: if_splits)
  moreover have "\<forall>c' \<in> managed ops m. occupants m c \<le> occupants m c'"
  proof
    fix c' assume "c' \<in> managed ops m"
    then obtain n' where n': "pq_get_priority ops c' (cm_pq m) = Some n'" by (auto simp: managed_def)
    then have "n \<le> n'" by (rule D(5) [OF pk])
    then show "occupants m c \<le> occupants m c'" using eq [OF gc] eq [OF n'] by (simp add: word_le_nat_alt)
  qed
  moreover have "c \<in> managed ops m" using gc by (simp add: managed_def)
  moreover have "cm_allocations m' = (cm_allocations m)(w \<mapsto> c)" by (simp add: m'_def)
  ultimately show ?thesis using al man occ by blast
qed

lemma cpuset_release_ok:
  assumes spec: "pq_spec ops" and i: "cpuset_inv ops m" and w: "cm_allocations m w = Some c"
  shows "\<exists>m'. cpuset_release ops w m = (Inr (), m')
    \<and> cm_allocations m' = (cm_allocations m)(w := None) \<and> managed ops m' = managed ops m
    \<and> (\<forall>c'. occupants m' c' = (if c' = c then occupants m c - 1 else occupants m c'))
    \<and> cpuset_inv ops m'"
proof -
  note D = pq_specD [OF spec]
  obtain n where gc: "pq_get_priority ops c (cm_pq m) = Some n"
    using i w by (auto simp: cpuset_inv_def managed_def ran_def)
  have fin: "finite (dom (cm_allocations m))" using i by (simp add: cpuset_inv_def)
  have eq: "\<And>c n. pq_get_priority ops c (cm_pq m) = Some n \<Longrightarrow> unat n = occupants m c"
    using i by (simp add: cpuset_inv_def)
  define m' where "m' = m\<lparr>cm_allocations := (cm_allocations m)(w := None),
     cm_pq := snd (pq_change_priority ops c (n - 1) (cm_pq m))\<rparr>"
  have occ: "\<forall>c'. occupants m' c' = (if c' = c then occupants m c - 1 else occupants m c')"
    using occupants_del(1) [OF fin w, of m'] by (simp add: m'_def)
  have "0 < unat n" using occupants_del(2) [OF fin w, of m'] eq [OF gc] by (simp add: m'_def)
  then have un': "unat (n - 1) = unat n - 1"
    by (metis One_nat_def Suc_leI unat_1 unat_sub word_le_nat_alt)
  have man: "managed ops m' = managed ops m" using gc by (auto simp: managed_def m'_def D(6))
  have "cpuset_inv ops m'"
    using i gc occ un' eq man
    by (auto simp: cpuset_inv_def m'_def D(6) managed_def ran_def split: if_splits)
  then show ?thesis
    using w gc man occ by (auto simp: cpuset_release_def m'_def Let_def)
qed

section \<open>Printing and parsing\<close>

text \<open>The notation that \<^verbatim>\<open>parse_cpuset\<close> reads, printed from a list of ranges.\<close>

fun show_nat :: "nat \<Rightarrow> string" where
  "show_nat n =
     (if n < 10 then [char_of (48 + n)] else show_nat (n div 10) @ [char_of (48 + n mod 10)])"

declare show_nat.simps [simp del]

definition show_range :: "16 word \<times> 16 word \<Rightarrow> string" where
  "show_range r = show_nat (unat (fst r)) @ ''-'' @ show_nat (unat (snd r))"


lemma to_digit_char_of [simp]: "d < 10 \<Longrightarrow> to_digit (char_of (48 + d)) = Some d"
  by (simp add: to_digit_def Let_def)

lemma parse_digits_snoc:
  "parse_digits acc (ds @ [c]) =
     (case parse_digits acc ds of Inl e \<Rightarrow> Inl e | Inr n \<Rightarrow> parse_digits n [c])"
  by (induction acc ds rule: parse_digits.induct) (auto split: option.splits)

lemma parse_show_nat: "n < 65536 \<Longrightarrow> parse_digits 0 (show_nat n) = Inr n"
proof (induction n rule: show_nat.induct)
  case (1 n)
  show ?case
  proof (cases "n < 10")
    case True
    then show ?thesis by (simp add: show_nat.simps)
  next
    case False
    then have "parse_digits 0 (show_nat (n div 10)) = Inr (n div 10)" using 1 by simp
    moreover have "10 * (n div 10) + n mod 10 = n" by simp
    ultimately show ?thesis
      using False 1(2) by (subst show_nat.simps) (simp add: parse_digits_snoc)
  qed
qed

definition digits :: "string \<Rightarrow> bool" where
  "digits s \<longleftrightarrow> s \<noteq> [] \<and> (\<forall>c \<in> set s. to_digit c \<noteq> None)"

lemma digits_show_nat: "digits (show_nat n)"
proof (induction n rule: show_nat.induct)
  case (1 n)
  then show ?case by (subst show_nat.simps) (auto simp: digits_def)
qed

lemma digit_not_special:
  assumes "to_digit c \<noteq> None"
  shows "c \<noteq> CHR ''-''" "c \<noteq> CHR '',''" "c \<noteq> CHR ''+''" "\<not> is_ws c"
  using assms by (auto simp: to_digit_def Let_def is_ws_def)

lemma parse_u16_show: "parse_u16 (show_nat (unat w)) = Inr w"
proof -
  have "unat w < 65536" using unsigned_less [of w, where ?'a = nat] by simp
  moreover obtain c cs where "show_nat (unat w) = c # cs" "to_digit c \<noteq> None"
    using digits_show_nat [of "unat w"] by (cases "show_nat (unat w)") (auto simp: digits_def)
  ultimately show ?thesis
    using parse_show_nat [of "unat w"] digit_not_special [of c]
    by (simp add: parse_u16_def)
qed

lemma dropWhile_ws: "(\<forall>c \<in> set s. \<not> is_ws c) \<Longrightarrow> dropWhile is_ws s = s"
  by (cases s) auto

lemma trim_id: "(\<forall>c \<in> set s. \<not> is_ws c) \<Longrightarrow> trim s = s"
  by (simp add: trim_def dropWhile_ws)

lemma split_on_plain: "c \<notin> set s \<Longrightarrow> split_on c s = [s]"
  by (induction s) auto

lemma split_on_append: "c \<notin> set s \<Longrightarrow> split_on c (s @ c # t) = s # split_on c t"
  by (induction s) auto

lemma show_range_chars:
  assumes "c \<in> set (show_range r)"
  shows "\<not> is_ws c" "c \<noteq> CHR '',''"
proof -
  have "c = CHR ''-'' \<or> to_digit c \<noteq> None"
    using assms digits_show_nat by (auto simp: show_range_def digits_def)
  then show "\<not> is_ws c" "c \<noteq> CHR '',''" using digit_not_special [of c] by (auto simp: is_ws_def)
qed

lemma parse_item_range:
  assumes "fst r \<le> snd r"
  shows "parse_item (show_range r) = Inr (map of_nat [unat (fst r) ..< unat (snd r + 1)])"
proof -
  have no: "CHR ''-'' \<notin> set (show_nat n)" "trim (show_nat n) = show_nat n" for n
    using digits_show_nat [of n] digit_not_special(1) [of "CHR ''-''"] digit_not_special(4)
      trim_id [of "show_nat n"]
    by (auto simp: digits_def)
  have "split_on CHR ''-'' (show_range r) = [show_nat (unat (fst r)), show_nat (unat (snd r))]"
    using split_on_append [OF no(1), of "unat (fst r)" "show_nat (unat (snd r))"]
      split_on_plain [OF no(1)]
    by (simp add: show_range_def)
  then show ?thesis using assms by (simp add: parse_item_def no parse_u16_show not_less)
qed



section \<open>Properties\<close>



text \<open>
  The largest CPU number cannot end a range. For \<^verbatim>\<open>a-65535\<close> the bound \<^verbatim>\<open>end + 1\<close> is computed on
  \<^verbatim>\<open>u16\<close> and wraps to zero, so that in a release build the range silently contributes no CPU.
\<close>

theorem parse_cpuset_wraps: "parse_cpuset (show_range (a, 65535)) = Inr []"
proof -
  have "split_on CHR '','' (show_range (a, 65535)) = [show_range (a, 65535)]"
    using show_range_chars(2) by (intro split_on_plain) blast
  moreover have "show_range (a, 65535) \<noteq> []" by (simp add: show_range_def)
  moreover have "trim (show_range (a, 65535)) = show_range (a, 65535)"
    using trim_id show_range_chars(1) by blast
  moreover have "a \<le> 65535"
    using unsigned_less [of a, where ?'a = nat] by (simp add: word_le_nat_alt)
  ultimately show ?thesis
    using parse_item_range [of "(a, 65535)"]
    by (simp add: parse_cpuset_def split_terminator_def)
qed

text \<open>
  C29: allocation is least-loaded and exact. From a consistent manager with at least one CPU and
  fewer than 65535 allocations, \<^verbatim>\<open>alloc\<close> for a new worker succeeds, chooses a CPU no busier than any
  other and adds exactly one occupant to it; a following \<^verbatim>\<open>release\<close> by the same worker succeeds and
  restores every occupancy. Both leave the manager consistent.
\<close>

theorem cpuset_alloc_release:
  assumes "pq_spec ops" and "cpuset_inv ops m" and "managed ops m \<noteq> {}"
    and "cm_allocations m w = None" and "card (dom (cm_allocations m)) < 2 ^ 16 - 1"
  shows "\<exists>c m1 m2. cpuset_alloc ops w m = (Inr c, m1) \<and> c \<in> managed ops m
    \<and> (\<forall>c'. c' \<in> managed ops m \<longrightarrow> occupants m c \<le> occupants m c')
    \<and> occupants m1 = (occupants m)(c := Suc (occupants m c)) \<and> cpuset_inv ops m1
    \<and> cpuset_release ops w m1 = (Inr (), m2) \<and> cpuset_inv ops m2
    \<and> occupants m2 = occupants m \<and> cm_allocations m2 = cm_allocations m"
proof -
  obtain c m1 where a: "cpuset_alloc ops w m = (Inr c, m1)" "cpuset_inv ops m1"
    "\<forall>c'. c' \<in> managed ops m \<longrightarrow> occupants m c \<le> occupants m c'" "c \<in> managed ops m"
    "cm_allocations m1 = (cm_allocations m)(w \<mapsto> c)"
    "\<forall>c'. occupants m1 c' = (if c' = c then Suc (occupants m c) else occupants m c')"
    using cpuset_alloc_ok [OF assms] by blast
  obtain m2 where r: "cpuset_release ops w m1 = (Inr (), m2)" "cpuset_inv ops m2"
    "cm_allocations m2 = (cm_allocations m1)(w := None)"
    "\<forall>c'. occupants m2 c' = (if c' = c then occupants m1 c - 1 else occupants m1 c')"
    using cpuset_release_ok [OF assms(1) a(2), of w c] a(5) by auto
  have "occupants m1 = (occupants m)(c := Suc (occupants m c))" using a(6) by auto
  moreover have "occupants m2 = occupants m" using a(6) r(4) by auto
  moreover have "cm_allocations m2 = cm_allocations m" using a(5) r(3) assms(4) by auto
  ultimately show ?thesis using a(1-4) r(1,2) by blast
qed

text \<open>A priority queue for the witnesses: an association list searched for its least entry.\<close>

definition list_pq :: "(cpu \<times> 16 word) list pq_ops" where
  "list_pq =
     \<lparr>pq_empty = [], pq_push = AList.update, pq_peek = (\<lambda>q. min_by_first snd (AList.clearjunk q)),
      pq_get_priority = (\<lambda>c q. map_of q c),
      pq_change_priority = (\<lambda>c n q. (map_of q c, if map_of q c = None then q else AList.update c n q))\<rparr>"

lemma list_pq_peek:
  assumes "min_by_first snd (AList.clearjunk q) = Some (c, n)"
  shows "map_of q c = Some n" and "map_of q c' = Some n' \<Longrightarrow> n \<le> n'"
proof -
  have d: "distinct (keys (AList.clearjunk q))" by simp
  note m = min_by_first_Some [OF assms]
  show "map_of q c = Some n"
    using m in_set_map_of [OF d, of c n] by (simp add: map_of_clearjunk)
  show "n \<le> n'" if "map_of q c' = Some n'"
    using m in_set_map_of [OF d, of c' n'] that by (fastforce simp: map_of_clearjunk)
qed

lemma list_pq_peek_None: "min_by_first snd (AList.clearjunk q) = None \<longleftrightarrow> (\<forall>c. map_of q c = None)"
  by (cases q) (auto simp: clearjunk.simps split: option.splits)

lemma pq_spec_list_pq: "pq_spec list_pq"
  unfolding pq_spec_def list_pq_def
  by (simp add: update_conv' list_pq_peek list_pq_peek_None del: min_by_first_None)

definition cpuset_example :: "(cpu \<times> 16 word) list cpuset_manager" where
  "cpuset_example = \<lparr>cm_pq = [(0, 1), (1, 0)], cm_allocations = [7 \<mapsto> 0]\<rparr>"

lemma cpuset_example_inv: "cpuset_inv list_pq cpuset_example"
proof -
  have "{w. w = (7::nat)} = {7}" by simp
  then show ?thesis
    by (auto simp: cpuset_inv_def cpuset_example_def list_pq_def managed_def occupants_def
        split: if_splits)
qed

theorem cpuset_alloc_release_witness:
  "\<exists>c m1 m2. cpuset_alloc list_pq 9 cpuset_example = (Inr c, m1)
    \<and> occupants m1 c = Suc (occupants cpuset_example c)
    \<and> cpuset_release list_pq 9 m1 = (Inr (), m2) \<and> occupants m2 = occupants cpuset_example"
proof -
  have "managed list_pq cpuset_example \<noteq> {}" "cm_allocations cpuset_example 9 = None"
    "card (dom (cm_allocations cpuset_example)) < 2 ^ 16 - 1"
    by (auto simp: managed_def cpuset_example_def list_pq_def intro!: exI [of _ 0])
  from cpuset_alloc_release [OF pq_spec_list_pq cpuset_example_inv this] show ?thesis
    by (elim exE conjE) (intro exI conjI, assumption, simp, assumption+)
qed

end
