(* ===== verification/Fmd_Store.thy ===== *)
theory Fmd_Store
  imports Prelude
begin

text \<open>
  \<^verbatim>\<open>metadata/fmd/stdhash.rs\<close>, \<^verbatim>\<open>metadata/stats.rs\<close>, \<^verbatim>\<open>metadata/registration/mod.rs\<close> (the
  records) and \<^verbatim>\<open>metadata/store/stdhash.rs\<close>: the store that keeps, for every registered
  function, its registration record, its counters and its Active, Idle and Dying workers.

  The store is an association list from function ids to metadata. Every method takes the lock
  once or twice and nothing else runs between, so that a method is one state transformation; a
  panic while the lock is held ends the run, so that poisoning is not observable. The contract of
  the store is the locale \<open>worker_store\<close>: a store is a map that says in which class and for which
  function a worker is tracked, and the methods are updates of that map.
\<close>

section \<open>Records\<close>

record fn_info =
  fi_id :: function_id
  fi_memory :: nat

record admission_overrides =
  ao_max_queued :: "nat option"
  ao_max_queue_delay :: "duration option"
  ao_max_live_instances :: "nat option"

record registered_function =
  rf_info :: fn_info
  rf_admission :: "admission_overrides option"

record function_stats =
  dispatch_attempts :: "64 word"
  dispatches :: "64 word"
  sandboxes_created :: "64 word"
  snapshots_created :: "64 word"
  snapshots_restored :: "64 word"
  workers_spawned :: "64 word"

definition stats_default :: function_stats where
  "stats_default =
     \<lparr>dispatch_attempts = 0, dispatches = 0, sandboxes_created = 0, snapshots_created = 0,
      snapshots_restored = 0, workers_spawned = 0\<rparr>"

record fmd =
  fmd_stats :: function_stats
  fmd_function :: registered_function
  active_workers :: "worker_id list"
  idle_workers :: "worker_id list"
  dying_workers :: "worker_id list"

definition fmd_new :: "registered_function \<Rightarrow> fmd" where
  "fmd_new rf =
     \<lparr>fmd_stats = stats_default, fmd_function = rf, active_workers = [], idle_workers = [],
      dying_workers = []\<rparr>"

datatype store_error =
  WorkerIdCollision worker_id
| WorkerNotFound worker_id string
| FunctionNotFound function_id

datatype registration_error =
  NotFound function_id
| AlreadyExists function_id
| InUse function_id nat

type_synonym fmd_store = "(function_id \<times> fmd) list"

section \<open>General methods and registration\<close>

definition function_exists :: "function_id \<Rightarrow> fmd_store \<Rightarrow> bool" where
  "function_exists fid s \<longleftrightarrow> map_of s fid \<noteq> None"

definition store_get :: "function_id \<Rightarrow> fmd_store \<Rightarrow> store_error fault + fmd" where
  "store_get fid s =
     (case map_of s fid of None \<Rightarrow> Inl (Panic ''function should already exist'') | Some m \<Rightarrow> Inr m)"

definition get_registered_function ::
  "function_id \<Rightarrow> fmd_store \<Rightarrow> store_error fault + registered_function" where
  "get_registered_function fid s = map_sum id fmd_function (store_get fid s)"

definition function_memory :: "function_id \<Rightarrow> fmd_store \<Rightarrow> store_error fault + nat" where
  "function_memory fid s = map_sum id (\<lambda>m. fi_memory (rf_info (fmd_function m))) (store_get fid s)"

definition get_function_stats :: "function_id \<Rightarrow> fmd_store \<Rightarrow> store_error fault + function_stats" where
  "get_function_stats fid s = map_sum id fmd_stats (store_get fid s)"

definition register_function ::
  "registered_function \<Rightarrow> fmd_store \<Rightarrow> (registration_error + unit) \<times> fmd_store" where
  "register_function rf s =
     (let fid = fi_id (rf_info rf) in
      if map_of s fid \<noteq> None then (Inl (AlreadyExists fid), s)
      else (Inr (), AList.update fid (fmd_new rf) s))"

definition deregister_function ::
  "function_id \<Rightarrow> fmd_store \<Rightarrow> (registration_error + registered_function) \<times> fmd_store" where
  "deregister_function fid s =
     (case map_of s fid of
        None \<Rightarrow> (Inl (NotFound fid), s)
      | Some m \<Rightarrow>
          (let n = length (active_workers m) + length (idle_workers m) + length (dying_workers m) in
           if n > 0 then (Inl (InUse fid n), s)
           else (Inr (fmd_function m), AList.delete fid s)))"

section \<open>Worker sets\<close>

text \<open>
  The methods for the three classes of workers have the same bodies up to the field they work on,
  \<^verbatim>\<open>find_remove_dying_worker\<close> apart.
\<close>

datatype wclass = Active | Idle | Dying

fun workers :: "wclass \<Rightarrow> fmd \<Rightarrow> worker_id list" where
  "workers Active m = active_workers m"
| "workers Idle m = idle_workers m"
| "workers Dying m = dying_workers m"

fun set_workers :: "wclass \<Rightarrow> worker_id list \<Rightarrow> fmd \<Rightarrow> fmd" where
  "set_workers Active ws m = m\<lparr>active_workers := ws\<rparr>"
| "set_workers Idle ws m = m\<lparr>idle_workers := ws\<rparr>"
| "set_workers Dying ws m = m\<lparr>dying_workers := ws\<rparr>"

fun no_such :: "wclass \<Rightarrow> string" where
  "no_such Active = ''no such Active Worker''"
| "no_such Idle = ''no such Idle Worker''"
| "no_such Dying = ''no such Dying Worker''"

definition find_worker :: "wclass \<Rightarrow> worker_id \<Rightarrow> fmd_store \<Rightarrow> function_id option" where
  "find_worker c w s = map_option fst (List.find (\<lambda>(fid, m). w \<in> set (workers c m)) s)"

definition remove_worker ::
  "wclass \<Rightarrow> worker_id \<Rightarrow> function_id \<Rightarrow> fmd_store \<Rightarrow> (store_error fault + bool) \<times> fmd_store" where
  "remove_worker c w fid s =
     (case map_of s fid of
        None \<Rightarrow> (Inl (Panic ''function should already exist''), s)
      | Some m \<Rightarrow>
          (case hs_remove w (workers c m) of
             (found, ws) \<Rightarrow> (Inr found, AList.update fid (set_workers c ws m) s)))"

definition insert_worker ::
  "wclass \<Rightarrow> worker_id \<Rightarrow> function_id \<Rightarrow> fmd_store \<Rightarrow> (store_error fault + unit) \<times> fmd_store" where
  "insert_worker c w fid s =
     (case map_of s fid of
        None \<Rightarrow> (Inl (Panic ''function should already exist''), s)
      | Some m \<Rightarrow>
          (case hs_insert w (workers c m) of
             (new, ws) \<Rightarrow>
               (if new then Inr () else Inl (Err (WorkerIdCollision w)),
                AList.update fid (set_workers c ws m) s)))"

definition find_remove_worker ::
  "wclass \<Rightarrow> worker_id \<Rightarrow> fmd_store \<Rightarrow> (store_error fault + function_id option) \<times> fmd_store" where
  "find_remove_worker c w s =
     (case find_worker c w s of
        None \<Rightarrow> (Inr None, s)
      | Some fid \<Rightarrow>
          bindE (remove_worker c w fid s)
            (\<lambda>found s. (Inr (if found then Some fid else None), s)))"

definition find_idle_worker :: "worker_id \<Rightarrow> fmd_store \<Rightarrow> function_id option" where
  "find_idle_worker = find_worker Idle"

definition find_active_worker :: "worker_id \<Rightarrow> fmd_store \<Rightarrow> function_id option" where
  "find_active_worker = find_worker Active"

definition find_dying_worker :: "worker_id \<Rightarrow> fmd_store \<Rightarrow> function_id option" where
  "find_dying_worker = find_worker Dying"

definition find_remove_idle_worker ::
  "worker_id \<Rightarrow> fmd_store \<Rightarrow> (store_error fault + function_id option) \<times> fmd_store" where
  "find_remove_idle_worker = find_remove_worker Idle"

definition find_remove_active_worker ::
  "worker_id \<Rightarrow> fmd_store \<Rightarrow> (store_error fault + function_id option) \<times> fmd_store" where
  "find_remove_active_worker = find_remove_worker Active"

text \<open>The dying variant removes from the first set that has the worker, in one pass.\<close>

fun find_remove_dying_worker ::
  "worker_id \<Rightarrow> fmd_store \<Rightarrow> (store_error fault + function_id option) \<times> fmd_store" where
  "find_remove_dying_worker w [] = (Inr None, [])"
| "find_remove_dying_worker w ((fid, m) # s) =
     (case hs_remove w (dying_workers m) of
        (True, ws) \<Rightarrow> (Inr (Some fid), (fid, m\<lparr>dying_workers := ws\<rparr>) # s)
      | (False, ws) \<Rightarrow>
          (case find_remove_dying_worker w s of
             (r, s') \<Rightarrow> (r, (fid, m\<lparr>dying_workers := ws\<rparr>) # s')))"

definition remove_idle_worker ::
  "worker_id \<Rightarrow> function_id \<Rightarrow> fmd_store \<Rightarrow> (store_error fault + bool) \<times> fmd_store" where
  "remove_idle_worker = remove_worker Idle"

definition remove_active_worker ::
  "worker_id \<Rightarrow> function_id \<Rightarrow> fmd_store \<Rightarrow> (store_error fault + bool) \<times> fmd_store" where
  "remove_active_worker = remove_worker Active"

definition remove_dying_worker ::
  "worker_id \<Rightarrow> function_id \<Rightarrow> fmd_store \<Rightarrow> (store_error fault + bool) \<times> fmd_store" where
  "remove_dying_worker = remove_worker Dying"

definition insert_idle_worker ::
  "worker_id \<Rightarrow> function_id \<Rightarrow> fmd_store \<Rightarrow> (store_error fault + unit) \<times> fmd_store" where
  "insert_idle_worker = insert_worker Idle"

definition insert_active_worker ::
  "worker_id \<Rightarrow> function_id \<Rightarrow> fmd_store \<Rightarrow> (store_error fault + unit) \<times> fmd_store" where
  "insert_active_worker = insert_worker Active"

definition insert_dying_worker ::
  "worker_id \<Rightarrow> function_id \<Rightarrow> fmd_store \<Rightarrow> (store_error fault + unit) \<times> fmd_store" where
  "insert_dying_worker = insert_worker Dying"

section \<open>Counters and iterators\<close>

definition num_workers :: "wclass \<Rightarrow> function_id option \<Rightarrow> fmd_store \<Rightarrow> nat" where
  "num_workers c fo s =
     (case fo of
        None \<Rightarrow> sum_list (map (\<lambda>(_, m). length (workers c m)) s)
      | Some fid \<Rightarrow> (case map_of s fid of None \<Rightarrow> 0 | Some m \<Rightarrow> length (workers c m)))"

definition num_idle :: "function_id option \<Rightarrow> fmd_store \<Rightarrow> nat" where
  "num_idle = num_workers Idle"

definition num_active :: "function_id option \<Rightarrow> fmd_store \<Rightarrow> nat" where
  "num_active = num_workers Active"

definition num_dying :: "function_id option \<Rightarrow> fmd_store \<Rightarrow> nat" where
  "num_dying = num_workers Dying"

definition iter_workers :: "wclass \<Rightarrow> fmd_store \<Rightarrow> (function_id \<times> worker_id) list" where
  "iter_workers c s = concat (map (\<lambda>(fid, m). map (Pair fid) (workers c m)) s)"

definition iter_idle :: "fmd_store \<Rightarrow> (function_id \<times> worker_id) list" where
  "iter_idle = iter_workers Idle"

definition iter_active :: "fmd_store \<Rightarrow> (function_id \<times> worker_id) list" where
  "iter_active = iter_workers Active"

definition iter_dying :: "fmd_store \<Rightarrow> (function_id \<times> worker_id) list" where
  "iter_dying = iter_workers Dying"

definition iter_all :: "fmd_store \<Rightarrow> (function_id \<times> worker_id) list" where
  "iter_all s = iter_idle s @ iter_active s @ iter_dying s"

section \<open>Transitions\<close>

text \<open>The three transitions differ in the source and the target class only.\<close>

definition move_worker ::
  "wclass \<Rightarrow> wclass \<Rightarrow> worker_id \<Rightarrow> function_id option \<Rightarrow> fmd_store
    \<Rightarrow> (store_error fault + unit) \<times> fmd_store" where
  "move_worker c c' w fo s =
     (case (case fo of None \<Rightarrow> find_worker c w s | Some fid \<Rightarrow> Some fid) of
        None \<Rightarrow> (Inl (Err (WorkerNotFound w (no_such c))), s)
      | Some fid \<Rightarrow>
          (case map_of s fid of
             None \<Rightarrow> (Inl (Err (FunctionNotFound fid)), s)
           | Some m \<Rightarrow>
               (case hs_remove w (workers c m) of
                  (False, _) \<Rightarrow> (Inl (Err (WorkerNotFound w (no_such c))), s)
                | (True, ws) \<Rightarrow>
                    insert_worker c' w fid (AList.update fid (set_workers c ws m) s))))"

definition worker_active_to_idle ::
  "worker_id \<Rightarrow> function_id option \<Rightarrow> fmd_store \<Rightarrow> (store_error fault + unit) \<times> fmd_store" where
  "worker_active_to_idle = move_worker Active Idle"

definition worker_idle_to_dying ::
  "worker_id \<Rightarrow> function_id option \<Rightarrow> fmd_store \<Rightarrow> (store_error fault + unit) \<times> fmd_store" where
  "worker_idle_to_dying = move_worker Idle Dying"

definition worker_active_to_dying ::
  "worker_id \<Rightarrow> function_id option \<Rightarrow> fmd_store \<Rightarrow> (store_error fault + unit) \<times> fmd_store" where
  "worker_active_to_dying = move_worker Active Dying"

text \<open>\<^verbatim>\<open>function_stats(fid).counter.fetch_add(1)\<close>, as the pool uses it: the counters wrap.\<close>

definition update_stats ::
  "(function_stats \<Rightarrow> function_stats) \<Rightarrow> function_id \<Rightarrow> fmd_store
    \<Rightarrow> (store_error fault + unit) \<times> fmd_store" where
  "update_stats g fid s =
     (case map_of s fid of
        None \<Rightarrow> (Inl (Panic ''function should already exist''), s)
      | Some m \<Rightarrow> (Inr (), AList.update fid (m\<lparr>fmd_stats := g (fmd_stats m)\<rparr>) s))"

section \<open>What a store says\<close>

text \<open>\<open>located s w c fid\<close>: worker \<open>w\<close> is in the set of class \<open>c\<close> of function \<open>fid\<close>.\<close>

definition located :: "fmd_store \<Rightarrow> worker_id \<Rightarrow> wclass \<Rightarrow> function_id \<Rightarrow> bool" where
  "located s w c fid \<longleftrightarrow> (\<exists>m. map_of s fid = Some m \<and> w \<in> set (workers c m))"

definition registered :: "fmd_store \<Rightarrow> function_id \<Rightarrow> registered_function option" where
  "registered s fid = map_option fmd_function (map_of s fid)"

definition entries :: "fmd_store \<Rightarrow> (worker_id \<times> wclass \<times> function_id) list" where
  "entries s = concat (map (\<lambda>(fid, m). concat (map (\<lambda>c. map (\<lambda>w. (w, c, fid)) (workers c m))
     [Active, Idle, Dying])) s)"

definition where_is :: "fmd_store \<Rightarrow> worker_id \<Rightarrow> (wclass \<times> function_id) option" where
  "where_is s = map_of (entries s)"

text \<open>
  A store is well formed when its functions are stored under their own ids and every worker is
  tracked at most once: in one set, of one function, without repetition.
\<close>

definition store_inv :: "fmd_store \<Rightarrow> bool" where
  "store_inv s \<longleftrightarrow>
     distinct (keys s)
   \<and> (\<forall>fid m. map_of s fid = Some m \<longrightarrow>
        fi_id (rf_info (fmd_function m)) = fid \<and> (\<forall>c. distinct (workers c m)))
   \<and> (\<forall>w c fid c' fid'. located s w c fid \<longrightarrow> located s w c' fid' \<longrightarrow> c = c' \<and> fid = fid')"

lemma all_wclass: "(\<forall>c. P c) \<longleftrightarrow> P Active \<and> P Idle \<and> P Dying"
  by (metis wclass.exhaust)

lemma workers_set_workers [simp]:
  "workers c (set_workers c' ws m) = (if c = c' then ws else workers c m)"
  by (cases c; cases c') simp_all

lemma fmd_function_set_workers [simp]: "fmd_function (set_workers c ws m) = fmd_function m"
  by (cases c) simp_all

lemma workers_update_stats [simp]: "workers c (m\<lparr>fmd_stats := x\<rparr>) = workers c m"
  by (cases c) simp_all

lemma workers_fmd_new [simp]: "workers c (fmd_new rf) = []" "fmd_function (fmd_new rf) = rf"
  by (cases c) (simp_all add: fmd_new_def)

lemma store_invD:
  assumes "store_inv s"
  shows "distinct (keys s)"
    and "map_of s fid = Some m \<Longrightarrow> distinct (workers c m)"
    and "map_of s fid = Some m \<Longrightarrow> fi_id (rf_info (fmd_function m)) = fid"
    and "located s w c fid \<Longrightarrow> located s w c' fid' \<Longrightarrow> c = c' \<and> fid = fid'"
  using assms unfolding store_inv_def by blast+

lemma in_entries:
  assumes "store_inv s"
  shows "(w, c, fid) \<in> set (entries s) \<longleftrightarrow> located s w c fid"
  unfolding located_def in_set_map_of [OF store_invD(1) [OF assms], symmetric] entries_def
  by (induction s; cases c) (auto simp: image_iff)

lemma where_is_iff:
  assumes "store_inv s"
  shows "where_is s w = Some (c, fid) \<longleftrightarrow> located s w c fid"
proof
  assume "where_is s w = Some (c, fid)"
  then show "located s w c fid" using in_entries [OF assms] by (auto simp: where_is_def dest: map_of_SomeD)
next
  assume l: "located s w c fid"
  then obtain c' fid' where "where_is s w = Some (c', fid')"
    using in_entries [OF assms] weak_map_of_SomeI unfolding where_is_def by (metis prod.exhaust)
  moreover from this have "located s w c' fid'"
    using in_entries [OF assms] by (auto simp: where_is_def dest: map_of_SomeD)
  ultimately show "where_is s w = Some (c, fid)" using store_invD(4) [OF assms l] by blast
qed

lemma where_is_eqI:
  assumes "store_inv s" and "\<And>w c fid. located s w c fid \<longleftrightarrow> L w = Some (c, fid)"
  shows "where_is s = L"
proof
  fix w
  show "where_is s w = L w"
    using where_is_iff [OF assms(1), of w] assms(2) [of w] by (metis not_None_eq prod.exhaust)
qed

lemma where_is_None:
  "store_inv s \<Longrightarrow> where_is s w = None \<longleftrightarrow> (\<forall>c fid. \<not> located s w c fid)"
  using where_is_iff [of s w] by (metis not_None_eq option.distinct(1) prod.exhaust)

lemma located_update:
  "located (AList.update fid m' s) w c fid' \<longleftrightarrow>
     (if fid' = fid then w \<in> set (workers c m') else located s w c fid')"
  by (simp add: located_def update_conv')

lemma located_at: "map_of s fid = Some m \<Longrightarrow> located s w c fid \<longleftrightarrow> w \<in> set (workers c m)"
  by (simp add: located_def)

lemma registered_update:
  "map_of s fid = Some m \<Longrightarrow> fmd_function m' = fmd_function m
    \<Longrightarrow> registered (AList.update fid m' s) = registered s"
  by (auto simp: registered_def update_conv')

lemma store_inv_update:
  assumes "store_inv s" and "fi_id (rf_info (fmd_function m')) = fid"
    and "\<And>c. distinct (workers c m')"
    and "\<And>w c c'. w \<in> set (workers c m') \<Longrightarrow> w \<in> set (workers c' m') \<Longrightarrow> c = c'"
    and "\<And>w c c' fid'. w \<in> set (workers c m') \<Longrightarrow> located s w c' fid' \<Longrightarrow> fid' = fid"
  shows "store_inv (AList.update fid m' s)"
proof -
  have "c = c' \<and> g = g'" if "located (AList.update fid m' s) w c g"
    and "located (AList.update fid m' s) w c' g'" for w c g c' g'
  proof (cases "g = fid"; cases "g' = fid")
    assume "g = fid" "g' = fid"
    then show ?thesis using that assms(4) by (simp add: located_update)
  next
    assume "g = fid" "g' \<noteq> fid"
    then show ?thesis using that assms(5) by (auto simp: located_update)
  next
    assume "g \<noteq> fid" "g' = fid"
    then show ?thesis using that assms(5) by (auto simp: located_update)
  next
    assume "g \<noteq> fid" "g' \<noteq> fid"
    then show ?thesis using that store_invD(4) [OF assms(1)] by (simp add: located_update)
  qed
  moreover have "fi_id (rf_info (fmd_function m)) = g \<and> (\<forall>c. distinct (workers c m))"
    if "map_of (AList.update fid m' s) g = Some m" for g m
    using that assms(2,3) store_invD(2,3) [OF assms(1)] by (auto simp: update_conv' split: if_splits)
  ultimately show ?thesis
    unfolding store_inv_def using store_invD(1) [OF assms(1)] by (blast intro: distinct_update)
qed

lemma located_unique:
  assumes "store_inv s" and "map_of s fid = Some m" and "w \<in> set (workers c m)"
  shows "w \<in> set (workers c' m) \<Longrightarrow> c = c'" and "located s w c' fid' \<Longrightarrow> c' = c \<and> fid' = fid"
proof -
  have l: "located s w c fid" using assms by (auto simp: located_def)
  show "c = c'" if "w \<in> set (workers c' m)"
    using store_invD(4) [OF assms(1) l, of c' fid] assms that by (auto simp: located_def)
  show "c' = c \<and> fid' = fid" if "located s w c' fid'" using store_invD(4) [OF assms(1) l that] by simp
qed

section \<open>The contract\<close>

locale worker_store =
  fixes inv :: "'s \<Rightarrow> bool"
    and loc :: "'s \<Rightarrow> worker_id \<Rightarrow> (wclass \<times> function_id) option"
    and reg :: "'s \<Rightarrow> function_id \<Rightarrow> registered_function option"
    and ins :: "wclass \<Rightarrow> worker_id \<Rightarrow> function_id \<Rightarrow> 's \<Rightarrow> (store_error fault + unit) \<times> 's"
    and del :: "wclass \<Rightarrow> worker_id \<Rightarrow> function_id \<Rightarrow> 's \<Rightarrow> (store_error fault + bool) \<times> 's"
    and mv :: "wclass \<Rightarrow> wclass \<Rightarrow> worker_id \<Rightarrow> function_id option \<Rightarrow> 's
      \<Rightarrow> (store_error fault + unit) \<times> 's"
  assumes loc_reg: "inv s \<Longrightarrow> loc s w = Some (c, fid) \<Longrightarrow> reg s fid \<noteq> None"
    and ins_ok: "inv s \<Longrightarrow> loc s w = None \<Longrightarrow> reg s fid \<noteq> None \<Longrightarrow>
      \<exists>s'. ins c w fid s = (Inr (), s') \<and> inv s' \<and> loc s' = (loc s)(w \<mapsto> (c, fid)) \<and> reg s' = reg s"
    and del_ok: "inv s \<Longrightarrow> reg s fid \<noteq> None \<Longrightarrow>
      \<exists>s'. del c w fid s = (Inr (loc s w = Some (c, fid)), s') \<and> inv s' \<and> reg s' = reg s
        \<and> loc s' = (if loc s w = Some (c, fid) then (loc s)(w := None) else loc s)"
    and mv_ok: "inv s \<Longrightarrow> loc s w = Some (c, fid) \<Longrightarrow> fo \<in> {None, Some fid} \<Longrightarrow> c \<noteq> c' \<Longrightarrow>
      \<exists>s'. mv c c' w fo s = (Inr (), s') \<and> inv s' \<and> loc s' = (loc s)(w \<mapsto> (c', fid)) \<and> reg s' = reg s"
    and mv_missing: "inv s \<Longrightarrow> loc s w = None \<Longrightarrow> \<exists>e. mv c c' w fo s = (Inl (Err e), s)"
begin

text \<open>A worker that is tracked can leave the store from whatever class it is in.\<close>

lemma retire:
  assumes "inv s" and "loc s w = Some (c, fid)" and "c \<noteq> Dying"
  shows "\<exists>s1 s2. mv c Dying w None s = (Inr (), s1) \<and> del Dying w fid s1 = (Inr True, s2)
    \<and> inv s2 \<and> loc s2 = (loc s)(w := None) \<and> reg s2 = reg s"
proof -
  obtain s1 where s1: "mv c Dying w None s = (Inr (), s1)" "inv s1"
    "loc s1 = (loc s)(w \<mapsto> (Dying, fid))" "reg s1 = reg s"
    using mv_ok [of s w c fid None Dying] assms by auto
  then show ?thesis
    using del_ok [of s1 fid Dying w] loc_reg [OF assms(1,2)] by auto
qed

text \<open>The life of a worker: it is spawned Active, rests Idle, and is reaped after Dying.\<close>

lemma life_cycle:
  assumes "inv s" and "loc s w = None" and "reg s fid \<noteq> None"
  shows "\<exists>s1 s2 s3 s4. ins Active w fid s = (Inr (), s1) \<and> mv Active Idle w None s1 = (Inr (), s2)
    \<and> mv Idle Dying w None s2 = (Inr (), s3) \<and> del Dying w fid s3 = (Inr True, s4)
    \<and> inv s4 \<and> loc s4 = loc s \<and> reg s4 = reg s"
proof -
  obtain s1 where s1: "ins Active w fid s = (Inr (), s1)" "inv s1"
    "loc s1 = (loc s)(w \<mapsto> (Active, fid))" "reg s1 = reg s"
    using ins_ok [OF assms, of Active] by auto
  obtain s2 where s2: "mv Active Idle w None s1 = (Inr (), s2)" "inv s2"
    "loc s2 = (loc s)(w \<mapsto> (Idle, fid))" "reg s2 = reg s"
    using mv_ok [of s1 w Active fid None Idle] s1 by auto
  have "(loc s)(w := None) = loc s" using assms(2) by auto
  then show ?thesis using s1(1) s2 retire [of s2 w Idle fid] by auto
qed

end

section \<open>The hash-map store keeps the contract\<close>

lemma insert_worker_ok:
  assumes i: "store_inv s" and w: "where_is s w = None" and f: "registered s fid \<noteq> None"
  shows "\<exists>s'. insert_worker c w fid s = (Inr (), s') \<and> store_inv s'
    \<and> where_is s' = (where_is s)(w \<mapsto> (c, fid)) \<and> registered s' = registered s"
proof -
  obtain m where m: "map_of s fid = Some m" using f by (auto simp: registered_def)
  have nl: "\<not> located s w c' fid'" for c' fid' using w where_is_None [OF i] by blast
  then have nw: "w \<notin> set (workers c' m)" for c' using m by (auto simp: located_def)
  define m' where "m' = set_workers c (snd (hs_insert w (workers c m))) m"
  have wm': "v \<in> set (workers c' m') \<longleftrightarrow> v \<in> set (workers c' m) \<or> v = w \<and> c' = c" for v c'
    by (auto simp: m'_def)
  have i': "store_inv (AList.update fid m' s)"
  proof (rule store_inv_update [OF i])
    show "fi_id (rf_info (fmd_function m')) = fid" using store_invD(3) [OF i m] by (simp add: m'_def)
    show "distinct (workers c' m')" for c' using store_invD(2) [OF i m] by (simp add: m'_def)
    show "d = d'" if "v \<in> set (workers d m')" "v \<in> set (workers d' m')" for v d d'
      using that nw located_unique(1) [OF i m] by (auto simp: wm')
    show "fid' = fid" if "v \<in> set (workers d m')" "located s v d' fid'" for v d d' fid'
      using that nl located_unique(2) [OF i m] by (auto simp: wm')
  qed
  moreover have "insert_worker c w fid s = (Inr (), AList.update fid m' s)"
    using m nw by (simp add: insert_worker_def m'_def split: prod.split) (simp add: hs_insert_def)
  moreover have "where_is (AList.update fid m' s) = (where_is s)(w \<mapsto> (c, fid))"
    using nl by (intro where_is_eqI [OF i'])
      (auto simp: located_update wm' where_is_iff [OF i] located_at [OF m, symmetric])
  ultimately show ?thesis using registered_update [OF m, of m'] by (auto simp: m'_def)
qed

lemma remove_worker_ok:
  assumes i: "store_inv s" and f: "registered s fid \<noteq> None"
  shows "\<exists>s'. remove_worker c w fid s = (Inr (where_is s w = Some (c, fid)), s') \<and> store_inv s'
    \<and> registered s' = registered s
    \<and> where_is s' = (if where_is s w = Some (c, fid) then (where_is s)(w := None) else where_is s)"
proof -
  obtain m where m: "map_of s fid = Some m" using f by (auto simp: registered_def)
  note d = store_invD(2) [OF i m]
  define m' where "m' = set_workers c (snd (hs_remove w (workers c m))) m"
  have wm': "v \<in> set (workers c' m') \<longleftrightarrow> v \<in> set (workers c' m) \<and> \<not> (v = w \<and> c' = c)" for v c'
    using d by (auto simp: m'_def)
  have i': "store_inv (AList.update fid m' s)"
  proof (rule store_inv_update [OF i])
    show "fi_id (rf_info (fmd_function m')) = fid" using store_invD(3) [OF i m] by (simp add: m'_def)
    show "distinct (workers c' m')" for c' using d by (simp add: m'_def)
  qed (use located_unique [OF i m] in \<open>auto simp: wm'\<close>)
  moreover have "remove_worker c w fid s = (Inr (where_is s w = Some (c, fid)), AList.update fid m' s)"
    using m by (simp add: remove_worker_def m'_def hs_remove_def where_is_iff [OF i] located_def)
  moreover have "located (AList.update fid m' s) v c' fid' \<longleftrightarrow>
      located s v c' fid' \<and> \<not> (v = w \<and> c' = c \<and> fid' = fid)" for v c' fid'
    by (auto simp: located_update wm' located_at [OF m])
  then have "where_is (AList.update fid m' s) =
      (if where_is s w = Some (c, fid) then (where_is s)(w := None) else where_is s)"
    using store_invD(4) [OF i]
    by (intro where_is_eqI [OF i']) (auto simp: where_is_iff [OF i])
  ultimately show ?thesis using registered_update [OF m, of m'] by (auto simp: m'_def)
qed

lemma find_worker_iff:
  assumes "store_inv s"
  shows "find_worker c w s = Some fid \<longleftrightarrow> where_is s w = Some (c, fid)"
proof -
  have d: "distinct (keys s)" by (rule store_invD(1) [OF assms])
  have "find_worker c w s = Some fid \<Longrightarrow> located s w c fid" for fid
    using in_set_map_of [OF d] unfolding find_worker_def located_def
    by (fastforce simp: find_Some_iff dest: nth_mem)
  moreover have "\<not> located s w c fid" if "find_worker c w s = None" for fid
    using that in_set_map_of [OF d, of fid] by (auto simp: find_worker_def located_def find_None_iff)
  ultimately show ?thesis
    using store_invD(4) [OF assms] unfolding where_is_iff [OF assms] by (metis option.exhaust)
qed

lemma set_workers_update_same [simp]:
  "map_of (AList.update k v s) k = Some v"
  by (simp add: update_conv')

lemma move_worker_ok:
  assumes i: "store_inv s" and w: "where_is s w = Some (c, fid)" and fo: "fo \<in> {None, Some fid}"
    and c: "c \<noteq> c'"
  shows "\<exists>s'. move_worker c c' w fo s = (Inr (), s') \<and> store_inv s'
    \<and> where_is s' = (where_is s)(w \<mapsto> (c', fid)) \<and> registered s' = registered s"
proof -
  obtain m where m: "map_of s fid = Some m" "w \<in> set (workers c m)"
    using w by (auto simp: where_is_iff [OF i] located_def)
  then have f: "registered s fid \<noteq> None" by (simp add: registered_def)
  obtain s1 where s1: "remove_worker c w fid s = (Inr True, s1)" "store_inv s1"
    "where_is s1 = (where_is s)(w := None)" "registered s1 = registered s"
    using remove_worker_ok [OF i f, of c w] w by auto
  have "(case fo of None \<Rightarrow> find_worker c w s | Some fid \<Rightarrow> Some fid) = Some fid"
    using fo w find_worker_iff [OF i, of c w fid] by auto
  then have "move_worker c c' w fo s = insert_worker c' w fid s1"
    using m s1(1) by (auto simp: move_worker_def remove_worker_def hs_remove_def)
  then show ?thesis using insert_worker_ok [of s1 w fid c'] s1 f by auto
qed

lemma move_worker_missing:
  assumes i: "store_inv s" and w: "where_is s w \<noteq> Some (c, fid) \<or> fo \<notin> {None, Some fid}"
    and "\<And>fid'. fid' \<noteq> fid \<Longrightarrow> where_is s w \<noteq> Some (c, fid')"
  shows "\<exists>e. move_worker c c' w fo s = (Inl (Err e), s)"
proof -
  have "where_is s w \<noteq> Some (c, g)" if "fo = Some g \<or> fo = None" for g
    using that w assms(3) by (cases "g = fid") auto
  moreover have "located s w c g \<longleftrightarrow> where_is s w = Some (c, g)" for g
    using where_is_iff [OF i] by simp
  moreover have "find_worker c w s = None" if "fo = None"
    using find_worker_iff [OF i, of c w] calculation(1) that by (cases "find_worker c w s") auto
  ultimately show ?thesis
    unfolding move_worker_def
    by (auto simp: hs_remove_def located_def split: option.splits prod.splits bool.splits)
qed

interpretation std: worker_store store_inv where_is registered insert_worker remove_worker move_worker
proof
  show "registered s fid \<noteq> None" if "store_inv s" "where_is s w = Some (c, fid)" for s w c fid
    using that where_is_iff [OF that(1)] by (auto simp: registered_def located_def)
  show "\<exists>e. move_worker c c' w fo s = (Inl (Err e), s)" if "store_inv s" "where_is s w = None"
    for s w c c' fo
    using move_worker_missing [of s w c] that by auto
qed (blast intro: insert_worker_ok remove_worker_ok move_worker_ok)+

section \<open>Counters, iterators, registration\<close>

lemma set_iter_workers:
  assumes "store_inv s"
  shows "set (iter_workers c s) = {(fid, w). where_is s w = Some (c, fid)}"
  using in_set_map_of [OF store_invD(1) [OF assms]]
  unfolding where_is_iff [OF assms] located_def iter_workers_def by fastforce

lemma distinct_snd_iter:
  assumes "distinct (keys s)" and "\<forall>fid m. (fid, m) \<in> set s \<longrightarrow> distinct (workers c m)"
    and "\<forall>w fid m fid' m'. (fid, m) \<in> set s \<longrightarrow> w \<in> set (workers c m) \<longrightarrow>
      (fid', m') \<in> set s \<longrightarrow> w \<in> set (workers c m') \<longrightarrow> fid = fid'"
  shows "distinct (map snd (iter_workers c s))"
  using assms
proof (induction s)
  case Nil
  then show ?case by (simp add: iter_workers_def)
next
  case (Cons p s)
  obtain fid m where p: "p = (fid, m)" by (cases p)
  have "w \<notin> set (workers c m')" if "w \<in> set (workers c m)" "(fid', m') \<in> set s" for w fid' m'
    using Cons.prems(1,3) that p by (force simp: image_iff)
  moreover have "distinct (map snd (iter_workers c s))"
    using Cons.prems by (intro Cons.IH) (simp, force, force)
  ultimately show ?case
    using Cons.prems(2) p by (auto simp: iter_workers_def comp_def)
qed

lemma distinct_iter_workers:
  assumes "store_inv s"
  shows "distinct (map snd (iter_workers c s))"
proof (rule distinct_snd_iter)
  show k: "distinct (keys s)" by (rule store_invD(1) [OF assms])
  show "\<forall>fid m. (fid, m) \<in> set s \<longrightarrow> distinct (workers c m)"
    using store_invD(2) [OF assms] in_set_map_of [OF k] by blast
  show "\<forall>w fid m fid' m'. (fid, m) \<in> set s \<longrightarrow> w \<in> set (workers c m) \<longrightarrow>
      (fid', m') \<in> set s \<longrightarrow> w \<in> set (workers c m') \<longrightarrow> fid = fid'"
    unfolding in_set_map_of [OF k] using store_invD(4) [OF assms] located_at by blast
qed

lemma num_workers_all: "num_workers c None s = length (iter_workers c s)"
  by (simp add: num_workers_def iter_workers_def length_concat comp_def split_def)

lemma num_workers_fn:
  assumes "store_inv s"
  shows "num_workers c (Some fid) s = card {w. where_is s w = Some (c, fid)}"
proof (cases "map_of s fid")
  case None
  then show ?thesis by (simp add: num_workers_def where_is_iff [OF assms] located_def)
next
  case (Some m)
  then show ?thesis
    using store_invD(2) [OF assms Some, of c]
    by (simp add: num_workers_def where_is_iff [OF assms] located_at distinct_card)
qed

lemma update_stats_ok:
  assumes i: "store_inv s" and "registered s fid \<noteq> None"
  shows "\<exists>s'. update_stats g fid s = (Inr (), s') \<and> store_inv s' \<and> where_is s' = where_is s
    \<and> registered s' = registered s"
proof -
  obtain m where m: "map_of s fid = Some m" using assms by (auto simp: registered_def)
  define m' where "m' = m\<lparr>fmd_stats := g (fmd_stats m)\<rparr>"
  have i': "store_inv (AList.update fid m' s)"
    using located_unique [OF i m] store_invD(2,3) [OF i m]
    by (intro store_inv_update [OF i]) (auto simp: m'_def)
  moreover have "where_is (AList.update fid m' s) = where_is s"
    by (rule where_is_eqI [OF i'])
      (simp add: located_update where_is_iff [OF i] located_at [OF m] m'_def)
  ultimately show ?thesis
    using m registered_update [OF m, of m'] by (simp add: update_stats_def m'_def)
qed

lemma find_remove_dying_eq:
  "distinct (keys s) \<Longrightarrow> find_remove_dying_worker w s = find_remove_worker Dying w s"
proof (induction s)
  case Nil
  then show ?case by (simp add: find_remove_worker_def find_worker_def)
next
  case (Cons p s)
  obtain fid m where p: "p = (fid, m)" by (cases p)
  show ?case
  proof (cases "w \<in> set (dying_workers m)")
    case True
    then show ?thesis
      by (simp add: p find_remove_worker_def find_worker_def remove_worker_def hs_remove_def)
  next
    case False
    have "m\<lparr>dying_workers := dying_workers m\<rparr> = m" by simp
    moreover have "remove_worker Dying w g (p # s) = (let (r, s') = remove_worker Dying w g s in (r, p # s'))"
      if "find_worker Dying w s = Some g" for g
    proof -
      have "g \<in> set (keys s)"
        using that by (auto simp: find_worker_def find_Some_iff) (metis fst_conv image_eqI nth_mem)
      then have "g \<noteq> fid" using Cons.prems p by auto
      then show ?thesis
        by (auto simp: p remove_worker_def split: option.splits prod.splits)
    qed
    ultimately show ?thesis
      using False Cons p
      by (auto simp: find_remove_worker_def find_worker_def hs_remove_def remove1_idem bindE_def
          split: option.splits prod.splits sum.splits)
  qed
qed

lemma register_function_ok:
  assumes i: "store_inv s" and n: "registered s (fi_id (rf_info rf)) = None"
  shows "\<exists>s'. register_function rf s = (Inr (), s') \<and> store_inv s' \<and> where_is s' = where_is s
    \<and> registered s' = (registered s)(fi_id (rf_info rf) \<mapsto> rf)"
proof -
  let ?f = "fi_id (rf_info rf)"
  let ?s = "AList.update ?f (fmd_new rf) s"
  have none: "map_of s ?f = None" using n by (simp add: registered_def)
  then have absent: "\<not> located s w c ?f" for w c by (simp add: located_def)
  have i': "store_inv ?s" by (rule store_inv_update [OF i]) simp_all
  moreover have "where_is ?s = where_is s"
    using absent by (intro where_is_eqI [OF i']) (auto simp: located_update where_is_iff [OF i])
  moreover have "registered ?s = (registered s)(?f \<mapsto> rf)"
    by (auto simp: registered_def update_conv' fmd_new_def)
  ultimately show ?thesis using none by (simp add: register_function_def Let_def)
qed

lemma deregister_function_ok:
  assumes i: "store_inv s" and r: "registered s fid = Some rf" and "\<And>w c. where_is s w \<noteq> Some (c, fid)"
  shows "\<exists>s'. deregister_function fid s = (Inr rf, s') \<and> store_inv s' \<and> where_is s' = where_is s
    \<and> registered s' = (registered s)(fid := None)"
proof -
  obtain m where m: "map_of s fid = Some m" "fmd_function m = rf"
    using r by (auto simp: registered_def)
  let ?s = "AList.delete fid s"
  have e: "set (workers c m) = {}" for c
    using assms(3) [unfolded where_is_iff [OF i] located_at [OF m(1)]] by (metis equals0I)
  have l: "located ?s w c g \<longleftrightarrow> located s w c g" for w c g
    using e by (cases "g = fid") (auto simp: located_def delete_conv' m)
  have i': "store_inv ?s"
    using store_invD [OF i] unfolding store_inv_def l
    by (auto simp: delete_conv' distinct_delete split: if_splits)
  moreover have "where_is ?s = where_is s" by (rule where_is_eqI [OF i']) (simp add: l where_is_iff [OF i])
  moreover have "registered ?s = (registered s)(fid := None)"
    by (auto simp: registered_def delete_conv')
  moreover have "active_workers m = []" "idle_workers m = []" "dying_workers m = []"
    using e [of Active] e [of Idle] e [of Dying] by simp_all
  ultimately show ?thesis using m by (simp add: deregister_function_def)
qed

lemma deregister_in_use:
  assumes i: "store_inv s" and w: "where_is s w = Some (c, fid)"
  shows "\<exists>n > 0. deregister_function fid s = (Inl (InUse fid n), s)"
proof -
  obtain m where "map_of s fid = Some m" "w \<in> set (workers c m)"
    using w by (auto simp: where_is_iff [OF i] located_def)
  moreover from this have
    "0 < length (active_workers m) + length (idle_workers m) + length (dying_workers m)"
    by (cases c) (auto simp: length_pos_if_in_set)
  ultimately show ?thesis by (simp add: deregister_function_def Let_def)
qed

section \<open>Properties\<close>

lemmas store_op_defs =
  find_idle_worker_def find_active_worker_def find_dying_worker_def
  insert_active_worker_def insert_idle_worker_def insert_dying_worker_def
  remove_active_worker_def remove_idle_worker_def remove_dying_worker_def
  worker_active_to_idle_def worker_idle_to_dying_def worker_active_to_dying_def
  iter_idle_def iter_active_def iter_dying_def num_idle_def num_active_def num_dying_def

text \<open>
  The life cycle of a worker. A worker that the store does not know can be inserted as Active
  for any registered function, moved to Idle, moved to Dying and removed; every step succeeds, the
  store stays well formed, and at the end every worker is tracked exactly where it was before.
\<close>

theorem fmd_store_life_cycle:
  assumes "store_inv s" and "where_is s w = None" and "function_exists fid s"
  shows "\<exists>s1 s2 s3 s4. insert_active_worker w fid s = (Inr (), s1)
    \<and> worker_active_to_idle w None s1 = (Inr (), s2) \<and> worker_idle_to_dying w None s2 = (Inr (), s3)
    \<and> remove_dying_worker w fid s3 = (Inr True, s4)
    \<and> store_inv s4 \<and> where_is s4 = where_is s \<and> registered s4 = registered s"
  using std.life_cycle [of s w fid] assms
  by (simp add: store_op_defs function_exists_def registered_def)

definition store_example :: fmd_store where
  "store_example =
     [(''f'', (fmd_new \<lparr>rf_info = \<lparr>fi_id = ''f'', fi_memory = 128\<rparr>, rf_admission = None\<rparr>)
         \<lparr>active_workers := [1], idle_workers := [2, 3]\<rparr>),
      (''g'', fmd_new \<lparr>rf_info = \<lparr>fi_id = ''g'', fi_memory = 64\<rparr>, rf_admission = None\<rparr>)]"

lemma workers_case:
  "workers c m = (case c of Active \<Rightarrow> active_workers m | Idle \<Rightarrow> idle_workers m | Dying \<Rightarrow> dying_workers m)"
  by (cases c) simp_all

lemma store_example_inv: "store_inv store_example"
  unfolding store_inv_def store_example_def located_def
  by (auto simp: workers_case fmd_new_def split: if_splits wclass.splits)

theorem fmd_store_life_cycle_witness:
  "\<exists>s1 s2 s3 s4. insert_active_worker 9 ''g'' store_example = (Inr (), s1)
    \<and> worker_active_to_idle 9 None s1 = (Inr (), s2) \<and> worker_idle_to_dying 9 None s2 = (Inr (), s3)
    \<and> remove_dying_worker 9 ''g'' s3 = (Inr True, s4) \<and> where_is s4 = where_is store_example"
proof -
  have "where_is store_example 9 = None" "function_exists ''g'' store_example"
    by code_simp+
  from fmd_store_life_cycle [OF store_example_inv this] show ?thesis by blast
qed

text \<open>
  C26: transitions refine updates of the tracking map. On a well-formed store, each of the three
  transitions, with or without the function id, moves a worker that is in the source class and
  nothing else; a worker that the store does not track gives an error and an unchanged store.
\<close>

theorem fmd_store_transitions:
  assumes "store_inv s" and "fo \<in> {None, Some fid}"
    and "(op, c, c') \<in> {(worker_active_to_idle, Active, Idle), (worker_idle_to_dying, Idle, Dying),
      (worker_active_to_dying, Active, Dying)}"
  shows "(where_is s w = Some (c, fid) \<longrightarrow> (\<exists>s'. op w fo s = (Inr (), s') \<and> store_inv s'
      \<and> where_is s' = (where_is s)(w \<mapsto> (c', fid)) \<and> registered s' = registered s))
    \<and> (where_is s w = None \<longrightarrow> (\<exists>e. op w fo s = (Inl (Err e), s)))"
proof -
  have op: "op = move_worker c c'" "c \<noteq> c'" using assms(3) by (auto simp: store_op_defs)
  show ?thesis
    using std.mv_ok [OF assms(1) _ assms(2) op(2)] std.mv_missing [OF assms(1)] op(1) by simp
qed

theorem fmd_store_transitions_witness:
  "(\<exists>s'. worker_active_to_idle 1 None store_example = (Inr (), s')
     \<and> where_is s' = (where_is store_example)(1 \<mapsto> (Idle, ''f'')))
   \<and> (\<exists>e. worker_idle_to_dying 9 (Some ''g'') store_example = (Inl (Err e), store_example))"
proof -
  have w: "where_is store_example 1 = Some (Active, ''f'')" "where_is store_example 9 = None"
    by code_simp+
  have "\<exists>s'. worker_active_to_idle 1 None store_example = (Inr (), s')
     \<and> where_is s' = (where_is store_example)(1 \<mapsto> (Idle, ''f''))"
    using fmd_store_transitions
      [OF store_example_inv, of None "''f''" worker_active_to_idle Active Idle 1] w(1) by blast
  moreover have "\<exists>e. worker_idle_to_dying 9 (Some ''g'') store_example = (Inl (Err e), store_example)"
    using fmd_store_transitions
      [OF store_example_inv, of "Some ''g''" "''g''" worker_idle_to_dying Idle Dying 9] w(2) by blast
  ultimately show ?thesis by blast
qed

text \<open>
  The read methods agree. On a well-formed store the iterators list every worker of their
  class once with its function, the counters are the sizes of the classes, and the search methods
  find exactly the tracked workers.
\<close>

theorem fmd_store_views:
  assumes "store_inv s"
  shows "set (iter_idle s) = {(fid, w). where_is s w = Some (Idle, fid)}
    \<and> set (iter_active s) = {(fid, w). where_is s w = Some (Active, fid)}
    \<and> set (iter_dying s) = {(fid, w). where_is s w = Some (Dying, fid)}
    \<and> distinct (iter_all s) \<and> length (iter_all s) = num_idle None s + num_active None s + num_dying None s
    \<and> num_idle (Some fid) s = card {w. where_is s w = Some (Idle, fid)}
    \<and> num_active (Some fid) s = card {w. where_is s w = Some (Active, fid)}
    \<and> (find_idle_worker w s = Some fid \<longleftrightarrow> where_is s w = Some (Idle, fid))
    \<and> (find_active_worker w s = Some fid \<longleftrightarrow> where_is s w = Some (Active, fid))
    \<and> (find_dying_worker w s = Some fid \<longleftrightarrow> where_is s w = Some (Dying, fid))"
proof -
  have "distinct (iter_workers c s)" for c
    using distinct_iter_workers [OF assms, of c] by (simp add: distinct_map)
  then have "distinct (iter_all s)"
    by (auto simp: iter_all_def store_op_defs set_iter_workers [OF assms])
  then show ?thesis
    by (simp add: store_op_defs set_iter_workers [OF assms] num_workers_fn [OF assms]
        num_workers_all iter_all_def find_worker_iff [OF assms])
qed

theorem fmd_store_views_witness:
  "set (iter_idle store_example) = {(fid, w). where_is store_example w = Some (Idle, fid)}
   \<and> iter_idle store_example = [(''f'', 2), (''f'', 3)] \<and> distinct (iter_all store_example)"
proof -
  have "iter_idle store_example = [(''f'', 2), (''f'', 3)]" by code_simp
  then show ?thesis using fmd_store_views [OF store_example_inv] by blast
qed

text \<open>
  Registration. Registering a function that is not there and deregistering it again restores
  the registrations; a duplicate registration is refused; a function with a tracked worker, of
  whatever class, cannot be deregistered. The tracking of workers never changes.
\<close>

theorem fmd_store_registration:
  assumes "store_inv s"
  shows "(registered s (fi_id (rf_info rf)) = None \<longrightarrow>
      (\<exists>s1 s2. register_function rf s = (Inr (), s1) \<and> store_inv s1 \<and> where_is s1 = where_is s
      \<and> registered s1 (fi_id (rf_info rf)) = Some rf
      \<and> register_function rf s1 = (Inl (AlreadyExists (fi_id (rf_info rf))), s1)
      \<and> deregister_function (fi_id (rf_info rf)) s1 = (Inr rf, s2) \<and> store_inv s2
      \<and> where_is s2 = where_is s \<and> registered s2 = registered s))
    \<and> (where_is s w = Some (c, fid) \<longrightarrow>
      (\<exists>n. n > 0 \<and> deregister_function fid s = (Inl (InUse fid n), s)))"
proof (intro conjI impI)
  let ?f = "fi_id (rf_info rf)"
  assume n: "registered s ?f = None"
  obtain s1 where s1: "register_function rf s = (Inr (), s1)" "store_inv s1" "where_is s1 = where_is s"
    "registered s1 = (registered s)(?f \<mapsto> rf)" using register_function_ok [OF assms n] by blast
  have "where_is s1 w \<noteq> Some (c, ?f)" for w c using std.loc_reg [OF assms, of w c ?f] n s1(3) by auto
  then obtain s2 where "deregister_function ?f s1 = (Inr rf, s2)" "store_inv s2"
    "where_is s2 = where_is s1" "registered s2 = (registered s1)(?f := None)"
    using deregister_function_ok [OF s1(2), of ?f rf] s1(4) by auto
  moreover have "register_function rf s1 = (Inl (AlreadyExists ?f), s1)"
    using s1(4) by (auto simp: register_function_def registered_def Let_def dest!: fun_cong [of _ _ ?f])
  moreover have "(registered s)(?f := None) = registered s" using n by auto
  ultimately show "\<exists>s1 s2. register_function rf s = (Inr (), s1) \<and> store_inv s1
      \<and> where_is s1 = where_is s \<and> registered s1 ?f = Some rf
      \<and> register_function rf s1 = (Inl (AlreadyExists ?f), s1)
      \<and> deregister_function ?f s1 = (Inr rf, s2) \<and> store_inv s2
      \<and> where_is s2 = where_is s \<and> registered s2 = registered s"
    using s1 by auto
next
  assume "where_is s w = Some (c, fid)"
  then show "\<exists>n. n > 0 \<and> deregister_function fid s = (Inl (InUse fid n), s)"
    using deregister_in_use [OF assms] by blast
qed

theorem fmd_store_registration_witness:
  "\<exists>n. n > 0 \<and> deregister_function ''f'' store_example = (Inl (InUse ''f'' n), store_example)"
proof -
  have "where_is store_example 1 = Some (Active, ''f'')" by code_simp
  then show ?thesis using fmd_store_registration [OF store_example_inv, of _ 1] by blast
qed

end
