(* ===== verification/Messages.thy ===== *)
theory Messages
  imports Cpuset Fmd_Store
begin

text \<open>
  \<^verbatim>\<open>admission/mod.rs\<close> and \<^verbatim>\<open>sbpool/event.rs\<close>: what admission and the pool say to each other. A
  \<^verbatim>\<open>WorkerRef\<close> is represented by the id of the worker it points to.
\<close>

text \<open>The parts of the \<^verbatim>\<open>Request\<close> trait that admission reads.\<close>

record request =
  invocation_id :: string
  rq_function_id :: function_id

datatype dispatch_mode = ReuseIdleOnly | ReuseIdleOrProvision

datatype block_reason = NoIdleWorker | FunctionWorkerCap | MemoryPressure

datatype reject_reason = UnknownFunction | InternalError | ShuttingDown

datatype dispatch_response =
  Dispatch worker_id cpu
| WouldBlock block_reason
| Reject reject_reason

datatype pool_event =
  WorkerIdle function_id
| MemoryCapAvailable
| WorkerCapAvailable function_id

datatype admission_failure =
  QueueFullGlobal
| QueueFullFunction
| DeadlinePassed
| Rejected reject_reason

definition no_idle_worker :: dispatch_response where
  "no_idle_worker = WouldBlock NoIdleWorker"

definition function_worker_cap :: dispatch_response where
  "function_worker_cap = WouldBlock FunctionWorkerCap"

definition oom :: dispatch_response where
  "oom = WouldBlock MemoryPressure"

definition unknown_function :: dispatch_response where
  "unknown_function = Reject UnknownFunction"

definition shutting_down :: dispatch_response where
  "shutting_down = Reject ShuttingDown"

text \<open>\<^verbatim>\<open>AdmissionConfig\<close> of \<^verbatim>\<open>conf/mod.rs\<close>, without the channel capacity.\<close>

record admission_config =
  max_concurrency :: nat
  global_max_queued_reqs :: nat
  default_max_queued_per_func :: nat
  default_max_queue_delay :: duration
  default_max_live_instances_per_func :: nat
  fallback_retry_period :: duration

end
