(* ===== verification/Admission.thy ===== *)
theory Admission
  imports Messages
begin

text \<open>
  \<^verbatim>\<open>admission/controller.rs\<close>: the actor between the request source and the pool.

  One iteration of \<^verbatim>\<open>run\<close> is \<open>adm_iter\<close>: it takes the branch of \<^verbatim>\<open>select!\<close> that has won as an
  argument, under the guard that the branch has (\<open>adm_enabled\<close>). What the outside world decides in
  an iteration is the record \<open>adm_env\<close>: the clock, the content of the shared store at each of the
  two reads of \<^verbatim>\<open>handle_new_request\<close>, and whether a send succeeds. The counters that the code
  decrements are integers, so that an underflow would be a negative value; the statistics are 64-bit
  words and wrap. The semaphore permit of a dispatch attempt is held by \<open>outstanding\<close>; a permit that
  admission drops is free again, one that is forwarded belongs to the worker.
\<close>

section \<open>State\<close>

record envelope =
  env_req :: request
  env_function_id :: function_id
  enqueued_at :: instant
  deadline :: instant

datatype dispatch_state = Runnable | Blocked block_reason instant

record fqueue =
  fq_queue :: "envelope list"
  fq_state :: dispatch_state

definition fqueue_new :: fqueue where
  "fqueue_new = \<lparr>fq_queue = [], fq_state = Runnable\<rparr>"

definition is_blocked :: "fqueue \<Rightarrow> bool" where
  "is_blocked fq = (case fq_state fq of Blocked _ _ \<Rightarrow> True | Runnable \<Rightarrow> False)"

definition is_runnable :: "fqueue \<Rightarrow> bool" where
  "is_runnable fq \<longleftrightarrow> fq_queue fq \<noteq> [] \<and> fq_state fq = Runnable"

record quick_stats =
  num_received :: "64 word"
  num_dispatched :: "64 word"
  num_failed :: "64 word"

text \<open>Status codes of the \<^verbatim>\<open>tonic\<close> crate that admission answers with.\<close>

datatype status_code =
  Code_ResourceExhausted | Code_DeadlineExceeded | Code_NotFound | Code_Internal | Code_FailedPrecondition

record response =
  rs_invocation_id :: string
  rs_function_id :: function_id
  rs_code :: status_code
  rs_msg :: string

record adm =
  queues :: "(function_id \<times> fqueue) list"
  total_queued_reqs :: int
  blocked_function_count :: int
  next_deadline :: "instant option"
  deadline_timer :: "instant option"
  liveness_at :: instant
  outstanding :: "envelope option"
  waiting_for_slot :: bool
  stats :: quick_stats
  to_pool :: "(function_id \<times> dispatch_mode) list"
  to_workers :: "(request \<times> worker_id \<times> cpu) list"
  to_resp_sink :: "response list"

record adm_env =
  en_now :: instant
  en_store :: fmd_store
  en_store' :: fmd_store
  en_resp_ok :: "request \<Rightarrow> bool"
  en_pool_ok :: bool
  en_forward_ok :: bool

definition adm_new :: "admission_config \<Rightarrow> instant \<Rightarrow> adm" where
  "adm_new cfg now =
     \<lparr>queues = [], total_queued_reqs = 0, blocked_function_count = 0, next_deadline = None,
      deadline_timer = None, liveness_at = now + fallback_retry_period cfg, outstanding = None,
      waiting_for_slot = False, stats = \<lparr>num_received = 0, num_dispatched = 0, num_failed = 0\<rparr>,
      to_pool = [], to_workers = [], to_resp_sink = []\<rparr>"

section \<open>Scheduling decisions\<close>

definition has_runnable_functions :: "adm \<Rightarrow> bool" where
  "has_runnable_functions a \<longleftrightarrow> (\<exists>q \<in> set (queues a). is_runnable (snd q))"

definition has_blocked_functions :: "adm \<Rightarrow> bool" where
  "has_blocked_functions a \<longleftrightarrow> blocked_function_count a > 0"

definition should_wait_for_slot :: "adm \<Rightarrow> bool" where
  "should_wait_for_slot a \<longleftrightarrow>
     outstanding a = None \<and> \<not> waiting_for_slot a \<and> has_runnable_functions a"

definition pick_next_function :: "adm \<Rightarrow> function_id option" where
  "pick_next_function a =
     map_option fst
       (min_by_first (\<lambda>(_, fq). enqueued_at (hd (fq_queue fq)))
         (filter (\<lambda>(_, fq). is_runnable fq) (queues a)))"

section \<open>Failing a request\<close>

fun failure_code :: "admission_failure \<Rightarrow> status_code \<times> string" where
  "failure_code QueueFullGlobal = (Code_ResourceExhausted, ''Global admission queue is full'')"
| "failure_code QueueFullFunction = (Code_ResourceExhausted, ''Function's admission queue is full'')"
| "failure_code DeadlinePassed = (Code_DeadlineExceeded, ''Request's deadline exceeded'')"
| "failure_code (Rejected UnknownFunction) = (Code_NotFound, ''Unknown Function'')"
| "failure_code (Rejected InternalError) = (Code_Internal, ''SandboxPool internal error'')"
| "failure_code (Rejected ShuttingDown) = (Code_FailedPrecondition, ''SandboxPool is shutting down'')"

text \<open>\<open>en_resp_ok\<close> says whether the response could be built and sent without blocking.\<close>

definition fail_admission ::
  "adm_env \<Rightarrow> request \<Rightarrow> function_id \<Rightarrow> admission_failure \<Rightarrow> adm \<Rightarrow> adm" where
  "fail_admission en req fid failure a =
     (let a = a\<lparr>stats := (stats a)\<lparr>num_failed := num_failed (stats a) + 1\<rparr>\<rparr>;
          (code, msg) = failure_code failure in
      if en_resp_ok en req
      then a\<lparr>to_resp_sink := to_resp_sink a @
             [\<lparr>rs_invocation_id = invocation_id req, rs_function_id = fid, rs_code = code, rs_msg = msg\<rparr>]\<rparr>
      else a)"

section \<open>Deadlines\<close>

definition set_deadline_timer_to :: "instant option \<Rightarrow> adm \<Rightarrow> adm" where
  "set_deadline_timer_to nd a =
     (let a = a\<lparr>next_deadline := nd\<rparr> in
      case (deadline_timer a, nd) of
        (Some _, Some d) \<Rightarrow> a\<lparr>deadline_timer := Some d\<rparr>
      | (None, Some d) \<Rightarrow> a\<lparr>deadline_timer := Some d\<rparr>
      | (Some _, None) \<Rightarrow> a\<lparr>deadline_timer := None\<rparr>
      | (None, None) \<Rightarrow> a)"

definition update_deadline_timer :: "instant \<Rightarrow> adm \<Rightarrow> adm" where
  "update_deadline_timer d a =
     (if (case next_deadline a of None \<Rightarrow> True | Some cur \<Rightarrow> d < cur)
      then set_deadline_timer_to (Some d) a else a)"

text \<open>The expiry of one queue: the popped requests, the queue, and whether it was unblocked.\<close>

definition expire_fq :: "instant \<Rightarrow> fqueue \<Rightarrow> envelope list \<times> fqueue \<times> bool" where
  "expire_fq now fq =
     (let was_blocked = is_blocked fq;
          expired_head = (case fq_queue fq of [] \<Rightarrow> False | e # _ \<Rightarrow> deadline e \<le> now);
          expired = takeWhile (\<lambda>e. deadline e \<le> now) (fq_queue fq);
          rest = dropWhile (\<lambda>e. deadline e \<le> now) (fq_queue fq);
          unblock = (was_blocked \<and> (expired_head \<or> rest = [])) in
      (expired, fq\<lparr>fq_queue := rest, fq_state := (if unblock then Runnable else fq_state fq)\<rparr>, unblock))"

fun expire_queues ::
  "instant \<Rightarrow> (function_id \<times> fqueue) list \<Rightarrow> envelope list \<times> (function_id \<times> fqueue) list \<times> nat" where
  "expire_queues now [] = ([], [], 0)"
| "expire_queues now ((fid, fq) # qs) =
     (case expire_fq now fq of (expired, fq', unblock) \<Rightarrow>
        case expire_queues now qs of (es, qs', n) \<Rightarrow>
          (expired @ es, (fid, fq') # qs', n + (if unblock then 1 else 0)))"

fun min_opt :: "instant option \<Rightarrow> instant \<Rightarrow> instant" where
  "min_opt None d = d"
| "min_opt (Some c) d = min c d"

definition earliest_head :: "(function_id \<times> fqueue) list \<Rightarrow> instant option" where
  "earliest_head qs =
     fold (\<lambda>(_, fq) nd. case fq_queue fq of [] \<Rightarrow> nd | e # _ \<Rightarrow> Some (min_opt nd (deadline e))) qs None"

definition expire_queued_requests :: "adm_env \<Rightarrow> instant \<Rightarrow> adm \<Rightarrow> adm" where
  "expire_queued_requests en now a =
     (case expire_queues now (queues a) of (expired, qs, num_unblocked) \<Rightarrow>
        set_deadline_timer_to (earliest_head qs)
          (fold (\<lambda>e. fail_admission en (env_req e) (env_function_id e) DeadlinePassed) expired
             (a\<lparr>queues := qs, total_queued_reqs := total_queued_reqs a - int (length expired),
               blocked_function_count := blocked_function_count a - int num_unblocked\<rparr>)))"

definition deadline_passed :: "adm_env \<Rightarrow> adm \<Rightarrow> bool" where
  "deadline_passed en a = (case next_deadline a of None \<Rightarrow> False | Some d \<Rightarrow> d \<le> en_now en)"

section \<open>Blocking and unblocking\<close>

definition mark_function_blocked ::
  "admission_config \<Rightarrow> instant \<Rightarrow> function_id \<Rightarrow> block_reason \<Rightarrow> adm \<Rightarrow> (unit fault + unit) \<times> adm" where
  "mark_function_blocked cfg now fid reason a =
     (case map_of (queues a) fid of
        None \<Rightarrow> (Inl (Panic ''FunctionQueue should exist by now''), a)
      | Some fq \<Rightarrow>
          (let a = (if is_blocked fq then a
                    else let a = a\<lparr>blocked_function_count := blocked_function_count a + 1\<rparr> in
                      if blocked_function_count a = 1
                      then a\<lparr>liveness_at := now + fallback_retry_period cfg\<rparr> else a) in
           (Inr (), a\<lparr>queues := AList.update fid (fq\<lparr>fq_state := Blocked reason now\<rparr>) (queues a)\<rparr>)))"

definition mark_function_runnable :: "function_id \<Rightarrow> adm \<Rightarrow> adm" where
  "mark_function_runnable fid a =
     (case map_of (queues a) fid of
        None \<Rightarrow> a
      | Some fq \<Rightarrow>
          if is_blocked fq
          then a\<lparr>queues := AList.update fid (fq\<lparr>fq_state := Runnable\<rparr>) (queues a),
                 blocked_function_count := blocked_function_count a - 1\<rparr>
          else a)"

definition is_memory_blocked :: "fqueue \<Rightarrow> bool" where
  "is_memory_blocked fq = (case fq_state fq of Blocked MemoryPressure _ \<Rightarrow> True | _ \<Rightarrow> False)"

definition unblock_when :: "(fqueue \<Rightarrow> bool) \<Rightarrow> fqueue \<Rightarrow> fqueue" where
  "unblock_when P fq = (if P fq then fq\<lparr>fq_state := Runnable\<rparr> else fq)"

definition unblock_resource_blocked_functions :: "adm \<Rightarrow> adm" where
  "unblock_resource_blocked_functions a =
     a\<lparr>queues := map (\<lambda>(fid, fq). (fid, unblock_when is_memory_blocked fq)) (queues a),
       blocked_function_count := blocked_function_count a
         - int (length (filter (\<lambda>(_, fq). is_memory_blocked fq) (queues a)))\<rparr>"

definition unblock_all :: "adm \<Rightarrow> adm" where
  "unblock_all a =
     (if blocked_function_count a = 0 then a
      else a\<lparr>queues := map (\<lambda>(fid, fq). (fid, unblock_when is_blocked fq)) (queues a),
             blocked_function_count := 0\<rparr>)"

section \<open>Handlers\<close>

definition handle_acquired_slot :: "adm_env \<Rightarrow> adm \<Rightarrow> (unit fault + unit) \<times> adm" where
  "handle_acquired_slot en a =
     (let a = (if deadline_passed en a then expire_queued_requests en (en_now en) a else a) in
      case pick_next_function a of
        None \<Rightarrow> (Inr (), a)
      | Some fid \<Rightarrow>
          (case map_of (queues a) fid of
             None \<Rightarrow> (Inl (Panic ''unwrap''), a)
           | Some fq \<Rightarrow>
               (case fq_queue fq of
                  [] \<Rightarrow> (Inl (Panic ''unwrap''), a)
                | e # es \<Rightarrow>
                    (let a1 = a\<lparr>queues := AList.update fid (fq\<lparr>fq_queue := es\<rparr>) (queues a),
                                total_queued_reqs := total_queued_reqs a - 1\<rparr> in
                     if fq_state fq \<noteq> Runnable
                     then (Inl (Panic ''should only be picking Runnable Functions''), a1)
                     else if en_pool_ok en
                     then (Inr (), a1\<lparr>to_pool := to_pool a1 @ [(fid, ReuseIdleOrProvision)],
                                     outstanding := Some e\<rparr>)
                     else (Inl (Err ()), update_deadline_timer (deadline e)
                             (a1\<lparr>queues := AList.update fid (fq\<lparr>fq_queue := e # es\<rparr>) (queues a1),
                                 total_queued_reqs := total_queued_reqs a1 + 1\<rparr>))))))"

definition fq_cap :: "admission_config \<Rightarrow> registered_function \<Rightarrow> nat" where
  "fq_cap cfg func =
     (case Option.bind (rf_admission func) ao_max_queued of
        None \<Rightarrow> default_max_queued_per_func cfg | Some n \<Rightarrow> n)"

definition fn_max_delay :: "admission_config \<Rightarrow> registered_function \<Rightarrow> duration" where
  "fn_max_delay cfg func =
     (case Option.bind (rf_admission func) ao_max_queue_delay of
        None \<Rightarrow> default_max_queue_delay cfg | Some d \<Rightarrow> d)"

definition fq_len :: "function_id \<Rightarrow> adm \<Rightarrow> nat" where
  "fq_len fid a = (case map_of (queues a) fid of None \<Rightarrow> 0 | Some fq \<Rightarrow> length (fq_queue fq))"

definition handle_new_request ::
  "admission_config \<Rightarrow> adm_env \<Rightarrow> request \<Rightarrow> adm \<Rightarrow> (unit fault + unit) \<times> adm" where
  "handle_new_request cfg en req a =
     (let a = a\<lparr>stats := (stats a)\<lparr>num_received := num_received (stats a) + 1\<rparr>\<rparr>;
          fid = rq_function_id req in
      if \<not> function_exists fid (en_store en)
      then (Inr (), fail_admission en req fid (Rejected UnknownFunction) a)
      else
        (let full = (total_queued_reqs a \<ge> int (global_max_queued_reqs cfg));
             checked_expiries = full;
             a = (if full \<and> deadline_passed en a then expire_queued_requests en (en_now en) a else a) in
         if full \<and> total_queued_reqs a \<ge> int (global_max_queued_reqs cfg)
         then (Inr (), fail_admission en req fid QueueFullGlobal a)
         else
           (case get_registered_function fid (en_store' en) of
              Inl _ \<Rightarrow> (Inl (Panic ''function should already exist''), a)
            | Inr func \<Rightarrow>
                (let a = (case map_of (queues a) fid of
                        None \<Rightarrow> a\<lparr>queues := AList.update fid fqueue_new (queues a)\<rparr> | Some _ \<Rightarrow> a);
                     fq_full = (fq_len fid a \<ge> fq_cap cfg func);
                     a = (if fq_full \<and> \<not> checked_expiries \<and> deadline_passed en a
                          then expire_queued_requests en (en_now en) a else a) in
                 if fq_full \<and> fq_len fid a \<ge> fq_cap cfg func
                 then (Inr (), fail_admission en req fid QueueFullFunction a)
                 else
                   (case map_of (queues a) fid of
                      None \<Rightarrow> (Inl (Panic ''FunctionQueue should exist by now''), a)
                    | Some fq \<Rightarrow>
                        (let d = en_now en + fn_max_delay cfg func;
                             e = \<lparr>env_req = req, env_function_id = fid, enqueued_at = en_now en,
                                  deadline = d\<rparr> in
                         (Inr (), update_deadline_timer d
                            (a\<lparr>queues := AList.update fid (fq\<lparr>fq_queue := fq_queue fq @ [e]\<rparr>) (queues a),
                               total_queued_reqs := total_queued_reqs a + 1\<rparr>))))))))"

definition handle_pool_event :: "pool_event \<Rightarrow> adm \<Rightarrow> adm" where
  "handle_pool_event ev a =
     (case ev of
        WorkerIdle fid \<Rightarrow> mark_function_runnable fid a
      | MemoryCapAvailable \<Rightarrow> unblock_resource_blocked_functions a
      | WorkerCapAvailable fid \<Rightarrow>
          (case map_of (queues a) fid of
             None \<Rightarrow> a
           | Some fq \<Rightarrow>
               (case fq_state fq of
                  Blocked FunctionWorkerCap _ \<Rightarrow> mark_function_runnable fid a
                | _ \<Rightarrow> a)))"

definition handle_dispatch_reply ::
  "admission_config \<Rightarrow> adm_env \<Rightarrow> dispatch_response \<Rightarrow> adm \<Rightarrow> (unit fault + unit) \<times> adm" where
  "handle_dispatch_reply cfg en resp a =
     (case outstanding a of
        None \<Rightarrow> (Inl (Panic ''dispatch reply branch enabled only when outstanding.is_some()''), a)
      | Some cur \<Rightarrow>
          (let a = a\<lparr>outstanding := None\<rparr>; fid = env_function_id cur in
           case resp of
             Dispatch w cpu \<Rightarrow>
               if en_forward_ok en
               then (Inr (), a\<lparr>to_workers := to_workers a @ [(env_req cur, w, cpu)],
                      stats := (stats a)\<lparr>num_dispatched := num_dispatched (stats a) + 1\<rparr>\<rparr>)
               else (Inl (Err ()), a)
           | WouldBlock reason \<Rightarrow>
               (case map_of (queues a) fid of
                  None \<Rightarrow> (Inl (Panic ''FunctionQueue should exist by now''), a)
                | Some fq \<Rightarrow>
                    mark_function_blocked cfg (en_now en) fid reason
                      (update_deadline_timer (deadline cur)
                        (a\<lparr>queues := AList.update fid (fq\<lparr>fq_queue := cur # fq_queue fq\<rparr>) (queues a),
                           total_queued_reqs := total_queued_reqs a + 1\<rparr>)))
           | Reject reason \<Rightarrow>
               (Inr (), fail_admission en (env_req cur) fid (Rejected reason) a)))"

section \<open>The event loop\<close>

datatype adm_event =
  Quit
| NewRequest request
| SourceClosed
| PoolEvent pool_event
| SlotAcquired
| SemaphoreClosed
| PoolReply dispatch_response
| PoolReplyLost
| DeadlineFires
| LivenessTick

datatype adm_outcome = Continue | ExitOk quick_stats | ExitErr | Crash string

definition begin_iter :: "adm \<Rightarrow> adm" where
  "begin_iter a = (if should_wait_for_slot a then a\<lparr>waiting_for_slot := True\<rparr> else a)"

definition adm_enabled :: "adm_env \<Rightarrow> adm_event \<Rightarrow> adm \<Rightarrow> bool" where
  "adm_enabled en ev a =
     (case ev of
        SlotAcquired \<Rightarrow> waiting_for_slot a
      | SemaphoreClosed \<Rightarrow> waiting_for_slot a
      | PoolReply _ \<Rightarrow> outstanding a \<noteq> None
      | PoolReplyLost \<Rightarrow> outstanding a \<noteq> None
      | DeadlineFires \<Rightarrow> (case deadline_timer a of None \<Rightarrow> False | Some d \<Rightarrow> d \<le> en_now en)
      | LivenessTick \<Rightarrow> has_blocked_functions a \<and> liveness_at a \<le> en_now en
      | _ \<Rightarrow> True)"

fun outcome :: "(unit fault + unit) \<times> adm \<Rightarrow> adm_outcome \<times> adm" where
  "outcome (Inr (), a) = (Continue, a)"
| "outcome (Inl (Err ()), a) = (ExitErr, a)"
| "outcome (Inl (Panic m), a) = (Crash m, a)"

text \<open>The interval timer ticks again one period after a tick (missed ticks are delayed).\<close>

definition adm_iter ::
  "admission_config \<Rightarrow> adm_env \<Rightarrow> adm_event \<Rightarrow> adm \<Rightarrow> adm_outcome \<times> adm" where
  "adm_iter cfg en ev a =
     (case ev of
        Quit \<Rightarrow> (ExitOk (stats a), a)
      | NewRequest req \<Rightarrow> outcome (handle_new_request cfg en req a)
      | SourceClosed \<Rightarrow> (ExitOk (stats a), a)
      | PoolEvent pe \<Rightarrow> (Continue, handle_pool_event pe a)
      | SlotAcquired \<Rightarrow> outcome (handle_acquired_slot en (a\<lparr>waiting_for_slot := False\<rparr>))
      | SemaphoreClosed \<Rightarrow> (ExitErr, a\<lparr>waiting_for_slot := False\<rparr>)
      | PoolReply resp \<Rightarrow> outcome (handle_dispatch_reply cfg en resp a)
      | PoolReplyLost \<Rightarrow>
          (case outstanding a of
             None \<Rightarrow> (ExitErr, a)
           | Some cur \<Rightarrow>
               (ExitErr, fail_admission en (env_req cur) (env_function_id cur) (Rejected InternalError)
                  (a\<lparr>outstanding := None\<rparr>)))
      | DeadlineFires \<Rightarrow> (Continue, expire_queued_requests en (en_now en) a)
      | LivenessTick \<Rightarrow>
          (Continue, unblock_all (a\<lparr>liveness_at := en_now en + fallback_retry_period cfg\<rparr>)))"

end
