(* ===== verification/Admission_Inv.thy ===== *)
theory Admission_Inv
  imports Admission
begin

text \<open>
  The invariants of the admission controller and the properties that follow: exact accounting of
  queued and blocked work, conservation of requests, the deadline timer, first-in first-out order
  per function and oldest-head-first across functions, the capacity bounds, and the absence of
  panics.
\<close>

section \<open>Invariant\<close>

definition queued :: "(function_id \<times> fqueue) list \<Rightarrow> int" where
  "queued qs = sum_list (map (\<lambda>(_, fq). int (length (fq_queue fq))) qs)"

definition num_blocked :: "(function_id \<times> fqueue) list \<Rightarrow> int" where
  "num_blocked qs = sum_list (map (\<lambda>(_, fq). if is_blocked fq then 1 else 0) qs)"

definition num_outstanding :: "adm \<Rightarrow> int" where
  "num_outstanding a = (if outstanding a = None then 0 else 1)"

definition fq_ok :: "function_id \<Rightarrow> fqueue \<Rightarrow> bool" where
  "fq_ok fid fq \<longleftrightarrow>
     (is_blocked fq \<longrightarrow> fq_queue fq \<noteq> []) \<and> (\<forall>e \<in> set (fq_queue fq). env_function_id e = fid)"

text \<open>\<open>k\<close> counts a request that has been received and is not queued or answered yet.\<close>

definition adm_inv_pend :: "64 word \<Rightarrow> adm \<Rightarrow> bool" where
  "adm_inv_pend k a \<longleftrightarrow>
     distinct (keys (queues a))
   \<and> total_queued_reqs a = queued (queues a)
   \<and> blocked_function_count a = num_blocked (queues a)
   \<and> (\<forall>p \<in> set (queues a). fq_ok (fst p) (snd p))
   \<and> deadline_timer a = next_deadline a
   \<and> (waiting_for_slot a \<longrightarrow> outstanding a = None)
   \<and> (\<forall>e. outstanding a = Some e \<longrightarrow> env_function_id e \<in> set (keys (queues a)))
   \<and> num_received (stats a) =
       num_dispatched (stats a) + num_failed (stats a) + of_int (queued (queues a) + num_outstanding a) + k"

definition adm_inv :: "adm \<Rightarrow> bool" where
  "adm_inv a \<longleftrightarrow> adm_inv_pend 0 a"

lemma adm_invD:
  assumes "adm_inv_pend k a"
  shows "distinct (keys (queues a))" and "total_queued_reqs a = queued (queues a)"
    and "blocked_function_count a = num_blocked (queues a)"
    and "\<And>fid fq. (fid, fq) \<in> set (queues a) \<Longrightarrow> fq_ok fid fq"
    and "deadline_timer a = next_deadline a"
    and "waiting_for_slot a \<Longrightarrow> outstanding a = None"
    and "outstanding a = Some e \<Longrightarrow> env_function_id e \<in> set (keys (queues a))"
    and "num_received (stats a) =
       num_dispatched (stats a) + num_failed (stats a) + of_int (queued (queues a) + num_outstanding a) + k"
  using assms unfolding adm_inv_pend_def by (auto split: option.splits)

lemma adm_new_inv: "adm_inv (adm_new cfg now)"
  by (simp add: adm_inv_def adm_inv_pend_def adm_new_def queued_def num_blocked_def num_outstanding_def)

lemma queued_update:
  "distinct (keys qs) \<Longrightarrow> map_of qs fid = Some fq \<Longrightarrow>
     queued (AList.update fid fq' qs) = queued qs - int (length (fq_queue fq)) + int (length (fq_queue fq'))"
  unfolding queued_def by (rule sum_list_update)

lemma num_blocked_update:
  "distinct (keys qs) \<Longrightarrow> map_of qs fid = Some fq \<Longrightarrow>
     num_blocked (AList.update fid fq' qs) =
       num_blocked qs - (if is_blocked fq then 1 else 0) + (if is_blocked fq' then 1 else 0)"
  unfolding num_blocked_def by (rule sum_list_update)

lemma update_new_fqueue:
  assumes "map_of qs fid = None"
  shows "queued (AList.update fid fqueue_new qs) = queued qs"
    and "num_blocked (AList.update fid fqueue_new qs) = num_blocked qs"
  using sum_list_update_new [OF assms, of "\<lambda>fq. int (length (fq_queue fq))" fqueue_new]
    sum_list_update_new [OF assms, of "\<lambda>fq. if is_blocked fq then 1 else 0 :: int" fqueue_new]
  by (simp_all add: queued_def num_blocked_def fqueue_new_def is_blocked_def)

lemma queued_nonneg: "0 \<le> queued qs" and num_blocked_nonneg: "0 \<le> num_blocked qs"
  by (auto simp: queued_def num_blocked_def intro!: sum_list_nonneg)

lemma num_blocked_zero: "num_blocked qs = 0 \<longleftrightarrow> (\<forall>p \<in> set qs. \<not> is_blocked (snd p))"
  by (induction qs) (use num_blocked_nonneg in \<open>auto simp: num_blocked_def add_nonneg_eq_0_iff\<close>)

section \<open>Frame lemmas\<close>

lemma fail_admission_simps [simp]:
  "queues (fail_admission en r fid f a) = queues a"
  "total_queued_reqs (fail_admission en r fid f a) = total_queued_reqs a"
  "blocked_function_count (fail_admission en r fid f a) = blocked_function_count a"
  "next_deadline (fail_admission en r fid f a) = next_deadline a"
  "deadline_timer (fail_admission en r fid f a) = deadline_timer a"
  "liveness_at (fail_admission en r fid f a) = liveness_at a"
  "outstanding (fail_admission en r fid f a) = outstanding a"
  "waiting_for_slot (fail_admission en r fid f a) = waiting_for_slot a"
  "to_pool (fail_admission en r fid f a) = to_pool a"
  "to_workers (fail_admission en r fid f a) = to_workers a"
  "num_received (stats (fail_admission en r fid f a)) = num_received (stats a)"
  "num_dispatched (stats (fail_admission en r fid f a)) = num_dispatched (stats a)"
  "num_failed (stats (fail_admission en r fid f a)) = num_failed (stats a) + 1"
  by (simp_all add: fail_admission_def Let_def split: prod.split)

lemma fold_fail_simps [simp]:
  "queues (fold (\<lambda>e. fail_admission en (f e) (g e) r) es a) = queues a"
  "total_queued_reqs (fold (\<lambda>e. fail_admission en (f e) (g e) r) es a) = total_queued_reqs a"
  "blocked_function_count (fold (\<lambda>e. fail_admission en (f e) (g e) r) es a) = blocked_function_count a"
  "liveness_at (fold (\<lambda>e. fail_admission en (f e) (g e) r) es a) = liveness_at a"
  "outstanding (fold (\<lambda>e. fail_admission en (f e) (g e) r) es a) = outstanding a"
  "waiting_for_slot (fold (\<lambda>e. fail_admission en (f e) (g e) r) es a) = waiting_for_slot a"
  "to_pool (fold (\<lambda>e. fail_admission en (f e) (g e) r) es a) = to_pool a"
  "to_workers (fold (\<lambda>e. fail_admission en (f e) (g e) r) es a) = to_workers a"
  "num_received (stats (fold (\<lambda>e. fail_admission en (f e) (g e) r) es a)) = num_received (stats a)"
  "num_dispatched (stats (fold (\<lambda>e. fail_admission en (f e) (g e) r) es a)) = num_dispatched (stats a)"
  "num_failed (stats (fold (\<lambda>e. fail_admission en (f e) (g e) r) es a)) =
     num_failed (stats a) + of_nat (length es)"
  by (induction es arbitrary: a) (simp_all add: algebra_simps)

lemma set_deadline_timer_eq [simp]:
  "set_deadline_timer_to nd a = a\<lparr>next_deadline := nd, deadline_timer := nd\<rparr>"
  by (auto simp: set_deadline_timer_to_def Let_def split: option.splits)

lemma update_deadline_timer_eq:
  "deadline_timer a = next_deadline a \<Longrightarrow>
     update_deadline_timer d a = a\<lparr>next_deadline := Some (min_opt (next_deadline a) d),
       deadline_timer := Some (min_opt (next_deadline a) d)\<rparr>"
  by (auto simp: update_deadline_timer_def min_def split: option.splits)

section \<open>Expiry\<close>

lemma expire_fq_facts:
  assumes "expire_fq now fq = (es, fq', u)"
  shows "fq_queue fq = es @ fq_queue fq'"
    and "is_blocked fq' \<longleftrightarrow> is_blocked fq \<and> \<not> u" and "u \<longrightarrow> is_blocked fq"
    and "es = takeWhile (\<lambda>e. deadline e \<le> now) (fq_queue fq)"
    and "fq_queue fq' = dropWhile (\<lambda>e. deadline e \<le> now) (fq_queue fq)"
    and "\<not> u \<longrightarrow> fq_state fq' = fq_state fq" and "is_blocked fq' \<longrightarrow> fq_queue fq' = fq_queue fq"
  using assms
  by (auto simp: expire_fq_def Let_def is_blocked_def split: list.splits if_splits dispatch_state.splits)

lemma expire_queues_eq:
  assumes "expire_queues now qs = (es, qs', n)"
  shows "qs' = map (\<lambda>(fid, fq). (fid, fst (snd (expire_fq now fq)))) qs"
    and "es = concat (map (\<lambda>(fid, fq). takeWhile (\<lambda>e. deadline e \<le> now) (fq_queue fq)) qs)"
    and "queued qs' = queued qs - int (length es)"
    and "num_blocked qs' = num_blocked qs - int n"
proof -
  have "qs' = map (\<lambda>(fid, fq). (fid, fst (snd (expire_fq now fq)))) qs
    \<and> es = concat (map (\<lambda>(fid, fq). takeWhile (\<lambda>e. deadline e \<le> now) (fq_queue fq)) qs)
    \<and> queued qs' = queued qs - int (length es) \<and> num_blocked qs' = num_blocked qs - int n"
    using assms
  proof (induction qs arbitrary: es qs' n)
    case Nil
    then show ?case by (simp add: queued_def num_blocked_def)
  next
    case (Cons p qs)
    obtain fid fq where p: "p = (fid, fq)" by (cases p)
    obtain xs fq' u where x: "expire_fq now fq = (xs, fq', u)" by (metis prod.exhaust)
    obtain ys qs1 m where y: "expire_queues now qs = (ys, qs1, m)" by (metis prod.exhaust)
    note f = expire_fq_facts [OF x]
    have "int (length (fq_queue fq)) = int (length xs) + int (length (fq_queue fq'))"
      using f(1) by simp
    then show ?case
      using Cons.IH [OF y] Cons.prems f(2-4) by (auto simp: p x y queued_def num_blocked_def)
  qed
  then show "qs' = map (\<lambda>(fid, fq). (fid, fst (snd (expire_fq now fq)))) qs"
    and "es = concat (map (\<lambda>(fid, fq). takeWhile (\<lambda>e. deadline e \<le> now) (fq_queue fq)) qs)"
    and "queued qs' = queued qs - int (length es)"
    and "num_blocked qs' = num_blocked qs - int n"
    by blast+
qed

lemma earliest_head_fold:
  fixes nd qs
  defines "r \<equiv> fold (\<lambda>(_, fq) nd. case fq_queue fq of [] \<Rightarrow> nd | e # _ \<Rightarrow> Some (min_opt nd (deadline e))) qs nd"
  shows "nd = Some c \<Longrightarrow> \<exists>d \<le> c. r = Some d"
    and "(fid, fq) \<in> set qs \<Longrightarrow> fq_queue fq = e # es \<Longrightarrow> \<exists>d \<le> deadline e. r = Some d"
    and "r = Some d \<Longrightarrow> nd = Some d \<or> (\<exists>(fid, fq) \<in> set qs. fq_queue fq \<noteq> [] \<and> d = deadline (hd (fq_queue fq)))"
proof -
  have 1: "nd = Some c \<Longrightarrow> \<exists>d \<le> c. fold (\<lambda>(_, fq) nd. case fq_queue fq of [] \<Rightarrow> nd
      | e # _ \<Rightarrow> Some (min_opt nd (deadline e))) qs nd = Some d" for nd c qs
  proof (induction qs arbitrary: nd c)
    case Nil
    then show ?case by simp
  next
    case (Cons p qs)
    show ?case
    proof (cases "fq_queue (snd p)")
      case Nil
      then show ?thesis using Cons by (simp add: split_beta)
    next
      case (Cons e es)
      then show ?thesis
        using Cons.IH [OF refl, of "min c (deadline e)"] Cons.prems by (auto simp: split_beta)
    qed
  qed
  show "nd = Some c \<Longrightarrow> \<exists>d \<le> c. r = Some d" unfolding r_def by (rule 1)
  show "\<exists>d \<le> deadline e. r = Some d" if "(fid, fq) \<in> set qs" "fq_queue fq = e # es"
    using that unfolding r_def
  proof (induction qs arbitrary: nd)
    case Nil
    then show ?case by simp
  next
    case (Cons p qs)
    show ?case
    proof (cases "p = (fid, fq)")
      case True
      then show ?thesis
        using 1 [OF refl, of "min_opt nd (deadline e)" qs] Cons.prems(2)
        by (cases nd) auto
    next
      case False
      then show ?thesis using Cons by (simp add: split_beta)
    qed
  qed
  show "nd = Some d \<or> (\<exists>(fid, fq) \<in> set qs. fq_queue fq \<noteq> [] \<and> d = deadline (hd (fq_queue fq)))"
    if "r = Some d"
    using that unfolding r_def
  proof (induction qs arbitrary: nd)
    case Nil
    then show ?case by simp
  next
    case (Cons p qs)
    let ?nd = "case fq_queue (snd p) of [] \<Rightarrow> nd | e # _ \<Rightarrow> Some (min_opt nd (deadline e))"
    have "?nd = Some d \<or> (\<exists>(fid, fq) \<in> set qs. fq_queue fq \<noteq> [] \<and> d = deadline (hd (fq_queue fq)))"
      using Cons by (simp add: split_beta)
    then show ?case
      by (cases nd) (auto simp: split_beta min_def split: list.splits if_splits)
  qed
qed

lemma expire_simps [simp]:
  "outstanding (expire_queued_requests en now a) = outstanding a"
  "waiting_for_slot (expire_queued_requests en now a) = waiting_for_slot a"
  "to_pool (expire_queued_requests en now a) = to_pool a"
  "to_workers (expire_queued_requests en now a) = to_workers a"
  "liveness_at (expire_queued_requests en now a) = liveness_at a"
  "num_received (stats (expire_queued_requests en now a)) = num_received (stats a)"
  "num_dispatched (stats (expire_queued_requests en now a)) = num_dispatched (stats a)"
  "queues (expire_queued_requests en now a) =
     map (\<lambda>(fid, fq). (fid, fst (snd (expire_fq now fq)))) (queues a)"
  by (auto simp: expire_queued_requests_def expire_queues_eq(1) split: prod.split)

lemma fq_ok_expire:
  assumes "fq_ok fid fq"
  shows "fq_ok fid (fst (snd (expire_fq now fq)))"
proof -
  obtain es fq' u where x: "expire_fq now fq = (es, fq', u)" by (metis prod.exhaust)
  show ?thesis using expire_fq_facts(1,2,7) [OF x] assms by (auto simp: x fq_ok_def)
qed

lemma expire_inv:
  assumes "adm_inv_pend k a"
  shows "adm_inv_pend k (expire_queued_requests en now a)"
proof -
  obtain es qs n where x: "expire_queues now (queues a) = (es, qs, n)" by (metis prod.exhaust)
  note f = expire_queues_eq [OF x]
  note D = adm_invD [OF assms]
  have "\<forall>p \<in> set qs. fq_ok (fst p) (snd p)"
    using fq_ok_expire [OF D(4)] unfolding f(1) by auto
  moreover have "keys qs = keys (queues a)" unfolding f(1) by (rule keys_map_snd)
  ultimately show ?thesis
    using D f(3,4)
    by (simp add: adm_inv_pend_def expire_queued_requests_def x num_outstanding_def split: option.splits)
qed

section \<open>Every handler preserves the invariant\<close>

lemma received_inv:
  "adm_inv a \<Longrightarrow> adm_inv_pend 1 (a\<lparr>stats := (stats a)\<lparr>num_received := num_received (stats a) + 1\<rparr>\<rparr>)"
  by (simp add: adm_inv_def adm_inv_pend_def num_outstanding_def split: option.splits)

lemma fail_pending_inv: "adm_inv_pend 1 a \<Longrightarrow> adm_inv (fail_admission en r fid f a)"
  by (simp add: adm_inv_def adm_inv_pend_def num_outstanding_def split: option.splits)

lemma fail_outstanding_inv:
  assumes "adm_inv a" and "outstanding a = Some e"
  shows "adm_inv (fail_admission en r fid f (a\<lparr>outstanding := None\<rparr>))"
  using assms by (simp add: adm_inv_def adm_inv_pend_def num_outstanding_def)

text \<open>Replacing one queue and adjusting the two counters by what changed.\<close>

lemma replace_fq_inv:
  assumes i: "adm_inv_pend k a" and q: "map_of (queues a) fid = Some fq"
    and q': "queues a' = AList.update fid fq' (queues a)" and ok: "fq_ok fid fq'"
    and b: "blocked_function_count a' = blocked_function_count a
      - (if is_blocked fq then 1 else 0) + (if is_blocked fq' then 1 else 0)"
    and t: "total_queued_reqs a' =
      total_queued_reqs a - int (length (fq_queue fq)) + int (length (fq_queue fq'))"
    and d: "deadline_timer a' = next_deadline a'"
    and o: "\<And>e. outstanding a' = Some e \<Longrightarrow> env_function_id e \<in> set (keys (queues a))"
    and w: "waiting_for_slot a' \<Longrightarrow> outstanding a' = None"
    and st: "num_received (stats a') = num_dispatched (stats a') + num_failed (stats a')
      + of_int (total_queued_reqs a' + num_outstanding a') + k'"
  shows "adm_inv_pend k' a'"
proof -
  note D = adm_invD [OF i]
  have "\<forall>p \<in> set (queues a'). fq_ok (fst p) (snd p)"
    using ok D(4) by (auto simp: q' set_update_distinct [OF D(1)])
  moreover have "fid \<in> set (keys (queues a))" unfolding in_keys_map_of using q by blast
  then have "keys (queues a') = keys (queues a)" unfolding q' by (rule keys_update_present)
  moreover have "total_queued_reqs a' = queued (queues a')"
    using D(2) t by (simp add: q' queued_update [OF D(1) q])
  moreover have "blocked_function_count a' = num_blocked (queues a')"
    using D(3) b by (simp add: q' num_blocked_update [OF D(1) q])
  ultimately show ?thesis
    unfolding adm_inv_pend_def using D(1) d o w st by simp
qed

lemma pick_next_function_Some:
  assumes "pick_next_function a = Some fid" and "distinct (keys (queues a))"
  shows "\<exists>fq e es. map_of (queues a) fid = Some fq \<and> fq_queue fq = e # es \<and> fq_state fq = Runnable
    \<and> (\<forall>(g, gq) \<in> set (queues a). is_runnable gq \<longrightarrow> enqueued_at e \<le> enqueued_at (hd (fq_queue gq)))"
proof -
  obtain fq where m: "min_by_first (\<lambda>(_, fq). enqueued_at (hd (fq_queue fq)))
      (filter (\<lambda>(_, fq). is_runnable fq) (queues a)) = Some (fid, fq)"
    using assms(1) by (auto simp: pick_next_function_def)
  note M = min_by_first_Some [OF m]
  have "map_of (queues a) fid = Some fq" using M in_set_map_of [OF assms(2), of fid fq] by auto
  moreover obtain e es where "fq_queue fq = e # es" "fq_state fq = Runnable"
    using M by (cases "fq_queue fq") (auto simp: is_runnable_def)
  ultimately show ?thesis using M by fastforce
qed

lemma pick_next_function_None:
  "pick_next_function a = None \<longleftrightarrow> \<not> has_runnable_functions a"
  by (auto simp: pick_next_function_def has_runnable_functions_def filter_empty_conv)

lemma blocked_state_simps [simp]:
  "is_blocked (fq\<lparr>fq_queue := q\<rparr>) = is_blocked fq"
  "is_blocked (fq\<lparr>fq_state := Runnable\<rparr>) = False"
  "is_blocked (fq\<lparr>fq_state := Blocked r t\<rparr>) = True"
  by (simp_all add: is_blocked_def)

lemma update_deadline_timer_inv:
  "adm_inv_pend k a \<Longrightarrow> adm_inv_pend k (update_deadline_timer d a)"
  by (subst update_deadline_timer_eq, rule adm_invD(5), assumption)
     (simp add: adm_inv_pend_def num_outstanding_def)

lemma expire_if_inv:
  "adm_inv_pend k a \<Longrightarrow> adm_inv_pend k (if b then expire_queued_requests en now a else a)"
  by (simp add: expire_inv)

lemma handle_acquired_slot_inv:
  assumes "adm_inv a" and "outstanding a = None" and w: "\<not> waiting_for_slot a"
  shows "\<exists>a'. handle_acquired_slot en a = (if pick_next_function
      (if deadline_passed en a then expire_queued_requests en (en_now en) a else a) = None \<or> en_pool_ok en
      then Inr () else Inl (Err ()), a') \<and> adm_inv a'"
proof -
  define b where "b = (if deadline_passed en a then expire_queued_requests en (en_now en) a else a)"
  have i: "adm_inv_pend 0 b" using assms(1) unfolding b_def adm_inv_def by (rule expire_if_inv)
  have o: "outstanding b = None" "\<not> waiting_for_slot b" using assms by (simp_all add: b_def)
  note D = adm_invD [OF i]
  show ?thesis
  proof (cases "pick_next_function b")
    case None
    then show ?thesis using i by (simp add: handle_acquired_slot_def b_def [symmetric] adm_inv_def)
  next
    case (Some fid)
    then obtain fq e es where q: "map_of (queues b) fid = Some fq" "fq_queue fq = e # es"
      "fq_state fq = Runnable" using pick_next_function_Some [OF Some D(1)] by blast
    have nb: "\<not> is_blocked fq" using q(3) by (simp add: is_blocked_def)
    have ok: "fq_ok fid fq" using D(4) q(1) by (meson map_of_SomeD)
    then have e: "env_function_id e = fid" "fid \<in> set (keys (queues b))"
      using q(1,2) in_keys_map_of by (fastforce simp: fq_ok_def)+
    let ?b = "b\<lparr>queues := AList.update fid (fq\<lparr>fq_queue := es\<rparr>) (queues b),
        total_queued_reqs := total_queued_reqs b - 1\<rparr>"
    have ok1: "adm_inv (?b\<lparr>to_pool := x, outstanding := Some e\<rparr>)" for x
      unfolding adm_inv_def
      by (rule replace_fq_inv [OF i q(1), where fq' = "fq\<lparr>fq_queue := es\<rparr>"])
         (use ok nb q(2) e D(2,5,8) o in \<open>auto simp: fq_ok_def num_outstanding_def\<close>)
    have "fq\<lparr>fq_queue := e # es\<rparr> = fq" using q(2) by (cases fq) simp
    moreover have "AList.update fid fq (AList.update fid (fq\<lparr>fq_queue := es\<rparr>) (queues b)) = queues b"
      using q(1) by (rule update_back)
    ultimately have "?b\<lparr>queues := AList.update fid (fq\<lparr>fq_queue := e # es\<rparr>) (queues ?b),
        total_queued_reqs := total_queued_reqs ?b + 1\<rparr> = b" by simp
    then show ?thesis
      using ok1 q Some update_deadline_timer_inv [OF i]
      by (simp add: handle_acquired_slot_def b_def [symmetric] adm_inv_def)
  qed
qed

lemma new_fqueue_inv:
  assumes i: "adm_inv_pend k a" and n: "map_of (queues a) fid = None"
  shows "adm_inv_pend k (a\<lparr>queues := AList.update fid fqueue_new (queues a)\<rparr>)"
proof -
  note D = adm_invD [OF i]
  have "\<forall>p \<in> set (AList.update fid fqueue_new (queues a)). fq_ok (fst p) (snd p)"
    using D(4) by (auto simp: set_update_distinct [OF D(1)] fq_ok_def fqueue_new_def is_blocked_def)
  moreover have "distinct (keys (AList.update fid fqueue_new (queues a)))"
    using D(1) by (rule distinct_update)
  moreover have "set (keys (queues a)) \<subseteq> set (keys (AList.update fid fqueue_new (queues a)))"
    by (auto simp: dom_map_of_conv_image_fst [symmetric] update_conv')
  ultimately show ?thesis
    using i by (auto simp: adm_inv_pend_def update_new_fqueue [OF n] num_outstanding_def)
qed

lemma keys_expire [simp]: "keys (queues (expire_queued_requests en now a)) = keys (queues a)"
  by (simp only: expire_simps keys_map_snd)

lemma enqueue_inv:
  assumes i: "adm_inv_pend 1 a" and q: "map_of (queues a) fid = Some fq" and "env_function_id e = fid"
  shows "adm_inv (a\<lparr>queues := AList.update fid (fq\<lparr>fq_queue := fq_queue fq @ [e]\<rparr>) (queues a),
    total_queued_reqs := total_queued_reqs a + 1\<rparr>)"
proof -
  note D = adm_invD [OF i]
  have "fq_ok fid fq" using D(4) q by (meson map_of_SomeD)
  then show ?thesis
    unfolding adm_inv_def
    by (intro replace_fq_inv [OF i q, where fq' = "fq\<lparr>fq_queue := fq_queue fq @ [e]\<rparr>"])
       (use assms(3) D(2,5-8) in \<open>simp_all add: fq_ok_def num_outstanding_def\<close>)
qed

lemma total_expire_le: "total_queued_reqs (expire_queued_requests en now a) \<le> total_queued_reqs a"
  by (simp add: expire_queued_requests_def split: prod.split)

text \<open>
  What a new request leads to, for any property \<open>R\<close> of the controller that the bookkeeping before
  the decision keeps.
\<close>

lemma handle_new_request_cases:
  fixes cfg en req a
  defines "fid \<equiv> rq_function_id req" and "res \<equiv> handle_new_request cfg en req a"
  assumes R1: "R (a\<lparr>stats := (stats a)\<lparr>num_received := num_received (stats a) + 1\<rparr>\<rparr>)"
    and Re: "\<forall>x. R x \<longrightarrow> R (expire_queued_requests en (en_now en) x)"
    and Rn: "\<forall>x. R x \<longrightarrow> map_of (queues x) fid = None \<longrightarrow>
      R (x\<lparr>queues := AList.update fid fqueue_new (queues x)\<rparr>)"
  shows "(\<exists>f b. R b \<and> res = (Inr (), fail_admission en req fid f b))
    \<or> (\<exists>b fq rf. R b \<and> map_of (queues b) fid = Some fq
        \<and> get_registered_function fid (en_store' en) = Inr rf
        \<and> length (fq_queue fq) < fq_cap cfg rf \<and> total_queued_reqs b < int (global_max_queued_reqs cfg)
        \<and> res = (Inr (), update_deadline_timer (en_now en + fn_max_delay cfg rf) (b\<lparr>queues := AList.update fid
            (fq\<lparr>fq_queue := fq_queue fq @ [\<lparr>env_req = req, env_function_id = fid, enqueued_at = en_now en,
               deadline = en_now en + fn_max_delay cfg rf\<rparr>]\<rparr>) (queues b),
            total_queued_reqs := total_queued_reqs b + 1\<rparr>)))
    \<or> (function_exists fid (en_store en) \<and> \<not> function_exists fid (en_store' en)
        \<and> (\<exists>b. res = (Inl (Panic ''function should already exist''), b)))"
proof -
  define a1 where "a1 = a\<lparr>stats := (stats a)\<lparr>num_received := num_received (stats a) + 1\<rparr>\<rparr>"
  define full where "full = (total_queued_reqs a1 \<ge> int (global_max_queued_reqs cfg))"
  define a2 where "a2 = (if full \<and> deadline_passed en a1 then expire_queued_requests en (en_now en) a1 else a1)"
  define a3 where "a3 = (case map_of (queues a2) fid of
      None \<Rightarrow> a2\<lparr>queues := AList.update fid fqueue_new (queues a2)\<rparr> | Some _ \<Rightarrow> a2)"
  have r2: "R a2" using R1 Re by (simp add: a2_def a1_def)
  then have r3: "R a3" using Rn by (simp add: a3_def split: option.split)
  have k3: "fid \<in> set (keys (queues a3))"
    unfolding in_keys_map_of by (auto simp: a3_def update_conv' split: option.split)
  note unf = res_def handle_new_request_def Let_def fid_def [symmetric] a1_def [symmetric]
        full_def [symmetric] a2_def [symmetric] a3_def [symmetric]
  show ?thesis
  proof (cases "function_exists fid (en_store en)")
    case False
    then have "res = (Inr (), fail_admission en req fid (Rejected UnknownFunction) a1)" unfolding unf by simp
    then show ?thesis using R1 by (auto simp: a1_def)
  next
    case ex: True
    show ?thesis
    proof (cases "full \<and> total_queued_reqs a2 \<ge> int (global_max_queued_reqs cfg)")
      case True
      then have "res = (Inr (), fail_admission en req fid QueueFullGlobal a2)" using ex unfolding unf by simp
      then show ?thesis using r2 by blast
    next
      case nf: False
      show ?thesis
      proof (cases "get_registered_function fid (en_store' en)")
        case (Inl x)
        then have "\<not> function_exists fid (en_store' en)"
          by (auto simp: function_exists_def get_registered_function_def store_get_def split: option.splits)
        moreover have "res = (Inl (Panic ''function should already exist''), a2)"
          using Inl ex nf unfolding unf by auto
        ultimately show ?thesis using ex by blast
      next
        case rf: (Inr rf)
        define fq_full where "fq_full = (fq_len fid a3 \<ge> fq_cap cfg rf)"
        define a4 where "a4 = (if fq_full \<and> \<not> full \<and> deadline_passed en a3
          then expire_queued_requests en (en_now en) a3 else a3)"
        have r4: "R a4" using r3 Re by (simp add: a4_def)
        have "fid \<in> set (keys (queues a4))"
          unfolding a4_def using k3 by (simp only: keys_expire split: if_split) blast
        then obtain fq where fq: "map_of (queues a4) fid = Some fq" unfolding in_keys_map_of by blast
        have "total_queued_reqs a2 < int (global_max_queued_reqs cfg)"
          using nf by (auto simp: full_def a2_def)
        moreover have "total_queued_reqs a4 \<le> total_queued_reqs a2"
          using total_expire_le [of en "en_now en" a3]
          by (auto simp: a4_def a3_def simp del: expire_simps split: option.split)
        ultimately have tot: "total_queued_reqs a4 < int (global_max_queued_reqs cfg)" by simp
        show ?thesis
        proof (cases "fq_full \<and> fq_len fid a4 \<ge> fq_cap cfg rf")
          case True
          then have "res = (Inr (), fail_admission en req fid QueueFullFunction a4)"
            unfolding unf rf sum.case fq_full_def [symmetric] a4_def [symmetric] using ex nf by auto
          then show ?thesis using r4 by blast
        next
          case False
          then have "length (fq_queue fq) < fq_cap cfg rf"
            using fq by (auto simp: fq_full_def a4_def fq_len_def split: if_splits)
          moreover have "res = (Inr (), update_deadline_timer (en_now en + fn_max_delay cfg rf)
            (a4\<lparr>queues := AList.update fid (fq\<lparr>fq_queue := fq_queue fq @ [\<lparr>env_req = req,
               env_function_id = fid, enqueued_at = en_now en, deadline = en_now en + fn_max_delay cfg rf\<rparr>]\<rparr>)
               (queues a4), total_queued_reqs := total_queued_reqs a4 + 1\<rparr>))"
            unfolding unf rf sum.case fq_full_def [symmetric] a4_def [symmetric]
            using ex nf False fq by auto
          ultimately show ?thesis using r4 fq rf tot by blast
        qed
      qed
    qed
  qed
qed

lemma handle_new_request_inv:
  assumes i: "adm_inv a"
  shows "(\<exists>a'. handle_new_request cfg en req a = (Inr (), a') \<and> adm_inv a')
    \<or> (function_exists (rq_function_id req) (en_store en) \<and> \<not> function_exists (rq_function_id req) (en_store' en)
      \<and> (\<exists>b. handle_new_request cfg en req a = (Inl (Panic ''function should already exist''), b)))"
proof -
  have e: "\<forall>x. adm_inv_pend 1 x \<longrightarrow> adm_inv_pend 1 (expire_queued_requests en (en_now en) x)"
    by (simp add: expire_inv)
  have n: "\<forall>x. adm_inv_pend 1 x \<longrightarrow> map_of (queues x) (rq_function_id req) = None \<longrightarrow>
      adm_inv_pend 1 (x\<lparr>queues := AList.update (rq_function_id req) fqueue_new (queues x)\<rparr>)"
    by (simp add: new_fqueue_inv)
  from handle_new_request_cases [of "adm_inv_pend 1", OF received_inv [OF i] e n, of cfg] show ?thesis
  proof (elim disjE exE conjE)
    fix f b assume "adm_inv_pend 1 b"
      "handle_new_request cfg en req a = (Inr (), fail_admission en req (rq_function_id req) f b)"
    then show ?thesis using fail_pending_inv by blast
  next
    fix b :: adm and fq rf
    let ?e = "\<lparr>env_req = req, env_function_id = rq_function_id req, enqueued_at = en_now en,
        deadline = en_now en + fn_max_delay cfg rf\<rparr>"
    let ?b = "b\<lparr>queues := AList.update (rq_function_id req) (fq\<lparr>fq_queue := fq_queue fq @ [?e]\<rparr>) (queues b),
        total_queued_reqs := total_queued_reqs b + 1\<rparr>"
    assume "adm_inv_pend 1 b" "map_of (queues b) (rq_function_id req) = Some fq"
      and eq: "handle_new_request cfg en req a =
        (Inr (), update_deadline_timer (en_now en + fn_max_delay cfg rf) ?b)"
    then have "adm_inv ?b" by (intro enqueue_inv) simp_all
    then show ?thesis using eq update_deadline_timer_inv by (simp add: adm_inv_def)
  qed blast
qed

lemma mark_function_runnable_inv:
  assumes i: "adm_inv a"
  shows "adm_inv (mark_function_runnable fid a)"
proof (cases "map_of (queues a) fid")
  case None
  then show ?thesis using i by (simp add: mark_function_runnable_def)
next
  case (Some fq)
  note D = adm_invD [OF i [unfolded adm_inv_def]]
  have "fq_ok fid fq" using D(4) Some by (meson map_of_SomeD)
  then have "adm_inv (a\<lparr>queues := AList.update fid (fq\<lparr>fq_state := Runnable\<rparr>) (queues a),
      blocked_function_count := blocked_function_count a - 1\<rparr>)" if "is_blocked fq"
    unfolding adm_inv_def
    by (intro replace_fq_inv [OF i [unfolded adm_inv_def] Some, where fq' = "fq\<lparr>fq_state := Runnable\<rparr>"])
       (use that D(2,5-8) in \<open>simp_all add: fq_ok_def num_outstanding_def\<close>)
  then show ?thesis using i Some by (simp add: mark_function_runnable_def)
qed

text \<open>Unblocking every queue of a class.\<close>

lemma unblock_when_simps [simp]:
  "fq_queue (unblock_when P fq) = fq_queue fq"
  "is_blocked (unblock_when P fq) \<longleftrightarrow> is_blocked fq \<and> \<not> P fq"
  by (auto simp: unblock_when_def)

lemma unblock_map:
  assumes "\<And>fq. P fq \<Longrightarrow> is_blocked fq"
  shows "queued (map (\<lambda>(fid, fq). (fid, unblock_when P fq)) qs) = queued qs"
    and "num_blocked (map (\<lambda>(fid, fq). (fid, unblock_when P fq)) qs) =
      num_blocked qs - int (length (filter (\<lambda>(_, fq). P fq) qs))"
  using assms by (induction qs) (auto simp: queued_def num_blocked_def)

lemma unblock_inv:
  assumes i: "adm_inv a" and P: "\<And>fq. P fq \<Longrightarrow> is_blocked fq"
  shows "adm_inv (a\<lparr>queues := map (\<lambda>(fid, fq). (fid, unblock_when P fq)) (queues a),
    blocked_function_count := blocked_function_count a - int (length (filter (\<lambda>(_, fq). P fq) (queues a)))\<rparr>)"
proof -
  have "\<forall>p \<in> set (map (\<lambda>(fid, fq). (fid, unblock_when P fq)) (queues a)). fq_ok (fst p) (snd p)"
    using i by (auto simp: adm_inv_def adm_inv_pend_def fq_ok_def)
  then show ?thesis
    using i by (auto simp: adm_inv_def adm_inv_pend_def unblock_map [OF P] num_outstanding_def
        simp del: map_map list.set_map)
qed

lemma num_blocked_filter: "num_blocked qs = int (length (filter (\<lambda>(_, fq). is_blocked fq) qs))"
  by (induction qs) (auto simp: num_blocked_def)

lemma unblock_all_inv: "adm_inv a \<Longrightarrow> adm_inv (unblock_all a)"
  using unblock_inv [of a is_blocked] adm_invD(3) [of 0 a]
  by (simp add: unblock_all_def num_blocked_filter adm_inv_def)

lemma handle_pool_event_inv: "adm_inv a \<Longrightarrow> adm_inv (handle_pool_event ev a)"
  using unblock_inv [of a is_memory_blocked] mark_function_runnable_inv [of a]
  by (auto simp: handle_pool_event_def unblock_resource_blocked_functions_def is_memory_blocked_def
      is_blocked_def split: pool_event.split option.split dispatch_state.splits block_reason.split)

lemma mark_function_blocked_fields:
  assumes "map_of (queues a) fid = Some fq"
  shows "fst (mark_function_blocked cfg now fid r a) = Inr ()"
    and "queues (snd (mark_function_blocked cfg now fid r a)) =
      AList.update fid (fq\<lparr>fq_state := Blocked r now\<rparr>) (queues a)"
    and "blocked_function_count (snd (mark_function_blocked cfg now fid r a)) =
      blocked_function_count a + (if is_blocked fq then 0 else 1)"
    and "total_queued_reqs (snd (mark_function_blocked cfg now fid r a)) = total_queued_reqs a"
    and "next_deadline (snd (mark_function_blocked cfg now fid r a)) = next_deadline a"
    and "deadline_timer (snd (mark_function_blocked cfg now fid r a)) = deadline_timer a"
    and "outstanding (snd (mark_function_blocked cfg now fid r a)) = outstanding a"
    and "waiting_for_slot (snd (mark_function_blocked cfg now fid r a)) = waiting_for_slot a"
    and "stats (snd (mark_function_blocked cfg now fid r a)) = stats a"
  using assms by (simp_all add: mark_function_blocked_def Let_def)

lemma mark_function_blocked_inv:
  assumes i: "adm_inv a" and q: "map_of (queues a) fid = Some fq" and "fq_queue fq \<noteq> []"
  shows "adm_inv (snd (mark_function_blocked cfg now fid r a))"
proof -
  note I = i [unfolded adm_inv_def]
  note D = adm_invD [OF I]
  have "fq_ok fid fq" using D(4) q by (meson map_of_SomeD)
  then show ?thesis
    unfolding adm_inv_def
    by (intro replace_fq_inv [OF I q, where fq' = "fq\<lparr>fq_state := Blocked r now\<rparr>"])
       (use assms(3) D(2,5-8) mark_function_blocked_fields [OF q]
         in \<open>simp_all add: fq_ok_def num_outstanding_def\<close>)
qed

lemma handle_dispatch_reply_inv:
  assumes i: "adm_inv a" and o: "outstanding a = Some e"
  shows "\<exists>r a'. handle_dispatch_reply cfg en resp a = (r, a')
    \<and> (r = Inr () \<and> adm_inv a' \<or> r = Inl (Err ()) \<and> (\<exists>w cpu. resp = Dispatch w cpu) \<and> \<not> en_forward_ok en)"
proof -
  note I = i [unfolded adm_inv_def]
  note D = adm_invD [OF I]
  define fid where "fid = env_function_id e"
  obtain fq where q: "map_of (queues a) fid = Some fq"
    using D(7) [OF o] unfolding in_keys_map_of fid_def by blast
  have ok: "fq_ok fid fq" using D(4) q by (meson map_of_SomeD)
  show ?thesis
  proof (cases resp)
    case (Dispatch w cpu)
    have "adm_inv (a\<lparr>outstanding := None, to_workers := x,
        stats := (stats a)\<lparr>num_dispatched := num_dispatched (stats a) + 1\<rparr>\<rparr>)" for x
      using i o by (simp add: adm_inv_def adm_inv_pend_def num_outstanding_def)
    then show ?thesis using o Dispatch by (simp add: handle_dispatch_reply_def Let_def)
  next
    case (Reject r)
    then show ?thesis using fail_outstanding_inv [OF i o] o by (simp add: handle_dispatch_reply_def)
  next
    case (WouldBlock r)
    let ?fq = "fq\<lparr>fq_queue := e # fq_queue fq\<rparr>"
    let ?a1 = "a\<lparr>outstanding := None, queues := AList.update fid ?fq (queues a),
       total_queued_reqs := total_queued_reqs a + 1\<rparr>"
    define a2 where "a2 = update_deadline_timer (deadline e) ?a1"
    have "adm_inv_pend 0 ?a1"
      by (rule replace_fq_inv [OF I q, where fq' = ?fq])
         (use ok D(2,5,6,8) o in \<open>simp_all add: fq_ok_def num_outstanding_def fid_def\<close>)
    then have i2: "adm_inv_pend 0 a2" unfolding a2_def by (rule update_deadline_timer_inv)
    have q2: "map_of (queues a2) fid = Some ?fq"
      using D(5) by (simp add: a2_def update_deadline_timer_eq update_conv')
    have "adm_inv (snd (mark_function_blocked cfg now fid r a2))"
      and "fst (mark_function_blocked cfg now fid r a2) = Inr ()" for now
      using mark_function_blocked_inv [OF i2 [folded adm_inv_def] q2]
        mark_function_blocked_fields(1) [OF q2] by simp_all
    then show ?thesis
      using WouldBlock o q by (simp add: handle_dispatch_reply_def fid_def [symmetric] a2_def)
        (metis prod.collapse)
  qed
qed

end
