(* ===== verification/Admission_Time.thy ===== *)
theory Admission_Time
  imports Admission_Inv
begin

text \<open>
  Time in the admission controller: the event loop as a step relation over an environment with a
  monotonic clock, the order of the per-function queues, deadlines and the expiry timer.
\<close>

section \<open>Runs of the event loop\<close>

text \<open>
  The states that the loop reaches. \<open>P\<close> is what is assumed of the environment in every iteration;
  a run goes on as long as the outcome is \<open>Continue\<close>. The clock never goes backwards.
\<close>

inductive adm_reach :: "admission_config \<Rightarrow> (adm_env \<Rightarrow> bool) \<Rightarrow> instant \<Rightarrow> adm \<Rightarrow> bool"
  for cfg P where
  start: "adm_reach cfg P t (adm_new cfg t)"
| step: "adm_reach cfg P t a \<Longrightarrow> t \<le> en_now en \<Longrightarrow> P en \<Longrightarrow> adm_enabled en ev (begin_iter a) \<Longrightarrow>
    adm_iter cfg en ev (begin_iter a) = (Continue, a') \<Longrightarrow> adm_reach cfg P (en_now en) a'"

lemma outcome_Continue: "outcome r = (Continue, a') \<longleftrightarrow> r = (Inr (), a')"
  by (cases r rule: outcome.cases) auto

lemma begin_iter_inv: "adm_inv a \<Longrightarrow> adm_inv (begin_iter a)"
  by (simp add: begin_iter_def should_wait_for_slot_def adm_inv_def adm_inv_pend_def num_outstanding_def)

lemma waiting_off_inv: "adm_inv a \<Longrightarrow> adm_inv (a\<lparr>waiting_for_slot := False\<rparr>)"
  by (simp add: adm_inv_def adm_inv_pend_def num_outstanding_def)

lemma liveness_inv [simp]: "adm_inv (a\<lparr>liveness_at := x\<rparr>) = adm_inv a"
  by (simp add: adm_inv_def adm_inv_pend_def num_outstanding_def)

lemma adm_iter_inv:
  assumes i: "adm_inv a" and en: "adm_enabled en ev a" and c: "adm_iter cfg en ev a = (Continue, a')"
  shows "adm_inv a'"
proof (cases ev)
  case SlotAcquired
  have "outstanding a = None"
    using en adm_invD(6) [OF i [unfolded adm_inv_def]] SlotAcquired by (simp add: adm_enabled_def)
  then show ?thesis
    using handle_acquired_slot_inv [OF waiting_off_inv [OF i], of en] c SlotAcquired
    by (auto simp: adm_iter_def outcome_Continue split: if_splits)
next
  case (PoolReply resp)
  then obtain e where "outstanding a = Some e" using en by (auto simp: adm_enabled_def)
  then show ?thesis
    using handle_dispatch_reply_inv [OF i, of e cfg en resp] c PoolReply
    by (auto simp: adm_iter_def outcome_Continue)
next
  case (NewRequest req)
  then show ?thesis
    using handle_new_request_inv [OF i, of cfg en req] c by (auto simp: adm_iter_def outcome_Continue)
qed (use c i handle_pool_event_inv [OF i] expire_inv [of 0 a, folded adm_inv_def]
     unblock_all_inv in \<open>auto simp: adm_iter_def split: option.splits\<close>)

lemma adm_reach_inv: "adm_reach cfg P t a \<Longrightarrow> adm_inv a"
  by (induction rule: adm_reach.induct) (use adm_new_inv adm_iter_inv begin_iter_inv in blast)+

section \<open>Queue contents\<close>

definition qof :: "adm \<Rightarrow> function_id \<Rightarrow> envelope list" where
  "qof a fid = (case map_of (queues a) fid of None \<Rightarrow> [] | Some fq \<Rightarrow> fq_queue fq)"

definition out_of :: "adm \<Rightarrow> function_id \<Rightarrow> envelope list" where
  "out_of a fid = (case outstanding a of None \<Rightarrow> [] | Some e \<Rightarrow> if env_function_id e = fid then [e] else [])"

lemma qof_update:
  "queues a' = AList.update fid fq (queues a) \<Longrightarrow> qof a' = (qof a)(fid := fq_queue fq)"
  by (auto simp: qof_def update_conv')

lemma qof_frames [simp]:
  "qof (a\<lparr>stats := x1\<rparr>) = qof a" "qof (a\<lparr>outstanding := x2\<rparr>) = qof a"
  "qof (a\<lparr>waiting_for_slot := x3\<rparr>) = qof a" "qof (a\<lparr>liveness_at := x4\<rparr>) = qof a"
  "qof (a\<lparr>to_workers := x5\<rparr>) = qof a" "qof (fail_admission en r fid f a) = qof a"
  by (simp_all add: qof_def fun_eq_iff)

lemma qof_map:
  assumes "queues a' = map (\<lambda>(fid, fq). (fid, g fq)) (queues a)"
    and "\<And>fq. fq_queue (g fq) = h (fq_queue fq)" and "h [] = []"
  shows "qof a' fid = h (qof a fid)"
  using assms by (simp add: qof_def map_of_map_snd split: option.split)

lemma qof_expire [simp]:
  "qof (expire_queued_requests en now a) fid = dropWhile (\<lambda>e. deadline e \<le> now) (qof a fid)"
  by (rule qof_map [where g = "\<lambda>fq. fst (snd (expire_fq now fq))"]) (simp_all add: expire_fq_def Let_def)

lemma qof_unblock_all [simp]: "qof (unblock_all a) = qof a"
  using qof_map [of "unblock_all a" "unblock_when is_blocked" a "\<lambda>x. x"]
  by (auto simp: unblock_all_def qof_def)

lemma qof_mark_runnable [simp]: "qof (mark_function_runnable fid a) = qof a"
  by (auto simp: mark_function_runnable_def qof_def update_conv' split: option.splits)

lemma qof_pool_event [simp]: "qof (handle_pool_event ev a) = qof a"
  using qof_map [of "unblock_resource_blocked_functions a" "unblock_when is_memory_blocked" a "\<lambda>x. x"]
  by (auto simp: handle_pool_event_def unblock_resource_blocked_functions_def
      split: pool_event.split option.split dispatch_state.split block_reason.split)

lemma pool_event_frame [simp]:
  "outstanding (handle_pool_event ev a) = outstanding a"
  "next_deadline (handle_pool_event ev a) = next_deadline a"
  "total_queued_reqs (handle_pool_event ev a) = total_queued_reqs a"
  by (simp_all add: handle_pool_event_def unblock_resource_blocked_functions_def
      mark_function_runnable_def
      split: pool_event.split option.split dispatch_state.split block_reason.split)

lemma unblock_all_frame [simp]:
  "outstanding (unblock_all a) = outstanding a" "next_deadline (unblock_all a) = next_deadline a"
  "total_queued_reqs (unblock_all a) = total_queued_reqs a"
  by (simp_all add: unblock_all_def)

section \<open>Order and deadlines\<close>

text \<open>
  \<open>fq_time D t nd out fid q\<close>: the request in flight and the queue are in order of arrival, nothing
  is from the future, every deadline is the arrival plus the queue delay of the function, and the
  cached deadline \<open>nd\<close> is not later than any queued deadline.
\<close>

definition fq_time ::
  "(function_id \<Rightarrow> duration) \<Rightarrow> instant \<Rightarrow> instant option \<Rightarrow> envelope list \<Rightarrow> function_id
    \<Rightarrow> envelope list \<Rightarrow> bool" where
  "fq_time D t nd out fid q \<longleftrightarrow>
     sorted (map enqueued_at (out @ q))
   \<and> (\<forall>e \<in> set (out @ q). enqueued_at e \<le> t \<and> deadline e = enqueued_at e + D fid)
   \<and> (\<forall>e \<in> set q. case nd of None \<Rightarrow> False | Some d \<Rightarrow> d \<le> deadline e)"

definition time_inv :: "(function_id \<Rightarrow> duration) \<Rightarrow> instant \<Rightarrow> adm \<Rightarrow> bool" where
  "time_inv D t a \<longleftrightarrow> (\<forall>fid. fq_time D t (next_deadline a) (out_of a fid) fid (qof a fid))"

lemma fq_time_mono: "fq_time D t nd out fid q \<Longrightarrow> t \<le> t' \<Longrightarrow> fq_time D t' nd out fid q"
  by (force simp: fq_time_def)

lemma fq_time_min_opt: "fq_time D t nd out fid q \<Longrightarrow> fq_time D t (Some (min_opt nd d)) out fid q"
  by (cases nd) (auto simp: fq_time_def)

lemma fq_time_drop: "fq_time D t nd out fid q \<Longrightarrow> fq_time D t nd [] fid q"
  by (auto simp: fq_time_def sorted_append)

lemma time_inv_mono: "time_inv D t a \<Longrightarrow> t \<le> t' \<Longrightarrow> time_inv D t' a"
  using fq_time_mono unfolding time_inv_def by blast

lemma time_inv_cong:
  "time_inv D t a \<Longrightarrow> next_deadline a' = next_deadline a \<Longrightarrow> outstanding a' = outstanding a
    \<Longrightarrow> qof a' = qof a \<Longrightarrow> time_inv D t a'"
  by (simp add: time_inv_def out_of_def)

lemma fq_time_suffix:
  assumes "fq_time D t nd out fid (p @ r)"
    and "\<And>e es. r = e # es \<Longrightarrow> \<exists>d \<le> deadline e. nd' = Some d"
  shows "fq_time D t nd' out fid r"
proof -
  have s: "sorted (map enqueued_at (out @ r))" using assms(1) by (auto simp: fq_time_def sorted_append)
  have "case nd' of None \<Rightarrow> False | Some d \<Rightarrow> d \<le> deadline x" if x: "x \<in> set r" for x
  proof -
    obtain e es where e: "r = e # es" using x by (cases r) auto
    have "enqueued_at e \<le> enqueued_at x" using s x e by (auto simp: sorted_append)
    moreover have "deadline e = enqueued_at e + D fid" "deadline x = enqueued_at x + D fid"
      using assms(1) x e by (auto simp: fq_time_def)
    ultimately show ?thesis using assms(2) [OF e] by auto
  qed
  then show ?thesis using assms(1) s by (auto simp: fq_time_def)
qed

lemma next_deadline_expire:
  "next_deadline (expire_queued_requests en now a) = earliest_head (queues (expire_queued_requests en now a))"
  by (simp add: expire_queued_requests_def split: prod.split)

lemma earliest_head_le:
  assumes "distinct (keys (queues a))" and "qof a fid = e # es"
  shows "\<exists>d \<le> deadline e. earliest_head (queues a) = Some d"
proof -
  obtain fq where "map_of (queues a) fid = Some fq" "fq_queue fq = e # es"
    using assms(2) by (auto simp: qof_def split: option.splits)
  then show ?thesis
    unfolding earliest_head_def by (intro earliest_head_fold(2) [of fid fq _ e es]) (auto dest: map_of_SomeD)
qed

lemma expire_time_inv:
  assumes "time_inv D t a" and "distinct (keys (queues a))"
  shows "time_inv D t (expire_queued_requests en now a)"
  unfolding time_inv_def
proof
  fix fid
  let ?a = "expire_queued_requests en now a"
  have "distinct (keys (queues ?a))" using assms(2) by (simp only: keys_expire)
  then have "\<exists>d \<le> deadline e. next_deadline ?a = Some d"
    if "dropWhile (\<lambda>e. deadline e \<le> now) (qof a fid) = e # es" for e es
    unfolding next_deadline_expire using earliest_head_le [of ?a fid e es] that by (simp only: qof_expire)
  then show "fq_time D t (next_deadline ?a) (out_of ?a fid) fid (qof ?a fid)"
    using fq_time_suffix [of D t "next_deadline a" "out_of a fid" fid
        "takeWhile (\<lambda>e. deadline e \<le> now) (qof a fid)" "dropWhile (\<lambda>e. deadline e \<le> now) (qof a fid)"
        "next_deadline ?a"] assms(1)
    by (simp add: time_inv_def out_of_def)
qed

text \<open>The environment keeps the queue delay of every registered function.\<close>

definition steady :: "admission_config \<Rightarrow> (function_id \<Rightarrow> duration) \<Rightarrow> adm_env \<Rightarrow> bool" where
  "steady cfg D en \<longleftrightarrow>
     (\<forall>fid rf. get_registered_function fid (en_store' en) = Inr rf \<longrightarrow> fn_max_delay cfg rf = D fid)"

lemma fq_time_snoc:
  assumes "fq_time D t nd out fid q" and "enqueued_at e = t" and "deadline e = t + D fid"
  shows "fq_time D t (Some (min_opt nd (deadline e))) out fid (q @ [e])"
  using fq_time_min_opt [OF assms(1), of "deadline e"] assms(2,3)
  by (cases nd) (auto simp: fq_time_def sorted_append)

lemma fq_time_requeue:
  "fq_time D t nd [e] fid q \<Longrightarrow> fq_time D t (Some (min_opt nd (deadline e))) [] fid (e # q)"
  by (cases nd) (auto simp: fq_time_def)

lemma fq_time_pop: "fq_time D t nd [] fid (e # q) \<Longrightarrow> fq_time D t nd [e] fid q"
  by (auto simp: fq_time_def)

lemma handle_new_request_time:
  assumes i: "adm_inv a" and t: "time_inv D t a" and now: "t \<le> en_now en" and st: "steady cfg D en"
    and r: "handle_new_request cfg en req a = (Inr (), a')"
  shows "time_inv D (en_now en) a'"
proof -
  let ?R = "\<lambda>x. adm_inv_pend 1 x \<and> time_inv D (en_now en) x"
  let ?fid = "rq_function_id req"
  have r1: "?R (a\<lparr>stats := (stats a)\<lparr>num_received := num_received (stats a) + 1\<rparr>\<rparr>)"
    using received_inv [OF i] time_inv_mono [OF t now] time_inv_cong [of D "en_now en" a]
    by simp
  have r2: "\<forall>x. ?R x \<longrightarrow> ?R (expire_queued_requests en (en_now en) x)"
    using expire_inv expire_time_inv adm_invD(1) by blast
  have r3: "\<forall>x. ?R x \<longrightarrow> map_of (queues x) ?fid = None \<longrightarrow>
      ?R (x\<lparr>queues := AList.update ?fid fqueue_new (queues x)\<rparr>)"
  proof (intro allI impI)
    fix x assume x: "?R x" "map_of (queues x) ?fid = None"
    let ?x = "x\<lparr>queues := AList.update ?fid fqueue_new (queues x)\<rparr>"
    have "qof ?x = qof x"
      using x(2) by (intro ext) (simp add: qof_def update_conv' fqueue_new_def)
    then have "time_inv D (en_now en) ?x"
      using x(1) time_inv_cong [of D "en_now en" x ?x] by simp
    then show "?R ?x" using x new_fqueue_inv by simp
  qed
  from handle_new_request_cases [of ?R, OF r1 r2 r3, of cfg] show ?thesis
  proof (elim disjE exE conjE)
    fix f b assume "time_inv D (en_now en) b"
      "handle_new_request cfg en req a = (Inr (), fail_admission en req ?fid f b)"
    then show ?thesis using r time_inv_cong [of D "en_now en" b] by simp
  next
    fix b :: adm and fq rf
    let ?e = "\<lparr>env_req = req, env_function_id = ?fid, enqueued_at = en_now en,
      deadline = en_now en + fn_max_delay cfg rf\<rparr>"
    assume b: "adm_inv_pend 1 b" "time_inv D (en_now en) b" "map_of (queues b) ?fid = Some fq"
      and rf: "get_registered_function ?fid (en_store' en) = Inr rf"
      and eq: "handle_new_request cfg en req a = (Inr (), update_deadline_timer (en_now en + fn_max_delay cfg rf)
        (b\<lparr>queues := AList.update ?fid (fq\<lparr>fq_queue := fq_queue fq @ [?e]\<rparr>) (queues b),
          total_queued_reqs := total_queued_reqs b + 1\<rparr>))"
    have d: "fn_max_delay cfg rf = D ?fid" using st rf by (simp add: steady_def)
    have a': "next_deadline a' = Some (min_opt (next_deadline b) (deadline ?e))"
      "outstanding a' = outstanding b" "qof a' = (qof b)(?fid := fq_queue fq @ [?e])"
      using eq r adm_invD(5) [OF b(1)] qof_update [of a' ?fid "fq\<lparr>fq_queue := fq_queue fq @ [?e]\<rparr>" b]
      by (simp_all add: update_deadline_timer_eq)
    have "fq_queue fq = qof b ?fid" using b(3) by (simp add: qof_def)
    then show ?thesis
      using b(2) fq_time_snoc [of D "en_now en" _ _ ?fid _ ?e] fq_time_min_opt d
      unfolding time_inv_def by (auto simp: a' out_of_def)
  qed (use r in simp_all)
qed

lemma handle_acquired_slot_cases:
  assumes i: "adm_inv a" and o: "outstanding a = None"
    and r: "handle_acquired_slot en a = (Inr (), a')"
  defines "b \<equiv> (if deadline_passed en a then expire_queued_requests en (en_now en) a else a)"
  shows "(\<not> has_runnable_functions b \<and> a' = b)
    \<or> (\<exists>fid fq e es. map_of (queues b) fid = Some fq \<and> fq_state fq = Runnable \<and> fq_queue fq = e # es
        \<and> env_function_id e = fid
        \<and> (\<forall>(g, gq) \<in> set (queues b). is_runnable gq \<longrightarrow> enqueued_at e \<le> enqueued_at (hd (fq_queue gq)))
        \<and> a' = b\<lparr>queues := AList.update fid (fq\<lparr>fq_queue := es\<rparr>) (queues b),
            total_queued_reqs := total_queued_reqs b - 1,
            to_pool := to_pool b @ [(fid, ReuseIdleOrProvision)], outstanding := Some e\<rparr>)"
proof (cases "pick_next_function b")
  case None
  then show ?thesis
    using r pick_next_function_None [of b] by (simp add: handle_acquired_slot_def b_def [symmetric])
next
  case (Some fid)
  have i: "adm_inv_pend 0 b" using i unfolding b_def adm_inv_def by (rule expire_if_inv)
  note D = adm_invD [OF i]
  obtain fq e es where q: "map_of (queues b) fid = Some fq" "fq_queue fq = e # es" "fq_state fq = Runnable"
    "\<forall>(g, gq) \<in> set (queues b). is_runnable gq \<longrightarrow> enqueued_at e \<le> enqueued_at (hd (fq_queue gq))"
    using pick_next_function_Some [OF Some D(1)] by blast
  moreover have "env_function_id e = fid" using D(4) q(1,2) map_of_SomeD by (fastforce simp: fq_ok_def)
  moreover have "a' = b\<lparr>queues := AList.update fid (fq\<lparr>fq_queue := es\<rparr>) (queues b),
            total_queued_reqs := total_queued_reqs b - 1,
            to_pool := to_pool b @ [(fid, ReuseIdleOrProvision)], outstanding := Some e\<rparr>"
    using r Some q by (simp add: handle_acquired_slot_def b_def [symmetric] Let_def split: if_splits)
  ultimately show ?thesis by blast
qed

lemma expire_if_time:
  "time_inv D t a \<Longrightarrow> distinct (keys (queues a)) \<Longrightarrow>
     time_inv D t (if b then expire_queued_requests en now a else a)"
  by (simp add: expire_time_inv)

lemma handle_acquired_slot_time:
  assumes i: "adm_inv a" and t: "time_inv D t a" and o: "outstanding a = None"
    and r: "handle_acquired_slot en a = (Inr (), a')"
  shows "time_inv D t a'"
proof -
  define b where "b = (if deadline_passed en a then expire_queued_requests en (en_now en) a else a)"
  have tb: "time_inv D t b"
    unfolding b_def using t adm_invD(1) [OF i [unfolded adm_inv_def]] by (rule expire_if_time)
  have ob: "outstanding b = None" using o by (simp add: b_def)
  from handle_acquired_slot_cases [OF i o r] show ?thesis
    unfolding b_def [symmetric]
  proof (elim disjE exE conjE)
    fix fid fq e es
    assume q: "map_of (queues b) fid = Some fq" "fq_queue fq = e # es" "env_function_id e = fid"
      and a': "a' = b\<lparr>queues := AList.update fid (fq\<lparr>fq_queue := es\<rparr>) (queues b),
            total_queued_reqs := total_queued_reqs b - 1,
            to_pool := to_pool b @ [(fid, ReuseIdleOrProvision)], outstanding := Some e\<rparr>"
    have "qof a' = (qof b)(fid := es)" using qof_update [of a' fid "fq\<lparr>fq_queue := es\<rparr>" b] a' by simp
    moreover have "out_of a' g = (if g = fid then [e] else [])" "out_of b g = []" for g
      using a' q(3) ob by (auto simp: out_of_def)
    moreover have "qof b fid = e # es" using q by (simp add: qof_def)
    moreover have "next_deadline a' = next_deadline b" using a' by simp
    ultimately show ?thesis
      using tb fq_time_pop [of D t "next_deadline b" fid e es] unfolding time_inv_def by (metis fun_upd_apply)
  qed (use tb in simp)
qed

lemma handle_dispatch_reply_time:
  assumes i: "adm_inv a" and t: "time_inv D t a"
    and r: "handle_dispatch_reply cfg en resp a = (Inr (), a')"
  shows "time_inv D t a'"
proof -
  obtain e where o: "outstanding a = Some e" using r by (auto simp: handle_dispatch_reply_def split: option.splits)
  have drop: "time_inv D t x" if "outstanding x = None" "next_deadline x = next_deadline a" "qof x = qof a" for x
    using t fq_time_drop that unfolding time_inv_def by (simp add: out_of_def [of x]) blast
  show ?thesis
  proof (cases resp)
    case (Dispatch w cpu)
    then show ?thesis
      using r o by (intro drop) (auto simp: handle_dispatch_reply_def Let_def split: if_splits)
  next
    case (Reject x)
    then show ?thesis
      using r o by (intro drop) (auto simp: handle_dispatch_reply_def Let_def)
  next
    case (WouldBlock reason)
    define fid where "fid = env_function_id e"
    obtain fq where q: "map_of (queues a) fid = Some fq"
      using adm_invD(7) [OF i [unfolded adm_inv_def] o] unfolding in_keys_map_of fid_def by blast
    define b where "b = update_deadline_timer (deadline e) (a\<lparr>outstanding := None, queues := AList.update fid
      (fq\<lparr>fq_queue := e # fq_queue fq\<rparr>) (queues a), total_queued_reqs := total_queued_reqs a + 1\<rparr>)"
    have b: "next_deadline b = Some (min_opt (next_deadline a) (deadline e))" "outstanding b = None"
      "map_of (queues b) fid = Some (fq\<lparr>fq_queue := e # fq_queue fq\<rparr>)" "qof b = (qof a)(fid := e # fq_queue fq)"
      using adm_invD(5) [OF i [unfolded adm_inv_def]] qof_update [of b fid "fq\<lparr>fq_queue := e # fq_queue fq\<rparr>" a]
      by (simp_all add: b_def update_deadline_timer_eq update_conv')
    have a': "a' = snd (mark_function_blocked cfg (en_now en) fid reason b)"
      using r o q WouldBlock by (simp add: handle_dispatch_reply_def fid_def [symmetric] b_def)
    note F = mark_function_blocked_fields [OF b(3), of cfg "en_now en" reason]
    have "qof a' = qof b"
      using qof_update [OF F(2)] b(4) unfolding a' by (auto simp: fun_eq_iff)
    moreover have "fq_queue fq = qof a fid" using q by (simp add: qof_def)
    moreover have "out_of a g = (if g = fid then [e] else [])" "out_of a' g = []" for g
      using o F(7) b(2) by (auto simp: out_of_def a' fid_def)
    ultimately have "fq_time D t (next_deadline a') (out_of a' g) g (qof a' g)" for g
      using t [unfolded time_inv_def, rule_format, of g] F(5) [folded a'] b(1,4)
      by (cases "g = fid") (simp_all add: fq_time_requeue fq_time_min_opt)
    then show ?thesis by (simp add: time_inv_def)
  qed
qed

section \<open>Runs keep the invariants\<close>

lemma begin_iter_frame [simp]:
  "queues (begin_iter a) = queues a" "outstanding (begin_iter a) = outstanding a"
  "next_deadline (begin_iter a) = next_deadline a" "total_queued_reqs (begin_iter a) = total_queued_reqs a"
  "qof (begin_iter a) = qof a" "deadline_timer (begin_iter a) = deadline_timer a"
  "stats (begin_iter a) = stats a" "to_resp_sink (begin_iter a) = to_resp_sink a"
  "liveness_at (begin_iter a) = liveness_at a"
  "blocked_function_count (begin_iter a) = blocked_function_count a"
  "to_pool (begin_iter a) = to_pool a"
  by (simp_all add: begin_iter_def)

lemma adm_iter_time:
  assumes i: "adm_inv a" and t: "time_inv D t a" and now: "t \<le> en_now en" and st: "steady cfg D en"
    and en: "adm_enabled en ev a" and c: "adm_iter cfg en ev a = (Continue, a')"
  shows "time_inv D (en_now en) a'"
proof -
  note t' = time_inv_mono [OF t now]
  show ?thesis
  proof (cases ev)
    case (NewRequest req)
    then show ?thesis
      using handle_new_request_time [OF i t now st] c by (simp add: adm_iter_def outcome_Continue)
  next
    case SlotAcquired
    have "time_inv D (en_now en) (a\<lparr>waiting_for_slot := False\<rparr>)"
      using t' time_inv_cong [of D "en_now en" a] by simp
    moreover have "outstanding a = None"
      using en adm_invD(6) [OF i [unfolded adm_inv_def]] SlotAcquired by (simp add: adm_enabled_def)
    ultimately show ?thesis
      using handle_acquired_slot_time [OF waiting_off_inv [OF i]] c SlotAcquired
      by (simp add: adm_iter_def outcome_Continue)
  next
    case (PoolReply resp)
    then show ?thesis
      using handle_dispatch_reply_time [OF i t'] c by (simp add: adm_iter_def outcome_Continue)
  next
    case (PoolEvent pe)
    then show ?thesis using c t' time_inv_cong [of D "en_now en" a] by (auto simp: adm_iter_def)
  next
    case DeadlineFires
    then show ?thesis
      using c expire_time_inv [OF t' adm_invD(1) [OF i [unfolded adm_inv_def]]] by (auto simp: adm_iter_def)
  next
    case LivenessTick
    then show ?thesis using c t' time_inv_cong [of D "en_now en" a] by (auto simp: adm_iter_def)
  qed (use c in \<open>auto simp: adm_iter_def split: option.splits\<close>)
qed

lemma adm_reach_time:
  assumes "adm_reach cfg P t a" and "\<forall>en. P en \<longrightarrow> steady cfg D en"
  shows "time_inv D t a"
  using assms
proof (induction rule: adm_reach.induct)
  case (start t)
  show ?case by (simp add: time_inv_def fq_time_def adm_new_def qof_def out_of_def)
next
  case (step t a en ev a')
  have "time_inv D t (begin_iter a)"
    by (rule time_inv_cong [OF step.IH [OF step.prems]]) simp_all
  then show ?case
    using adm_iter_time [OF begin_iter_inv [OF adm_reach_inv [OF step.hyps(1)]]] step by blast
qed

definition cap_ok :: "admission_config \<Rightarrow> adm \<Rightarrow> bool" where
  "cap_ok cfg a \<longleftrightarrow> total_queued_reqs a + num_outstanding a \<le> int (global_max_queued_reqs cfg) + 1"

lemma cap_ok_mono:
  "cap_ok cfg a \<Longrightarrow> outstanding a' = outstanding a \<Longrightarrow> total_queued_reqs a' \<le> total_queued_reqs a
    \<Longrightarrow> cap_ok cfg a'"
  by (simp add: cap_ok_def num_outstanding_def)

lemma handle_new_request_cap:
  assumes "cap_ok cfg a" and r: "handle_new_request cfg en req a = (Inr (), a')"
  shows "cap_ok cfg a'"
proof -
  have r1: "cap_ok cfg (a\<lparr>stats := (stats a)\<lparr>num_received := num_received (stats a) + 1\<rparr>\<rparr>)"
    using cap_ok_mono [OF assms(1)] by simp
  have r2: "\<forall>x. cap_ok cfg x \<longrightarrow> cap_ok cfg (expire_queued_requests en (en_now en) x)"
    using cap_ok_mono total_expire_le by (metis expire_simps(1))
  have r3: "\<forall>x. cap_ok cfg x \<longrightarrow> map_of (queues x) (rq_function_id req) = None \<longrightarrow>
      cap_ok cfg (x\<lparr>queues := AList.update (rq_function_id req) fqueue_new (queues x)\<rparr>)"
    by (simp add: cap_ok_def num_outstanding_def)
  from handle_new_request_cases [of "cap_ok cfg", OF r1 r2 r3, of cfg] r show ?thesis
    by (auto simp: cap_ok_def num_outstanding_def update_deadline_timer_def)
qed

lemma adm_iter_cap:
  assumes i: "adm_inv a" and k: "cap_ok cfg a" and en: "adm_enabled en ev a"
    and c: "adm_iter cfg en ev a = (Continue, a')"
  shows "cap_ok cfg a'"
proof (cases ev)
  case (NewRequest req)
  then show ?thesis using handle_new_request_cap [OF k] c by (simp add: adm_iter_def outcome_Continue)
next
  case SlotAcquired
  have o: "outstanding a = None"
    using en adm_invD(6) [OF i [unfolded adm_inv_def]] SlotAcquired by (simp add: adm_enabled_def)
  then show ?thesis
    using handle_acquired_slot_cases [OF waiting_off_inv [OF i], of en a'] c SlotAcquired k
      total_expire_le [of en "en_now en" "a\<lparr>waiting_for_slot := False\<rparr>"]
    by (auto simp: adm_iter_def outcome_Continue cap_ok_def num_outstanding_def split: if_splits)
next
  case (PoolReply resp)
  obtain e where o: "outstanding a = Some e" using en PoolReply by (auto simp: adm_enabled_def)
  have "total_queued_reqs a' + num_outstanding a' \<le> total_queued_reqs a + 1"
    using c PoolReply o
    by (auto simp: adm_iter_def outcome_Continue handle_dispatch_reply_def mark_function_blocked_def
        num_outstanding_def update_deadline_timer_def Let_def
        split: dispatch_response.splits option.splits if_splits)
  then show ?thesis using k o by (simp add: cap_ok_def num_outstanding_def)
qed (use c k total_expire_le [of en "en_now en" a]
     in \<open>auto simp: adm_iter_def cap_ok_def num_outstanding_def split: option.splits\<close>)

lemma adm_reach_cap: "adm_reach cfg P t a \<Longrightarrow> cap_ok cfg a"
proof (induction rule: adm_reach.induct)
  case (start t)
  show ?case by (simp add: cap_ok_def adm_new_def num_outstanding_def)
next
  case (step t a en ev a')
  have "cap_ok cfg (begin_iter a)" using cap_ok_mono [OF step.IH] by simp
  then show ?case using adm_iter_cap [OF begin_iter_inv [OF adm_reach_inv [OF step.hyps(1)]]] step by blast
qed

text \<open>Executing a list of iterations.\<close>

fun adm_exec ::
  "admission_config \<Rightarrow> (adm_env \<times> adm_event) list \<Rightarrow> instant \<times> adm \<Rightarrow> (instant \<times> adm) option" where
  "adm_exec cfg [] ta = Some ta"
| "adm_exec cfg ((en, ev) # xs) (t, a) =
     (if t \<le> en_now en \<and> adm_enabled en ev (begin_iter a)
      then (case adm_iter cfg en ev (begin_iter a) of
              (Continue, a') \<Rightarrow> adm_exec cfg xs (en_now en, a') | _ \<Rightarrow> None)
      else None)"

lemma adm_exec_reach:
  "adm_exec cfg xs (t, a) = Some (t', a') \<Longrightarrow> adm_reach cfg P t a \<Longrightarrow> \<forall>x \<in> set xs. P (fst x)
    \<Longrightarrow> adm_reach cfg P t' a'"
proof (induction xs arbitrary: t a)
  case Nil
  then show ?case by simp
next
  case (Cons x xs)
  obtain en ev where x: "x = (en, ev)" by (cases x)
  with Cons.prems obtain a1 where "adm_iter cfg en ev (begin_iter a) = (Continue, a1)"
    "adm_exec cfg xs (en_now en, a1) = Some (t', a')" "t \<le> en_now en" "adm_enabled en ev (begin_iter a)"
    by (auto split: if_splits adm_outcome.splits prod.splits)
  then show ?case using Cons x adm_reach.step by (metis fst_conv list.set_intros)
qed

end
