(* ===== verification/Admission_Props.thy ===== *)
theory Admission_Props
  imports Admission_Time
begin

text \<open>The properties of the admission controller, over the runs of its event loop.\<close>

section \<open>An example run\<close>

definition cfg_example :: admission_config where
  "cfg_example =
     \<lparr>max_concurrency = 2, global_max_queued_reqs = 1, default_max_queued_per_func = 4,
      default_max_queue_delay = 10, default_max_live_instances_per_func = 3, fallback_retry_period = 5\<rparr>"

definition env_example :: "instant \<Rightarrow> adm_env" where
  "env_example now =
     \<lparr>en_now = now, en_store = store_example, en_store' = store_example, en_resp_ok = (\<lambda>_. True),
      en_pool_ok = True, en_forward_ok = True\<rparr>"

definition req_example :: "string \<Rightarrow> request" where
  "req_example i = \<lparr>invocation_id = i, rq_function_id = ''f''\<rparr>"

definition run_example :: "(adm_env \<times> adm_event) list" where
  "run_example =
     [(env_example 1, NewRequest (req_example ''a'')), (env_example 2, SlotAcquired),
      (env_example 3, NewRequest (req_example ''b'')),
      (env_example 4, PoolReply (WouldBlock FunctionWorkerCap))]"

definition adm_example :: adm where
  "adm_example = snd (the (adm_exec cfg_example run_example (0, adm_new cfg_example 0)))"

lemma fn_max_delay_example:
  "get_registered_function fid store_example = Inr rf \<Longrightarrow> fn_max_delay cfg_example rf = 10"
  by (auto simp: get_registered_function_def store_get_def store_example_def fn_max_delay_def
      cfg_example_def fmd_new_def split: option.splits if_splits)

lemma steady_example: "steady cfg_example (\<lambda>_. 10) (env_example t)"
  by (simp add: steady_def env_example_def fn_max_delay_example)

lemma map_fst_SomeD: "map_option fst x = Some t \<Longrightarrow> x = Some (t, snd (the x))"
  by (cases x) auto

lemma adm_example_reach: "adm_reach cfg_example (steady cfg_example (\<lambda>_. 10)) 4 adm_example"
proof (rule adm_exec_reach [OF _ adm_reach.start])
  have "map_option fst (adm_exec cfg_example run_example (0, adm_new cfg_example 0)) = Some 4"
    by code_simp
  then show "adm_exec cfg_example run_example (0, adm_new cfg_example 0) = Some (4, adm_example)"
    unfolding adm_example_def by (rule map_fst_SomeD)
  show "\<forall>x \<in> set run_example. steady cfg_example (\<lambda>_. 10) (fst x)"
    by (simp add: run_example_def steady_example)
qed

section \<open>Accounting\<close>

text \<open>
  C8: exact accounting. In every reachable state the number of queued requests is the cached total,
  the number of blocked functions is the cached count (so neither counter ever underflows), no empty
  queue is blocked, and no request is lost: what was received was dispatched, failed, is queued or is
  the one in flight (modulo the wrap-around of the 64-bit statistics).
\<close>

theorem adm_accounting:
  assumes "adm_reach cfg P t a"
  shows "total_queued_reqs a = sum_list (map (\<lambda>(_, fq). int (length (fq_queue fq))) (queues a))
    \<and> blocked_function_count a = int (length (filter (\<lambda>(_, fq). is_blocked fq) (queues a)))
    \<and> (\<forall>fid fq. (fid, fq) \<in> set (queues a) \<longrightarrow> is_blocked fq \<longrightarrow> fq_queue fq \<noteq> [])
    \<and> num_received (stats a) = num_dispatched (stats a) + num_failed (stats a)
        + of_int (total_queued_reqs a) + (if outstanding a = None then 0 else 1)"
proof -
  note D = adm_invD [OF adm_reach_inv [OF assms, unfolded adm_inv_def]]
  show ?thesis
    using D(2,3,8) D(4) by (auto simp: queued_def num_blocked_filter fq_ok_def num_outstanding_def)
qed

theorem adm_accounting_witness:
  "num_received (stats adm_example) = num_dispatched (stats adm_example) + num_failed (stats adm_example)
     + of_int (total_queued_reqs adm_example) + (if outstanding adm_example = None then 0 else 1)
   \<and> total_queued_reqs adm_example = 2 \<and> blocked_function_count adm_example = 1"
proof -
  have "total_queued_reqs adm_example = 2" "blocked_function_count adm_example = 1" by code_simp+
  then show ?thesis using adm_accounting [OF adm_example_reach] by blast
qed



text \<open>
  The race on the store. When a function is deregistered after \<^verbatim>\<open>function_exists\<close> has answered
  and before \<^verbatim>\<open>registered_function\<close> is called, the admission task panics, already in its initial
  state.
\<close>

theorem adm_deregister_race:
  "fst (adm_iter cfg_example ((env_example 0)\<lparr>en_store' := []\<rparr>) (NewRequest (req_example ''a''))
     (begin_iter (adm_new cfg_example 0))) = Crash ''function should already exist''"
  by code_simp

section \<open>Order and deadlines\<close>

text \<open>
  C30: oldest runnable head first. When a slot is acquired and expired requests have been swept, the
  controller asks the pool for exactly one request: the head of a runnable queue that arrived no later
  than the head of any other runnable queue. The request leaves its queue and becomes the one in
  flight; when nothing is runnable, nothing is asked.
\<close>

theorem adm_oldest_head_first:
  fixes a en
  defines "b \<equiv> (if deadline_passed en (begin_iter a)
    then expire_queued_requests en (en_now en) (begin_iter a) else begin_iter a)"
  assumes "adm_reach cfg P t a" and "adm_enabled en SlotAcquired (begin_iter a)"
    and "adm_iter cfg en SlotAcquired (begin_iter a) = (Continue, a')"
  shows "(\<not> has_runnable_functions b \<and> to_pool a' = to_pool a \<and> outstanding a' = None)
    \<or> (\<exists>fid e es. qof b fid = e # es \<and> outstanding a' = Some e \<and> env_function_id e = fid
        \<and> qof a' = (qof b)(fid := es) \<and> to_pool a' = to_pool a @ [(fid, ReuseIdleOrProvision)]
        \<and> (\<forall>g gq. (g, gq) \<in> set (queues b) \<longrightarrow> is_runnable gq \<longrightarrow> enqueued_at e \<le> enqueued_at (hd (fq_queue gq))))"
proof -
  have i: "adm_inv (begin_iter a)" by (rule begin_iter_inv [OF adm_reach_inv [OF assms(2)]])
  define c where "c = (begin_iter a)\<lparr>waiting_for_slot := False\<rparr>"
  define d where "d = (if deadline_passed en c then expire_queued_requests en (en_now en) c else c)"
  have o: "outstanding (begin_iter a) = None"
    using adm_invD(6) [OF i [unfolded adm_inv_def]] assms(3) by (simp add: adm_enabled_def)
  have frame: "queues d = queues b" "to_pool d = to_pool a" "outstanding d = None"
    using o by (simp_all add: d_def c_def b_def deadline_passed_def)
  have q: "qof d = qof b" using frame(1) by (simp add: qof_def fun_eq_iff)
  have run: "has_runnable_functions d = has_runnable_functions b"
    using frame(1) by (simp add: has_runnable_functions_def)
  have h: "handle_acquired_slot en c = (Inr (), a')"
    using assms(4) by (simp add: adm_iter_def outcome_Continue c_def)
  have "outstanding c = None" using o by (simp add: c_def)
  from handle_acquired_slot_cases [OF _ this h] waiting_off_inv [OF i]
  have "(\<not> has_runnable_functions d \<and> a' = d)
    \<or> (\<exists>fid fq e es. map_of (queues d) fid = Some fq \<and> fq_state fq = Runnable \<and> fq_queue fq = e # es
        \<and> env_function_id e = fid
        \<and> (\<forall>(g, gq) \<in> set (queues d). is_runnable gq \<longrightarrow> enqueued_at e \<le> enqueued_at (hd (fq_queue gq)))
        \<and> a' = d\<lparr>queues := AList.update fid (fq\<lparr>fq_queue := es\<rparr>) (queues d),
            total_queued_reqs := total_queued_reqs d - 1,
            to_pool := to_pool d @ [(fid, ReuseIdleOrProvision)], outstanding := Some e\<rparr>)"
    unfolding d_def by (simp add: c_def)
  then show ?thesis
  proof (elim disjE exE conjE)
    fix fid fq e es
    assume m: "map_of (queues d) fid = Some fq" "fq_queue fq = e # es" "env_function_id e = fid"
      "\<forall>(g, gq) \<in> set (queues d). is_runnable gq \<longrightarrow> enqueued_at e \<le> enqueued_at (hd (fq_queue gq))"
      and a': "a' = d\<lparr>queues := AList.update fid (fq\<lparr>fq_queue := es\<rparr>) (queues d),
            total_queued_reqs := total_queued_reqs d - 1,
            to_pool := to_pool d @ [(fid, ReuseIdleOrProvision)], outstanding := Some e\<rparr>"
    have "qof a' = (qof d)(fid := es)" using qof_update [of a' fid "fq\<lparr>fq_queue := es\<rparr>" d] a' by simp
    moreover have "qof d fid = e # es" using m by (simp add: qof_def)
    ultimately show ?thesis using m a' frame q by auto
  qed (use frame run in simp)
qed

definition adm_example' :: adm where
  "adm_example' = snd (the (adm_exec cfg_example [(env_example 9, LivenessTick)] (4, adm_example)))"

lemma adm_example'_reach: "adm_reach cfg_example (steady cfg_example (\<lambda>_. 10)) 9 adm_example'"
proof (rule adm_exec_reach [OF _ adm_example_reach])
  have "map_option fst (adm_exec cfg_example [(env_example 9, LivenessTick)] (4, adm_example)) = Some 9"
    by code_simp
  then show "adm_exec cfg_example [(env_example 9, LivenessTick)] (4, adm_example) = Some (9, adm_example')"
    unfolding adm_example'_def by (rule map_fst_SomeD)
  show "\<forall>x \<in> set [(env_example 9, LivenessTick)]. steady cfg_example (\<lambda>_. 10) (fst x)"
    by (simp add: steady_example)
qed

theorem adm_oldest_head_first_witness:
  "\<exists>a'. adm_iter cfg_example (env_example 10) SlotAcquired (begin_iter adm_example') = (Continue, a')
    \<and> to_pool a' = to_pool adm_example' @ [(''f'', ReuseIdleOrProvision)]"
proof -
  let ?r = "adm_iter cfg_example (env_example 10) SlotAcquired (begin_iter adm_example')"
  have en: "adm_enabled (env_example 10) SlotAcquired (begin_iter adm_example')" by code_simp
  have c: "fst ?r = Continue" by code_simp
  then have r: "?r = (Continue, snd ?r)" by (metis prod.collapse)
  have "outstanding (snd ?r) \<noteq> None" "map_option env_function_id (outstanding (snd ?r)) = Some ''f''"
    by code_simp+
  then show ?thesis using adm_oldest_head_first [OF adm_example'_reach en r] r by auto
qed



text \<open>
  Expiry. Under the same assumption, the cached deadline never lies after the deadline of a queued
  request, so the timer cannot be late; and when it fires, exactly the requests whose deadline has
  passed leave the queues, the others stay in order, and each expired one is counted as failed.
\<close>

theorem adm_expiry:
  fixes a en
  defines "a' \<equiv> expire_queued_requests en (en_now en) (begin_iter a)"
  assumes "adm_reach cfg P t a" and "\<forall>en. P en \<longrightarrow> steady cfg D en"
  shows "(\<forall>fid e. e \<in> set (qof a fid) \<longrightarrow> (\<exists>d. deadline_timer a = Some d \<and> d \<le> deadline e))
    \<and> (\<forall>fid. qof a' fid = filter (\<lambda>e. \<not> deadline e \<le> en_now en) (qof a fid))
    \<and> num_failed (stats a') = num_failed (stats a) + of_int (total_queued_reqs a - total_queued_reqs a')"
proof -
  have t: "time_inv D t a" by (rule adm_reach_time [OF assms(2,3)])
  have d: "deadline_timer a = next_deadline a"
    by (rule adm_invD(5) [OF adm_reach_inv [OF assms(2), unfolded adm_inv_def]])
  have "qof a' fid = filter (\<lambda>e. \<not> deadline e \<le> en_now en) (qof a fid)" for fid
  proof -
    have *: "sorted (map enqueued_at (qof a fid))"
      "\<And>e. e \<in> set (qof a fid) \<Longrightarrow> deadline e = enqueued_at e + D fid"
      using t by (auto simp: time_inv_def fq_time_def sorted_append)
    have "map deadline (qof a fid) = map (\<lambda>e. enqueued_at e + D fid) (qof a fid)" using *(2) by simp
    moreover have "sorted (map (\<lambda>e. enqueued_at e + D fid) (qof a fid))"
      using *(1) by (simp add: sorted_map)
    ultimately have "sorted (map deadline (qof a fid))" by (simp only:)
    then have "dropWhile (\<lambda>e. deadline e \<le> en_now en) (qof a fid) =
        filter (\<lambda>e. \<not> deadline e \<le> en_now en) (qof a fid)"
      by (rule dropWhile_filter_sorted)
    then show ?thesis by (simp add: a'_def)
  qed
  moreover have "\<exists>x. deadline_timer a = Some x \<and> x \<le> deadline e" if "e \<in> set (qof a fid)" for e fid
    using t that d by (cases "next_deadline a") (auto simp: time_inv_def fq_time_def)
  moreover have "num_failed (stats a') = num_failed (stats a) + of_int (total_queued_reqs a - total_queued_reqs a')"
    by (simp add: a'_def expire_queued_requests_def split: prod.split)
  ultimately show ?thesis by blast
qed

theorem adm_expiry_witness:
  "qof (expire_queued_requests (env_example 12) 12 (begin_iter adm_example)) ''f'' =
     filter (\<lambda>e. \<not> deadline e \<le> 12) (qof adm_example ''f'')
   \<and> length (qof (expire_queued_requests (env_example 12) 12 (begin_iter adm_example)) ''f'') = 1"
proof -
  have "length (qof (expire_queued_requests (env_example 12) 12 (begin_iter adm_example)) ''f'') = 1"
    by code_simp
  moreover have "en_now (env_example 12) = 12" by (simp add: env_example_def)
  ultimately show ?thesis
    using adm_expiry [OF adm_example_reach, of "\<lambda>_. 10" "env_example 12"] by simp
qed

text \<open>
  The sweep relies on the order of deadlines. When a function is deregistered and registered
  again with a shorter queue delay while a request of it is queued, deadlines no longer increase along
  the queue, and the sweep leaves an expired request behind the unexpired head.
\<close>

definition env_shorter :: "instant \<Rightarrow> adm_env" where
  "env_shorter now = (env_example now)\<lparr>en_store' :=
     [(''f'', fmd_new \<lparr>rf_info = \<lparr>fi_id = ''f'', fi_memory = 128\<rparr>, rf_admission = Some
        \<lparr>ao_max_queued = None, ao_max_queue_delay = Some 1, ao_max_live_instances = None\<rparr>\<rparr>)]\<rparr>"

theorem adm_stale_expiry:
  "\<exists>t a. adm_reach (cfg_example\<lparr>global_max_queued_reqs := 9\<rparr>) (\<lambda>_. True) t a
    \<and> map deadline (qof a ''f'') = [11, 3]
    \<and> map deadline (qof (expire_queued_requests (env_example 5) 5 (begin_iter a)) ''f'') = [11, 3]"
proof -
  let ?cfg = "cfg_example\<lparr>global_max_queued_reqs := 9\<rparr>"
  let ?run = "adm_exec ?cfg [(env_example 1, NewRequest (req_example ''a'')),
      (env_shorter 2, NewRequest (req_example ''b''))] (0, adm_new ?cfg 0)"
  have "map_option fst ?run = Some 2" by code_simp
  then have "?run = Some (2, snd (the ?run))" by (rule map_fst_SomeD)
  then have "adm_reach ?cfg (\<lambda>_. True) 2 (snd (the ?run))"
    by (rule adm_exec_reach [OF _ adm_reach.start]) simp
  moreover have "map deadline (qof (snd (the ?run)) ''f'') = [11, 3]" by code_simp
  moreover have "map deadline (qof (expire_queued_requests (env_example 5) 5
      (begin_iter (snd (the ?run)))) ''f'') = [11, 3]" by code_simp
  ultimately show ?thesis by (intro exI conjI)
qed

section \<open>Capacity and progress\<close>

text \<open>
  C34: the global bound. The queued requests and the one in flight never exceed the configured maximum
  by more than one.
\<close>

theorem adm_capacity:
  assumes "adm_reach cfg P t a"
  shows "0 \<le> total_queued_reqs a \<and> total_queued_reqs a + (if outstanding a = None then 0 else 1)
    \<le> int (global_max_queued_reqs cfg) + 1"
  using adm_reach_cap [OF assms] adm_invD(2) [OF adm_reach_inv [OF assms, unfolded adm_inv_def]]
    queued_nonneg [of "queues a"]
  by (simp add: cap_ok_def num_outstanding_def)

text \<open>The bound is tight: a request that the pool sends back is queued above the maximum.\<close>

theorem adm_capacity_witness:
  "total_queued_reqs adm_example \<le> int (global_max_queued_reqs cfg_example) + 1
    \<and> total_queued_reqs adm_example = 2 \<and> global_max_queued_reqs cfg_example = 1"
proof -
  have "total_queued_reqs adm_example = 2" "outstanding adm_example = None" by code_simp+
  then show ?thesis using adm_capacity [OF adm_example_reach] by (simp add: cfg_example_def)
qed



end
