(* ===== verification/Keepalive.thy ===== *)
theory Keepalive
  imports Fmd_Store "HOL-Library.Multiset"
begin

text \<open>
  \<^verbatim>\<open>sbpool/keepalive\<close>: the policies that say how long a parked worker is kept and which idle workers
  are given up when memory is short.

  Three things come from outside the repository and are parameters: the arithmetic of the
  \<^verbatim>\<open>ubyte\<close> crate (\<open>bu_ops\<close>, saturating at the bounds of \<^verbatim>\<open>u64\<close>), the order in which an unstable
  sort leaves equal elements (\<open>srt\<close>), and the random generator (\<open>choose\<close>). What an eviction
  policy promises to the pool is the locale \<open>eviction_policy\<close>, and for policies that do reclaim,
  \<open>reclaiming_policy\<close>.
\<close>

section \<open>Byte units\<close>

record bu_ops =
  bu_add :: "nat \<Rightarrow> nat \<Rightarrow> nat"
  bu_sub :: "nat \<Rightarrow> nat \<Rightarrow> nat"

abbreviation bu_max :: nat where
  "bu_max \<equiv> 2 ^ 64 - 1"

definition bu_spec :: "bu_ops \<Rightarrow> bool" where
  "bu_spec bu \<longleftrightarrow> (\<forall>a b. bu_add bu a b = min (a + b) bu_max) \<and> (\<forall>a b. bu_sub bu a b = a - b)"

definition saturating :: bu_ops where
  "saturating = \<lparr>bu_add = (\<lambda>a b. min (a + b) bu_max), bu_sub = (\<lambda>a b. a - b)\<rparr>"

lemma bu_spec_saturating: "bu_spec saturating"
  by (simp add: bu_spec_def saturating_def)

lemma bu_spec_simps [simp]:
  "bu_spec bu \<Longrightarrow> bu_add bu a b = min (a + b) bu_max"
  "bu_spec bu \<Longrightarrow> bu_sub bu a b = a - b"
  by (simp_all add: bu_spec_def)

section \<open>Keep-alive durations\<close>

record fixed_policy =
  fx_ttl :: "duration option"

definition fixed_assign :: "fixed_policy \<Rightarrow> function_id \<Rightarrow> duration option" where
  "fixed_assign pol fid = fx_ttl pol"

record sd_static_policy =
  warm_functions :: "function_id list"
  warm_duration :: "duration option"
  non_warm_duration :: "duration option"

text \<open>One day, in nanoseconds.\<close>

definition forever :: duration where
  "forever = 86400 * 1000000000"

definition sd_static_assign :: "sd_static_policy \<Rightarrow> function_id \<Rightarrow> duration option" where
  "sd_static_assign pol fid =
     (case (if fid \<in> set (warm_functions pol)
            then Some (case warm_duration pol of None \<Rightarrow> forever | Some d \<Rightarrow> d) else None) of
        Some d \<Rightarrow> Some d
      | None \<Rightarrow> non_warm_duration pol)"

section \<open>Eviction\<close>

type_synonym deadlines = "worker_id \<rightharpoonup> instant"
type_synonym victims = "(function_id \<times> worker_id) list"
type_synonym evictor = "fmd_store \<Rightarrow> deadlines \<Rightarrow> nat \<Rightarrow> unit fault + victims"

text \<open>The idle workers a policy may choose from; \<open>excl\<close> is empty for the plain \<^verbatim>\<open>evict\<close>.\<close>

definition idle_candidates :: "function_id list \<Rightarrow> fmd_store \<Rightarrow> victims" where
  "idle_candidates excl s = filter (\<lambda>(fid, _). fid \<notin> set excl) (iter_idle s)"

definition noop_evict :: evictor where
  "noop_evict s dl m = Inr []"

text \<open>\<^verbatim>\<open>take_while_inclusive\<close> with the amount still to be reclaimed as the captured variable.\<close>

fun lru_take :: "bu_ops \<Rightarrow> fmd_store \<Rightarrow> nat \<Rightarrow> victims \<Rightarrow> unit fault + victims" where
  "lru_take bu s m [] = Inr []"
| "lru_take bu s m ((fid, w) # cs) =
     (case function_memory fid s of
        Inl _ \<Rightarrow> Inl (Panic ''function should already exist'')
      | Inr k \<Rightarrow>
          (let m' = bu_sub bu m k in
           if m' > 0 then map_sum id (Cons (fid, w)) (lru_take bu s m' cs) else Inr [(fid, w)]))"

type_synonym sorter = "(function_id \<times> worker_id \<Rightarrow> instant) \<Rightarrow> victims \<Rightarrow> victims"

text \<open>The comparison panics on a worker without a deadline; it is not called on a single element.\<close>

definition lru_evict :: "sorter \<Rightarrow> bu_ops \<Rightarrow> function_id list \<Rightarrow> evictor" where
  "lru_evict srt bu excl s dl m =
     (let cs = idle_candidates excl s in
      if length cs > 1 \<and> list_ex (\<lambda>(_, w). dl w = None) cs
      then Inl (Panic ''all Idle Workers should have an associated deadline'')
      else lru_take bu s m (srt (\<lambda>(_, w). the (dl w)) cs))"

type_synonym 'g chooser = "'g \<Rightarrow> victims \<Rightarrow> (function_id \<times> worker_id) option \<times> 'g"

fun random_loop ::
  "'g chooser \<Rightarrow> bu_ops \<Rightarrow> fmd_store \<Rightarrow> nat \<Rightarrow> 'g \<Rightarrow> nat \<Rightarrow> victims \<Rightarrow> ((unit fault + victims) \<times> 'g) option"
where
  "random_loop ch bu s n g m cs =
     (if m > 0 \<and> cs \<noteq> [] then
        (case n of 0 \<Rightarrow> None
         | Suc n' \<Rightarrow>
             (case ch g cs of
                (None, g') \<Rightarrow> Some (Inl (Panic ''Idle Workers do exist''), g')
              | (Some c, g') \<Rightarrow>
                  (case function_memory (fst c) s of
                     Inl _ \<Rightarrow> Some (Inl (Panic ''function should already exist''), g')
                   | Inr k \<Rightarrow>
                       map_option (map_prod (map_sum id (Cons c)) id)
                         (random_loop ch bu s n' g' (bu_sub bu m k) (filter (\<lambda>x. x \<noteq> c) cs)))))
      else Some (Inr [], g))"

declare random_loop.simps [simp del]

text \<open>Every pass of the loop drops a candidate, so that their number is enough fuel.\<close>

definition random_evict ::
  "'g chooser \<Rightarrow> bu_ops \<Rightarrow> function_id list \<Rightarrow> 'g \<Rightarrow> fmd_store \<Rightarrow> nat
    \<Rightarrow> ((unit fault + victims) \<times> 'g) option" where
  "random_evict ch bu excl g s m =
     (let cs = idle_candidates excl s in random_loop ch bu s (length cs) g m cs)"

definition random_policy :: "'g chooser \<Rightarrow> bu_ops \<Rightarrow> function_id list \<Rightarrow> 'g \<Rightarrow> evictor" where
  "random_policy ch bu excl g s dl m =
     (case random_evict ch bu excl g s m of None \<Rightarrow> Inl (Panic ''loops'') | Some (r, _) \<Rightarrow> r)"

text \<open>\<^verbatim>\<open>PolicyExcept::evict_except\<close>: no exclusion list means the plain \<^verbatim>\<open>evict\<close>.\<close>

definition evict_except :: "(function_id list \<Rightarrow> evictor) \<Rightarrow> function_id list option \<Rightarrow> evictor" where
  "evict_except ev excluded = (case excluded of Some xs \<Rightarrow> ev xs | None \<Rightarrow> ev [])"

section \<open>The contract with the pool\<close>

definition idle_deadlines :: "fmd_store \<Rightarrow> deadlines \<Rightarrow> bool" where
  "idle_deadlines s dl \<longleftrightarrow> (\<forall>w fid. located s w Idle fid \<longrightarrow> dl w \<noteq> None)"

definition fmem :: "fmd_store \<Rightarrow> function_id \<Rightarrow> nat" where
  "fmem s fid = (case map_of s fid of None \<Rightarrow> 0 | Some m \<Rightarrow> fi_memory (rf_info (fmd_function m)))"

definition victims_mem :: "fmd_store \<Rightarrow> victims \<Rightarrow> nat" where
  "victims_mem s vs = sum_list (map (\<lambda>(fid, _). fmem s fid) vs)"

lemma function_memory_fmem:
  "map_of s fid \<noteq> None \<Longrightarrow> function_memory fid s = Inr (fmem s fid)"
  by (auto simp: function_memory_def store_get_def fmem_def)

lemma idle_candidates_located:
  "store_inv s \<Longrightarrow> (fid, w) \<in> set (idle_candidates excl s) \<longleftrightarrow> located s w Idle fid \<and> fid \<notin> set excl"
  using set_iter_workers [of s Idle] by (auto simp: idle_candidates_def iter_idle_def where_is_iff)

lemma distinct_idle_candidates: "store_inv s \<Longrightarrow> distinct (idle_candidates excl s)"
  using distinct_iter_workers [of s Idle] by (simp add: idle_candidates_def iter_idle_def distinct_map)

locale eviction_policy =
  fixes evict :: evictor
  assumes evict_victims: "store_inv s \<Longrightarrow> idle_deadlines s dl \<Longrightarrow>
    \<exists>vs. evict s dl m = Inr vs \<and> distinct vs \<and> (\<forall>fid w. (fid, w) \<in> set vs \<longrightarrow> located s w Idle fid)"
begin

lemma evict_no_panic:
  "store_inv s \<Longrightarrow> idle_deadlines s dl \<Longrightarrow> \<not> is_panic (evict s dl m)"
  using evict_victims [of s dl m] by (auto simp: is_panic_def)

lemma evict_tracked:
  "store_inv s \<Longrightarrow> idle_deadlines s dl \<Longrightarrow> evict s dl m = Inr vs
    \<Longrightarrow> (fid, w) \<in> set vs \<Longrightarrow> where_is s w = Some (Idle, fid)"
  using evict_victims [of s dl m] by (auto simp: where_is_iff)

end

locale reclaiming_policy = eviction_policy +
  fixes eligible :: "fmd_store \<Rightarrow> victims"
  assumes evict_enough: "store_inv s \<Longrightarrow> idle_deadlines s dl \<Longrightarrow> evict s dl m = Inr vs
    \<Longrightarrow> m \<le> victims_mem s vs \<or> set (eligible s) \<subseteq> set vs"
    and eligible_distinct: "store_inv s \<Longrightarrow> distinct (eligible s)"
begin

lemma victims_mem_mono:
  assumes "distinct us" "distinct vs" "set us \<subseteq> set vs"
  shows "victims_mem s us \<le> victims_mem s vs"
proof -
  have "victims_mem s us = (\<Sum>x \<in> set us. fmem s (fst x))"
    and "victims_mem s vs = (\<Sum>x \<in> set vs. fmem s (fst x))"
    using assms by (simp_all add: victims_mem_def sum_list_distinct_conv_sum_set split_beta)
  then show ?thesis using assms(3) by (simp add: sum_mono2)
qed

lemma evict_reclaims:
  assumes "store_inv s" "idle_deadlines s dl"
  shows "\<exists>vs. evict s dl m = Inr vs \<and> min m (victims_mem s (eligible s)) \<le> victims_mem s vs"
proof -
  obtain vs where v: "evict s dl m = Inr vs" "distinct vs"
    using evict_victims [OF assms, of m] by blast
  then show ?thesis
    using evict_enough [OF assms v(1)] victims_mem_mono [OF eligible_distinct [OF assms(1)] v(2)]
    by (metis min_le_iff_disj order_refl)
qed

end

interpretation noop: eviction_policy noop_evict
  by unfold_locales (simp add: noop_evict_def)

section \<open>Least recently used\<close>

definition unstable_sort :: "sorter \<Rightarrow> bool" where
  "unstable_sort srt \<longleftrightarrow> (\<forall>f xs. mset (srt f xs) = mset xs \<and> sorted (map f (srt f xs)))"

lemma lru_take_prefix:
  assumes "bu_spec bu" and "\<forall>x \<in> set cs. map_of s (fst x) \<noteq> None"
  shows "\<exists>vs rest. lru_take bu s m cs = Inr vs \<and> cs = vs @ rest
    \<and> (m \<le> victims_mem s vs \<or> rest = []) \<and> (cs \<noteq> [] \<longrightarrow> vs \<noteq> [])
    \<and> (vs \<noteq> [] \<longrightarrow> butlast vs \<noteq> [] \<longrightarrow> victims_mem s (butlast vs) < m)"
  using assms(2)
proof (induction cs arbitrary: m)
  case Nil
  then show ?case by (simp add: victims_mem_def)
next
  case (Cons c cs)
  obtain fid w where c: "c = (fid, w)" by (cases c)
  have k: "function_memory fid s = Inr (fmem s fid)"
    using Cons.prems c by (intro function_memory_fmem) auto
  show ?case
  proof (cases "m - fmem s fid > 0")
    case True
    obtain vs rest where ih: "lru_take bu s (m - fmem s fid) cs = Inr vs" "cs = vs @ rest"
      "m - fmem s fid \<le> victims_mem s vs \<or> rest = []"
      "butlast vs \<noteq> [] \<longrightarrow> victims_mem s (butlast vs) < m - fmem s fid"
      using Cons.IH [of "m - fmem s fid"] Cons.prems by auto
    have "lru_take bu s m (c # cs) = Inr (c # vs)"
      using True k ih(1) assms(1) by (simp add: c)
    moreover have "m \<le> victims_mem s (c # vs) \<or> rest = []"
      using ih(3) c by (auto simp: victims_mem_def)
    moreover have "butlast (c # vs) \<noteq> [] \<longrightarrow> victims_mem s (butlast (c # vs)) < m"
      using ih(4) True c by (cases "butlast vs = []") (auto simp: victims_mem_def)
    ultimately show ?thesis using ih(2) by (intro exI [of _ "c # vs"] exI [of _ rest]) simp
  next
    case False
    then have "lru_take bu s m (c # cs) = Inr [c]" using k assms(1) by (simp add: c)
    then show ?thesis
      using False by (intro exI [of _ "[c]"] exI [of _ cs]) (simp add: c victims_mem_def)
  qed
qed

locale lru_context =
  fixes srt :: sorter and bu :: bu_ops and excl :: "function_id list"
  assumes srt: "unstable_sort srt" and bu: "bu_spec bu"
begin

lemma srt_perm: "set (srt f xs) = set xs" "distinct (srt f xs) \<longleftrightarrow> distinct xs"
proof -
  have "mset (srt f xs) = mset xs" using srt by (simp add: unstable_sort_def)
  then show "set (srt f xs) = set xs" "distinct (srt f xs) \<longleftrightarrow> distinct xs"
    by (auto dest: mset_eq_setD mset_eq_imp_distinct_iff)
qed

lemma lru_evict_prefix:
  assumes "store_inv s" "idle_deadlines s dl"
  shows "\<exists>vs rest. lru_evict srt bu excl s dl m = Inr vs
    \<and> srt (\<lambda>(_, w). the (dl w)) (idle_candidates excl s) = vs @ rest
    \<and> (m \<le> victims_mem s vs \<or> rest = []) \<and> (idle_candidates excl s \<noteq> [] \<longrightarrow> vs \<noteq> [])
    \<and> (vs \<noteq> [] \<longrightarrow> butlast vs \<noteq> [] \<longrightarrow> victims_mem s (butlast vs) < m)"
proof -
  let ?cs = "idle_candidates excl s"
  let ?ss = "srt (\<lambda>(_, w). the (dl w)) ?cs"
  have l: "located s w Idle fid" if "(fid, w) \<in> set ?cs" for fid w
    using that idle_candidates_located [OF assms(1)] by blast
  then have "\<not> list_ex (\<lambda>(_, w). dl w = None) ?cs"
    using assms(2) unfolding list_ex_iff idle_deadlines_def by blast
  then have e: "lru_evict srt bu excl s dl m = lru_take bu s m ?ss" by (simp add: lru_evict_def)
  have r: "\<forall>x \<in> set ?ss. map_of s (fst x) \<noteq> None"
    using l unfolding srt_perm(1) located_def by fastforce
  have n: "?ss \<noteq> [] \<longleftrightarrow> ?cs \<noteq> []" using srt_perm(1) [of _ ?cs] by (metis set_empty)
  show ?thesis using lru_take_prefix [OF bu r, of m] unfolding e n by blast
qed

end

sublocale lru_context \<subseteq> lru: reclaiming_policy "lru_evict srt bu excl" "idle_candidates excl"
proof
  fix s dl m
  assume a: "store_inv s" "idle_deadlines s dl"
  obtain vs rest where v: "lru_evict srt bu excl s dl m = Inr vs"
    "srt (\<lambda>(_, w). the (dl w)) (idle_candidates excl s) = vs @ rest"
    using lru_evict_prefix [OF a] by blast
  have "set (vs @ rest) = set (idle_candidates excl s)" "distinct (vs @ rest)"
    using srt_perm distinct_idle_candidates [OF a(1)] unfolding v(2) [symmetric] by auto
  then show "\<exists>vs. lru_evict srt bu excl s dl m = Inr vs \<and> distinct vs
      \<and> (\<forall>fid w. (fid, w) \<in> set vs \<longrightarrow> located s w Idle fid)"
    using v(1) idle_candidates_located [OF a(1)] by auto
next
  fix s dl m vs
  assume a: "store_inv s" "idle_deadlines s dl" and v: "lru_evict srt bu excl s dl m = Inr vs"
  obtain rest where r: "srt (\<lambda>(_, w). the (dl w)) (idle_candidates excl s) = vs @ rest"
    "m \<le> victims_mem s vs \<or> rest = []"
    using lru_evict_prefix [OF a, of m] v by auto
  then show "m \<le> victims_mem s vs \<or> set (idle_candidates excl s) \<subseteq> set vs"
    using srt_perm(1) [of "\<lambda>(_, w). the (dl w)" "idle_candidates excl s"] by auto
qed (rule distinct_idle_candidates)

lemma unstable_sort_sort_key: "unstable_sort (\<lambda>f xs. sort_key f xs)"
  by (simp add: unstable_sort_def)

interpretation lru_std: lru_context "\<lambda>f xs. sort_key f xs" saturating "[]"
  by unfold_locales (rule unstable_sort_sort_key, rule bu_spec_saturating)

section \<open>Random\<close>

definition chooses_member :: "'g chooser \<Rightarrow> bool" where
  "chooses_member ch \<longleftrightarrow> (\<forall>g cs. cs \<noteq> [] \<longrightarrow> (\<exists>c g'. ch g cs = (Some c, g') \<and> c \<in> set cs))"

lemma random_loop_ok:
  assumes "bu_spec bu" and "chooses_member ch"
    and "\<forall>x \<in> set cs. map_of s (fst x) \<noteq> None" and "distinct cs" and "length cs \<le> n"
  shows "\<exists>vs g'. random_loop ch bu s n g m cs = Some (Inr vs, g') \<and> distinct vs \<and> set vs \<subseteq> set cs
    \<and> (m \<le> victims_mem s vs \<or> set vs = set cs)"
  using assms(3-)
proof (induction n arbitrary: g m cs)
  case 0
  then show ?case by (simp add: random_loop.simps victims_mem_def)
next
  case (Suc n)
  show ?case
  proof (cases "m > 0 \<and> cs \<noteq> []")
    case False
    then show ?thesis by (auto simp: random_loop.simps [of _ _ _ "Suc n"] victims_mem_def)
  next
    case True
    obtain c g' where c: "ch g cs = (Some c, g')" "c \<in> set cs"
      using assms(2) True unfolding chooses_member_def by blast
    let ?cs = "filter (\<lambda>x. x \<noteq> c) cs"
    have k: "function_memory (fst c) s = Inr (fmem s (fst c))"
      using c(2) Suc.prems(1) by (intro function_memory_fmem) auto
    have "length ?cs < length cs" using c(2) by (rule length_filter_less) simp
    then obtain vs g'' where ih:
      "random_loop ch bu s n g' (m - fmem s (fst c)) ?cs = Some (Inr vs, g'')"
      "distinct vs" "set vs \<subseteq> set ?cs" "m - fmem s (fst c) \<le> victims_mem s vs \<or> set vs = set ?cs"
      using Suc.IH [where cs = ?cs and m = "m - fmem s (fst c)" and g = g'] Suc.prems by auto
    have "random_loop ch bu s (Suc n) g m cs = Some (Inr (c # vs), g'')"
      using True c k ih(1) assms(1) by (simp add: random_loop.simps [of _ _ _ "Suc n"])
    moreover have "distinct (c # vs)" "set (c # vs) \<subseteq> set cs" using ih(2,3) c(2) by auto
    moreover have "m \<le> victims_mem s (c # vs) \<or> set (c # vs) = set cs"
      using ih(3,4) c(2) by (cases c) (auto simp: victims_mem_def)
    ultimately show ?thesis by blast
  qed
qed

locale random_context =
  fixes ch :: "'g chooser" and bu :: bu_ops and excl :: "function_id list" and g :: 'g
  assumes ch: "chooses_member ch" and bu: "bu_spec bu"
begin

lemma random_policy_ok:
  assumes "store_inv s"
  shows "\<exists>vs. random_policy ch bu excl g s dl m = Inr vs \<and> distinct vs
    \<and> set vs \<subseteq> set (idle_candidates excl s)
    \<and> (m \<le> victims_mem s vs \<or> set vs = set (idle_candidates excl s))"
proof -
  have "\<forall>x \<in> set (idle_candidates excl s). map_of s (fst x) \<noteq> None"
    using idle_candidates_located [OF assms] unfolding located_def by fastforce
  from random_loop_ok [OF bu ch this distinct_idle_candidates [OF assms] order_refl, of g m]
  show ?thesis by (auto simp: random_policy_def random_evict_def)
qed

end

sublocale random_context \<subseteq> rnd: reclaiming_policy "random_policy ch bu excl g" "idle_candidates excl"
proof
  fix s dl m
  assume "store_inv s" "idle_deadlines s dl"
  then show "\<exists>vs. random_policy ch bu excl g s dl m = Inr vs \<and> distinct vs
      \<and> (\<forall>fid w. (fid, w) \<in> set vs \<longrightarrow> located s w Idle fid)"
    using random_policy_ok [of s dl m] idle_candidates_located by blast
next
  fix s dl m vs
  assume a: "store_inv s" "random_policy ch bu excl g s dl m = Inr vs"
  show "m \<le> victims_mem s vs \<or> set (idle_candidates excl s) \<subseteq> set vs"
    using random_policy_ok [OF a(1), of dl m] a(2) by auto
qed (rule distinct_idle_candidates)

definition round_robin :: "nat chooser" where
  "round_robin g cs = (case cs of [] \<Rightarrow> None | _ \<Rightarrow> Some (cs ! (g mod length cs)), Suc g)"

lemma chooses_member_round_robin: "chooses_member round_robin"
  unfolding chooses_member_def round_robin_def by (metis length_greater_0_conv list.case_eq_if mod_less_divisor nth_mem)

interpretation random_std: random_context round_robin saturating "[]" 0
  by unfold_locales (rule chooses_member_round_robin, rule bu_spec_saturating)

section \<open>Properties\<close>




text \<open>
  C35. The random policy ends after as many rounds as there are eligible idle workers, whatever the
  generator chooses, and does not panic; its victims are distinct eligible idle workers and their
  memory covers the requested amount unless all of them are evicted.
\<close>

theorem random_evict_contract:
  assumes "chooses_member ch" and "bu_spec bu" and "store_inv s"
  shows "\<exists>vs g'. random_evict ch bu excl g s m = Some (Inr vs, g') \<and> distinct vs
    \<and> set vs \<subseteq> {(fid, w). where_is s w = Some (Idle, fid) \<and> fid \<notin> set excl}
    \<and> (m \<le> victims_mem s vs
        \<or> set vs = {(fid, w). where_is s w = Some (Idle, fid) \<and> fid \<notin> set excl})"
proof -
  have c: "set (idle_candidates excl s) = {(fid, w). where_is s w = Some (Idle, fid) \<and> fid \<notin> set excl}"
    unfolding where_is_iff [OF assms(3)] using idle_candidates_located [OF assms(3)] by auto
  have "\<forall>x \<in> set (idle_candidates excl s). map_of s (fst x) \<noteq> None"
    using idle_candidates_located [OF assms(3)] unfolding located_def by fastforce
  from random_loop_ok [OF assms(2,1) this distinct_idle_candidates [OF assms(3)] order_refl, of g m]
  show ?thesis unfolding random_evict_def Let_def c .
qed

theorem random_evict_contract_witness:
  "(\<exists>vs g'. random_evict round_robin saturating [] 1 store_example 1 = Some (Inr vs, g') \<and> distinct vs
    \<and> set vs \<subseteq> {(fid, w). where_is store_example w = Some (Idle, fid) \<and> fid \<notin> set []}
    \<and> (1 \<le> victims_mem store_example vs
        \<or> set vs = {(fid, w). where_is store_example w = Some (Idle, fid) \<and> fid \<notin> set []}))"
  by (rule random_evict_contract [OF chooses_member_round_robin bu_spec_saturating store_example_inv])

end
