(* ===== verification/Pool.thy ===== *)
theory Pool
  imports Messages Keepalive
begin

text \<open>
  \<^verbatim>\<open>sbpool/pool/mod.rs\<close>, \<^verbatim>\<open>sbpool/pool/control.rs\<close>: the state of the sandbox pool and the
  operations its handlers are made of: emitting events, timers, spawning workers, moving them
  between classes, eviction, parking, finalizing control operations and reaping.

  A worker is represented by its id; its task, its channels and its runtime are outside the pool.
  What they and the other actors decide while one handler runs is the record \<open>penv\<close>: whether a
  send succeeds, the id of a worker that is spawned, how a worker task ended, what the keep-alive
  and eviction policies answer. What the pool sends is kept in the log fields of the state. The
  one-shot channel of a control-plane caller is a \<open>waiter\<close>; a reply to it is never checked by the
  code, so that the log has every reply that was sent. Sums and differences of byte units are the
  parameter \<open>bu_ops\<close>, the priority queue of the cpuset manager the parameter \<open>pq_ops\<close>.
\<close>

section \<open>Data\<close>

record sandbox_stats =
  sb_invocations :: "64 word"
  sb_restorations :: "64 word"

record sandbox =
  sb_id :: sandbox_id
  sb_stats :: sandbox_stats

datatype mem_accounting = MemInUse | MemReclaimed | MemUncharged

record memory_stats =
  mem_total :: nat
  mem_inuse :: nat
  mem_reclaimed :: nat
  eviction_thres_hi :: nat
  eviction_thres_lo :: nat

record worker_handle =
  wh_function_id :: function_id
  wh_sandbox_id :: "sandbox_id option"
  wh_mem_accounting :: mem_accounting

text \<open>The variants of \<^verbatim>\<open>worker::Error\<close> that the pool tells apart or produces; the rest carry a name.\<close>

datatype worker_error = WorkerInit string | WorkerShutDown worker_id | WorkerChannel string | WorkerFailure string

datatype sandbox_exit = ExitNone | ExitReusable sandbox | ExitTrashed sandbox

record worker_exit =
  we_result :: "worker_error + unit"
  we_sandbox :: sandbox_exit

datatype pool_error =
  CpuSetErr cpuset_error
| AdmissionUnresponsive string
| WorkerCreation worker_error
| Metadata store_error
| WorkerErr worker_error
| WorkerJoin worker_id
| NetworkErr string
| RuntimeErr string
| DatabaseErr string

datatype control_message =
  CtlShutDown
| CtlPrepareSandbox cpu
| CtlDestroySandbox
| CtlCreateSnapshot sandbox_id

type_synonym waiter = nat

datatype prepare_error =
  PrepUnknownFunction function_id
| OutOfSnapshots
| OutOfMemory
| PrepInternal string "pool_error option"
| PrepWorker string

datatype destroy_error =
  DestrNotFound sandbox_id
| DestrBusy string
| DestrInternal string "pool_error option"
| DestrWorker worker_error

datatype snapshot_error =
  SnapDisabled
| UnassignedSandboxId sandbox_id
| SnapBusy string
| SnapWorkerDying worker_id sandbox_id
| SnapInternal string "pool_error option"
| SnapshotWorker string

datatype sandbox_control_state = CsActive | CsIdle | CsDying | CsSnapshotOnly

record sandbox_info =
  si_sandbox_id :: sandbox_id
  si_function_id :: function_id
  si_state :: sandbox_control_state
  si_has_snapshot :: bool
  si_stats :: "sandbox_stats option"

datatype control_reply =
  PrepReply "prepare_error + sandbox_info"
| DestrReply "destroy_error + bool"
| SnapReply "snapshot_error + unit"

subsection \<open>Pending control operations\<close>

datatype pending_op = OpPrepareSandbox | OpDestroySandbox | OpSnapshot

record pending_prep =
  pp_keepalive_hint :: "duration option"
  pp_respond_to :: "waiter option"

record pending_destr =
  pd_remove_snapshot :: bool
  pd_respond_to :: "waiter list"

record paused_timer =
  ts_pause :: instant
  pt_deadline :: instant

record pending_snapshot =
  ps_timer_info :: "paused_timer option"
  ps_respond_to :: "waiter list"

record pending_control =
  op_by_worker :: "worker_id \<rightharpoonup> pending_op"
  sandbox_preps :: "(worker_id \<times> pending_prep) list"
  sandbox_destrs :: "(worker_id \<times> pending_destr) list"
  pending_snapshots :: "(sandbox_id \<times> pending_snapshot) list"

subsection \<open>The pool\<close>

datatype db_op = DbWipeSnapshots | DbSyncSnapshots

record 'q pool =
  retain_snapshots :: bool
  snapshots_disabled :: bool
  default_worker_cap :: nat
  cpuset :: "'q cpuset_manager"
  memory :: memory_stats
  store :: fmd_store
  timers :: "worker_id \<rightharpoonup> instant"
  worker_handles :: "(worker_id \<times> worker_handle) list"
  worker_deadlines :: deadlines
  worker_by_sandbox :: "sandbox_id \<rightharpoonup> worker_id"
  snapshots :: "(function_id \<times> sandbox list) list"
  trashed_sandboxes :: "sandbox list"
  pending :: pending_control
  admission_events :: "pool_event list"
  dispatch_replies :: "(function_id \<times> dispatch_response) list"
  worker_msgs :: "(worker_id \<times> control_message) list"
  control_replies :: "(waiter \<times> control_reply) list"
  db_ops :: "db_op list"

datatype orphan_outcome = OrphanRuntimeFailed string | OrphanTrashed sandbox | OrphanNetFailed | OrphanDestroyed

record 'q penv =
  lib_pq :: "'q pq_ops"
  lib_bu :: bu_ops
  pe_now :: instant
  pe_spawn :: "worker_error + worker_id"
  pe_reply_ok :: bool
  pe_ctl_ok :: "worker_id \<Rightarrow> bool"
  pe_event_ok :: "pool_event \<Rightarrow> bool"
  pe_finished :: "worker_id \<Rightarrow> bool"
  pe_exit :: "worker_id \<Rightarrow> worker_exit option"
  pe_assign :: "function_id \<Rightarrow> duration option"
  pe_evict :: evictor
  pe_orphan :: "sandbox \<Rightarrow> orphan_outcome"

type_synonym ('q, 'a) pool_result = "(pool_error fault + 'a) \<times> 'q pool"

section \<open>Calls of other components\<close>

text \<open>\<^verbatim>\<open>match\<close> on a result: a panic goes through, \<open>h\<close> is the error arm and \<open>k\<close> the success arm.\<close>

definition matchE ::
  "('e fault + 'a) \<times> 's \<Rightarrow> ('e \<Rightarrow> 's \<Rightarrow> ('f fault + 'b) \<times> 's) \<Rightarrow> ('a \<Rightarrow> 's \<Rightarrow> ('f fault + 'b) \<times> 's)
    \<Rightarrow> ('f fault + 'b) \<times> 's" where
  "matchE r h k =
     (case r of
        (Inl (Panic m), s) \<Rightarrow> (Inl (Panic m), s)
      | (Inl (Err e), s) \<Rightarrow> h e s
      | (Inr x, s) \<Rightarrow> k x s)"

text \<open>A loop over \<open>xs\<close> whose body logs its errors and goes on.\<close>

fun for_each ::
  "('x \<Rightarrow> 's \<Rightarrow> ('e fault + 'a) \<times> 's) \<Rightarrow> 'x list \<Rightarrow> 's \<Rightarrow> ('f fault + unit) \<times> 's" where
  "for_each f [] s = (Inr (), s)"
| "for_each f (x # xs) s = matchE (f x s) (\<lambda>_ s. for_each f xs s) (\<lambda>_ s. for_each f xs s)"

definition on_store ::
  "(fmd_store \<Rightarrow> (store_error fault + 'a) \<times> fmd_store) \<Rightarrow> 'q pool \<Rightarrow> ('q, 'a) pool_result" where
  "on_store f p =
     (case f (store p) of
        (Inl (Panic m), s) \<Rightarrow> (Inl (Panic m), p\<lparr>store := s\<rparr>)
      | (Inl (Err e), s) \<Rightarrow> (Inl (Err (Metadata e)), p\<lparr>store := s\<rparr>)
      | (Inr x, s) \<Rightarrow> (Inr x, p\<lparr>store := s\<rparr>))"

text \<open>The reads that panic on an unknown function, and the allocation of a CPU, have no error case.\<close>

definition read_store ::
  "(fmd_store \<Rightarrow> store_error fault + 'a) \<Rightarrow> 'q pool \<Rightarrow> ('e fault + 'a) \<times> 'q pool" where
  "read_store f p =
     (case f (store p) of
        Inl _ \<Rightarrow> (Inl (Panic ''function should already exist''), p)
      | Inr x \<Rightarrow> (Inr x, p))"

definition pool_cpu_alloc :: "'q penv \<Rightarrow> worker_id \<Rightarrow> 'q pool \<Rightarrow> ('e fault + cpu) \<times> 'q pool" where
  "pool_cpu_alloc en w p =
     (case cpuset_alloc (lib_pq en) w (cpuset p) of
        (Inl e, c) \<Rightarrow> (Inl (Panic (case e of Panic m \<Rightarrow> m | Err _ \<Rightarrow> ''allocation has no error'')), p\<lparr>cpuset := c\<rparr>)
      | (Inr x, c) \<Rightarrow> (Inr x, p\<lparr>cpuset := c\<rparr>))"

definition pool_cpu_release :: "'q penv \<Rightarrow> worker_id \<Rightarrow> 'q pool \<Rightarrow> ('q, unit) pool_result" where
  "pool_cpu_release en w p =
     (case cpuset_release (lib_pq en) w (cpuset p) of
        (Inl (Panic m), c) \<Rightarrow> (Inl (Panic m), p\<lparr>cpuset := c\<rparr>)
      | (Inl (Err e), c) \<Rightarrow> (Inl (Err (CpuSetErr e)), p\<lparr>cpuset := c\<rparr>)
      | (Inr x, c) \<Rightarrow> (Inr (), p\<lparr>cpuset := c\<rparr>))"

text \<open>A release whose error is only logged.\<close>

definition pool_cpu_try_release :: "'q penv \<Rightarrow> worker_id \<Rightarrow> 'q pool \<Rightarrow> ('e fault + unit) \<times> 'q pool" where
  "pool_cpu_try_release en w p =
     matchE (pool_cpu_release en w p) (\<lambda>_ p. (Inr (), p)) (\<lambda>_ p. (Inr (), p))"

definition emit_admission_event :: "'q penv \<Rightarrow> pool_event \<Rightarrow> 'q pool \<Rightarrow> 'q pool" where
  "emit_admission_event en ev p =
     (if pe_event_ok en ev then p\<lparr>admission_events := admission_events p @ [ev]\<rparr> else p)"

text \<open>\<^verbatim>\<open>WorkerHandle::shutdown\<close>, \<^verbatim>\<open>destroy\<close>, \<^verbatim>\<open>prepare_sandbox\<close> and \<^verbatim>\<open>create_snapshot\<close>.\<close>

definition send_control ::
  "'q penv \<Rightarrow> worker_id \<Rightarrow> control_message \<Rightarrow> 'q pool \<Rightarrow> (worker_error fault + unit) \<times> 'q pool" where
  "send_control en w msg p =
     (if pe_ctl_ok en w then (Inr (), p\<lparr>worker_msgs := worker_msgs p @ [(w, msg)]\<rparr>)
      else (Inl (Err (case msg of
              CtlShutDown \<Rightarrow> WorkerShutDown w
            | CtlDestroySandbox \<Rightarrow> WorkerShutDown w
            | CtlPrepareSandbox _ \<Rightarrow> WorkerChannel ''sending ControlMessage::PrepareSandbox to Worker''
            | CtlCreateSnapshot _ \<Rightarrow> WorkerChannel ''sending ControlMessage::CreateSnapshot to Worker'')), p))"

definition worker_shutdown :: "'q penv \<Rightarrow> worker_id \<Rightarrow> 'q pool \<Rightarrow> ('q, unit) pool_result" where
  "worker_shutdown en w p =
     (case map_of (worker_handles p) w of
        None \<Rightarrow> (Inl (Panic ''Worker exists, since state transition just succeeded''), p)
      | Some _ \<Rightarrow> matchE (send_control en w CtlShutDown p)
                   (\<lambda>e p. (Inl (Err (WorkerErr e)), p)) (\<lambda>_ p. (Inr (), p)))"

definition worker_destroy :: "'q penv \<Rightarrow> worker_id \<Rightarrow> 'q pool \<Rightarrow> ('q, unit) pool_result" where
  "worker_destroy en w p =
     (case map_of (worker_handles p) w of
        None \<Rightarrow> (Inl (Panic ''Worker exists, since state transition just succeeded''), p)
      | Some _ \<Rightarrow> matchE (send_control en w CtlDestroySandbox p)
                   (\<lambda>e p. (Inl (Err (WorkerErr e)), p)) (\<lambda>_ p. (Inr (), p)))"

definition reply_all :: "waiter list \<Rightarrow> control_reply \<Rightarrow> 'q pool \<Rightarrow> 'q pool" where
  "reply_all ws r p = p\<lparr>control_replies := control_replies p @ map (\<lambda>t. (t, r)) ws\<rparr>"

section \<open>Timers and memory\<close>

definition spawn_timer :: "worker_id \<Rightarrow> instant \<Rightarrow> 'q pool \<Rightarrow> 'q pool" where
  "spawn_timer w d p = p\<lparr>timers := (timers p)(w \<mapsto> d)\<rparr>"

definition stop_timer :: "worker_id \<Rightarrow> 'q pool \<Rightarrow> 'q pool" where
  "stop_timer w p = p\<lparr>timers := (timers p)(w := None)\<rparr>"

definition reclaim :: "bu_ops \<Rightarrow> nat \<Rightarrow> memory_stats \<Rightarrow> memory_stats" where
  "reclaim bu k m =
     m\<lparr>mem_inuse := bu_sub bu (mem_inuse m) k, mem_reclaimed := bu_add bu (mem_reclaimed m) k\<rparr>"

definition set_accounting :: "worker_id \<Rightarrow> mem_accounting \<Rightarrow> 'q pool \<Rightarrow> 'q pool" where
  "set_accounting w a p =
     (case map_of (worker_handles p) w of
        None \<Rightarrow> p
      | Some h \<Rightarrow> p\<lparr>worker_handles := AList.update w (h\<lparr>wh_mem_accounting := a\<rparr>) (worker_handles p)\<rparr>)"

section \<open>New workers\<close>

definition pick_idle_worker :: "function_id \<Rightarrow> 'q pool \<Rightarrow> pool_error fault + worker_id option" where
  "pick_idle_worker fid p =
     (let cs = filter (\<lambda>(f, _). f = fid) (iter_idle (store p)) in
      if list_ex (\<lambda>(_, w). worker_deadlines p w = None) cs
      then Inl (Panic ''all Idle Workers should have an associated deadline'')
      else Inr (map_option snd (max_by_last (\<lambda>(_, w). the (worker_deadlines p w)) cs)))"

definition remove_nth :: "nat \<Rightarrow> 'a list \<Rightarrow> 'a list" where
  "remove_nth i xs = take i xs @ drop (Suc i) xs"

definition pick_orphan_snapshot :: "function_id \<Rightarrow> 'q pool \<Rightarrow> sandbox option \<times> 'q pool" where
  "pick_orphan_snapshot fid p =
     (case map_of (snapshots p) fid of
        None \<Rightarrow> (None, p)
      | Some sbs \<Rightarrow>
          (case max_by_last (\<lambda>(_, sb). sb_restorations (sb_stats sb)) (zip [0..<length sbs] sbs) of
             None \<Rightarrow> (None, p)
           | Some (i, sb) \<Rightarrow>
               (Some sb, p\<lparr>snapshots := AList.update fid (remove_nth i sbs) (snapshots p)\<rparr>)))"

text \<open>\<^verbatim>\<open>self.snapshots.entry(function_id).or_default().push(sb)\<close>\<close>

definition push_snapshot :: "function_id \<Rightarrow> sandbox \<Rightarrow> 'q pool \<Rightarrow> 'q pool" where
  "push_snapshot fid sb p =
     p\<lparr>snapshots := AList.update fid
         ((case map_of (snapshots p) fid of None \<Rightarrow> [] | Some sbs \<Rightarrow> sbs) @ [sb]) (snapshots p)\<rparr>"

definition spawn_untracked_worker ::
  "'q penv \<Rightarrow> function_id \<Rightarrow> sandbox option \<Rightarrow> mem_accounting \<Rightarrow> 'q pool \<Rightarrow> ('q, worker_id) pool_result"
where
  "spawn_untracked_worker en fid sb acct p =
     bindE (read_store (get_registered_function fid) p) (\<lambda>func p.
       case pe_spawn en of
         Inl err \<Rightarrow>
           (Inl (Err (WorkerCreation err)),
            case sb of None \<Rightarrow> p | Some b \<Rightarrow> push_snapshot fid b p)
       | Inr w \<Rightarrow>
           (let old = map_of (worker_handles p) w;
                p = p\<lparr>worker_handles := AList.update w
                       \<lparr>wh_function_id = fi_id (rf_info func), wh_sandbox_id = map_option sb_id sb,
                        wh_mem_accounting = acct\<rparr> (worker_handles p)\<rparr> in
            if old \<noteq> None then (Inl (Panic ''TODO: collision''), p)
            else
              (case sb of
                 None \<Rightarrow> (Inr w, p)
               | Some b \<Rightarrow>
                   (let old = worker_by_sandbox p (sb_id b);
                        p = p\<lparr>worker_by_sandbox := (worker_by_sandbox p)(sb_id b \<mapsto> w)\<rparr> in
                    if old \<noteq> None then (Inl (Panic ''BUG: map collision''), p) else (Inr w, p)))))"

definition spawn_new_worker ::
  "'q penv \<Rightarrow> function_id \<Rightarrow> sandbox option \<Rightarrow> 'q pool \<Rightarrow> ('q, worker_id) pool_result" where
  "spawn_new_worker en fid sb p =
     bindE (spawn_untracked_worker en fid sb MemInUse p) (\<lambda>w p.
     bindE (read_store (function_memory fid) p) (\<lambda>k p.
       let p = p\<lparr>memory := (memory p)\<lparr>mem_inuse := bu_add (lib_bu en) (mem_inuse (memory p)) k\<rparr>\<rparr> in
       bindE (on_store (update_stats (\<lambda>st.
           let st = st\<lparr>workers_spawned := workers_spawned st + 1\<rparr> in
           if sb \<noteq> None then st\<lparr>snapshots_restored := snapshots_restored st + 1\<rparr>
           else st\<lparr>sandboxes_created := sandboxes_created st + 1\<rparr>) fid) p)
         (\<lambda>_ p. (Inr w, p))))"

section \<open>Changing the class of a worker\<close>

definition idle_worker_to_dying ::
  "'q penv \<Rightarrow> worker_id \<Rightarrow> function_id \<Rightarrow> 'q pool \<Rightarrow> ('q, unit) pool_result" where
  "idle_worker_to_dying en w fid p =
     bindE (on_store (worker_idle_to_dying w (Some fid)) p) (\<lambda>_ p.
       let p = emit_admission_event en (WorkerCapAvailable fid) p;
           p = stop_timer w p;
           p = p\<lparr>worker_deadlines := (worker_deadlines p)(w := None)\<rparr> in
       case map_of (worker_handles p) w of
         None \<Rightarrow> (Inl (Panic ''Worker exists, since state transition just succeeded''), p)
       | Some h \<Rightarrow>
           bindE (read_store (function_memory (wh_function_id h)) p) (\<lambda>k p.
             (Inr (), set_accounting w MemReclaimed (p\<lparr>memory := reclaim (lib_bu en) k (memory p)\<rparr>))))"

definition active_worker_to_dying ::
  "'q penv \<Rightarrow> worker_id \<Rightarrow> function_id \<Rightarrow> 'q pool \<Rightarrow> ('q, unit) pool_result" where
  "active_worker_to_dying en w fid p =
     bindE (on_store (worker_active_to_dying w (Some fid)) p) (\<lambda>_ p.
       let p = emit_admission_event en (WorkerCapAvailable fid) p;
           p = p\<lparr>worker_deadlines := (worker_deadlines p)(w := None)\<rparr> in
       bindE (read_store (function_memory fid) p) (\<lambda>k p.
         let p = p\<lparr>memory := reclaim (lib_bu en) k (memory p)\<rparr> in
         case map_of (worker_handles p) w of
           None \<Rightarrow> (Inl (Panic ''Worker exists, since state transition just succeeded''), p)
         | Some _ \<Rightarrow> (Inr (), set_accounting w MemReclaimed p)))"

section \<open>Keep-alive and eviction\<close>

definition decommission_idle_worker ::
  "'q penv \<Rightarrow> worker_id \<Rightarrow> function_id option \<Rightarrow> 'q pool \<Rightarrow> ('q, unit) pool_result" where
  "decommission_idle_worker en w fo p =
     (if timers p w = None
      then (Inr (), p\<lparr>worker_deadlines := (worker_deadlines p)(w := None)\<rparr>)
      else
        (case (case fo of Some fid \<Rightarrow> Some fid
               | None \<Rightarrow> map_option wh_function_id (map_of (worker_handles p) w)) of
           None \<Rightarrow> (Inl (Panic ''invalid Worker ID''), p)
         | Some fid \<Rightarrow>
             bindE (idle_worker_to_dying en w fid p) (\<lambda>_ p. worker_shutdown en w p)))"

definition trigger_eviction_policy :: "'q penv \<Rightarrow> 'q pool \<Rightarrow> ('e fault + unit) \<times> 'q pool" where
  "trigger_eviction_policy en p =
     (let target = bu_sub (lib_bu en) (mem_inuse (memory p)) (eviction_thres_lo (memory p)) in
      case pe_evict en (store p) (worker_deadlines p) target of
        Inl _ \<Rightarrow> (Inl (Panic ''eviction policy''), p)
      | Inr victims \<Rightarrow>
          for_each (\<lambda>(fid, w). decommission_idle_worker en w (Some fid)) victims p)"

section \<open>Parking a worker\<close>

definition deactivate_worker ::
  "'q penv \<Rightarrow> worker_id \<Rightarrow> function_id \<Rightarrow> instant option \<Rightarrow> 'q pool \<Rightarrow> ('q, unit) pool_result" where
  "deactivate_worker en w fid dl p =
     (case dl of
        Some d \<Rightarrow>
          bindE (on_store (worker_active_to_idle w (Some fid)) p) (\<lambda>_ p.
            let p = p\<lparr>worker_deadlines := (worker_deadlines p)(w \<mapsto> d)\<rparr>;
                p = spawn_timer w d p in
            (Inr (), emit_admission_event en (WorkerIdle fid) p))
      | None \<Rightarrow>
          bindE (active_worker_to_dying en w fid p) (\<lambda>_ p. worker_shutdown en w p))"

definition deactivate_worker_per_keepalive ::
  "'q penv \<Rightarrow> worker_id \<Rightarrow> function_id \<Rightarrow> instant \<Rightarrow> 'q pool \<Rightarrow> ('q, unit) pool_result" where
  "deactivate_worker_per_keepalive en w fid ts p =
     deactivate_worker en w fid (map_option (\<lambda>d. ts + d) (pe_assign en fid)) p"

definition on_need_work ::
  "'q penv \<Rightarrow> worker_id \<Rightarrow> function_id \<Rightarrow> 'q pool \<Rightarrow> ('q, unit) pool_result" where
  "on_need_work en w fid p =
     bindE (pool_cpu_release en w p) (\<lambda>_ p.
       if op_by_worker (pending p) w \<noteq> None then (Inr (), p)
       else deactivate_worker_per_keepalive en w fid (pe_now en) p)"

definition update_sandbox_id ::
  "worker_id \<Rightarrow> sandbox_id \<Rightarrow> 'q pool \<Rightarrow> ('q, unit) pool_result" where
  "update_sandbox_id w sid p =
     (case map_of (worker_handles p) w of
        None \<Rightarrow> (Inl (Panic ''Worker exists; just sent message''), p)
      | Some h \<Rightarrow>
          (let p = p\<lparr>worker_handles := AList.update w (h\<lparr>wh_sandbox_id := Some sid\<rparr>) (worker_handles p)\<rparr>;
               old = worker_by_sandbox p sid;
               p = p\<lparr>worker_by_sandbox := (worker_by_sandbox p)(sid \<mapsto> w)\<rparr> in
           if old \<noteq> None then (Inl (Panic ''BUG: sb map collision''), p) else (Inr (), p)))"

section \<open>Finalizing control operations and reaping\<close>

definition reply_destroy_internal_failure :: "pending_destr \<Rightarrow> string \<Rightarrow> 'q pool \<Rightarrow> 'q pool" where
  "reply_destroy_internal_failure d msg p =
     reply_all (pd_respond_to d) (DestrReply (Inl (DestrInternal msg None))) p"

definition reply_destroy_worker_failure :: "pending_destr \<Rightarrow> worker_error \<Rightarrow> 'q pool \<Rightarrow> 'q pool" where
  "reply_destroy_worker_failure d err p = reply_all (pd_respond_to d) (DestrReply (Inl (DestrWorker err))) p"

definition reply_destroy_success :: "pending_destr \<Rightarrow> bool \<Rightarrow> 'q pool \<Rightarrow> 'q pool" where
  "reply_destroy_success d exists p =
     (if exists \<and> pd_remove_snapshot d
      then reply_destroy_internal_failure d ''failed to remove persisted snapshot'' p
      else reply_all (pd_respond_to d) (DestrReply (Inr exists)) p)"

definition finalize_control_ops ::
  "worker_id \<Rightarrow> sandbox_id option \<Rightarrow> 'q pool \<Rightarrow> pending_destr option \<times> 'q pool" where
  "finalize_control_ops w sido p =
     (let pc = pending p;
          ps = Option.bind sido (map_of (pending_snapshots pc));
          pp = map_of (sandbox_preps pc) w;
          pd = map_of (sandbox_destrs pc) w;
          p = p\<lparr>pending := pc\<lparr>op_by_worker := (op_by_worker pc)(w := None),
                 pending_snapshots := (case sido of None \<Rightarrow> pending_snapshots pc
                                       | Some sid \<Rightarrow> AList.delete sid (pending_snapshots pc)),
                 sandbox_preps := AList.delete w (sandbox_preps pc),
                 sandbox_destrs := AList.delete w (sandbox_destrs pc)\<rparr>\<rparr>;
          msg = ''reaping Worker; probably abnormal termination'';
          p = (case ps of None \<Rightarrow> p
               | Some op \<Rightarrow> reply_all (ps_respond_to op) (SnapReply (Inl (SnapInternal msg None))) p);
          p = (case Option.bind pp pp_respond_to of None \<Rightarrow> p
               | Some t \<Rightarrow> reply_all [t] (PrepReply (Inl (PrepInternal msg None))) p) in
      (pd, p))"

definition reap_mem_account_aux :: "bu_ops \<Rightarrow> mem_accounting \<Rightarrow> nat \<Rightarrow> memory_stats \<Rightarrow> memory_stats" where
  "reap_mem_account_aux bu acct k m =
     (case acct of
        MemInUse \<Rightarrow> m\<lparr>mem_inuse := bu_sub bu (mem_inuse m) k\<rparr>
      | MemReclaimed \<Rightarrow> m\<lparr>mem_reclaimed := bu_sub bu (mem_reclaimed m) k\<rparr>
      | MemUncharged \<Rightarrow> m)"

definition reap_mem_account :: "'q penv \<Rightarrow> mem_accounting \<Rightarrow> nat \<Rightarrow> 'q pool \<Rightarrow> 'q pool" where
  "reap_mem_account en acct k p =
     (let p = p\<lparr>memory := reap_mem_account_aux (lib_bu en) acct k (memory p)\<rparr> in
      if acct \<noteq> MemUncharged then emit_admission_event en MemoryCapAvailable p else p)"

text \<open>The first part of \<^verbatim>\<open>reap_worker\<close>: take the worker out of the store and out of the handles.\<close>

definition reap_claim ::
  "'q penv \<Rightarrow> worker_id \<Rightarrow> function_id \<Rightarrow> 'q pool \<Rightarrow> ('q, worker_handle option) pool_result" where
  "reap_claim en w fid p =
     (let take_handle = (\<lambda>msg p. case map_of (worker_handles p) w of
            None \<Rightarrow> (Inl (Panic msg), p)
          | Some h \<Rightarrow> (Inr (Some h), p\<lparr>worker_handles := AList.delete w (worker_handles p)\<rparr>)) in
      bindE (on_store (remove_dying_worker w fid) p) (\<lambda>was_dying p.
        if was_dying then take_handle ''just checked that _Dying_ Worker exists'' p
        else bindE (on_store (remove_active_worker w fid) p) (\<lambda>was_active p.
          if was_active
          then take_handle ''just checked that _Active_ Worker exists''
                 (emit_admission_event en (WorkerCapAvailable fid) p)
          else if find_idle_worker w (store p) \<noteq> None then (Inr None, p)
          else
            (case map_of (worker_handles p) w of
               None \<Rightarrow> (Inr None, p)
             | Some h \<Rightarrow> (Inr (Some h), p\<lparr>worker_handles := AList.delete w (worker_handles p)\<rparr>)))))"

text \<open>The last part: what the exit status of the worker task means for its sandbox and memory.\<close>

definition reap_exit ::
  "'q penv \<Rightarrow> worker_id \<Rightarrow> function_id \<Rightarrow> worker_handle \<Rightarrow> nat \<Rightarrow> pending_destr option \<Rightarrow> 'q pool
    \<Rightarrow> ('q, unit) pool_result" where
  "reap_exit en w fid h k op_ctx p =
     (let acct = wh_mem_accounting h;
          reply = (\<lambda>f p. case op_ctx of None \<Rightarrow> p | Some d \<Rightarrow> f d p) in
      case pe_exit en w of
        None \<Rightarrow>
          (Inl (Err (WorkerJoin w)), reply (\<lambda>d. reply_destroy_internal_failure d ''failed to join Worker'') p)
      | Some ex \<Rightarrow>
          (case (we_result ex, we_sandbox ex) of
             (Inr _, ExitReusable sb) \<Rightarrow>
               (Inr (), reply (\<lambda>d. reply_destroy_success d True)
                  (reap_mem_account en acct k (push_snapshot fid sb p)))
           | (Inr _, ExitNone) \<Rightarrow>
               (Inr (), reply (\<lambda>d. reply_destroy_success d False) (reap_mem_account en acct k p))
           | (Inr _, ExitTrashed sb) \<Rightarrow>
               (Inl (Panic ''Workers can never return successfully with a trashed sandbox''), p)
           | (Inl err, ExitReusable sb) \<Rightarrow>
               (Inr (), reply (\<lambda>d. reply_destroy_worker_failure d err)
                  (reap_mem_account en acct k (push_snapshot fid sb p)))
           | (Inl err, ExitTrashed sb) \<Rightarrow>
               (Inr (), reply (\<lambda>d. reply_destroy_worker_failure d err)
                  (p\<lparr>trashed_sandboxes := trashed_sandboxes p @ [sb]\<rparr>))
           | (Inl err, ExitNone) \<Rightarrow>
               (Inr (), reply (\<lambda>d. reply_destroy_worker_failure d err)
                  (case err of WorkerInit _ \<Rightarrow> reap_mem_account en acct k p | _ \<Rightarrow> p))))"

definition reap_worker ::
  "'q penv \<Rightarrow> worker_id \<Rightarrow> function_id \<Rightarrow> 'q pool \<Rightarrow> ('q, unit) pool_result" where
  "reap_worker en w fid p =
     bindE (reap_claim en w fid p) (\<lambda>ho p.
       case ho of
         None \<Rightarrow> (Inr (), p)
       | Some h \<Rightarrow>
           (let p = p\<lparr>worker_deadlines := (worker_deadlines p)(w := None)\<rparr>;
                p = (case wh_sandbox_id h of None \<Rightarrow> p
                     | Some sid \<Rightarrow> p\<lparr>worker_by_sandbox := (worker_by_sandbox p)(sid := None)\<rparr>) in
            bindE (pool_cpu_try_release en w p) (\<lambda>_ p.
              case finalize_control_ops w (wh_sandbox_id h) p of (op_ctx, p) \<Rightarrow>
                bindE (read_store (function_memory fid) p) (\<lambda>k p. reap_exit en w fid h k op_ctx p))))"

definition reap_finished_workers :: "'q penv \<Rightarrow> 'q pool \<Rightarrow> ('e fault + unit) \<times> 'q pool" where
  "reap_finished_workers en p =
     (let finished = filter (\<lambda>(fid, w). map_of (worker_handles p) w \<noteq> None \<and> pe_finished en w)
                       (iter_active (store p)) in
      for_each (\<lambda>(fid, w). reap_worker en w fid) finished p)"

end
