(* ===== verification/Pool_Control.thy ===== *)
theory Pool_Control
  imports Pool
begin

text \<open>
  \<^verbatim>\<open>sbpool/pool/control.rs\<close>: preparing and destroying sandboxes and creating snapshots on behalf
  of the control plane, and finishing these operations when the worker reports back.

  The \<^verbatim>\<open>request_\<close> functions give the waiter back together with their error, so that
  \<open>handle_control\<close> can answer it.
\<close>

section \<open>Requests\<close>

datatype provisioning_mode = PreferSnapshot | RequireSnapshot | ForceFresh

record prepare_options =
  po_mode :: provisioning_mode
  po_initial_keepalive_hint :: "duration option"

record destroy_options =
  do_allow_if_active :: bool
  do_remove_persisted_snapshot :: bool

datatype pool_control_message =
  PcPrepareSandbox function_id prepare_options waiter
| PcDestroySandbox sandbox_id destroy_options waiter
| PcListSandboxes waiter
| PcCreateSnapshot sandbox_id waiter

type_synonym ('q, 'e) request_result = "(('e \<times> waiter option) fault + unit) \<times> 'q pool"

definition set_pending :: "(pending_control \<Rightarrow> pending_control) \<Rightarrow> 'q pool \<Rightarrow> 'q pool" where
  "set_pending g p = p\<lparr>pending := g (pending p)\<rparr>"

definition evict_if_high :: "'q penv \<Rightarrow> 'q pool \<Rightarrow> ('e fault + unit) \<times> 'q pool" where
  "evict_if_high en p =
     (if mem_inuse (memory p) \<ge> eviction_thres_hi (memory p) then trigger_eviction_policy en p
      else (Inr (), p))"

definition fits :: "bu_ops \<Rightarrow> memory_stats \<Rightarrow> nat \<Rightarrow> bool" where
  "fits bu m k \<longleftrightarrow> bu_add bu (bu_add bu (mem_inuse m) (mem_reclaimed m)) k \<le> mem_total m"

text \<open>The second half of \<^verbatim>\<open>request_sandbox_prep\<close>, from the metadata insertion on.\<close>

definition prep_start ::
  "'q penv \<Rightarrow> worker_id \<Rightarrow> function_id \<Rightarrow> prepare_options \<Rightarrow> waiter option \<Rightarrow> 'q pool
    \<Rightarrow> ('q, prepare_error) request_result" where
  "prep_start en w fid opts wt p =
     matchE (on_store (insert_active_worker w fid) p)
       (\<lambda>e p. (Inl (Err (PrepInternal ''metadata store: failed to insert _Active_ Worker'' (Some e), wt)), p))
       (\<lambda>_ p.
     bindE (pool_cpu_alloc en w p) (\<lambda>cpu p.
     let p = set_pending (\<lambda>pc. pc\<lparr>op_by_worker := (op_by_worker pc)(w \<mapsto> OpPrepareSandbox),
               sandbox_preps := AList.update w
                 \<lparr>pp_keepalive_hint = po_initial_keepalive_hint opts, pp_respond_to = wt\<rparr> (sandbox_preps pc)\<rparr>) p in
     case map_of (worker_handles p) w of
       None \<Rightarrow> (Inl (Panic ''new Worker must be tracked by now''), p)
     | Some _ \<Rightarrow>
         matchE (send_control en w (CtlPrepareSandbox cpu) p)
           (\<lambda>err p.
             bindE (pool_cpu_try_release en w p) (\<lambda>_ p.
               let wt' = Option.bind (map_of (sandbox_preps (pending p)) w) pp_respond_to;
                   p = set_pending (\<lambda>pc. pc\<lparr>sandbox_preps := AList.delete w (sandbox_preps pc)\<rparr>) p;
                   fail = (\<lambda>p. (Inl (Err (PrepInternal ''failed to communicate with new Worker'' None, wt')), p)) in
               if pe_finished en w
               then matchE (reap_worker en w fid p) (\<lambda>_ p. fail p) (\<lambda>_ p. fail p)
               else fail p))
           (\<lambda>_ p. (Inr (), p))))"

definition request_sandbox_prep ::
  "'q penv \<Rightarrow> function_id \<Rightarrow> prepare_options \<Rightarrow> waiter option \<Rightarrow> 'q pool
    \<Rightarrow> ('q, prepare_error) request_result" where
  "request_sandbox_prep en fid opts wt p =
     (if \<not> function_exists fid (store p) then (Inl (Err (PrepUnknownFunction fid, wt)), p)
      else
        bindE (read_store (function_memory fid) p) (\<lambda>k p.
        let picked = (case po_mode opts of
              PreferSnapshot \<Rightarrow> map_prod Some id (pick_orphan_snapshot fid p)
            | RequireSnapshot \<Rightarrow>
                (case pick_orphan_snapshot fid p of (Some sb, p) \<Rightarrow> (Some (Some sb), p) | (None, p) \<Rightarrow> (None, p))
            | ForceFresh \<Rightarrow> (Some None, p)) in
        case picked of
          (None, p) \<Rightarrow> (Inl (Err (OutOfSnapshots, wt)), p)
        | (Some sb, p) \<Rightarrow>
            if fits (lib_bu en) (memory p) k
            then
              matchE (spawn_new_worker en fid sb p)
                (\<lambda>e p. (Inl (Err (PrepInternal ''failed while creating new Worker'' (Some e), wt)), p))
                (\<lambda>w p. bindE (evict_if_high en p) (\<lambda>_ p. prep_start en w fid opts wt p))
            else bindE (evict_if_high en p) (\<lambda>_ p. (Inl (Err (OutOfMemory, wt)), p))))"

definition destroy_idle_worker ::
  "'q penv \<Rightarrow> worker_id \<Rightarrow> function_id \<Rightarrow> bool \<Rightarrow> 'q pool \<Rightarrow> ('q, unit) pool_result" where
  "destroy_idle_worker en w fid remove_snapshot p =
     (if \<not> remove_snapshot then decommission_idle_worker en w (Some fid) p
      else bindE (idle_worker_to_dying en w fid p) (\<lambda>_ p. worker_destroy en w p))"

definition destroy_active_worker ::
  "'q penv \<Rightarrow> worker_id \<Rightarrow> function_id \<Rightarrow> bool \<Rightarrow> 'q pool \<Rightarrow> ('q, unit) pool_result" where
  "destroy_active_worker en w fid remove_snapshot p =
     (if \<not> remove_snapshot then deactivate_worker en w fid None p
      else bindE (active_worker_to_dying en w fid p) (\<lambda>_ p. worker_destroy en w p))"

text \<open>\<^verbatim>\<open>find_map\<close> over all orphan snapshots.\<close>

fun find_snapshot :: "sandbox_id \<Rightarrow> (function_id \<times> sandbox list) list \<Rightarrow> (function_id \<times> nat) option" where
  "find_snapshot sid [] = None"
| "find_snapshot sid ((fid, sbs) # ss) =
     (case List.find (\<lambda>i. sb_id (sbs ! i) = sid) [0..<length sbs] of
        Some i \<Rightarrow> Some (fid, i)
      | None \<Rightarrow> find_snapshot sid ss)"

text \<open>A dedicated worker for an orphan snapshot that no worker owns.\<close>

definition destroy_orphan_snapshot ::
  "'q penv \<Rightarrow> sandbox_id \<Rightarrow> waiter option \<Rightarrow> 'q pool
    \<Rightarrow> ((destroy_error \<times> waiter option) fault + worker_id) \<times> 'q pool" where
  "destroy_orphan_snapshot en sid wt p =
     (case find_snapshot sid (snapshots p) of
        None \<Rightarrow> (Inl (Err (DestrNotFound sid, wt)), p)
      | Some (fid, i) \<Rightarrow>
          (case map_of (snapshots p) fid of
             None \<Rightarrow> (Inl (Panic ''FunctionId just found by scanning `self.snapshots`''), p)
           | Some sbs \<Rightarrow>
               (let p = p\<lparr>snapshots := AList.update fid (remove_nth i sbs) (snapshots p)\<rparr> in
                matchE (spawn_untracked_worker en fid (Some (sbs ! i)) MemUncharged p)
                  (\<lambda>e p. (Inl (Err (DestrInternal ''failed to spawn new Worker'' (Some e), wt)), p))
                  (\<lambda>w p.
                matchE (on_store (insert_dying_worker w fid) p)
                  (\<lambda>e p. (Inl (Err (DestrInternal ''metadata store error'' (Some e), wt)), p))
                  (\<lambda>_ p.
                matchE (worker_destroy en w p)
                  (\<lambda>e p. (Inl (Err (DestrInternal ''failed to contact dedicated Worker'' (Some e), wt)), p))
                  (\<lambda>_ p. (Inr w, p)))))))"

text \<open>Which worker to retire, or \<open>None\<close> when the request joins one that is already pending.\<close>

definition destr_target ::
  "'q penv \<Rightarrow> sandbox_id \<Rightarrow> destroy_options \<Rightarrow> waiter option \<Rightarrow> 'q pool
    \<Rightarrow> ((destroy_error \<times> waiter option) fault + worker_id option) \<times> 'q pool" where
  "destr_target en sid opts wt p =
     (case worker_by_sandbox p sid of
        Some w \<Rightarrow>
          (case op_by_worker (pending p) w of
             None \<Rightarrow> (Inr (Some w), p)
           | Some OpDestroySandbox \<Rightarrow>
               (case map_of (sandbox_destrs (pending p)) w of
                  None \<Rightarrow> (Inl (Panic ''pending op context should exist while PendingControlOp::DestroySandbox''), p)
                | Some d \<Rightarrow>
                    (Inr None, set_pending (\<lambda>pc. pc\<lparr>sandbox_destrs := AList.update w
                       (d\<lparr>pd_respond_to := pd_respond_to d @ (case wt of None \<Rightarrow> [] | Some t \<Rightarrow> [t])\<rparr>)
                       (sandbox_destrs pc)\<rparr>) p))
           | Some OpPrepareSandbox \<Rightarrow> (Inl (Err (DestrBusy ''PendingControlOp::PrepareSandbox'', wt)), p)
           | Some OpSnapshot \<Rightarrow> (Inl (Err (DestrBusy ''PendingControlOp::Snapshot'', wt)), p))
      | None \<Rightarrow>
          if do_remove_persisted_snapshot opts
          then matchE (destroy_orphan_snapshot en sid wt p) (\<lambda>e p. (Inl (Err e), p)) (\<lambda>w p. (Inr (Some w), p))
          else (Inl (Err (DestrNotFound sid, wt)), p))"

definition destr_begin ::
  "'q penv \<Rightarrow> worker_id \<Rightarrow> destroy_options \<Rightarrow> waiter option \<Rightarrow> 'q pool
    \<Rightarrow> ('q, destroy_error) request_result" where
  "destr_begin en w opts wt p =
     (case find_idle_worker w (store p) of
        Some fid \<Rightarrow>
          matchE (destroy_idle_worker en w fid (do_remove_persisted_snapshot opts) p)
            (\<lambda>e p. (Inl (Err (DestrInternal ''failed to destroy Idle Worker'' (Some e), wt)), p))
            (\<lambda>_ p. (Inr (), p))
      | None \<Rightarrow>
          (case find_active_worker w (store p) of
             Some fid \<Rightarrow>
               if \<not> do_allow_if_active opts then (Inl (Err (DestrBusy ''Worker is Active'', wt)), p)
               else
                 matchE (destroy_active_worker en w fid (do_remove_persisted_snapshot opts) p)
                   (\<lambda>e p. (Inl (Err (DestrInternal ''failed to destroy Active Worker'' (Some e), wt)), p))
                   (\<lambda>_ p. (Inr (), p))
           | None \<Rightarrow>
               (case find_dying_worker w (store p) of
                  Some _ \<Rightarrow> (Inr (), p)
                | None \<Rightarrow> (Inl (Err (DestrInternal ''unknown Worker state'' None, wt)), p))))"

definition request_sandbox_destr ::
  "'q penv \<Rightarrow> sandbox_id \<Rightarrow> destroy_options \<Rightarrow> waiter option \<Rightarrow> 'q pool
    \<Rightarrow> ('q, destroy_error) request_result" where
  "request_sandbox_destr en sid opts wt p =
     bindE (destr_target en sid opts wt p) (\<lambda>target p.
       case target of
         None \<Rightarrow> (Inr (), p)
       | Some w \<Rightarrow>
           bindE (destr_begin en w opts wt p) (\<lambda>_ p.
             (Inr (), set_pending (\<lambda>pc. pc\<lparr>op_by_worker := (op_by_worker pc)(w \<mapsto> OpDestroySandbox),
                sandbox_destrs := AList.update w
                  \<lparr>pd_remove_snapshot = do_remove_persisted_snapshot opts,
                   pd_respond_to = (case wt of None \<Rightarrow> [] | Some t \<Rightarrow> [t])\<rparr> (sandbox_destrs pc)\<rparr>) p)))"

text \<open>Make the worker of a snapshot request Active; \<open>Err\<close> when it cannot take it any more.\<close>

definition snap_activate ::
  "worker_id \<Rightarrow> function_id \<Rightarrow> sandbox_id \<Rightarrow> waiter option \<Rightarrow> 'q pool
    \<Rightarrow> ('q, snapshot_error) request_result" where
  "snap_activate w fid sid wt p =
     matchE (on_store (remove_idle_worker w fid) p)
       (\<lambda>e p. (Inl (Err (SnapInternal ''metadata store error'' (Some e), wt)), p))
       (\<lambda>was_idle p.
         if was_idle
         then matchE (on_store (insert_active_worker w fid) p)
                (\<lambda>e p. (Inl (Err (SnapInternal ''metadata store error'' (Some e), wt)), p))
                (\<lambda>_ p. (Inr (), p))
         else if find_active_worker w (store p) \<noteq> None then (Inr (), p)
         else if find_dying_worker w (store p) \<noteq> None then (Inl (Err (SnapWorkerDying w sid, wt)), p)
         else (Inl (Err (SnapInternal ''unknown Worker state'' None, wt)), p))"

definition snap_start ::
  "'q penv \<Rightarrow> worker_id \<Rightarrow> function_id \<Rightarrow> sandbox_id \<Rightarrow> waiter option \<Rightarrow> 'q pool
    \<Rightarrow> ('q, snapshot_error) request_result" where
  "snap_start en w fid sid wt p =
     (let p = stop_timer w p in
      bindE (snap_activate w fid sid wt p) (\<lambda>_ p.
        let timer_info = map_option (\<lambda>d. \<lparr>ts_pause = pe_now en, pt_deadline = d\<rparr>) (worker_deadlines p w);
            p = p\<lparr>worker_deadlines := (worker_deadlines p)(w := None)\<rparr> in
        case map_of (worker_handles p) w of
          None \<Rightarrow> (Inl (Panic ''already retrieved earlier''), p)
        | Some _ \<Rightarrow>
            matchE (send_control en w (CtlCreateSnapshot sid) p)
              (\<lambda>e p. (Inl (Err (SnapInternal ''channel'' (Some (WorkerErr e)), wt)), p))
              (\<lambda>_ p.
                (Inr (), set_pending (\<lambda>pc. pc\<lparr>op_by_worker := (op_by_worker pc)(w \<mapsto> OpSnapshot),
                   pending_snapshots := AList.update sid
                     \<lparr>ps_timer_info = timer_info,
                      ps_respond_to = (case wt of None \<Rightarrow> [] | Some t \<Rightarrow> [t])\<rparr> (pending_snapshots pc)\<rparr>) p))))"

definition request_snapshotting ::
  "'q penv \<Rightarrow> sandbox_id \<Rightarrow> waiter option \<Rightarrow> 'q pool \<Rightarrow> ('q, snapshot_error) request_result" where
  "request_snapshotting en sid wt p =
     (if snapshots_disabled p then (Inl (Err (SnapDisabled, wt)), p)
      else
        (case worker_by_sandbox p sid of
           None \<Rightarrow> (Inl (Err (UnassignedSandboxId sid, wt)), p)
         | Some w \<Rightarrow>
             (case map_of (worker_handles p) w of
                None \<Rightarrow> (Inl (Panic ''exists in `sandboxes_by_worker`; should be here too''), p)
              | Some h \<Rightarrow>
                  (case op_by_worker (pending p) w of
                     None \<Rightarrow> snap_start en w (wh_function_id h) sid wt p
                   | Some OpSnapshot \<Rightarrow>
                       (case wt of
                          None \<Rightarrow> (Inr (), p)
                        | Some t \<Rightarrow>
                            (case map_of (pending_snapshots (pending p)) sid of
                               None \<Rightarrow> (Inl (Panic ''snapshotting context must exist while PendingControlOp::Snapshot''), p)
                             | Some ps \<Rightarrow>
                                 (Inr (), set_pending (\<lambda>pc. pc\<lparr>pending_snapshots := AList.update sid
                                    (ps\<lparr>ps_respond_to := ps_respond_to ps @ [t]\<rparr>) (pending_snapshots pc)\<rparr>) p)))
                   | Some OpPrepareSandbox \<Rightarrow> (Inl (Err (SnapBusy ''being created/warmed-up'', wt)), p)
                   | Some OpDestroySandbox \<Rightarrow> (Inl (Err (SnapBusy ''being destroyed'', wt)), p)))))"

text \<open>An error goes to the waiter that came back with it; without one it is only logged.\<close>

definition answer_error ::
  "('e \<Rightarrow> control_reply) \<Rightarrow> ('q, 'e) request_result \<Rightarrow> ('q, unit) pool_result" where
  "answer_error mk r =
     matchE r
       (\<lambda>(e, wt) p. (Inr (), case wt of None \<Rightarrow> p | Some t \<Rightarrow> reply_all [t] (mk e) p))
       (\<lambda>_ p. (Inr (), p))"

definition handle_control :: "'q penv \<Rightarrow> pool_control_message \<Rightarrow> 'q pool \<Rightarrow> ('q, unit) pool_result" where
  "handle_control en msg p =
     (case msg of
        PcPrepareSandbox fid opts t \<Rightarrow>
          answer_error (\<lambda>e. PrepReply (Inl e)) (request_sandbox_prep en fid opts (Some t) p)
      | PcDestroySandbox sid opts t \<Rightarrow>
          answer_error (\<lambda>e. DestrReply (Inl e)) (request_sandbox_destr en sid opts (Some t) p)
      | PcListSandboxes t \<Rightarrow> (Inl (Panic ''not yet implemented''), p)
      | PcCreateSnapshot sid t \<Rightarrow>
          answer_error (\<lambda>e. SnapReply (Inl e)) (request_snapshotting en sid (Some t) p))"

section \<open>Completion\<close>

record prepare_result =
  pr_worker_id :: worker_id
  pr_function_id :: function_id
  pr_result :: "string + (sandbox_id \<times> bool \<times> sandbox_stats)"

record snapshot_result =
  sr_worker_id :: worker_id
  sr_function_id :: function_id
  sr_sandbox_id :: sandbox_id
  sr_result :: "string + unit"

text \<open>The waiter of a preparation is answered and the operation is dropped.\<close>

definition finish_prep :: "worker_id \<Rightarrow> (prepare_error + sandbox_info) \<Rightarrow> 'q pool \<Rightarrow> 'q pool" where
  "finish_prep w result p =
     (let wt = Option.bind (map_of (sandbox_preps (pending p)) w) pp_respond_to;
          p = set_pending (\<lambda>pc. pc\<lparr>sandbox_preps := AList.delete w (sandbox_preps pc)\<rparr>) p;
          p = (case wt of None \<Rightarrow> p | Some t \<Rightarrow> reply_all [t] (PrepReply result) p) in
      set_pending (\<lambda>pc. pc\<lparr>op_by_worker := (op_by_worker pc)(w := None)\<rparr>) p)"

definition finalize_sandbox_preparation ::
  "'q penv \<Rightarrow> prepare_result \<Rightarrow> 'q pool \<Rightarrow> ('q, unit) pool_result" where
  "finalize_sandbox_preparation en resp p =
     (let now = pe_now en; w = pr_worker_id resp; fid = pr_function_id resp in
      bindE (matchE (pool_cpu_release en w p) (\<lambda>e p. (Inr (Some e), p)) (\<lambda>_ p. (Inr None, p))) (\<lambda>cpu_err p.
        case pr_result resp of
          Inl msg \<Rightarrow>
            ((case cpu_err of None \<Rightarrow> Inr () | Some e \<Rightarrow> Inl (Err e)), finish_prep w (Inl (PrepWorker msg)) p)
        | Inr (sid, has_snapshot, stats) \<Rightarrow>
            bindE (matchE
                (case Option.bind (map_of (sandbox_preps (pending p)) w) pp_keepalive_hint of
                   Some d \<Rightarrow> deactivate_worker en w fid (Some (now + d)) p
                 | None \<Rightarrow> deactivate_worker_per_keepalive en w fid now p)
                (\<lambda>e p. (Inr (Some e), p)) (\<lambda>_ p. (Inr cpu_err, p))) (\<lambda>err p.
              case err of
                None \<Rightarrow>
                  (Inr (), finish_prep w
                     (Inr \<lparr>si_sandbox_id = sid, si_function_id = fid, si_state = CsIdle,
                           si_has_snapshot = has_snapshot, si_stats = Some stats\<rparr>) p)
              | Some e \<Rightarrow>
                  (Inl (Err e), finish_prep w
                     (Inl (PrepInternal ''Pool-side post-PrepareSandbox processing failed'' None)) p))))"

definition snap_reply :: "string + unit \<Rightarrow> control_reply" where
  "snap_reply r = SnapReply (case r of Inl msg \<Rightarrow> Inl (SnapshotWorker msg) | Inr _ \<Rightarrow> Inr ())"

definition finalize_snapshotting ::
  "'q penv \<Rightarrow> snapshot_result \<Rightarrow> 'q pool \<Rightarrow> ('q, unit) pool_result" where
  "finalize_snapshotting en resp p =
     (let now = pe_now en; w = sr_worker_id resp; fid = sr_function_id resp; sid = sr_sandbox_id resp;
          pending_op = map_of (pending_snapshots (pending p)) sid;
          p = set_pending (\<lambda>pc. pc\<lparr>pending_snapshots := AList.delete sid (pending_snapshots pc)\<rparr>) p;
          finish = (\<lambda>p.
            let p = (case pending_op of None \<Rightarrow> p
                     | Some op \<Rightarrow> reply_all (ps_respond_to op) (snap_reply (sr_result resp)) p) in
            set_pending (\<lambda>pc. pc\<lparr>op_by_worker := (op_by_worker pc)(w := None)\<rparr>) p) in
      matchE
        (case Option.bind pending_op ps_timer_info of
           Some ti \<Rightarrow> deactivate_worker en w fid (Some (pt_deadline ti + (now - ts_pause ti))) p
         | None \<Rightarrow> deactivate_worker_per_keepalive en w fid now p)
        (\<lambda>e p. (Inl (Err e), finish p)) (\<lambda>_ p. (Inr (), finish p)))"

section \<open>Completion during shutdown\<close>

definition finalize_sandbox_preparation_during_shutdown ::
  "'q penv \<Rightarrow> prepare_result \<Rightarrow> 'q pool \<Rightarrow> ('q, unit) pool_result" where
  "finalize_sandbox_preparation_during_shutdown en resp p =
     (let w = pr_worker_id resp;
          result = (case pr_result resp of
              Inl msg \<Rightarrow> Inl (PrepWorker msg)
            | Inr (sid, has_snapshot, stats) \<Rightarrow>
                Inr \<lparr>si_sandbox_id = sid, si_function_id = pr_function_id resp, si_state = CsDying,
                     si_has_snapshot = has_snapshot, si_stats = Some stats\<rparr>) in
      bindE (pool_cpu_try_release en w p)
        (\<lambda>_ p. (Inr (), finish_prep w result p)))"

definition finalize_snapshotting_during_shutdown :: "snapshot_result \<Rightarrow> 'q pool \<Rightarrow> 'q pool" where
  "finalize_snapshotting_during_shutdown resp p =
     (let p = set_pending (\<lambda>pc. pc\<lparr>op_by_worker := (op_by_worker pc)(sr_worker_id resp := None)\<rparr>) p;
          sid = sr_sandbox_id resp;
          pending_op = map_of (pending_snapshots (pending p)) sid;
          p = set_pending (\<lambda>pc. pc\<lparr>pending_snapshots := AList.delete sid (pending_snapshots pc)\<rparr>) p in
      case pending_op of None \<Rightarrow> p
      | Some op \<Rightarrow> reply_all (ps_respond_to op) (snap_reply (sr_result resp)) p)"

end
