(* ===== verification/Pool_Run.thy ===== *)
theory Pool_Run
  imports Complex_Main Pool_Control
begin

text \<open>
  The event loop of \<^verbatim>\<open>sbpool/pool/mod.rs\<close>: dispatching requests, the messages of the workers,
  one iteration of \<^verbatim>\<open>run\<close> for every branch of its \<^verbatim>\<open>select!\<close>, and the three stages of
  \<^verbatim>\<open>shutdown\<close>. \<^verbatim>\<open>handle_dispatch\<close> is cut in two where the worker has been chosen.
\<close>

section \<open>Dispatching\<close>

definition deny ::
  "'q penv \<Rightarrow> function_id \<Rightarrow> dispatch_response \<Rightarrow> 'q pool \<Rightarrow> ('q, unit) pool_result" where
  "deny en fid resp p =
     (if pe_reply_ok en then (Inr (), p\<lparr>dispatch_replies := dispatch_replies p @ [(fid, resp)]\<rparr>)
      else (Inl (Err (AdmissionUnresponsive ''failed denying request'')), p))"

definition worker_cap :: "registered_function \<Rightarrow> 'q pool \<Rightarrow> nat" where
  "worker_cap func p =
     (case Option.bind (rf_admission func) ao_max_live_instances of
        None \<Rightarrow> default_worker_cap p | Some n \<Rightarrow> n)"

datatype dispatch_choice = Denied dispatch_response | Chosen worker_id

definition dispatch_choose ::
  "'q penv \<Rightarrow> function_id \<Rightarrow> dispatch_mode \<Rightarrow> 'q pool \<Rightarrow> ('q, dispatch_choice) pool_result" where
  "dispatch_choose en fid mode p =
     (case pick_idle_worker fid p of
        Inl e \<Rightarrow> (Inl e, p)
      | Inr (Some w) \<Rightarrow>
          bindE (on_store (remove_idle_worker w fid) p) (\<lambda>found p.
            if found then (Inr (Chosen w), p)
            else (Inl (Panic ''Worker just found to be tracked as Idle''), p))
      | Inr None \<Rightarrow>
          if mode = ReuseIdleOnly then (Inr (Denied no_idle_worker), p)
          else
            bindE (read_store (get_registered_function fid) p) (\<lambda>func p.
              if num_idle (Some fid) (store p) + num_active (Some fid) (store p) \<ge> worker_cap func p
              then (Inr (Denied function_worker_cap), p)
              else
                bindE
                  (if fits (lib_bu en) (memory p) (fi_memory (rf_info func))
                   then (case pick_orphan_snapshot fid p of (sb, p) \<Rightarrow>
                           bindE (spawn_new_worker en fid sb p) (\<lambda>w p. (Inr (Some w), p)))
                   else (Inr None, p))
                  (\<lambda>new p.
                    bindE (evict_if_high en p) (\<lambda>_ p.
                      case new of
                        Some w \<Rightarrow> (Inr (Chosen w), p)
                      | None \<Rightarrow> (Inr (Denied oom), p)))))"

definition cleanup_failed_dispatch ::
  "'q penv \<Rightarrow> worker_id \<Rightarrow> instant option \<Rightarrow> 'q pool \<Rightarrow> ('q, unit) pool_result" where
  "cleanup_failed_dispatch en w old_deadline p =
     (case map_of (worker_handles p) w of
        None \<Rightarrow> (Inl (Panic ''must have just been inserted to SandboxPool.worker_handles''), p)
      | Some h \<Rightarrow>
          (let fid = wh_function_id h in
           bindE (read_store (function_memory fid) p) (\<lambda>k p.
             let p = p\<lparr>memory := (memory p)\<lparr>mem_inuse := bu_sub (lib_bu en) (mem_inuse (memory p)) k\<rparr>\<rparr> in
             bindE (pool_cpu_release en w p) (\<lambda>_ p.
               let d = (case old_deadline of Some d \<Rightarrow> d
                        | None \<Rightarrow> pe_now en + (case pe_assign en fid of None \<Rightarrow> 0 | Some d \<Rightarrow> d)) in
               bindE (on_store (worker_active_to_idle w (Some fid)) p) (\<lambda>_ p.
                 let p = p\<lparr>worker_deadlines := (worker_deadlines p)(w \<mapsto> d)\<rparr> in
                 (Inl (Err (AdmissionUnresponsive ''failed to send WorkerRef'')), spawn_timer w d p))))))"

definition dispatch_assign ::
  "'q penv \<Rightarrow> function_id \<Rightarrow> worker_id \<Rightarrow> 'q pool \<Rightarrow> ('q, unit) pool_result" where
  "dispatch_assign en fid w p =
     (let p = stop_timer w p in
      bindE (on_store (insert_active_worker w fid) p) (\<lambda>_ p.
      bindE (pool_cpu_alloc en w p) (\<lambda>cpu p.
        case map_of (worker_handles p) w of
          None \<Rightarrow> (Inl (Panic ''WorkerHandle must be present by now''), p)
        | Some _ \<Rightarrow>
            (let old_deadline = worker_deadlines p w;
                 p = p\<lparr>worker_deadlines := (worker_deadlines p)(w := None)\<rparr> in
             bindE (on_store (update_stats (\<lambda>st. st\<lparr>dispatches := dispatches st + 1\<rparr>) fid) p) (\<lambda>_ p.
               if pe_reply_ok en
               then (Inr (), p\<lparr>dispatch_replies := dispatch_replies p @ [(fid, Dispatch w cpu)]\<rparr>)
               else cleanup_failed_dispatch en w old_deadline p)))))"

definition handle_dispatch ::
  "'q penv \<Rightarrow> function_id \<Rightarrow> dispatch_mode \<Rightarrow> 'q pool \<Rightarrow> ('q, unit) pool_result" where
  "handle_dispatch en fid mode p =
     (if \<not> function_exists fid (store p) then deny en fid unknown_function p
      else
        bindE (on_store (update_stats (\<lambda>st. st\<lparr>dispatch_attempts := dispatch_attempts st + 1\<rparr>) fid) p) (\<lambda>_ p.
        bindE (dispatch_choose en fid mode p) (\<lambda>ch p.
          case ch of
            Denied resp \<Rightarrow> deny en fid resp p
          | Chosen w \<Rightarrow> dispatch_assign en fid w p)))"

section \<open>The event loop\<close>

datatype outbound_message =
  MsgSandboxId worker_id sandbox_id
| MsgNeedWork worker_id function_id
| MsgReapMe worker_id function_id
| MsgSandboxPreparation prepare_result
| MsgSnapshotCreation snapshot_result

definition handle_worker_status ::
  "'q penv \<Rightarrow> outbound_message \<Rightarrow> 'q pool \<Rightarrow> ('q, unit) pool_result" where
  "handle_worker_status en msg p =
     (case msg of
        MsgSandboxId w sid \<Rightarrow> update_sandbox_id w sid p
      | MsgNeedWork w fid \<Rightarrow> on_need_work en w fid p
      | MsgReapMe w fid \<Rightarrow> reap_worker en w fid p
      | MsgSandboxPreparation resp \<Rightarrow> finalize_sandbox_preparation en resp p
      | MsgSnapshotCreation resp \<Rightarrow> finalize_snapshotting en resp p)"

datatype pool_input =
  InQuit
| InTimer worker_id
| InWorker outbound_message
| InSnapman
| InDispatch function_id dispatch_mode
| InControl pool_control_message
| InAdmissionClosed

datatype loop_step = LoopAgain | LoopBreak | LoopPanics string

definition break_on_error :: "('q, unit) pool_result \<Rightarrow> loop_step \<times> 'q pool" where
  "break_on_error r =
     (case r of (Inl (Panic m), p) \<Rightarrow> (LoopPanics m, p) | (Inl (Err _), p) \<Rightarrow> (LoopBreak, p)
      | (Inr _, p) \<Rightarrow> (LoopAgain, p))"

definition pool_iter :: "'q penv \<Rightarrow> pool_input \<Rightarrow> 'q pool \<Rightarrow> loop_step \<times> 'q pool" where
  "pool_iter en inp p =
     (case inp of
        InQuit \<Rightarrow> (LoopBreak, p)
      | InTimer w \<Rightarrow> break_on_error (decommission_idle_worker en w None p)
      | InWorker msg \<Rightarrow> break_on_error (handle_worker_status en msg p)
      | InSnapman \<Rightarrow> (LoopAgain, p)
      | InDispatch fid mode \<Rightarrow> break_on_error (handle_dispatch en fid mode p)
      | InControl msg \<Rightarrow>
          (case handle_control en msg p of
             (Inl (Panic m), p) \<Rightarrow> (LoopPanics m, p)
           | (_, p) \<Rightarrow> (LoopAgain, p))
      | InAdmissionClosed \<Rightarrow> (LoopBreak, p))"

section \<open>Shutdown\<close>

text \<open>Every idle worker is decommissioned, then every active worker is moved to Dying and told to stop.\<close>

definition retire_active :: "'q penv \<Rightarrow> function_id \<times> worker_id \<Rightarrow> 'q pool \<Rightarrow> ('q, unit) pool_result" where
  "retire_active en x p =
     (case x of (fid, w) \<Rightarrow> bindE (active_worker_to_dying en w fid p) (\<lambda>_ p. worker_shutdown en w p))"

definition shutdown_begin :: "'q penv \<Rightarrow> 'q pool \<Rightarrow> ('e fault + unit) \<times> 'q pool" where
  "shutdown_begin en p =
     bindE (for_each (\<lambda>(fid, w). decommission_idle_worker en w (Some fid)) (iter_idle (store p)) p)
       (\<lambda>_ p. for_each (retire_active en) (iter_active (store p)) p)"

datatype shutdown_input =
  ShDispatch function_id
| ShWorker "outbound_message option"
| ShTick

definition keep_going :: "('e fault + 'a) \<times> 'q pool \<Rightarrow> loop_step \<times> 'q pool" where
  "keep_going r = (case r of (Inl (Panic m), p) \<Rightarrow> (LoopPanics m, p) | (_, p) \<Rightarrow> (LoopAgain, p))"

definition shutdown_iter :: "'q penv \<Rightarrow> shutdown_input \<Rightarrow> 'q pool \<Rightarrow> loop_step \<times> 'q pool" where
  "shutdown_iter en inp p =
     (case inp of
        ShDispatch fid \<Rightarrow>
          (LoopAgain, if pe_reply_ok en
                      then p\<lparr>dispatch_replies := dispatch_replies p @ [(fid, shutting_down)]\<rparr> else p)
      | ShWorker None \<Rightarrow> (LoopBreak, p)
      | ShWorker (Some msg) \<Rightarrow>
          (case msg of
             MsgSandboxId w sid \<Rightarrow> keep_going (update_sandbox_id w sid p)
           | MsgNeedWork w fid \<Rightarrow> keep_going (pool_cpu_release en w p)
           | MsgReapMe w fid \<Rightarrow> keep_going (reap_worker en w fid p)
           | MsgSandboxPreparation resp \<Rightarrow>
               keep_going (finalize_sandbox_preparation_during_shutdown en resp p
                 :: (pool_error fault + unit) \<times> _)
           | MsgSnapshotCreation resp \<Rightarrow> (LoopAgain, finalize_snapshotting_during_shutdown resp p))
      | ShTick \<Rightarrow> (if iter_all (store p) = [] then LoopBreak else LoopAgain, p))"

definition destroy_orphan_sandbox ::
  "'q penv \<Rightarrow> function_id \<Rightarrow> sandbox \<Rightarrow> 'q pool \<Rightarrow> ('q, unit) pool_result" where
  "destroy_orphan_sandbox en fid sb p =
     bindE (read_store (get_registered_function fid) p) (\<lambda>_ p.
       case pe_orphan en sb of
         OrphanRuntimeFailed msg \<Rightarrow> (Inl (Err (RuntimeErr msg)), p)
       | OrphanTrashed sb' \<Rightarrow>
           (Inl (Err (RuntimeErr ''runtime failed to destroy sandbox'')),
            p\<lparr>trashed_sandboxes := trashed_sandboxes p @ [sb']\<rparr>)
       | OrphanNetFailed \<Rightarrow> (Inl (Err (NetworkErr ''failed to queue net resource deallocation'')), p)
       | OrphanDestroyed \<Rightarrow> (Inr (), p))"

definition shutdown_finish :: "'q penv \<Rightarrow> 'q pool \<Rightarrow> ('e fault + unit) \<times> 'q pool" where
  "shutdown_finish en p =
     (if \<not> retain_snapshots p
      then
        bindE (for_each (\<lambda>(fid, sb). destroy_orphan_sandbox en fid sb)
                 (concat (map (\<lambda>(fid, sbs). map (Pair fid) sbs) (snapshots p))) (p\<lparr>snapshots := []\<rparr>))
          (\<lambda>_ p. (Inr (), p\<lparr>db_ops := db_ops p @ [DbWipeSnapshots]\<rparr>))
      else (Inr (), p\<lparr>db_ops := db_ops p @ [DbSyncSnapshots]\<rparr>))"

section \<open>Start\<close>

text \<open>
  The part of the configuration that \<^verbatim>\<open>SandboxPool::spawn\<close> reads. A watermark is the value of an
  \<^verbatim>\<open>f64\<close>, \<open>None\<close> when it is not finite; \<open>pct\<close> is the floating-point product of the memory and a watermark,
  truncated to an integer. \<open>reinstated\<close> is what \<^verbatim>\<open>reinstate_snapshots_from_db\<close> returned.
\<close>

record pool_config =
  cfg_retain_snapshots :: bool
  cfg_snapshots_disabled :: bool
  cfg_cpuset :: string
  cfg_max_memory :: nat
  cfg_lo_watermark :: "rat option"
  cfg_hi_watermark :: "rat option"
  cfg_default_worker_cap :: nat

definition watermarks_ok :: "pool_config \<Rightarrow> bool" where
  "watermarks_ok cfg =
     (case (cfg_lo_watermark cfg, cfg_hi_watermark cfg) of
        (Some lo, Some hi) \<Rightarrow> \<not> lo < 0 \<and> \<not> lo > hi \<and> \<not> hi > 1
      | _ \<Rightarrow> False)"

definition pool_new ::
  "'q pq_ops \<Rightarrow> (nat \<Rightarrow> rat option \<Rightarrow> nat) \<Rightarrow> string option \<Rightarrow> pool_config \<Rightarrow> fmd_store
    \<Rightarrow> string + (function_id \<times> sandbox list) list \<Rightarrow> string fault + 'q pool" where
  "pool_new pq pct status cfg st reinstated =
     (if \<not> watermarks_ok cfg
      then Inl (Err ''eviction watermark percentages must be: 0.0 <= low <= high <= 1.0'')
      else
        (case cpuset_new pq status (cfg_cpuset cfg) of
           Inl (Panic m) \<Rightarrow> Inl (Panic m)
         | Inl (Err _) \<Rightarrow> Inl (Err ''failed to initialize CpuSetManager'')
         | Inr cs \<Rightarrow>
             (case (if cfg_retain_snapshots cfg then reinstated else Inr []) of
                Inl _ \<Rightarrow> Inl (Err ''failed to reinstate snapshots from database'')
              | Inr sbs \<Rightarrow>
                  Inr \<lparr>retain_snapshots = cfg_retain_snapshots cfg,
                       snapshots_disabled = cfg_snapshots_disabled cfg,
                       default_worker_cap = cfg_default_worker_cap cfg,
                       cpuset = cs,
                       memory = \<lparr>mem_total = cfg_max_memory cfg, mem_inuse = 0, mem_reclaimed = 0,
                                 eviction_thres_hi = pct (cfg_max_memory cfg) (cfg_hi_watermark cfg),
                                 eviction_thres_lo = pct (cfg_max_memory cfg) (cfg_lo_watermark cfg)\<rparr>,
                       store = st, timers = Map.empty, worker_handles = [], worker_deadlines = Map.empty,
                       worker_by_sandbox = Map.empty, snapshots = sbs, trashed_sandboxes = [],
                       pending = \<lparr>op_by_worker = Map.empty, sandbox_preps = [], sandbox_destrs = [],
                                  pending_snapshots = []\<rparr>,
                       admission_events = [], dispatch_replies = [], worker_msgs = [],
                       control_replies = [], db_ops = []\<rparr>)))"

end
