(* ===== verification/Pool_Inv.thy ===== *)
theory Pool_Inv
  imports Pool_Run
begin

text \<open>
  The invariant of the pool and its preservation by the operations of \<^verbatim>\<open>Pool\<close>.

  \<open>wp r QE Q\<close> says that a computation does not panic, that an error satisfies \<open>QE\<close> and a normal
  result \<open>Q\<close>; the rules for \<open>bindE\<close>, \<open>matchE\<close> and \<open>for_each\<close> push it through a handler. The invariant
  \<open>pool_ok\<close> is stated over the abstraction of the store (\<open>where_is\<close>, \<open>registered\<close>): which worker is in
  which class for which function, and the registered functions \<open>R\<close>. Its parameter \<open>F\<close> names the worker
  that has been spawned and is not yet in the store and the one whose control operation is being
  finished, if any; \<open>M\<close> says whether memory accounting is included.
\<close>

section \<open>A calculus for fallible handlers\<close>

definition wp ::
  "('e fault + 'a) \<times> 's \<Rightarrow> ('e \<Rightarrow> 's \<Rightarrow> bool) \<Rightarrow> ('a \<Rightarrow> 's \<Rightarrow> bool) \<Rightarrow> bool" where
  "wp r QE Q =
     (case r of (Inl (Panic m), s) \<Rightarrow> False | (Inl (Err e), s) \<Rightarrow> QE e s | (Inr x, s) \<Rightarrow> Q x s)"

lemma wp_simps [simp]:
  "\<not> wp (Inl (Panic m), s) QE Q"
  "wp (Inl (Err e), s) QE Q \<longleftrightarrow> QE e s"
  "wp (Inr x, s) QE Q \<longleftrightarrow> Q x s"
  by (simp_all add: wp_def)

lemma wp_bindE: "wp (bindE r k) QE Q \<longleftrightarrow> wp r QE (\<lambda>x s. wp (k x s) QE Q)"
  by (auto simp: wp_def bindE_def split: prod.split sum.split fault.split)

lemma wp_matchE: "wp (matchE r h k) QE Q \<longleftrightarrow> wp r (\<lambda>e s. wp (h e s) QE Q) (\<lambda>x s. wp (k x s) QE Q)"
  by (auto simp: wp_def matchE_def split: prod.split sum.split fault.split)

lemma wp_conseq:
  "wp r QE Q \<Longrightarrow> (\<And>e s. QE e s \<Longrightarrow> QE' e s) \<Longrightarrow> (\<And>x s. Q x s \<Longrightarrow> Q' x s) \<Longrightarrow> wp r QE' Q'"
  by (auto simp: wp_def split: prod.splits sum.splits fault.splits)

lemma wp_conj:
  "wp r QE Q \<Longrightarrow> wp r QE' Q' \<Longrightarrow> wp r (\<lambda>e s. QE e s \<and> QE' e s) (\<lambda>x s. Q x s \<and> Q' x s)"
  by (auto simp: wp_def split: prod.splits sum.splits fault.splits)

lemma wp_for_each:
  assumes "\<And>x s. x \<in> set xs \<Longrightarrow> I s \<Longrightarrow> wp (f x s) (\<lambda>_. I) (\<lambda>_. I)" and "I s"
  shows "wp (for_each f xs s) (\<lambda>_ _. False) (\<lambda>_. I)"
  using assms
proof (induction xs arbitrary: s)
  case Nil
  then show ?case by simp
next
  case (Cons x xs)
  have "wp (f x s) (\<lambda>_. I) (\<lambda>_. I)" using Cons.prems by simp
  then show ?case
    unfolding for_each.simps wp_matchE by (rule wp_conseq) (simp_all add: Cons)
qed

lemma wp_iff:
  "wp r QE Q \<longleftrightarrow> (\<exists>e s. r = (Inl (Err e), s) \<and> QE e s) \<or> (\<exists>x s. r = (Inr x, s) \<and> Q x s)"
  by (auto simp: wp_def split: prod.splits sum.splits fault.splits)

section \<open>The invariant\<close>

type_synonym tracking = "worker_id \<rightharpoonup> wclass \<times> function_id"
type_synonym registry = "function_id \<rightharpoonup> registered_function"
type_synonym starting = "(worker_id \<times> function_id \<times> mem_accounting) option"

fun acct_ok :: "wclass \<Rightarrow> mem_accounting \<Rightarrow> bool" where
  "acct_ok Active a \<longleftrightarrow> a = MemInUse"
| "acct_ok Idle a \<longleftrightarrow> a = MemInUse"
| "acct_ok Dying a \<longleftrightarrow> a \<noteq> MemInUse"

text \<open>Every handle belongs to a tracked worker, or to the one that is starting, and conversely.\<close>

definition track_at :: "starting \<Rightarrow> worker_id \<Rightarrow> (wclass \<times> function_id) option \<Rightarrow> worker_handle option \<Rightarrow> bool" where
  "track_at E w l ho =
     (case l of
        None \<Rightarrow> (case ho of None \<Rightarrow> (\<forall>x. E \<noteq> Some (w, x))
                 | Some h \<Rightarrow> E = Some (w, wh_function_id h, wh_mem_accounting h))
      | Some (c, fid) \<Rightarrow> (\<forall>x. E \<noteq> Some (w, x)) \<and>
          (case ho of None \<Rightarrow> False
           | Some h \<Rightarrow> wh_function_id h = fid \<and> acct_ok c (wh_mem_accounting h)))"

definition track_inv :: "starting \<Rightarrow> tracking \<Rightarrow> (worker_id \<rightharpoonup> worker_handle) \<Rightarrow> bool" where
  "track_inv E L H \<longleftrightarrow> (\<forall>w. track_at E w (L w) (H w))"

text \<open>The idle workers are exactly those with a keep-alive timer, which runs to their deadline.\<close>

definition idle_inv :: "tracking \<Rightarrow> deadlines \<Rightarrow> deadlines \<Rightarrow> bool" where
  "idle_inv L tm dl \<longleftrightarrow> tm = dl \<and> (\<forall>w. dl w \<noteq> None \<longleftrightarrow> (\<exists>fid. L w = Some (Idle, fid)))"

text \<open>A CPU is held by Active and Dying workers only.\<close>

definition cpu_inv :: "'q pq_ops \<Rightarrow> tracking \<Rightarrow> 'q cpuset_manager \<Rightarrow> bool" where
  "cpu_inv pq L cs \<longleftrightarrow> cpuset_inv pq cs \<and> managed pq cs \<noteq> {}
     \<and> (\<forall>w. cm_allocations cs w \<noteq> None \<longrightarrow> (\<exists>c fid. L w = Some (c, fid) \<and> c \<noteq> Idle))"

definition orphans :: "(function_id \<times> sandbox list) list \<Rightarrow> (function_id \<times> sandbox) multiset" where
  "orphans ss = mset (concat (map (\<lambda>(fid, sbs). map (Pair fid) sbs) ss))"

definition orphan_ids :: "(function_id \<times> sandbox) multiset \<Rightarrow> sandbox_id multiset" where
  "orphan_ids Os = image_mset (\<lambda>x. sb_id (snd x)) Os"

text \<open>
  The reverse index is the inverse of the handles; a sandbox has one owner, a worker or the orphan
  list; orphans belong to registered functions.
\<close>

definition sandbox_inv ::
  "registry \<Rightarrow> (worker_id \<rightharpoonup> worker_handle) \<Rightarrow> (sandbox_id \<rightharpoonup> worker_id) \<Rightarrow> (function_id \<times> sandbox) multiset \<Rightarrow> bool"
where
  "sandbox_inv R H B Os \<longleftrightarrow>
     (\<forall>sid w. B sid = Some w \<longleftrightarrow> (\<exists>h. H w = Some h \<and> wh_sandbox_id h = Some sid))
   \<and> (\<forall>sid. count (orphan_ids Os) sid + (if B sid = None then 0 else 1) \<le> 1)
   \<and> (\<forall>x. x \<in># Os \<longrightarrow> R (fst x) \<noteq> None)"

text \<open>
  A pending operation belongs to a worker that is not idle and has its context. \<open>X\<close> is the worker
  whose operation is being finished: it is parked, and its waiters are taken out, before the
  operation itself is dropped.
\<close>

definition pending_inv ::
  "worker_id option \<Rightarrow> tracking \<Rightarrow> (worker_id \<rightharpoonup> worker_handle) \<Rightarrow> (sandbox_id \<rightharpoonup> worker_id) \<Rightarrow> pending_control \<Rightarrow> bool" where
  "pending_inv X L H B pc \<longleftrightarrow>
     distinct (keys (sandbox_preps pc)) \<and> distinct (keys (sandbox_destrs pc))
   \<and> distinct (keys (pending_snapshots pc))
   \<and> (\<forall>w. op_by_worker pc w \<noteq> None \<longrightarrow> H w \<noteq> None \<and> (X = Some w \<or> (\<forall>fid. L w \<noteq> Some (Idle, fid))))
   \<and> (\<forall>w. map_of (sandbox_destrs pc) w \<noteq> None \<longleftrightarrow> op_by_worker pc w = Some OpDestroySandbox)
   \<and> (\<forall>w. map_of (sandbox_preps pc) w \<noteq> None \<longrightarrow> op_by_worker pc w = Some OpPrepareSandbox)
   \<and> (\<forall>sid. map_of (pending_snapshots pc) sid \<noteq> None
        \<longleftrightarrow> (\<exists>w. B sid = Some w \<and> op_by_worker pc w = Some OpSnapshot \<and> X \<noteq> Some w))
   \<and> (\<forall>w. op_by_worker pc w = Some OpSnapshot \<longrightarrow> (\<exists>sid. B sid = Some w))"

definition rmem :: "registry \<Rightarrow> function_id \<Rightarrow> nat" where
  "rmem R fid = (case R fid of None \<Rightarrow> 0 | Some rf \<Rightarrow> fi_memory (rf_info rf))"

definition charge :: "registry \<Rightarrow> mem_accounting \<Rightarrow> (worker_id \<times> worker_handle) list \<Rightarrow> nat" where
  "charge R a hs =
     sum_list (map (\<lambda>(w, h). if wh_mem_accounting h = a then rmem R (wh_function_id h) else 0) hs)"

text \<open>
  What the live workers are charged for is accounted, and the accounts stay below the configured
  total. The accounts may exceed the charges: trashed sandboxes stay charged for good.
\<close>

definition mem_inv :: "registry \<Rightarrow> (worker_id \<times> worker_handle) list \<Rightarrow> memory_stats \<Rightarrow> bool" where
  "mem_inv R hs m \<longleftrightarrow>
     charge R MemInUse hs \<le> mem_inuse m \<and> charge R MemReclaimed hs \<le> mem_reclaimed m
   \<and> mem_inuse m + mem_reclaimed m \<le> mem_total m \<and> mem_total m < bu_max"

abbreviation handles_of :: "'q pool \<Rightarrow> worker_id \<rightharpoonup> worker_handle" where
  "handles_of p \<equiv> map_of (worker_handles p)"

type_synonym focus = "starting \<times> worker_id option"

abbreviation at_rest :: focus where
  "at_rest \<equiv> (None, None)"

definition pool_ok :: "'q pq_ops \<Rightarrow> bool \<Rightarrow> registry \<Rightarrow> focus \<Rightarrow> 'q pool \<Rightarrow> bool" where
  "pool_ok pq M R F p \<longleftrightarrow>
     store_inv (store p) \<and> registered (store p) = R
   \<and> distinct (keys (worker_handles p)) \<and> distinct (keys (snapshots p))
   \<and> track_inv (fst F) (where_is (store p)) (handles_of p)
   \<and> (\<forall>w fid a. fst F = Some (w, fid, a) \<longrightarrow> R fid \<noteq> None)
   \<and> idle_inv (where_is (store p)) (timers p) (worker_deadlines p)
   \<and> cpu_inv pq (where_is (store p)) (cpuset p)
   \<and> sandbox_inv R (handles_of p) (worker_by_sandbox p) (orphans (snapshots p))
   \<and> pending_inv (snd F) (where_is (store p)) (handles_of p) (worker_by_sandbox p) (pending p)
   \<and> (M \<longrightarrow> mem_inv R (worker_handles p) (memory p))"

text \<open>What the handlers rely on outside the pool.\<close>

definition penv_ok :: "'q penv \<Rightarrow> 'q pool \<Rightarrow> bool" where
  "penv_ok en p \<longleftrightarrow> pq_spec (lib_pq en) \<and> bu_spec (lib_bu en) \<and> eviction_policy (pe_evict en)
     \<and> (\<forall>w. pe_spawn en = Inr w \<longrightarrow> handles_of p w = None)
     \<and> card (dom (cm_allocations (cpuset p))) < 2 ^ 16 - 1"

section \<open>Association lists of handles\<close>

lemma map_of_delete: "map_of (AList.delete k m) = (map_of m)(k := None)"
  by (rule ext) (simp add: delete_conv')

lemma map_of_update: "map_of (AList.update k v m) = (map_of m)(k \<mapsto> v)"
  by (rule ext) (simp add: update_conv')

lemma distinct_keys_delete [simp]: "distinct (keys m) \<Longrightarrow> distinct (keys (AList.delete k m))"
  by (rule distinct_delete)

lemma distinct_keys_update [simp]: "distinct (keys m) \<Longrightarrow> distinct (keys (AList.update k v m))"
  by (rule distinct_update)

lemma charge_update:
  assumes "distinct (keys hs)" "map_of hs w = Some h"
  shows "charge R a (AList.update w h' hs) + (if wh_mem_accounting h = a then rmem R (wh_function_id h) else 0) =
    charge R a hs + (if wh_mem_accounting h' = a then rmem R (wh_function_id h') else 0)"
  using assms
proof (induction hs)
  case Nil
  then show ?case by simp
next
  case (Cons x hs)
  then show ?case by (cases x) (auto simp: charge_def)
qed

lemma charge_update_new:
  "map_of hs w = None \<Longrightarrow> charge R a (AList.update w h' hs) =
    charge R a hs + (if wh_mem_accounting h' = a then rmem R (wh_function_id h') else 0)"
  by (induction hs) (auto simp: charge_def split: if_splits)

lemma delete_notin: "map_of hs w = None \<Longrightarrow> AList.delete w hs = hs"
  by (simp add: delete_id map_of_eq_None_iff)

lemma charge_delete:
  assumes "distinct (keys hs)" "map_of hs w = Some h"
  shows "charge R a hs = charge R a (AList.delete w hs)
    + (if wh_mem_accounting h = a then rmem R (wh_function_id h) else 0)"
  using assms
proof (induction hs)
  case Nil
  then show ?case by simp
next
  case (Cons x hs)
  obtain v g where x: "x = (v, g)" by (cases x)
  show ?case
  proof (cases "v = w")
    case True
    then have "map_of hs w = None" using Cons.prems(1) by (auto simp: x map_of_eq_None_iff)
    then show ?thesis using True Cons.prems(2) by (simp add: x charge_def delete_notin)
  next
    case False
    then show ?thesis using Cons by (simp add: x charge_def)
  qed
qed

section \<open>Effects on the components of the invariant\<close>

lemma track_inv_at: "track_inv E L H \<Longrightarrow> track_at E w (L w) (H w)"
  by (simp add: track_inv_def)

lemma track_inv_upd:
  assumes "track_inv E L H" "track_at E' w l ho" "\<And>v x. v \<noteq> w \<Longrightarrow> E' = Some (v, x) \<longleftrightarrow> E = Some (v, x)"
  shows "track_inv E' (L(w := l)) (H(w := ho))"
proof -
  have "track_at E' v (L v) (H v)" if "v \<noteq> w" for v
    using track_inv_at [OF assms(1), of v] assms(3) [OF that]
    by (auto simp: track_at_def split: option.splits)
  then show ?thesis using assms(2) by (simp add: track_inv_def)
qed

lemma track_invD:
  assumes "track_inv E L H"
  shows "L w = Some (c, fid) \<Longrightarrow> \<exists>h. H w = Some h \<and> wh_function_id h = fid \<and> acct_ok c (wh_mem_accounting h)"
    and "H w = None \<Longrightarrow> L w = None"
    and "E = Some (w, fid, a) \<Longrightarrow> L w = None \<and> (\<exists>h. H w = Some h \<and> wh_function_id h = fid \<and> wh_mem_accounting h = a)"
    and "E = None \<Longrightarrow> H w = Some h \<Longrightarrow> \<exists>c. L w = Some (c, wh_function_id h) \<and> acct_ok c (wh_mem_accounting h)"
    and "L w = Some (c, fid) \<Longrightarrow> E \<noteq> Some (w, g, b)"
  using track_inv_at [OF assms, of w] by (auto simp: track_at_def split: option.splits)

lemma track_inv_move:
  assumes "track_inv E L H" "L w = Some (c, fid)" "H w = Some h" "acct_ok c' a"
  shows "track_inv E (L(w \<mapsto> (c', fid))) (H(w \<mapsto> h\<lparr>wh_mem_accounting := a\<rparr>))"
  using track_inv_at [OF assms(1), of w] assms(2-)
  by (intro track_inv_upd [OF assms(1)]) (auto simp: track_at_def)

lemma track_inv_move_same:
  assumes "track_inv E L H" "L w = Some (c, fid)" "\<And>a. acct_ok c a \<longleftrightarrow> acct_ok c' a"
  shows "track_inv E (L(w \<mapsto> (c', fid))) H"
proof -
  have "track_inv E (L(w \<mapsto> (c', fid))) (H(w := H w))"
    using track_inv_at [OF assms(1), of w] assms(2-)
    by (intro track_inv_upd [OF assms(1)]) (auto simp: track_at_def split: option.splits)
  then show ?thesis by simp
qed

lemma track_inv_start:
  assumes "track_inv (Some (w, fid, a)) L H" "acct_ok c a"
  shows "track_inv None (L(w \<mapsto> (c, fid))) H"
proof -
  have "track_inv None (L(w \<mapsto> (c, fid))) (H(w := H w))"
    using track_inv_at [OF assms(1), of w] assms(2)
    by (intro track_inv_upd [OF assms(1)]) (auto simp: track_at_def split: option.splits)
  then show ?thesis by simp
qed

lemma track_inv_spawn:
  assumes "track_inv None L H" "H w = None"
  shows "track_inv (Some (w, wh_function_id h, wh_mem_accounting h)) L (H(w \<mapsto> h))"
proof -
  have "track_inv (Some (w, wh_function_id h, wh_mem_accounting h)) (L(w := L w)) (H(w \<mapsto> h))"
    using track_inv_at [OF assms(1), of w] assms(2)
    by (intro track_inv_upd [OF assms(1)]) (auto simp: track_at_def split: option.splits)
  then show ?thesis by simp
qed

lemma track_inv_reap:
  assumes "track_inv E L H" "\<And>x. E \<noteq> Some (w, x)"
  shows "track_inv E (L(w := None)) (H(w := None))"
  using assms(2) by (intro track_inv_upd [OF assms(1)]) (auto simp: track_at_def)

lemma track_inv_sandbox:
  assumes "track_inv E L H" "H w = Some h"
  shows "track_inv E L (H(w \<mapsto> h\<lparr>wh_sandbox_id := x\<rparr>))"
proof -
  have "track_inv E (L(w := L w)) (H(w \<mapsto> h\<lparr>wh_sandbox_id := x\<rparr>))"
    using track_inv_at [OF assms(1), of w] assms(2)
    by (intro track_inv_upd [OF assms(1)]) (auto simp: track_at_def split: option.splits)
  then show ?thesis by simp
qed

lemma idle_inv_busy:
  "idle_inv L tm dl \<Longrightarrow> c \<noteq> Idle \<Longrightarrow> idle_inv (L(w \<mapsto> (c, fid))) (tm(w := None)) (dl(w := None))"
  by (auto simp: idle_inv_def)

lemma idle_inv_idle:
  "idle_inv L tm dl \<Longrightarrow> idle_inv (L(w \<mapsto> (Idle, fid))) (tm(w \<mapsto> d)) (dl(w \<mapsto> d))"
  by (auto simp: idle_inv_def)

lemma idle_inv_gone: "idle_inv L tm dl \<Longrightarrow> idle_inv (L(w := None)) (tm(w := None)) (dl(w := None))"
  by (auto simp: idle_inv_def)

lemma idle_invD:
  assumes "idle_inv L tm dl"
  shows "tm = dl" and "dl w \<noteq> None \<longleftrightarrow> (\<exists>fid. L w = Some (Idle, fid))"
  using assms by (auto simp: idle_inv_def)

lemma idle_inv_none:
  assumes "idle_inv L tm dl" "\<And>fid. L w \<noteq> Some (Idle, fid)"
  shows "dl w = None" "tm w = None" "tm(w := None) = tm" "dl(w := None) = dl"
proof -
  show 1: "dl w = None" using idle_invD(2) [OF assms(1), of w] assms(2) by blast
  show 2: "tm w = None" using 1 idle_invD(1) [OF assms(1)] by simp
  show "tm(w := None) = tm" "dl(w := None) = dl" using 1 2 by (auto simp: fun_eq_iff)
qed

lemma cpu_inv_move:
  "cpu_inv pq L cs \<Longrightarrow> c \<noteq> Idle \<or> cm_allocations cs w = None \<Longrightarrow> cpu_inv pq (L(w \<mapsto> (c, fid))) cs"
  by (auto simp: cpu_inv_def)

lemma cpu_inv_gone:
  "cpu_inv pq L cs \<Longrightarrow> cm_allocations cs w = None \<Longrightarrow> cpu_inv pq (L(w := None)) cs"
  by (auto simp: cpu_inv_def)

lemma sandbox_invI:
  assumes "\<And>sid w. B sid = Some w \<longleftrightarrow> (\<exists>h. H w = Some h \<and> wh_sandbox_id h = Some sid)"
    and "\<And>sid. count (orphan_ids Os) sid + (if B sid = None then 0 else 1) \<le> 1"
    and "\<And>x. x \<in># Os \<Longrightarrow> R (fst x) \<noteq> None"
  shows "sandbox_inv R H B Os"
  unfolding sandbox_inv_def using assms by blast

lemma sandbox_invD:
  assumes "sandbox_inv R H B Os"
  shows "B sid = Some w \<longleftrightarrow> (\<exists>h. H w = Some h \<and> wh_sandbox_id h = Some sid)"
    and "count (orphan_ids Os) sid + (if B sid = None then 0 else 1) \<le> 1"
    and "x \<in># Os \<Longrightarrow> R (fst x) \<noteq> None"
  using assms unfolding sandbox_inv_def by blast+

lemma orphan_ids_add [simp]: "orphan_ids (add_mset x Os) = add_mset (sb_id (snd x)) (orphan_ids Os)"
  by (simp add: orphan_ids_def)

lemma sandbox_inv_acct:
  assumes "sandbox_inv R H B Os" "H w = Some h"
  shows "sandbox_inv R (H(w \<mapsto> h\<lparr>wh_mem_accounting := a\<rparr>)) B Os"
  using sandbox_invD [OF assms(1)] assms(2) by (intro sandbox_invI) auto

lemma sandbox_inv_spawn_fresh:
  assumes "sandbox_inv R H B Os" "H w = None" "wh_sandbox_id h = None"
  shows "sandbox_inv R (H(w \<mapsto> h)) B Os"
  using sandbox_invD [OF assms(1)] assms(2,3) by (intro sandbox_invI) auto

lemma sandbox_inv_bind:
  assumes "sandbox_inv R H B Os" "B sid = None" "sid \<notin># orphan_ids Os" "wh_sandbox_id h = Some sid"
    and "\<forall>g. H w = Some g \<longrightarrow> wh_sandbox_id g = None"
  shows "sandbox_inv R (H(w \<mapsto> h)) (B(sid \<mapsto> w)) Os"
proof (rule sandbox_invI)
  note D = sandbox_invD [OF assms(1)]
  fix s v
  have "B s = Some v \<longleftrightarrow> (\<exists>g. H v = Some g \<and> wh_sandbox_id g = Some s)" by (rule D(1))
  moreover have "\<not> (\<exists>g. H v = Some g \<and> wh_sandbox_id g = Some sid)" using D(1) [of sid v] assms(2) by simp
  ultimately show "(B(sid \<mapsto> w)) s = Some v \<longleftrightarrow> (\<exists>g. (H(w \<mapsto> h)) v = Some g \<and> wh_sandbox_id g = Some s)"
    using assms(4,5) by (cases "v = w"; cases "s = sid") auto
  show "count (orphan_ids Os) s + (if (B(sid \<mapsto> w)) s = None then 0 else 1) \<le> 1"
    using D(2) [of s] assms(3) by (cases "s = sid") (auto simp: not_in_iff)
qed (rule sandbox_invD(3) [OF assms(1)])

lemma sandbox_inv_drop:
  assumes "sandbox_inv R H B (add_mset x Os)"
  shows "sandbox_inv R H B Os" "B (sb_id (snd x)) = None" "sb_id (snd x) \<notin># orphan_ids Os" "R (fst x) \<noteq> None"
proof -
  note D = sandbox_invD [OF assms]
  have c: "count (orphan_ids Os) s + (if B s = None then 0 else 1) + (if s = sb_id (snd x) then 1 else 0) \<le> 1" for s
    using D(2) [of s] by (auto split: if_splits)
  then have "count (orphan_ids Os) s + (if B s = None then 0 else 1) \<le> 1" for s
    using add_leD1 by blast
  then show "sandbox_inv R H B Os" using D(1,3) by (intro sandbox_invI) auto
  show "B (sb_id (snd x)) = None" "sb_id (snd x) \<notin># orphan_ids Os" "R (fst x) \<noteq> None"
    using c [of "sb_id (snd x)"] D(3) [of x] by (auto simp: not_in_iff split: if_splits)
qed

lemma sandbox_inv_push:
  assumes "sandbox_inv R H B Os" "R (fst x) \<noteq> None" "B (sb_id (snd x)) = None"
    "sb_id (snd x) \<notin># orphan_ids Os"
  shows "sandbox_inv R H B (add_mset x Os)"
proof (rule sandbox_invI)
  note D = sandbox_invD [OF assms(1)]
  show "count (orphan_ids (add_mset x Os)) s + (if B s = None then 0 else 1) \<le> 1" for s
    using D(2) [of s] assms(3,4) by (cases "s = sb_id (snd x)") (auto simp: not_in_iff)
  show "R (fst y) \<noteq> None" if "y \<in># add_mset x Os" for y
    using that assms(2) D(3) [of y] by (cases "y = x") simp_all
qed (rule sandbox_invD(1) [OF assms(1)])

lemma sandbox_inv_owned:
  assumes "sandbox_inv R H B Os" "B sid = Some w"
  shows "sid \<notin># orphan_ids Os"
  using sandbox_invD(2) [OF assms(1), of sid] assms(2) by (simp add: not_in_iff)

lemma sandbox_inv_gone:
  assumes "sandbox_inv R H B Os" "H w = Some h"
  shows "sandbox_inv R (H(w := None)) (case wh_sandbox_id h of None \<Rightarrow> B | Some sid \<Rightarrow> B(sid := None)) Os"
    (is "sandbox_inv R _ ?B Os")
proof (rule sandbox_invI)
  note D = sandbox_invD [OF assms(1)]
  fix s v
  have b: "wh_sandbox_id h = Some s \<longleftrightarrow> B s = Some w" using D(1) [of s w] assms(2) by simp
  have e: "?B s = (if B s = Some w then None else B s)"
  proof (cases "wh_sandbox_id h")
    case None
    then show ?thesis using b by simp
  next
    case (Some t)
    then show ?thesis using b by (cases "t = s") auto
  qed
  show "?B s = Some v \<longleftrightarrow> (\<exists>g. (H(w := None)) v = Some g \<and> wh_sandbox_id g = Some s)"
    unfolding e using D(1) [of s v] by (cases "v = w"; cases "B s = Some w") auto
  show "count (orphan_ids Os) s + (if ?B s = None then 0 else 1) \<le> 1"
    unfolding e using D(2) [of s] by (cases "B s") simp_all
qed (rule sandbox_invD(3) [OF assms(1)])

lemma pending_invD:
  assumes "pending_inv X L H B pc"
  shows "distinct (keys (sandbox_preps pc))" "distinct (keys (sandbox_destrs pc))"
    "distinct (keys (pending_snapshots pc))"
    and "op_by_worker pc w \<noteq> None \<Longrightarrow> H w \<noteq> None"
    and "op_by_worker pc w \<noteq> None \<Longrightarrow> X \<noteq> Some w \<Longrightarrow> L w \<noteq> Some (Idle, fid)"
    and "map_of (sandbox_destrs pc) w \<noteq> None \<longleftrightarrow> op_by_worker pc w = Some OpDestroySandbox"
    and "map_of (sandbox_preps pc) w \<noteq> None \<Longrightarrow> op_by_worker pc w = Some OpPrepareSandbox"
    and "map_of (pending_snapshots pc) sid \<noteq> None
      \<longleftrightarrow> (\<exists>w. B sid = Some w \<and> op_by_worker pc w = Some OpSnapshot \<and> X \<noteq> Some w)"
    and "op_by_worker pc w = Some OpSnapshot \<Longrightarrow> \<exists>sid. B sid = Some w"
  using assms unfolding pending_inv_def by blast+

lemma pending_invI:
  assumes "distinct (keys (sandbox_preps pc))" "distinct (keys (sandbox_destrs pc))"
    "distinct (keys (pending_snapshots pc))"
    and "\<And>w. op_by_worker pc w \<noteq> None \<Longrightarrow> H w \<noteq> None"
    and "\<And>w fid. op_by_worker pc w \<noteq> None \<Longrightarrow> X \<noteq> Some w \<Longrightarrow> L w \<noteq> Some (Idle, fid)"
    and "\<And>w. map_of (sandbox_destrs pc) w \<noteq> None \<longleftrightarrow> op_by_worker pc w = Some OpDestroySandbox"
    and "\<And>w. map_of (sandbox_preps pc) w \<noteq> None \<Longrightarrow> op_by_worker pc w = Some OpPrepareSandbox"
    and "\<And>sid. map_of (pending_snapshots pc) sid \<noteq> None
      \<longleftrightarrow> (\<exists>w. B sid = Some w \<and> op_by_worker pc w = Some OpSnapshot \<and> X \<noteq> Some w)"
    and "\<And>w. op_by_worker pc w = Some OpSnapshot \<Longrightarrow> \<exists>sid. B sid = Some w"
  shows "pending_inv X L H B pc"
  using assms unfolding pending_inv_def by blast

lemma pending_inv_gone:
  assumes "pending_inv None L H B pc" "sandbox_inv R H B Os" "H w = Some h"
  shows "pending_inv None (L(w := None)) (H(w := None))
    (case wh_sandbox_id h of None \<Rightarrow> B | Some sid \<Rightarrow> B(sid := None))
    (pc\<lparr>op_by_worker := (op_by_worker pc)(w := None),
        pending_snapshots := (case wh_sandbox_id h of None \<Rightarrow> pending_snapshots pc
                              | Some sid \<Rightarrow> AList.delete sid (pending_snapshots pc)),
        sandbox_preps := AList.delete w (sandbox_preps pc),
        sandbox_destrs := AList.delete w (sandbox_destrs pc)\<rparr>)"
    (is "pending_inv None _ _ ?B ?pc")
proof (rule pending_invI)
  note D = pending_invD [OF assms(1)]
  have b: "wh_sandbox_id h = Some s \<longleftrightarrow> B s = Some w" for s
    using sandbox_invD(1) [OF assms(2), of s w] assms(3) by simp
  have e: "?B s = (if B s = Some w then None else B s)" for s
    using b [of s] by (cases "wh_sandbox_id h") auto
  have e': "map_of (pending_snapshots ?pc) s = (if B s = Some w then None else map_of (pending_snapshots pc) s)" for s
    using b [of s] by (cases "wh_sandbox_id h") (auto simp: map_of_delete)
  show "map_of (sandbox_destrs ?pc) v \<noteq> None \<longleftrightarrow> op_by_worker ?pc v = Some OpDestroySandbox" for v
    using D(6) [of v] by (simp add: map_of_delete)
  show "op_by_worker ?pc v = Some OpPrepareSandbox" if "map_of (sandbox_preps ?pc) v \<noteq> None" for v
    using D(7) [of v] that by (auto simp: map_of_delete split: if_splits)
  show "map_of (pending_snapshots ?pc) s \<noteq> None
      \<longleftrightarrow> (\<exists>v. ?B s = Some v \<and> op_by_worker ?pc v = Some OpSnapshot \<and> None \<noteq> Some v)" for s
    unfolding e e' using D(8) [of s] by (cases "B s = Some w") auto
  show "\<exists>s. ?B s = Some v" if "op_by_worker ?pc v = Some OpSnapshot" for v
  proof -
    from that have "v \<noteq> w" "op_by_worker pc v = Some OpSnapshot" by (auto split: if_splits)
    then show ?thesis using D(9) [of v] unfolding e by force
  qed
  show "distinct (keys (pending_snapshots ?pc))" using D(3) by (cases "wh_sandbox_id h") simp_all
  show "(H(w := None)) v \<noteq> None" if "op_by_worker ?pc v \<noteq> None" for v
    using D(4) [of v] that by (auto split: if_splits)
  show "(L(w := None)) v \<noteq> Some (Idle, g)" if "op_by_worker ?pc v \<noteq> None" for v g
    using D(5) [of v g] that by (auto split: if_splits)
qed (use pending_invD(1,2) [OF assms(1)] in simp_all)

lemma pending_inv_move:
  assumes "pending_inv X L H B pc" "c \<noteq> Idle \<or> op_by_worker pc w = None \<or> X = Some w" "\<And>v. H v \<noteq> None \<Longrightarrow> H' v \<noteq> None"
  shows "pending_inv X (L(w \<mapsto> (c, fid))) H' B pc"
proof (rule pending_invI)
  note D = pending_invD [OF assms(1)]
  show "H' v \<noteq> None" if "op_by_worker pc v \<noteq> None" for v using assms(3) D(4) [OF that] .
  show "(L(w \<mapsto> (c, fid))) v \<noteq> Some (Idle, g)" if "op_by_worker pc v \<noteq> None" "X \<noteq> Some v" for v g
    using D(5) [OF that] assms(2) that by auto
qed (rule pending_invD [OF assms(1)], assumption?, assumption?)+

lemma pending_inv_handles:
  assumes "pending_inv X L H B pc" "\<And>v. H v \<noteq> None \<Longrightarrow> H' v \<noteq> None"
  shows "pending_inv X L H' B pc"
proof (rule pending_invI)
  show "H' v \<noteq> None" if "op_by_worker pc v \<noteq> None" for v
    using assms(2) pending_invD(4) [OF assms(1) that] .
qed (rule pending_invD [OF assms(1)], assumption?, assumption?)+

lemma pending_inv_bind:
  assumes "pending_inv X L H B pc" "B sid = None" "op_by_worker pc w \<noteq> Some OpSnapshot"
    "\<And>v. H v \<noteq> None \<Longrightarrow> H' v \<noteq> None"
  shows "pending_inv X L H' (B(sid \<mapsto> w)) pc"
proof (rule pending_invI)
  note D = pending_invD [OF assms(1)]
  show "H' v \<noteq> None" if "op_by_worker pc v \<noteq> None" for v using assms(4) D(4) [OF that] .
  show "map_of (pending_snapshots pc) s \<noteq> None
      \<longleftrightarrow> (\<exists>v. (B(sid \<mapsto> w)) s = Some v \<and> op_by_worker pc v = Some OpSnapshot \<and> X \<noteq> Some v)" for s
    using D(8) [of s] assms(2,3) by (cases "s = sid") auto
  show "\<exists>s. (B(sid \<mapsto> w)) s = Some v" if "op_by_worker pc v = Some OpSnapshot" for v
    using D(9) [OF that] assms(2) by (metis fun_upd_other option.distinct(1))
qed (rule pending_invD [OF assms(1)], assumption?, assumption?)+

section \<open>Calls of other components\<close>

lemma wp_on_store:
  "wp (on_store f p) QE Q \<longleftrightarrow>
    wp (f (store p)) (\<lambda>e s. QE (Metadata e) (p\<lparr>store := s\<rparr>)) (\<lambda>x s. Q x (p\<lparr>store := s\<rparr>))"
  by (auto simp: wp_def on_store_def split: prod.split sum.split fault.split)

lemma wp_move_worker:
  assumes "store_inv s" "c \<noteq> c'"
    and "\<And>s'. where_is s w = Some (c, fid) \<Longrightarrow> store_inv s' \<Longrightarrow> where_is s' = (where_is s)(w \<mapsto> (c', fid))
      \<Longrightarrow> registered s' = registered s \<Longrightarrow> Q () s'"
    and "\<And>e. where_is s w \<noteq> Some (c, fid) \<Longrightarrow> QE e s"
  shows "wp (move_worker c c' w (Some fid) s) QE Q"
proof (cases "where_is s w = Some (c, fid)")
  case True
  then show ?thesis using move_worker_ok [OF assms(1) True _ assms(2), of "Some fid"] assms(3) by auto
next
  case False
  have "\<exists>e. move_worker c c' w (Some fid) s = (Inl (Err e), s)"
  proof (cases "\<exists>g. where_is s w = Some (c, g)")
    case True
    then obtain g where g: "where_is s w = Some (c, g)" by blast
    show ?thesis using g False by (intro move_worker_missing [OF assms(1), where fid = g]) auto
  next
    case no: False
    show ?thesis using False no by (intro move_worker_missing [OF assms(1), where fid = fid]) auto
  qed
  then show ?thesis using assms(4) [OF False] by auto
qed

lemma wp_insert_worker:
  assumes "store_inv s" "where_is s w = None" "registered s fid \<noteq> None"
    and "\<And>s'. store_inv s' \<Longrightarrow> where_is s' = (where_is s)(w \<mapsto> (c, fid)) \<Longrightarrow> registered s' = registered s \<Longrightarrow> Q () s'"
  shows "wp (insert_worker c w fid s) QE Q"
  using insert_worker_ok [OF assms(1-3), of c] assms(4) by auto

lemma wp_remove_worker:
  assumes "store_inv s" "registered s fid \<noteq> None"
    and "\<And>s'. where_is s w = Some (c, fid) \<Longrightarrow> store_inv s' \<Longrightarrow> where_is s' = (where_is s)(w := None)
      \<Longrightarrow> registered s' = registered s \<Longrightarrow> Q True s'"
    and "\<And>s'. where_is s w \<noteq> Some (c, fid) \<Longrightarrow> store_inv s' \<Longrightarrow> where_is s' = where_is s
      \<Longrightarrow> registered s' = registered s \<Longrightarrow> Q False s'"
  shows "wp (remove_worker c w fid s) QE Q"
  using remove_worker_ok [OF assms(1,2), of c w] assms(3,4) by (auto split: if_splits)

lemma wp_update_stats:
  assumes "store_inv s" "registered s fid \<noteq> None"
    and "\<And>s'. store_inv s' \<Longrightarrow> where_is s' = where_is s \<Longrightarrow> registered s' = registered s \<Longrightarrow> Q () s'"
  shows "wp (update_stats g fid s) QE Q"
  using update_stats_ok [OF assms(1), of fid g] assms(2,3) by (auto simp: registered_def)

lemma wp_read_memory:
  "registered (store p) fid \<noteq> None \<Longrightarrow> Q (rmem (registered (store p)) fid) p
    \<Longrightarrow> wp (read_store (function_memory fid) p) QE Q"
  by (auto simp: read_store_def function_memory_def store_get_def registered_def rmem_def)

lemma wp_read_function:
  "registered (store p) fid = Some rf \<Longrightarrow> Q rf p \<Longrightarrow> wp (read_store (get_registered_function fid) p) QE Q"
  by (auto simp: read_store_def get_registered_function_def store_get_def registered_def)

lemma function_exists_registered: "function_exists fid s \<longleftrightarrow> registered s fid \<noteq> None"
  by (auto simp: function_exists_def registered_def)

lemmas class_ops =
  worker_active_to_idle_def worker_idle_to_dying_def worker_active_to_dying_def
  insert_active_worker_def insert_dying_worker_def remove_idle_worker_def remove_active_worker_def
  remove_dying_worker_def

end
