(* ===== verification/Pool_Steps.thy ===== *)
theory Pool_Steps
  imports Pool_Inv
begin

text \<open>Preservation of \<open>pool_ok\<close> by the operations of \<^verbatim>\<open>Pool\<close>.\<close>

lemma emit_sel [simp]:
  "store (emit_admission_event en ev p) = store p"
  "timers (emit_admission_event en ev p) = timers p"
  "worker_deadlines (emit_admission_event en ev p) = worker_deadlines p"
  "worker_handles (emit_admission_event en ev p) = worker_handles p"
  "memory (emit_admission_event en ev p) = memory p"
  "cpuset (emit_admission_event en ev p) = cpuset p"
  "worker_by_sandbox (emit_admission_event en ev p) = worker_by_sandbox p"
  "snapshots (emit_admission_event en ev p) = snapshots p"
  "pending (emit_admission_event en ev p) = pending p"
  "control_replies (emit_admission_event en ev p) = control_replies p"
  "dispatch_replies (emit_admission_event en ev p) = dispatch_replies p"
  "worker_msgs (emit_admission_event en ev p) = worker_msgs p"
  by (simp_all add: emit_admission_event_def)

lemma pool_ok_emit [simp]: "pool_ok pq M R F (emit_admission_event en ev p) = pool_ok pq M R F p"
  by (simp add: pool_ok_def)

lemma pool_ok_reply [simp]: "pool_ok pq M R F (reply_all ws r p) = pool_ok pq M R F p"
  by (simp add: pool_ok_def reply_all_def)

lemma pool_ok_logs [simp]:
  "pool_ok pq M R F (p\<lparr>worker_msgs := x\<rparr>) = pool_ok pq M R F p"
  "pool_ok pq M R F (p\<lparr>dispatch_replies := y\<rparr>) = pool_ok pq M R F p"
  "pool_ok pq M R F (p\<lparr>trashed_sandboxes := z\<rparr>) = pool_ok pq M R F p"
  by (simp_all add: pool_ok_def)

lemma pool_okD:
  assumes "pool_ok pq M R F p"
  shows "store_inv (store p)" "registered (store p) = R"
    "distinct (keys (worker_handles p))" "distinct (keys (snapshots p))"
    "track_inv (fst F) (where_is (store p)) (handles_of p)"
    "\<And>w fid a. fst F = Some (w, fid, a) \<Longrightarrow> R fid \<noteq> None"
    "idle_inv (where_is (store p)) (timers p) (worker_deadlines p)"
    "cpu_inv pq (where_is (store p)) (cpuset p)"
    "sandbox_inv R (handles_of p) (worker_by_sandbox p) (orphans (snapshots p))"
    "pending_inv (snd F) (where_is (store p)) (handles_of p) (worker_by_sandbox p) (pending p)"
    "M \<Longrightarrow> mem_inv R (worker_handles p) (memory p)"
  using assms unfolding pool_ok_def by auto

lemma pool_okI:
  assumes "store_inv (store p)" "registered (store p) = R"
    "distinct (keys (worker_handles p))" "distinct (keys (snapshots p))"
    "track_inv (fst F) (where_is (store p)) (handles_of p)"
    "\<And>w fid a. fst F = Some (w, fid, a) \<Longrightarrow> R fid \<noteq> None"
    "idle_inv (where_is (store p)) (timers p) (worker_deadlines p)"
    "cpu_inv pq (where_is (store p)) (cpuset p)"
    "sandbox_inv R (handles_of p) (worker_by_sandbox p) (orphans (snapshots p))"
    "pending_inv (snd F) (where_is (store p)) (handles_of p) (worker_by_sandbox p) (pending p)"
    "M \<Longrightarrow> mem_inv R (worker_handles p) (memory p)"
  shows "pool_ok pq M R F p"
  using assms unfolding pool_ok_def by auto

lemma tracked_registered: "pool_ok pq M R F p \<Longrightarrow> where_is (store p) w = Some (c, fid) \<Longrightarrow> R fid \<noteq> None"
  using std.loc_reg pool_okD(1,2) by metis

lemma tracked_handle:
  assumes "pool_ok pq M R F p" "where_is (store p) w = Some (c, fid)"
  shows "\<exists>h. handles_of p w = Some h \<and> wh_function_id h = fid \<and> acct_ok c (wh_mem_accounting h)"
  using track_invD(1) [OF pool_okD(5) [OF assms(1)] assms(2)] .

lemma read_memory_eq:
  assumes "registered (store p) = R" "R fid \<noteq> None"
  shows "read_store (function_memory fid) p = (Inr (rmem R fid), p)"
  using assms by (auto simp: read_store_def function_memory_def store_get_def registered_def rmem_def)

text \<open>What retiring and parking workers leaves alone.\<close>

definition quiet :: "'q pool \<Rightarrow> 'q pool \<Rightarrow> bool" where
  "quiet p p' \<longleftrightarrow> cpuset p' = cpuset p \<and> pending p' = pending p \<and> snapshots p' = snapshots p
     \<and> worker_by_sandbox p' = worker_by_sandbox p \<and> control_replies p' = control_replies p
     \<and> dispatch_replies p' = dispatch_replies p \<and> mem_total (memory p') = mem_total (memory p)"

lemma quiet_refl [simp]: "quiet p p"
  by (simp add: quiet_def)

lemma quiet_trans: "quiet p q \<Longrightarrow> quiet q r \<Longrightarrow> quiet p r"
  by (simp add: quiet_def)

section \<open>Callers of the control plane\<close>

text \<open>The callers in a table of pending operations, and all callers that wait or have been answered.\<close>

definition callers :: "('v \<Rightarrow> waiter list) \<Rightarrow> ('k \<times> 'v) list \<Rightarrow> waiter multiset" where
  "callers g xs = mset (concat (map (\<lambda>(_, v). g v) xs))"

definition prep_callers :: "pending_prep \<Rightarrow> waiter list" where
  "prep_callers x = (case pp_respond_to x of None \<Rightarrow> [] | Some t \<Rightarrow> [t])"

definition waiting :: "pending_control \<Rightarrow> waiter multiset" where
  "waiting pc = callers prep_callers (sandbox_preps pc) + callers pd_respond_to (sandbox_destrs pc)
     + callers ps_respond_to (pending_snapshots pc)"

definition owed :: "'q pool \<Rightarrow> waiter multiset" where
  "owed p = waiting (pending p) + mset (map fst (control_replies p))"

abbreviation caller :: "waiter option \<Rightarrow> waiter multiset" where
  "caller wt \<equiv> (case wt of None \<Rightarrow> {#} | Some t \<Rightarrow> {#t#})"

lemma callers_update_new:
  "map_of xs k = None \<Longrightarrow> callers g (AList.update k v xs) = callers g xs + mset (g v)"
  by (induction xs) (auto simp: callers_def split: if_splits)

lemma callers_delete:
  assumes "distinct (keys xs)"
  shows "callers g xs = callers g (AList.delete k xs) + (case map_of xs k of None \<Rightarrow> {#} | Some v \<Rightarrow> mset (g v))"
  using assms
proof (induction xs)
  case Nil
  then show ?case by (simp add: callers_def)
next
  case (Cons x xs)
  obtain a v where x: "x = (a, v)" by (cases x)
  show ?case
  proof (cases "a = k")
    case True
    then have "map_of xs k = None" using Cons.prems by (auto simp: x map_of_eq_None_iff)
    then show ?thesis using True by (simp add: x callers_def delete_notin)
  next
    case False
    then show ?thesis using Cons by (simp add: x callers_def)
  qed
qed

lemma callers_update:
  assumes "distinct (keys xs)" "map_of xs k = Some v"
  shows "callers g (AList.update k v' xs) + mset (g v) = callers g xs + mset (g v')"
  using assms
proof (induction xs)
  case (Cons x xs)
  then show ?case by (cases x) (auto simp: callers_def)
qed simp

lemma quiet_owed: "quiet p p' \<Longrightarrow> owed p' = owed p"
  by (simp add: quiet_def owed_def)

lemma owed_cong: "pending p' = pending p \<Longrightarrow> control_replies p' = control_replies p \<Longrightarrow> owed p' = owed p"
  by (simp add: owed_def)

lemma owed_reply_all [simp]: "owed (reply_all ws r p) = owed p + mset ws"
  by (simp add: owed_def reply_all_def comp_def)

lemma owed_reply_opt [simp]:
  "owed (case wt of None \<Rightarrow> p | Some t \<Rightarrow> reply_all [t] r p) = owed p + caller wt"
  by (cases wt) simp_all

section \<open>Retiring a worker\<close>

lemma mem_total_reclaim [simp]: "mem_total (reclaim bu k m) = mem_total m"
  by (simp add: reclaim_def)

lemma mem_inv_reclaim:
  assumes "mem_inv R hs m" "distinct (keys hs)" "map_of hs w = Some h" "wh_mem_accounting h = MemInUse"
    and "bu_spec bu"
  shows "mem_inv R (AList.update w (h\<lparr>wh_mem_accounting := MemReclaimed\<rparr>) hs)
    (reclaim bu (rmem R (wh_function_id h)) m)"
proof -
  let ?k = "rmem R (wh_function_id h)" and ?hs = "AList.update w (h\<lparr>wh_mem_accounting := MemReclaimed\<rparr>) hs"
  have u: "charge R MemInUse ?hs + ?k = charge R MemInUse hs"
    "charge R MemReclaimed ?hs = charge R MemReclaimed hs + ?k"
    using charge_update [OF assms(2,3), of R MemInUse] charge_update [OF assms(2,3), of R MemReclaimed]
      assms(4) by simp_all
  then show ?thesis using assms(1,5) unfolding mem_inv_def reclaim_def by (auto simp: min_def)
qed

text \<open>The state after a worker of class \<open>c\<close> has been moved to Dying.\<close>

lemma pool_ok_retire:
  assumes ok: "pool_ok pq M R F p" and w: "where_is (store p) w = Some (c, fid)" and c: "c \<noteq> Dying"
    and h: "handles_of p w = Some h" and bu: "bu_spec bu"
    and p': "store_inv (store p')" "where_is (store p') = (where_is (store p))(w \<mapsto> (Dying, fid))"
      "registered (store p') = R" "timers p' = (timers p)(w := None)"
      "worker_deadlines p' = (worker_deadlines p)(w := None)"
      "worker_handles p' = AList.update w (h\<lparr>wh_mem_accounting := MemReclaimed\<rparr>) (worker_handles p)"
      "memory p' = reclaim bu (rmem R fid) (memory p)" "cpuset p' = cpuset p"
      "worker_by_sandbox p' = worker_by_sandbox p" "snapshots p' = snapshots p" "pending p' = pending p"
  shows "pool_ok pq M R F p'"
proof (rule pool_okI)
  note D = pool_okD [OF ok]
  have hf: "wh_function_id h = fid" "wh_mem_accounting h = MemInUse"
    using track_invD(1) [OF D(5) w] h c by (cases c; simp)+
  show "track_inv (fst F) (where_is (store p')) (handles_of p')"
    unfolding p' map_of_update by (rule track_inv_move [OF D(5) w h]) simp
  show "cpu_inv pq (where_is (store p')) (cpuset p')"
    unfolding p' by (rule cpu_inv_move [OF D(8)]) simp
  show "sandbox_inv R (handles_of p') (worker_by_sandbox p') (orphans (snapshots p'))"
    unfolding p' map_of_update by (rule sandbox_inv_acct [OF D(9) h])
  show "pending_inv (snd F) (where_is (store p')) (handles_of p') (worker_by_sandbox p') (pending p')"
    unfolding p' map_of_update by (rule pending_inv_move [OF D(10)]) auto
  show "mem_inv R (worker_handles p') (memory p')" if M
    unfolding p' using mem_inv_reclaim [OF D(11) [OF that] D(3) h hf(2) bu] by (simp add: hf)
qed (use pool_okD [OF ok] p' in \<open>simp_all add: idle_inv_busy\<close>)

lemma wp_idle_worker_to_dying:
  assumes ok: "pool_ok pq M R F p" and bu: "bu_spec (lib_bu en)"
  shows "wp (idle_worker_to_dying en w fid p)
    (\<lambda>e p'. p' = p \<and> where_is (store p) w \<noteq> Some (Idle, fid))
    (\<lambda>_ p'. pool_ok pq M R F p' \<and> quiet p p' \<and> where_is (store p) w = Some (Idle, fid)
      \<and> where_is (store p') = (where_is (store p))(w \<mapsto> (Dying, fid)) \<and> worker_msgs p' = worker_msgs p
      \<and> timers p' = (timers p)(w := None) \<and> memory p' = reclaim (lib_bu en) (rmem R fid) (memory p))"
  unfolding idle_worker_to_dying_def wp_bindE wp_on_store class_ops
proof (rule wp_move_worker [OF pool_okD(1) [OF ok]], simp, goal_cases)
  case (1 s)
  obtain h where h: "handles_of p w = Some h" "wh_function_id h = fid"
    using tracked_handle [OF ok 1(1)] by blast
  have r: "R fid \<noteq> None" "registered s = R"
    using tracked_registered [OF ok 1(1)] 1(4) pool_okD(2) [OF ok] by simp_all
  show ?case
    by (simp add: Let_def stop_timer_def set_accounting_def h r read_memory_eq [where R = R] 1(1,3)
        pool_ok_retire [OF ok 1(1) _ h(1) bu] 1(2) quiet_def mem_total_reclaim)
qed simp

lemma wp_active_worker_to_dying:
  assumes ok: "pool_ok pq M R F p" and bu: "bu_spec (lib_bu en)"
  shows "wp (active_worker_to_dying en w fid p)
    (\<lambda>e p'. p' = p \<and> where_is (store p) w \<noteq> Some (Active, fid))
    (\<lambda>_ p'. pool_ok pq M R F p' \<and> quiet p p' \<and> where_is (store p) w = Some (Active, fid)
      \<and> where_is (store p') = (where_is (store p))(w \<mapsto> (Dying, fid)))"
  unfolding active_worker_to_dying_def wp_bindE wp_on_store class_ops
proof (rule wp_move_worker [OF pool_okD(1) [OF ok]], simp, goal_cases)
  case (1 s)
  obtain h where h: "handles_of p w = Some h" "wh_function_id h = fid"
    using tracked_handle [OF ok 1(1)] by blast
  have r: "R fid \<noteq> None" "registered s = R"
    using tracked_registered [OF ok 1(1)] 1(4) pool_okD(2) [OF ok] by simp_all
  have t: "(timers p)(w := None) = timers p"
    by (rule idle_inv_none(3) [OF pool_okD(7) [OF ok]]) (simp add: 1(1))
  show ?case
    by (simp add: Let_def set_accounting_def h r t read_memory_eq [where R = R] 1(1,3)
        pool_ok_retire [OF ok 1(1) _ h(1) bu] 1(2) quiet_def mem_total_reclaim)
qed simp

lemma wp_worker_shutdown:
  assumes "handles_of p w \<noteq> None"
  shows "wp (worker_shutdown en w p) (\<lambda>_ p'. p' = p) (\<lambda>_ p'. p' = p\<lparr>worker_msgs := worker_msgs p @ [(w, CtlShutDown)]\<rparr>)"
  using assms by (auto simp: worker_shutdown_def wp_matchE send_control_def)

lemma wp_worker_destroy:
  assumes "handles_of p w \<noteq> None"
  shows "wp (worker_destroy en w p) (\<lambda>_ p'. p' = p) (\<lambda>_ p'. p' = p\<lparr>worker_msgs := worker_msgs p @ [(w, CtlDestroySandbox)]\<rparr>)"
  using assms by (auto simp: worker_destroy_def wp_matchE send_control_def)

lemma tracked_handle_not_None:
  "pool_ok pq M R F p \<Longrightarrow> where_is (store p) w \<noteq> None \<Longrightarrow> handles_of p w \<noteq> None"
  using tracked_handle by fastforce

text \<open>An idle worker that is decommissioned is Dying afterwards, even when it cannot be told.\<close>

lemma wp_decommission_idle:
  assumes ok: "pool_ok pq M R F p" and bu: "bu_spec (lib_bu en)"
    and l: "where_is (store p) w = Some (Idle, fid)" and fo: "fo \<in> {None, Some fid}"
  shows "wp (decommission_idle_worker en w fo p)
    (\<lambda>_ p'. pool_ok pq M R F p' \<and> quiet p p' \<and> where_is (store p') = (where_is (store p))(w \<mapsto> (Dying, fid))
      \<and> timers p' w = None \<and> \<not> pe_ctl_ok en w \<and> memory p' = reclaim (lib_bu en) (rmem R fid) (memory p))
    (\<lambda>_ p'. pool_ok pq M R F p' \<and> quiet p p' \<and> where_is (store p') = (where_is (store p))(w \<mapsto> (Dying, fid))
      \<and> timers p' w = None \<and> pe_ctl_ok en w \<and> memory p' = reclaim (lib_bu en) (rmem R fid) (memory p)
      \<and> worker_msgs p' = worker_msgs p @ [(w, CtlShutDown)])"
proof -
  have t: "timers p w \<noteq> None"
    using idle_invD(1) [OF pool_okD(7) [OF ok]] idle_invD(2) [OF pool_okD(7) [OF ok], of w] l by simp
  obtain h where "handles_of p w = Some h" "wh_function_id h = fid" using tracked_handle [OF ok l] by blast
  with t fo have e: "decommission_idle_worker en w fo p =
      bindE (idle_worker_to_dying en w fid p) (\<lambda>_ p. worker_shutdown en w p)"
    by (auto simp: decommission_idle_worker_def)
  show ?thesis
    unfolding e wp_bindE
  proof (rule wp_conseq [OF wp_idle_worker_to_dying [OF ok bu, of w fid]], goal_cases)
    case (2 x p1)
    then have "handles_of p1 w \<noteq> None" by (intro tracked_handle_not_None [of pq M R F p1 w]) auto
    then show ?case using 2 by (auto simp: worker_shutdown_def wp_matchE send_control_def quiet_def)
  qed (simp add: l)
qed

lemma wp_decommission:
  assumes ok: "pool_ok pq M R F p" and bu: "bu_spec (lib_bu en)"
  shows "wp (decommission_idle_worker en w fo p)
    (\<lambda>_ p'. pool_ok pq M R F p' \<and> quiet p p') (\<lambda>_ p'. pool_ok pq M R F p' \<and> quiet p p')"
proof (cases "timers p w = None")
  case True
  then have "worker_deadlines p w = None" using idle_invD(1) [OF pool_okD(7) [OF ok]] by simp
  then have "(worker_deadlines p)(w := None) = worker_deadlines p" by (simp add: fun_upd_idem)
  then show ?thesis using True ok by (simp add: decommission_idle_worker_def)
next
  case False
  then have "worker_deadlines p w \<noteq> None" using idle_invD(1) [OF pool_okD(7) [OF ok]] by simp
  then obtain fid where l: "where_is (store p) w = Some (Idle, fid)"
    using idle_invD(2) [OF pool_okD(7) [OF ok]] by blast
  then obtain h where h: "handles_of p w = Some h" using tracked_handle [OF ok] by blast
  have "wp (bindE (idle_worker_to_dying en w g p) (\<lambda>_. worker_shutdown en w))
      (\<lambda>_ p'. pool_ok pq M R F p' \<and> quiet p p') (\<lambda>_ p'. pool_ok pq M R F p' \<and> quiet p p')" for g
    unfolding wp_bindE
  proof (rule wp_conseq [OF wp_idle_worker_to_dying [OF ok bu, of w g]], goal_cases)
    case (2 x p1)
    then have "handles_of p1 w \<noteq> None" by (intro tracked_handle_not_None [of pq M R F p1 w]) auto
    from wp_worker_shutdown [OF this, of en] show ?case
      by (rule wp_conseq) (use 2 in \<open>auto simp: quiet_def\<close>)
  qed (simp add: ok)
  then show ?thesis using False h by (auto simp: decommission_idle_worker_def split: option.split)
qed

lemma pool_ok_evict:
  assumes ok: "pool_ok pq M R F p" and e: "eviction_policy (pe_evict en)"
  shows "\<exists>vs. pe_evict en (store p) (worker_deadlines p) m = Inr vs"
proof -
  have "idle_deadlines (store p) (worker_deadlines p)"
    unfolding idle_deadlines_def
    using idle_invD(2) [OF pool_okD(7) [OF ok]] where_is_iff [OF pool_okD(1) [OF ok]] by blast
  then show ?thesis using eviction_policy.evict_victims [OF e pool_okD(1) [OF ok]] by blast
qed

lemma wp_trigger_eviction:
  assumes ok: "pool_ok pq M R F p" and bu: "bu_spec (lib_bu en)" and e: "eviction_policy (pe_evict en)"
  shows "wp (trigger_eviction_policy en p) (\<lambda>_ _. False)
    (\<lambda>_ p'. pool_ok pq M R F p' \<and> quiet p p')"
proof -
  let ?I = "\<lambda>p'. pool_ok pq M R F p' \<and> quiet p p'"
  obtain vs where v: "pe_evict en (store p) (worker_deadlines p)
      (bu_sub (lib_bu en) (mem_inuse (memory p)) (eviction_thres_lo (memory p))) = Inr vs"
    using pool_ok_evict [OF ok e] by blast
  have "wp (for_each (\<lambda>(fid, w). decommission_idle_worker en w (Some fid)) vs p) (\<lambda>_ _. False) (\<lambda>_. ?I)"
  proof (rule wp_for_each)
    fix x q assume q: "?I q"
    then have i: "pool_ok pq M R F q" "quiet p q" by simp_all
    show "wp ((case x of (fid, w) \<Rightarrow> decommission_idle_worker en w (Some fid)) q) (\<lambda>_. ?I) (\<lambda>_. ?I)"
      unfolding split_beta
      by (rule wp_conseq [OF wp_decommission [OF i(1) bu]]) (use i(2) quiet_trans in blast)+
  qed (simp add: ok)
  then show ?thesis by (simp add: trigger_eviction_policy_def v Let_def)
qed

lemma wp_evict_if_high:
  assumes "pool_ok pq M R F p" "bu_spec (lib_bu en)" "eviction_policy (pe_evict en)"
  shows "wp (evict_if_high en p) (\<lambda>_ _. False)
    (\<lambda>_ p'. pool_ok pq M R F p' \<and> quiet p p')"
  by (simp add: evict_if_high_def wp_trigger_eviction [OF assms] assms(1))

section \<open>CPUs\<close>

lemma wp_cpu_alloc:
  assumes ok: "pool_ok (lib_pq en) M R F p" and pq: "pq_spec (lib_pq en)"
    and w: "where_is (store p) w = Some (Active, fid)" and n: "cm_allocations (cpuset p) w = None"
    and room: "card (dom (cm_allocations (cpuset p))) < 2 ^ 16 - 1"
  shows "\<exists>cpu cs. cpuset_alloc (lib_pq en) w (cpuset p) = (Inr cpu, cs)
    \<and> pool_ok (lib_pq en) M R F (p\<lparr>cpuset := cs\<rparr>)
    \<and> cm_allocations cs = (cm_allocations (cpuset p))(w \<mapsto> cpu) \<and> cpu \<in> managed (lib_pq en) (cpuset p)
    \<and> (\<forall>c' \<in> managed (lib_pq en) (cpuset p). occupants (cpuset p) cpu \<le> occupants (cpuset p) c')"
proof -
  note D = pool_okD [OF ok]
  have ci: "cpuset_inv (lib_pq en) (cpuset p)" "managed (lib_pq en) (cpuset p) \<noteq> {}"
    using D(8) by (simp_all add: cpu_inv_def)
  obtain c cs where a: "cpuset_alloc (lib_pq en) w (cpuset p) = (Inr c, cs)"
    "c \<in> managed (lib_pq en) (cpuset p)"
    "\<forall>c' \<in> managed (lib_pq en) (cpuset p). occupants (cpuset p) c \<le> occupants (cpuset p) c'"
    "cm_allocations cs = (cm_allocations (cpuset p))(w \<mapsto> c)" "cpuset_inv (lib_pq en) cs"
    "managed (lib_pq en) cs = managed (lib_pq en) (cpuset p)"
    using cpuset_alloc_ok [OF pq ci n room] by blast
  have "cpu_inv (lib_pq en) (where_is (store p)) cs"
    using D(8) a(4-) ci(2) w by (auto simp: cpu_inv_def)
  then have "pool_ok (lib_pq en) M R F (p\<lparr>cpuset := cs\<rparr>)" using ok by (simp add: pool_ok_def)
  then show ?thesis using a by blast
qed

lemma pool_cpu_alloc_eq:
  "cpuset_alloc (lib_pq en) w (cpuset p) = (Inr cpu, cs)
    \<Longrightarrow> pool_cpu_alloc en w p = (Inr cpu, p\<lparr>cpuset := cs\<rparr>)"
  by (simp add: pool_cpu_alloc_def)

lemma cpu_release_cases:
  assumes i: "cpu_inv (lib_pq en) L (cpuset p)" and pq: "pq_spec (lib_pq en)"
  shows "cm_allocations (cpuset p) w = None
      \<and> pool_cpu_release en w p = (Inl (Err (CpuSetErr (AllocationNotFound w))), p)
    \<or> (\<exists>cs. cm_allocations (cpuset p) w \<noteq> None \<and> pool_cpu_release en w p = (Inr (), p\<lparr>cpuset := cs\<rparr>)
      \<and> cpu_inv (lib_pq en) L cs \<and> cm_allocations cs = (cm_allocations (cpuset p))(w := None))"
proof (cases "cm_allocations (cpuset p) w")
  case None
  then show ?thesis by (simp add: pool_cpu_release_def cpuset_release_def)
next
  case (Some c)
  have ci: "cpuset_inv (lib_pq en) (cpuset p)" using i by (simp add: cpu_inv_def)
  obtain cs where a: "cpuset_release (lib_pq en) w (cpuset p) = (Inr (), cs)"
    "cm_allocations cs = (cm_allocations (cpuset p))(w := None)" "cpuset_inv (lib_pq en) cs"
    "managed (lib_pq en) cs = managed (lib_pq en) (cpuset p)"
    using cpuset_release_ok [OF pq ci Some] by blast
  have "cpu_inv (lib_pq en) L cs" using i a(2-) by (auto simp: cpu_inv_def)
  then show ?thesis using a Some by (auto simp: pool_cpu_release_def)
qed

lemma pool_ok_cpuset:
  "pool_ok pq M R F p \<Longrightarrow> cpu_inv pq (where_is (store p)) cs \<Longrightarrow> pool_ok pq M R F (p\<lparr>cpuset := cs\<rparr>)"
  by (simp add: pool_ok_def)

lemma wp_cpu_release:
  assumes ok: "pool_ok (lib_pq en) M R F p" and pq: "pq_spec (lib_pq en)"
  shows "wp (pool_cpu_release en w p)
    (\<lambda>e p'. p' = p \<and> cm_allocations (cpuset p) w = None)
    (\<lambda>_ p'. pool_ok (lib_pq en) M R F p' \<and> (\<exists>cs. p' = p\<lparr>cpuset := cs\<rparr> \<and> cm_allocations (cpuset p) w \<noteq> None
      \<and> cm_allocations cs = (cm_allocations (cpuset p))(w := None)))"
  using cpu_release_cases [OF pool_okD(8) [OF ok] pq, of w] pool_ok_cpuset [OF ok] by auto

text \<open>\<open>released en w cs\<close> is the manager after a release that may have failed.\<close>

definition released :: "'q penv \<Rightarrow> worker_id \<Rightarrow> 'q cpuset_manager \<Rightarrow> 'q cpuset_manager" where
  "released en w cs = snd (cpuset_release (lib_pq en) w cs)"

lemma cpu_try_release:
  assumes i: "cpu_inv (lib_pq en) L (cpuset p)" and pq: "pq_spec (lib_pq en)"
  shows "pool_cpu_try_release en w p = (Inr (), p\<lparr>cpuset := released en w (cpuset p)\<rparr>)"
proof (cases "cm_allocations (cpuset p) w")
  case None
  then show ?thesis
    by (simp add: pool_cpu_try_release_def pool_cpu_release_def cpuset_release_def matchE_def released_def)
next
  case (Some c)
  have ci: "cpuset_inv (lib_pq en) (cpuset p)" using i by (simp add: cpu_inv_def)
  obtain cs where a: "cpuset_release (lib_pq en) w (cpuset p) = (Inr (), cs)"
    using cpuset_release_ok [OF pq ci Some] by blast
  then show ?thesis by (simp add: pool_cpu_try_release_def pool_cpu_release_def matchE_def released_def)
qed

lemma released_inv:
  assumes i: "cpu_inv (lib_pq en) L cs" and pq: "pq_spec (lib_pq en)"
  shows "cpu_inv (lib_pq en) L (released en w cs)"
    and "cm_allocations (released en w cs) = (cm_allocations cs)(w := None)"
proof -
  have "cpu_inv (lib_pq en) L (released en w cs)
      \<and> cm_allocations (released en w cs) = (cm_allocations cs)(w := None)"
  proof (cases "cm_allocations cs w")
    case None
    then show ?thesis using i by (simp add: released_def cpuset_release_def fun_upd_idem)
  next
    case (Some c)
    have ci: "cpuset_inv (lib_pq en) cs" using i by (simp add: cpu_inv_def)
    obtain cs' where a: "cpuset_release (lib_pq en) w cs = (Inr (), cs')"
      "cm_allocations cs' = (cm_allocations cs)(w := None)" "cpuset_inv (lib_pq en) cs'"
      "managed (lib_pq en) cs' = managed (lib_pq en) cs"
      using cpuset_release_ok [OF pq ci Some] by blast
    then show ?thesis using i by (auto simp: cpu_inv_def released_def)
  qed
  then show "cpu_inv (lib_pq en) L (released en w cs)"
    "cm_allocations (released en w cs) = (cm_allocations cs)(w := None)" by blast+
qed

lemma wp_cpu_try_release:
  assumes ok: "pool_ok (lib_pq en) M R F p" and pq: "pq_spec (lib_pq en)"
  shows "pool_cpu_try_release en w p = (Inr (), p\<lparr>cpuset := released en w (cpuset p)\<rparr>)"
    and "pool_ok (lib_pq en) M R F (p\<lparr>cpuset := released en w (cpuset p)\<rparr>)"
    and "cm_allocations (released en w (cpuset p)) = (cm_allocations (cpuset p))(w := None)"
  using cpu_try_release [OF pool_okD(8) [OF ok] pq, of w]
    released_inv [OF pool_okD(8) [OF ok] pq, of w] pool_ok_cpuset [OF ok]
  by simp_all

end
