(* ===== verification/Pool_Life.thy ===== *)
theory Pool_Life
  imports Pool_Steps
begin

text \<open>Preservation of \<open>pool_ok\<close> by parking, spawning and reaping workers.\<close>

section \<open>Parking\<close>

lemma pool_ok_park:
  assumes ok: "pool_ok pq M R F p" and w: "where_is (store p) w = Some (Active, fid)"
    and cpu: "cm_allocations (cpuset p) w = None"
    and op: "op_by_worker (pending p) w = None \<or> snd F = Some w"
    and p': "store_inv (store p')" "where_is (store p') = (where_is (store p))(w \<mapsto> (Idle, fid))"
      "registered (store p') = R" "timers p' = (timers p)(w \<mapsto> d)"
      "worker_deadlines p' = (worker_deadlines p)(w \<mapsto> d)" "worker_handles p' = worker_handles p"
      "memory p' = memory p" "cpuset p' = cpuset p" "worker_by_sandbox p' = worker_by_sandbox p"
      "snapshots p' = snapshots p" "pending p' = pending p"
  shows "pool_ok pq M R F p'"
proof (rule pool_okI)
  note D = pool_okD [OF ok]
  show "track_inv (fst F) (where_is (store p')) (handles_of p')"
    unfolding p' by (rule track_inv_move_same [OF D(5) w]) simp
  show "idle_inv (where_is (store p')) (timers p') (worker_deadlines p')"
    unfolding p' by (rule idle_inv_idle [OF D(7)])
  show "cpu_inv pq (where_is (store p')) (cpuset p')"
    unfolding p' by (rule cpu_inv_move [OF D(8)]) (simp add: cpu)
  show "pending_inv (snd F) (where_is (store p')) (handles_of p') (worker_by_sandbox p') (pending p')"
    unfolding p' by (rule pending_inv_move [OF D(10)]) (use op in auto)
qed (use pool_okD [OF ok] p' in simp_all)

lemma wp_deactivate:
  assumes ok: "pool_ok pq M R F p" and bu: "bu_spec (lib_bu en)"
    and cpu: "cm_allocations (cpuset p) w = None"
    and op: "op_by_worker (pending p) w = None \<or> snd F = Some w"
  shows "wp (deactivate_worker en w fid dl p) (\<lambda>_ p'. pool_ok pq M R F p' \<and> quiet p p')
    (\<lambda>_ p'. pool_ok pq M R F p' \<and> quiet p p' \<and> where_is (store p) w = Some (Active, fid)
      \<and> where_is (store p') = (where_is (store p))(w \<mapsto> (if dl = None then Dying else Idle, fid)))"
proof (cases dl)
  case None
  then show ?thesis
    unfolding deactivate_worker_def option.case wp_bindE None
  proof (intro wp_conseq [OF wp_active_worker_to_dying [OF ok bu, of w fid]], goal_cases)
    case (2 x p1)
    then have "handles_of p1 w \<noteq> None" by (intro tracked_handle_not_None [of pq M R F p1 w]) auto
    from wp_worker_shutdown [OF this, of en] show ?case
      by (rule wp_conseq) (use 2 in \<open>auto simp: quiet_def\<close>)
  qed (simp add: ok)
next
  case (Some d)
  show ?thesis
    unfolding deactivate_worker_def option.case wp_bindE wp_on_store class_ops Some
  proof (rule wp_move_worker [OF pool_okD(1) [OF ok]], simp, goal_cases)
    case (1 s)
    then have "registered s = R" using pool_okD(2) [OF ok] by simp
    then show ?case
      using pool_ok_park [OF ok 1(1) cpu op, of _ d] 1
      by (simp add: Let_def spawn_timer_def quiet_def)
  qed (simp add: ok)
qed

lemma wp_on_need_work:
  assumes ok: "pool_ok (lib_pq en) M R at_rest p" and pq: "pq_spec (lib_pq en)" and bu: "bu_spec (lib_bu en)"
  shows "wp (on_need_work en w fid p) (\<lambda>_ p'. pool_ok (lib_pq en) M R at_rest p' \<and> owed p' = owed p)
    (\<lambda>_ p'. pool_ok (lib_pq en) M R at_rest p' \<and> owed p' = owed p)"
  unfolding on_need_work_def wp_bindE
proof (rule wp_conseq [OF wp_cpu_release [OF ok pq, of w]], goal_cases)
  case (2 x p1)
  then have c: "cm_allocations (cpuset p1) w = None" and i: "pool_ok (lib_pq en) M R at_rest p1"
    and o: "owed p1 = owed p" by (auto intro: owed_cong)
  show ?case
  proof (cases "op_by_worker (pending p1) w")
    case None
    then show ?thesis
      unfolding deactivate_worker_per_keepalive_def
      by (simp add: wp_conseq [OF wp_deactivate [OF i bu c, of fid]] o [symmetric] quiet_owed)
  qed (simp add: i o)
qed (simp add: ok)

lemma wp_update_sandbox_id:
  assumes ok: "pool_ok pq M R at_rest p" and h: "handles_of p w = Some h" "wh_sandbox_id h = None"
    and sid: "worker_by_sandbox p sid = None" "sid \<notin># orphan_ids (orphans (snapshots p))"
  shows "wp (update_sandbox_id w sid p) (\<lambda>_ _. False)
    (\<lambda>_ p'. pool_ok pq M R at_rest p' \<and> worker_by_sandbox p' sid = Some w \<and> owed p' = owed p)"
proof -
  note D = pool_okD [OF ok]
  let ?h = "h\<lparr>wh_sandbox_id := Some sid\<rparr>"
  let ?p = "p\<lparr>worker_handles := AList.update w ?h (worker_handles p),
    worker_by_sandbox := (worker_by_sandbox p)(sid \<mapsto> w)\<rparr>"
  have op: "op_by_worker (pending p) w \<noteq> Some OpSnapshot"
    using pending_invD(9) [OF D(10), of w] sandbox_invD(1) [OF D(9), of _ w] h by auto
  have ch: "charge R a (AList.update w ?h (worker_handles p)) = charge R a (worker_handles p)" for a
    using charge_update [OF D(3) h(1), of R a ?h] by (cases "wh_mem_accounting h = a") simp_all
  have "pool_ok pq M R at_rest ?p"
  proof (rule pool_okI)
    show "track_inv (fst at_rest) (where_is (store ?p)) (handles_of ?p)"
      using track_inv_sandbox [OF D(5) h(1)] by (simp add: map_of_update)
    show "sandbox_inv R (handles_of ?p) (worker_by_sandbox ?p) (orphans (snapshots ?p))"
      using sandbox_inv_bind [OF D(9) sid, of ?h w] h by (auto simp: map_of_update)
    show "pending_inv (snd at_rest) (where_is (store ?p)) (handles_of ?p) (worker_by_sandbox ?p) (pending ?p)"
      using pending_inv_bind [OF D(10) sid(1) op, of "(handles_of p)(w \<mapsto> ?h)"]
      by (simp add: map_of_update)
    show "mem_inv R (worker_handles ?p) (memory ?p)" if M
      using D(11) [OF that] by (simp add: mem_inv_def ch)
  qed (use D in simp_all)
  then show ?thesis using h sid by (simp add: update_sandbox_id_def Let_def owed_def)
qed

section \<open>Orphan snapshots\<close>

lemma orphans_update:
  assumes "distinct (keys ss)" "map_of ss fid = Some sbs"
  shows "orphans (AList.update fid sbs' ss) + mset (map (Pair fid) sbs) = orphans ss + mset (map (Pair fid) sbs')"
  using assms
proof (induction ss)
  case Nil
  then show ?case by simp
next
  case (Cons x ss)
  then show ?case by (cases x) (auto simp: orphans_def ac_simps split: if_splits)
qed

lemma orphans_update_new:
  "map_of ss fid = None \<Longrightarrow> orphans (AList.update fid sbs ss) = orphans ss + mset (map (Pair fid) sbs)"
  by (induction ss) (auto simp: orphans_def ac_simps split: if_splits)

lemma mset_remove_nth: "i < length xs \<Longrightarrow> mset xs = add_mset (xs ! i) (mset (remove_nth i xs))"
  unfolding remove_nth_def by (subst id_take_nth_drop [of i xs]) simp_all

lemma orphans_remove:
  assumes "distinct (keys ss)" "map_of ss fid = Some sbs" "i < length sbs"
  shows "orphans ss = add_mset (fid, sbs ! i) (orphans (AList.update fid (remove_nth i sbs) ss))"
  using orphans_update [OF assms(1,2), of "remove_nth i sbs"] mset_remove_nth [OF assms(3)]
  by (simp add: ac_simps)

lemma pick_orphan_cases:
  assumes "distinct (keys (snapshots p))"
  shows "pick_orphan_snapshot fid p = (None, p)
    \<or> (\<exists>sb ss. pick_orphan_snapshot fid p = (Some sb, p\<lparr>snapshots := ss\<rparr>) \<and> distinct (keys ss)
        \<and> orphans (snapshots p) = add_mset (fid, sb) (orphans ss))"
proof (cases "map_of (snapshots p) fid")
  case None
  then show ?thesis by (simp add: pick_orphan_snapshot_def)
next
  case (Some sbs)
  let ?z = "max_by_last (\<lambda>(_, sb). sb_restorations (sb_stats sb)) (zip [0..<length sbs] sbs)"
  show ?thesis
  proof (cases ?z)
    case None
    then show ?thesis using Some by (simp add: pick_orphan_snapshot_def)
  next
    case z: (Some x)
    obtain i sb where x: "x = (i, sb)" by (cases x)
    then have "(i, sb) \<in> set (zip [0..<length sbs] sbs)" using max_by_last_Some [OF z] by simp
    then have i: "i < length sbs" "sb = sbs ! i" by (auto simp: set_zip)
    show ?thesis
      using Some z x orphans_remove [OF assms Some i(1)] i(2) assms
      by (intro disjI2 exI [of _ sb] exI [of _ "AList.update fid (remove_nth i sbs) (snapshots p)"])
        (simp add: pick_orphan_snapshot_def)
  qed
qed

lemma orphans_push:
  assumes "distinct (keys (snapshots p))"
  shows "orphans (snapshots (push_snapshot fid sb p)) = add_mset (fid, sb) (orphans (snapshots p))"
    and "distinct (keys (snapshots (push_snapshot fid sb p)))"
proof -
  show "orphans (snapshots (push_snapshot fid sb p)) = add_mset (fid, sb) (orphans (snapshots p))"
  proof (cases "map_of (snapshots p) fid")
    case None
    then show ?thesis by (simp add: push_snapshot_def orphans_update_new)
  next
    case (Some sbs)
    then show ?thesis
      using orphans_update [OF assms Some, of "sbs @ [sb]"] by (simp add: push_snapshot_def)
  qed
  show "distinct (keys (snapshots (push_snapshot fid sb p)))"
    using assms by (simp add: push_snapshot_def)
qed

lemma pool_ok_snapshots:
  assumes "pool_ok pq M R F p" "distinct (keys ss)" "sandbox_inv R (handles_of p) (worker_by_sandbox p) (orphans ss)"
  shows "pool_ok pq M R F (p\<lparr>snapshots := ss\<rparr>)"
  using assms by (simp add: pool_ok_def)

lemma pool_ok_push:
  assumes ok: "pool_ok pq M R F p" and "R fid \<noteq> None" "worker_by_sandbox p (sb_id sb) = None"
    "sb_id sb \<notin># orphan_ids (orphans (snapshots p))"
  shows "pool_ok pq M R F (push_snapshot fid sb p)"
proof -
  note D = pool_okD [OF ok]
  have "sandbox_inv R (handles_of p) (worker_by_sandbox p) (add_mset (fid, sb) (orphans (snapshots p)))"
    using sandbox_inv_push [OF D(9), of "(fid, sb)"] assms(2-) by simp
  then show ?thesis
    using pool_ok_snapshots [OF ok orphans_push(2) [OF D(4), of fid sb]] orphans_push(1) [OF D(4), of fid sb]
    unfolding push_snapshot_def by simp
qed

lemma pool_ok_pick:
  assumes ok: "pool_ok pq M R F p"
  shows "pick_orphan_snapshot fid p = (None, p)
    \<or> (\<exists>sb ss. pick_orphan_snapshot fid p = (Some sb, p\<lparr>snapshots := ss\<rparr>)
        \<and> pool_ok pq M R F (p\<lparr>snapshots := ss\<rparr>) \<and> worker_by_sandbox p (sb_id sb) = None
        \<and> sb_id sb \<notin># orphan_ids (orphans ss))"
  using pick_orphan_cases [OF pool_okD(4) [OF ok], of fid]
proof (elim disjE exE conjE)
  fix sb ss
  assume a: "pick_orphan_snapshot fid p = (Some sb, p\<lparr>snapshots := ss\<rparr>)" "distinct (keys ss)"
    "orphans (snapshots p) = add_mset (fid, sb) (orphans ss)"
  note d = sandbox_inv_drop [OF pool_okD(9) [OF ok, unfolded a(3)]]
  then show ?thesis using a pool_ok_snapshots [OF ok a(2) d(1)] by auto
qed simp

section \<open>Spawning\<close>

lemma registered_id:
  assumes "store_inv s" "registered s fid = Some rf"
  shows "fi_id (rf_info rf) = fid"
  using assms store_invD(3) by (auto simp: registered_def)

definition fresh_sandbox :: "sandbox option \<Rightarrow> 'q pool \<Rightarrow> bool" where
  "fresh_sandbox sb p \<longleftrightarrow> (\<forall>b. sb = Some b \<longrightarrow> worker_by_sandbox p (sb_id b) = None
     \<and> sb_id b \<notin># orphan_ids (orphans (snapshots p)))"

lemma wp_spawn_untracked:
  assumes ok: "pool_ok pq M R at_rest p" and f: "R fid \<noteq> None" and sb: "fresh_sandbox sb p"
    and new: "\<And>w. pe_spawn en = Inr w \<Longrightarrow> handles_of p w = None"
  shows "wp (spawn_untracked_worker en fid sb acct p)
    (\<lambda>e p'. pool_ok pq M R at_rest p' \<and> (\<exists>err. pe_spawn en = Inl err \<and> e = WorkerCreation err)
      \<and> dispatch_replies p' = dispatch_replies p \<and> owed p' = owed p)
    (\<lambda>w p'. pe_spawn en = Inr w \<and> pool_ok pq False R (Some (w, fid, acct), None) p'
      \<and> (\<exists>h B. wh_function_id h = fid \<and> wh_mem_accounting h = acct \<and>
          p' = p\<lparr>worker_handles := AList.update w h (worker_handles p), worker_by_sandbox := B\<rparr>)
      \<and> (\<forall>b. sb = Some b \<longrightarrow> worker_by_sandbox p' (sb_id b) = Some w))"
proof -
  note D = pool_okD [OF ok]
  obtain rf where rf: "registered (store p) fid = Some rf" using f D(2) by auto
  have rd: "read_store (get_registered_function fid) p = (Inr rf, p)"
    using rf by (auto simp: read_store_def get_registered_function_def store_get_def registered_def)
  have id: "fi_id (rf_info rf) = fid" by (rule registered_id [OF D(1) rf])
  show ?thesis
  proof (cases "pe_spawn en")
    case (Inl e)
    have "pool_ok pq M R at_rest (push_snapshot fid b p)" if "sb = Some b" for b
      using that sb pool_ok_push [OF ok f] by (simp add: fresh_sandbox_def)
    then show ?thesis
      using Inl ok by (auto simp: spawn_untracked_worker_def rd push_snapshot_def owed_def split: option.split)
  next
    case (Inr w)
    have n: "handles_of p w = None" by (rule new [OF Inr])
    let ?h = "\<lparr>wh_function_id = fid, wh_sandbox_id = map_option sb_id sb, wh_mem_accounting = acct\<rparr>"
    let ?B = "case sb of None \<Rightarrow> worker_by_sandbox p | Some b \<Rightarrow> (worker_by_sandbox p)(sb_id b \<mapsto> w)"
    let ?p = "p\<lparr>worker_handles := AList.update w ?h (worker_handles p), worker_by_sandbox := ?B\<rparr>"
    have e: "spawn_untracked_worker en fid sb acct p = (Inr w, ?p)"
      using Inr n sb by (auto simp: spawn_untracked_worker_def rd id Let_def fresh_sandbox_def split: option.split)
    have op: "op_by_worker (pending p) w \<noteq> Some OpSnapshot"
      using pending_invD(4) [OF D(10), of w] n by auto
    have "pool_ok pq False R (Some (w, fid, acct), None) ?p"
    proof (rule pool_okI)
      show "track_inv (fst (Some (w, fid, acct), None)) (where_is (store ?p)) (handles_of ?p)"
        using track_inv_spawn [of _ _ w ?h] D(5) n by (simp add: map_of_update)
      show "sandbox_inv R (handles_of ?p) (worker_by_sandbox ?p) (orphans (snapshots ?p))"
      proof (cases sb)
        case None
        then show ?thesis using sandbox_inv_spawn_fresh [OF D(9) n, of ?h] by (simp add: map_of_update)
      next
        case (Some b)
        then show ?thesis
          using sandbox_inv_bind [OF D(9), of "sb_id b" ?h w] sb n by (simp add: map_of_update fresh_sandbox_def)
      qed
      show "pending_inv (snd (Some (w, fid, acct), None)) (where_is (store ?p)) (handles_of ?p)
          (worker_by_sandbox ?p) (pending ?p)"
      proof (cases sb)
        case None
        then show ?thesis
          using pending_inv_handles [OF D(10), of "(handles_of p)(w \<mapsto> ?h)"] by (simp add: map_of_update)
      next
        case (Some b)
        then show ?thesis
          using pending_inv_bind [OF D(10) _ op, of "sb_id b" "(handles_of p)(w \<mapsto> ?h)"] sb
          by (simp add: map_of_update fresh_sandbox_def)
      qed
    qed (use D f in auto)
    then show ?thesis unfolding e wp_simps using Inr by (intro conjI exI [of _ ?h] exI [of _ ?B]) (simp_all split: option.split)
  qed
qed

lemma fits_spec:
  assumes "bu_spec bu" "mem_total m < bu_max" "fits bu m k"
  shows "mem_inuse m + mem_reclaimed m + k \<le> mem_total m"
  using assms by (auto simp: fits_def min_def split: if_splits)

lemma mem_inv_spawn:
  assumes "mem_inv R hs m" "bu_spec bu" "map_of hs w = None" "wh_mem_accounting h = MemInUse"
    "fits bu m (rmem R (wh_function_id h))"
  shows "mem_inv R (AList.update w h hs) (m\<lparr>mem_inuse := bu_add bu (mem_inuse m) (rmem R (wh_function_id h))\<rparr>)"
  using assms fits_spec [OF assms(2) _ assms(5)]
  by (auto simp: mem_inv_def charge_update_new min_def)

lemma wp_spawn_new_worker:
  assumes ok: "pool_ok pq M R at_rest p" and f: "R fid \<noteq> None" and sb: "fresh_sandbox sb p"
    and new: "\<And>w. pe_spawn en = Inr w \<Longrightarrow> handles_of p w = None" and bu: "bu_spec (lib_bu en)"
    and fit: "fits (lib_bu en) (memory p) (rmem R fid)"
  shows "wp (spawn_new_worker en fid sb p)
    (\<lambda>e p'. pool_ok pq M R at_rest p' \<and> (\<exists>err. pe_spawn en = Inl err \<and> e = WorkerCreation err)
      \<and> dispatch_replies p' = dispatch_replies p \<and> owed p' = owed p)
    (\<lambda>w p'. pe_spawn en = Inr w \<and> pool_ok pq M R (Some (w, fid, MemInUse), None) p'
      \<and> cpuset p' = cpuset p \<and> where_is (store p') = where_is (store p) \<and> pending p' = pending p
      \<and> control_replies p' = control_replies p \<and> dispatch_replies p' = dispatch_replies p
      \<and> (\<forall>b. sb = Some b \<longrightarrow> worker_by_sandbox p' (sb_id b) = Some w))"
  unfolding spawn_new_worker_def wp_bindE
proof (rule wp_conseq [OF wp_spawn_untracked [OF ok f sb new, where acct = MemInUse]], goal_cases)
  case (3 w p1)
  then obtain h B where h: "wh_function_id h = fid" "wh_mem_accounting h = MemInUse"
    and p1: "p1 = p\<lparr>worker_handles := AList.update w h (worker_handles p), worker_by_sandbox := B\<rparr>" by blast
  have w: "pe_spawn en = Inr w" and i: "pool_ok pq False R (Some (w, fid, MemInUse), None) p1"
    and b: "\<forall>b. sb = Some b \<longrightarrow> worker_by_sandbox p1 (sb_id b) = Some w" using 3 by blast+
  note D1 = pool_okD [OF i]
  have rd: "read_store (function_memory fid) p1 = (Inr (rmem R fid), p1)" by (rule read_memory_eq [OF D1(2) f])
  have m: "mem_inv R (worker_handles p1)
      ((memory p1)\<lparr>mem_inuse := bu_add (lib_bu en) (mem_inuse (memory p1)) (rmem R fid)\<rparr>)" if M
    using mem_inv_spawn [OF pool_okD(11) [OF ok that] bu new [OF w] h(2)] fit
    unfolding p1 h(1) by simp
  show ?case
    unfolding rd wp_simps Let_def wp_bindE wp_on_store
  proof (rule wp_update_stats, goal_cases)
    case (3 s)
    then show ?case using i m w b unfolding pool_ok_def p1 by simp
  qed (use D1 f in simp_all)
qed simp_all

lemma pool_ok_started:
  assumes ok: "pool_ok pq M R (Some (w, fid, a), None) p" and c: "acct_ok c a" "c \<noteq> Idle"
    and s: "store_inv s" "where_is s = (where_is (store p))(w \<mapsto> (c, fid))" "registered s = R"
  shows "pool_ok pq M R at_rest (p\<lparr>store := s\<rparr>)"
    and "where_is (store p) w = None" "cm_allocations (cpuset p) w = None" "handles_of p w \<noteq> None"
    and "(timers p)(w := None) = timers p" "(worker_deadlines p)(w := None) = worker_deadlines p"
proof -
  note D = pool_okD [OF ok]
  have t: "track_inv (Some (w, fid, a)) (where_is (store p)) (handles_of p)" using D(5) by simp
  show l: "where_is (store p) w = None" and "handles_of p w \<noteq> None" using track_invD(3) [OF t refl] by auto
  show "cm_allocations (cpuset p) w = None" using D(8) l by (auto simp: cpu_inv_def)
  show n: "(timers p)(w := None) = timers p" "(worker_deadlines p)(w := None) = worker_deadlines p"
    using idle_inv_none(3,4) [OF D(7), of w] l by simp_all
  let ?p = "p\<lparr>store := s\<rparr>"
  show "pool_ok pq M R at_rest (p\<lparr>store := s\<rparr>)"
  proof (rule pool_okI)
    show "track_inv (fst at_rest) (where_is (store ?p)) (handles_of ?p)"
      using track_inv_start [OF t c(1)] s by simp
    show "idle_inv (where_is (store ?p)) (timers ?p) (worker_deadlines ?p)"
      using idle_inv_busy [OF D(7) c(2), of w fid] s n by simp
    show "cpu_inv pq (where_is (store ?p)) (cpuset ?p)"
      using cpu_inv_move [OF D(8), of c w] c(2) s by simp
    show "pending_inv (snd at_rest) (where_is (store ?p)) (handles_of ?p) (worker_by_sandbox ?p) (pending ?p)"
      using pending_inv_move [OF D(10), of c w "handles_of p" fid] c(2) s by simp
  qed (use D s in auto)
qed

lemma wp_insert_started:
  assumes ok: "pool_ok pq M R (Some (w, fid, a), None) p" and c: "acct_ok c a" "c \<noteq> Idle"
  shows "wp (on_store (insert_worker c w fid) p) (\<lambda>_ _. False)
    (\<lambda>_ p'. pool_ok pq M R at_rest p' \<and> quiet p p' \<and> worker_handles p' = worker_handles p
      \<and> where_is (store p') = (where_is (store p))(w \<mapsto> (c, fid)) \<and> cm_allocations (cpuset p') w = None)"
proof -
  note D = pool_okD [OF ok]
  have "track_inv (Some (w, fid, a)) (where_is (store p)) (handles_of p)" using D(5) by simp
  from track_invD(3) [OF this refl] have l: "where_is (store p) w = None" by blast
  have f: "registered (store p) fid \<noteq> None" using D(2,6) by simp
  show ?thesis
    unfolding wp_on_store
    by (rule wp_insert_worker [OF D(1) l f]) (use pool_ok_started [OF ok c] D(2) in \<open>simp add: quiet_def\<close>)
qed

section \<open>Reaping\<close>

definition exit_ok :: "'q penv \<Rightarrow> worker_id \<Rightarrow> worker_handle \<Rightarrow> bool" where
  "exit_ok en w h \<longleftrightarrow> (\<forall>ex. pe_exit en w = Some ex \<longrightarrow>
     (case we_sandbox ex of
        ExitNone \<Rightarrow> True
      | ExitReusable sb \<Rightarrow> wh_sandbox_id h = Some (sb_id sb)
      | ExitTrashed _ \<Rightarrow> we_result ex \<noteq> Inr ()))"

text \<open>The state once the worker is out of the store and of the handles, before it is finalized.\<close>

definition claimed :: "worker_id \<Rightarrow> 'q pool \<Rightarrow> 'q pool \<Rightarrow> bool" where
  "claimed w p p1 \<longleftrightarrow> store_inv (store p1) \<and> registered (store p1) = registered (store p)
     \<and> where_is (store p1) = (where_is (store p))(w := None)
     \<and> worker_handles p1 = AList.delete w (worker_handles p)
     \<and> timers p1 = timers p \<and> worker_deadlines p1 = worker_deadlines p \<and> cpuset p1 = cpuset p
     \<and> memory p1 = memory p \<and> worker_by_sandbox p1 = worker_by_sandbox p \<and> snapshots p1 = snapshots p
     \<and> pending p1 = pending p \<and> control_replies p1 = control_replies p
     \<and> dispatch_replies p1 = dispatch_replies p"

lemma wp_reap_claim:
  assumes ok: "pool_ok pq M R at_rest p" and f: "R fid \<noteq> None"
    and own: "\<And>h. handles_of p w = Some h \<Longrightarrow> wh_function_id h = fid"
  shows "wp (reap_claim en w fid p) (\<lambda>_ _. False)
    (\<lambda>ho p1. case ho of
       None \<Rightarrow> pool_ok pq M R at_rest p1 \<and> where_is (store p1) = where_is (store p)
         \<and> quiet p p1 \<and> worker_handles p1 = worker_handles p
         \<and> (handles_of p w = None \<or> where_is (store p) w = Some (Idle, fid))
     | Some h \<Rightarrow> handles_of p w = Some h \<and> claimed w p p1
         \<and> (\<exists>c. where_is (store p) w = Some (c, fid) \<and> c \<noteq> Idle))"
proof -
  note D = pool_okD [OF ok]
  have reg: "registered (store p) fid \<noteq> None" using D(2) f by simp
  have frame: "pool_ok pq M R at_rest (p\<lparr>store := s\<rparr>)"
    if "store_inv s" "where_is s = where_is (store p)" "registered s = registered (store p)" for s
    using ok that by (simp add: pool_ok_def)
  have tr: "where_is (store p) w = Some (c, fid) \<Longrightarrow> \<exists>h. handles_of p w = Some h" for c
    using tracked_handle [OF ok] by blast
  show ?thesis
    unfolding reap_claim_def Let_def wp_bindE wp_on_store class_ops
  proof (rule wp_remove_worker [OF D(1) reg], goal_cases)
    case (1 s)
    obtain h where "handles_of p w = Some h" using tr [OF 1(1)] by blast
    then show ?case using 1 by (simp add: claimed_def)
  next
    case (2 s)
    have r2: "registered s fid \<noteq> None" using 2 reg by simp
    show ?case
      unfolding if_False pool.select_convs pool.surjective pool.update_convs
    proof (simp add: wp_bindE wp_on_store, rule wp_remove_worker [OF 2(2) r2], goal_cases)
      case (1 s')
      have "where_is (store p) w = Some (Active, fid)" using 1(1) 2(3) by simp
      moreover from this obtain h where "handles_of p w = Some h" using tr by blast
      ultimately show ?case using 1 2 by (simp add: claimed_def)
    next
      case (2 s')
      have w': "where_is s' = where_is (store p)" "store_inv s'" "registered s' = registered (store p)"
        using 2 \<open>where_is s = where_is (store p)\<close> \<open>registered s = registered (store p)\<close> by simp_all
      note fi = find_worker_iff [OF w'(2), of Idle w]
      show ?case
      proof (cases "find_idle_worker w s'")
        case (Some g)
        then have g: "where_is (store p) w = Some (Idle, g)"
          using fi w'(1) by (simp add: find_idle_worker_def)
        then have "g = fid" using tracked_handle [OF ok g] own by auto
        then show ?thesis using Some g frame [OF w'(2,1,3)] w' by (simp add: quiet_def)
      next
        case None
        then have "where_is (store p) w \<noteq> Some (Idle, g)" for g
          using fi w'(1) by (auto simp: find_idle_worker_def)
        moreover have "where_is (store p) w \<noteq> Some (Dying, fid)" "where_is (store p) w \<noteq> Some (Active, fid)"
          using \<open>where_is (store p) w \<noteq> Some (Dying, fid)\<close> 2(1) \<open>where_is s = where_is (store p)\<close> by simp_all
        ultimately have n: "where_is (store p) w \<noteq> Some (c, fid)" for c by (cases c) simp_all
        have "handles_of p w \<noteq> Some h" for h
          using track_invD(4) [OF D(5), of w h] own [of h] n by auto
        then have "handles_of p w = None" by (metis not_None_eq)
        then show ?thesis using None frame [OF w'(2,1,3)] w' by (simp add: quiet_def)
      qed
    qed
  qed
qed

lemma pool_ok_reaped:
  assumes ok: "pool_ok pq M R at_rest p" and h: "handles_of p w = Some h"
    and l: "where_is (store p) w = Some (c, fid)" "c \<noteq> Idle"
    and p': "store_inv (store p')" "registered (store p') = R" "where_is (store p') = (where_is (store p))(w := None)"
      "worker_handles p' = AList.delete w (worker_handles p)" "timers p' = timers p"
      "worker_deadlines p' = (worker_deadlines p)(w := None)" "cpuset p' = cs"
      "worker_by_sandbox p' = (case wh_sandbox_id h of None \<Rightarrow> worker_by_sandbox p
        | Some sid \<Rightarrow> (worker_by_sandbox p)(sid := None))"
      "snapshots p' = snapshots p"
      "pending p' = (pending p)\<lparr>op_by_worker := (op_by_worker (pending p))(w := None),
        pending_snapshots := (case wh_sandbox_id h of None \<Rightarrow> pending_snapshots (pending p)
                              | Some sid \<Rightarrow> AList.delete sid (pending_snapshots (pending p))),
        sandbox_preps := AList.delete w (sandbox_preps (pending p)),
        sandbox_destrs := AList.delete w (sandbox_destrs (pending p))\<rparr>"
    and cs: "cpu_inv pq (where_is (store p)) cs" "cm_allocations cs w = None"
    and m: "M \<Longrightarrow> mem_inv R (AList.delete w (worker_handles p)) (memory p')"
  shows "pool_ok pq M R at_rest p'"
proof (rule pool_okI)
  note D = pool_okD [OF ok]
  show "track_inv (fst at_rest) (where_is (store p')) (handles_of p')"
    using track_inv_reap [OF D(5), of w] by (simp add: p' map_of_delete)
  have "(timers p)(w := None) = timers p" by (rule idle_inv_none(3) [OF D(7)]) (use l in simp)
  then show "idle_inv (where_is (store p')) (timers p') (worker_deadlines p')"
    using idle_inv_gone [OF D(7), of w] by (simp add: p')
  show "cpu_inv pq (where_is (store p')) (cpuset p')"
    using cpu_inv_gone [OF cs] by (simp add: p')
  show "sandbox_inv R (handles_of p') (worker_by_sandbox p') (orphans (snapshots p'))"
    using sandbox_inv_gone [OF D(9) h] by (simp add: p' map_of_delete)
  show "pending_inv (snd at_rest) (where_is (store p')) (handles_of p') (worker_by_sandbox p') (pending p')"
    using pending_inv_gone [OF _ D(9) h, of "where_is (store p)" "pending p"] D(10)
    by (simp add: p' map_of_delete)
qed (use pool_okD [OF ok] p' m in simp_all)

text \<open>Taking the charge of a reaped worker off the account it is on.\<close>

lemma mem_inv_reap:
  assumes "mem_inv R hs m" "distinct (keys hs)" "map_of hs w = Some h" "bu_spec bu"
  shows "mem_inv R (AList.delete w hs) m"
    and "mem_inv R (AList.delete w hs)
      (reap_mem_account_aux bu (wh_mem_accounting h) (rmem R (wh_function_id h)) m)"
proof -
  have c: "charge R a hs = charge R a (AList.delete w hs)
    + (if wh_mem_accounting h = a then rmem R (wh_function_id h) else 0)" for a
    by (rule charge_delete [OF assms(2,3)])
  show "mem_inv R (AList.delete w hs) m"
    using assms(1) c [of MemInUse] c [of MemReclaimed] by (simp add: mem_inv_def)
  show "mem_inv R (AList.delete w hs)
      (reap_mem_account_aux bu (wh_mem_accounting h) (rmem R (wh_function_id h)) m)"
    using assms(1,4) c [of MemInUse] c [of MemReclaimed]
    by (cases "wh_mem_accounting h") (auto simp: mem_inv_def reap_mem_account_aux_def)
qed

lemma pool_ok_memory:
  "pool_ok pq M R F p \<Longrightarrow> (M \<Longrightarrow> mem_inv R (worker_handles p) m) \<Longrightarrow> pool_ok pq M R F (p\<lparr>memory := m\<rparr>)"
  by (simp add: pool_ok_def)

text \<open>What \<^verbatim>\<open>reap_exit\<close> does not change when it replies to the waiters of a destruction.\<close>

lemma pool_ok_destroy_replies [simp]:
  "pool_ok pq M R F (reply_destroy_success d x p) = pool_ok pq M R F p"
  "pool_ok pq M R F (reply_destroy_worker_failure d e p) = pool_ok pq M R F p"
  "pool_ok pq M R F (reply_destroy_internal_failure d msg p) = pool_ok pq M R F p"
  by (simp_all add: reply_destroy_success_def reply_destroy_worker_failure_def
      reply_destroy_internal_failure_def)

lemma pool_ok_reply_opt [simp]:
  "pool_ok pq M R F (case o' of None \<Rightarrow> p | Some d \<Rightarrow> reply_destroy_success d x p) = pool_ok pq M R F p"
  "pool_ok pq M R F (case o' of None \<Rightarrow> p | Some d \<Rightarrow> reply_destroy_worker_failure d e p) = pool_ok pq M R F p"
  "pool_ok pq M R F (case o' of None \<Rightarrow> p | Some d \<Rightarrow> reply_destroy_internal_failure d msg p) = pool_ok pq M R F p"
  by (simp_all split: option.split)

abbreviation destr_callers :: "pending_destr option \<Rightarrow> waiter multiset" where
  "destr_callers x \<equiv> (case x of None \<Rightarrow> {#} | Some d \<Rightarrow> mset (pd_respond_to d))"

lemma owed_destroy_replies [simp]:
  "owed (case o' of None \<Rightarrow> p | Some d \<Rightarrow> reply_destroy_success d x p) = owed p + destr_callers o'"
  "owed (case o' of None \<Rightarrow> p | Some d \<Rightarrow> reply_destroy_worker_failure d e p) = owed p + destr_callers o'"
  "owed (case o' of None \<Rightarrow> p | Some d \<Rightarrow> reply_destroy_internal_failure d msg p) = owed p + destr_callers o'"
  by (simp_all add: reply_destroy_success_def reply_destroy_worker_failure_def
      reply_destroy_internal_failure_def split: option.split)

lemma owed_unchanged [simp]:
  "owed (reap_mem_account en a k p) = owed p" "owed (push_snapshot fid sb p) = owed p"
  "owed (p\<lparr>trashed_sandboxes := x\<rparr>) = owed p" "owed (emit_admission_event en ev p) = owed p"
  by (simp_all add: owed_def reap_mem_account_def push_snapshot_def Let_def)

lemma owed_finalize:
  assumes "finalize_control_ops w sido p = (o', p')" "pending_inv X L H B (pending p)"
  shows "owed p' + destr_callers o' = owed p"
proof -
  let ?pc = "pending p"
  have d: "callers prep_callers (sandbox_preps ?pc) = callers prep_callers (AList.delete w (sandbox_preps ?pc))
      + caller (Option.bind (map_of (sandbox_preps ?pc) w) pp_respond_to)"
    "callers pd_respond_to (sandbox_destrs ?pc) = callers pd_respond_to (AList.delete w (sandbox_destrs ?pc))
      + destr_callers (map_of (sandbox_destrs ?pc) w)"
    "callers ps_respond_to (pending_snapshots ?pc) = callers ps_respond_to (AList.delete sid (pending_snapshots ?pc))
      + (case map_of (pending_snapshots ?pc) sid of None \<Rightarrow> {#} | Some x \<Rightarrow> mset (ps_respond_to x))" for sid
    using callers_delete [OF pending_invD(1) [OF assms(2)], of prep_callers w]
      callers_delete [OF pending_invD(2) [OF assms(2)], of pd_respond_to w]
      callers_delete [OF pending_invD(3) [OF assms(2)], of ps_respond_to sid]
    by (auto simp: prep_callers_def split: option.splits)
  have a: "p' = snd (finalize_control_ops w sido p)" "o' = map_of (sandbox_destrs ?pc) w"
    using assms(1) by (auto simp: finalize_control_ops_def Let_def)
  show ?thesis
  proof (cases sido)
    case None
    then show ?thesis
      unfolding a finalize_control_ops_def Let_def snd_conv owed_reply_opt
      by (simp add: owed_def waiting_def d(1,2) ac_simps)
  next
    case (Some sid)
    then show ?thesis
      unfolding a finalize_control_ops_def Let_def snd_conv owed_reply_opt
      using d(3) [of sid]
      by (cases "map_of (pending_snapshots ?pc) sid")
        (simp_all add: owed_def waiting_def reply_all_def d(1,2) comp_def ac_simps)
  qed
qed

lemma wp_reap_exit:
  assumes ok: "pool_ok pq M R F p" and f: "R fid \<noteq> None" and e: "exit_ok en w h"
    and m: "M \<Longrightarrow> mem_inv R (worker_handles p)
      (reap_mem_account_aux (lib_bu en) (wh_mem_accounting h) k (memory p))"
    and sb: "\<And>sid. wh_sandbox_id h = Some sid \<Longrightarrow>
      worker_by_sandbox p sid = None \<and> sid \<notin># orphan_ids (orphans (snapshots p))"
  shows "wp (reap_exit en w fid h k o' p) (\<lambda>_ p'. pool_ok pq M R F p' \<and> owed p' = owed p + destr_callers o')
    (\<lambda>_ p'. pool_ok pq M R F p' \<and> owed p' = owed p + destr_callers o')"
proof -
  have acc: "pool_ok pq M R F (reap_mem_account en (wh_mem_accounting h) k q)"
    if "pool_ok pq M R F q" "memory q = memory p" "worker_handles q = worker_handles p" for q
  proof -
    have "pool_ok pq M R F
        (q\<lparr>memory := reap_mem_account_aux (lib_bu en) (wh_mem_accounting h) k (memory q)\<rparr>)"
      by (rule pool_ok_memory [OF that(1)]) (use m that(2,3) in simp)
    then show ?thesis by (auto simp: reap_mem_account_def Let_def)
  qed
  have push: "pool_ok pq M R F (push_snapshot fid b p)" if "wh_sandbox_id h = Some (sb_id b)" for b
    using pool_ok_push [OF ok f] sb [OF that] by simp
  show ?thesis
  proof (cases "pe_exit en w")
    case None
    then show ?thesis using ok by (simp add: reap_exit_def Let_def)
  next
    case (Some ex)
    then have x: "case we_sandbox ex of ExitNone \<Rightarrow> True | ExitReusable b \<Rightarrow> wh_sandbox_id h = Some (sb_id b)
        | ExitTrashed _ \<Rightarrow> we_result ex \<noteq> Inr ()"
      using e by (simp add: exit_ok_def)
    show ?thesis
    proof (cases "we_sandbox ex")
      case ExitNone
      show ?thesis
      proof (cases "we_result ex")
        case (Inl e)
        then show ?thesis
          using Some ExitNone ok acc [OF ok] by (cases e) (simp_all add: reap_exit_def Let_def)
      next
        case (Inr u)
        then show ?thesis using Some ExitNone acc [OF ok] by (simp add: reap_exit_def Let_def)
      qed
    next
      case (ExitReusable b)
      then have "pool_ok pq M R F (reap_mem_account en (wh_mem_accounting h) k (push_snapshot fid b p))"
        using x acc [OF push] by (simp add: push_snapshot_def)
      then show ?thesis
        using Some ExitReusable by (cases "we_result ex") (simp_all add: reap_exit_def Let_def)
    next
      case (ExitTrashed b)
      then obtain err where "we_result ex = Inl err" using x by (cases "we_result ex") simp_all
      then show ?thesis using Some ExitTrashed ok by (simp add: reap_exit_def Let_def)
    qed
  qed
qed

lemma finalize_fields:
  assumes "finalize_control_ops w sido p = (o', p')"
  shows "store p' = store p" "timers p' = timers p" "worker_deadlines p' = worker_deadlines p"
    "worker_handles p' = worker_handles p" "memory p' = memory p" "cpuset p' = cpuset p"
    "worker_by_sandbox p' = worker_by_sandbox p" "snapshots p' = snapshots p"
    "pending p' = (pending p)\<lparr>op_by_worker := (op_by_worker (pending p))(w := None),
        pending_snapshots := (case sido of None \<Rightarrow> pending_snapshots (pending p)
                              | Some sid \<Rightarrow> AList.delete sid (pending_snapshots (pending p))),
        sandbox_preps := AList.delete w (sandbox_preps (pending p)),
        sandbox_destrs := AList.delete w (sandbox_destrs (pending p))\<rparr>"
    "o' = map_of (sandbox_destrs (pending p)) w"
  using assms by (auto simp: finalize_control_ops_def Let_def reply_all_def split: option.splits)

lemma wp_reap_worker:
  assumes ok: "pool_ok (lib_pq en) M R at_rest p" and pq: "pq_spec (lib_pq en)" and bu: "bu_spec (lib_bu en)"
    and f: "R fid \<noteq> None" and own: "\<And>h. handles_of p w = Some h \<Longrightarrow> wh_function_id h = fid \<and> exit_ok en w h"
  shows "wp (reap_worker en w fid p) (\<lambda>_ p'. pool_ok (lib_pq en) M R at_rest p' \<and> owed p' = owed p)
    (\<lambda>_ p'. pool_ok (lib_pq en) M R at_rest p' \<and> owed p' = owed p)"
  unfolding reap_worker_def wp_bindE
proof (rule wp_conseq [OF wp_reap_claim [OF ok f]], goal_cases)
  case (3 ho p1)
  show ?case
  proof (cases ho)
    case None
    then show ?thesis using 3 by (simp add: quiet_owed)
  next
    case (Some h)
    then obtain c where h: "handles_of p w = Some h" and cl: "claimed w p p1"
      and l: "where_is (store p) w = Some (c, fid)" "c \<noteq> Idle" using 3 by auto
    note D = pool_okD [OF ok] and C = cl [unfolded claimed_def]
    have hf: "wh_function_id h = fid" "exit_ok en w h" using own [OF h] by simp_all
    define B where "B = (case wh_sandbox_id h of None \<Rightarrow> worker_by_sandbox p
        | Some sid \<Rightarrow> (worker_by_sandbox p)(sid := None))"
    define p2 where "p2 = p1\<lparr>worker_deadlines := (worker_deadlines p1)(w := None), worker_by_sandbox := B\<rparr>"
    have p2: "(case wh_sandbox_id h of None \<Rightarrow> p1\<lparr>worker_deadlines := (worker_deadlines p1)(w := None)\<rparr>
        | Some sid \<Rightarrow> p1\<lparr>worker_deadlines := (worker_deadlines p1)(w := None),
            worker_by_sandbox := (worker_by_sandbox (p1\<lparr>worker_deadlines := (worker_deadlines p1)(w := None)\<rparr>))(sid := None)\<rparr>) = p2"
      using C by (cases "wh_sandbox_id h") (simp_all add: p2_def B_def)
    have "cpu_inv (lib_pq en) (where_is (store p)) (cpuset p2)" using D(8) C by (simp add: p2_def)
    note cpu = this
    let ?cs = "released en w (cpuset p2)"
    note rel = cpu_try_release [OF cpu pq, of w] released_inv [OF cpu pq, of w]
    obtain o' p3 where fin: "finalize_control_ops w (wh_sandbox_id h) (p2\<lparr>cpuset := ?cs\<rparr>) = (o', p3)"
      by (cases "finalize_control_ops w (wh_sandbox_id h) (p2\<lparr>cpuset := ?cs\<rparr>)")
    note F3 = finalize_fields [OF fin]
    have ok3: "pool_ok (lib_pq en) M R at_rest p3"
    proof (rule pool_ok_reaped [OF ok h l, where cs = ?cs])
      show "mem_inv R (AList.delete w (worker_handles p)) (memory p3)" if M
        using mem_inv_reap(1) [OF D(11) [OF that] D(3) h bu] F3 C by (simp add: p2_def)
    qed (use F3 C D(2) rel in \<open>simp_all add: p2_def B_def cong: option.case_cong\<close>)
    have rd: "read_store (function_memory fid) p3 = (Inr (rmem R fid), p3)"
      by (rule read_memory_eq [OF pool_okD(2) [OF ok3] f])
    have "owed p3 + destr_callers o' = owed (p2\<lparr>cpuset := ?cs\<rparr>)"
      by (rule owed_finalize [OF fin]) (use D(10) C in \<open>simp add: p2_def\<close>)
    then have ow: "owed p3 + destr_callers o' = owed p" using C by (simp add: p2_def owed_def)
    have "wp (reap_exit en w fid h (rmem R fid) o' p3)
        (\<lambda>_ p'. pool_ok (lib_pq en) M R at_rest p' \<and> owed p' = owed p3 + destr_callers o')
        (\<lambda>_ p'. pool_ok (lib_pq en) M R at_rest p' \<and> owed p' = owed p3 + destr_callers o')"
    proof (rule wp_reap_exit [OF ok3 f hf(2)])
      show "mem_inv R (worker_handles p3)
          (reap_mem_account_aux (lib_bu en) (wh_mem_accounting h) (rmem R fid) (memory p3))" if M
        using mem_inv_reap(2) [OF D(11) [OF that] D(3) h bu] F3 C hf by (simp add: p2_def)
      show "worker_by_sandbox p3 sid = None \<and> sid \<notin># orphan_ids (orphans (snapshots p3))"
        if "wh_sandbox_id h = Some sid" for sid
      proof -
        have "worker_by_sandbox p sid = Some w" using sandbox_invD(1) [OF D(9), of sid w] h that by simp
        then show ?thesis
          using sandbox_inv_owned [OF D(9)] F3 C that by (simp add: p2_def B_def)
      qed
    qed
    then show ?thesis
      unfolding Some option.case Let_def p2 wp_bindE rel(1) wp_simps fin split_conv rd ow .
  qed
qed (use own in auto)

end
