(* ===== verification/Pool_Ctl_Inv.thy ===== *)
theory Pool_Ctl_Inv
  imports Pool_Life
begin

text \<open>
  Preservation of \<open>pool_ok\<close> by the control operations of \<^verbatim>\<open>control.rs\<close>: starting, joining and
  finishing the preparation of a sandbox, its destruction and its snapshot.
\<close>

section \<open>The table of pending operations\<close>

lemma pool_ok_set_pending:
  assumes "pool_ok pq M R F p"
    and "pending_inv X (where_is (store p)) (handles_of p) (worker_by_sandbox p) (g (pending p))"
  shows "pool_ok pq M R (fst F, X) (set_pending g p)"
  using assms by (simp add: pool_ok_def set_pending_def)

lemma set_pending_sel [simp]:
  "store (set_pending g p) = store p" "worker_handles (set_pending g p) = worker_handles p"
  "cpuset (set_pending g p) = cpuset p" "pending (set_pending g p) = g (pending p)"
  "worker_by_sandbox (set_pending g p) = worker_by_sandbox p" "memory (set_pending g p) = memory p"
  "timers (set_pending g p) = timers p" "worker_deadlines (set_pending g p) = worker_deadlines p"
  by (simp_all add: set_pending_def)

lemma set_pending_reply [simp]: "set_pending g (reply_all ws r p) = reply_all ws r (set_pending g p)"
  by (simp add: set_pending_def reply_all_def)

lemma no_op_no_context:
  assumes "pending_inv X L H B pc" "op_by_worker pc w = None"
  shows "map_of (sandbox_destrs pc) w = None" "map_of (sandbox_preps pc) w = None"
  using pending_invD(6) [OF assms(1), of w] pending_invD(7) [OF assms(1), of w] assms(2) by fastforce+

lemma pending_inv_begin_prep:
  assumes i: "pending_inv X L H B pc" and o: "op_by_worker pc w = None" and h: "H w \<noteq> None"
    and l: "\<And>fid. L w \<noteq> Some (Idle, fid)"
  shows "pending_inv X L H B (pc\<lparr>op_by_worker := (op_by_worker pc)(w \<mapsto> OpPrepareSandbox),
    sandbox_preps := AList.update w x (sandbox_preps pc)\<rparr>)" (is "pending_inv X L H B ?pc")
proof (rule pending_invI)
  note D = pending_invD [OF i] and n = no_op_no_context [OF i o]
  show "H v \<noteq> None" if "op_by_worker ?pc v \<noteq> None" for v
    using D(4) [of v] that h by (cases "v = w") auto
  show "L v \<noteq> Some (Idle, fid)" if "op_by_worker ?pc v \<noteq> None" "X \<noteq> Some v" for v fid
    using D(5) [of v fid] that l by (cases "v = w") auto
  show "map_of (sandbox_destrs ?pc) v \<noteq> None \<longleftrightarrow> op_by_worker ?pc v = Some OpDestroySandbox" for v
    using D(6) [of v] n by (cases "v = w") auto
  show "op_by_worker ?pc v = Some OpPrepareSandbox" if "map_of (sandbox_preps ?pc) v \<noteq> None" for v
    using D(7) [of v] that by (cases "v = w") (auto simp: map_of_update)
  show "map_of (pending_snapshots ?pc) s \<noteq> None
      \<longleftrightarrow> (\<exists>v. B s = Some v \<and> op_by_worker ?pc v = Some OpSnapshot \<and> X \<noteq> Some v)" for s
    using D(8) [of s] o by (cases "B s = Some w") auto
  show "\<exists>s. B s = Some v" if "op_by_worker ?pc v = Some OpSnapshot" for v
    using D(9) [of v] that by (cases "v = w") auto
qed (use pending_invD(1-3) [OF i] in simp_all)

lemma pending_inv_begin_destr:
  assumes i: "pending_inv X L H B pc" and o: "op_by_worker pc w = None" and h: "H w \<noteq> None"
    and l: "\<And>fid. L w \<noteq> Some (Idle, fid)"
  shows "pending_inv X L H B (pc\<lparr>op_by_worker := (op_by_worker pc)(w \<mapsto> OpDestroySandbox),
    sandbox_destrs := AList.update w x (sandbox_destrs pc)\<rparr>)" (is "pending_inv X L H B ?pc")
proof (rule pending_invI)
  note D = pending_invD [OF i] and n = no_op_no_context [OF i o]
  show "H v \<noteq> None" if "op_by_worker ?pc v \<noteq> None" for v
    using D(4) [of v] that h by (cases "v = w") auto
  show "L v \<noteq> Some (Idle, fid)" if "op_by_worker ?pc v \<noteq> None" "X \<noteq> Some v" for v fid
    using D(5) [of v fid] that l by (cases "v = w") auto
  show "map_of (sandbox_destrs ?pc) v \<noteq> None \<longleftrightarrow> op_by_worker ?pc v = Some OpDestroySandbox" for v
    using D(6) [of v] n by (cases "v = w") (auto simp: map_of_update)
  show "op_by_worker ?pc v = Some OpPrepareSandbox" if "map_of (sandbox_preps ?pc) v \<noteq> None" for v
    using D(7) [of v] that n by (cases "v = w") auto
  show "map_of (pending_snapshots ?pc) s \<noteq> None
      \<longleftrightarrow> (\<exists>v. B s = Some v \<and> op_by_worker ?pc v = Some OpSnapshot \<and> X \<noteq> Some v)" for s
    using D(8) [of s] o by (cases "B s = Some w") auto
  show "\<exists>s. B s = Some v" if "op_by_worker ?pc v = Some OpSnapshot" for v
    using D(9) [of v] that by (cases "v = w") auto
qed (use pending_invD(1-3) [OF i] in simp_all)

lemma pending_inv_begin_snap:
  assumes i: "pending_inv None L H B pc" and o: "op_by_worker pc w = None" and h: "H w \<noteq> None"
    and l: "\<And>fid. L w \<noteq> Some (Idle, fid)" and b: "B sid = Some w" "\<And>s. B s = Some w \<Longrightarrow> s = sid"
  shows "pending_inv None L H B (pc\<lparr>op_by_worker := (op_by_worker pc)(w \<mapsto> OpSnapshot),
    pending_snapshots := AList.update sid x (pending_snapshots pc)\<rparr>)" (is "pending_inv None L H B ?pc")
proof (rule pending_invI)
  note D = pending_invD [OF i] and n = no_op_no_context [OF i o]
  show "H v \<noteq> None" if "op_by_worker ?pc v \<noteq> None" for v
    using D(4) [of v] that h by (cases "v = w") auto
  show "L v \<noteq> Some (Idle, fid)" if "op_by_worker ?pc v \<noteq> None" "None \<noteq> Some v" for v fid
    using D(5) [of v fid] that l by (cases "v = w") auto
  show "map_of (sandbox_destrs ?pc) v \<noteq> None \<longleftrightarrow> op_by_worker ?pc v = Some OpDestroySandbox" for v
    using D(6) [of v] n by (cases "v = w") auto
  show "op_by_worker ?pc v = Some OpPrepareSandbox" if "map_of (sandbox_preps ?pc) v \<noteq> None" for v
    using D(7) [of v] that n by (cases "v = w") auto
  show "map_of (pending_snapshots ?pc) s \<noteq> None
      \<longleftrightarrow> (\<exists>v. B s = Some v \<and> op_by_worker ?pc v = Some OpSnapshot \<and> None \<noteq> Some v)" for s
  proof (cases "s = sid")
    case False
    then have "B s \<noteq> Some w" using b(2) by blast
    then show ?thesis using D(8) [of s] False by (cases "B s") (simp_all add: map_of_update)
  qed (simp add: map_of_update b(1))
  show "\<exists>s. B s = Some v" if "op_by_worker ?pc v = Some OpSnapshot" for v
    using D(9) [of v] that b(1) by (cases "v = w") auto
qed (use pending_invD(1-3) [OF i] in simp_all)

text \<open>Joining a pending operation and dropping a context.\<close>

lemma pending_inv_contexts:
  assumes i: "pending_inv X L H B pc" and d: "distinct (keys ps)" "distinct (keys ds)" "distinct (keys ss)"
    and k: "fst ` set ps \<subseteq> fst ` set (sandbox_preps pc)" "fst ` set ds = fst ` set (sandbox_destrs pc)"
      "fst ` set ss = fst ` set (pending_snapshots pc)"
  shows "pending_inv X L H B (pc\<lparr>sandbox_preps := ps, sandbox_destrs := ds, pending_snapshots := ss\<rparr>)"
    (is "pending_inv X L H B ?pc")
proof (rule pending_invI)
  note D = pending_invD [OF i]
  have e: "map_of ps w \<noteq> None \<Longrightarrow> map_of (sandbox_preps pc) w \<noteq> None"
    "map_of ds w \<noteq> None \<longleftrightarrow> map_of (sandbox_destrs pc) w \<noteq> None"
    "map_of ss s \<noteq> None \<longleftrightarrow> map_of (pending_snapshots pc) s \<noteq> None" for w s
    by (simp add: map_of_eq_None_iff subsetD [OF k(1)], simp_all only: map_of_eq_None_iff k)
  show "map_of (sandbox_destrs ?pc) v \<noteq> None \<longleftrightarrow> op_by_worker ?pc v = Some OpDestroySandbox" for v
    using D(6) [of v] e(2) [of v] by simp
  show "op_by_worker ?pc v = Some OpPrepareSandbox" if "map_of (sandbox_preps ?pc) v \<noteq> None" for v
    using D(7) [OF e(1), of v] that by simp
  show "map_of (pending_snapshots ?pc) s \<noteq> None
      \<longleftrightarrow> (\<exists>v. B s = Some v \<and> op_by_worker ?pc v = Some OpSnapshot \<and> X \<noteq> Some v)" for s
    using D(8) [of s] e(3) [of s] by simp
  show "H v \<noteq> None" if "op_by_worker ?pc v \<noteq> None" for v using D(4) [of v] that by simp
  show "L v \<noteq> Some (Idle, fid)" if "op_by_worker ?pc v \<noteq> None" "X \<noteq> Some v" for v fid
    using D(5) [of v fid] that by simp
  show "\<exists>s. B s = Some v" if "op_by_worker ?pc v = Some OpSnapshot" for v using D(9) [of v] that by simp
qed (simp_all add: d)

lemma pending_inv_join_destr:
  assumes "pending_inv X L H B pc" "map_of (sandbox_destrs pc) w = Some d"
  shows "pending_inv X L H B (pc\<lparr>sandbox_destrs := AList.update w d' (sandbox_destrs pc)\<rparr>)"
  using pending_inv_contexts [OF assms(1), of "sandbox_preps pc" "AList.update w d' (sandbox_destrs pc)"
      "pending_snapshots pc"] pending_invD(1-3) [OF assms(1)] imageI [OF map_of_SomeD [OF assms(2)], of fst]
  by (simp add: dom_update insert_absorb)

lemma pending_inv_join_snap:
  assumes "pending_inv X L H B pc" "map_of (pending_snapshots pc) sid = Some x"
  shows "pending_inv X L H B (pc\<lparr>pending_snapshots := AList.update sid x' (pending_snapshots pc)\<rparr>)"
  using pending_inv_contexts [OF assms(1), of "sandbox_preps pc" "sandbox_destrs pc"
      "AList.update sid x' (pending_snapshots pc)"] pending_invD(1-3) [OF assms(1)] imageI [OF map_of_SomeD [OF assms(2)], of fst]
  by (simp add: dom_update insert_absorb)

lemma pending_inv_drop_prep:
  assumes "pending_inv X L H B pc"
  shows "pending_inv X L H B (pc\<lparr>sandbox_preps := AList.delete w (sandbox_preps pc)\<rparr>)"
  using pending_inv_contexts [OF assms(1), of "AList.delete w (sandbox_preps pc)" "sandbox_destrs pc"
      "pending_snapshots pc"] pending_invD(1-3) [OF assms(1)] by (simp add: dom_delete_subset)

text \<open>Dropping the operation of the worker in focus.\<close>

lemma pending_inv_done:
  assumes i: "pending_inv (Some w) L H B pc" and p: "map_of (sandbox_preps pc) w = None"
    and d: "map_of (sandbox_destrs pc) w = None"
  shows "pending_inv None L H B (pc\<lparr>op_by_worker := (op_by_worker pc)(w := None)\<rparr>)" (is "pending_inv None L H B ?pc")
proof (rule pending_invI)
  note D = pending_invD [OF i]
  show "H v \<noteq> None" if "op_by_worker ?pc v \<noteq> None" for v
    using D(4) [of v] that by (cases "v = w") auto
  show "L v \<noteq> Some (Idle, fid)" if "op_by_worker ?pc v \<noteq> None" "None \<noteq> Some v" for v fid
    using D(5) [of v fid] that by (cases "v = w") auto
  show "map_of (sandbox_destrs ?pc) v \<noteq> None \<longleftrightarrow> op_by_worker ?pc v = Some OpDestroySandbox" for v
    using D(6) [of v] d by (cases "v = w") auto
  show "op_by_worker ?pc v = Some OpPrepareSandbox" if "map_of (sandbox_preps ?pc) v \<noteq> None" for v
    using D(7) [of v] that p by (cases "v = w") auto
  show "map_of (pending_snapshots ?pc) s \<noteq> None
      \<longleftrightarrow> (\<exists>v. B s = Some v \<and> op_by_worker ?pc v = Some OpSnapshot \<and> None \<noteq> Some v)" for s
    using D(8) [of s] by (cases "B s = Some w") auto
  show "\<exists>s. B s = Some v" if "op_by_worker ?pc v = Some OpSnapshot" for v
    using D(9) [of v] that by (cases "v = w") auto
qed (use pending_invD(1-3) [OF i] in simp_all)

lemma pending_inv_focus:
  assumes "pending_inv None L H B pc" "op_by_worker pc w \<noteq> Some OpSnapshot"
  shows "pending_inv (Some w) L H B pc"
  using assms unfolding pending_inv_def by auto

lemma pending_inv_focus_snap:
  assumes i: "pending_inv None L H B pc" and b: "B sid = Some w" "\<And>s. B s = Some w \<Longrightarrow> s = sid"
    and o: "op_by_worker pc w = Some OpSnapshot"
  shows "pending_inv (Some w) L H B (pc\<lparr>pending_snapshots := AList.delete sid (pending_snapshots pc)\<rparr>)"
    (is "pending_inv _ L H B ?pc")
proof (rule pending_invI)
  note D = pending_invD [OF i]
  show "map_of (pending_snapshots ?pc) s \<noteq> None
      \<longleftrightarrow> (\<exists>v. B s = Some v \<and> op_by_worker ?pc v = Some OpSnapshot \<and> Some w \<noteq> Some v)" for s
  proof (cases "s = sid")
    case False
    then have "B s \<noteq> Some w" using b(2) by blast
    then show ?thesis using D(8) [of s] False by (cases "B s") (auto simp: map_of_delete)
  qed (simp add: map_of_delete b(1))
  show "op_by_worker ?pc v = Some OpPrepareSandbox" if "map_of (sandbox_preps ?pc) v \<noteq> None" for v
    using D(7) [of v] that by simp
  show "map_of (sandbox_destrs ?pc) v \<noteq> None \<longleftrightarrow> op_by_worker ?pc v = Some OpDestroySandbox" for v
    using D(6) [of v] by simp
  show "L v \<noteq> Some (Idle, fid)" if "op_by_worker ?pc v \<noteq> None" for v fid
    using D(5) [of v fid] that by simp
  show "H v \<noteq> None" if "op_by_worker ?pc v \<noteq> None" for v
    using D(4) [of v] that by simp
  show "\<exists>s. B s = Some v" if "op_by_worker ?pc v = Some OpSnapshot" for v
    using D(9) [of v] that by simp
qed (use pending_invD(1-3) [OF i] in simp_all)

lemma one_sandbox:
  assumes "sandbox_inv R H B Os" "B s = Some w" "B t = Some w"
  shows "s = t"
  using sandbox_invD(1) [OF assms(1), of s w] sandbox_invD(1) [OF assms(1), of t w] assms(2,3) by auto

text \<open>
  A request keeps the invariant and the account of its caller \<open>wt\<close>: the caller waits, has been answered, or
  is given back with the error.
\<close>

abbreviation req_ok :: "'q pq_ops \<Rightarrow> bool \<Rightarrow> registry \<Rightarrow> 'q pool \<Rightarrow> waiter option \<Rightarrow> 'q pool \<Rightarrow> bool" where
  "req_ok pq M R p wt p' \<equiv> pool_ok pq M R at_rest p' \<and> owed p' = owed p + caller wt"

abbreviation req_err ::
  "'q pq_ops \<Rightarrow> bool \<Rightarrow> registry \<Rightarrow> 'q pool \<Rightarrow> waiter option \<Rightarrow> 'e \<times> waiter option \<Rightarrow> 'q pool \<Rightarrow> bool" where
  "req_err pq M R p wt x p' \<equiv> pool_ok pq M R at_rest p' \<and> owed p' + caller (snd x) = owed p + caller wt"

lemma owed_set_pending:
  "waiting (g (pending p)) + C = waiting (pending p) + D \<Longrightarrow> owed (set_pending g p) + C = owed p + D"
  by (simp add: owed_def set_pending_def ac_simps)

lemma owed_set_op [simp]: "owed (set_pending (\<lambda>pc. pc\<lparr>op_by_worker := f pc\<rparr>) p) = owed p"
  by (simp add: owed_def set_pending_def waiting_def)

section \<open>Preparing a sandbox\<close>

text \<open>
  How a worker that has just been spawned for the sandbox \<open>sb\<close> may end: without a sandbox, with the one
  it was given, or with an error and a sandbox that cannot be used any more.
\<close>

definition early_exit_ok :: "'q penv \<Rightarrow> sandbox option \<Rightarrow> bool" where
  "early_exit_ok en sb \<longleftrightarrow> (\<forall>w ex. pe_spawn en = Inr w \<longrightarrow> pe_exit en w = Some ex \<longrightarrow>
     (case we_sandbox ex of
        ExitNone \<Rightarrow> True
      | ExitReusable b \<Rightarrow> map_option sb_id sb = Some (sb_id b)
      | ExitTrashed _ \<Rightarrow> we_result ex \<noteq> Inr ()))"

lemma exit_ok_early:
  assumes e: "early_exit_ok en sb" and w: "pe_spawn en = Inr w"
    and b: "\<forall>b. sb = Some b \<longrightarrow> B (sb_id b) = Some w" and i: "sandbox_inv R H B Os" and h: "H w = Some h"
  shows "exit_ok en w h"
  unfolding exit_ok_def
proof (intro allI impI)
  fix ex assume x: "pe_exit en w = Some ex"
  have c: "case we_sandbox ex of ExitNone \<Rightarrow> True | ExitReusable b \<Rightarrow> map_option sb_id sb = Some (sb_id b)
      | ExitTrashed _ \<Rightarrow> we_result ex \<noteq> Inr ()"
    using e w x by (simp add: early_exit_ok_def)
  show "case we_sandbox ex of ExitNone \<Rightarrow> True | ExitReusable b \<Rightarrow> wh_sandbox_id h = Some (sb_id b)
      | ExitTrashed _ \<Rightarrow> we_result ex \<noteq> Inr ()"
  proof (cases "we_sandbox ex")
    case (ExitReusable a)
    then obtain b' where "sb = Some b'" "sb_id b' = sb_id a" using c by auto
    then have "B (sb_id a) = Some w" using b by auto
    then show ?thesis using sandbox_invD(1) [OF i, of "sb_id a" w] h ExitReusable by simp
  qed (use c in simp_all)
qed

abbreviation room :: "'q pool \<Rightarrow> bool" where
  "room p \<equiv> card (dom (cm_allocations (cpuset p))) < 2 ^ 16 - 1"

lemma wp_prep_start:
  assumes ok: "pool_ok (lib_pq en) M R (Some (w, fid, MemInUse), None) p"
    and pq: "pq_spec (lib_pq en)" and bu: "bu_spec (lib_bu en)" and room: "room p"
    and op: "op_by_worker (pending p) w = None"
    and e: "early_exit_ok en sb" "pe_spawn en = Inr w" "\<forall>b. sb = Some b \<longrightarrow> worker_by_sandbox p (sb_id b) = Some w"
  shows "wp (prep_start en w fid opts wt p) (req_err (lib_pq en) M R p wt)
    (\<lambda>_ p'. req_ok (lib_pq en) M R p wt p' \<and> op_by_worker (pending p') w = Some OpPrepareSandbox)"
  unfolding prep_start_def wp_matchE class_ops
proof (rule wp_conseq [OF wp_insert_started [OF ok]], goal_cases)
  case (4 x p1)
  then have i: "pool_ok (lib_pq en) M R at_rest p1" and q: "quiet p p1"
    and l: "where_is (store p1) w = Some (Active, fid)" and n: "cm_allocations (cpuset p1) w = None" by auto
  have q': "cpuset p1 = cpuset p" "pending p1 = pending p" "worker_by_sandbox p1 = worker_by_sandbox p"
    using q by (simp_all add: quiet_def)
  obtain cpu cs where c: "cpuset_alloc (lib_pq en) w (cpuset p1) = (Inr cpu, cs)"
    and ic: "pool_ok (lib_pq en) M R at_rest (p1\<lparr>cpuset := cs\<rparr>)"
    using wp_cpu_alloc [OF i pq l n] room q'(1) by auto
  define g where "g = (\<lambda>pc :: pending_control. pc\<lparr>op_by_worker := (op_by_worker pc)(w \<mapsto> OpPrepareSandbox),
      sandbox_preps := AList.update w
        \<lparr>pp_keepalive_hint = po_initial_keepalive_hint opts, pp_respond_to = wt\<rparr> (sandbox_preps pc)\<rparr>)"
  define p2 where "p2 = set_pending g (p1\<lparr>cpuset := cs\<rparr>)"
  obtain h where h: "handles_of p1 w = Some h" "wh_function_id h = fid" using tracked_handle [OF i l] by blast
  have "pool_ok (lib_pq en) M R (fst at_rest, None) p2"
    unfolding p2_def g_def
    by (rule pool_ok_set_pending [OF ic], rule pending_inv_begin_prep)
      (use pool_okD(10) [OF i] op h l q' in simp_all)
  then have i2: "pool_ok (lib_pq en) M R at_rest p2" by simp
  have s2: "handles_of p2 w = Some h" "worker_by_sandbox p2 = worker_by_sandbox p"
    "op_by_worker (pending p2) w = Some OpPrepareSandbox" "where_is (store p2) = where_is (store p1)"
    by (simp_all add: p2_def h q' g_def)
  let ?cs = "released en w (cpuset p2)"
  let ?p3 = "set_pending (\<lambda>pc. pc\<lparr>sandbox_preps := AList.delete w (sandbox_preps pc)\<rparr>) (p2\<lparr>cpuset := ?cs\<rparr>)"
  note rel = wp_cpu_try_release [OF i2 pq, of w]
  have "pool_ok (lib_pq en) M R (fst at_rest, None) ?p3"
    by (rule pool_ok_set_pending [OF rel(2)], rule pending_inv_drop_prep)
      (use pool_okD(10) [OF i2] in simp)
  then have i3: "pool_ok (lib_pq en) M R at_rest ?p3" by simp
  have ex: "exit_ok en w h"
    using exit_ok_early [OF e(1,2) _ pool_okD(9) [OF i2] s2(1)] e(3) s2(2) by simp
  have f: "R fid \<noteq> None" by (rule tracked_registered [OF i l])
  note reap = wp_reap_worker [OF i3 pq bu f, of w]
  have own: "wh_function_id g = fid \<and> exit_ok en w g" if "handles_of ?p3 w = Some g" for g
    using that s2(1) ex h(2) by simp
  have n: "map_of (sandbox_preps (pending p1)) w = None"
    using no_op_no_context(2) [OF pool_okD(10) [OF i], of w] op q'(2) by simp
  have "owed p2 + {#} = owed (p1\<lparr>cpuset := cs\<rparr>) + caller wt"
    unfolding p2_def
    by (rule owed_set_pending)
      (cases wt; simp add: g_def waiting_def callers_update_new [OF n] prep_callers_def ac_simps)
  then have o2: "owed p2 = owed p + caller wt" using quiet_owed [OF q] by (simp add: owed_def)
  have wt: "Option.bind (map_of (sandbox_preps (pending p2)) w) pp_respond_to = wt"
    by (simp add: p2_def g_def map_of_update)
  have "owed ?p3 + caller wt = owed (p2\<lparr>cpuset := ?cs\<rparr>) + {#}"
    using callers_delete [OF pending_invD(1) [OF pool_okD(10) [OF i2]], of prep_callers w]
    by (intro owed_set_pending)
      (cases wt; simp add: waiting_def p2_def g_def map_of_update prep_callers_def ac_simps)
  then have o3: "owed ?p3 + caller wt = owed p + caller wt" using o2 by (simp add: owed_def)
  show ?case
    unfolding pool_cpu_alloc_eq [OF c] bindE_simps Let_def g_def [symmetric] p2_def [symmetric] s2(1) option.case
      send_control_def
    using i2 s2(3) i3 o2 o3 wt wp_conseq [OF reap [OF own], of "\<lambda>_ p'. req_err (lib_pq en) M R p wt (x, wt) p'"
        "\<lambda>_ p'. req_err (lib_pq en) M R p wt (x, wt) p'" for x]
    by (auto simp: wp_matchE wp_bindE rel(1) owed_def split: if_splits)
qed simp_all

lemma penv_okD:
  assumes "penv_ok en p"
  shows "pq_spec (lib_pq en)" "bu_spec (lib_bu en)" "eviction_policy (pe_evict en)"
    "\<And>w. pe_spawn en = Inr w \<Longrightarrow> handles_of p w = None" "room p"
  using assms by (simp_all add: penv_ok_def)

definition offered :: "function_id \<Rightarrow> prepare_options \<Rightarrow> 'q pool \<Rightarrow> sandbox option" where
  "offered fid opts p = (if po_mode opts = ForceFresh then None else fst (pick_orphan_snapshot fid p))"

text \<open>Spawning the worker, evicting and starting the preparation, for a sandbox already picked.\<close>

lemma wp_prep_spawn:
  assumes ok: "pool_ok (lib_pq en) M R at_rest p" and en: "penv_ok en p" and f: "R fid \<noteq> None"
    and sb: "fresh_sandbox sb p" and e: "early_exit_ok en sb"
    and fit: "fits (lib_bu en) (memory p) (rmem R fid)"
  shows "wp (matchE (spawn_new_worker en fid sb p)
      (\<lambda>e p. (Inl (Err (PrepInternal ''failed while creating new Worker'' (Some e), wt)), p))
      (\<lambda>w p. bindE (evict_if_high en p) (\<lambda>_ p. prep_start en w fid opts wt p)))
    (req_err (lib_pq en) M R p wt) (\<lambda>_. req_ok (lib_pq en) M R p wt)"
  unfolding wp_matchE
proof (rule wp_conseq [OF wp_spawn_new_worker [OF ok f sb penv_okD(4) [OF en] penv_okD(2) [OF en] fit]], goal_cases)
  case (3 w p1)
  then have w: "pe_spawn en = Inr w" and i: "pool_ok (lib_pq en) M R (Some (w, fid, MemInUse), None) p1"
    and q: "cpuset p1 = cpuset p" "pending p1 = pending p" "control_replies p1 = control_replies p"
    and b: "\<forall>b. sb = Some b \<longrightarrow> worker_by_sandbox p1 (sb_id b) = Some w" by auto
  have o: "op_by_worker (pending p) w = None"
    using pending_invD(4) [OF pool_okD(10) [OF ok], of w] penv_okD(4) [OF en w] by blast
  show ?case
    unfolding wp_bindE
  proof (rule wp_conseq [OF wp_evict_if_high [OF i penv_okD(2,3) [OF en]]], goal_cases)
    case (2 x p2)
    then have i2: "pool_ok (lib_pq en) M R (Some (w, fid, MemInUse), None) p2"
      and q2: "cpuset p2 = cpuset p" "pending p2 = pending p" "worker_by_sandbox p2 = worker_by_sandbox p1"
        "control_replies p2 = control_replies p"
      using q by (simp_all add: quiet_def)
    have o2: "owed p2 = owed p" using q2(2,4) by (rule owed_cong)
    show ?case
      using penv_okD(5) [OF en] o b q2 o2
      by (intro wp_conseq [OF wp_prep_start [OF i2 penv_okD(1,2) [OF en] _ _ e w]]) simp_all
  qed simp
qed simp_all

lemma wp_prep_picked:
  assumes ok: "pool_ok (lib_pq en) M R at_rest p" and en: "penv_ok en p" and f: "R fid \<noteq> None"
    and sb: "fresh_sandbox sb p" and e: "early_exit_ok en sb"
  shows "wp (if fits (lib_bu en) (memory p) (rmem R fid)
      then matchE (spawn_new_worker en fid sb p)
        (\<lambda>e p. (Inl (Err (PrepInternal ''failed while creating new Worker'' (Some e), wt)), p))
        (\<lambda>w p. bindE (evict_if_high en p) (\<lambda>_ p. prep_start en w fid opts wt p))
      else bindE (evict_if_high en p) (\<lambda>_ p. (Inl (Err (OutOfMemory, wt)), p)))
    (req_err (lib_pq en) M R p wt) (\<lambda>_. req_ok (lib_pq en) M R p wt)"
proof -
  have "wp (bindE (evict_if_high en p) (\<lambda>_ p. (Inl (Err (OutOfMemory, wt)), p)))
      (req_err (lib_pq en) M R p wt) (\<lambda>_ :: unit. req_ok (lib_pq en) M R p wt)"
    unfolding wp_bindE
    by (rule wp_conseq [OF wp_evict_if_high [OF ok penv_okD(2,3) [OF en]]]) (simp_all add: quiet_owed)
  then show ?thesis using wp_prep_spawn [OF assms] by simp
qed

lemma wp_request_sandbox_prep:
  assumes ok: "pool_ok (lib_pq en) M R at_rest p" and en: "penv_ok en p"
    and e: "early_exit_ok en (offered fid opts p)"
  shows "wp (request_sandbox_prep en fid opts wt p)
    (req_err (lib_pq en) M R p wt) (\<lambda>_. req_ok (lib_pq en) M R p wt)"
proof (cases "R fid = None")
  case True
  then show ?thesis
    using ok pool_okD(2) [OF ok] by (simp add: request_sandbox_prep_def function_exists_registered)
next
  case False
  note D = pool_okD [OF ok]
  have x: "function_exists fid (store p)" using D(2) False by (simp add: function_exists_registered)
  note rd = read_memory_eq [OF D(2) False]
  note none = wp_prep_picked [OF ok en False, of None wt opts]
  show ?thesis
    using pool_ok_pick [OF ok, of fid]
  proof (elim disjE exE conjE)
    assume n: "pick_orphan_snapshot fid p = (None, p)"
    then have "offered fid opts p = None" by (simp add: offered_def)
    then show ?thesis
      using none e n x ok
      by (cases "po_mode opts") (simp_all add: rd request_sandbox_prep_def Let_def fresh_sandbox_def)
  next
    fix sb ss
    assume s: "pick_orphan_snapshot fid p = (Some sb, p\<lparr>snapshots := ss\<rparr>)"
      and i: "pool_ok (lib_pq en) M R at_rest (p\<lparr>snapshots := ss\<rparr>)"
      and b: "worker_by_sandbox p (sb_id sb) = None" "sb_id sb \<notin># orphan_ids (orphans ss)"
    have en': "penv_ok en (p\<lparr>snapshots := ss\<rparr>)" using en by (simp add: penv_ok_def)
    have fr: "fresh_sandbox (Some sb) (p\<lparr>snapshots := ss\<rparr>)" using b by (simp add: fresh_sandbox_def)
    have o: "owed (p\<lparr>snapshots := ss\<rparr>) = owed p" by (simp add: owed_def)
    show ?thesis
    proof (cases "po_mode opts = ForceFresh")
      case True
      then show ?thesis
        using none e x True by (simp add: rd request_sandbox_prep_def offered_def fresh_sandbox_def)
    next
      case nf: False
      then have "offered fid opts p = Some sb" by (simp add: offered_def s)
      then have "early_exit_ok en (Some sb)" using e by simp
      from wp_prep_picked [OF i en' False fr this, of wt opts] show ?thesis
        using nf x s o by (cases "po_mode opts") (simp_all add: rd request_sandbox_prep_def)
    qed
  qed
qed

section \<open>Destroying a sandbox\<close>

lemma wp_then_destroy:
  assumes "pool_ok pq M R F p1" "quiet p p1" "where_is (store p1) w = Some (Dying, fid)"
  shows "wp (worker_destroy en w p1) (\<lambda>_ p'. pool_ok pq M R F p' \<and> quiet p p')
    (\<lambda>_ p'. pool_ok pq M R F p' \<and> quiet p p' \<and> where_is (store p') w = Some (Dying, fid))"
proof -
  have "handles_of p1 w \<noteq> None" using assms(3) by (intro tracked_handle_not_None [OF assms(1)]) simp
  from wp_worker_destroy [OF this, of en] show ?thesis
    by (rule wp_conseq) (use assms in \<open>auto simp: quiet_def\<close>)
qed

lemma wp_destroy_idle_worker:
  assumes ok: "pool_ok pq M R F p" and bu: "bu_spec (lib_bu en)"
    and l: "where_is (store p) w = Some (Idle, fid)"
  shows "wp (destroy_idle_worker en w fid r p) (\<lambda>_ p'. pool_ok pq M R F p' \<and> quiet p p')
    (\<lambda>_ p'. pool_ok pq M R F p' \<and> quiet p p' \<and> where_is (store p') w = Some (Dying, fid))"
proof (cases r)
  case False
  show ?thesis
    unfolding destroy_idle_worker_def
    by (simp add: False, rule wp_conseq [OF wp_decommission_idle [OF ok bu l, where fo = "Some fid"]]) auto
next
  case True
  have "wp (bindE (idle_worker_to_dying en w fid p) (\<lambda>_. worker_destroy en w))
      (\<lambda>_ p'. pool_ok pq M R F p' \<and> quiet p p')
      (\<lambda>_ p'. pool_ok pq M R F p' \<and> quiet p p' \<and> where_is (store p') w = Some (Dying, fid))"
    unfolding wp_bindE
    by (rule wp_conseq [OF wp_idle_worker_to_dying [OF ok bu, of w fid]]) (simp_all add: ok wp_then_destroy)
  then show ?thesis by (simp add: destroy_idle_worker_def True)
qed

lemma wp_destroy_active_worker:
  assumes ok: "pool_ok pq M R F p" and bu: "bu_spec (lib_bu en)"
  shows "wp (destroy_active_worker en w fid r p) (\<lambda>_ p'. pool_ok pq M R F p' \<and> quiet p p')
    (\<lambda>_ p'. pool_ok pq M R F p' \<and> quiet p p' \<and> where_is (store p') w = Some (Dying, fid))"
proof -
  have e: "wp (bindE (active_worker_to_dying en w fid p) k)
      (\<lambda>_ p'. pool_ok pq M R F p' \<and> quiet p p')
      (\<lambda>_ p'. pool_ok pq M R F p' \<and> quiet p p' \<and> where_is (store p') w = Some (Dying, fid))"
    if "k = (\<lambda>_. worker_shutdown en w) \<or> k = (\<lambda>_. worker_destroy en w)" for k
    unfolding wp_bindE
  proof (rule wp_conseq [OF wp_active_worker_to_dying [OF ok bu, of w fid]], goal_cases)
    case (2 x p1)
    then have i: "pool_ok pq M R F p1" "quiet p p1" "where_is (store p1) w = Some (Dying, fid)" by auto
    then have "handles_of p1 w \<noteq> None" by (intro tracked_handle_not_None [OF i(1)]) simp
    then have "wp (worker_shutdown en w p1) (\<lambda>_ p'. pool_ok pq M R F p' \<and> quiet p p')
        (\<lambda>_ p'. pool_ok pq M R F p' \<and> quiet p p' \<and> where_is (store p') w = Some (Dying, fid))"
      by (rule wp_conseq [OF wp_worker_shutdown]) (use i in \<open>auto simp: quiet_def\<close>)
    then show ?case using that wp_then_destroy [OF i] by auto
  qed (simp add: ok)
  show ?thesis by (auto simp: destroy_active_worker_def deactivate_worker_def intro: e)
qed

lemma find_snapshot_Some:
  assumes "find_snapshot sid ss = Some (fid, i)" "distinct (keys ss)"
  shows "\<exists>sbs. map_of ss fid = Some sbs \<and> i < length sbs \<and> sb_id (sbs ! i) = sid"
  using assms
proof (induction sid ss rule: find_snapshot.induct)
  case (2 sid g sbs ss)
  show ?case
  proof (cases "List.find (\<lambda>i. sb_id (sbs ! i) = sid) [0..<length sbs]")
    case None
    then have "find_snapshot sid ss = Some (fid, i)" using 2 by simp
    moreover from this obtain t where t: "map_of ss fid = Some t" "i < length t" "sb_id (t ! i) = sid"
      using "2.IH" [OF None] "2.prems" by auto
    ultimately have "fid \<noteq> g" using "2.prems"(2) map_of_SomeD [OF t(1)] by (force simp: image_iff)
    then show ?thesis using t by auto
  next
    case (Some j)
    then have "fid = g" "i = j" using "2.prems"(1) by simp_all
    moreover have "j < length sbs" "sb_id (sbs ! j) = sid"
      using Some by (auto simp: find_Some_iff)
    ultimately show ?thesis by simp
  qed
qed simp

lemma wp_spawn_uncharged:
  assumes ok: "pool_ok pq M R at_rest p" and f: "R fid \<noteq> None" and sb: "fresh_sandbox sb p"
    and new: "\<And>w. pe_spawn en = Inr w \<Longrightarrow> handles_of p w = None"
  shows "wp (spawn_untracked_worker en fid sb MemUncharged p) (\<lambda>e p'. pool_ok pq M R at_rest p' \<and> owed p' = owed p)
    (\<lambda>w p'. pool_ok pq M R (Some (w, fid, MemUncharged), None) p' \<and> op_by_worker (pending p') w = None
      \<and> owed p' = owed p)"
proof (rule wp_conseq [OF wp_spawn_untracked [OF ok f sb new, where acct = MemUncharged]], goal_cases)
  case (3 w p1)
  then obtain h B where w: "pe_spawn en = Inr w" and i: "pool_ok pq False R (Some (w, fid, MemUncharged), None) p1"
    and h: "wh_mem_accounting h = MemUncharged"
    and p1: "p1 = p\<lparr>worker_handles := AList.update w h (worker_handles p), worker_by_sandbox := B\<rparr>" by blast
  have "mem_inv R (worker_handles p1) (memory p1)" if M
    using pool_okD(11) [OF ok that] new [OF w] h by (simp add: p1 mem_inv_def charge_update_new)
  moreover have "op_by_worker (pending p) w = None"
    using pending_invD(4) [OF pool_okD(10) [OF ok], of w] new [OF w] by blast
  ultimately show ?case using i by (simp add: pool_ok_def p1 owed_def)
qed simp_all

lemma wp_destroy_orphan_snapshot:
  assumes ok: "pool_ok pq M R at_rest p" and new: "\<And>w. pe_spawn en = Inr w \<Longrightarrow> handles_of p w = None"
  shows "wp (destroy_orphan_snapshot en sid wt p) (req_err pq M R p wt)
    (\<lambda>w p'. pool_ok pq M R at_rest p' \<and> op_by_worker (pending p') w = None \<and> owed p' = owed p
      \<and> (\<exists>fid. where_is (store p') w = Some (Dying, fid)))"
proof (cases "find_snapshot sid (snapshots p)")
  case None
  then show ?thesis using ok by (simp add: destroy_orphan_snapshot_def)
next
  case (Some x)
  note D = pool_okD [OF ok]
  obtain fid i where x: "x = (fid, i)" by (cases x)
  then obtain sbs where m: "map_of (snapshots p) fid = Some sbs" and i: "i < length sbs"
    using find_snapshot_Some [of sid "snapshots p" fid i] Some D(4) by auto
  let ?ss = "AList.update fid (remove_nth i sbs) (snapshots p)" and ?sb = "sbs ! i"
  note d = sandbox_inv_drop [OF D(9) [unfolded orphans_remove [OF D(4) m i]]]
  have ok': "pool_ok pq M R at_rest (p\<lparr>snapshots := ?ss\<rparr>)"
    using pool_ok_snapshots [OF ok _ d(1)] D(4) by simp
  have fr: "fresh_sandbox (Some ?sb) (p\<lparr>snapshots := ?ss\<rparr>)" using d(2,3) by (simp add: fresh_sandbox_def)
  have f: "R fid \<noteq> None" using d(4) by simp
  have new': "handles_of (p\<lparr>snapshots := ?ss\<rparr>) w = None" if "pe_spawn en = Inr w" for w
    using new [OF that] by simp
  show ?thesis
    unfolding destroy_orphan_snapshot_def Some x option.case prod.case m Let_def wp_matchE class_ops
  proof (rule wp_conseq [OF wp_spawn_uncharged [OF ok' f fr new']], goal_cases)
    case (3 w p1)
    then have i1: "pool_ok pq M R (Some (w, fid, MemUncharged), None) p1" "op_by_worker (pending p1) w = None"
      "owed p1 = owed p" by (simp_all add: owed_def)
    show ?case
    proof (rule wp_conseq [OF wp_insert_started [OF i1(1)]], goal_cases)
      case (4 u p2)
      then have i2: "pool_ok pq M R at_rest p2" "quiet p1 p2" "where_is (store p2) w = Some (Dying, fid)" by auto
      show ?case
        by (rule wp_conseq [OF wp_then_destroy [OF i2]])
          (use i1(2,3) in \<open>auto simp: quiet_def owed_def\<close>)
    qed simp_all
  qed (simp_all add: owed_def)
qed

lemma wp_destr_target:
  assumes ok: "pool_ok pq M R at_rest p" and new: "\<And>w. pe_spawn en = Inr w \<Longrightarrow> handles_of p w = None"
  shows "wp (destr_target en sid opts wt p) (req_err pq M R p wt)
    (\<lambda>t p'. pool_ok pq M R at_rest p' \<and> (\<forall>w. t = Some w \<longrightarrow> op_by_worker (pending p') w = None)
      \<and> owed p' = owed p + (if t = None then caller wt else {#}))"
proof (cases "worker_by_sandbox p sid")
  case None
  have "wp (destroy_orphan_snapshot en sid wt p) (req_err pq M R p wt)
      (\<lambda>w p'. pool_ok pq M R at_rest p' \<and> op_by_worker (pending p') w = None \<and> owed p' = owed p)"
    by (rule wp_conseq [OF wp_destroy_orphan_snapshot [OF ok new]]) simp_all
  then show ?thesis using None ok by (simp add: destr_target_def wp_matchE)
next
  case (Some w)
  note D = pool_okD [OF ok]
  show ?thesis
  proof (cases "op_by_worker (pending p) w = Some OpDestroySandbox")
    case True
    then obtain d where d: "map_of (sandbox_destrs (pending p)) w = Some d"
      using pending_invD(6) [OF D(10), of w] by auto
    let ?g = "\<lambda>pc. pc\<lparr>sandbox_destrs := AList.update w
      (d\<lparr>pd_respond_to := pd_respond_to d @ (case wt of None \<Rightarrow> [] | Some t \<Rightarrow> [t])\<rparr>) (sandbox_destrs pc)\<rparr>"
    have "pool_ok pq M R (fst at_rest, None) (set_pending ?g p)"
      by (rule pool_ok_set_pending [OF ok], rule pending_inv_join_destr [OF _ d]) (use D(10) in simp)
    moreover from callers_update [OF pending_invD(2) [OF D(10)] d, of pd_respond_to
        "d\<lparr>pd_respond_to := pd_respond_to d @ (case wt of None \<Rightarrow> [] | Some t \<Rightarrow> [t])\<rparr>"]
    have "owed (set_pending ?g p) + mset (pd_respond_to d) = owed p + mset (pd_respond_to d @ (case wt of None \<Rightarrow> [] | Some t \<Rightarrow> [t]))"
      by (intro owed_set_pending) (simp add: waiting_def ac_simps)
    then have "owed (set_pending ?g p) = owed p + caller wt" by (cases wt) simp_all
    ultimately show ?thesis using Some True d by (simp add: destr_target_def)
  next
    case False
    then show ?thesis
      using Some ok by (auto simp: destr_target_def split: option.split pending_op.split)
  qed
qed

lemma wp_destr_begin:
  assumes ok: "pool_ok pq M R at_rest p" and bu: "bu_spec (lib_bu en)"
  shows "wp (destr_begin en w opts wt p) (req_err pq M R p wt)
    (\<lambda>_ p'. pool_ok pq M R at_rest p' \<and> pending p' = pending p \<and> owed p' = owed p
      \<and> (\<exists>fid. where_is (store p') w = Some (Dying, fid)))"
proof -
  note f = find_worker_iff [OF pool_okD(1) [OF ok]]
  note fs = f [of Idle w, folded find_idle_worker_def] f [of Active w, folded find_active_worker_def]
    f [of Dying w, folded find_dying_worker_def]
  show ?thesis
  proof (cases "find_idle_worker w (store p)")
    case (Some fid)
    have "wp (destroy_idle_worker en w fid (do_remove_persisted_snapshot opts) p)
      (\<lambda>_ p'. pool_ok pq M R at_rest p' \<and> owed p' = owed p)
      (\<lambda>_ p'. pool_ok pq M R at_rest p' \<and> pending p' = pending p \<and> owed p' = owed p \<and> (\<exists>fid. where_is (store p') w = Some (Dying, fid)))"
      using Some fs(1) by (intro wp_conseq [OF wp_destroy_idle_worker [OF ok bu]]) (auto simp: quiet_def owed_def)
    then show ?thesis using Some by (simp add: destr_begin_def wp_matchE)
  next
    case n: None
    show ?thesis
    proof (cases "find_active_worker w (store p)")
      case (Some fid)
      have "wp (destroy_active_worker en w fid (do_remove_persisted_snapshot opts) p)
        (\<lambda>_ p'. pool_ok pq M R at_rest p' \<and> owed p' = owed p)
        (\<lambda>_ p'. pool_ok pq M R at_rest p' \<and> pending p' = pending p \<and> owed p' = owed p \<and> (\<exists>fid. where_is (store p') w = Some (Dying, fid)))"
        by (intro wp_conseq [OF wp_destroy_active_worker [OF ok bu]]) (auto simp: quiet_def owed_def)
      then show ?thesis using n Some ok by (simp add: destr_begin_def wp_matchE)
    next
      case None
      then show ?thesis using n ok fs(3) by (auto simp: destr_begin_def split: option.split)
    qed
  qed
qed

lemma wp_request_sandbox_destr:
  assumes ok: "pool_ok pq M R at_rest p" and bu: "bu_spec (lib_bu en)"
    and new: "\<And>w. pe_spawn en = Inr w \<Longrightarrow> handles_of p w = None"
  shows "wp (request_sandbox_destr en sid opts wt p) (req_err pq M R p wt) (\<lambda>_. req_ok pq M R p wt)"
  unfolding request_sandbox_destr_def wp_bindE
proof (rule wp_conseq [OF wp_destr_target [OF ok new]], goal_cases)
  case (3 t p1)
  show ?case
  proof (cases t)
    case None
    then show ?thesis using 3 by simp
  next
    case (Some w)
    then have i1: "pool_ok pq M R at_rest p1" "op_by_worker (pending p1) w = None" "owed p1 = owed p" using 3 by auto
    show ?thesis
      unfolding Some option.case wp_bindE
    proof (rule wp_conseq [OF wp_destr_begin [OF i1(1) bu]], goal_cases)
      case (2 u p2)
      then obtain fid where l: "where_is (store p2) w = Some (Dying, fid)"
        and i2: "pool_ok pq M R at_rest p2" "pending p2 = pending p1" "owed p2 = owed p1" by auto
      have h: "handles_of p2 w \<noteq> None" using l by (intro tracked_handle_not_None [OF i2(1)]) simp
      let ?g = "\<lambda>pc. pc\<lparr>op_by_worker := (op_by_worker pc)(w \<mapsto> OpDestroySandbox),
          sandbox_destrs := AList.update w
            \<lparr>pd_remove_snapshot = do_remove_persisted_snapshot opts,
             pd_respond_to = (case wt of None \<Rightarrow> [] | Some t \<Rightarrow> [t])\<rparr> (sandbox_destrs pc)\<rparr>"
      have n: "map_of (sandbox_destrs (pending p2)) w = None"
        using no_op_no_context(1) [OF pool_okD(10) [OF i2(1)], of w] i1(2) i2(2) by simp
      have "owed (set_pending ?g p2) + {#} = owed p2 + caller wt"
        by (rule owed_set_pending) (cases wt; simp add: waiting_def callers_update_new [OF n])
      then have o2: "owed (set_pending ?g p2) = owed p + caller wt" using i1(3) i2(3) by simp
      have "pool_ok pq M R (fst at_rest, None) (set_pending ?g p2)"
        by (rule pool_ok_set_pending [OF i2(1)], rule pending_inv_begin_destr)
          (use h pool_okD(10) [OF i2(1)] i1(2) i2(2) l in simp_all)
      then show ?case using o2 by simp
    qed (simp add: i1(3))
  qed
qed simp_all

section \<open>Creating a snapshot\<close>

text \<open>An idle worker becomes Active: its timer is stopped and its deadline dropped.\<close>

lemma pool_ok_activate:
  assumes ok: "pool_ok pq M R F p" and l: "where_is (store p) w = Some (Idle, fid)"
    and s: "store_inv s" "where_is s = (where_is (store p))(w \<mapsto> (Active, fid))" "registered s = R"
  shows "pool_ok pq M R F (p\<lparr>timers := (timers p)(w := None), store := s,
    worker_deadlines := (worker_deadlines p)(w := None)\<rparr>)" (is "pool_ok pq M R F ?p")
proof (rule pool_okI)
  note D = pool_okD [OF ok]
  show "track_inv (fst F) (where_is (store ?p)) (handles_of ?p)"
    using track_inv_move_same [OF D(5) l, of Active] s by simp
  show "idle_inv (where_is (store ?p)) (timers ?p) (worker_deadlines ?p)"
    using idle_inv_busy [OF D(7), of Active w fid] s by simp
  show "cpu_inv pq (where_is (store ?p)) (cpuset ?p)"
    using cpu_inv_move [OF D(8), of Active w fid] s by simp
  show "pending_inv (snd F) (where_is (store ?p)) (handles_of ?p) (worker_by_sandbox ?p) (pending ?p)"
    using pending_inv_move [OF D(10), of Active w "handles_of p" fid] s by simp
qed (use pool_okD [OF ok] s in simp_all)

lemma pool_ok_same_store:
  assumes "pool_ok pq M R F p" "store_inv s" "where_is s = where_is (store p)" "registered s = R"
  shows "pool_ok pq M R F (p\<lparr>store := s\<rparr>)"
  using assms by (simp add: pool_ok_def)

lemma pool_ok_same_timer:
  assumes ok: "pool_ok pq M R F p" and "\<And>fid. where_is (store p) w \<noteq> Some (Idle, fid)"
  shows "pool_ok pq M R F (stop_timer w p)" "stop_timer w p = p"
    "p\<lparr>worker_deadlines := (worker_deadlines p)(w := None)\<rparr> = p"
  using idle_inv_none(3,4) [OF pool_okD(7) [OF ok] assms(2)] ok by (simp_all add: stop_timer_def)

lemma wp_snap_activate:
  assumes ok: "pool_ok pq M R at_rest p" and h: "handles_of p w = Some h"
  shows "wp (snap_activate w (wh_function_id h) sid wt (stop_timer w p)) (req_err pq M R p wt)
    (\<lambda>_ p'. pool_ok pq M R at_rest (p'\<lparr>worker_deadlines := (worker_deadlines p')(w := None)\<rparr>)
      \<and> where_is (store p') w = Some (Active, wh_function_id h) \<and> pending p' = pending p
      \<and> worker_by_sandbox p' = worker_by_sandbox p \<and> worker_handles p' = worker_handles p
      \<and> control_replies p' = control_replies p)"
proof -
  note D = pool_okD [OF ok]
  let ?f = "wh_function_id h"
  define q where "q = stop_timer w p"
  have q: "store q = store p" by (simp add: q_def stop_timer_def)
  obtain c where l: "where_is (store p) w = Some (c, ?f)" using track_invD(4) [OF D(5)] h by auto
  have reg: "registered (store p) ?f \<noteq> None" using tracked_registered [OF ok l] D(2) by simp
  show ?thesis
    unfolding snap_activate_def wp_matchE wp_on_store class_ops q_def [symmetric] q
  proof (rule wp_remove_worker [OF D(1) reg], goal_cases)
    case (1 s)
    have c: "registered s ?f \<noteq> None" "where_is s w = None" using 1 reg by simp_all
    have t: "store (q\<lparr>store := s\<rparr>) = s" by simp
    show ?case
      unfolding if_True wp_matchE wp_on_store t
    proof (rule wp_insert_worker [OF 1(2) c(2,1)], goal_cases)
      case (1 s')
      have "where_is s' = (where_is (store p))(w \<mapsto> (Active, ?f))"
        using 1 \<open>where_is s = (where_is (store p))(w := None)\<close> by simp
      moreover have "registered s' = R" using 1 \<open>registered s = registered (store p)\<close> D(2) by simp
      ultimately show ?case
        using pool_ok_activate [OF ok \<open>where_is (store p) w = Some (Idle, ?f)\<close> 1(1)]
        by (simp add: q_def stop_timer_def)
    qed
  next
    case (2 s)
    have ni: "where_is (store p) w \<noteq> Some (Idle, g)" for g using 2(1) l by auto
    have e: "q = p" unfolding q_def by (rule pool_ok_same_timer(2) [OF ok ni])
    have i: "pool_ok pq M R at_rest (p\<lparr>store := s\<rparr>)" using pool_ok_same_store [OF ok 2(2)] 2 D(2) by simp
    have d: "(worker_deadlines p)(w := None) = worker_deadlines p"
      using idle_inv_none(4) [OF D(7) ni] .
    have "where_is s w = Some (c, ?f)" using 2(3) l by simp
    then show ?case
      using i d find_worker_iff [OF 2(2), of Active w] unfolding e find_active_worker_def
      by (auto simp: owed_def)
  qed
qed

lemma wp_snap_start:
  assumes ok: "pool_ok pq M R at_rest p" and h: "handles_of p w = Some h"
    and o: "op_by_worker (pending p) w = None" and b: "worker_by_sandbox p sid = Some w"
  shows "wp (snap_start en w (wh_function_id h) sid wt p) (req_err pq M R p wt) (\<lambda>_. req_ok pq M R p wt)"
  unfolding snap_start_def Let_def wp_bindE
proof (rule wp_conseq [OF wp_snap_activate [OF ok h]], goal_cases)
  case (2 x p1)
  define p2 where "p2 = p1\<lparr>worker_deadlines := (worker_deadlines p1)(w := None)\<rparr>"
  have i: "pool_ok pq M R at_rest p2" and s: "where_is (store p2) w = Some (Active, wh_function_id h)"
    "pending p2 = pending p" "worker_by_sandbox p2 = worker_by_sandbox p" "handles_of p2 w = Some h"
    "control_replies p2 = control_replies p"
    using 2 h by (simp_all add: p2_def)
  have n: "map_of (pending_snapshots (pending p2)) sid = None"
    using pending_invD(8) [OF pool_okD(10) [OF i], of sid] o b s(2,3) by (auto simp del: not_None_eq)
  have ow: "owed (set_pending (\<lambda>pc. pc\<lparr>op_by_worker := (op_by_worker pc)(w \<mapsto> OpSnapshot),
      pending_snapshots := AList.update sid
        \<lparr>ps_timer_info = y, ps_respond_to = (case wt of None \<Rightarrow> [] | Some t \<Rightarrow> [t])\<rparr> (pending_snapshots pc)\<rparr>)
        (p2\<lparr>worker_msgs := z\<rparr>)) = owed p + caller wt" for y z
    using callers_update_new [OF n, of ps_respond_to] s(2,5)
    by (cases wt) (simp_all add: owed_def set_pending_def waiting_def)
  have "pool_ok pq M R (fst at_rest, None) (set_pending (\<lambda>pc. pc\<lparr>op_by_worker := (op_by_worker pc)(w \<mapsto> OpSnapshot),
      pending_snapshots := AList.update sid y (pending_snapshots pc)\<rparr>) p2)" for y
    by (rule pool_ok_set_pending [OF i], rule pending_inv_begin_snap)
      (use pool_okD(10) [OF i] one_sandbox [OF pool_okD(9) [OF i]] o b s in simp_all)
  then have "pool_ok pq M R at_rest (set_pending (\<lambda>pc. pc\<lparr>op_by_worker := (op_by_worker pc)(w \<mapsto> OpSnapshot),
      pending_snapshots := AList.update sid y (pending_snapshots pc)\<rparr>) (p2\<lparr>worker_msgs := z\<rparr>))" for y z
    by (simp add: pool_ok_def set_pending_def)
  then show ?case
    using i s(4) ow owed_cong [OF s(2,5)] unfolding p2_def [symmetric] by (simp add: wp_matchE send_control_def)
qed simp

lemma owner_handle:
  assumes "pool_ok pq M R F p" "worker_by_sandbox p sid = Some w"
  shows "\<exists>h. handles_of p w = Some h \<and> wh_sandbox_id h = Some sid"
  using sandbox_invD(1) [OF pool_okD(9) [OF assms(1)], of sid w] assms(2) by simp

lemma wp_request_snapshotting:
  assumes ok: "pool_ok pq M R at_rest p"
  shows "wp (request_snapshotting en sid wt p) (req_err pq M R p wt) (\<lambda>_. req_ok pq M R p wt)"
proof (cases "worker_by_sandbox p sid")
  case None
  then show ?thesis using ok by (simp add: request_snapshotting_def)
next
  case (Some w)
  note D = pool_okD [OF ok]
  obtain h where h: "handles_of p w = Some h" using owner_handle [OF ok Some] by blast
  show ?thesis
  proof (cases "op_by_worker (pending p) w")
    case None
    then show ?thesis
      using Some h ok wp_snap_start [OF ok h None Some, of en wt] by (simp add: request_snapshotting_def)
  next
    case o: (Some op)
    show ?thesis
    proof (cases "op = OpSnapshot")
      case True
      obtain ps where ps: "map_of (pending_snapshots (pending p)) sid = Some ps"
        using pending_invD(8) [OF D(10), of sid] Some o True by auto
      have "pool_ok pq M R (fst at_rest, None) (set_pending (\<lambda>pc. pc\<lparr>pending_snapshots := AList.update sid
          (ps\<lparr>ps_respond_to := ps_respond_to ps @ [t]\<rparr>) (pending_snapshots pc)\<rparr>) p)" for t
        by (rule pool_ok_set_pending [OF ok], rule pending_inv_join_snap [OF _ ps]) (use D(10) in simp)
      moreover have "owed (set_pending (\<lambda>pc. pc\<lparr>pending_snapshots := AList.update sid
          (ps\<lparr>ps_respond_to := ps_respond_to ps @ [t]\<rparr>) (pending_snapshots pc)\<rparr>) p) = owed p + {#t#}" for t
        using callers_update [OF pending_invD(3) [OF D(10)] ps, of ps_respond_to "ps\<lparr>ps_respond_to := ps_respond_to ps @ [t]\<rparr>"]
        by (simp add: owed_def set_pending_def waiting_def)
      ultimately show ?thesis
        using Some h o True ps ok by (auto simp: request_snapshotting_def split: option.split)
    next
      case False
      then show ?thesis using Some h o ok by (cases op) (simp_all add: request_snapshotting_def)
    qed
  qed
qed

text \<open>The arms of \<^verbatim>\<open>handle_control\<close>.\<close>

lemma wp_answer_error:
  assumes "wp r (req_err pq M R p wt) (\<lambda>_. req_ok pq M R p wt)"
  shows "wp (answer_error mk r) (\<lambda>_ _. False) (\<lambda>_. req_ok pq M R p wt)"
  unfolding answer_error_def wp_matchE
  by (rule wp_conseq [OF assms]) (auto simp: split_def split: option.split)

fun control_ok :: "'q penv \<Rightarrow> 'q pool \<Rightarrow> pool_control_message \<Rightarrow> bool" where
  "control_ok en p (PcPrepareSandbox fid opts t) \<longleftrightarrow> early_exit_ok en (offered fid opts p)"
| "control_ok en p (PcDestroySandbox sid opts t) \<longleftrightarrow> True"
| "control_ok en p (PcListSandboxes t) \<longleftrightarrow> False"
| "control_ok en p (PcCreateSnapshot sid t) \<longleftrightarrow> True"

fun control_caller :: "pool_control_message \<Rightarrow> waiter" where
  "control_caller (PcPrepareSandbox fid opts t) = t"
| "control_caller (PcDestroySandbox sid opts t) = t"
| "control_caller (PcListSandboxes t) = t"
| "control_caller (PcCreateSnapshot sid t) = t"

lemma wp_handle_control:
  assumes ok: "pool_ok (lib_pq en) M R at_rest p" and en: "penv_ok en p" and c: "control_ok en p msg"
  shows "wp (handle_control en msg p) (\<lambda>_ _. False)
    (\<lambda>_ p'. pool_ok (lib_pq en) M R at_rest p' \<and> owed p' = owed p + {#control_caller msg#})"
proof (cases msg)
  case (PcPrepareSandbox fid opts t)
  then show ?thesis
    using c wp_answer_error [OF wp_request_sandbox_prep [OF ok en], of fid opts "\<lambda>e. PrepReply (Inl e)" "Some t"]
    by (simp add: handle_control_def)
next
  case (PcDestroySandbox sid opts t)
  then show ?thesis
    using wp_answer_error [OF wp_request_sandbox_destr [OF ok penv_okD(2,4) [OF en]], of "\<lambda>e. DestrReply (Inl e)" sid opts "Some t"]
    by (simp add: handle_control_def)
next
  case (PcListSandboxes t)
  then show ?thesis using c by simp
next
  case (PcCreateSnapshot sid t)
  then show ?thesis
    using wp_answer_error [OF wp_request_snapshotting [OF ok], of "\<lambda>e. SnapReply (Inl e)" en sid "Some t"]
    by (simp add: handle_control_def)
qed

section \<open>Completion\<close>

lemma pool_ok_finish_prep:
  assumes ok: "pool_ok pq M R (None, Some w) p" and o: "op_by_worker (pending p) w = Some OpPrepareSandbox"
  shows "pool_ok pq M R at_rest (finish_prep w r p)" "owed (finish_prep w r p) = owed p"
proof -
  let ?del = "\<lambda>pc :: pending_control. pc\<lparr>sandbox_preps := AList.delete w (sandbox_preps pc)\<rparr>"
  let ?done = "\<lambda>pc :: pending_control. pc\<lparr>op_by_worker := (op_by_worker pc)(w := None)\<rparr>"
  have i: "pending_inv (Some w) (where_is (store p)) (handles_of p) (worker_by_sandbox p) (pending p)"
    using pool_okD(10) [OF ok] by simp
  have n: "map_of (sandbox_destrs (pending p)) w = None" using pending_invD(6) [OF i, of w] o by auto
  have c: "caller (Option.bind (map_of (sandbox_preps (pending p)) w) pp_respond_to)
      = (case map_of (sandbox_preps (pending p)) w of None \<Rightarrow> {#} | Some v \<Rightarrow> mset (prep_callers v))"
    by (auto simp: prep_callers_def split: option.splits)
  have e: "owed (set_pending ?done (case wt of None \<Rightarrow> q | Some t \<Rightarrow> reply_all [t] x q)) = owed q + caller wt" for wt x q
    by (cases wt) (simp_all add: owed_def reply_all_def set_pending_def waiting_def)
  have "owed (set_pending ?del p) + caller (Option.bind (map_of (sandbox_preps (pending p)) w) pp_respond_to) = owed p + {#}"
    by (rule owed_set_pending) (simp add: c waiting_def callers_delete [OF pending_invD(1) [OF i], of prep_callers w])
  then show "owed (finish_prep w r p) = owed p" unfolding finish_prep_def Let_def e by simp
  have j: "pending_inv None (where_is (store p)) (handles_of p) (worker_by_sandbox p) (?done (?del (pending p)))"
    by (rule pending_inv_done [OF pending_inv_drop_prep [OF i]]) (simp_all add: map_of_delete n)
  have "pool_ok pq M R at_rest (p\<lparr>pending := ?done (?del (pending p))\<rparr>)"
    using ok j by (simp add: pool_ok_def)
  then show "pool_ok pq M R at_rest (finish_prep w r p)"
    by (simp add: finish_prep_def Let_def set_pending_def reply_all_def pool_ok_def split: option.split)
qed

lemma pool_ok_focus:
  assumes "pool_ok pq M R at_rest p" "op_by_worker (pending p) w \<noteq> Some OpSnapshot"
  shows "pool_ok pq M R (None, Some w) p"
  using assms pending_inv_focus [of _ _ _ "pending p" w] by (simp add: pool_ok_def)

lemma wp_finalize_sandbox_preparation:
  assumes ok: "pool_ok (lib_pq en) M R at_rest p" and pq: "pq_spec (lib_pq en)" and bu: "bu_spec (lib_bu en)"
    and o: "op_by_worker (pending p) (pr_worker_id resp) = Some OpPrepareSandbox"
  shows "wp (finalize_sandbox_preparation en resp p)
    (\<lambda>_ p'. pool_ok (lib_pq en) M R at_rest p' \<and> owed p' = owed p)
    (\<lambda>_ p'. pool_ok (lib_pq en) M R at_rest p' \<and> owed p' = owed p)"
proof -
  let ?w = "pr_worker_id resp" and ?I = "pool_ok (lib_pq en) M R (None, Some (pr_worker_id resp))"
  define same where "same = (\<lambda>p' :: 'a pool. pending p' = pending p \<and> control_replies p' = control_replies p)"
  have ok': "?I p" using pool_ok_focus [OF ok, of ?w] o by simp
  have rel: "wp (pool_cpu_release en ?w p) (\<lambda>_. P) (\<lambda>_. P)"
    if "P = (\<lambda>p'. ?I p' \<and> same p' \<and> cm_allocations (cpuset p') ?w = None)" for P
    by (rule wp_conseq [OF wp_cpu_release [OF ok' pq, of ?w]]) (use that ok' in \<open>auto simp: same_def\<close>)
  have fin: "pool_ok (lib_pq en) M R at_rest (finish_prep ?w r p2)" "owed (finish_prep ?w r p2) = owed p"
    if "?I p2 \<and> same p2" for r p2
    using pool_ok_finish_prep [of "lib_pq en" M R ?w p2 r] that o owed_cong [of p2 p] by (simp_all add: same_def)
  have park: "wp (case k of Some d \<Rightarrow> deactivate_worker en ?w (pr_function_id resp) (Some (pe_now en + d)) p1
        | None \<Rightarrow> deactivate_worker_per_keepalive en ?w (pr_function_id resp) (pe_now en) p1)
      (\<lambda>_ p2. ?I p2 \<and> same p2) (\<lambda>_ p2. ?I p2 \<and> same p2)"
    if "?I p1 \<and> same p1 \<and> cm_allocations (cpuset p1) ?w = None" for k p1
  proof -
    have "wp (deactivate_worker en ?w (pr_function_id resp) dl p1)
        (\<lambda>_ p2. ?I p2 \<and> same p2) (\<lambda>_ p2. ?I p2 \<and> same p2)" for dl
      by (rule wp_conseq [OF wp_deactivate [OF _ bu, of _ M R "(None, Some ?w)"]])
        (use that in \<open>auto simp: quiet_def same_def\<close>)
    then show ?thesis by (simp add: deactivate_worker_per_keepalive_def split: option.split)
  qed
  show ?thesis
    unfolding finalize_sandbox_preparation_def Let_def wp_bindE wp_matchE
  proof (rule wp_conseq [OF rel [OF refl]], goal_cases)
    case (1 e p1)
    then show ?case
      using fin by (auto simp: wp_bindE wp_matchE split: sum.split intro!: wp_conseq [OF park])
  next
    case (2 x p1)
    then show ?case
      using fin by (auto simp: wp_bindE wp_matchE split: sum.split intro!: wp_conseq [OF park])
  qed
qed

lemma wp_finalize_snapshotting:
  assumes ok: "pool_ok (lib_pq en) M R at_rest p" and bu: "bu_spec (lib_bu en)"
    and o: "op_by_worker (pending p) (sr_worker_id resp) = Some OpSnapshot"
    and b: "worker_by_sandbox p (sr_sandbox_id resp) = Some (sr_worker_id resp)"
    and c: "cm_allocations (cpuset p) (sr_worker_id resp) = None"
  shows "wp (finalize_snapshotting en resp p)
    (\<lambda>_ p'. pool_ok (lib_pq en) M R at_rest p' \<and> owed p' = owed p)
    (\<lambda>_ p'. pool_ok (lib_pq en) M R at_rest p' \<and> owed p' = owed p)"
proof -
  let ?w = "sr_worker_id resp" and ?sid = "sr_sandbox_id resp"
  let ?I = "pool_ok (lib_pq en) M R (None, Some (sr_worker_id resp))"
  note D = pool_okD [OF ok]
  have pi: "pending_inv None (where_is (store p)) (handles_of p) (worker_by_sandbox p) (pending p)"
    using D(10) by simp
  define p1 where "p1 = set_pending (\<lambda>pc. pc\<lparr>pending_snapshots := AList.delete ?sid (pending_snapshots pc)\<rparr>) p"
  have "pool_ok (lib_pq en) M R (fst at_rest, Some ?w) p1"
    unfolding p1_def
    by (rule pool_ok_set_pending [OF ok], rule pending_inv_focus_snap [OF pi b _ o])
      (use one_sandbox [OF D(9)] b in blast)
  then have i1: "?I p1" by simp
  have s1: "cm_allocations (cpuset p1) ?w = None" using c by (simp add: p1_def)
  have n: "map_of (sandbox_preps (pending p1)) ?w = None" "map_of (sandbox_destrs (pending p1)) ?w = None"
    using pending_invD(7) [OF pi, of ?w] pending_invD(6) [OF pi, of ?w] o by (fastforce simp: p1_def)+
  have park: "wp (case k of Some ti \<Rightarrow> deactivate_worker en ?w f (Some (g ti)) p1
        | None \<Rightarrow> deactivate_worker_per_keepalive en ?w f t p1)
      (\<lambda>_ p2. ?I p2 \<and> pending p2 = pending p1 \<and> owed p2 = owed p1) (\<lambda>_ p2. ?I p2 \<and> pending p2 = pending p1 \<and> owed p2 = owed p1)"
    for k :: "paused_timer option" and f g t
  proof -
    have "wp (deactivate_worker en ?w f dl p1)
        (\<lambda>_ p2. ?I p2 \<and> pending p2 = pending p1 \<and> owed p2 = owed p1) (\<lambda>_ p2. ?I p2 \<and> pending p2 = pending p1 \<and> owed p2 = owed p1)" for dl
      by (rule wp_conseq [OF wp_deactivate [OF i1 bu s1]]) (simp_all add: quiet_def owed_def)
    then show ?thesis by (simp add: deactivate_worker_per_keepalive_def split: option.split)
  qed
  have "pool_ok (lib_pq en) M R at_rest (set_pending (\<lambda>pc. pc\<lparr>op_by_worker := (op_by_worker pc)(?w := None)\<rparr>) p2)"
    if "?I p2" "pending p2 = pending p1" for p2
  proof -
    have "pool_ok (lib_pq en) M R (fst (None, Some ?w), None)
        (set_pending (\<lambda>pc. pc\<lparr>op_by_worker := (op_by_worker pc)(?w := None)\<rparr>) p2)"
      by (rule pool_ok_set_pending [OF that(1)], rule pending_inv_done)
        (use pool_okD(10) [OF that(1)] that(2) n in simp_all)
    then show ?thesis by simp
  qed
  then have fin: "pool_ok (lib_pq en) M R at_rest (set_pending (\<lambda>pc. pc\<lparr>op_by_worker := (op_by_worker pc)(?w := None)\<rparr>)
      (case op of None \<Rightarrow> p2 | Some x \<Rightarrow> reply_all (ps_respond_to x) r p2))" if "?I p2" "pending p2 = pending p1" for p2 op r
    using that by (cases op) simp_all
  let ?ws = "case map_of (pending_snapshots (pending p)) ?sid of None \<Rightarrow> {#} | Some x \<Rightarrow> mset (ps_respond_to x)"
  have ow1: "owed p1 + ?ws = owed p"
    using owed_set_pending [of "\<lambda>pc. pc\<lparr>pending_snapshots := AList.delete ?sid (pending_snapshots pc)\<rparr>" p ?ws "{#}"]
      callers_delete [OF pending_invD(3) [OF pi], of ps_respond_to ?sid]
    by (simp add: p1_def waiting_def ac_simps)
  have ow: "owed (set_pending (\<lambda>pc. pc\<lparr>op_by_worker := (op_by_worker pc)(?w := None)\<rparr>)
      (case map_of (pending_snapshots (pending p)) ?sid of None \<Rightarrow> p2 | Some x \<Rightarrow> reply_all (ps_respond_to x) r p2)) = owed p"
    if "owed p2 = owed p1" for p2 r
    using that ow1 by (cases "map_of (pending_snapshots (pending p)) ?sid") simp_all
  show ?thesis
    unfolding finalize_snapshotting_def Let_def wp_matchE p1_def [symmetric] wp_simps
    by (rule wp_conseq [OF park]) (use fin ow in blast)+
qed

lemma wp_finalize_sandbox_preparation_during_shutdown:
  assumes ok: "pool_ok (lib_pq en) M R at_rest p" and pq: "pq_spec (lib_pq en)"
    and o: "op_by_worker (pending p) (pr_worker_id resp) = Some OpPrepareSandbox"
  shows "wp (finalize_sandbox_preparation_during_shutdown en resp p) (\<lambda>_ _. False)
    (\<lambda>_ p'. pool_ok (lib_pq en) M R at_rest p' \<and> owed p' = owed p)"
proof -
  have ok': "pool_ok (lib_pq en) M R (None, Some (pr_worker_id resp)) p"
    using pool_ok_focus [OF ok, of "pr_worker_id resp"] o by simp
  note rel = wp_cpu_try_release [OF ok' pq, of "pr_worker_id resp"]
  show ?thesis
    by (simp add: finalize_sandbox_preparation_during_shutdown_def Let_def rel(1) pool_ok_finish_prep [OF rel(2)] o)
      (simp add: owed_def)
qed

lemma pool_ok_finalize_snapshotting_during_shutdown:
  assumes ok: "pool_ok pq M R at_rest p"
    and o: "op_by_worker (pending p) (sr_worker_id resp) = Some OpSnapshot"
    and b: "worker_by_sandbox p (sr_sandbox_id resp) = Some (sr_worker_id resp)"
  shows "pool_ok pq M R at_rest (finalize_snapshotting_during_shutdown resp p)"
    "owed (finalize_snapshotting_during_shutdown resp p) = owed p"
proof -
  let ?w = "sr_worker_id resp" and ?sid = "sr_sandbox_id resp"
  note D = pool_okD [OF ok]
  have pi: "pending_inv None (where_is (store p)) (handles_of p) (worker_by_sandbox p) (pending p)"
    using D(10) by simp
  have swap: "pc\<lparr>pending_snapshots := x, op_by_worker := y\<rparr> = pc\<lparr>op_by_worker := y, pending_snapshots := x\<rparr>"
    for pc :: pending_control and x y by simp
  have n: "map_of (sandbox_preps (pending p)) ?w = None" "map_of (sandbox_destrs (pending p)) ?w = None"
    using pending_invD(7) [OF pi, of ?w] pending_invD(6) [OF pi, of ?w] o by fastforce+
  have "pending_inv None (where_is (store p)) (handles_of p) (worker_by_sandbox p)
      ((pending p)\<lparr>op_by_worker := (op_by_worker (pending p))(?w := None),
        pending_snapshots := AList.delete ?sid (pending_snapshots (pending p))\<rparr>)"
    using pending_inv_done [OF pending_inv_focus_snap [OF pi b _ o]] n one_sandbox [OF D(9) _ b] by (simp add: swap)
  then have "pool_ok pq M R at_rest (p\<lparr>pending := (pending p)\<lparr>op_by_worker := (op_by_worker (pending p))(?w := None),
      pending_snapshots := AList.delete ?sid (pending_snapshots (pending p))\<rparr>\<rparr>)"
    using ok by (simp add: pool_ok_def)
  then show "pool_ok pq M R at_rest (finalize_snapshotting_during_shutdown resp p)"
    by (simp add: finalize_snapshotting_during_shutdown_def Let_def set_pending_def reply_all_def pool_ok_def
        split: option.split)
  show "owed (finalize_snapshotting_during_shutdown resp p) = owed p"
    using callers_delete [OF pending_invD(3) [OF pi], of ps_respond_to ?sid]
    by (cases "map_of (pending_snapshots (pending p)) ?sid")
      (simp_all add: finalize_snapshotting_during_shutdown_def Let_def set_pending_def reply_all_def owed_def
        waiting_def comp_def ac_simps)
qed

end
