(* ===== verification/Pool_Loop.thy ===== *)
theory Pool_Loop
  imports Pool_Ctl_Inv
begin

text \<open>
  Preservation of \<open>pool_ok\<close> by \<^verbatim>\<open>handle_dispatch\<close>, by the messages of the workers, by every iteration
  of \<^verbatim>\<open>run\<close> and by the stages of \<^verbatim>\<open>shutdown\<close>; in particular none of them panics.
\<close>

section \<open>Choosing a worker\<close>

lemma idle_candidates_iff:
  assumes "store_inv s"
  shows "(f, w) \<in> set (filter (\<lambda>(f, _). f = fid) (iter_idle s)) \<longleftrightarrow> f = fid \<and> where_is s w = Some (Idle, fid)"
  using set_iter_workers [OF assms, of Idle] by (auto simp: iter_idle_def)

lemma pick_idle_worker_cases:
  assumes ok: "pool_ok pq M R F p"
  shows "pick_idle_worker fid p = Inr None \<and> (\<forall>w. where_is (store p) w \<noteq> Some (Idle, fid))
    \<or> (\<exists>w d. pick_idle_worker fid p = Inr (Some w) \<and> where_is (store p) w = Some (Idle, fid)
        \<and> worker_deadlines p w = Some d
        \<and> (\<forall>v d'. where_is (store p) v = Some (Idle, fid) \<longrightarrow> worker_deadlines p v = Some d' \<longrightarrow> d' \<le> d))"
proof -
  note D = pool_okD [OF ok]
  let ?cs = "filter (\<lambda>(f, _). f = fid) (iter_idle (store p))"
  let ?g = "\<lambda>(_ :: function_id, w). the (worker_deadlines p w)"
  note mem = idle_candidates_iff [OF D(1), of _ _ fid]
  have dl: "\<exists>d. worker_deadlines p w = Some d" if "where_is (store p) w = Some (Idle, fid)" for w
    using idle_invD(2) [OF D(7), of w] that by auto
  have e: "\<not> list_ex (\<lambda>(_, w). worker_deadlines p w = None) ?cs"
    using mem dl unfolding list_ex_iff by (fastforce simp del: set_filter)
  show ?thesis
  proof (cases "max_by_last ?g ?cs")
    case None
    then have "set ?cs = {}" by simp
    then have "where_is (store p) w \<noteq> Some (Idle, fid)" for w using mem [of fid w] by (metis empty_iff)
    then show ?thesis using e None by (simp add: pick_idle_worker_def Let_def)
  next
    case (Some x)
    obtain f w where x: "x = (f, w)" by (cases x)
    have "(f, w) \<in> set ?cs" "\<forall>y \<in> set ?cs. ?g y \<le> ?g (f, w)" using max_by_last_Some [OF Some] x by auto
    then have w: "where_is (store p) w = Some (Idle, fid)"
      and le: "\<And>v. where_is (store p) v = Some (Idle, fid) \<Longrightarrow> the (worker_deadlines p v) \<le> the (worker_deadlines p w)"
      using mem [of f w] mem [of fid] by (blast, fastforce)
    obtain d where "worker_deadlines p w = Some d" using dl [OF w] by blast
    moreover have "pick_idle_worker fid p = Inr (Some w)"
      using e Some x by (simp add: pick_idle_worker_def Let_def)
    ultimately show ?thesis using w le by fastforce
  qed
qed

text \<open>A worker that has been chosen and is not in the store: once it is inserted as Active and its
  timer and deadline are gone, the invariant holds.\<close>

definition ready :: "'q pq_ops \<Rightarrow> bool \<Rightarrow> registry \<Rightarrow> worker_id \<Rightarrow> function_id \<Rightarrow> 'q pool \<Rightarrow> bool" where
  "ready pq M R w fid p \<longleftrightarrow> store_inv (store p) \<and> registered (store p) = R \<and> R fid \<noteq> None
     \<and> where_is (store p) w = None \<and> op_by_worker (pending p) w = None \<and> handles_of p w \<noteq> None
     \<and> cm_allocations (cpuset p) w = None
     \<and> (\<forall>s. store_inv s \<longrightarrow> where_is s = (where_is (store p))(w \<mapsto> (Active, fid)) \<longrightarrow> registered s = R \<longrightarrow>
          pool_ok pq M R at_rest (p\<lparr>timers := (timers p)(w := None), store := s,
            worker_deadlines := (worker_deadlines p)(w := None)\<rparr>))"

lemma readyD:
  assumes "ready pq M R w fid p"
  shows "store_inv (store p)" "registered (store p) = R" "R fid \<noteq> None" "where_is (store p) w = None"
    "op_by_worker (pending p) w = None" "handles_of p w \<noteq> None" "cm_allocations (cpuset p) w = None"
    and "store_inv s \<Longrightarrow> where_is s = (where_is (store p))(w \<mapsto> (Active, fid)) \<Longrightarrow> registered s = R \<Longrightarrow>
      pool_ok pq M R at_rest (p\<lparr>timers := (timers p)(w := None), store := s,
            worker_deadlines := (worker_deadlines p)(w := None)\<rparr>)"
  using assms unfolding ready_def by auto

lemma ready_started:
  assumes ok: "pool_ok pq M R (Some (w, fid, MemInUse), None) p" and o: "op_by_worker (pending p) w = None"
  shows "ready pq M R w fid p"
proof -
  note D = pool_okD [OF ok]
  have t: "track_inv (Some (w, fid, MemInUse)) (where_is (store p)) (handles_of p)" using D(5) by simp
  have l: "where_is (store p) w = None" "handles_of p w \<noteq> None" using track_invD(3) [OF t refl] by auto
  have n: "(timers p)(w := None) = timers p" "(worker_deadlines p)(w := None) = worker_deadlines p"
    using idle_inv_none(3,4) [OF D(7), of w] l by simp_all
  have "cm_allocations (cpuset p) w = None" using D(8) l by (auto simp: cpu_inv_def)
  moreover have "pool_ok pq M R at_rest (p\<lparr>timers := timers p, store := s, worker_deadlines := worker_deadlines p\<rparr>)"
    if "store_inv s" "where_is s = (where_is (store p))(w \<mapsto> (Active, fid))" "registered s = R" for s
    using pool_ok_started(1) [OF ok _ _ that] by (simp add: pool_ok_def)
  ultimately show ?thesis using D l o unfolding ready_def n by simp
qed

lemma ready_idle:
  assumes ok: "pool_ok pq M R at_rest p" and l: "where_is (store p) w = Some (Idle, fid)"
    and s: "store_inv s" "where_is s = (where_is (store p))(w := None)" "registered s = registered (store p)"
  shows "ready pq M R w fid (p\<lparr>store := s\<rparr>)"
proof -
  note D = pool_okD [OF ok]
  have "handles_of p w \<noteq> None" using l by (intro tracked_handle_not_None [OF ok]) simp
  moreover have "op_by_worker (pending p) w = None"
    using pending_invD(5) [OF D(10), of w fid] l by (auto simp del: not_None_eq)
  moreover have "cm_allocations (cpuset p) w = None" using D(8) l by (auto simp: cpu_inv_def)
  moreover have "R fid \<noteq> None" by (rule tracked_registered [OF ok l])
  ultimately show ?thesis
    using D(2) s pool_ok_activate [OF ok l] unfolding ready_def by simp
qed

lemma wp_dispatch_spawn:
  assumes ok: "pool_ok (lib_pq en) M R at_rest p" and en: "penv_ok en p" and f: "R fid \<noteq> None"
    and fit: "fits (lib_bu en) (memory p) (rmem R fid)"
  shows "wp (case pick_orphan_snapshot fid p of (sb, p) \<Rightarrow>
      bindE (spawn_new_worker en fid sb p) (\<lambda>w p. (Inr (Some w), p)))
    (\<lambda>e p'. pool_ok (lib_pq en) M R at_rest p' \<and> (\<exists>err. pe_spawn en = Inl err \<and> e = WorkerCreation err)
      \<and> dispatch_replies p' = dispatch_replies p \<and> owed p' = owed p)
    (\<lambda>wo p'. \<exists>w. wo = Some w \<and> pool_ok (lib_pq en) M R (Some (w, fid, MemInUse), None) p'
      \<and> op_by_worker (pending p') w = None \<and> cpuset p' = cpuset p \<and> pe_spawn en = Inr w
      \<and> dispatch_replies p' = dispatch_replies p \<and> owed p' = owed p)"
proof -
  have *: "wp (bindE (spawn_new_worker en fid sb q) (\<lambda>w p. (Inr (Some w), p)))
      (\<lambda>e p'. pool_ok (lib_pq en) M R at_rest p' \<and> (\<exists>err. pe_spawn en = Inl err \<and> e = WorkerCreation err)
        \<and> dispatch_replies p' = dispatch_replies p \<and> owed p' = owed p)
      (\<lambda>wo p'. \<exists>w. wo = Some w \<and> pool_ok (lib_pq en) M R (Some (w, fid, MemInUse), None) p'
        \<and> op_by_worker (pending p') w = None \<and> cpuset p' = cpuset p \<and> pe_spawn en = Inr w
        \<and> dispatch_replies p' = dispatch_replies p \<and> owed p' = owed p)"
    if i: "pool_ok (lib_pq en) M R at_rest q" and sb: "fresh_sandbox sb q"
      and q: "worker_handles q = worker_handles p" "memory q = memory p" "cpuset q = cpuset p" "pending q = pending p"
        "dispatch_replies q = dispatch_replies p" "control_replies q = control_replies p" for sb q
  proof -
    have ow: "owed q = owed p" using q by (intro owed_cong)
    have new: "handles_of q w = None" if "pe_spawn en = Inr w" for w using penv_okD(4) [OF en that] q by simp
    have o: "op_by_worker (pending p) w = None" if "pe_spawn en = Inr w" for w
      using pending_invD(4) [OF pool_okD(10) [OF ok], of w] penv_okD(4) [OF en that] by blast
    show ?thesis
      unfolding wp_bindE
      by (rule wp_conseq [OF wp_spawn_new_worker [OF i f sb new penv_okD(2) [OF en]]])
        (use fit q o ow in \<open>simp_all add: owed_def\<close>)
  qed
  show ?thesis
    using pool_ok_pick [OF ok, of fid]
  proof (elim disjE exE conjE)
    assume "pick_orphan_snapshot fid p = (None, p)"
    then show ?thesis using * [OF ok, of None] by (simp add: fresh_sandbox_def)
  next
    fix sb ss
    assume "pick_orphan_snapshot fid p = (Some sb, p\<lparr>snapshots := ss\<rparr>)"
      "pool_ok (lib_pq en) M R at_rest (p\<lparr>snapshots := ss\<rparr>)" "worker_by_sandbox p (sb_id sb) = None"
      "sb_id sb \<notin># orphan_ids (orphans ss)"
    then show ?thesis using * [of "p\<lparr>snapshots := ss\<rparr>" "Some sb"] by (simp add: fresh_sandbox_def)
  qed
qed

text \<open>
  The decision that a dispatch makes, over the tracking map: reuse an idle worker, spawn a new one, or
  refuse. Memory is compared with exact sums.
\<close>

datatype decision = Reuse | SpawnNew | Refuse dispatch_response

definition decide :: "registry \<Rightarrow> function_id \<Rightarrow> dispatch_mode \<Rightarrow> 'q pool \<Rightarrow> decision" where
  "decide R fid mode p =
     (case R fid of
        None \<Rightarrow> Refuse unknown_function
      | Some rf \<Rightarrow>
          if \<exists>w. where_is (store p) w = Some (Idle, fid) then Reuse
          else if mode = ReuseIdleOnly then Refuse no_idle_worker
          else if card {w. where_is (store p) w = Some (Active, fid)} \<ge> worker_cap rf p then Refuse function_worker_cap
          else if mem_inuse (memory p) + mem_reclaimed (memory p) + fi_memory (rf_info rf) \<le> mem_total (memory p)
          then SpawnNew
          else Refuse oom)"

text \<open>What has been decided when a worker has been chosen, or none.\<close>

definition choice_ok ::
  "'q penv \<Rightarrow> bool \<Rightarrow> registry \<Rightarrow> function_id \<Rightarrow> dispatch_mode \<Rightarrow> 'q pool \<Rightarrow> dispatch_choice \<Rightarrow> 'q pool \<Rightarrow> bool" where
  "choice_ok en M R fid mode p ch p' =
     (dispatch_replies p' = dispatch_replies p \<and> owed p' = owed p \<and>
      (case ch of
         Denied r \<Rightarrow> pool_ok (lib_pq en) M R at_rest p' \<and> (M \<longrightarrow> decide R fid mode p = Refuse r)
       | Chosen w \<Rightarrow> ready (lib_pq en) M R w fid p' \<and> cpuset p' = cpuset p
           \<and> (decide R fid mode p = Reuse \<and> worker_handles p' = worker_handles p
                \<and> where_is (store p') = (where_is (store p))(w := None)
                \<and> where_is (store p) w = Some (Idle, fid)
                \<and> (\<forall>v d'. where_is (store p) v = Some (Idle, fid) \<longrightarrow> worker_deadlines p v = Some d'
                     \<longrightarrow> d' \<le> the (worker_deadlines p w))
              \<or> (M \<longrightarrow> decide R fid mode p = SpawnNew) \<and> pe_spawn en = Inr w)))"

lemma fits_exact:
  assumes "bu_spec bu" "mem_total m < bu_max"
  shows "fits bu m k \<longleftrightarrow> mem_inuse m + mem_reclaimed m + k \<le> mem_total m"
  using assms by (auto simp: fits_def min_def)

lemma decide_spawn:
  assumes ok: "pool_ok (lib_pq en) M R at_rest p" and bu: "bu_spec (lib_bu en)" and M
    and rf: "R fid = Some rf" and n: "\<forall>w. where_is (store p) w \<noteq> Some (Idle, fid)"
  shows "decide R fid mode p =
    (if mode = ReuseIdleOnly then Refuse no_idle_worker
     else if num_idle (Some fid) (store p) + num_active (Some fid) (store p) \<ge> worker_cap rf p
     then Refuse function_worker_cap
     else if fits (lib_bu en) (memory p) (fi_memory (rf_info rf)) then SpawnNew else Refuse oom)"
proof -
  note D = pool_okD [OF ok]
  have "mem_total (memory p) < bu_max" using D(11) [OF \<open>M\<close>] by (simp add: mem_inv_def)
  moreover have "num_idle (Some fid) (store p) = 0"
    using num_workers_fn [OF D(1), of Idle fid] n by (simp add: num_idle_def)
  ultimately show ?thesis
    using n rf num_workers_fn [OF D(1), of Active fid] by (simp add: decide_def num_active_def fits_exact [OF bu])
qed

lemma wp_dispatch_choose:
  assumes ok: "pool_ok (lib_pq en) M R at_rest p" and en: "penv_ok en p" and f: "R fid \<noteq> None"
  shows "wp (dispatch_choose en fid mode p)
    (\<lambda>e p'. pool_ok (lib_pq en) M R at_rest p' \<and> (M \<longrightarrow> decide R fid mode p = SpawnNew)
      \<and> (\<exists>err. pe_spawn en = Inl err \<and> e = WorkerCreation err) \<and> dispatch_replies p' = dispatch_replies p
      \<and> owed p' = owed p)
    (choice_ok en M R fid mode p)"
  using pick_idle_worker_cases [OF ok, of fid]
proof (elim disjE exE conjE)
  fix w d
  assume a: "pick_idle_worker fid p = Inr (Some w)" and l: "where_is (store p) w = Some (Idle, fid)"
    and d: "worker_deadlines p w = Some d"
      "\<forall>v d'. where_is (store p) v = Some (Idle, fid) \<longrightarrow> worker_deadlines p v = Some d' \<longrightarrow> d' \<le> d"
  have r: "registered (store p) fid \<noteq> None" using f pool_okD(2) [OF ok] by simp
  have "decide R fid mode p = Reuse" using f l by (auto simp: decide_def)
  then show ?thesis
    unfolding dispatch_choose_def a sum.case option.case wp_bindE wp_on_store class_ops
    by (intro wp_remove_worker [OF pool_okD(1) [OF ok] r])
      (use l d in \<open>simp_all add: ready_idle [OF ok] choice_ok_def owed_def\<close>)
next
  assume a: "pick_idle_worker fid p = Inr None" and n: "\<forall>w. where_is (store p) w \<noteq> Some (Idle, fid)"
  obtain rf where rf: "R fid = Some rf" using f by blast
  have k: "rmem R fid = fi_memory (rf_info rf)" using rf by (simp add: rmem_def)
  note dec = decide_spawn [OF ok penv_okD(2) [OF en] _ rf n, of mode]
  let ?QE = "\<lambda>e p'. pool_ok (lib_pq en) M R at_rest p' \<and> (M \<longrightarrow> decide R fid mode p = SpawnNew)
    \<and> (\<exists>err. pe_spawn en = Inl err \<and> e = WorkerCreation err) \<and> dispatch_replies p' = dispatch_replies p
    \<and> owed p' = owed p"
  have evict: "wp (bindE (evict_if_high en p1) (\<lambda>_ p. case new of Some w \<Rightarrow> (Inr (Chosen w), p) | None \<Rightarrow> (Inr (Denied oom), p)))
      QE (choice_ok en M R fid mode p)"
    if "dispatch_replies p1 = dispatch_replies p" "owed p1 = owed p" "case new of None \<Rightarrow> pool_ok (lib_pq en) M R at_rest p1 \<and> (M \<longrightarrow> decide R fid mode p = Refuse oom)
      | Some w \<Rightarrow> pool_ok (lib_pq en) M R (Some (w, fid, MemInUse), None) p1 \<and> pe_spawn en = Inr w
          \<and> op_by_worker (pending p1) w = None \<and> cpuset p1 = cpuset p \<and> (M \<longrightarrow> decide R fid mode p = SpawnNew)"
    for new p1 and QE :: "pool_error \<Rightarrow> 'a pool \<Rightarrow> bool"
  proof (cases new)
    case None
    have i: "pool_ok (lib_pq en) M R at_rest p1" using that None by simp
    show ?thesis
      unfolding wp_bindE None
      by (rule wp_conseq [OF wp_evict_if_high [OF i penv_okD(2,3) [OF en]]])
        (use that None in \<open>simp_all add: choice_ok_def quiet_def owed_def\<close>)
  next
    case (Some w)
    have i: "pool_ok (lib_pq en) M R (Some (w, fid, MemInUse), None) p1" using that Some by simp
    show ?thesis
      unfolding wp_bindE Some
      by (rule wp_conseq [OF wp_evict_if_high [OF i penv_okD(2,3) [OF en]]])
        (use that Some in \<open>simp_all add: ready_started quiet_def choice_ok_def owed_def\<close>)
  qed
  have new: "wp (bindE (if fits (lib_bu en) (memory p) (rmem R fid)
        then (case pick_orphan_snapshot fid p of (sb, p) \<Rightarrow>
                bindE (spawn_new_worker en fid sb p) (\<lambda>w p. (Inr (Some w), p)))
        else (Inr None, p))
      (\<lambda>new p. bindE (evict_if_high en p)
        (\<lambda>_ p. case new of Some w \<Rightarrow> (Inr (Chosen w), p) | None \<Rightarrow> (Inr (Denied oom), p))))
      ?QE (choice_ok en M R fid mode p)"
    if c: "mode \<noteq> ReuseIdleOnly" "\<not> num_idle (Some fid) (store p) + num_active (Some fid) (store p) \<ge> worker_cap rf p"
  proof (cases "fits (lib_bu en) (memory p) (rmem R fid)")
    case True
    then have de: "M \<longrightarrow> decide R fid mode p = SpawnNew" using dec c k by simp
    show ?thesis
      unfolding if_P [OF True]
    proof (subst wp_bindE, rule wp_conseq [OF wp_dispatch_spawn [OF ok en f True]], goal_cases)
      case (2 wo p1)
      then show ?case using de by (intro evict) auto
    qed (use de in simp)
  next
    case False
    then have "M \<longrightarrow> decide R fid mode p = Refuse oom" using dec c k by simp
    then show ?thesis unfolding if_not_P [OF False] bindE_simps by (intro evict) (simp_all add: ok)
  qed
  have rd: "read_store (get_registered_function fid) p = (Inr rf, p)"
    using rf pool_okD(2) [OF ok]
    by (auto simp: read_store_def get_registered_function_def store_get_def registered_def)
  show ?thesis
  proof (cases "mode = ReuseIdleOnly")
    case True
    then show ?thesis using ok dec by (simp add: dispatch_choose_def a choice_ok_def)
  next
    case False
    then show ?thesis using ok dec new k by (auto simp: dispatch_choose_def a rd choice_ok_def)
  qed
qed

section \<open>Assigning the request\<close>

lemma pool_ok_noM: "pool_ok pq M R F p \<Longrightarrow> pool_ok pq False R F p"
  by (simp add: pool_ok_def)

lemma wp_cleanup_failed_dispatch:
  assumes ok: "pool_ok (lib_pq en) M R at_rest p" and pq: "pq_spec (lib_pq en)"
    and l: "where_is (store p) w = Some (Active, fid)" and c: "cm_allocations (cpuset p) w \<noteq> None"
    and o: "op_by_worker (pending p) w = None"
  shows "wp (cleanup_failed_dispatch en w dl p) (\<lambda>_ p'. pool_ok (lib_pq en) False R at_rest p' \<and> owed p' = owed p) (\<lambda>_ _. False)"
proof -
  note D = pool_okD [OF ok]
  obtain h where h: "handles_of p w = Some h" "wh_function_id h = fid" using tracked_handle [OF ok l] by blast
  have f: "R fid \<noteq> None" by (rule tracked_registered [OF ok l])
  define q where "q = p\<lparr>memory := (memory p)\<lparr>mem_inuse := bu_sub (lib_bu en) (mem_inuse (memory p)) (rmem R fid)\<rparr>\<rparr>"
  have iq: "pool_ok (lib_pq en) False R at_rest q" using ok by (simp add: pool_ok_def q_def)
  note rd = read_memory_eq [OF D(2) f]
  have rest: "wp (bindE (on_store (worker_active_to_idle w (Some fid)) p1) (\<lambda>_ p.
        let p = p\<lparr>worker_deadlines := (worker_deadlines p)(w \<mapsto> d)\<rparr> in
        (Inl (Err (AdmissionUnresponsive ''failed to send WorkerRef'')), spawn_timer w d p)))
      (\<lambda>_ p'. pool_ok (lib_pq en) False R at_rest p' \<and> owed p' = owed p) (\<lambda>_ _. False)"
    if p1: "p1 = q\<lparr>cpuset := cs\<rparr>" "cm_allocations cs w = None" and i: "pool_ok (lib_pq en) False R at_rest p1" for d p1 cs
    unfolding wp_bindE wp_on_store class_ops
  proof (rule wp_move_worker [OF pool_okD(1) [OF i]], goal_cases)
    case (2 s)
    have r: "registered s = R" using 2(4) pool_okD(2) [OF i] by simp
    have c0: "cm_allocations (cpuset p1) w = None" and o0: "op_by_worker (pending p1) w = None"
      using p1 o by (simp_all add: q_def)
    have ow: "owed (p1\<lparr>store := s, worker_deadlines := x, timers := y\<rparr>) = owed p" for x y
      by (simp add: owed_def p1 q_def)
    show ?case
      unfolding Let_def spawn_timer_def wp_simps
      by (rule conjI [OF pool_ok_park [OF i 2(1) c0, where d = d]]) (use o0 2 r ow in simp_all)
  next
    case (3 e)
    then show ?case using l p1 by (simp add: q_def)
  qed simp
  show ?thesis
    unfolding cleanup_failed_dispatch_def h option.case Let_def rd bindE_simps
    unfolding q_def [symmetric] wp_bindE [of "pool_cpu_release en w q"]
  proof (rule wp_conseq [OF wp_cpu_release [OF iq pq, of w]], goal_cases)
    case (1 e p1)
    then show ?case using c by (simp add: q_def)
  next
    case (2 x p1)
    then obtain cs where "p1 = q\<lparr>cpuset := cs\<rparr>" "cm_allocations cs w = None"
      and "pool_ok (lib_pq en) False R at_rest p1" by auto
    from rest [OF this] show ?case by (simp add: Let_def)
  qed
qed

lemma wp_dispatch_assign:
  assumes r: "ready (lib_pq en) M R w fid p" and pq: "pq_spec (lib_pq en)" and room: "room p"
  shows "wp (dispatch_assign en fid w p) (\<lambda>_ p'. pool_ok (lib_pq en) False R at_rest p' \<and> \<not> pe_reply_ok en \<and> owed p' = owed p)
    (\<lambda>_ p'. owed p' = owed p \<and> pool_ok (lib_pq en) M R at_rest p' \<and> pe_reply_ok en
      \<and> where_is (store p') = (where_is (store p))(w \<mapsto> (Active, fid)) \<and> worker_handles p' = worker_handles p
      \<and> (\<exists>cpu. cm_allocations (cpuset p') = (cm_allocations (cpuset p))(w \<mapsto> cpu)
          \<and> cpu \<in> managed (lib_pq en) (cpuset p)
          \<and> (\<forall>c' \<in> managed (lib_pq en) (cpuset p). occupants (cpuset p) cpu \<le> occupants (cpuset p) c')
          \<and> dispatch_replies p' = dispatch_replies p @ [(fid, Dispatch w cpu)]))"
proof -
  note D = readyD [OF r]
  define q where "q = stop_timer w p"
  have q: "store q = store p" "q = p\<lparr>timers := (timers p)(w := None)\<rparr>" by (simp_all add: q_def stop_timer_def)
  have f: "registered (store p) fid \<noteq> None" using D(2,3) by simp
  show ?thesis
    unfolding dispatch_assign_def Let_def q_def [symmetric] wp_bindE wp_on_store class_ops q(1)
  proof (rule wp_insert_worker [OF D(1) D(4) f], goal_cases)
    case (1 s)
    define p1 where "p1 = q\<lparr>store := s, worker_deadlines := (worker_deadlines p)(w := None)\<rparr>"
    have i: "pool_ok (lib_pq en) M R at_rest p1" using D(8) [of s] 1 D(2) by (simp add: p1_def q(2))
    have l: "where_is (store p1) w = Some (Active, fid)" and n: "cm_allocations (cpuset p1) w = None"
      and rm: "room p1" and o: "op_by_worker (pending p1) w = None" and h: "handles_of p1 w \<noteq> None"
      using 1 D(5-7) room by (simp_all add: p1_def q(2))
    obtain cpu cs where c: "cpuset_alloc (lib_pq en) w (cpuset p1) = (Inr cpu, cs)"
      and ic: "pool_ok (lib_pq en) M R at_rest (p1\<lparr>cpuset := cs\<rparr>)"
      and ca: "cm_allocations cs = (cm_allocations (cpuset p1))(w \<mapsto> cpu)" "cpu \<in> managed (lib_pq en) (cpuset p1)"
        "\<forall>c' \<in> managed (lib_pq en) (cpuset p1). occupants (cpuset p1) cpu \<le> occupants (cpuset p1) c'"
      using wp_cpu_alloc [OF i pq l n rm] by blast
    have st: "where_is (store p1) = (where_is (store p))(w \<mapsto> (Active, fid))" using 1 by (simp add: p1_def)
    have c': "cpuset_alloc (lib_pq en) w (cpuset (q\<lparr>store := s\<rparr>)) = (Inr cpu, cs)" using c by (simp add: p1_def)
    obtain h' where h': "handles_of (q\<lparr>store := s, cpuset := cs\<rparr>) w = Some h'" using h by (auto simp: p1_def)
    have eq: "q\<lparr>store := s, cpuset := cs, worker_deadlines := (worker_deadlines (q\<lparr>store := s, cpuset := cs\<rparr>))(w := None)\<rparr>
        = p1\<lparr>cpuset := cs\<rparr>" by (simp add: p1_def q(2))
    have rp: "registered (store (p1\<lparr>cpuset := cs\<rparr>)) fid \<noteq> None" using pool_okD(2) [OF ic] D(3) by simp
    show ?case
      unfolding pool_cpu_alloc_eq [OF c'] wp_simps h' option.case eq wp_bindE wp_on_store
    proof (rule wp_update_stats [OF pool_okD(1) [OF ic] rp], goal_cases)
      case (1 s')
      let ?p = "p1\<lparr>cpuset := cs, store := s'\<rparr>"
      have ow: "owed ?p = owed p" by (simp add: owed_def p1_def q(2))
      have i': "pool_ok (lib_pq en) M R at_rest ?p"
        using pool_ok_same_store [OF ic 1(1,2)] 1(3) pool_okD(2) [OF ic] by simp
      have l': "where_is (store ?p) w = Some (Active, fid)" using 1(2) l by simp
      have "wp (cleanup_failed_dispatch en w (worker_deadlines (q\<lparr>store := s, cpuset := cs\<rparr>) w) ?p)
          (\<lambda>_ p'. pool_ok (lib_pq en) False R at_rest p' \<and> owed p' = owed ?p) (\<lambda>_ _. False)"
        by (rule wp_cleanup_failed_dispatch [OF i' pq l']) (use ca o in simp_all)
      then have cl: "wp (cleanup_failed_dispatch en w (worker_deadlines (q\<lparr>store := s, cpuset := cs\<rparr>) w) ?p)
          (\<lambda>_ p'. pool_ok (lib_pq en) False R at_rest p' \<and> \<not> pe_reply_ok en \<and> owed p' = owed p) Q" if "\<not> pe_reply_ok en" for Q
        by (rule wp_conseq) (simp_all add: that ow)
      show ?case
      proof (cases "pe_reply_ok en")
        case True
        then show ?thesis using i' 1(2) st ca by (simp add: p1_def q(2) owed_def)
      next
        case False
        then show ?thesis using cl by simp
      qed
    qed
  qed
qed

text \<open>What the pool does for a dispatch whose reply can be sent.\<close>

definition given :: "'q penv \<Rightarrow> function_id \<Rightarrow> worker_id \<Rightarrow> cpu \<Rightarrow> 'q pool \<Rightarrow> 'q pool \<Rightarrow> bool" where
  "given en fid w cpu p p' \<longleftrightarrow>
     dispatch_replies p' = dispatch_replies p @ [(fid, Dispatch w cpu)]
   \<and> cm_allocations (cpuset p') = (cm_allocations (cpuset p))(w \<mapsto> cpu)
   \<and> cpu \<in> managed (lib_pq en) (cpuset p)
   \<and> (\<forall>c' \<in> managed (lib_pq en) (cpuset p). occupants (cpuset p) cpu \<le> occupants (cpuset p) c')"

definition dispatched :: "'q penv \<Rightarrow> registry \<Rightarrow> function_id \<Rightarrow> dispatch_mode \<Rightarrow> 'q pool \<Rightarrow> 'q pool \<Rightarrow> bool" where
  "dispatched en R fid mode p p' =
     (case decide R fid mode p of
        Refuse r \<Rightarrow> dispatch_replies p' = dispatch_replies p @ [(fid, r)]
      | Reuse \<Rightarrow> \<exists>w cpu. given en fid w cpu p p'
          \<and> where_is (store p) w = Some (Idle, fid)
          \<and> (\<forall>v d'. where_is (store p) v = Some (Idle, fid) \<longrightarrow> worker_deadlines p v = Some d'
               \<longrightarrow> d' \<le> the (worker_deadlines p w))
          \<and> where_is (store p') = (where_is (store p))(w \<mapsto> (Active, fid))
          \<and> worker_handles p' = worker_handles p
      | SpawnNew \<Rightarrow> \<exists>w cpu. given en fid w cpu p p' \<and> pe_spawn en = Inr w
          \<and> where_is (store p) w = None \<and> where_is (store p') w = Some (Active, fid))"

lemma dispatched_cong:
  assumes "where_is (store q) = where_is (store p)" "memory q = memory p" "default_worker_cap q = default_worker_cap p"
    "dispatch_replies q = dispatch_replies p" "cpuset q = cpuset p" "worker_handles q = worker_handles p"
    "worker_deadlines q = worker_deadlines p"
  shows "decide R fid mode q = decide R fid mode p" "dispatched en R fid mode q p' = dispatched en R fid mode p p'"
proof -
  have "worker_cap rf q = worker_cap rf p" for rf using assms by (simp add: worker_cap_def cong: option.case_cong)
  then show d: "decide R fid mode q = decide R fid mode p" using assms by (cases "R fid") (simp_all add: decide_def)
  show "dispatched en R fid mode q p' = dispatched en R fid mode p p'"
    unfolding dispatched_def d given_def assms ..
qed

lemma choice_dispatched:
  assumes c: "choice_ok en M R fid mode p (Chosen w) p1" and new: "\<And>w. pe_spawn en = Inr w \<Longrightarrow> where_is (store p) w = None"
    and g: "given en fid w cpu p1 p'" "where_is (store p') = (where_is (store p1))(w \<mapsto> (Active, fid))"
      "worker_handles p' = worker_handles p1" and M
  shows "dispatched en R fid mode p p'"
proof -
  have gv: "given en fid w cpu p p'" using g(1) c by (simp add: given_def choice_ok_def)
  have "decide R fid mode p = Reuse \<and> worker_handles p1 = worker_handles p
        \<and> where_is (store p1) = (where_is (store p))(w := None) \<and> where_is (store p) w = Some (Idle, fid)
        \<and> (\<forall>v d'. where_is (store p) v = Some (Idle, fid) \<longrightarrow> worker_deadlines p v = Some d'
             \<longrightarrow> d' \<le> the (worker_deadlines p w))
      \<or> decide R fid mode p = SpawnNew \<and> pe_spawn en = Inr w"
    using c \<open>M\<close> by (simp add: choice_ok_def)
  then show ?thesis
  proof
    assume "decide R fid mode p = Reuse \<and> worker_handles p1 = worker_handles p
        \<and> where_is (store p1) = (where_is (store p))(w := None) \<and> where_is (store p) w = Some (Idle, fid)
        \<and> (\<forall>v d'. where_is (store p) v = Some (Idle, fid) \<longrightarrow> worker_deadlines p v = Some d'
             \<longrightarrow> d' \<le> the (worker_deadlines p w))"
    then show ?thesis
      unfolding dispatched_def using gv g(2,3) by (auto intro!: exI [of _ w] exI [of _ cpu])
  next
    assume "decide R fid mode p = SpawnNew \<and> pe_spawn en = Inr w"
    then show ?thesis unfolding dispatched_def using gv g(2) new by auto
  qed
qed

lemma wp_handle_dispatch_full:
  assumes ok: "pool_ok (lib_pq en) M R at_rest p" and en: "penv_ok en p"
  shows "wp (handle_dispatch en fid mode p)
    (\<lambda>e p'. owed p' = owed p \<and> pool_ok (lib_pq en) False R at_rest p' \<and> (M \<longrightarrow> pe_reply_ok en \<longrightarrow> decide R fid mode p = SpawnNew
      \<and> dispatch_replies p' = dispatch_replies p \<and> (\<exists>err. pe_spawn en = Inl err \<and> e = WorkerCreation err)))
    (\<lambda>_ p'. owed p' = owed p \<and> pool_ok (lib_pq en) M R at_rest p' \<and> (M \<longrightarrow> dispatched en R fid mode p p'))"
    (is "wp _ ?QE ?Q")
proof -
  have deny: "wp (deny en fid resp q) ?QE ?Q"
    if "pool_ok (lib_pq en) M R at_rest q" "dispatch_replies q = dispatch_replies p" "owed q = owed p"
      "M \<longrightarrow> decide R fid mode p = Refuse resp" for resp q
    using that pool_ok_noM [OF that(1)] owed_cong [of "q\<lparr>dispatch_replies := x\<rparr>" q for x]
    by (simp add: deny_def dispatched_def)
  show ?thesis
  proof (cases "R fid = None")
    case True
    then have "\<not> function_exists fid (store p)" using pool_okD(2) [OF ok] by (simp add: function_exists_registered)
    then show ?thesis using deny [OF ok, of unknown_function] True by (simp add: handle_dispatch_def decide_def)
  next
    case False
    then have x: "function_exists fid (store p)" and r: "registered (store p) fid \<noteq> None"
      using pool_okD(2) [OF ok] by (simp_all add: function_exists_registered)
    show ?thesis
      unfolding handle_dispatch_def
    proof (simp add: x wp_bindE wp_on_store, rule wp_update_stats [OF pool_okD(1) [OF ok] r], goal_cases)
      case (1 s)
      let ?q = "p\<lparr>store := s\<rparr>"
      have i: "pool_ok (lib_pq en) M R at_rest ?q"
        using pool_ok_same_store [OF ok 1(1,2)] 1(3) pool_okD(2) [OF ok] by simp
      have en': "penv_ok en ?q" using en by (simp add: penv_ok_def)
      have ow: "owed ?q = owed p" by (simp add: owed_def)
      have cong: "decide R fid mode ?q = decide R fid mode p"
        "dispatched en R fid mode ?q p' = dispatched en R fid mode p p'" for p'
        by (rule dispatched_cong; simp add: 1(2))+
      have new: "where_is (store ?q) w = None" if "pe_spawn en = Inr w" for w
        using track_invD(2) [OF pool_okD(5) [OF i]] penv_okD(4) [OF en' that] by simp
      show ?case
      proof (rule wp_conseq [OF wp_dispatch_choose [OF i en' False, of mode]], goal_cases)
        case (2 ch p1)
        show ?case
        proof (cases ch)
          case (Denied resp)
          then show ?thesis using 2 deny [of p1 resp] cong ow by (simp add: choice_ok_def)
        next
          case (Chosen w)
          have ch: "choice_ok en M R fid mode ?q (Chosen w) p1" using 2 Chosen by simp
          then have r1: "ready (lib_pq en) M R w fid p1" "room p1" and o1: "owed p1 = owed p"
            using penv_okD(5) [OF en] ow by (simp_all add: choice_ok_def)
          from wp_dispatch_assign [OF r1(1) penv_okD(1) [OF en] r1(2)] show ?thesis
            unfolding Chosen dispatch_choice.case
          proof (rule wp_conseq, goal_cases)
            case (2 u p')
            then obtain cpu where "given en fid w cpu p1 p'" by (auto simp: given_def)
            then have "dispatched en R fid mode p p'" if M
              using choice_dispatched [OF ch new, of cpu p'] 2 that cong by simp
            then show ?case using 2 o1 by simp
          qed (simp add: o1)
        qed
      qed (use cong ow in \<open>auto intro: pool_ok_noM\<close>)
    qed
  qed
qed

lemma wp_handle_dispatch:
  assumes ok: "pool_ok (lib_pq en) M R at_rest p" and en: "penv_ok en p"
  shows "wp (handle_dispatch en fid mode p) (\<lambda>_ p'. pool_ok (lib_pq en) False R at_rest p' \<and> owed p' = owed p)
    (\<lambda>_ p'. pool_ok (lib_pq en) M R at_rest p' \<and> owed p' = owed p)"
  by (rule wp_conseq [OF wp_handle_dispatch_full [OF assms]]) simp_all

section \<open>The event loop\<close>

text \<open>
  What the pool relies on in a message of a worker. A worker announces a sandbox once, and one
  that no other worker or orphan has; it reports the function it was created for, and ends with its own
  sandbox; it reports a preparation or a snapshot that is pending for it, the snapshot when it is not
  executing an invocation.
\<close>

fun msg_ok :: "'q penv \<Rightarrow> 'q pool \<Rightarrow> outbound_message \<Rightarrow> bool" where
  "msg_ok en p (MsgSandboxId w sid) \<longleftrightarrow>
     (\<exists>h. handles_of p w = Some h \<and> wh_sandbox_id h = None)
   \<and> worker_by_sandbox p sid = None \<and> sid \<notin># orphan_ids (orphans (snapshots p))"
| "msg_ok en p (MsgNeedWork w fid) \<longleftrightarrow> True"
| "msg_ok en p (MsgReapMe w fid) \<longleftrightarrow> registered (store p) fid \<noteq> None
     \<and> (\<forall>h. handles_of p w = Some h \<longrightarrow> wh_function_id h = fid \<and> exit_ok en w h)"
| "msg_ok en p (MsgSandboxPreparation resp) \<longleftrightarrow>
     op_by_worker (pending p) (pr_worker_id resp) = Some OpPrepareSandbox"
| "msg_ok en p (MsgSnapshotCreation resp) \<longleftrightarrow>
     op_by_worker (pending p) (sr_worker_id resp) = Some OpSnapshot
   \<and> worker_by_sandbox p (sr_sandbox_id resp) = Some (sr_worker_id resp)
   \<and> cm_allocations (cpuset p) (sr_worker_id resp) = None"

fun input_ok :: "'q penv \<Rightarrow> 'q pool \<Rightarrow> pool_input \<Rightarrow> bool" where
  "input_ok en p (InWorker msg) \<longleftrightarrow> msg_ok en p msg"
| "input_ok en p (InControl msg) \<longleftrightarrow> control_ok en p msg"
| "input_ok en p _ \<longleftrightarrow> True"

lemma wp_handle_worker_status:
  assumes ok: "pool_ok (lib_pq en) M R at_rest p" and en: "penv_ok en p" and m: "msg_ok en p msg"
  shows "wp (handle_worker_status en msg p) (\<lambda>_ p'. pool_ok (lib_pq en) M R at_rest p' \<and> owed p' = owed p) (\<lambda>_ p'. pool_ok (lib_pq en) M R at_rest p' \<and> owed p' = owed p)"
proof (cases msg)
  case (MsgSandboxId w sid)
  then obtain h where h: "handles_of p w = Some h" "wh_sandbox_id h = None" "worker_by_sandbox p sid = None"
    "sid \<notin># orphan_ids (orphans (snapshots p))" using m by auto
  show ?thesis
    unfolding handle_worker_status_def MsgSandboxId outbound_message.case
    by (rule wp_conseq [OF wp_update_sandbox_id [OF ok h]]) simp_all
next
  case (MsgNeedWork w fid)
  then show ?thesis
    using wp_on_need_work [OF ok penv_okD(1,2) [OF en]] by (simp add: handle_worker_status_def)
next
  case (MsgReapMe w fid)
  then have f: "R fid \<noteq> None" and o: "handles_of p w = Some h \<Longrightarrow> wh_function_id h = fid \<and> exit_ok en w h" for h
    using m pool_okD(2) [OF ok] by auto
  show ?thesis
    using wp_reap_worker [OF ok penv_okD(1,2) [OF en] f o] by (simp add: handle_worker_status_def MsgReapMe)
next
  case (MsgSandboxPreparation resp)
  then show ?thesis
    using wp_finalize_sandbox_preparation [OF ok penv_okD(1,2) [OF en]] m by (simp add: handle_worker_status_def)
next
  case (MsgSnapshotCreation resp)
  then show ?thesis
    using wp_finalize_snapshotting [OF ok penv_okD(2) [OF en]] m by (simp add: handle_worker_status_def)
qed

definition step_ok :: "'q pq_ops \<Rightarrow> bool \<Rightarrow> registry \<Rightarrow> waiter multiset \<Rightarrow> loop_step \<times> 'q pool \<Rightarrow> bool" where
  "step_ok pq M R T r =
     (case r of (LoopPanics _, _) \<Rightarrow> False | (LoopAgain, p) \<Rightarrow> pool_ok pq M R at_rest p \<and> owed p = T
      | (LoopBreak, p) \<Rightarrow> pool_ok pq False R at_rest p \<and> owed p = T)"

lemma step_ok_break_on_error:
  assumes "wp r (\<lambda>_ p'. pool_ok pq False R at_rest p' \<and> owed p' = T) (\<lambda>_ p'. pool_ok pq M R at_rest p' \<and> owed p' = T)"
  shows "step_ok pq M R T (break_on_error r)"
  using assms by (auto simp: wp_iff step_ok_def break_on_error_def)

lemma wp_noM:
  "wp r (\<lambda>_ p'. pool_ok pq M R F p' \<and> owed p' = T) Q \<Longrightarrow> wp r (\<lambda>_ p'. pool_ok pq False R F p' \<and> owed p' = T) Q"
  by (erule wp_conseq) (auto intro: pool_ok_noM)

fun new_caller :: "pool_input \<Rightarrow> waiter multiset" where
  "new_caller (InControl msg) = {#control_caller msg#}"
| "new_caller _ = {#}"

lemma step_ok_pool_iter:
  assumes ok: "pool_ok (lib_pq en) M R at_rest p" and en: "penv_ok en p" and i: "input_ok en p inp"
  shows "step_ok (lib_pq en) M R (owed p + new_caller inp) (pool_iter en inp p)"
proof (cases inp)
  case (InTimer w)
  have "wp (decommission_idle_worker en w None p) (\<lambda>_ p'. pool_ok (lib_pq en) M R at_rest p' \<and> owed p' = owed p) (\<lambda>_ p'. pool_ok (lib_pq en) M R at_rest p' \<and> owed p' = owed p)"
    by (rule wp_conseq [OF wp_decommission [OF ok penv_okD(2) [OF en]]]) (simp_all add: quiet_owed)
  then show ?thesis using InTimer by (simp add: pool_iter_def step_ok_break_on_error [OF wp_noM])
next
  case (InWorker msg)
  then show ?thesis
    using i by (simp add: pool_iter_def step_ok_break_on_error [OF wp_noM [OF wp_handle_worker_status [OF ok en]]])
next
  case (InDispatch fid mode)
  then show ?thesis by (simp add: pool_iter_def step_ok_break_on_error [OF wp_handle_dispatch [OF ok en]])
next
  case (InControl msg)
  then show ?thesis
    using wp_handle_control [OF ok en, of msg] i by (auto simp: pool_iter_def wp_iff step_ok_def)
qed (use ok pool_ok_noM [OF ok] in \<open>simp_all add: pool_iter_def step_ok_def\<close>)

section \<open>Shutdown\<close>

lemma wp_for_each_all:
  assumes "\<And>x s. x \<in> set xs \<Longrightarrow> I s \<Longrightarrow>
      wp (f x s) (\<lambda>_ s'. I s' \<and> P x s' \<and> (\<forall>y. P y s \<longrightarrow> P y s')) (\<lambda>_ s'. I s' \<and> P x s' \<and> (\<forall>y. P y s \<longrightarrow> P y s'))"
    and "I s"
  shows "wp (for_each f xs s) (\<lambda>_ _. False) (\<lambda>_ s'. I s' \<and> (\<forall>x \<in> set xs. P x s') \<and> (\<forall>y. P y s \<longrightarrow> P y s'))"
  using assms
proof (induction xs arbitrary: s)
  case Nil
  then show ?case by simp
next
  case (Cons x xs)
  let ?Q = "\<lambda>_ s'. I s' \<and> P x s' \<and> (\<forall>y. P y s \<longrightarrow> P y s')"
  have f: "wp (f x s) ?Q ?Q" using Cons.prems by simp
  show ?case
    unfolding for_each.simps wp_matchE
  proof (rule wp_conseq [OF f], goal_cases)
    case (1 e s1)
    show ?case by (rule wp_conseq [OF Cons.IH]) (use Cons.prems 1 in auto)
  next
    case (2 u s1)
    show ?case by (rule wp_conseq [OF Cons.IH]) (use Cons.prems 2 in auto)
  qed
qed

text \<open>Some workers of the tracking map \<open>L\<close> have become Dying, and nothing else has changed.\<close>

definition retired :: "tracking \<Rightarrow> tracking \<Rightarrow> bool" where
  "retired L L' \<longleftrightarrow> (\<forall>w. L' w = L w \<or> (\<exists>c fid. L w = Some (c, fid) \<and> L' w = Some (Dying, fid)))"

lemma retired_upd:
  "retired L L' \<Longrightarrow> L w = Some (c, fid) \<Longrightarrow> retired L (L'(w \<mapsto> (Dying, fid)))"
  by (auto simp: retired_def)

lemma retired_cases:
  "retired L L' \<Longrightarrow> L w = Some (c, fid) \<Longrightarrow> L' w = Some (c, fid) \<or> L' w = Some (Dying, fid)"
  unfolding retired_def by (drule spec [of _ w]) auto

lemma retired_None: "retired L L' \<Longrightarrow> L w = None \<Longrightarrow> L' w = None"
  unfolding retired_def by (drule spec [of _ w]) auto

lemma wp_retire_idle:
  assumes ok: "pool_ok pq M R F p" and bu: "bu_spec (lib_bu en)" and L: "retired L (where_is (store p))"
    and l: "L w = Some (Idle, fid)"
  shows "wp (decommission_idle_worker en w (Some fid) p)
    (\<lambda>_ p'. pool_ok pq M R F p' \<and> quiet p p' \<and> where_is (store p') = (where_is (store p))(w \<mapsto> (Dying, fid)))
    (\<lambda>_ p'. pool_ok pq M R F p' \<and> quiet p p' \<and> where_is (store p') = (where_is (store p))(w \<mapsto> (Dying, fid)))"
  using retired_cases [OF L l]
proof
  assume "where_is (store p) w = Some (Idle, fid)"
  from wp_decommission_idle [OF ok bu this, of "Some fid"] show ?thesis by (auto elim!: wp_conseq)
next
  assume d: "where_is (store p) w = Some (Dying, fid)"
  then have "timers p w = None" "(worker_deadlines p)(w := None) = worker_deadlines p"
    using idle_inv_none(2,4) [OF pool_okD(7) [OF ok], of w] by simp_all
  then show ?thesis using ok d by (simp add: decommission_idle_worker_def fun_upd_idem)
qed

lemma wp_retire_active:
  assumes ok: "pool_ok pq M R F p" and bu: "bu_spec (lib_bu en)" and L: "retired L (where_is (store p))"
    and l: "L w = Some (Active, fid)"
  shows "wp (retire_active en (fid, w) p)
    (\<lambda>_ p'. pool_ok pq M R F p' \<and> quiet p p' \<and> where_is (store p') = (where_is (store p))(w \<mapsto> (Dying, fid)))
    (\<lambda>_ p'. pool_ok pq M R F p' \<and> quiet p p' \<and> where_is (store p') = (where_is (store p))(w \<mapsto> (Dying, fid)))"
  unfolding retire_active_def prod.case wp_bindE
proof (rule wp_conseq [OF wp_active_worker_to_dying [OF ok bu, of w fid]], goal_cases)
  case (1 e p1)
  then show ?case using ok retired_cases [OF L l] by (auto simp: fun_upd_idem)
next
  case (2 u p1)
  then have "handles_of p1 w \<noteq> None" by (intro tracked_handle_not_None [of pq M R F p1]) auto
  from wp_worker_shutdown [OF this, of en] show ?case
    by (rule wp_conseq) (use 2 in \<open>auto simp: quiet_def\<close>)
qed

lemma wp_retire_all:
  assumes ok: "pool_ok pq M R F p" and bu: "bu_spec (lib_bu en)" and L: "retired L (where_is (store p))"
    and xs: "\<And>fid w. (fid, w) \<in> set xs \<Longrightarrow> L w = Some (c, fid)"
    and f: "\<And>fid w q. retired L (where_is (store q)) \<Longrightarrow> pool_ok pq M R F q \<Longrightarrow> L w = Some (c, fid) \<Longrightarrow>
      wp (f (fid, w) q)
        (\<lambda>_ p'. pool_ok pq M R F p' \<and> quiet q p' \<and> where_is (store p') = (where_is (store q))(w \<mapsto> (Dying, fid)))
        (\<lambda>_ p'. pool_ok pq M R F p' \<and> quiet q p' \<and> where_is (store p') = (where_is (store q))(w \<mapsto> (Dying, fid)))"
  shows "wp (for_each f xs p) (\<lambda>_ _. False)
    (\<lambda>_ p'. pool_ok pq M R F p' \<and> quiet p p' \<and> retired L (where_is (store p'))
      \<and> (\<forall>fid w. (fid, w) \<in> set xs \<longrightarrow> where_is (store p') w = Some (Dying, fid)))"
proof -
  let ?I = "\<lambda>q. pool_ok pq M R F q \<and> quiet p q \<and> retired L (where_is (store q))"
  let ?P = "\<lambda>x q. L (snd x) = Some (c, fst x) \<and> where_is (store q) (snd x) = Some (Dying, fst x)"
  have "wp (for_each f xs p) (\<lambda>_ _. False) (\<lambda>_ q. ?I q \<and> (\<forall>x \<in> set xs. ?P x q) \<and> (\<forall>y. ?P y p \<longrightarrow> ?P y q))"
  proof (rule wp_for_each_all)
    fix x q assume x: "x \<in> set xs" and i: "?I q"
    obtain fid w where e: "x = (fid, w)" by (cases x)
    then have l: "L w = Some (c, fid)" using xs x by blast
    let ?Q = "\<lambda>_ q'. ?I q' \<and> ?P x q' \<and> (\<forall>y. ?P y q \<longrightarrow> ?P y q')"
    have r: "retired L (where_is (store q))" "pool_ok pq M R F q" using i by simp_all
    have "?Q u q'" if "pool_ok pq M R F q' \<and> quiet q q' \<and> where_is (store q') = (where_is (store q))(w \<mapsto> (Dying, fid))" for u :: 'a and q'
      using that i l e retired_upd [OF r(1) l] quiet_trans by auto
    then show "wp (f x q) ?Q ?Q" unfolding e by (intro wp_conseq [OF f [OF r l]]) blast+
  qed (use ok L in simp)
  then show ?thesis by (rule wp_conseq) force+
qed

text \<open>After the first stage of the shutdown every worker is Dying, for the function it had.\<close>

lemma wp_shutdown_begin:
  assumes ok: "pool_ok pq M R F p" and bu: "bu_spec (lib_bu en)"
  shows "wp (shutdown_begin en p) (\<lambda>_ _. False)
    (\<lambda>_ p'. pool_ok pq M R F p' \<and> quiet p p'
      \<and> where_is (store p') = (\<lambda>w. map_option (\<lambda>(_, fid). (Dying, fid)) (where_is (store p) w)))"
proof -
  let ?L = "where_is (store p)"
  have r0: "retired ?L ?L" by (simp add: retired_def)
  have idle: "(fid, w) \<in> set (iter_idle (store p)) \<longleftrightarrow> ?L w = Some (Idle, fid)" for fid w
    using set_iter_workers [OF pool_okD(1) [OF ok], of Idle] by (auto simp: iter_idle_def)
  have f1: "wp ((\<lambda>(fid, w). decommission_idle_worker en w (Some fid)) (fid, w) q)
        (\<lambda>_ p'. pool_ok pq M R F p' \<and> quiet q p' \<and> where_is (store p') = (where_is (store q))(w \<mapsto> (Dying, fid)))
        (\<lambda>_ p'. pool_ok pq M R F p' \<and> quiet q p' \<and> where_is (store p') = (where_is (store q))(w \<mapsto> (Dying, fid)))"
    if "retired ?L (where_is (store q))" "pool_ok pq M R F q" "?L w = Some (Idle, fid)" for fid w q
    unfolding prod.case by (rule wp_retire_idle [OF that(2) bu that(1,3)])
  show ?thesis
    unfolding shutdown_begin_def wp_bindE
  proof (rule wp_conseq [OF wp_retire_all [where f = "\<lambda>(fid, w). decommission_idle_worker en w (Some fid)" and c = Idle,
        OF ok bu r0 _ f1]], goal_cases)
    case (1 fid w)
    then show ?case using idle by simp
  next
    case (6 u p1)
    then have i: "pool_ok pq M R F p1" "quiet p p1" "retired ?L (where_is (store p1))"
      and di: "\<And>fid w. ?L w = Some (Idle, fid) \<Longrightarrow> where_is (store p1) w = Some (Dying, fid)"
      using idle by auto
    let ?L1 = "where_is (store p1)"
    have act: "(fid, w) \<in> set (iter_active (store p1)) \<longleftrightarrow> ?L1 w = Some (Active, fid)" for fid w
      using set_iter_workers [OF pool_okD(1) [OF i(1)], of Active] by (auto simp: iter_active_def)
    have r1: "retired ?L1 ?L1" by (simp add: retired_def)
    have f2: "wp (retire_active en (fid, w) q)
        (\<lambda>_ p'. pool_ok pq M R F p' \<and> quiet q p' \<and> where_is (store p') = (where_is (store q))(w \<mapsto> (Dying, fid)))
        (\<lambda>_ p'. pool_ok pq M R F p' \<and> quiet q p' \<and> where_is (store p') = (where_is (store q))(w \<mapsto> (Dying, fid)))"
      if "retired ?L1 (where_is (store q))" "pool_ok pq M R F q" "?L1 w = Some (Active, fid)" for fid w q
      by (rule wp_retire_active [OF that(2) bu that(1,3)])
    show ?case
    proof (rule wp_conseq [OF wp_retire_all [where f = "retire_active en" and c = Active, OF i(1) bu r1 _ f2]], goal_cases)
      case (6 v p2)
      have "where_is (store p2) w = map_option (\<lambda>(_, fid). (Dying, fid)) (?L w)" for w
      proof (cases "?L w")
        case None
        then have "?L1 w = None" by (rule retired_None [OF i(3)])
        then show ?thesis using 6 None retired_None [of ?L1 "where_is (store p2)" w] by simp
      next
        case (Some x)
        obtain c fid where x: "x = (c, fid)" by (cases x)
        have "?L1 w = Some (Active, fid) \<or> ?L1 w = Some (Dying, fid)"
          using retired_cases [OF i(3), of w c fid] di [of w fid] Some x by (cases c) auto
        then have "where_is (store p2) w = Some (Dying, fid)"
          using 6 act retired_cases [of ?L1 "where_is (store p2)" w Dying fid] by auto
        then show ?thesis using Some x by simp
      qed
      then show ?case using 6 i(2) quiet_trans by blast
    qed (use act in simp_all)
  qed simp_all
qed

definition shutdown_msg_ok :: "'q penv \<Rightarrow> 'q pool \<Rightarrow> shutdown_input \<Rightarrow> bool" where
  "shutdown_msg_ok en p inp =
     (case inp of
        ShWorker (Some (MsgSnapshotCreation resp)) \<Rightarrow>
          op_by_worker (pending p) (sr_worker_id resp) = Some OpSnapshot
        \<and> worker_by_sandbox p (sr_sandbox_id resp) = Some (sr_worker_id resp)
      | ShWorker (Some msg) \<Rightarrow> msg_ok en p msg
      | _ \<Rightarrow> True)"

lemma step_ok_keep_going:
  assumes "wp r (\<lambda>_ p'. pool_ok pq M R at_rest p' \<and> owed p' = T) (\<lambda>_ p'. pool_ok pq M R at_rest p' \<and> owed p' = T)"
  shows "step_ok pq M R T (keep_going r)"
  using assms by (auto simp: wp_iff step_ok_def keep_going_def)

lemma step_ok_shutdown_iter:
  assumes ok: "pool_ok (lib_pq en) M R at_rest p" and pq: "pq_spec (lib_pq en)" and bu: "bu_spec (lib_bu en)"
    and i: "shutdown_msg_ok en p inp"
  shows "step_ok (lib_pq en) M R (owed p) (shutdown_iter en inp p)"
proof (cases inp)
  case (ShWorker mo)
  show ?thesis
  proof (cases mo)
    case None
    then show ?thesis using ShWorker pool_ok_noM [OF ok] by (simp add: shutdown_iter_def step_ok_def)
  next
    case (Some msg)
    show ?thesis
    proof (cases msg)
      case (MsgSandboxId w sid)
      then obtain h where h: "handles_of p w = Some h" "wh_sandbox_id h = None" "worker_by_sandbox p sid = None"
        "sid \<notin># orphan_ids (orphans (snapshots p))" using i ShWorker Some by (auto simp: shutdown_msg_ok_def)
      have "wp (update_sandbox_id w sid p) (\<lambda>_ p'. pool_ok (lib_pq en) M R at_rest p' \<and> owed p' = owed p) (\<lambda>_ p'. pool_ok (lib_pq en) M R at_rest p' \<and> owed p' = owed p)"
        by (rule wp_conseq [OF wp_update_sandbox_id [OF ok h]]) simp_all
      then show ?thesis using ShWorker Some MsgSandboxId by (simp add: shutdown_iter_def step_ok_keep_going)
    next
      case (MsgNeedWork w fid)
      have "wp (pool_cpu_release en w p) (\<lambda>_ p'. pool_ok (lib_pq en) M R at_rest p' \<and> owed p' = owed p) (\<lambda>_ p'. pool_ok (lib_pq en) M R at_rest p' \<and> owed p' = owed p)"
        by (rule wp_conseq [OF wp_cpu_release [OF ok pq]]) (auto simp: ok owed_def)
      then show ?thesis using ShWorker Some MsgNeedWork by (simp add: shutdown_iter_def step_ok_keep_going)
    next
      case (MsgReapMe w fid)
      then have f: "R fid \<noteq> None" and o: "handles_of p w = Some h \<Longrightarrow> wh_function_id h = fid \<and> exit_ok en w h" for h
        using i ShWorker Some pool_okD(2) [OF ok] by (auto simp: shutdown_msg_ok_def)
      show ?thesis
        using ShWorker Some MsgReapMe wp_reap_worker [OF ok pq bu f o]
        by (simp add: shutdown_iter_def step_ok_keep_going)
    next
      case (MsgSandboxPreparation resp)
      then have o: "op_by_worker (pending p) (pr_worker_id resp) = Some OpPrepareSandbox"
        using i ShWorker Some by (simp add: shutdown_msg_ok_def)
      have "wp (finalize_sandbox_preparation_during_shutdown en resp p)
          (\<lambda>_ p'. pool_ok (lib_pq en) M R at_rest p' \<and> owed p' = owed p) (\<lambda>_ p'. pool_ok (lib_pq en) M R at_rest p' \<and> owed p' = owed p)"
        by (rule wp_conseq [OF wp_finalize_sandbox_preparation_during_shutdown [OF ok pq o]]) simp_all
      then show ?thesis using ShWorker Some MsgSandboxPreparation by (simp add: shutdown_iter_def step_ok_keep_going)
    next
      case (MsgSnapshotCreation resp)
      then show ?thesis
        using i ShWorker Some pool_ok_finalize_snapshotting_during_shutdown [OF ok]
        by (simp add: shutdown_iter_def shutdown_msg_ok_def step_ok_def)
    qed
  qed
qed (use ok pool_ok_noM [OF ok] in \<open>simp_all add: shutdown_iter_def step_ok_def owed_def\<close>)

end
