(* ===== verification/Pool_Props.thy ===== *)
theory Pool_Props
  imports Pool_Loop
begin

text \<open>
  The states that the pool can reach and the properties of its handlers. Between two iterations of the
  event loop a function can be registered, or deregistered, by the registrar, which shares the store.
\<close>

section \<open>Reachable states\<close>

lemma charge_registry:
  assumes "\<And>w h. map_of hs w = Some h \<Longrightarrow> rmem R' (wh_function_id h) = rmem R (wh_function_id h)" "distinct (keys hs)"
  shows "charge R' a hs = charge R a hs"
proof -
  have "(case x of (w, h) \<Rightarrow> if wh_mem_accounting h = a then rmem R' (wh_function_id h) else 0)
      = (case x of (w, h) \<Rightarrow> if wh_mem_accounting h = a then rmem R (wh_function_id h) else 0)"
    if "x \<in> set hs" for x
  proof (cases x)
    case (Pair w h)
    then have "map_of hs w = Some h" using that assms(2) by simp
    from assms(1) [OF this] show ?thesis by (simp add: Pair)
  qed
  then show ?thesis unfolding charge_def by (intro arg_cong [of _ _ sum_list] map_cong) simp_all
qed

lemma handle_tracked:
  assumes "pool_ok pq M R at_rest p" "handles_of p w = Some h"
  shows "\<exists>c. where_is (store p) w = Some (c, wh_function_id h)" "R (wh_function_id h) \<noteq> None"
proof -
  show "\<exists>c. where_is (store p) w = Some (c, wh_function_id h)"
    using track_invD(4) [OF pool_okD(5) [OF assms(1)] _ assms(2)] by auto
  then show "R (wh_function_id h) \<noteq> None" using tracked_registered [OF assms(1)] by blast
qed

lemma pool_ok_registry:
  assumes ok: "pool_ok pq M R at_rest p"
    and s: "store_inv s" "where_is s = where_is (store p)" "registered s = R'"
    and h: "\<And>w h. handles_of p w = Some h \<Longrightarrow> R' (wh_function_id h) = R (wh_function_id h)"
    and o: "\<And>x. x \<in># orphans (snapshots p) \<Longrightarrow> R' (fst x) \<noteq> None"
  shows "pool_ok pq M R' at_rest (p\<lparr>store := s\<rparr>)"
proof -
  note D = pool_okD [OF ok]
  have "charge R' a (worker_handles p) = charge R a (worker_handles p)" for a
    by (rule charge_registry [OF _ D(3)]) (simp add: rmem_def h)
  then have "mem_inv R' (worker_handles p) (memory p)" if M using D(11) [OF that] by (simp add: mem_inv_def)
  moreover have "sandbox_inv R' (handles_of p) (worker_by_sandbox p) (orphans (snapshots p))"
    using D(9) o unfolding sandbox_inv_def by blast
  ultimately show ?thesis using ok s by (simp add: pool_ok_def)
qed

lemma pool_ok_register:
  assumes ok: "pool_ok pq M R at_rest p" and r: "register_function rf (store p) = (Inr (), s)"
  shows "\<exists>R'. pool_ok pq M R' at_rest (p\<lparr>store := s\<rparr>)"
proof -
  note D = pool_okD [OF ok]
  let ?f = "fi_id (rf_info rf)"
  have n: "registered (store p) ?f = None"
    using r by (auto simp: register_function_def registered_def Let_def split: option.splits if_splits)
  then have s: "store_inv s" "where_is s = where_is (store p)" "registered s = R(?f \<mapsto> rf)"
    using register_function_ok [OF D(1) n] r D(2) by auto
  have "pool_ok pq M (R(?f \<mapsto> rf)) at_rest (p\<lparr>store := s\<rparr>)"
  proof (rule pool_ok_registry [OF ok s])
    show "(R(?f \<mapsto> rf)) (wh_function_id h) = R (wh_function_id h)" if "handles_of p w = Some h" for w h
      using handle_tracked(2) [OF ok that] n D(2) by auto
    show "(R(?f \<mapsto> rf)) (fst x) \<noteq> None" if "x \<in># orphans (snapshots p)" for x
      using sandbox_invD(3) [OF D(9) that] by simp
  qed
  then show ?thesis by blast
qed

lemma pool_ok_deregister:
  assumes ok: "pool_ok pq M R at_rest p" and r: "deregister_function fid (store p) = (Inr rf, s)"
    and o: "\<forall>x. x \<in># orphans (snapshots p) \<longrightarrow> fst x \<noteq> fid"
  shows "\<exists>R'. pool_ok pq M R' at_rest (p\<lparr>store := s\<rparr>)"
proof -
  note D = pool_okD [OF ok]
  have u: "where_is (store p) w \<noteq> Some (c, fid)" for w c
    using deregister_in_use [OF D(1), of w c fid] r by auto
  have "\<exists>rf'. registered (store p) fid = Some rf'"
    using r by (auto simp: deregister_function_def registered_def split: option.splits)
  then have s: "store_inv s" "where_is s = where_is (store p)" "registered s = R(fid := None)"
    using deregister_function_ok [OF D(1) _ u] r D(2) by auto
  have "pool_ok pq M (R(fid := None)) at_rest (p\<lparr>store := s\<rparr>)"
  proof (rule pool_ok_registry [OF ok s])
    show "(R(fid := None)) (wh_function_id h) = R (wh_function_id h)" if "handles_of p w = Some h" for w h
      using handle_tracked(1) [OF ok that] u by auto
    show "(R(fid := None)) (fst x) \<noteq> None" if "x \<in># orphans (snapshots p)" for x
    proof -
      have "fst x \<noteq> fid" using o that by blast
      then show ?thesis using sandbox_invD(3) [OF D(9) that] by simp
    qed
  qed
  then show ?thesis by blast
qed

definition fresh_start :: "(function_id \<times> sandbox list) list \<Rightarrow> fmd_store \<Rightarrow> bool" where
  "fresh_start ss st \<longleftrightarrow> store_inv st \<and> where_is st = Map.empty \<and> distinct (keys ss)
     \<and> (\<forall>sid. count (orphan_ids (orphans ss)) sid \<le> 1)
     \<and> (\<forall>x. x \<in># orphans ss \<longrightarrow> registered st (fst x) \<noteq> None)"

inductive pool_reach :: "'q pq_ops \<Rightarrow> 'q pool \<Rightarrow> bool" for pq :: "'q pq_ops" where
  start: "pool_new pq pct status cfg st (Inr ss) = Inr p \<Longrightarrow> managed pq (cpuset p) \<noteq> {}
    \<Longrightarrow> fresh_start ss st \<Longrightarrow> cfg_max_memory cfg < bu_max \<Longrightarrow> pool_reach pq p"
| iter: "pool_reach pq p \<Longrightarrow> lib_pq en = pq \<Longrightarrow> penv_ok en p \<Longrightarrow> input_ok en p inp
    \<Longrightarrow> pool_iter en inp p = (LoopAgain, p') \<Longrightarrow> pool_reach pq p'"
| register: "pool_reach pq p \<Longrightarrow> register_function rf (store p) = (Inr (), s) \<Longrightarrow> pool_reach pq (p\<lparr>store := s\<rparr>)"
| deregister: "pool_reach pq p \<Longrightarrow> deregister_function fid (store p) = (Inr rf, s)
    \<Longrightarrow> \<forall>x. x \<in># orphans (snapshots p) \<longrightarrow> fst x \<noteq> fid \<Longrightarrow> pool_reach pq (p\<lparr>store := s\<rparr>)"

lemma orphans_Nil: "orphans [] = {#}" "orphan_ids {#} = {#}"
  by (simp_all add: orphans_def orphan_ids_def)

lemma pool_ok_new:
  assumes n: "pool_new pq pct status cfg st (Inr ss) = Inr p" and m: "managed pq (cpuset p) \<noteq> {}"
    and f: "fresh_start ss st" and b: "cfg_max_memory cfg < bu_max" and pq: "pq_spec pq"
  shows "pool_ok pq M (registered st) at_rest p"
proof -
  obtain cs where c: "cpuset_new pq status (cfg_cpuset cfg) = Inr cs"
    using n by (auto simp: pool_new_def split: if_splits sum.splits fault.splits)
  have al: "cm_allocations cs = Map.empty" using c by (auto simp: cpuset_new_def split: sum.splits if_splits)
  define sbs where "sbs = (if cfg_retain_snapshots cfg then ss else [])"
  have p: "p = \<lparr>retain_snapshots = cfg_retain_snapshots cfg,
                       snapshots_disabled = cfg_snapshots_disabled cfg,
                       default_worker_cap = cfg_default_worker_cap cfg,
                       cpuset = cs,
                       memory = \<lparr>mem_total = cfg_max_memory cfg, mem_inuse = 0, mem_reclaimed = 0,
                                 eviction_thres_hi = pct (cfg_max_memory cfg) (cfg_hi_watermark cfg),
                                 eviction_thres_lo = pct (cfg_max_memory cfg) (cfg_lo_watermark cfg)\<rparr>,
                       store = st, timers = Map.empty, worker_handles = [], worker_deadlines = Map.empty,
                       worker_by_sandbox = Map.empty, snapshots = sbs, trashed_sandboxes = [],
                       pending = \<lparr>op_by_worker = Map.empty, sandbox_preps = [], sandbox_destrs = [],
                                  pending_snapshots = []\<rparr>,
                       admission_events = [], dispatch_replies = [], worker_msgs = [],
                       control_replies = [], db_ops = []\<rparr>"
    using n c by (cases "cfg_retain_snapshots cfg") (auto simp: pool_new_def sbs_def split: if_splits)
  have s: "distinct (keys sbs)" "\<forall>sid. count (orphan_ids (orphans sbs)) sid \<le> 1"
    "\<forall>x. x \<in># orphans sbs \<longrightarrow> registered st (fst x) \<noteq> None"
    using f unfolding sbs_def fresh_start_def
    by (cases "cfg_retain_snapshots cfg"; simp add: orphans_Nil)+
  have "cpu_inv pq (where_is st) cs"
    using cpuset_new_inv(1) [OF pq c] m al by (simp add: cpu_inv_def p)
  then show ?thesis
    using f s b unfolding p pool_ok_def
    by (simp add: fresh_start_def track_inv_def track_at_def idle_inv_def sandbox_inv_def pending_inv_def
        mem_inv_def charge_def)
qed

lemma pool_reach_ok:
  assumes "pool_reach pq p" "pq_spec pq"
  shows "\<exists>R. pool_ok pq True R at_rest p"
  using assms
proof (induction rule: pool_reach.induct)
  case (start pct status cfg st ss p)
  then show ?case using pool_ok_new by blast
next
  case (iter p en inp p')
  then obtain R where ok: "pool_ok (lib_pq en) True R at_rest p" by blast
  show ?case using step_ok_pool_iter [OF ok iter.hyps(3,4)] iter.hyps(2,5) by (auto simp: step_ok_def)
next
  case (register p rf s)
  then show ?case using pool_ok_register by blast
next
  case (deregister p fid rf s)
  then show ?case using pool_ok_deregister by blast
qed

section \<open>Properties of the event loop\<close>

text \<open>
  A pool with two registered functions and an orphan snapshot of the first, for the witnesses; every
  send succeeds in \<open>env_example\<close> and the next worker gets the id 7.
\<close>

definition store_fresh :: fmd_store where
  "store_fresh =
     [(''f'', fmd_new \<lparr>rf_info = \<lparr>fi_id = ''f'', fi_memory = 128\<rparr>, rf_admission = None\<rparr>),
      (''g'', fmd_new \<lparr>rf_info = \<lparr>fi_id = ''g'', fi_memory = 64\<rparr>, rf_admission = None\<rparr>)]"

definition cfg_example :: pool_config where
  "cfg_example = \<lparr>cfg_retain_snapshots = True, cfg_snapshots_disabled = False, cfg_cpuset = ''0,1'',
     cfg_max_memory = 200, cfg_lo_watermark = Some (1 / 2), cfg_hi_watermark = Some 1,
     cfg_default_worker_cap = 4\<rparr>"

definition orphan_example :: sandbox where
  "orphan_example = \<lparr>sb_id = ''s1'', sb_stats = \<lparr>sb_invocations = 0, sb_restorations = 0\<rparr>\<rparr>"

definition pool_example :: "(cpu \<times> 16 word) list pool" where
  "pool_example =
     \<lparr>retain_snapshots = True, snapshots_disabled = False, default_worker_cap = 4,
      cpuset = \<lparr>cm_pq = [(0, 0), (1, 0)], cm_allocations = Map.empty\<rparr>,
      memory = \<lparr>mem_total = 200, mem_inuse = 0, mem_reclaimed = 0, eviction_thres_hi = 200, eviction_thres_lo = 200\<rparr>,
      store = store_fresh, timers = Map.empty, worker_handles = [], worker_deadlines = Map.empty,
      worker_by_sandbox = Map.empty, snapshots = [(''f'', [orphan_example])], trashed_sandboxes = [],
      pending = \<lparr>op_by_worker = Map.empty, sandbox_preps = [], sandbox_destrs = [], pending_snapshots = []\<rparr>,
      admission_events = [], dispatch_replies = [], worker_msgs = [], control_replies = [], db_ops = []\<rparr>"

definition env_example :: "(cpu \<times> 16 word) list penv" where
  "env_example = \<lparr>lib_pq = list_pq, lib_bu = saturating, pe_now = 10, pe_spawn = Inr 7, pe_reply_ok = True,
     pe_ctl_ok = (\<lambda>_. True), pe_event_ok = (\<lambda>_. True), pe_finished = (\<lambda>_. False), pe_exit = (\<lambda>_. None),
     pe_assign = (\<lambda>_. Some 60), pe_evict = noop_evict, pe_orphan = (\<lambda>_. OrphanDestroyed)\<rparr>"

lemma store_fresh_inv: "store_inv store_fresh" "where_is store_fresh = Map.empty"
proof -
  show i: "store_inv store_fresh"
    unfolding store_inv_def store_fresh_def located_def
    by (auto simp: workers_case fmd_new_def split: if_splits wclass.splits)
  show "where_is store_fresh = Map.empty"
    by (rule where_is_eqI [OF i]) (auto simp: located_def store_fresh_def)
qed

lemma cpuset_example_new:
  "cpuset_new list_pq None ''0,1'' = Inr \<lparr>cm_pq = [(0, 0), (1, 0)], cm_allocations = Map.empty\<rparr>"
proof -
  have "parse_cpuset ''0,1'' = Inr [0, 1]"
    by (simp add: parse_cpuset_def split_terminator_def trim_def is_ws_def parse_item_def parse_u16_def
        to_digit_def)
  then show ?thesis by (simp add: cpuset_new_def list_pq_def)
qed

lemma pool_example_new:
  "pool_new list_pq (\<lambda>t _. t) None cfg_example store_fresh (Inr [(''f'', [orphan_example])]) = Inr pool_example"
  by (simp add: pool_new_def watermarks_ok_def cfg_example_def cpuset_example_new pool_example_def)

lemma pool_example_reach: "pool_reach list_pq pool_example"
proof (rule pool_reach.start [OF pool_example_new])
  show "managed list_pq (cpuset pool_example) \<noteq> {}"
    by (auto simp: managed_def list_pq_def pool_example_def intro!: exI [of _ 0])
  show "fresh_start [(''f'', [orphan_example])] store_fresh"
    unfolding fresh_start_def using store_fresh_inv
    by (auto simp: orphans_def orphan_ids_def registered_def store_fresh_def)
  show "cfg_max_memory cfg_example < bu_max" by (simp add: cfg_example_def)
qed

lemma env_example_ok:
  assumes "handles_of p 7 = None" "room p"
  shows "penv_ok env_example p"
  using assms pq_spec_list_pq bu_spec_saturating noop.eviction_policy_axioms
  by (simp add: penv_ok_def env_example_def)

lemma pool_example_ok: "pool_ok list_pq True (registered store_fresh) at_rest pool_example"
  using pool_reach_ok [OF pool_example_reach pq_spec_list_pq] pool_okD(2)
  by (metis pool.select_convs(6) pool_example_def)

lemma registered_fresh:
  "registered store_fresh ''f'' = Some \<lparr>rf_info = \<lparr>fi_id = ''f'', fi_memory = 128\<rparr>, rf_admission = None\<rparr>"
  by (simp add: registered_def store_fresh_def fmd_new_def)

lemma example_decision: "decide (registered store_fresh) ''f'' ReuseIdleOrProvision pool_example = SpawnNew"
  using store_fresh_inv(2) by (simp add: decide_def registered_fresh pool_example_def worker_cap_def)

lemma env_example_pool: "penv_ok env_example pool_example"
  by (rule env_example_ok) (simp_all add: pool_example_def)

text \<open>The first invocation of \<open>f\<close>: worker 7 is spawned for it.\<close>

lemma example_dispatch:
  "\<exists>p'. pool_iter env_example (InDispatch ''f'' ReuseIdleOrProvision) pool_example = (LoopAgain, p')
    \<and> pool_reach list_pq p' \<and> where_is (store p') 7 = Some (Active, ''f'') \<and> room p'"
proof -
  have l: "lib_pq env_example = list_pq" by (simp add: env_example_def)
  have ok: "pool_ok (lib_pq env_example) True (registered store_fresh) at_rest pool_example"
    unfolding l by (rule pool_example_ok)
  obtain p' cpu where p': "handle_dispatch env_example ''f'' ReuseIdleOrProvision pool_example = (Inr (), p')"
    "where_is (store p') 7 = Some (Active, ''f'')"
    "cm_allocations (cpuset p') = (cm_allocations (cpuset pool_example))(7 \<mapsto> cpu)"
    using wp_handle_dispatch_full [OF ok env_example_pool, of "''f''" ReuseIdleOrProvision]
    by (auto simp: wp_iff dispatched_def example_decision env_example_def given_def)
  then have "room p'" by (simp add: pool_example_def)
  have s: "pool_iter env_example (InDispatch ''f'' ReuseIdleOrProvision) pool_example = (LoopAgain, p')"
    by (simp add: pool_iter_def p' break_on_error_def)
  have "pool_reach list_pq p'" by (rule pool_reach.iter [OF pool_example_reach l env_example_pool _ s]) simp
  then show ?thesis using s p' \<open>room p'\<close> by blast
qed







text \<open>The memory of all live workers that are charged for.\<close>

definition charged_memory :: "'q pool \<Rightarrow> nat" where
  "charged_memory p =
     sum_list (map (\<lambda>(w, h). if wh_mem_accounting h = MemUncharged then 0
       else rmem (registered (store p)) (wh_function_id h)) (worker_handles p))"

lemma charged_memory_charges:
  "charged_memory p = charge (registered (store p)) MemInUse (worker_handles p)
     + charge (registered (store p)) MemReclaimed (worker_handles p)"
proof -
  have "sum_list (map (\<lambda>(w, h). if wh_mem_accounting h = MemUncharged then 0 else rmem R (wh_function_id h)) hs)
      = charge R MemInUse hs + charge R MemReclaimed hs" for R hs
  proof (induction hs)
    case Nil
    then show ?case by (simp add: charge_def)
  next
    case (Cons x hs)
    then show ?case by (cases "wh_mem_accounting (snd x)") (simp_all add: charge_def split_def)
  qed
  then show ?thesis by (simp add: charged_memory_def)
qed

text \<open>
  C10: the memory of the live workers is bounded. In every reachable state the memory of all workers
  that are charged for, in use or being reclaimed, fits into the configured total, although the code adds and
  subtracts with saturation.
\<close>

theorem pool_memory_bound:
  assumes "pool_reach pq p" "pq_spec pq"
  shows "charged_memory p \<le> mem_total (memory p)"
proof -
  obtain R where ok: "pool_ok pq True R at_rest p" using pool_reach_ok [OF assms] by blast
  show ?thesis
    using pool_okD(11) [OF ok] pool_okD(2) [OF ok] by (simp add: mem_inv_def charged_memory_charges)
qed

theorem pool_memory_bound_witness:
  "\<exists>p :: (cpu \<times> 16 word) list pool. where_is (store p) 7 = Some (Active, ''f'') \<and> charged_memory p \<le> mem_total (memory p)"
  using example_dispatch pool_memory_bound [OF _ pq_spec_list_pq] by blast

text \<open>
  C31: keep-alive timeouts. The timeout of an idle worker of a reachable pool moves it to Dying, stops its timer, moves
  exactly its memory from the accounts in use to those being reclaimed and tells it to shut down; if it
  cannot be told, the loop ends. A timeout of any other worker is ignored and changes nothing.
\<close>

theorem pool_timeout:
  assumes "pool_reach (lib_pq en) p" "penv_ok en p"
  shows "case where_is (store p) w of
      Some (Idle, fid) \<Rightarrow>
        (\<exists>p'. pool_iter en (InTimer w) p = (if pe_ctl_ok en w then LoopAgain else LoopBreak, p')
          \<and> where_is (store p') = (where_is (store p))(w \<mapsto> (Dying, fid)) \<and> timers p' w = None
          \<and> mem_inuse (memory p') + rmem (registered (store p)) fid = mem_inuse (memory p)
          \<and> mem_reclaimed (memory p') = mem_reclaimed (memory p) + rmem (registered (store p)) fid
          \<and> (pe_ctl_ok en w \<longrightarrow> worker_msgs p' = worker_msgs p @ [(w, CtlShutDown)]))
    | _ \<Rightarrow> pool_iter en (InTimer w) p = (LoopAgain, p)"
proof -
  obtain R where ok: "pool_ok (lib_pq en) True R at_rest p"
    using pool_reach_ok [OF assms(1) penv_okD(1) [OF assms(2)]] by blast
  note D = pool_okD [OF ok] and bu = penv_okD(2) [OF assms(2)]
  have idle: "\<exists>p'. pool_iter en (InTimer w) p = (if pe_ctl_ok en w then LoopAgain else LoopBreak, p')
          \<and> where_is (store p') = (where_is (store p))(w \<mapsto> (Dying, fid)) \<and> timers p' w = None
          \<and> mem_inuse (memory p') + rmem (registered (store p)) fid = mem_inuse (memory p)
          \<and> mem_reclaimed (memory p') = mem_reclaimed (memory p) + rmem (registered (store p)) fid
          \<and> (pe_ctl_ok en w \<longrightarrow> worker_msgs p' = worker_msgs p @ [(w, CtlShutDown)])"
    if l: "where_is (store p) w = Some (Idle, fid)" for fid
  proof -
    obtain h where h: "handles_of p w = Some h" "wh_function_id h = fid" "wh_mem_accounting h = MemInUse"
      using tracked_handle [OF ok l] by auto
    have "rmem R fid \<le> mem_inuse (memory p)"
      using charge_delete [OF D(3) h(1), of R MemInUse] h D(11) by (simp add: mem_inv_def)
    then have "mem_inuse (reclaim (lib_bu en) (rmem R fid) (memory p)) + rmem R fid = mem_inuse (memory p)
      \<and> mem_reclaimed (reclaim (lib_bu en) (rmem R fid) (memory p)) = mem_reclaimed (memory p) + rmem R fid"
      using bu D(11) by (simp add: mem_inv_def reclaim_def)
    then show ?thesis
      using wp_decommission_idle [OF ok bu l, of None] D(2)
      by (auto simp: wp_iff pool_iter_def break_on_error_def)
  qed
  have other: "pool_iter en (InTimer w) p = (LoopAgain, p)" if n: "\<And>fid. where_is (store p) w \<noteq> Some (Idle, fid)"
    using idle_inv_none(2,4) [OF D(7) n] by (simp add: pool_iter_def decommission_idle_worker_def break_on_error_def)
  show ?thesis using idle other by (auto split: option.split prod.split wclass.split)
qed

theorem pool_timeout_witness: "pool_iter env_example (InTimer 3) pool_example = (LoopAgain, pool_example)"
proof -
  have "where_is (store pool_example) 3 = None" by (simp add: pool_example_def store_fresh_inv(2))
  then show ?thesis
    using pool_timeout [of env_example pool_example 3] pool_example_reach env_example_pool
    by (simp add: env_example_def)
qed

text \<open>
  C32: shutdown retires every worker. When the event loop of a reachable pool ends, in whatever way, the first
  stage of the shutdown returns, and afterwards every worker that was tracked is Dying for the
  function it had, even those that could not be told to stop.
\<close>

theorem pool_shutdown_retires:
  assumes "pool_reach (lib_pq en) p" "penv_ok en p" "input_ok en p inp"
    and "pool_iter en inp p = (LoopBreak, p1)" and "bu_spec (lib_bu en')"
  shows "\<exists>p2. shutdown_begin en' p1 = (Inr () :: pool_error fault + unit, p2)
    \<and> where_is (store p2) = (\<lambda>w. map_option (\<lambda>(_, fid). (Dying, fid)) (where_is (store p1) w))
    \<and> (\<forall>w. timers p2 w = None)"
proof -
  obtain R where ok: "pool_ok (lib_pq en) True R at_rest p"
    using pool_reach_ok [OF assms(1) penv_okD(1) [OF assms(2)]] by blast
  have ok1: "pool_ok (lib_pq en) False R at_rest p1"
    using step_ok_pool_iter [OF ok assms(2,3)] assms(4) by (simp add: step_ok_def)
  obtain p2 where p2: "shutdown_begin en' p1 = (Inr () :: pool_error fault + unit, p2)"
      "pool_ok (lib_pq en) False R at_rest p2"
      "where_is (store p2) = (\<lambda>w. map_option (\<lambda>(_, fid). (Dying, fid)) (where_is (store p1) w))"
  proof -
    have "wp (shutdown_begin en' p1 :: (pool_error fault + unit) \<times> _) (\<lambda>_ _. False)
      (\<lambda>_ p2. pool_ok (lib_pq en) False R at_rest p2 \<and> quiet p1 p2
        \<and> where_is (store p2) = (\<lambda>w. map_option (\<lambda>(_, fid). (Dying, fid)) (where_is (store p1) w)))"
      by (rule wp_shutdown_begin [OF ok1 assms(5)])
    then show ?thesis using that by (auto simp: wp_iff)
  qed
  have "timers p2 w = None" for w
    by (rule idle_inv_none(2) [OF pool_okD(7) [OF p2(2)]]) (simp add: p2(3) split: option.split)
  then show ?thesis using p2 by blast
qed

theorem pool_shutdown_retires_witness:
  "\<exists>p1 p2. shutdown_begin env_example p1 = (Inr () :: pool_error fault + unit, p2)
    \<and> where_is (store p1) 7 = Some (Active, ''f'') \<and> where_is (store p2) 7 = Some (Dying, ''f'')"
proof -
  obtain p1 where p1: "pool_reach list_pq p1" "where_is (store p1) 7 = Some (Active, ''f'')" "room p1"
    using example_dispatch by blast
  define en where "en = env_example\<lparr>pe_spawn := Inl (WorkerInit [])\<rparr>"
  have l: "lib_pq en = list_pq" "lib_bu env_example = saturating" by (simp_all add: en_def env_example_def)
  have "penv_ok en p1"
    using p1(3) pq_spec_list_pq bu_spec_saturating noop.eviction_policy_axioms
    by (simp add: penv_ok_def en_def env_example_def)
  then obtain p2 where "shutdown_begin env_example p1 = (Inr () :: pool_error fault + unit, p2)"
    and "where_is (store p2) = (\<lambda>w. map_option (\<lambda>(_, fid). (Dying, fid)) (where_is (store p1) w))"
    using pool_shutdown_retires [of en p1 InQuit p1 env_example] p1 bu_spec_saturating
    by (auto simp: l pool_iter_def)
  then show ?thesis using p1(2) by (intro exI [of _ p1] exI [of _ p2]) simp
qed

text \<open>
  C9: every caller of the control plane is answered exactly once. In one iteration of a reachable pool no caller
  is lost and none is answered twice: the callers that wait in a pending operation together with the replies that have been sent
  are those from before the iteration, and the caller of the control message that was handled.
\<close>

theorem pool_callers_conserved:
  assumes "pool_reach (lib_pq en) p" "penv_ok en p" "input_ok en p inp"
  shows "waiting (pending (snd (pool_iter en inp p))) + mset (map fst (control_replies (snd (pool_iter en inp p))))
    = waiting (pending p) + mset (map fst (control_replies p)) + new_caller inp"
proof -
  obtain R where ok: "pool_ok (lib_pq en) True R at_rest p"
    using pool_reach_ok [OF assms(1) penv_okD(1) [OF assms(2)]] by blast
  show ?thesis
    using step_ok_pool_iter [OF ok assms(2,3)]
    by (auto simp: step_ok_def owed_def split: prod.splits loop_step.splits)
qed

theorem pool_callers_conserved_witness:
  "let p' = snd (pool_iter env_example (InControl (PcPrepareSandbox ''f''
       \<lparr>po_mode = PreferSnapshot, po_initial_keepalive_hint = None\<rparr> 42)) pool_example)
   in waiting (pending p') + mset (map fst (control_replies p')) = {#42#}"
proof -
  have "early_exit_ok env_example (offered ''f'' \<lparr>po_mode = PreferSnapshot, po_initial_keepalive_hint = None\<rparr> pool_example)"
    by (simp add: early_exit_ok_def env_example_def)
  then show ?thesis
    using pool_callers_conserved [of env_example pool_example "InControl (PcPrepareSandbox ''f''
       \<lparr>po_mode = PreferSnapshot, po_initial_keepalive_hint = None\<rparr> 42)"] pool_example_reach env_example_pool
    by (simp add: env_example_def Let_def) (simp add: pool_example_def waiting_def callers_def)
qed

section \<open>Where the code departs from its intention\<close>

lemmas pool_eval =
  pool_example_def env_example_def store_fresh_def orphan_example_def fmd_new_def
  list_pq_def saturating_def noop_evict_def matchE_def on_store_def read_store_def
  pool_cpu_alloc_def pool_cpu_release_def pool_cpu_try_release_def emit_admission_event_def send_control_def
  worker_shutdown_def worker_destroy_def reply_all_def spawn_timer_def stop_timer_def reclaim_def
  set_accounting_def pick_idle_worker_def remove_nth_def pick_orphan_snapshot_def push_snapshot_def
  spawn_untracked_worker_def spawn_new_worker_def idle_worker_to_dying_def active_worker_to_dying_def
  decommission_idle_worker_def trigger_eviction_policy_def deactivate_worker_def
  deactivate_worker_per_keepalive_def on_need_work_def update_sandbox_id_def finalize_control_ops_def
  set_pending_def evict_if_high_def fits_def prep_start_def request_sandbox_prep_def
  destroy_orphan_snapshot_def destr_target_def destr_begin_def request_sandbox_destr_def
  snap_activate_def snap_start_def request_snapshotting_def answer_error_def handle_control_def
  finalize_snapshotting_def snap_reply_def deny_def worker_cap_def dispatch_choose_def
  cleanup_failed_dispatch_def dispatch_assign_def handle_dispatch_def handle_worker_status_def
  break_on_error_def pool_iter_def store_op_defs
  insert_worker_def remove_worker_def move_worker_def find_worker_def iter_workers_def num_workers_def
  update_stats_def function_exists_def function_memory_def store_get_def get_registered_function_def
  cpuset_alloc_def cpuset_release_def hs_insert_def hs_remove_def Let_def


definition tight_pool :: "(cpu \<times> 16 word) list pool" where
  "tight_pool = pool_example\<lparr>memory := (memory pool_example)\<lparr>mem_total := 100\<rparr>\<rparr>"

text \<open>
  C37: an orphan snapshot is lost. A request that prefers a snapshot takes the orphan snapshot out of the
  pool before it checks the memory; when the memory does not suffice the request fails, and the snapshot
  is neither among the orphans any more nor owned by a worker.
\<close>

theorem prep_loses_orphan:
  "let r = request_sandbox_prep env_example ''f'' \<lparr>po_mode = PreferSnapshot, po_initial_keepalive_hint = None\<rparr>
       (Some 1) tight_pool
   in fst r = Inl (Err (OutOfMemory, Some 1)) \<and> snapshots tight_pool = [(''f'', [orphan_example])]
     \<and> snapshots (snd r) = [(''f'', [])] \<and> worker_handles (snd r) = []"
  by (simp add: tight_pool_def pool_eval)

text \<open>
  C38: a failed dispatch is accounted wrongly. When the admission controller does not take the reply, the worker
  that was spawned for it is parked as Idle and keeps its memory, but its memory is taken off the account:
  the live workers use 128 units and the pool accounts for none.
\<close>

theorem failed_dispatch_undercounts:
  "let r = pool_iter (env_example\<lparr>pe_reply_ok := False\<rparr>) (InDispatch ''f'' ReuseIdleOrProvision) pool_example
   in fst r = LoopBreak \<and> find_idle_worker 7 (store (snd r)) = Some ''f'' \<and> charged_memory (snd r) = 128
     \<and> mem_inuse (memory (snd r)) = 0 \<and> mem_reclaimed (memory (snd r)) = 0"
  by (simp add: charged_memory_def registered_def rmem_def pool_eval)



definition deregistered :: "(cpu \<times> 16 word) list pool" where
  "deregistered = pool_example\<lparr>store := snd (deregister_function ''f'' (store pool_example))\<rparr>"

text \<open>
  C38: deregistration under an orphan snapshot. A function without workers can be deregistered while the pool keeps
  an orphan snapshot of it; destroying this snapshot then panics the pool, which reads the function.
\<close>

theorem deregistered_orphan_panics:
  "isl (fst (deregister_function ''f'' (store pool_example))) = False
   \<and> fst (pool_iter env_example (InControl (PcDestroySandbox ''s1''
        \<lparr>do_allow_if_active = False, do_remove_persisted_snapshot = True\<rparr> 3)) deregistered)
      = LoopPanics ''function should already exist''"
  by (simp add: deregistered_def deregister_function_def find_Some_iff pool_eval)

end
