(* ===== verification/Worker.thy ===== *)
theory Worker
  imports Pool_Run
begin

text \<open>
  \<^verbatim>\<open>worker/actor.rs\<close>, \<^verbatim>\<open>worker/types.rs\<close>, \<^verbatim>\<open>worker/error.rs\<close>, \<^verbatim>\<open>worker/runtime/mod.rs\<close>: the task of a
  worker, which owns one sandbox and moves it through its states on behalf of the pool.

  The traits \<^verbatim>\<open>Runtime\<close> and \<^verbatim>\<open>Sandbox\<close> are the record \<open>runtime_ops\<close>: every operation takes the state
  of the runtime and the sandbox and returns both, as a method with \<^verbatim>\<open>&mut self\<close> does. A sandbox is
  any extension of the record \<open>sandbox\<close>, which has what \<^verbatim>\<open>id\<close>, \<^verbatim>\<open>stats\<close> and \<^verbatim>\<open>stats_mut\<close> give.

  What the other actors answer while one message is handled is the record \<open>wenv\<close>: the network
  manager, the snapshot manager, the issuer of requests, the channel to the sink of responses and
  the clock. What the worker tells them is the list \<open>wk_out\<close>, in the order in which it is sent. The
  channel to the pool is the list of the results of the attempts to send that are still to come;
  \<^verbatim>\<open>retry_send_to_pool\<close> goes through it until one succeeds, and never returns if none does, which
  is the outcome \<open>WStuck\<close>.
\<close>

section \<open>Data\<close>

datatype 's sandbox_state = Nonexistent | Paused 's | Snapshot 's | Running 's | Trashed 's

datatype sandbox_state_ref = RefNonexistent | RefPaused | RefSnapshot | RefRunning | RefTrashed

fun state_ref :: "'s sandbox_state \<Rightarrow> sandbox_state_ref" where
  "state_ref Nonexistent = RefNonexistent"
| "state_ref (Paused _) = RefPaused"
| "state_ref (Snapshot _) = RefSnapshot"
| "state_ref (Running _) = RefRunning"
| "state_ref (Trashed _) = RefTrashed"

fun state_name :: "sandbox_state_ref \<Rightarrow> string" where
  "state_name RefNonexistent = ''Nonexistent''"
| "state_name RefPaused = ''Paused''"
| "state_name RefSnapshot = ''Snapshot''"
| "state_name RefRunning = ''Running''"
| "state_name RefTrashed = ''Trashed''"

fun state_sandbox :: "'s sandbox_state \<Rightarrow> 's option" where
  "state_sandbox Nonexistent = None"
| "state_sandbox (Paused sb) = Some sb"
| "state_sandbox (Snapshot sb) = Some sb"
| "state_sandbox (Running sb) = Some sb"
| "state_sandbox (Trashed sb) = Some sb"

definition state_id :: "'x sandbox_scheme sandbox_state \<Rightarrow> sandbox_id option" where
  "state_id st = map_option sb_id (state_sandbox st)"

definition state_of_option :: "'s option \<Rightarrow> 's sandbox_state" where
  "state_of_option so = (case so of Some sb \<Rightarrow> Snapshot sb | None \<Rightarrow> Nonexistent)"

datatype 's wexit_sandbox = WExitNone | WExitReusable 's | WExitTrashed 's

fun exit_of_state :: "'s sandbox_state \<Rightarrow> 's wexit_sandbox" where
  "exit_of_state Nonexistent = WExitNone"
| "exit_of_state (Snapshot sb) = WExitReusable sb"
| "exit_of_state (Paused sb) = WExitTrashed sb"
| "exit_of_state (Running sb) = WExitTrashed sb"
| "exit_of_state (Trashed sb) = WExitTrashed sb"

text \<open>\<^verbatim>\<open>worker::Error\<close>; a boxed source is its name.\<close>

datatype werror =
  WInit string
| WForward worker_id
| WShutDown worker_id
| WChannel string
| WNetwork string
| WPrepareSandbox werror
| WCreateSandbox string
| WLoadSandbox string
| WPauseSandbox string
| WResumeSandbox string
| WSetupCpuset string
| WCreateSnapshot string
| WShutdownSandbox string
| WDestroySandbox string
| WSnapshotManager string
| WCreateSnapshotControl string
| WCreateState string
| WHandleFunctionRequest string
| WIssuerTimeout duration
| WForwardToSink werror

datatype snapshot_creation_time = OnlyOnDemand | OnCreationAfterInvoc | OnCreationBeforeInvoc | NeverSnapshot

datatype timing =
  T_Queued | T_RunningSlot | T_CreateSandbox | T_LoadSandbox | T_ResumeSandbox | T_SetupResources
| T_CreateSnapshot | T_Issuer | T_IssuerConnection | T_IssuerInvocation | T_SandboxResponse
| T_SandboxHandler

type_synonym timings = "timing \<Rightarrow> 64 word"

text \<open>What the worker reads of a request and of a response, and the message of an invocation.\<close>

record wrequest = request +
  rq_metadata :: "string \<rightharpoonup> string"

record wresponse =
  wr_invocation_id :: string
  wr_code :: nat
  wr_metadata :: "string \<rightharpoonup> string"
  wr_payload :: string

record winvocation =
  wi_req :: wrequest
  wi_acquired_ns :: "64 word"
  wi_cpuset :: cpu

definition header_source_ts :: string where
  "header_source_ts = ''snaplace-source-timestamp''"

definition header_handler_duration :: string where
  "header_handler_duration = ''handler-duration-ns''"

definition header_response_duration :: string where
  "header_response_duration = ''response-duration-ns''"

text \<open>\<^verbatim>\<open>str::parse::<u64>\<close>, of which only success matters.\<close>

fun digits_u64 :: "nat \<Rightarrow> string \<Rightarrow> nat option" where
  "digits_u64 acc [] = Some acc"
| "digits_u64 acc (c # cs) =
     (case to_digit c of None \<Rightarrow> None
      | Some d \<Rightarrow> if 10 * acc + d < 2 ^ 64 then digits_u64 (10 * acc + d) cs else None)"

definition parse_u64 :: "string \<Rightarrow> 64 word option" where
  "parse_u64 s =
     (let ds = (case s of c # cs \<Rightarrow> if c = CHR ''+'' then cs else s | [] \<Rightarrow> s) in
      if ds = [] then None else map_option of_nat (digits_u64 0 ds))"

section \<open>Runtimes\<close>

record ('rt, 'x, 'net, 'st) runtime_ops =
  rt_init :: "'rt \<Rightarrow> (string + unit) \<times> 'rt"
  rt_create_sandbox ::
    "function_id \<Rightarrow> 'net \<Rightarrow> timings \<Rightarrow> 'rt \<Rightarrow> (string + 'x sandbox_scheme) \<times> timings \<times> 'rt"
  rt_load_sandbox :: "'x sandbox_scheme \<Rightarrow> 'rt \<Rightarrow> (string + unit) \<times> 'x sandbox_scheme \<times> 'rt"
  rt_pause_sandbox :: "'x sandbox_scheme \<Rightarrow> 'rt \<Rightarrow> (string + unit) \<times> 'x sandbox_scheme \<times> 'rt"
  rt_resume_sandbox :: "'x sandbox_scheme \<Rightarrow> 'rt \<Rightarrow> (string + unit) \<times> 'x sandbox_scheme \<times> 'rt"
  rt_create_snapshot ::
    "string \<Rightarrow> string \<Rightarrow> 'x sandbox_scheme \<Rightarrow> 'rt \<Rightarrow> (string + unit) \<times> 'x sandbox_scheme \<times> 'rt"
  rt_shutdown_sandbox :: "'x sandbox_scheme \<Rightarrow> 'rt \<Rightarrow> (string + unit) \<times> 'x sandbox_scheme \<times> 'rt"
  rt_destroy_sandbox :: "'x sandbox_scheme \<Rightarrow> 'rt \<Rightarrow> ('x sandbox_scheme \<times> string + 'net) \<times> 'rt"
  rt_setup_cpuset :: "cpu \<Rightarrow> 'x sandbox_scheme \<Rightarrow> 'rt \<Rightarrow> (string + unit) \<times> 'x sandbox_scheme \<times> 'rt"
  rt_uncache_sandbox :: "'x sandbox_scheme \<Rightarrow> 'rt \<Rightarrow> (string + unit) \<times> 'x sandbox_scheme \<times> 'rt"
  rt_has_snapshot :: "'x sandbox_scheme \<Rightarrow> bool"
  rt_snapshot_state :: "'x sandbox_scheme \<Rightarrow> (string + 'st) option"

section \<open>The state of a worker and its surroundings\<close>

datatype send_result = SendOk | SendTimeout | SendClosed

datatype ('net, 'st) effect =
  EvPool outbound_message
| EvSink wresponse
| EvNetAlloc 'net
| EvNetDealloc 'net
| EvSnapNew function_id 'st
| EvSnapRemoved function_id sandbox_id
| EvMonitorStart sandbox_state_ref
| EvMonitorStop sandbox_state_ref "duration option"
| EvSlotReleased
| EvTimings "sandbox_id option" string timings

record ('rt, 'x, 'net, 'st) worker =
  wk_id :: worker_id
  wk_function_id :: function_id
  wk_snap_time :: snapshot_creation_time
  wk_sandbox :: "'x sandbox_scheme sandbox_state"
  wk_timings :: timings
  wk_issuer_timeout :: duration
  wk_runtime :: 'rt
  wk_pool_chan :: "send_result list"
  wk_out :: "('net, 'st) effect list"

datatype 'net net_reply = NetOk 'net | NetFailed string | NetNoReply | NetClosed

datatype issuer_reply = IssOk wresponse duration duration | IssFailed string | IssTimedOut

datatype clock_site = AtNet | AtCreate | AtCpu | AtLoad | AtResume | AtSnapshot | AtIssue | AtSlot

record 'net wenv =
  en_net_alloc :: "'net net_reply"
  en_net_dealloc_ok :: bool
  en_monitor_ok :: bool
  en_issue :: issuer_reply
  en_make_response :: "string \<Rightarrow> function_id \<Rightarrow> nat \<Rightarrow> (string \<rightharpoonup> string) \<Rightarrow> string \<Rightarrow> string + wresponse"
  en_metadata_value_ok :: "string \<Rightarrow> bool"
  en_sink :: "nat \<Rightarrow> send_result"
  en_query_paths :: "string + (string \<times> string) option"
  en_notify_new_ok :: bool
  en_notify_removal_ok :: bool
  en_elapsed :: "clock_site \<Rightarrow> duration"

text \<open>A panic, an error, or a call that never returns.\<close>

datatype wstop = WPanic string | WErr werror | WStuck

type_synonym ('rt, 'x, 'net, 'st, 'a) wresult = "(wstop + 'a) \<times> ('rt, 'x, 'net, 'st) worker"

text \<open>\<^verbatim>\<open>match\<close> on a result; panics and calls that never return go through.\<close>

definition catchW :: "(wstop + 'a) \<times> 's \<Rightarrow> (werror \<Rightarrow> 's \<Rightarrow> (wstop + 'b) \<times> 's)
    \<Rightarrow> ('a \<Rightarrow> 's \<Rightarrow> (wstop + 'b) \<times> 's) \<Rightarrow> (wstop + 'b) \<times> 's" where
  "catchW r h k =
     (case r of
        (Inl (WPanic m), s) \<Rightarrow> (Inl (WPanic m), s)
      | (Inl WStuck, s) \<Rightarrow> (Inl WStuck, s)
      | (Inl (WErr e), s) \<Rightarrow> h e s
      | (Inr x, s) \<Rightarrow> k x s)"

definition emit :: "('net, 'st) effect \<Rightarrow> ('rt, 'x, 'net, 'st) worker \<Rightarrow> ('rt, 'x, 'net, 'st) worker" where
  "emit e s = s\<lparr>wk_out := wk_out s @ [e]\<rparr>"

definition set_timing :: "timing \<Rightarrow> duration \<Rightarrow> ('rt, 'x, 'net, 'st) worker \<Rightarrow> ('rt, 'x, 'net, 'st) worker" where
  "set_timing t d s = s\<lparr>wk_timings := (wk_timings s)(t := of_nat d)\<rparr>"

definition add_timing :: "timing \<Rightarrow> duration \<Rightarrow> ('rt, 'x, 'net, 'st) worker \<Rightarrow> ('rt, 'x, 'net, 'st) worker" where
  "add_timing t d s = s\<lparr>wk_timings := (wk_timings s)(t := wk_timings s t + of_nat d)\<rparr>"

definition clear_timings :: "('rt, 'x, 'net, 'st) worker \<Rightarrow> ('rt, 'x, 'net, 'st) worker" where
  "clear_timings s = s\<lparr>wk_timings := (\<lambda>_. 0)\<rparr>"

text \<open>A call of the runtime on the sandbox, which stays in the state \<open>mk\<close> whatever the result.\<close>

definition rt_on ::
  "('x sandbox_scheme \<Rightarrow> 'rt \<Rightarrow> (string + unit) \<times> 'x sandbox_scheme \<times> 'rt)
    \<Rightarrow> ('x sandbox_scheme \<Rightarrow> 'x sandbox_scheme sandbox_state) \<Rightarrow> (string \<Rightarrow> werror)
    \<Rightarrow> 'x sandbox_scheme \<Rightarrow> ('rt, 'x, 'net, 'st) worker \<Rightarrow> ('rt, 'x, 'net, 'st, unit) wresult" where
  "rt_on f mk err sb s =
     (case f sb (wk_runtime s) of
        (Inl e, sb', r) \<Rightarrow> (Inl (WErr (err e)), s\<lparr>wk_runtime := r, wk_sandbox := mk sb'\<rparr>)
      | (Inr _, sb', r) \<Rightarrow> (Inr (), s\<lparr>wk_runtime := r, wk_sandbox := mk sb'\<rparr>))"

section \<open>Messages to the pool\<close>

fun retry_send :: "send_result list \<Rightarrow> send_result list option" where
  "retry_send [] = None"
| "retry_send (SendOk # cs) = Some cs"
| "retry_send (SendTimeout # cs) = retry_send cs"
| "retry_send (SendClosed # cs) = retry_send cs"

definition retry_send_to_pool ::
  "outbound_message \<Rightarrow> ('rt, 'x, 'net, 'st) worker \<Rightarrow> ('rt, 'x, 'net, 'st, unit) wresult" where
  "retry_send_to_pool msg s =
     (case retry_send (wk_pool_chan s) of
        None \<Rightarrow> (Inl WStuck, s\<lparr>wk_pool_chan := []\<rparr>)
      | Some cs \<Rightarrow> (Inr (), emit (EvPool msg) (s\<lparr>wk_pool_chan := cs\<rparr>)))"

definition send_sandbox_id ::
  "sandbox_id \<Rightarrow> ('rt, 'x, 'net, 'st) worker \<Rightarrow> ('rt, 'x, 'net, 'st, unit) wresult" where
  "send_sandbox_id sid s = retry_send_to_pool (MsgSandboxId (wk_id s) sid) s"

definition send_need_work :: "('rt, 'x, 'net, 'st) worker \<Rightarrow> ('rt, 'x, 'net, 'st, unit) wresult" where
  "send_need_work s = retry_send_to_pool (MsgNeedWork (wk_id s) (wk_function_id s)) s"

definition send_reap_me :: "('rt, 'x, 'net, 'st) worker \<Rightarrow> ('rt, 'x, 'net, 'st, unit) wresult" where
  "send_reap_me s = retry_send_to_pool (MsgReapMe (wk_id s) (wk_function_id s)) s"

definition send_snapshot_result ::
  "string + unit \<Rightarrow> sandbox_id \<Rightarrow> ('rt, 'x, 'net, 'st) worker \<Rightarrow> ('rt, 'x, 'net, 'st, unit) wresult" where
  "send_snapshot_result res sid s =
     retry_send_to_pool (MsgSnapshotCreation
       \<lparr>sr_worker_id = wk_id s, sr_function_id = wk_function_id s, sr_sandbox_id = sid, sr_result = res\<rparr>) s"

definition send_sandbox_prep_result ::
  "string + sandbox_id \<times> bool \<times> sandbox_stats \<Rightarrow> ('rt, 'x, 'net, 'st) worker
    \<Rightarrow> ('rt, 'x, 'net, 'st, unit) wresult" where
  "send_sandbox_prep_result res s =
     retry_send_to_pool (MsgSandboxPreparation
       \<lparr>pr_worker_id = wk_id s, pr_function_id = wk_function_id s, pr_result = res\<rparr>) s"

text \<open>The texts of \<^verbatim>\<open>thiserror\<close>. The variants that carry an id or a duration never reach the pool as a
  text; it is left out.\<close>

fun werror_text :: "werror \<Rightarrow> string" where
  "werror_text (WInit d) = ''failed to initialize Worker: '' @ d"
| "werror_text (WForward _) = ''failed to forward Request to Worker''"
| "werror_text (WShutDown _) = ''failed to send ShutDown message to Worker''"
| "werror_text (WChannel d) = ''internal channel failure: '' @ d"
| "werror_text (WNetwork _) = ''error while managing networking resources''"
| "werror_text (WPrepareSandbox _) = ''failed to prepare the sandbox''"
| "werror_text (WCreateSandbox _) = ''runtime failed to create new sandbox''"
| "werror_text (WLoadSandbox _) = ''runtime failed to load sandbox''"
| "werror_text (WPauseSandbox _) = ''runtime failed to pause sandbox''"
| "werror_text (WResumeSandbox _) = ''runtime failed to resume sandbox''"
| "werror_text (WSetupCpuset _) = ''runtime failed to setup cpuset''"
| "werror_text (WCreateSnapshot _) = ''runtime failed to create snapshot for sandbox''"
| "werror_text (WShutdownSandbox _) = ''runtime failed to shut the sandbox down''"
| "werror_text (WDestroySandbox _) = ''runtime failed to destroy the sandbox''"
| "werror_text (WSnapshotManager m) = ''snapshot manager error: '' @ m"
| "werror_text (WCreateSnapshotControl m) = ''failed to handle control-plane snapshotting request: '' @ m"
| "werror_text (WCreateState _) = ''failed to create sandbox snapshot state''"
| "werror_text (WHandleFunctionRequest _) = ''failed to handle the function request''"
| "werror_text (WIssuerTimeout _) = ''stopped awaiting RequestIssuer''"
| "werror_text (WForwardToSink _) = ''failed to forward Function's Response to Sink''"

section \<open>The steps of the sandbox\<close>

definition w_create_sandbox ::
  "('rt, 'x, 'net, 'st) runtime_ops \<Rightarrow> 'net wenv \<Rightarrow> cpu \<Rightarrow> ('rt, 'x, 'net, 'st) worker
    \<Rightarrow> ('rt, 'x, 'net, 'st, 'x sandbox_scheme) wresult" where
  "w_create_sandbox rt en cpu s =
     (if wk_sandbox s \<noteq> Nonexistent
      then (Inl (WPanic ''Creating new sandbox while not in SandboxState::Nonexistent''), s)
      else
        (case en_net_alloc en of
           NetClosed \<Rightarrow> (Inl (WErr (WChannel ''sending to NetworkManager over mpsc'')), s)
         | NetNoReply \<Rightarrow> (Inl (WErr (WChannel ''receiving from NetworkManager over oneshot'')), s)
         | NetFailed e \<Rightarrow> (Inl (WErr (WNetwork e)), s)
         | NetOk net \<Rightarrow>
             (let s = add_timing T_SetupResources (en_elapsed en AtNet) (emit (EvNetAlloc net) s) in
              case rt_create_sandbox rt (wk_function_id s) net (wk_timings s) (wk_runtime s) of
                (Inl e, tm, r) \<Rightarrow> (Inl (WErr (WCreateSandbox e)), s\<lparr>wk_timings := tm, wk_runtime := r\<rparr>)
              | (Inr sb, tm, r) \<Rightarrow>
                  (let s = s\<lparr>wk_timings := tm, wk_runtime := r\<rparr>;
                       s = (if wk_timings s T_CreateSandbox = 0
                            then set_timing T_CreateSandbox (en_elapsed en AtCreate) s else s) in
                   case rt_setup_cpuset rt cpu sb (wk_runtime s) of
                     (Inl e, sb, r) \<Rightarrow> (Inl (WErr (WSetupCpuset e)), s\<lparr>wk_runtime := r\<rparr>)
                   | (Inr _, sb, r) \<Rightarrow>
                       (let s = add_timing T_SetupResources (en_elapsed en AtCpu) (s\<lparr>wk_runtime := r\<rparr>) in
                        bindE (send_sandbox_id (sb_id sb) s) (\<lambda>_ s. (Inr sb, s)))))))"

definition bump_restorations :: "'x sandbox_scheme \<Rightarrow> 'x sandbox_scheme" where
  "bump_restorations sb =
     sb\<lparr>sb_stats := (sb_stats sb)\<lparr>sb_restorations := sb_restorations (sb_stats sb) + 1\<rparr>\<rparr>"

definition bump_invocations :: "'x sandbox_scheme \<Rightarrow> 'x sandbox_scheme" where
  "bump_invocations sb =
     sb\<lparr>sb_stats := (sb_stats sb)\<lparr>sb_invocations := sb_invocations (sb_stats sb) + 1\<rparr>\<rparr>"

definition w_load_sandbox ::
  "('rt, 'x, 'net, 'st) runtime_ops \<Rightarrow> 'net wenv \<Rightarrow> cpu \<Rightarrow> ('rt, 'x, 'net, 'st) worker
    \<Rightarrow> ('rt, 'x, 'net, 'st, unit) wresult" where
  "w_load_sandbox rt en cpu s =
     (case wk_sandbox s of
        Snapshot sb \<Rightarrow>
          bindE (rt_on (rt_load_sandbox rt) Snapshot WLoadSandbox sb s) (\<lambda>_ s.
            let s = set_timing T_LoadSandbox (en_elapsed en AtLoad) s in
            case wk_sandbox s of
              Snapshot sb \<Rightarrow>
                (let sb = bump_restorations sb in
                 bindE (rt_on (rt_setup_cpuset rt cpu) Running WSetupCpuset sb (s\<lparr>wk_sandbox := Running sb\<rparr>)) (\<lambda>_ s.
                   (Inr (), set_timing T_SetupResources (en_elapsed en AtCpu) s)))
            | _ \<Rightarrow> (Inl (WPanic ''already checked that we are on SandboxState::Snapshot''), s))
      | _ \<Rightarrow> (Inl (WPanic ''Loading sandbox while not in SandboxState::Snapshot''), s))"

definition w_pause_sandbox ::
  "('rt, 'x, 'net, 'st) runtime_ops \<Rightarrow> ('rt, 'x, 'net, 'st) worker \<Rightarrow> ('rt, 'x, 'net, 'st, unit) wresult" where
  "w_pause_sandbox rt s =
     (case wk_sandbox s of
        Running sb \<Rightarrow> rt_on (rt_pause_sandbox rt) Running WPauseSandbox sb s
      | _ \<Rightarrow> (Inl (WPanic ''Pausing sandbox while not in SandboxState::Running''), s))"

definition w_resume_sandbox ::
  "('rt, 'x, 'net, 'st) runtime_ops \<Rightarrow> 'net wenv \<Rightarrow> cpu option \<Rightarrow> ('rt, 'x, 'net, 'st) worker
    \<Rightarrow> ('rt, 'x, 'net, 'st, unit) wresult" where
  "w_resume_sandbox rt en cpus s =
     (case wk_sandbox s of
        Paused sb \<Rightarrow>
          bindE (rt_on (rt_resume_sandbox rt) Paused WResumeSandbox sb s) (\<lambda>_ s.
            let s = add_timing T_ResumeSandbox (en_elapsed en AtResume) s in
            case (cpus, wk_sandbox s) of
              (Some cpu, Paused sb) \<Rightarrow>
                bindE (rt_on (rt_setup_cpuset rt cpu) Paused WSetupCpuset sb s) (\<lambda>_ s.
                  (Inr (), add_timing T_SetupResources (en_elapsed en AtCpu) s))
            | _ \<Rightarrow> (Inr (), s))
      | _ \<Rightarrow> (Inl (WPanic ''Resuming sandbox while not in SandboxState::Paused''), s))"

definition w_prepare_sandbox ::
  "('rt, 'x, 'net, 'st) runtime_ops \<Rightarrow> 'net wenv \<Rightarrow> cpu \<Rightarrow> ('rt, 'x, 'net, 'st) worker
    \<Rightarrow> ('rt, 'x, 'net, 'st, unit) wresult" where
  "w_prepare_sandbox rt en cpu s =
     (case wk_sandbox s of
        Nonexistent \<Rightarrow>
          bindE (w_create_sandbox rt en cpu s) (\<lambda>sb s. (Inr (), s\<lparr>wk_sandbox := Running sb\<rparr>))
      | Snapshot _ \<Rightarrow>
          bindE (w_load_sandbox rt en cpu s) (\<lambda>_ s.
            case wk_sandbox s of Running sb \<Rightarrow> (Inr (), s\<lparr>wk_sandbox := Running sb\<rparr>)
            | _ \<Rightarrow> (Inl (WPanic ''unreachable_unchecked''), s))
      | Paused _ \<Rightarrow>
          bindE (w_resume_sandbox rt en (Some cpu) s) (\<lambda>_ s.
            case wk_sandbox s of Paused sb \<Rightarrow> (Inr (), s\<lparr>wk_sandbox := Running sb\<rparr>)
            | _ \<Rightarrow> (Inl (WPanic ''unreachable_unchecked''), s))
      | _ \<Rightarrow> (Inl (WPanic ''BUG: should not prepare sandbox''), s))"

text \<open>\<^verbatim>\<open>PathBuf::push\<close>\<close>

definition path_push :: "string \<Rightarrow> string \<Rightarrow> string" where
  "path_push base p =
     (if p \<noteq> [] \<and> hd p = CHR ''/'' then p
      else if base = [] \<or> last base = CHR ''/'' then base @ p else base @ ''/'' @ p)"

definition snapman_notify_creation ::
  "('rt, 'x, 'net, 'st) runtime_ops \<Rightarrow> 'net wenv \<Rightarrow> ('rt, 'x, 'net, 'st) worker
    \<Rightarrow> ('rt, 'x, 'net, 'st, unit) wresult" where
  "snapman_notify_creation rt en s =
     (case wk_sandbox s of
        Paused sb \<Rightarrow>
          (case rt_snapshot_state rt sb of
             None \<Rightarrow> (Inr (), s)
           | Some (Inr st) \<Rightarrow>
               (if en_notify_new_ok en then (Inr (), emit (EvSnapNew (wk_function_id s) st) s)
                else (Inl (WErr (WSnapshotManager ''failed to notify SnapshotManager of new snapshot'')), s))
           | Some (Inl e) \<Rightarrow> (Inl (WErr (WCreateState e)), s))
      | _ \<Rightarrow> (Inl (WPanic ''Notifying SnapshotManager while not in SandboxState::Paused''), s))"

definition w_create_snapshot ::
  "('rt, 'x, 'net, 'st) runtime_ops \<Rightarrow> 'net wenv \<Rightarrow> ('rt, 'x, 'net, 'st) worker
    \<Rightarrow> ('rt, 'x, 'net, 'st, unit) wresult" where
  "w_create_snapshot rt en s =
     (case wk_sandbox s of
        Paused sb \<Rightarrow>
          (case en_query_paths en of
             Inl _ \<Rightarrow> (Inl (WErr (WSnapshotManager ''failed to query paths'')), s)
           | Inr None \<Rightarrow> (Inr (), s)
           | Inr (Some (st, mem)) \<Rightarrow>
               bindE (rt_on (rt_create_snapshot rt (path_push st (sb_id sb @ ''.state''))
                        (path_push mem (sb_id sb @ ''.memory''))) Paused WCreateSnapshot sb s) (\<lambda>_ s.
                 let done = (\<lambda>s. (Inr (), set_timing T_CreateSnapshot (en_elapsed en AtSnapshot) s)) in
                 catchW (snapman_notify_creation rt en s) (\<lambda>_ s. done s) (\<lambda>_ s. done s)))
      | _ \<Rightarrow> (Inl (WPanic ''Creating sandbox snapshot while not in SandboxState::Paused''), s))"

definition w_destroy_taken ::
  "('rt, 'x, 'net, 'st) runtime_ops \<Rightarrow> 'net wenv \<Rightarrow> 'x sandbox_scheme \<Rightarrow> ('rt, 'x, 'net, 'st) worker
    \<Rightarrow> ('rt, 'x, 'net, 'st, unit) wresult" where
  "w_destroy_taken rt en sb s =
     (case rt_destroy_sandbox rt sb (wk_runtime s) of
        (Inr net, r) \<Rightarrow>
          (let s = s\<lparr>wk_runtime := r\<rparr>;
               s = (if rt_has_snapshot rt sb \<and> en_notify_removal_ok en
                    then emit (EvSnapRemoved (wk_function_id s) (sb_id sb)) s else s) in
           if en_net_dealloc_ok en then (Inr (), emit (EvNetDealloc net) s)
           else (Inl (WErr (WNetwork ''deallocate'')), s))
      | (Inl (sb', e), r) \<Rightarrow>
          (Inl (WErr (WDestroySandbox e)), s\<lparr>wk_runtime := r, wk_sandbox := Trashed sb'\<rparr>))"

definition w_destroy_sandbox ::
  "('rt, 'x, 'net, 'st) runtime_ops \<Rightarrow> 'net wenv \<Rightarrow> ('rt, 'x, 'net, 'st) worker
    \<Rightarrow> ('rt, 'x, 'net, 'st, unit) wresult" where
  "w_destroy_sandbox rt en s =
     (case wk_sandbox s of
        Nonexistent \<Rightarrow> (Inr (), s)
      | Trashed _ \<Rightarrow> (Inl (WPanic ''BUG: Destroying SandboxState::Trashed''), s\<lparr>wk_sandbox := Nonexistent\<rparr>)
      | Paused sb \<Rightarrow> w_destroy_taken rt en sb (s\<lparr>wk_sandbox := Nonexistent\<rparr>)
      | Snapshot sb \<Rightarrow> w_destroy_taken rt en sb (s\<lparr>wk_sandbox := Nonexistent\<rparr>)
      | Running sb \<Rightarrow> w_destroy_taken rt en sb (s\<lparr>wk_sandbox := Nonexistent\<rparr>))"

text \<open>\<^verbatim>\<open>shutdown_sandbox\<close> on a sandbox that has been taken out: a failure trashes it.\<close>

definition w_unload ::
  "('rt, 'x, 'net, 'st) runtime_ops \<Rightarrow> 'x sandbox_scheme \<Rightarrow> ('rt, 'x, 'net, 'st) worker
    \<Rightarrow> ('rt, 'x, 'net, 'st, unit) wresult" where
  "w_unload rt sb s =
     (case rt_shutdown_sandbox rt sb (wk_runtime s) of
        (Inl e, sb', r) \<Rightarrow> (Inl (WErr (WShutdownSandbox e)), s\<lparr>wk_runtime := r, wk_sandbox := Trashed sb'\<rparr>)
      | (Inr _, sb', r) \<Rightarrow> (Inr (), s\<lparr>wk_runtime := r, wk_sandbox := Snapshot sb'\<rparr>))"

definition w_shutdown ::
  "('rt, 'x, 'net, 'st) runtime_ops \<Rightarrow> 'net wenv \<Rightarrow> ('rt, 'x, 'net, 'st) worker
    \<Rightarrow> ('rt, 'x, 'net, 'st, unit) wresult" where
  "w_shutdown rt en s =
     (case wk_sandbox s of
        Paused sb \<Rightarrow> if rt_has_snapshot rt sb then w_unload rt sb s else w_destroy_sandbox rt en s
      | _ \<Rightarrow> (Inr (), s))"

text \<open>The error of \<^verbatim>\<open>uncache_sandbox\<close> is only logged.\<close>

definition w_uncache_sandbox ::
  "('rt, 'x, 'net, 'st) runtime_ops \<Rightarrow> ('rt, 'x, 'net, 'st) worker \<Rightarrow> ('rt, 'x, 'net, 'st, unit) wresult" where
  "w_uncache_sandbox rt s =
     (case wk_sandbox s of
        Nonexistent \<Rightarrow> (Inr (), s)
      | Snapshot sb \<Rightarrow>
          (if rt_has_snapshot rt sb
           then catchW (rt_on (rt_uncache_sandbox rt) Snapshot WInit sb s)
                  (\<lambda>_ s. (Inr (), s)) (\<lambda>_ s. (Inr (), s))
           else (Inl (WPanic ''Uncaching sandbox while in SandboxState::Snapshot''), s))
      | _ \<Rightarrow> (Inl (WPanic ''Uncaching sandbox''), s))"

section \<open>Handling an invocation\<close>

text \<open>\<^verbatim>\<open>utils/backoff/fib_backoff.rs\<close>\<close>

record fib_backoff =
  fib_a :: duration
  fib_b :: duration

definition fib_new :: "duration \<Rightarrow> fib_backoff" where
  "fib_new b = \<lparr>fib_a = 0, fib_b = b\<rparr>"

definition fib_next :: "fib_backoff \<Rightarrow> duration \<times> fib_backoff" where
  "fib_next f = (let ret = fib_a f + fib_b f in (ret, \<lparr>fib_a = fib_b f, fib_b = ret\<rparr>))"

definition max_fwd_attempts :: nat where
  "max_fwd_attempts = 10"

text \<open>The loop of \<^verbatim>\<open>forward_response\<close> with the timeouts of its attempts; \<open>k\<close> attempts have failed.\<close>

function forward_attempts :: "'net wenv \<Rightarrow> nat \<Rightarrow> fib_backoff \<Rightarrow> (werror + unit) \<times> duration list" where
  "forward_attempts en k f =
     (case fib_next f of (d, f) \<Rightarrow>
        let fail = WChannel ''forwarding response to Sink over mpsc'' in
        if en_sink en k = SendOk then (Inr (), [d])
        else if k + 1 \<ge> max_fwd_attempts then (Inl fail, [d])
        else if en_sink en k = SendClosed then (Inl fail, [d])
        else case forward_attempts en (k + 1) f of (r, ds) \<Rightarrow> (r, d # ds))"
  by pat_completeness auto
termination
  by (relation "measure (\<lambda>(en, k, f). max_fwd_attempts - k)") auto

definition forward_response ::
  "'net wenv \<Rightarrow> wresponse \<Rightarrow> ('rt, 'x, 'net, 'st) worker \<Rightarrow> ('rt, 'x, 'net, 'st, unit) wresult" where
  "forward_response en resp s =
     (case fst (forward_attempts en 0 (fib_new 25000000)) of
        Inr _ \<Rightarrow> (Inr (), emit (EvSink resp) s)
      | Inl e \<Rightarrow> (Inl (WErr e), s))"

definition spawn_performance_monitor ::
  "'net wenv \<Rightarrow> sandbox_state_ref \<Rightarrow> ('rt, 'x, 'net, 'st) worker \<Rightarrow> ('rt, 'x, 'net, 'st, unit) wresult" where
  "spawn_performance_monitor en start s =
     (case wk_sandbox s of
        Running _ \<Rightarrow>
          (if en_monitor_ok en then (Inr (), emit (EvMonitorStart start) s)
           else (Inl (WErr (WSnapshotManager ''failed to initialize PerformanceMonitor'')), s))
      | _ \<Rightarrow> (Inl (WPanic ''Spawning PerformanceMonitor while not in SandboxState::Running''), s))"

definition header_timing :: "timing \<Rightarrow> string \<Rightarrow> wresponse \<Rightarrow> ('rt, 'x, 'net, 'st) worker \<Rightarrow> ('rt, 'x, 'net, 'st) worker" where
  "header_timing t key resp s =
     (case Option.bind (wr_metadata resp key) parse_u64 of
        None \<Rightarrow> s | Some d \<Rightarrow> s\<lparr>wk_timings := (wk_timings s)(t := d)\<rparr>)"

definition issue_request ::
  "'net wenv \<Rightarrow> wrequest \<Rightarrow> ('rt, 'x, 'net, 'st) worker
    \<Rightarrow> ('rt, 'x, 'net, 'st, wresponse \<times> duration) wresult" where
  "issue_request en req s =
     (case wk_sandbox s of
        Running sb \<Rightarrow>
          (let dur = en_elapsed en AtIssue in
           case en_issue en of
             IssFailed e \<Rightarrow> (Inl (WErr (WHandleFunctionRequest e)), set_timing T_Issuer dur s)
           | IssTimedOut \<Rightarrow> (Inl (WErr (WIssuerTimeout (wk_issuer_timeout s))), set_timing T_Issuer dur s)
           | IssOk resp conn iv \<Rightarrow>
               (let s = set_timing T_Issuer dur (set_timing T_IssuerInvocation iv (set_timing T_IssuerConnection conn s));
                    s = header_timing T_SandboxHandler header_handler_duration resp s;
                    s = header_timing T_SandboxResponse header_response_duration resp s;
                    resp = (case rq_metadata req header_source_ts of None \<Rightarrow> resp
                            | Some ts \<Rightarrow> resp\<lparr>wr_metadata := (wr_metadata resp)(header_source_ts \<mapsto> ts)\<rparr>) in
                (Inr (resp, dur), s\<lparr>wk_sandbox := Running (bump_invocations sb)\<rparr>)))
      | _ \<Rightarrow> (Inl (WPanic ''Issuing function request while not in SandboxState::Running''), s))"

text \<open>\<^verbatim>\<open>Code::Unavailable\<close> is 14 and \<^verbatim>\<open>Code::DeadlineExceeded\<close> is 4; other errors do not get here.\<close>

definition make_issuer_error_response ::
  "'net wenv \<Rightarrow> wrequest \<Rightarrow> nat \<Rightarrow> string \<Rightarrow> wresponse option" where
  "make_issuer_error_response en req code msg =
     (let md = (case rq_metadata req header_source_ts of
                  None \<Rightarrow> Map.empty
                | Some ts \<Rightarrow> if en_metadata_value_ok en ts then [header_source_ts \<mapsto> ts] else Map.empty) in
      case en_make_response en (invocation_id req) (rq_function_id req) code md msg of
        Inl _ \<Rightarrow> None | Inr resp \<Rightarrow> Some resp)"

text \<open>The snapshot of a new sandbox before its first invocation: pause, snapshot, resume.\<close>

definition snapshot_before_invocation ::
  "('rt, 'x, 'net, 'st) runtime_ops \<Rightarrow> 'net wenv \<Rightarrow> ('rt, 'x, 'net, 'st) worker
    \<Rightarrow> ('rt, 'x, 'net, 'st, unit) wresult" where
  "snapshot_before_invocation rt en s =
     (case wk_sandbox s of
        Running sb \<Rightarrow>
          (if rt_has_snapshot rt sb
           then (Inl (WPanic ''Newly created Sandbox should not already have snapshot''), s)
           else
             bindE (w_pause_sandbox rt s) (\<lambda>_ s.
               case wk_sandbox s of
                 Running sb \<Rightarrow>
                   (let resume = (\<lambda>s.
                          bindE (w_resume_sandbox rt en None s) (\<lambda>_ s.
                            case wk_sandbox s of
                              Paused sb \<Rightarrow> (Inr (), s\<lparr>wk_sandbox := Running sb\<rparr>)
                            | _ \<Rightarrow> (Inl (WPanic ''Just transitioned to SandboxState::Paused for snapshotting''), s))) in
                    catchW (w_create_snapshot rt en (s\<lparr>wk_sandbox := Paused sb\<rparr>)) (\<lambda>_. resume) (\<lambda>_. resume))
               | _ \<Rightarrow> (Inl (WPanic ''Entering _handle_with_sandbox while not in SandboxState::Running''), s)))
      | _ \<Rightarrow> (Inl (WPanic ''Entering _handle_with_sandbox while not in SandboxState::Running''), s))"

text \<open>Issue the request, answer the sink whatever came of it, and stop the monitor.\<close>

definition stop_monitor ::
  "sandbox_state_ref \<Rightarrow> bool \<Rightarrow> duration option \<Rightarrow> werror option \<Rightarrow> ('rt, 'x, 'net, 'st) worker
    \<Rightarrow> ('rt, 'x, 'net, 'st, unit) wresult" where
  "stop_monitor start mon dur err s =
     (case err of None \<Rightarrow> Inr () | Some e \<Rightarrow> Inl (WErr e),
      if mon then emit (EvMonitorStop start dur) s else s)"

definition respond ::
  "'net wenv \<Rightarrow> sandbox_state_ref \<Rightarrow> bool \<Rightarrow> wresponse option \<Rightarrow> duration option \<Rightarrow> werror option
    \<Rightarrow> ('rt, 'x, 'net, 'st) worker \<Rightarrow> ('rt, 'x, 'net, 'st, unit) wresult" where
  "respond en start mon resp dur err s =
     (case resp of
        None \<Rightarrow> stop_monitor start mon dur err s
      | Some r \<Rightarrow>
          catchW (forward_response en r s)
            (\<lambda>e. stop_monitor start mon dur (case err of None \<Rightarrow> Some (WForwardToSink e) | Some e' \<Rightarrow> Some e'))
            (\<lambda>_. stop_monitor start mon dur err))"

definition issue_monitored ::
  "'net wenv \<Rightarrow> wrequest \<Rightarrow> sandbox_state_ref \<Rightarrow> bool \<Rightarrow> ('rt, 'x, 'net, 'st) worker
    \<Rightarrow> ('rt, 'x, 'net, 'st, unit) wresult" where
  "issue_monitored en req start mon s =
     catchW (issue_request en req s)
       (\<lambda>e s. case e of
            WHandleFunctionRequest _ \<Rightarrow>
              respond en start mon (make_issuer_error_response en req 14 ''request issuer failed'') None (Some e) s
          | WIssuerTimeout _ \<Rightarrow>
              respond en start mon (make_issuer_error_response en req 4 ''request issuer timed out'') None (Some e) s
          | _ \<Rightarrow> (Inl (WErr e), s))
       (\<lambda>(resp, dur). respond en start mon (Some resp) (Some dur) None)"

definition issue_and_respond ::
  "'net wenv \<Rightarrow> wrequest \<Rightarrow> sandbox_state_ref \<Rightarrow> ('rt, 'x, 'net, 'st) worker
    \<Rightarrow> ('rt, 'x, 'net, 'st, unit) wresult" where
  "issue_and_respond en req start s =
     catchW (spawn_performance_monitor en start s)
       (\<lambda>_. issue_monitored en req start False) (\<lambda>_. issue_monitored en req start True)"

definition handle_with_sandbox ::
  "('rt, 'x, 'net, 'st) runtime_ops \<Rightarrow> 'net wenv \<Rightarrow> wrequest \<Rightarrow> sandbox_state_ref
    \<Rightarrow> ('rt, 'x, 'net, 'st) worker \<Rightarrow> ('rt, 'x, 'net, 'st, unit) wresult" where
  "handle_with_sandbox rt en req start s =
     bindE (if start = RefNonexistent \<and> wk_snap_time s = OnCreationBeforeInvoc
            then snapshot_before_invocation rt en s else (Inr (), s)) (\<lambda>_ s.
     bindE (issue_and_respond en req start s) (\<lambda>_ s.
     bindE (w_pause_sandbox rt s) (\<lambda>_ s.
       case wk_sandbox s of
         Running sb \<Rightarrow>
           (let s = s\<lparr>wk_sandbox := Paused sb\<rparr> in
            if start = RefNonexistent \<and> wk_snap_time s = OnCreationAfterInvoc
            then catchW (w_create_snapshot rt en s) (\<lambda>_ s. (Inr (), s)) (\<lambda>_ s. (Inr (), s))
            else (Inr (), s))
       | _ \<Rightarrow> (Inl (WPanic ''unreachable''), s))))"

definition handle_with_slot ::
  "('rt, 'x, 'net, 'st) runtime_ops \<Rightarrow> 'net wenv \<Rightarrow> wrequest \<Rightarrow> cpu \<Rightarrow> ('rt, 'x, 'net, 'st) worker
    \<Rightarrow> ('rt, 'x, 'net, 'st, unit) wresult" where
  "handle_with_slot rt en req cpu s =
     (let start = state_ref (wk_sandbox s) in
      catchW (w_prepare_sandbox rt en cpu s) (\<lambda>e s. (Inl (WErr (WPrepareSandbox e)), s))
        (\<lambda>_ s. handle_with_sandbox rt en req start s))"

text \<open>\<^verbatim>\<open>u64::saturating_sub\<close>\<close>

definition sat_sub :: "64 word \<Rightarrow> 64 word \<Rightarrow> 64 word" where
  "sat_sub a b = (if b \<le> a then a - b else 0)"

definition finish_request ::
  "'net wenv \<Rightarrow> winvocation \<Rightarrow> ('rt, 'x, 'net, 'st) worker \<Rightarrow> ('rt, 'x, 'net, 'st) worker" where
  "finish_request en iv s =
     (let s = set_timing T_RunningSlot (en_elapsed en AtSlot) (emit EvSlotReleased s) in
      emit (EvTimings (state_id (wk_sandbox s)) (invocation_id (wi_req iv)) (wk_timings s)) s)"

definition handle_request ::
  "('rt, 'x, 'net, 'st) runtime_ops \<Rightarrow> 'net wenv \<Rightarrow> winvocation \<Rightarrow> ('rt, 'x, 'net, 'st) worker
    \<Rightarrow> ('rt, 'x, 'net, 'st, unit) wresult" where
  "handle_request rt en iv s =
     (let s = clear_timings s;
          s = (case Option.bind (rq_metadata (wi_req iv) header_source_ts) parse_u64 of
                 None \<Rightarrow> s
               | Some ts \<Rightarrow> s\<lparr>wk_timings := (wk_timings s)(T_Queued := sat_sub (wi_acquired_ns iv) ts)\<rparr>) in
      catchW (handle_with_slot rt en (wi_req iv) (wi_cpuset iv) s)
        (\<lambda>e s. (Inl (WErr e), finish_request en iv s))
        (\<lambda>_ s. send_need_work (finish_request en iv s)))"

section \<open>Failures\<close>

text \<open>Pause a running sandbox, then unload or destroy it; the result says whether it went well.\<close>

definition w_quiesce ::
  "('rt, 'x, 'net, 'st) runtime_ops \<Rightarrow> 'net wenv \<Rightarrow> 'x sandbox_scheme \<Rightarrow> ('rt, 'x, 'net, 'st) worker
    \<Rightarrow> ('rt, 'x, 'net, 'st, bool) wresult" where
  "w_quiesce rt en sb s =
     (case rt_pause_sandbox rt sb (wk_runtime s) of
        (Inl _, sb, r) \<Rightarrow> (Inr False, s\<lparr>wk_runtime := r, wk_sandbox := Trashed sb\<rparr>)
      | (Inr _, sb, r) \<Rightarrow>
          (let s = s\<lparr>wk_runtime := r\<rparr>;
               done = (\<lambda>r. catchW r (\<lambda>_ s. (Inr False, s)) (\<lambda>_ s. (Inr True, s))) in
           if rt_has_snapshot rt sb then done (w_unload rt sb s)
           else done (w_destroy_sandbox rt en (s\<lparr>wk_sandbox := Paused sb\<rparr>))))"

definition try_handle_failure ::
  "('rt, 'x, 'net, 'st) runtime_ops \<Rightarrow> 'net wenv \<Rightarrow> werror \<Rightarrow> ('rt, 'x, 'net, 'st) worker
    \<Rightarrow> ('rt, 'x, 'net, 'st, bool) wresult" where
  "try_handle_failure rt en err s =
     (let done = (\<lambda>r. catchW r (\<lambda>_ s. (Inr False, s)) (\<lambda>_ s. (Inr True, s)));
          while_running =
            (case wk_sandbox s of
               Running sb \<Rightarrow> w_quiesce rt en sb s
             | _ \<Rightarrow> (Inl (WPanic ''should be returned only while SandboxState::Running''), s)) in
      case err of
        WPrepareSandbox _ \<Rightarrow>
          (case wk_sandbox s of
             Nonexistent \<Rightarrow> (Inr True, s)
           | Snapshot _ \<Rightarrow> (Inr True, s)
           | Paused sb \<Rightarrow>
               if rt_has_snapshot rt sb then done (w_unload rt sb s) else done (w_destroy_sandbox rt en s)
           | Running sb \<Rightarrow> w_quiesce rt en sb s
           | Trashed _ \<Rightarrow> (Inl (WPanic ''BUG: Error::PrepareSandbox for SandboxState::Trashed''), s))
      | WHandleFunctionRequest _ \<Rightarrow> while_running
      | WIssuerTimeout _ \<Rightarrow> while_running
      | WForwardToSink _ \<Rightarrow> while_running
      | WPauseSandbox _ \<Rightarrow>
          (case wk_sandbox s of
             Running sb \<Rightarrow>
               (case rt_pause_sandbox rt sb (wk_runtime s) of
                  (Inr _, sb, r) \<Rightarrow> done (w_destroy_sandbox rt en (s\<lparr>wk_runtime := r, wk_sandbox := Paused sb\<rparr>))
                | (Inl _, sb, r) \<Rightarrow> done (w_destroy_sandbox rt en (s\<lparr>wk_runtime := r, wk_sandbox := Running sb\<rparr>)))
           | _ \<Rightarrow> (Inl (WPanic ''BUG: Error::PauseSandbox should be returned only while SandboxState::Running''),
                   s\<lparr>wk_sandbox := Nonexistent\<rparr>))
      | _ \<Rightarrow> (Inl (WPanic ''all Error variants returned by Worker::handle_request are already matched''), s))"

section \<open>Control messages\<close>

definition handle_prepare_sandbox_request ::
  "('rt, 'x, 'net, 'st) runtime_ops \<Rightarrow> 'net wenv \<Rightarrow> cpu \<Rightarrow> ('rt, 'x, 'net, 'st) worker
    \<Rightarrow> ('rt, 'x, 'net, 'st, unit) wresult" where
  "handle_prepare_sandbox_request rt en cpu s =
     (let start = state_ref (wk_sandbox s);
          s = clear_timings s;
          refuse = (\<lambda>e e' s.
            bindE (send_sandbox_prep_result (Inl (werror_text e)) s) (\<lambda>_ s. (Inl (WErr e'), s))) in
      catchW (w_prepare_sandbox rt en cpu s) (\<lambda>e. refuse e (WPrepareSandbox e)) (\<lambda>_ s.
      catchW (w_pause_sandbox rt s) (\<lambda>e. refuse e e) (\<lambda>_ s.
        case wk_sandbox s of
          Running sb \<Rightarrow>
            (let s = s\<lparr>wk_sandbox := Paused sb\<rparr>;
                 report = (\<lambda>has s. send_sandbox_prep_result (Inr (sb_id sb, has, sb_stats sb)) s) in
             if start = RefNonexistent \<and> wk_snap_time s = OnCreationBeforeInvoc
             then catchW (w_create_snapshot rt en s) (\<lambda>_. report (rt_has_snapshot rt sb)) (\<lambda>_. report True)
             else report (rt_has_snapshot rt sb) s)
        | _ \<Rightarrow> (Inl (WPanic ''Entering _handle_with_sandbox while not in SandboxState::Running''), s))))"

definition handle_snapshot_request ::
  "('rt, 'x, 'net, 'st) runtime_ops \<Rightarrow> 'net wenv \<Rightarrow> sandbox_id \<Rightarrow> ('rt, 'x, 'net, 'st) worker
    \<Rightarrow> ('rt, 'x, 'net, 'st, unit) wresult" where
  "handle_snapshot_request rt en sid s =
     (let s = clear_timings s;
          reply = (\<lambda>res s. send_snapshot_result res
                     (case state_id (wk_sandbox s) of None \<Rightarrow> sid | Some i \<Rightarrow> i) s);
          cannot = Inl (werror_text (WCreateSnapshotControl
                     (''cannot create snapshot of SandboxState::'' @ state_name (state_ref (wk_sandbox s))))) in
      case wk_sandbox s of
        Snapshot _ \<Rightarrow> reply (Inr ()) s
      | Paused sb \<Rightarrow>
          (if rt_has_snapshot rt sb then reply (Inr ()) s
           else catchW (w_create_snapshot rt en s) (\<lambda>e. reply (Inl (werror_text e))) (\<lambda>_. reply (Inr ())))
      | _ \<Rightarrow> reply cannot s)"

section \<open>The task\<close>

datatype worker_input = RecvInvocation "winvocation option" | RecvControl "control_message option"

datatype worker_step = Continue | Break "werror option"

text \<open>One turn of the loop of \<^verbatim>\<open>run\<close>, up to leaving it.\<close>

definition worker_iter ::
  "('rt, 'x, 'net, 'st) runtime_ops \<Rightarrow> 'net wenv \<Rightarrow> worker_input \<Rightarrow> ('rt, 'x, 'net, 'st) worker
    \<Rightarrow> ('rt, 'x, 'net, 'st, worker_step) wresult" where
  "worker_iter rt en inp s =
     (let recover = (\<lambda>e s.
            bindE (try_handle_failure rt en e s) (\<lambda>ok s. (Inr (Break (if ok then None else Some e)), s)));
          leave = (\<lambda>r. catchW r (\<lambda>e s. (Inr (Break (Some e)), s)) (\<lambda>_ s. (Inr (Break None), s))) in
      if state_ref (wk_sandbox s) = RefRunning \<or> state_ref (wk_sandbox s) = RefTrashed
      then (Inl (WPanic ''should never be in SandboxState::{Running|Trashed} when entering the main loop''), s)
      else
        (case inp of
           RecvInvocation None \<Rightarrow> (Inr (Break None), s)
         | RecvInvocation (Some iv) \<Rightarrow> catchW (handle_request rt en iv s) recover (\<lambda>_ s. (Inr Continue, s))
         | RecvControl None \<Rightarrow> (Inr (Break None), s)
         | RecvControl (Some CtlShutDown) \<Rightarrow> leave (w_shutdown rt en s)
         | RecvControl (Some CtlDestroySandbox) \<Rightarrow> leave (w_destroy_sandbox rt en s)
         | RecvControl (Some (CtlPrepareSandbox cpu)) \<Rightarrow>
             catchW (handle_prepare_sandbox_request rt en cpu s) recover (\<lambda>_ s. (Inr Continue, s))
         | RecvControl (Some (CtlCreateSnapshot sid)) \<Rightarrow>
             bindE (handle_snapshot_request rt en sid s) (\<lambda>_ s. (Inr Continue, s))))"

type_synonym 'x wexit = "werror option \<times> 'x sandbox_scheme wexit_sandbox"

definition worker_leave ::
  "('rt, 'x, 'net, 'st) runtime_ops \<Rightarrow> werror option \<Rightarrow> ('rt, 'x, 'net, 'st) worker
    \<Rightarrow> ('rt, 'x, 'net, 'st, 'x wexit) wresult" where
  "worker_leave rt status s =
     bindE (send_reap_me s) (\<lambda>_ s.
       let exit = (\<lambda>s. (Inr (status, exit_of_state (wk_sandbox s)), s\<lparr>wk_sandbox := Nonexistent\<rparr>)) in
       case status of
         None \<Rightarrow> bindE (w_uncache_sandbox rt s) (\<lambda>_. exit)
       | Some _ \<Rightarrow> exit s)"

text \<open>The two queues of a worker, and how far its task has got.\<close>

datatype 'x wphase = Starting | Looping | Exited "'x wexit" | Crashed string | Blocked

record ('rt, 'x, 'net, 'st) wtask =
  tk_phase :: "'x wphase"
  tk_worker :: "('rt, 'x, 'net, 'st) worker"
  tk_invocations :: "winvocation list"
  tk_controls :: "control_message list"
  tk_closed :: bool

definition invocation_queue_size :: nat where
  "invocation_queue_size = 1"

definition control_queue_size :: nat where
  "control_queue_size = 4"

text \<open>\<^verbatim>\<open>select! { biased; .. }\<close>: invocations first; nothing is ready when both queues are empty and open.\<close>

definition worker_select ::
  "('rt, 'x, 'net, 'st) wtask \<Rightarrow> (worker_input \<times> ('rt, 'x, 'net, 'st) wtask) option" where
  "worker_select t =
     (case tk_invocations t of
        iv # ivs \<Rightarrow> Some (RecvInvocation (Some iv), t\<lparr>tk_invocations := ivs\<rparr>)
      | [] \<Rightarrow>
          if tk_closed t then Some (RecvInvocation None, t)
          else (case tk_controls t of
                  c # cs \<Rightarrow> Some (RecvControl (Some c), t\<lparr>tk_controls := cs\<rparr>)
                | [] \<Rightarrow> None))"

definition settle ::
  "(wstop + 'x wphase) \<times> ('rt, 'x, 'net, 'st) worker \<Rightarrow> ('rt, 'x, 'net, 'st) wtask
    \<Rightarrow> ('rt, 'x, 'net, 'st) wtask" where
  "settle r t =
     (case r of
        (Inr ph, s) \<Rightarrow> t\<lparr>tk_phase := ph, tk_worker := s\<rparr>
      | (Inl (WPanic m), s) \<Rightarrow> t\<lparr>tk_phase := Crashed m, tk_worker := s\<rparr>
      | (Inl _, s) \<Rightarrow> t\<lparr>tk_phase := Blocked, tk_worker := s\<rparr>)"

definition worker_start ::
  "('rt, 'x, 'net, 'st) runtime_ops \<Rightarrow> ('rt, 'x, 'net, 'st) wtask \<Rightarrow> ('rt, 'x, 'net, 'st) wtask" where
  "worker_start rt t =
     (let s = tk_worker t in
      case rt_init rt (wk_runtime s) of
        (Inr _, r) \<Rightarrow> t\<lparr>tk_phase := Looping, tk_worker := s\<lparr>wk_runtime := r\<rparr>\<rparr>
      | (Inl e, r) \<Rightarrow>
          settle (bindE (worker_leave rt (Some (WInit ''runtime initialization'')) (s\<lparr>wk_runtime := r\<rparr>))
                    (\<lambda>ex s. (Inr (Exited ex), s))) t)"

definition worker_turn ::
  "('rt, 'x, 'net, 'st) runtime_ops \<Rightarrow> 'net wenv \<Rightarrow> ('rt, 'x, 'net, 'st) wtask \<Rightarrow> ('rt, 'x, 'net, 'st) wtask" where
  "worker_turn rt en t =
     (case worker_select t of
        None \<Rightarrow> t
      | Some (inp, t) \<Rightarrow>
          settle (bindE (worker_iter rt en inp (tk_worker t)) (\<lambda>st s.
            case st of
              Continue \<Rightarrow> (Inr Looping, s)
            | Break status \<Rightarrow> bindE (worker_leave rt status s) (\<lambda>ex s. (Inr (Exited ex), s)))) t)"

text \<open>\<^verbatim>\<open>Worker::spawn\<close>; the runtime and the issuer have been constructed or not.\<close>

definition worker_spawn ::
  "worker_id \<Rightarrow> function_id \<Rightarrow> snapshot_creation_time \<Rightarrow> duration \<Rightarrow> send_result list \<Rightarrow> string + 'rt \<Rightarrow> string + unit
    \<Rightarrow> 'x sandbox_scheme option \<Rightarrow> (werror \<times> 'x sandbox_scheme option) + ('rt, 'x, 'net, 'st) wtask" where
  "worker_spawn w fid sct tmo chan newrt newiss sb =
     (case newrt of
        Inl _ \<Rightarrow> Inl (WInit ''runtime construction'', sb)
      | Inr rt \<Rightarrow>
          (case newiss of
             Inl _ \<Rightarrow> Inl (WInit ''request issuer construction'', sb)
           | Inr _ \<Rightarrow>
               Inr \<lparr>tk_phase = Starting,
                    tk_worker = \<lparr>wk_id = w, wk_function_id = fid, wk_snap_time = sct,
                      wk_sandbox = state_of_option sb, wk_timings = (\<lambda>_. 0), wk_issuer_timeout = tmo,
                      wk_runtime = rt, wk_pool_chan = chan, wk_out = []\<rparr>,
                    tk_invocations = [], tk_controls = [], tk_closed = False\<rparr>))"

text \<open>What happens to the task: it starts, the pool and admission fill its queues within their
  capacities, it takes a turn.\<close>

inductive task_step ::
  "('rt, 'x, 'net, 'st) runtime_ops \<Rightarrow> ('net wenv \<Rightarrow> bool) \<Rightarrow> ('rt, 'x, 'net, 'st) wtask
    \<Rightarrow> ('rt, 'x, 'net, 'st) wtask \<Rightarrow> bool" for rt E where
  start: "tk_phase t = Starting \<Longrightarrow> task_step rt E t (worker_start rt t)"
| invocation: "length (tk_invocations t) < invocation_queue_size \<Longrightarrow>
    task_step rt E t (t\<lparr>tk_invocations := tk_invocations t @ [iv]\<rparr>)"
| control: "length (tk_controls t) < control_queue_size \<Longrightarrow>
    task_step rt E t (t\<lparr>tk_controls := tk_controls t @ [c]\<rparr>)"
| turn: "tk_phase t = Looping \<Longrightarrow> E en \<Longrightarrow> task_step rt E t (worker_turn rt en t)"

end
