(* ===== verification/Worker_Inv.thy ===== *)
theory Worker_Inv
  imports Worker
begin

text \<open>
  What a runtime promises, and what every operation of the worker does with it.

  The locale \<open>sandbox_runtime\<close> has the promises that the worker relies on: a new sandbox has no
  snapshot, and no operation changes the id of a sandbox or makes its snapshot disappear.
  \<open>wwp B r E Q\<close> says that a computation does not panic, that it blocks only if \<open>B\<close>, that an error
  satisfies \<open>E\<close> and a normal result \<open>Q\<close>. \<open>frame\<close> says what an operation has added to the log: the
  messages to the pool, how many slots it has released and how many responses it has sent.
\<close>

section \<open>The contract of a runtime\<close>

locale sandbox_runtime =
  fixes rt :: "('rt, 'x, 'net, 'st) runtime_ops"
  assumes fresh_no_snapshot:
      "rt_create_sandbox rt fid net tm r = (Inr sb, tm', r') \<Longrightarrow> \<not> rt_has_snapshot rt sb"
    and load_keeps: "rt_load_sandbox rt sb r = (res, sb', r') \<Longrightarrow>
      sb_id sb' = sb_id sb \<and> rt_has_snapshot rt sb' = rt_has_snapshot rt sb"
    and pause_keeps: "rt_pause_sandbox rt sb r = (res, sb', r') \<Longrightarrow>
      sb_id sb' = sb_id sb \<and> rt_has_snapshot rt sb' = rt_has_snapshot rt sb"
    and resume_keeps: "rt_resume_sandbox rt sb r = (res, sb', r') \<Longrightarrow>
      sb_id sb' = sb_id sb \<and> rt_has_snapshot rt sb' = rt_has_snapshot rt sb"
    and shutdown_keeps: "rt_shutdown_sandbox rt sb r = (res, sb', r') \<Longrightarrow>
      sb_id sb' = sb_id sb \<and> rt_has_snapshot rt sb' = rt_has_snapshot rt sb"
    and uncache_keeps: "rt_uncache_sandbox rt sb r = (res, sb', r') \<Longrightarrow>
      sb_id sb' = sb_id sb \<and> rt_has_snapshot rt sb' = rt_has_snapshot rt sb"
    and cpuset_keeps: "rt_setup_cpuset rt cpu sb r = (res, sb', r') \<Longrightarrow>
      sb_id sb' = sb_id sb \<and> rt_has_snapshot rt sb' = rt_has_snapshot rt sb"
    and snapshot_keeps: "rt_create_snapshot rt p q sb r = (res, sb', r') \<Longrightarrow>
      sb_id sb' = sb_id sb \<and> (rt_has_snapshot rt sb \<longrightarrow> rt_has_snapshot rt sb')"
    and stats_apart: "rt_has_snapshot rt (sb\<lparr>sb_stats := st\<rparr>) = rt_has_snapshot rt sb"

section \<open>A calculus for the operations of a worker\<close>

definition wwp ::
  "bool \<Rightarrow> (wstop + 'a) \<times> 's \<Rightarrow> (werror \<Rightarrow> 's \<Rightarrow> bool) \<Rightarrow> ('a \<Rightarrow> 's \<Rightarrow> bool) \<Rightarrow> bool" where
  "wwp B r E Q =
     (case r of (Inl (WPanic _), _) \<Rightarrow> False | (Inl WStuck, _) \<Rightarrow> B
      | (Inl (WErr e), s) \<Rightarrow> E e s | (Inr x, s) \<Rightarrow> Q x s)"

lemma wwp_simps [simp]:
  "\<not> wwp B (Inl (WPanic m), s) E Q"
  "wwp B (Inl WStuck, s) E Q \<longleftrightarrow> B"
  "wwp B (Inl (WErr e), s) E Q \<longleftrightarrow> E e s"
  "wwp B (Inr x, s) E Q \<longleftrightarrow> Q x s"
  by (simp_all add: wwp_def)

lemma wwp_bindE: "wwp B (bindE r k) E Q \<longleftrightarrow> wwp B r E (\<lambda>x s. wwp B (k x s) E Q)"
  by (auto simp: wwp_def bindE_def split: prod.split sum.split wstop.split)

lemma wwp_catchW:
  "wwp B (catchW r h k) E Q \<longleftrightarrow> wwp B r (\<lambda>e s. wwp B (h e s) E Q) (\<lambda>x s. wwp B (k x s) E Q)"
  by (auto simp: wwp_def catchW_def split: prod.split sum.split wstop.split)

lemma wwp_conseq:
  "wwp B r E Q \<Longrightarrow> (B \<Longrightarrow> B') \<Longrightarrow> (\<And>e s. E e s \<Longrightarrow> E' e s) \<Longrightarrow> (\<And>x s. Q x s \<Longrightarrow> Q' x s) \<Longrightarrow> wwp B' r E' Q'"
  by (auto simp: wwp_def split: prod.splits sum.splits wstop.splits)

lemma wwp_iff:
  "wwp B r E Q \<longleftrightarrow> (\<exists>s. r = (Inl WStuck, s) \<and> B) \<or> (\<exists>e s. r = (Inl (WErr e), s) \<and> E e s)
     \<or> (\<exists>x s. r = (Inr x, s) \<and> Q x s)"
  by (auto simp: wwp_def split: prod.splits sum.splits wstop.splits)

section \<open>The log\<close>

primrec pool_msgs :: "('net, 'st) effect list \<Rightarrow> outbound_message list" where
  "pool_msgs [] = []"
| "pool_msgs (e # es) = (case e of EvPool m \<Rightarrow> m # pool_msgs es | _ \<Rightarrow> pool_msgs es)"

primrec releases :: "('net, 'st) effect list \<Rightarrow> nat" where
  "releases [] = 0"
| "releases (e # es) = (case e of EvSlotReleased \<Rightarrow> Suc (releases es) | _ \<Rightarrow> releases es)"

primrec responses :: "('net, 'st) effect list \<Rightarrow> wresponse list" where
  "responses [] = []"
| "responses (e # es) = (case e of EvSink r \<Rightarrow> r # responses es | _ \<Rightarrow> responses es)"

lemma log_append [simp]:
  "pool_msgs (es @ fs) = pool_msgs es @ pool_msgs fs"
  "releases (es @ fs) = releases es + releases fs"
  "responses (es @ fs) = responses es @ responses fs"
  by (induction es) (auto split: effect.split)

abbreviation oks :: "('rt, 'x, 'net, 'st) worker \<Rightarrow> nat" where
  "oks s \<equiv> count_list (wk_pool_chan s) SendOk"

lemma retry_send_None [simp]: "retry_send cs = None \<longleftrightarrow> count_list cs SendOk = 0"
  by (induction cs rule: retry_send.induct) auto

lemma retry_send_Some: "retry_send cs = Some cs' \<Longrightarrow> count_list cs SendOk = Suc (count_list cs' SendOk)"
  by (induction cs rule: retry_send.induct) auto

definition frame ::
  "outbound_message list \<Rightarrow> nat \<Rightarrow> wresponse list \<Rightarrow> ('rt, 'x, 'net, 'st) worker
    \<Rightarrow> ('rt, 'x, 'net, 'st) worker \<Rightarrow> bool" where
  "frame ms n rs s s' \<longleftrightarrow>
     wk_id s' = wk_id s \<and> wk_function_id s' = wk_function_id s \<and> wk_snap_time s' = wk_snap_time s
   \<and> pool_msgs (wk_out s') = pool_msgs (wk_out s) @ ms
   \<and> releases (wk_out s') = releases (wk_out s) + n
   \<and> responses (wk_out s') = responses (wk_out s) @ rs
   \<and> oks s' + length ms = oks s"

abbreviation still :: "('rt, 'x, 'net, 'st) worker \<Rightarrow> ('rt, 'x, 'net, 'st) worker \<Rightarrow> bool" where
  "still \<equiv> frame [] 0 []"

lemma still_refl [simp, intro]: "still s s"
  by (simp add: frame_def)

lemma frame_trans: "frame ms n rs s t \<Longrightarrow> frame ms' n' rs' t u \<Longrightarrow> frame (ms @ ms') (n + n') (rs @ rs') s u"
  by (simp add: frame_def)

lemma frame_still: "frame ms n rs s t \<Longrightarrow> still t u \<Longrightarrow> frame ms n rs s u"
  by (simp add: frame_def)

lemma still_frame: "still s t \<Longrightarrow> frame ms n rs t u \<Longrightarrow> frame ms n rs s u"
  by (simp add: frame_def)

lemma frame_static:
  assumes "frame ms n rs s s'"
  shows "wk_id s' = wk_id s" "wk_function_id s' = wk_function_id s" "wk_snap_time s' = wk_snap_time s"
    "oks s' + length ms = oks s"
  using assms by (simp_all add: frame_def)

lemma frame_updates [simp]:
  "frame ms n rs s (t\<lparr>wk_sandbox := x\<rparr>) = frame ms n rs s t"
  "frame ms n rs s (t\<lparr>wk_runtime := r\<rparr>) = frame ms n rs s t"
  "frame ms n rs s (t\<lparr>wk_timings := tm\<rparr>) = frame ms n rs s t"
  "frame ms n rs (s\<lparr>wk_sandbox := x\<rparr>) t = frame ms n rs s t"
  "frame ms n rs (s\<lparr>wk_runtime := r\<rparr>) t = frame ms n rs s t"
  "frame ms n rs (s\<lparr>wk_timings := tm\<rparr>) t = frame ms n rs s t"
  "frame ms n rs s (set_timing k d t) = frame ms n rs s t"
  "frame ms n rs s (add_timing k d t) = frame ms n rs s t"
  "frame ms n rs (set_timing k d s) t = frame ms n rs s t"
  "frame ms n rs (add_timing k d s) t = frame ms n rs s t"
  "frame ms n rs (clear_timings s) t = frame ms n rs s t"
  "frame ms n rs s (clear_timings t) = frame ms n rs s t"
  by (simp_all add: frame_def set_timing_def add_timing_def clear_timings_def)

lemma frame_emit [simp]:
  "frame ms n rs s (emit (EvNetAlloc net) t) = frame ms n rs s t"
  "frame ms n rs s (emit (EvNetDealloc net) t) = frame ms n rs s t"
  "frame ms n rs s (emit (EvSnapNew f x) t) = frame ms n rs s t"
  "frame ms n rs s (emit (EvSnapRemoved f i) t) = frame ms n rs s t"
  "frame ms n rs s (emit (EvMonitorStart st) t) = frame ms n rs s t"
  "frame ms n rs s (emit (EvMonitorStop st d) t) = frame ms n rs s t"
  "frame ms n rs s (emit (EvTimings io k tm) t) = frame ms n rs s t"
  by (simp_all add: frame_def emit_def)

lemma frame_emit_release: "frame ms n rs s t \<Longrightarrow> frame ms (Suc n) rs s (emit EvSlotReleased t)"
  by (simp add: frame_def emit_def)

lemma frame_emit_sink: "frame ms n rs s t \<Longrightarrow> frame ms n (rs @ [r]) s (emit (EvSink r) t)"
  by (simp add: frame_def emit_def)

lemma wk_simps [simp]:
  "wk_sandbox (emit e s) = wk_sandbox s" "wk_sandbox (set_timing k d s) = wk_sandbox s"
  "wk_sandbox (add_timing k d s) = wk_sandbox s" "wk_sandbox (clear_timings s) = wk_sandbox s"
  "wk_id (emit e s) = wk_id s" "wk_id (set_timing k d s) = wk_id s" "wk_id (add_timing k d s) = wk_id s"
  "wk_id (clear_timings s) = wk_id s" "wk_snap_time (emit e s) = wk_snap_time s"
  "wk_snap_time (set_timing k d s) = wk_snap_time s" "wk_snap_time (add_timing k d s) = wk_snap_time s"
  "wk_snap_time (clear_timings s) = wk_snap_time s" "wk_function_id (clear_timings s) = wk_function_id s"
  "wk_pool_chan (emit e s) = wk_pool_chan s" "wk_pool_chan (set_timing k d s) = wk_pool_chan s"
  "wk_pool_chan (add_timing k d s) = wk_pool_chan s" "wk_pool_chan (clear_timings s) = wk_pool_chan s"
  "wk_function_id (emit e s) = wk_function_id s" "wk_function_id (set_timing k d s) = wk_function_id s"
  "wk_function_id (add_timing k d s) = wk_function_id s"
  by (simp_all add: emit_def set_timing_def add_timing_def clear_timings_def)

lemma wwp_send:
  "wwp (oks s = 0) (retry_send_to_pool m s) (\<lambda>_ _. False)
     (\<lambda>_ s'. frame [m] 0 [] s s' \<and> wk_sandbox s' = wk_sandbox s)"
  by (auto simp: retry_send_to_pool_def frame_def emit_def dest: retry_send_Some split: option.split)

section \<open>The steps of the sandbox\<close>

context sandbox_runtime
begin

text \<open>The same sandbox, with a snapshot if it had one.\<close>

definition alike :: "'x sandbox_scheme \<Rightarrow> 'x sandbox_scheme \<Rightarrow> bool" where
  "alike sb sb' \<longleftrightarrow> sb_id sb' = sb_id sb \<and> (rt_has_snapshot rt sb \<longrightarrow> rt_has_snapshot rt sb')"

lemma alike_refl [simp, intro]: "alike sb sb"
  by (simp add: alike_def)

lemma alike_trans: "alike a b \<Longrightarrow> alike b c \<Longrightarrow> alike a c"
  by (simp add: alike_def)

lemma alike_bump [simp]:
  "alike a (bump_restorations b) = alike a b" "alike a (bump_invocations b) = alike a b"
  "alike (bump_restorations a) b = alike a b" "alike (bump_invocations a) b = alike a b"
  by (simp_all add: alike_def bump_restorations_def bump_invocations_def stats_apart)

lemma keeps:
  "rt_load_sandbox rt sb r = (res, sb', r') \<Longrightarrow> alike sb sb'"
  "rt_pause_sandbox rt sb r = (res, sb', r') \<Longrightarrow> alike sb sb'"
  "rt_resume_sandbox rt sb r = (res, sb', r') \<Longrightarrow> alike sb sb'"
  "rt_shutdown_sandbox rt sb r = (res, sb', r') \<Longrightarrow> alike sb sb'"
  "rt_uncache_sandbox rt sb r = (res, sb', r') \<Longrightarrow> alike sb sb'"
  "rt_setup_cpuset rt cpu sb r = (res, sb', r') \<Longrightarrow> alike sb sb'"
  "rt_create_snapshot rt p q sb r = (res, sb', r') \<Longrightarrow> alike sb sb'"
  using load_keeps [of sb r res sb' r'] pause_keeps [of sb r res sb' r'] resume_keeps [of sb r res sb' r']
    shutdown_keeps [of sb r res sb' r'] uncache_keeps [of sb r res sb' r']
    cpuset_keeps [of cpu sb r res sb' r'] snapshot_keeps [of p q sb r res sb' r']
  by (simp_all add: alike_def)

text \<open>A call of the runtime leaves the sandbox where it was, changed or not.\<close>

lemma wwp_rt_on:
  assumes "\<And>res sb' r'. f sb (wk_runtime s) = (res, sb', r') \<Longrightarrow> alike sb sb'"
  shows "wwp B (rt_on f mk err sb s)
    (\<lambda>e s'. (\<exists>m. e = err m) \<and> still s s' \<and> (\<exists>sb'. wk_sandbox s' = mk sb' \<and> alike sb sb'))
    (\<lambda>_ s'. still s s' \<and> (\<exists>sb'. wk_sandbox s' = mk sb' \<and> alike sb sb'))"
  using assms by (auto simp: rt_on_def split: prod.split sum.split)

lemma wwp_create:
  assumes "wk_sandbox s = Nonexistent"
  shows "wwp (oks s = 0) (w_create_sandbox rt en cpu s)
    (\<lambda>_ s'. still s s' \<and> wk_sandbox s' = Nonexistent)
    (\<lambda>sb s'. frame [MsgSandboxId (wk_id s) (sb_id sb)] 0 [] s s' \<and> \<not> rt_has_snapshot rt sb)"
proof (cases "en_net_alloc en")
  case (NetOk net)
  define t where "t = add_timing T_SetupResources (en_elapsed en AtNet) (emit (EvNetAlloc net) s)"
  have t: "still s t" "wk_sandbox t = Nonexistent" "wk_id t = wk_id s" "wk_pool_chan t = wk_pool_chan s"
    by (simp_all add: t_def assms)
  obtain res tm r where c: "rt_create_sandbox rt (wk_function_id t) net (wk_timings t) (wk_runtime t) = (res, tm, r)"
    by (metis prod_cases3)
  show ?thesis
  proof (cases res)
    case (Inl e)
    then show ?thesis using NetOk c t assms by (simp add: w_create_sandbox_def Let_def flip: t_def)
  next
    case (Inr sb)
    define u where "u = (let s = t\<lparr>wk_timings := tm, wk_runtime := r\<rparr> in
      if wk_timings s T_CreateSandbox = 0 then set_timing T_CreateSandbox (en_elapsed en AtCreate) s else s)"
    have u: "still s u" "wk_sandbox u = Nonexistent" "wk_id u = wk_id s" "wk_pool_chan u = wk_pool_chan s"
      using t by (simp_all add: u_def Let_def)
    obtain res' sb' r' where p: "rt_setup_cpuset rt cpu sb (wk_runtime u) = (res', sb', r')"
      by (metis prod_cases3)
    have f: "\<not> rt_has_snapshot rt sb'" using fresh_no_snapshot c Inr cpuset_keeps [OF p] by simp
    show ?thesis
      using NetOk c Inr p u f assms
      by (cases res')
        (auto simp: w_create_sandbox_def Let_def u_def wwp_bindE send_sandbox_id_def simp flip: t_def
          intro!: wwp_conseq [OF wwp_send] elim: still_frame)
  qed
qed (use assms in \<open>auto simp: w_create_sandbox_def\<close>)

lemma wwp_load:
  assumes "wk_sandbox s = Snapshot sb"
  shows "wwp B (w_load_sandbox rt en cpu s)
    (\<lambda>_ s'. still s s' \<and> (\<exists>sb'. alike sb sb' \<and> (wk_sandbox s' = Snapshot sb' \<or> wk_sandbox s' = Running sb')))
    (\<lambda>_ s'. still s s' \<and> (\<exists>sb'. wk_sandbox s' = Running sb' \<and> alike sb sb'))"
  unfolding w_load_sandbox_def assms sandbox_state.case wwp_bindE
proof (rule wwp_conseq [OF wwp_rt_on [OF keeps(1)]], goal_cases)
  case (4 x s1)
  then obtain b where f: "still s s1" and b: "wk_sandbox s1 = Snapshot b" and a: "alike sb b" by blast
  show ?case
    by (auto simp: Let_def b wwp_bindE intro!: wwp_conseq [OF wwp_rt_on [OF keeps(6)]]
        intro: still_frame [OF f] alike_trans [OF a])
qed auto

lemma wwp_pause:
  assumes "wk_sandbox s = Running sb"
  shows "wwp B (w_pause_sandbox rt s)
    (\<lambda>e s'. (\<exists>m. e = WPauseSandbox m) \<and> still s s' \<and> (\<exists>sb'. wk_sandbox s' = Running sb' \<and> alike sb sb'))
    (\<lambda>_ s'. still s s' \<and> (\<exists>sb'. wk_sandbox s' = Running sb' \<and> alike sb sb'))"
  unfolding w_pause_sandbox_def assms sandbox_state.case by (rule wwp_rt_on [OF keeps(2)])

lemma wwp_resume:
  assumes "wk_sandbox s = Paused sb"
  shows "wwp B (w_resume_sandbox rt en cpus s)
    (\<lambda>_ s'. still s s' \<and> (\<exists>sb'. wk_sandbox s' = Paused sb' \<and> alike sb sb'))
    (\<lambda>_ s'. still s s' \<and> (\<exists>sb'. wk_sandbox s' = Paused sb' \<and> alike sb sb'))"
  unfolding w_resume_sandbox_def assms sandbox_state.case wwp_bindE
proof (rule wwp_conseq [OF wwp_rt_on [OF keeps(3)]], goal_cases)
  case (4 x s1)
  then obtain b where f: "still s s1" and b: "wk_sandbox s1 = Paused b" and a: "alike sb b" by blast
  show ?case
    by (auto simp: Let_def b f a wwp_bindE split: option.split intro!: wwp_conseq [OF wwp_rt_on [OF keeps(6)]]
        intro: still_frame [OF f] alike_trans [OF a])
qed auto

lemma wwp_create_snapshot:
  assumes "wk_sandbox s = Paused sb"
  shows "wwp B (w_create_snapshot rt en s)
    (\<lambda>_ s'. still s s' \<and> (\<exists>sb'. wk_sandbox s' = Paused sb' \<and> alike sb sb'))
    (\<lambda>_ s'. still s s' \<and> (\<exists>sb'. wk_sandbox s' = Paused sb' \<and> alike sb sb'))"
proof -
  have note_new: "wwp B (snapman_notify_creation rt en t) (\<lambda>_ t'. still t t' \<and> wk_sandbox t' = wk_sandbox t)
      (\<lambda>_ t'. still t t' \<and> wk_sandbox t' = wk_sandbox t)" if "wk_sandbox t = Paused b" for t b
    using that by (auto simp: snapman_notify_creation_def split: option.split sum.split)
  have snap: "wwp B (rt_on (rt_create_snapshot rt p q) Paused WCreateSnapshot sb s)
      (\<lambda>_ s'. still s s' \<and> (\<exists>sb'. wk_sandbox s' = Paused sb' \<and> alike sb sb'))
      (\<lambda>_ s'. still s s' \<and> (\<exists>sb'. wk_sandbox s' = Paused sb' \<and> alike sb sb'))" for p q
    by (rule wwp_conseq [OF wwp_rt_on [OF keeps(7)]]) simp_all
  have note_step: "wwp B (catchW (snapman_notify_creation rt en t) (\<lambda>_ s. (Inr (), set_timing T_CreateSnapshot d s))
        (\<lambda>_ s. (Inr (), set_timing T_CreateSnapshot d s)))
      (\<lambda>_ s'. still s s' \<and> (\<exists>sb'. wk_sandbox s' = Paused sb' \<and> alike sb sb'))
      (\<lambda>_ s'. still s s' \<and> (\<exists>sb'. wk_sandbox s' = Paused sb' \<and> alike sb sb'))"
    if t: "still s t \<and> (\<exists>sb'. wk_sandbox t = Paused sb' \<and> alike sb sb')" for t d
  proof -
    obtain b where b: "wk_sandbox t = Paused b" "alike sb b" and f: "still s t" using t by blast
    show ?thesis
      unfolding wwp_catchW
      by (rule wwp_conseq [OF note_new [OF b(1)]]) (auto simp: b intro: still_frame [OF f])
  qed
  show ?thesis
  proof (cases "en_query_paths en")
    case (Inr po)
    then show ?thesis
    proof (cases po)
      case (Some pq)
      then obtain p q where pq: "po = Some (p, q)" by (cases pq) simp
      show ?thesis
        using Inr pq unfolding w_create_snapshot_def assms
        by (auto simp: wwp_bindE Let_def intro!: wwp_conseq [OF snap] note_step)
    qed (use assms in \<open>auto simp: w_create_snapshot_def\<close>)
  qed (use assms in \<open>auto simp: w_create_snapshot_def\<close>)
qed

lemma wwp_destroy:
  assumes "state_ref (wk_sandbox s) \<noteq> RefTrashed"
  shows "wwp B (w_destroy_sandbox rt en s)
    (\<lambda>_ s'. still s s' \<and> (wk_sandbox s' = Nonexistent \<or> (\<exists>sb'. wk_sandbox s' = Trashed sb')))
    (\<lambda>_ s'. still s s' \<and> wk_sandbox s' = Nonexistent)"
  using assms
  by (cases "wk_sandbox s") (auto simp: w_destroy_sandbox_def w_destroy_taken_def Let_def split: prod.split sum.split)

lemma wwp_unload:
  "wwp B (w_unload rt sb s)
    (\<lambda>_ s'. still s s' \<and> (\<exists>sb'. wk_sandbox s' = Trashed sb'))
    (\<lambda>_ s'. still s s' \<and> (\<exists>sb'. wk_sandbox s' = Snapshot sb' \<and> alike sb sb'))"
  by (auto simp: w_unload_def split: prod.split sum.split dest: keeps(4))

section \<open>Preparing and invoking\<close>

text \<open>\<open>sb\<close> is the sandbox that the worker had at \<open>s\<close>, or a new one that the messages \<open>ms\<close> announce.\<close>

definition traces :: "('rt, 'x, 'net, 'st) worker \<Rightarrow> outbound_message list \<Rightarrow> 'x sandbox_scheme \<Rightarrow> bool" where
  "traces s ms sb =
     (case state_sandbox (wk_sandbox s) of
        Some a \<Rightarrow> ms = [] \<and> alike a sb
      | None \<Rightarrow> ms = [MsgSandboxId (wk_id s) (sb_id sb)])"

lemma traces_alike: "traces s ms a \<Longrightarrow> alike a b \<Longrightarrow> traces s ms b"
  by (auto simp: traces_def alike_def split: option.splits)

text \<open>The states at the head of the loop.\<close>

definition at_head :: "('rt, 'x, 'net, 'st) worker \<Rightarrow> bool" where
  "at_head s \<longleftrightarrow> state_ref (wk_sandbox s) \<noteq> RefRunning \<and> state_ref (wk_sandbox s) \<noteq> RefTrashed"

text \<open>Where a failed preparation leaves the sandbox.\<close>

definition unprepared :: "('rt, 'x, 'net, 'st) worker \<Rightarrow> ('rt, 'x, 'net, 'st) worker \<Rightarrow> bool" where
  "unprepared s s' =
     (case wk_sandbox s' of
        Nonexistent \<Rightarrow> wk_sandbox s = Nonexistent
      | Snapshot b \<Rightarrow> (\<exists>a. wk_sandbox s = Snapshot a \<and> alike a b)
      | Paused b \<Rightarrow> (\<exists>a. state_sandbox (wk_sandbox s) = Some a \<and> alike a b)
      | Running b \<Rightarrow> (\<exists>a. state_sandbox (wk_sandbox s) = Some a \<and> alike a b)
      | Trashed _ \<Rightarrow> False)"

lemma wwp_prepare:
  assumes "at_head s"
  shows "wwp (oks s = 0) (w_prepare_sandbox rt en cpu s)
    (\<lambda>_ s'. still s s' \<and> unprepared s s')
    (\<lambda>_ s'. \<exists>ms sb. frame ms 0 [] s s' \<and> length ms \<le> 1 \<and> traces s ms sb \<and> wk_sandbox s' = Running sb
       \<and> (wk_sandbox s = Nonexistent \<longrightarrow> \<not> rt_has_snapshot rt sb))"
proof (cases "wk_sandbox s")
  case Nonexistent
  show ?thesis
    unfolding w_prepare_sandbox_def Nonexistent sandbox_state.case wwp_bindE
    by (rule wwp_conseq [OF wwp_create [OF Nonexistent]]) (auto simp: unprepared_def Nonexistent traces_def)
next
  case (Snapshot a)
  show ?thesis
    unfolding w_prepare_sandbox_def Snapshot sandbox_state.case wwp_bindE
    by (rule wwp_conseq [OF wwp_load [OF Snapshot]]) (auto simp: unprepared_def Snapshot traces_def)
next
  case (Paused a)
  show ?thesis
    unfolding w_prepare_sandbox_def Paused sandbox_state.case wwp_bindE
    by (rule wwp_conseq [OF wwp_resume [OF Paused]]) (auto simp: unprepared_def Paused traces_def)
qed (use assms in \<open>simp_all add: at_head_def\<close>)

lemma wwp_forward:
  "wwp B (forward_response en r s) (\<lambda>_ s'. s' = s) (\<lambda>_ s'. s' = emit (EvSink r) s)"
  by (simp add: forward_response_def split: sum.split)

lemma wwp_issue:
  assumes "wk_sandbox s = Running sb"
  shows "wwp B (issue_request en req s)
    (\<lambda>e s'. ((\<exists>m. e = WHandleFunctionRequest m) \<or> (\<exists>d. e = WIssuerTimeout d)) \<and> still s s'
       \<and> (\<exists>sb'. wk_sandbox s' = Running sb' \<and> alike sb sb'))
    (\<lambda>_ s'. still s s' \<and> (\<exists>sb'. wk_sandbox s' = Running sb' \<and> alike sb sb'))"
  using assms
  by (auto simp: issue_request_def Let_def header_timing_def split: issuer_reply.split option.split)

definition invocation_error :: "werror \<Rightarrow> bool" where
  "invocation_error e \<longleftrightarrow> (\<exists>m. e = WHandleFunctionRequest m) \<or> (\<exists>d. e = WIssuerTimeout d)
     \<or> (\<exists>f. e = WForwardToSink f) \<or> (\<exists>m. e = WPauseSandbox m)"

lemma invocation_errors [simp]:
  "invocation_error (WHandleFunctionRequest m)" "invocation_error (WIssuerTimeout d)"
  "invocation_error (WForwardToSink f)" "invocation_error (WPauseSandbox m)"
  by (simp_all add: invocation_error_def)

text \<open>After the request: \<open>sb\<close> is still running, and at most one response has gone out.\<close>

definition answered :: "('rt, 'x, 'net, 'st) worker \<Rightarrow> 'x sandbox_scheme \<Rightarrow> nat \<Rightarrow> nat \<Rightarrow> ('rt, 'x, 'net, 'st) worker \<Rightarrow> bool" where
  "answered s sb l u s' \<longleftrightarrow> (\<exists>rs sb'. l \<le> length rs \<and> length rs \<le> u \<and> frame [] 0 rs s s'
     \<and> wk_sandbox s' = Running sb' \<and> alike sb sb')"

lemma wwp_respond:
  assumes "still s t" "wk_sandbox t = Running b" "alike sb b"
    and "case err of Some e \<Rightarrow> invocation_error e | None \<Rightarrow> resp \<noteq> None"
  shows "wwp B (respond en start mon resp dur err t)
    (\<lambda>e s'. invocation_error e \<and> answered s sb 0 1 s') (\<lambda>_ s'. answered s sb 1 1 s')"
proof -
  have a: "answered s sb 0 1 t" "answered s sb 1 1 (emit (EvSink r) t)" for r
    using assms(1-3) frame_emit_sink [OF assms(1)] by (force simp: answered_def)+
  have m: "answered s sb l u (emit (EvMonitorStop start dur) v) = answered s sb l u v" for l u v
    by (simp add: answered_def)
  have w: "answered s sb 0 1 v" if "answered s sb 1 1 v" for v
    using that by (auto simp: answered_def)
  show ?thesis
    using assms(4) a w
    by (auto simp: respond_def stop_monitor_def wwp_catchW m
        split: option.splits intro!: wwp_conseq [OF wwp_forward])
qed

lemma wwp_issue_monitored:
  assumes "still s t" "wk_sandbox t = Running sb"
  shows "wwp B (issue_monitored en req start mon t)
    (\<lambda>e s'. invocation_error e \<and> answered s sb 0 1 s') (\<lambda>_ s'. answered s sb 1 1 s')"
  unfolding issue_monitored_def wwp_catchW
proof (rule wwp_conseq [OF wwp_issue [OF assms(2)]], goal_cases)
  case (2 e u)
  then obtain b where u: "still s u" "wk_sandbox u = Running b" "alike sb b"
    using still_frame [OF assms(1)] by blast
  show ?case using 2 by (auto intro!: wwp_respond [OF u] simp del: One_nat_def)
next
  case (3 x u)
  then obtain b where u: "still s u" "wk_sandbox u = Running b" "alike sb b"
    using still_frame [OF assms(1)] by blast
  show ?case by (cases x) (auto intro!: wwp_respond [OF u] simp del: One_nat_def)
qed simp

lemma wwp_issue_and_respond:
  assumes "wk_sandbox s = Running sb"
  shows "wwp B (issue_and_respond en req start s)
    (\<lambda>e s'. invocation_error e \<and> answered s sb 0 1 s') (\<lambda>_ s'. answered s sb 1 1 s')"
  using wwp_issue_monitored [of s s] wwp_issue_monitored [of s "emit (EvMonitorStart start) s"] assms
  by (auto simp: issue_and_respond_def spawn_performance_monitor_def catchW_def)

text \<open>Resuming after the snapshot before the first invocation must not fail: see the section on failures.\<close>

definition resumes :: "('rt, 'x, 'net, 'st) worker \<Rightarrow> bool" where
  "resumes s \<longleftrightarrow> wk_snap_time s = OnCreationBeforeInvoc \<longrightarrow>
     (\<forall>sb r. \<exists>sb' r'. rt_resume_sandbox rt sb r = (Inr (), sb', r'))"

lemma wwp_resume_total:
  assumes "wk_sandbox s = Paused sb" and "\<And>sb r. \<exists>sb' r'. rt_resume_sandbox rt sb r = (Inr (), sb', r')"
  shows "wwp B (w_resume_sandbox rt en None s) (\<lambda>_ _. False)
    (\<lambda>_ s'. still s s' \<and> (\<exists>sb'. wk_sandbox s' = Paused sb' \<and> alike sb sb'))"
proof -
  obtain sb' r' where "rt_resume_sandbox rt sb (wk_runtime s) = (Inr (), sb', r')" using assms(2) by blast
  then show ?thesis using assms(1) keeps(3) by (auto simp: w_resume_sandbox_def rt_on_def Let_def)
qed

lemma wwp_snapshot_before:
  assumes sb: "wk_sandbox s = Running sb" and n: "\<not> rt_has_snapshot rt sb"
    and res: "\<And>sb r. \<exists>sb' r'. rt_resume_sandbox rt sb r = (Inr (), sb', r')"
  shows "wwp B (snapshot_before_invocation rt en s)
    (\<lambda>e s'. invocation_error e \<and> still s s' \<and> (\<exists>sb'. wk_sandbox s' = Running sb' \<and> alike sb sb'))
    (\<lambda>_ s'. still s s' \<and> (\<exists>sb'. wk_sandbox s' = Running sb' \<and> alike sb sb'))"
proof -
  let ?E = "\<lambda>e s'. invocation_error e \<and> still s s' \<and> (\<exists>sb'. wk_sandbox s' = Running sb' \<and> alike sb sb')"
  let ?Q = "\<lambda>_ s'. still s s' \<and> (\<exists>sb'. wk_sandbox s' = Running sb' \<and> alike sb sb')"
  have resume: "wwp B (bindE (w_resume_sandbox rt en None u) (\<lambda>_ s. case wk_sandbox s of
        Paused sb \<Rightarrow> (Inr (), s\<lparr>wk_sandbox := Running sb\<rparr>)
      | _ \<Rightarrow> (Inl (WPanic ''Just transitioned to SandboxState::Paused for snapshotting''), s))) ?E ?Q"
    if p: "still s u \<and> (\<exists>b. wk_sandbox u = Paused b \<and> alike sb b)" for u
  proof -
    obtain b where u: "still s u" "wk_sandbox u = Paused b" "alike sb b" using p by blast
    show ?thesis
      unfolding wwp_bindE
      by (rule wwp_conseq [OF wwp_resume_total [OF u(2) res]])
        (auto intro: still_frame [OF u(1)] alike_trans [OF u(3)])
  qed
  have snap: "wwp B (w_create_snapshot rt en (t\<lparr>wk_sandbox := Paused b\<rparr>))
      (\<lambda>_ u. still s u \<and> (\<exists>b. wk_sandbox u = Paused b \<and> alike sb b))
      (\<lambda>_ u. still s u \<and> (\<exists>b. wk_sandbox u = Paused b \<and> alike sb b))"
    if "still s t" "alike sb b" for t b
    by (rule wwp_conseq [OF wwp_create_snapshot [of _ b]])
      (auto intro: still_frame [OF that(1)] alike_trans [OF that(2)])
  show ?thesis
    unfolding snapshot_before_invocation_def sb sandbox_state.case Let_def wwp_bindE if_not_P [OF n]
    by (rule wwp_conseq [OF wwp_pause [OF sb]])
      (auto simp: wwp_catchW intro!: wwp_conseq [OF snap] resume)
qed

text \<open>What a failed invocation leaves behind for the failure handler.\<close>

definition failed :: "('rt, 'x, 'net, 'st) worker \<Rightarrow> werror \<Rightarrow> outbound_message list \<Rightarrow> ('rt, 'x, 'net, 'st) worker \<Rightarrow> bool" where
  "failed s e ms s' \<longleftrightarrow>
     (\<exists>f. e = WPrepareSandbox f) \<and> ms = [] \<and> unprepared s s'
   \<or> invocation_error e \<and> (\<exists>sb. wk_sandbox s' = Running sb \<and> traces s ms sb)"

lemma wwp_handle_with_sandbox:
  assumes sb: "wk_sandbox t = Running sb" and f: "frame ms 0 [] s t" and tr: "traces s ms sb"
    and fresh: "start = RefNonexistent \<Longrightarrow> \<not> rt_has_snapshot rt sb" and res: "resumes t"
  shows "wwp B (handle_with_sandbox rt en req start t)
    (\<lambda>e s'. \<exists>rs. length rs \<le> 1 \<and> frame ms 0 rs s s' \<and> failed s e ms s')
    (\<lambda>_ s'. \<exists>r b. frame ms 0 [r] s s' \<and> traces s ms b \<and> wk_sandbox s' = Paused b)"
proof -
  let ?E = "\<lambda>e s'. \<exists>rs. length rs \<le> 1 \<and> frame ms 0 rs s s' \<and> failed s e ms s'"
  let ?Q = "\<lambda>_ s'. \<exists>r b. frame ms 0 [r] s s' \<and> traces s ms b \<and> wk_sandbox s' = Paused b"
  let ?after = "\<lambda>u. bindE (w_pause_sandbox rt u) (\<lambda>_ s. case wk_sandbox s of
      Running sb \<Rightarrow> (let s = s\<lparr>wk_sandbox := Paused sb\<rparr> in
        if start = RefNonexistent \<and> wk_snap_time s = OnCreationAfterInvoc
        then catchW (w_create_snapshot rt en s) (\<lambda>_ s. (Inr (), s)) (\<lambda>_ s. (Inr (), s)) else (Inr (), s))
    | _ \<Rightarrow> (Inl (WPanic ''unreachable''), s))"
  have after: "wwp B (?after u) ?E ?Q" if u: "answered t sb 1 1 u" for u
  proof -
    obtain r b where b: "frame [] 0 [r] t u" "wk_sandbox u = Running b" "alike sb b"
      using u by (auto simp: answered_def length_Suc_conv Suc_length_conv)
    have fu: "frame ms 0 [r] s u" using frame_trans [OF f b(1)] by simp
    have tu: "traces s ms b" using traces_alike [OF tr b(3)] .
    have snap: "wwp B (w_create_snapshot rt en (v\<lparr>wk_sandbox := Paused c\<rparr>))
        (\<lambda>_ s'. frame ms 0 [r] s s' \<and> (\<exists>d. traces s ms d \<and> wk_sandbox s' = Paused d))
        (\<lambda>_ s'. frame ms 0 [r] s s' \<and> (\<exists>d. traces s ms d \<and> wk_sandbox s' = Paused d))"
      if v: "frame ms 0 [r] s v" "traces s ms c" for v c
      by (rule wwp_conseq [OF wwp_create_snapshot [of _ c]])
        (auto intro: frame_still [OF v(1)] traces_alike [OF v(2)])
    show ?thesis
      unfolding wwp_bindE
    proof (rule wwp_conseq [OF wwp_pause [OF b(2)]], goal_cases)
      case (2 e v)
      then obtain c where c: "invocation_error e" "still u v" "wk_sandbox v = Running c" "alike b c" by auto
      then show ?case
        using frame_still [OF fu c(2)] traces_alike [OF tu c(4)] by (auto simp: failed_def intro!: exI [of _ "[r]"])
    next
      case (3 x v)
      then obtain c where c: "still u v" "wk_sandbox v = Running c" "alike b c" by blast
      have v: "frame ms 0 [r] s v" "traces s ms c"
        using frame_still [OF fu c(1)] traces_alike [OF tu c(3)] .
      show ?case
        unfolding c sandbox_state.case Let_def
        using v by (auto simp: wwp_catchW intro!: wwp_conseq [OF snap])
    qed
  qed
  have issue: "wwp B (bindE (issue_and_respond en req start u) (\<lambda>_. ?after)) ?E ?Q"
    if u: "still t u" "wk_sandbox u = Running b" "alike sb b" for u b
    unfolding wwp_bindE [of _ "issue_and_respond en req start u"]
  proof (rule wwp_conseq [OF wwp_issue_and_respond [OF u(2)]], goal_cases)
    case (2 e v)
    then obtain rs c where c: "length rs \<le> 1" "frame [] 0 rs u v" "wk_sandbox v = Running c" "alike b c"
      by (auto simp: answered_def)
    then show ?case
      using 2 frame_trans [OF frame_still [OF f u(1)] c(2)] traces_alike [OF traces_alike [OF tr u(3)] c(4)]
      by (auto simp: failed_def intro!: exI [of _ rs])
  next
    case (3 x v)
    then have "answered t sb 1 1 v"
      using still_frame [OF u(1)] alike_trans [OF u(3)] by (auto simp: answered_def)
    then show ?case by (rule after)
  qed simp
  show ?thesis
  proof (cases "start = RefNonexistent \<and> wk_snap_time t = OnCreationBeforeInvoc")
    case True
    have r: "\<And>sb r. \<exists>sb' r'. rt_resume_sandbox rt sb r = (Inr (), sb', r')" using res True by (simp add: resumes_def)
    show ?thesis
      unfolding handle_with_sandbox_def if_P [OF True] wwp_bindE [of _ "snapshot_before_invocation rt en t"]
    proof (rule wwp_conseq [OF wwp_snapshot_before [OF sb fresh r]], goal_cases)
      case (3 e v)
      then show ?case
        using frame_still [OF f] traces_alike [OF tr] by (auto simp: failed_def intro!: exI [of _ "[]"])
    next
      case (4 x v)
      then show ?case using issue by blast
    qed (use True in simp_all)
  next
    case False
    show ?thesis
      unfolding handle_with_sandbox_def if_not_P [OF False] bindE_simps by (rule issue [OF _ sb]) simp_all
  qed
qed

lemma wwp_handle_with_slot:
  assumes h: "at_head s" and r: "resumes s"
  shows "wwp (oks s = 0) (handle_with_slot rt en req cpu s)
    (\<lambda>e s'. \<exists>ms rs. length ms \<le> 1 \<and> length rs \<le> 1 \<and> frame ms 0 rs s s' \<and> failed s e ms s')
    (\<lambda>_ s'. \<exists>ms r b. length ms \<le> 1 \<and> frame ms 0 [r] s s' \<and> traces s ms b \<and> wk_sandbox s' = Paused b)"
  unfolding handle_with_slot_def Let_def wwp_catchW
proof (rule wwp_conseq [OF wwp_prepare [OF h]], goal_cases)
  case (2 e t)
  then show ?case by (auto simp: failed_def intro!: exI [of _ "[]"])
next
  case (3 x t)
  then obtain ms sb where t: "wk_sandbox t = Running sb" "frame ms 0 [] s t" "length ms \<le> 1" "traces s ms sb"
    and f: "wk_sandbox s = Nonexistent \<Longrightarrow> \<not> rt_has_snapshot rt sb" by blast
  have f': "state_ref (wk_sandbox s) = RefNonexistent \<Longrightarrow> \<not> rt_has_snapshot rt sb"
    using f by (cases "wk_sandbox s") simp_all
  have r': "resumes t" using r frame_static(3) [OF t(2)] by (simp add: resumes_def)
  show ?case
    by (rule wwp_conseq [OF wwp_handle_with_sandbox [OF t(1,2,4) f' r']]) (use t(3) in blast)+
qed

lemma same_start:
  assumes "wk_sandbox s' = wk_sandbox s" "wk_id s' = wk_id s"
  shows "traces s' = traces s" "at_head s' = at_head s" "unprepared s' = unprepared s" "failed s' = failed s"
proof -
  show t: "traces s' = traces s" and "at_head s' = at_head s" and u: "unprepared s' = unprepared s"
    unfolding fun_eq_iff traces_def at_head_def unprepared_def assms by simp_all
  show "failed s' = failed s" unfolding fun_eq_iff failed_def t u by simp
qed

lemma finish_request: "frame ms 0 rs s t \<Longrightarrow> frame ms 1 rs s (finish_request en iv t)"
  "wk_sandbox (finish_request en iv t) = wk_sandbox t"
  using frame_emit_release [of ms 0 rs s t] by (simp_all add: finish_request_def Let_def)

text \<open>An invocation releases its slot once; it ends with \<^verbatim>\<open>NeedWork\<close> exactly if it succeeds.\<close>

lemma wwp_handle_request:
  assumes h: "at_head s" and r: "resumes s"
  shows "wwp (oks s < 2) (handle_request rt en iv s)
    (\<lambda>e s'. \<exists>ms rs. length ms \<le> 1 \<and> length rs \<le> 1 \<and> frame ms 1 rs s s' \<and> failed s e ms s')
    (\<lambda>_ s'. \<exists>ms r b. length ms \<le> 1 \<and> frame (ms @ [MsgNeedWork (wk_id s) (wk_function_id s)]) 1 [r] s s'
       \<and> traces s ms b \<and> wk_sandbox s' = Paused b)"
proof -
  define t where "t = (case Option.bind (rq_metadata (wi_req iv) header_source_ts) parse_u64 of
      None \<Rightarrow> clear_timings s
    | Some ts \<Rightarrow> (clear_timings s)\<lparr>wk_timings := (wk_timings (clear_timings s))(T_Queued := sat_sub (wi_acquired_ns iv) ts)\<rparr>)"
  have t: "at_head t" "resumes t" "wk_pool_chan t = wk_pool_chan s"
    "frame ms n rs t u = frame ms n rs s u" "traces t = traces s" "failed t = failed s" for ms n rs u
    using h r same_start [of t s] by (auto simp: t_def resumes_def split: option.split)
  have fin: "failed s e ms (finish_request en iv u) = failed s e ms u" for e ms u
    by (simp add: failed_def unprepared_def finish_request)
  have "wwp (oks s < 2) (catchW (handle_with_slot rt en (wi_req iv) (wi_cpuset iv) t)
      (\<lambda>e s. (Inl (WErr e), finish_request en iv s)) (\<lambda>_ s. send_need_work (finish_request en iv s)))
    (\<lambda>e s'. \<exists>ms rs. length ms \<le> 1 \<and> length rs \<le> 1 \<and> frame ms 1 rs s s' \<and> failed s e ms s')
    (\<lambda>_ s'. \<exists>ms r b. length ms \<le> 1 \<and> frame (ms @ [MsgNeedWork (wk_id s) (wk_function_id s)]) 1 [r] s s'
       \<and> traces s ms b \<and> wk_sandbox s' = Paused b)"
    unfolding wwp_catchW
  proof (rule wwp_conseq [OF wwp_handle_with_slot [OF t(1,2)]], goal_cases)
    case 1
    then show ?case using t(3) by simp
  next
    case (2 e u)
    then show ?case unfolding t(4-6) wwp_simps fin by (blast intro: finish_request(1))
  next
    case (3 x u)
    then obtain ms rs b where u: "length ms \<le> 1" "frame ms 0 [rs] s u" "traces s ms b" "wk_sandbox u = Paused b"
      unfolding t(4-6) by blast
    let ?v = "finish_request en iv u"
    have v: "frame ms 1 [rs] s ?v" using finish_request(1) [OF u(2)] .
    note st = frame_static [OF v]
    show ?case
      unfolding send_need_work_def st(1,2)
    proof (rule wwp_conseq [OF wwp_send], goal_cases)
      case 1
      then show ?case using st(4) u(1) by simp
    next
      case (3 y w)
      then have "frame (ms @ [MsgNeedWork (wk_id s) (wk_function_id s)]) 1 [rs] s w"
        using frame_trans [OF v, of _ 0 "[]" w] by simp
      then show ?case using u 3 finish_request(2) by metis
    qed simp
  qed
  then show ?thesis by (simp only: handle_request_def Let_def t_def)
qed

section \<open>Failures\<close>

text \<open>A failure is settled well if the worker is left with nothing or with a snapshot of the sandbox it
  had; otherwise the sandbox is gone or trashed.\<close>

definition settled :: "('rt, 'x, 'net, 'st) worker \<Rightarrow> ('x sandbox_scheme \<Rightarrow> bool) \<Rightarrow> bool \<Rightarrow> ('rt, 'x, 'net, 'st) worker \<Rightarrow> bool" where
  "settled t P ok s' \<longleftrightarrow> still t s' \<and>
     (if ok then wk_sandbox s' = Nonexistent
        \<or> (\<exists>b. wk_sandbox s' = Snapshot b \<and> rt_has_snapshot rt b \<and> P b)
      else wk_sandbox s' = Nonexistent \<or> (\<exists>b. wk_sandbox s' = Trashed b))"

abbreviation settling :: "bool \<Rightarrow> ('rt, 'x, 'net, 'st) worker \<Rightarrow> ('x sandbox_scheme \<Rightarrow> bool)
    \<Rightarrow> ('rt, 'x, 'net, 'st, bool) wresult \<Rightarrow> bool" where
  "settling B t P r \<equiv> wwp B r (\<lambda>_ _. False) (settled t P)"

lemma settling_unload:
  assumes "still t s" "rt_has_snapshot rt sb" "\<And>b. alike sb b \<Longrightarrow> P b"
  shows "settling B t P (catchW (w_unload rt sb s) (\<lambda>_ s. (Inr False, s)) (\<lambda>_ s. (Inr True, s)))"
  unfolding wwp_catchW
  by (rule wwp_conseq [OF wwp_unload])
    (use assms still_frame [OF assms(1)] in \<open>auto simp: settled_def alike_def\<close>)

lemma settling_destroy:
  assumes "still t s" "state_ref (wk_sandbox s) \<noteq> RefTrashed"
  shows "settling B t P (catchW (w_destroy_sandbox rt en s) (\<lambda>_ s. (Inr False, s)) (\<lambda>_ s. (Inr True, s)))"
  unfolding wwp_catchW
  by (rule wwp_conseq [OF wwp_destroy [OF assms(2)]])
    (use still_frame [OF assms(1)] in \<open>auto simp: settled_def\<close>)

lemma settling_quiesce:
  assumes P: "\<And>b. alike sb b \<Longrightarrow> P b"
  shows "settling B s P (w_quiesce rt en sb s)"
proof -
  obtain res sb' r where p: "rt_pause_sandbox rt sb (wk_runtime s) = (res, sb', r)" by (metis prod_cases3)
  have a: "alike sb sb'" using keeps(2) [OF p] .
  show ?thesis
  proof (cases res)
    case (Inl e)
    then show ?thesis by (simp add: w_quiesce_def p settled_def)
  next
    case (Inr u)
    then show ?thesis
      unfolding w_quiesce_def p Let_def prod.case sum.case
      using settling_unload [of s "s\<lparr>wk_runtime := r\<rparr>" sb' P] P alike_trans [OF a]
        settling_destroy [of s "s\<lparr>wk_runtime := r, wk_sandbox := Paused sb'\<rparr>"] by simp
  qed
qed

lemma settling_failure:
  assumes f: "failed s e ms t" and snap: "\<And>a. wk_sandbox s = Snapshot a \<Longrightarrow> rt_has_snapshot rt a"
  shows "settling B t (traces s ms) (try_handle_failure rt en e t)"
proof (cases "invocation_error e")
  case True
  then obtain sb where sb: "wk_sandbox t = Running sb" "traces s ms sb"
    using f by (auto simp: failed_def invocation_error_def)
  have q: "settling B t (traces s ms) (w_quiesce rt en sb t)"
    by (rule settling_quiesce) (rule traces_alike [OF sb(2)])
  obtain res b r where p: "rt_pause_sandbox rt sb (wk_runtime t) = (res, b, r)" by (metis prod_cases3)
  have d: "settling B t (traces s ms)
      (catchW (w_destroy_sandbox rt en (t\<lparr>wk_runtime := r, wk_sandbox := x\<rparr>)) (\<lambda>_ s. (Inr False, s)) (\<lambda>_ s. (Inr True, s)))"
    if "state_ref x \<noteq> RefTrashed" for x
    by (rule settling_destroy) (use that in simp_all)
  show ?thesis
    using True sb(1) q p d [of "Paused b"] d [of "Running b"]
    by (cases res) (auto simp: try_handle_failure_def Let_def invocation_error_def)
next
  case False
  then obtain f' where e: "e = WPrepareSandbox f'" and ms: "ms = []" and u: "unprepared s t"
    using f by (auto simp: failed_def)
  show ?thesis
  proof (cases "wk_sandbox t")
    case Nonexistent
    then show ?thesis by (simp add: try_handle_failure_def e settled_def)
  next
    case (Snapshot b)
    then show ?thesis
      using u snap by (auto simp: try_handle_failure_def e settled_def unprepared_def traces_def ms alike_def)
  next
    case (Paused b)
    then obtain a where a: "state_sandbox (wk_sandbox s) = Some a" "alike a b" using u by (auto simp: unprepared_def)
    have P: "\<And>c. alike b c \<Longrightarrow> traces s ms c" using a alike_trans by (auto simp: traces_def ms)
    show ?thesis
      using settling_unload [of t t b "traces s ms" B] settling_destroy [of t t B en "traces s ms"] P Paused
      by (simp add: try_handle_failure_def e)
  next
    case (Running b)
    then obtain a where a: "state_sandbox (wk_sandbox s) = Some a" "alike a b" using u by (auto simp: unprepared_def)
    have P: "\<And>c. alike b c \<Longrightarrow> traces s ms c" using a alike_trans by (auto simp: traces_def ms)
    show ?thesis using settling_quiesce [of b "traces s ms"] P Running by (simp add: try_handle_failure_def e)
  next
    case (Trashed b)
    then show ?thesis using u by (simp add: unprepared_def)
  qed
qed

end

end
