(* ===== verification/Worker_Loop.thy ===== *)
theory Worker_Loop
  imports Worker_Inv
begin

text \<open>
  The control messages, one turn of the loop of a worker, and the runs of a worker task: which states
  the head of the loop sees, what each turn tells the pool, and how the task ends.
\<close>

section \<open>The protocol of one turn\<close>

text \<open>
  What a worker tells the pool in one turn: the id of a sandbox that it has just created, and then
  the one answer that the message it handles calls for. A shutdown or a destruction has no answer:
  the worker leaves the loop.
\<close>

definition turn_protocol ::
  "worker_id \<Rightarrow> function_id \<Rightarrow> worker_input \<Rightarrow> worker_step \<Rightarrow> outbound_message list \<Rightarrow> bool" where
  "turn_protocol w fid inp st ms \<longleftrightarrow>
     (\<exists>ann rest. ms = ann @ rest \<and> (ann = [] \<or> (\<exists>sid. ann = [MsgSandboxId w sid])) \<and>
       (case inp of
          RecvInvocation (Some _) \<Rightarrow> rest = (if st = Continue then [MsgNeedWork w fid] else [])
        | RecvControl (Some (CtlPrepareSandbox _)) \<Rightarrow>
            (\<exists>res. rest = [MsgSandboxPreparation \<lparr>pr_worker_id = w, pr_function_id = fid, pr_result = res\<rparr>]
               \<and> (st = Continue \<longleftrightarrow> \<not> isl res))
        | RecvControl (Some (CtlCreateSnapshot _)) \<Rightarrow>
            st = Continue \<and> ann = [] \<and> (\<exists>sid res. rest = [MsgSnapshotCreation
              \<lparr>sr_worker_id = w, sr_function_id = fid, sr_sandbox_id = sid, sr_result = res\<rparr>])
        | _ \<Rightarrow> st \<noteq> Continue \<and> ann = [] \<and> rest = []))"

lemma turn_protocol_prep:
  assumes "ann = [] \<or> (\<exists>sid. ann = [MsgSandboxId w sid])" and "st = Continue \<longleftrightarrow> \<not> isl res"
  shows "turn_protocol w fid (RecvControl (Some (CtlPrepareSandbox cpu))) st
    (ann @ [MsgSandboxPreparation \<lparr>pr_worker_id = w, pr_function_id = fid, pr_result = res\<rparr>])"
  unfolding turn_protocol_def
  by (rule exI [of _ ann], rule exI, rule conjI, rule refl) (use assms in simp)

text \<open>The sandbox id that the pool has on record: the one of the snapshot that the worker was given, or
  the last one that the worker has announced.\<close>

fun known_id :: "sandbox_id option \<Rightarrow> outbound_message list \<Rightarrow> sandbox_id option" where
  "known_id i [] = i"
| "known_id i (MsgSandboxId _ sid # ms) = known_id (Some sid) ms"
| "known_id i (_ # ms) = known_id i ms"

lemma known_id_append: "known_id i (ms @ ms') = known_id (known_id i ms) ms'"
  by (induction i ms rule: known_id.induct) simp_all

abbreviation silent :: "outbound_message list \<Rightarrow> bool" where
  "silent ms \<equiv> known_id None ms = None"

lemma known_id_Some: "known_id (Some i) ms \<noteq> None"
  by (induction "Some i" ms arbitrary: i rule: known_id.induct) simp_all

lemma known_id_silent: "silent ms \<Longrightarrow> known_id i ms = i"
proof (induction ms arbitrary: i)
  case (Cons m ms)
  then show ?case using known_id_Some by (cases m) auto
qed simp

definition slots_of :: "worker_input \<Rightarrow> nat" where
  "slots_of inp = (case inp of RecvInvocation (Some _) \<Rightarrow> 1 | _ \<Rightarrow> 0)"

fun is_snapshot_request :: "worker_input \<Rightarrow> bool" where
  "is_snapshot_request (RecvControl (Some (CtlCreateSnapshot _))) = True"
| "is_snapshot_request _ = False"

text \<open>The channels of a worker stay open as long as the pool keeps its handle.\<close>

fun channel_open :: "worker_input \<Rightarrow> bool" where
  "channel_open (RecvInvocation io) = (io \<noteq> None)"
| "channel_open (RecvControl co) = (co \<noteq> None)"

text \<open>Where a turn may take the sandbox.\<close>

definition fsm_turn :: "sandbox_state_ref \<Rightarrow> worker_input \<Rightarrow> worker_step \<Rightarrow> sandbox_state_ref \<Rightarrow> bool" where
  "fsm_turn st inp step st' =
     (case step of
        Continue \<Rightarrow> st' = (if is_snapshot_request inp then st else RefPaused)
      | Break None \<Rightarrow> st' = RefNonexistent \<or> st' = RefSnapshot
      | Break (Some _) \<Rightarrow> st' = RefNonexistent \<or> st' = RefTrashed)"

section \<open>Control messages\<close>

context sandbox_runtime
begin

lemma wwp_handle_prepare:
  assumes h: "at_head s"
  defines "prep \<equiv> \<lambda>res. MsgSandboxPreparation \<lparr>pr_worker_id = wk_id s, pr_function_id = wk_function_id s, pr_result = res\<rparr>"
  shows "wwp (oks s < 2) (handle_prepare_sandbox_request rt en cpu s)
    (\<lambda>e s'. \<exists>ms m. length ms \<le> 1 \<and> frame (ms @ [prep (Inl m)]) 0 [] s s' \<and> failed s e ms s')
    (\<lambda>_ s'. \<exists>ms b x. length ms \<le> 1 \<and> frame (ms @ [prep (Inr x)]) 0 [] s s' \<and> traces s ms b \<and> wk_sandbox s' = Paused b)"
proof -
  let ?E = "\<lambda>e s'. \<exists>ms m. length ms \<le> 1 \<and> frame (ms @ [prep (Inl m)]) 0 [] s s' \<and> failed s e ms s'"
  let ?Q = "\<lambda>_ s'. \<exists>ms b x. length ms \<le> 1 \<and> frame (ms @ [prep (Inr x)]) 0 [] s s' \<and> traces s ms b \<and> wk_sandbox s' = Paused b"
  have send: "wwp (oks s < 2) (send_sandbox_prep_result res u) (\<lambda>_ _. False)
      (\<lambda>_ s'. frame (ms @ [prep res]) 0 [] s s' \<and> wk_sandbox s' = wk_sandbox u)"
    if u: "frame ms 0 [] s u" "length ms \<le> 1" for res u ms
    unfolding send_sandbox_prep_result_def
  proof (rule wwp_conseq [OF wwp_send], goal_cases)
    case 1
    then show ?case using frame_static(4) [OF u(1)] u(2) by simp
  next
    case (3 x v)
    then show ?case using frame_trans [OF u(1), of _ 0 "[]" v] frame_static(1,2) [OF u(1)] by (simp add: prep_def)
  qed simp
  have refuse: "wwp (oks s < 2) (bindE (send_sandbox_prep_result (Inl m) u) (\<lambda>_ s. (Inl (WErr e), s))) ?E ?Q"
    if u: "frame ms 0 [] s u" "length ms \<le> 1" "failed s e ms u" for m u ms e
  proof -
    have "failed s e ms v" if "wk_sandbox v = wk_sandbox u" for v
      using u(3) that by (auto simp: failed_def unprepared_def)
    then show ?thesis
      unfolding wwp_bindE using u(2) by (intro wwp_conseq [OF send [OF u(1,2)]]) auto
  qed
  have report: "wwp (oks s < 2) (send_sandbox_prep_result (Inr x) u) ?E ?Q"
    if u: "frame ms 0 [] s u" "length ms \<le> 1" "traces s ms b" "wk_sandbox u = Paused b" for x u ms b
  proof (rule wwp_conseq [OF send [OF u(1,2)]], goal_cases)
    case (3 y v)
    then show ?case using u(2-4) by (intro exI [of _ ms] exI [of _ b] exI [of _ x]) simp
  qed simp_all
  have head: "at_head (clear_timings s)" and same: "unprepared (clear_timings s) = unprepared s"
      "traces (clear_timings s) = traces s"
    using h same_start [of "clear_timings s" s] by simp_all
  have "wwp (oks s < 2) (catchW (w_prepare_sandbox rt en cpu (clear_timings s))
      (\<lambda>e s. bindE (send_sandbox_prep_result (Inl (werror_text e)) s) (\<lambda>_ s. (Inl (WErr (WPrepareSandbox e)), s)))
      (\<lambda>_ s1. catchW (w_pause_sandbox rt s1)
        (\<lambda>e s. bindE (send_sandbox_prep_result (Inl (werror_text e)) s) (\<lambda>_ s. (Inl (WErr e), s)))
        (\<lambda>_ s2. case wk_sandbox s2 of
            Running sb \<Rightarrow>
              (if state_ref (wk_sandbox (s :: ('rt, 'x, 'net, 'st) worker)) = RefNonexistent \<and> wk_snap_time (s2\<lparr>wk_sandbox := Paused sb\<rparr>) = OnCreationBeforeInvoc
               then catchW (w_create_snapshot rt en (s2\<lparr>wk_sandbox := Paused sb\<rparr>))
                 (\<lambda>_. send_sandbox_prep_result (Inr (sb_id sb, rt_has_snapshot rt sb, sb_stats sb)))
                 (\<lambda>_. send_sandbox_prep_result (Inr (sb_id sb, True, sb_stats sb)))
               else send_sandbox_prep_result (Inr (sb_id sb, rt_has_snapshot rt sb, sb_stats sb)) (s2\<lparr>wk_sandbox := Paused sb\<rparr>))
          | _ \<Rightarrow> (Inl (WPanic ''Entering _handle_with_sandbox while not in SandboxState::Running''), s2)))) ?E ?Q"
    unfolding wwp_catchW [of _ "w_prepare_sandbox _ _ _ _"]
  proof (rule wwp_conseq [OF wwp_prepare [OF head]], goal_cases)
    case 1
    then show ?case by simp
  next
    case (2 e u)
    then show ?case using same by (intro refuse [of "[]"]) (auto simp: failed_def)
  next
    case (3 x u)
    then obtain ms sb where u: "frame ms 0 [] s u" "length ms \<le> 1" "traces s ms sb" "wk_sandbox u = Running sb"
      using same by auto
    show ?case
      unfolding wwp_catchW [of _ "w_pause_sandbox _ _"]
    proof (rule wwp_conseq [OF wwp_pause [OF u(4)]], goal_cases)
      case (2 e v)
      then show ?case
        using u frame_still [OF u(1)] traces_alike [OF u(3)] by (intro refuse [of ms]) (auto simp: failed_def)
    next
      case (3 y v)
      then obtain b where v: "frame ms 0 [] s v" "traces s ms b" "wk_sandbox v = Running b"
        using frame_still [OF u(1)] traces_alike [OF u(3)] by blast
      have snap: "wwp (oks s < 2) (w_create_snapshot rt en (v\<lparr>wk_sandbox := Paused b\<rparr>))
          (\<lambda>_ w. frame ms 0 [] s w \<and> (\<exists>c. traces s ms c \<and> wk_sandbox w = Paused c))
          (\<lambda>_ w. frame ms 0 [] s w \<and> (\<exists>c. traces s ms c \<and> wk_sandbox w = Paused c))"
        by (rule wwp_conseq [OF wwp_create_snapshot [of _ b]])
          (auto intro: frame_still [OF v(1)] traces_alike [OF v(2)])
      show ?case
        unfolding v(3) sandbox_state.case
        using v report [OF _ u(2)] by (auto simp: wwp_catchW intro!: wwp_conseq [OF snap])
    qed simp
  qed
  then show ?thesis unfolding handle_prepare_sandbox_request_def Let_def by simp
qed

lemma wwp_handle_snapshot:
  assumes h: "at_head s"
  shows "wwp (oks s = 0) (handle_snapshot_request rt en sid s) (\<lambda>_ _. False)
    (\<lambda>_ s'. (\<exists>i res. frame [MsgSnapshotCreation \<lparr>sr_worker_id = wk_id s, sr_function_id = wk_function_id s,
         sr_sandbox_id = i, sr_result = res\<rparr>] 0 [] s s')
       \<and> (case wk_sandbox s of Paused a \<Rightarrow> (\<exists>b. wk_sandbox s' = Paused b \<and> alike a b) | x \<Rightarrow> wk_sandbox s' = x))"
proof -
  have send: "wwp (oks s = 0) (send_snapshot_result res i u) (\<lambda>_ _. False)
      (\<lambda>_ s'. frame [MsgSnapshotCreation \<lparr>sr_worker_id = wk_id s, sr_function_id = wk_function_id s,
         sr_sandbox_id = i, sr_result = res\<rparr>] 0 [] s s' \<and> wk_sandbox s' = wk_sandbox u)"
    if u: "still s u" for res i u
    unfolding send_snapshot_result_def
    by (rule wwp_conseq [OF wwp_send]) (use u still_frame [OF u] frame_static [OF u] in auto)
  show ?thesis
  proof (cases "wk_sandbox s")
    case (Paused a)
    have snap: "wwp (oks s = 0) (w_create_snapshot rt en (clear_timings s))
        (\<lambda>_ w. still s w \<and> (\<exists>b. wk_sandbox w = Paused b \<and> alike a b))
        (\<lambda>_ w. still s w \<and> (\<exists>b. wk_sandbox w = Paused b \<and> alike a b))"
      by (rule wwp_conseq [OF wwp_create_snapshot [of _ a]]) (simp_all add: Paused)
    show ?thesis
      unfolding handle_snapshot_request_def Let_def
      using Paused by (auto simp: wwp_catchW intro!: wwp_conseq [OF snap] wwp_conseq [OF send])
  qed (use h in \<open>auto simp: handle_snapshot_request_def Let_def at_head_def intro!: wwp_conseq [OF send]\<close>)
qed

lemma wwp_shutdown:
  assumes h: "at_head s" and snap: "\<And>a. wk_sandbox s = Snapshot a \<Longrightarrow> rt_has_snapshot rt a"
  shows "wwp B (w_shutdown rt en s) (\<lambda>_. settled s (traces s []) False) (\<lambda>_. settled s (traces s []) True)"
proof (cases "wk_sandbox s")
  case (Paused a)
  show ?thesis
  proof (cases "rt_has_snapshot rt a")
    case True
    then show ?thesis
      unfolding w_shutdown_def Paused
      by (auto intro!: wwp_conseq [OF wwp_unload] simp: settled_def traces_def Paused alike_def)
  next
    case False
    then show ?thesis
      unfolding w_shutdown_def
      by (auto intro!: wwp_conseq [OF wwp_destroy] simp: Paused settled_def)
  qed
qed (use h snap in \<open>auto simp: w_shutdown_def settled_def at_head_def traces_def\<close>)

section \<open>One turn\<close>

definition head_ok :: "('rt, 'x, 'net, 'st) worker \<Rightarrow> bool" where
  "head_ok s \<longleftrightarrow> at_head s \<and> (\<forall>a. wk_sandbox s = Snapshot a \<longrightarrow> rt_has_snapshot rt a)"

text \<open>How a turn leaves the sandbox: ready for the next turn, or settled for good.\<close>

definition turned :: "worker_input \<Rightarrow> ('rt, 'x, 'net, 'st) worker \<Rightarrow> outbound_message list \<Rightarrow> worker_step \<Rightarrow> ('rt, 'x, 'net, 'st) worker \<Rightarrow> bool" where
  "turned inp s ms st s' =
     (case st of
        Continue \<Rightarrow>
          if is_snapshot_request inp
          then silent ms \<and> state_ref (wk_sandbox s') = state_ref (wk_sandbox s)
             \<and> (\<forall>b. state_sandbox (wk_sandbox s') = Some b \<longrightarrow> (\<exists>a. state_sandbox (wk_sandbox s) = Some a \<and> alike a b))
          else (\<exists>b ann rest. ms = ann @ rest \<and> silent rest \<and> traces s ann b \<and> wk_sandbox s' = Paused b)
      | Break None \<Rightarrow>
          wk_sandbox s' = Nonexistent
        \<or> (\<exists>b ann rest. ms = ann @ rest \<and> silent rest \<and> traces s ann b \<and> wk_sandbox s' = Snapshot b \<and> rt_has_snapshot rt b)
      | Break (Some _) \<Rightarrow> wk_sandbox s' = Nonexistent \<or> (\<exists>b. wk_sandbox s' = Trashed b))"

lemma turned_Continue:
  "traces s ann b \<Longrightarrow> silent rest \<Longrightarrow> wk_sandbox s' = Paused b \<Longrightarrow> \<not> is_snapshot_request inp \<Longrightarrow>
     turned inp s (ann @ rest) Continue s'"
  unfolding turned_def worker_step.case by (simp only: if_False) blast

lemma traces_ann:
  assumes "traces s ms b" and "length ms \<le> 1"
  shows "ms = [] \<or> (\<exists>sid. ms = [MsgSandboxId (wk_id s) sid])"
  using assms by (auto simp: traces_def split: option.splits)

lemma failed_ann:
  assumes "failed s e ms t" shows "ms = [] \<or> (\<exists>sid. ms = [MsgSandboxId (wk_id s) sid])"
  using assms by (auto simp: failed_def traces_def split: option.splits)

lemma wwp_worker_iter:
  assumes h: "head_ok s" and r: "resumes s" and o: "channel_open inp"
  shows "wwp (oks s < 2) (worker_iter rt en inp s) (\<lambda>_ _. False)
    (\<lambda>st s'. \<exists>ms rs. length ms \<le> 2 \<and> length rs \<le> slots_of inp \<and> (st = Continue \<longrightarrow> length rs = slots_of inp)
       \<and> frame ms (slots_of inp) rs s s' \<and> turn_protocol (wk_id s) (wk_function_id s) inp st ms \<and> turned inp s ms st s')"
    (is "wwp _ _ _ ?Q")
proof -
  have hd: "at_head s" and snap: "\<And>a. wk_sandbox s = Snapshot a \<Longrightarrow> rt_has_snapshot rt a"
    using h by (auto simp: head_ok_def)
  have entry: "\<not> (state_ref (wk_sandbox s) = RefRunning \<or> state_ref (wk_sandbox s) = RefTrashed)"
    using hd by (simp add: at_head_def)
  have recover: "wwp (oks s < 2) (bindE (try_handle_failure rt en e t) (\<lambda>ok s. (Inr (Break (if ok then None else Some e)), s)))
      (\<lambda>_ _. False) ?Q"
    if t: "failed s e ann t" "frame (ann @ rest) (slots_of inp) rs s t" "length (ann @ rest) \<le> 2" "length rs \<le> slots_of inp"
      and si: "silent rest" and p: "\<And>st. st \<noteq> Continue \<Longrightarrow> turn_protocol (wk_id s) (wk_function_id s) inp st (ann @ rest)"
    for e ann rest rs t
    unfolding wwp_bindE
  proof (rule wwp_conseq [OF settling_failure [OF t(1) snap, of _ en]], goal_cases)
    case (4 ok u)
    then have f: "frame (ann @ rest) (slots_of inp) rs s u" using frame_still [OF t(2)] by (simp add: settled_def)
    have "turned inp s (ann @ rest) (Break (if ok then None else Some e)) u"
      using 4 si by (cases ok) (auto simp: turned_def settled_def)
    then show ?case
      unfolding wwp_simps using f t(3,4) p by (intro exI [of _ "ann @ rest"] exI [of _ rs]) simp
  qed auto
  have leave: "wwp (oks s < 2) (catchW rr (\<lambda>e s. (Inr (Break (Some e)), s)) (\<lambda>_ s. (Inr (Break None), s))) (\<lambda>_ _. False) ?Q"
    if w: "wwp (oks s < 2) rr (\<lambda>_. settled s (traces s []) False) (\<lambda>_. settled s (traces s []) True)"
      and p: "\<And>st. st \<noteq> Continue \<Longrightarrow> turn_protocol (wk_id s) (wk_function_id s) inp st []" and z: "slots_of inp = 0"
    for rr :: "('rt, 'x, 'net, 'st, unit) wresult"
    unfolding wwp_catchW
    by (rule wwp_conseq [OF w]) (auto simp: settled_def turned_def z intro!: exI [of _ "[]"] p)
  show ?thesis
  proof (cases inp)
    case (RecvInvocation io)
    then obtain iv where inp: "inp = RecvInvocation (Some iv)" using o by (cases io) simp_all
    show ?thesis
      unfolding worker_iter_def Let_def if_not_P [OF entry] inp worker_input.case option.case wwp_catchW
      unfolding inp [symmetric]
    proof (rule wwp_conseq [OF wwp_handle_request [OF hd r]], goal_cases)
      case (2 e t)
      then obtain ann rs where "length ann \<le> 1" "length rs \<le> 1" "frame ann 1 rs s t" "failed s e ann t" by blast
      then show ?case
        using failed_ann by (intro recover [of e ann t "[]" rs]) (auto simp: slots_of_def turn_protocol_def inp)
    next
      case (3 x t)
      then obtain ann rsp b where t: "length ann \<le> 1" "frame (ann @ [MsgNeedWork (wk_id s) (wk_function_id s)]) 1 [rsp] s t"
        "traces s ann b" "wk_sandbox t = Paused b" by blast
      have "turn_protocol (wk_id s) (wk_function_id s) inp Continue (ann @ [MsgNeedWork (wk_id s) (wk_function_id s)])"
        using traces_ann [OF t(3,1)] by (auto simp: turn_protocol_def inp)
      moreover have "turned inp s (ann @ [MsgNeedWork (wk_id s) (wk_function_id s)]) Continue t"
        using t by (intro turned_Continue) (simp_all add: inp)
      ultimately show ?case
        unfolding wwp_simps using t
        by (intro exI [of _ "ann @ [MsgNeedWork (wk_id s) (wk_function_id s)]"] exI [of _ "[rsp]"])
          (simp add: slots_of_def inp)
    qed simp
  next
    case (RecvControl co)
    then obtain c where inp: "inp = RecvControl (Some c)" using o by (cases co) simp_all
    show ?thesis
    proof (cases c)
      case CtlShutDown
      show ?thesis
        unfolding worker_iter_def Let_def if_not_P [OF entry] inp worker_input.case option.case CtlShutDown control_message.case
        unfolding inp [symmetric] CtlShutDown [symmetric]
        by (rule leave [OF wwp_shutdown [OF hd snap]]) (simp_all add: turn_protocol_def inp CtlShutDown slots_of_def)
    next
      case CtlDestroySandbox
      have d: "wwp (oks s < 2) (w_destroy_sandbox rt en s) (\<lambda>_. settled s (traces s []) False) (\<lambda>_. settled s (traces s []) True)"
        by (rule wwp_conseq [OF wwp_destroy]) (use entry in \<open>auto simp: settled_def\<close>)
      show ?thesis
        unfolding worker_iter_def Let_def if_not_P [OF entry] inp worker_input.case option.case CtlDestroySandbox control_message.case
        unfolding inp [symmetric] CtlDestroySandbox [symmetric]
        by (rule leave [OF d]) (simp_all add: turn_protocol_def inp CtlDestroySandbox slots_of_def)
    next
      case (CtlPrepareSandbox cpu)
      show ?thesis
        unfolding worker_iter_def Let_def if_not_P [OF entry] inp worker_input.case option.case CtlPrepareSandbox control_message.case wwp_catchW
        unfolding inp [symmetric] CtlPrepareSandbox [symmetric]
      proof (rule wwp_conseq [OF wwp_handle_prepare [OF hd]], goal_cases)
        case (2 e t)
        then obtain ann m where "length ann \<le> 1" "failed s e ann t" and
          "frame (ann @ [MsgSandboxPreparation \<lparr>pr_worker_id = wk_id s, pr_function_id = wk_function_id s, pr_result = Inl m\<rparr>]) 0 [] s t"
          by blast
        then show ?case
          using failed_ann [of s e ann t]
          by (intro recover [of e ann t "[MsgSandboxPreparation \<lparr>pr_worker_id = wk_id s, pr_function_id = wk_function_id s, pr_result = Inl m\<rparr>]" "[]"])
            (auto simp: slots_of_def inp CtlPrepareSandbox simp del: append_Nil append_Cons intro!: turn_protocol_prep)
      next
        case (3 x t)
        then obtain ann b y where t: "length ann \<le> 1" "traces s ann b" "wk_sandbox t = Paused b" and
          f: "frame (ann @ [MsgSandboxPreparation \<lparr>pr_worker_id = wk_id s, pr_function_id = wk_function_id s, pr_result = Inr y\<rparr>]) 0 [] s t"
          by blast
        have "turn_protocol (wk_id s) (wk_function_id s) inp Continue
            (ann @ [MsgSandboxPreparation \<lparr>pr_worker_id = wk_id s, pr_function_id = wk_function_id s, pr_result = Inr y\<rparr>])"
          unfolding inp CtlPrepareSandbox using traces_ann [OF t(2,1)] by (rule turn_protocol_prep) simp
        moreover have "turned inp s (ann @ [MsgSandboxPreparation \<lparr>pr_worker_id = wk_id s, pr_function_id = wk_function_id s, pr_result = Inr y\<rparr>]) Continue t"
          using t by (intro turned_Continue) (simp_all add: inp CtlPrepareSandbox)
        ultimately show ?case
          unfolding wwp_simps using t f
          by (intro exI [of _ "ann @ [MsgSandboxPreparation \<lparr>pr_worker_id = wk_id s, pr_function_id = wk_function_id s, pr_result = Inr y\<rparr>]"]
              exI [of _ "[]"]) (simp add: slots_of_def inp)
      qed simp
    next
      case (CtlCreateSnapshot sid)
      show ?thesis
        unfolding worker_iter_def Let_def if_not_P [OF entry] inp worker_input.case option.case CtlCreateSnapshot control_message.case wwp_bindE
        unfolding inp [symmetric] CtlCreateSnapshot [symmetric]
      proof (rule wwp_conseq [OF wwp_handle_snapshot [OF hd]], goal_cases)
        case (3 x t)
        then obtain i res where f: "frame [MsgSnapshotCreation \<lparr>sr_worker_id = wk_id s, sr_function_id = wk_function_id s,
            sr_sandbox_id = i, sr_result = res\<rparr>] 0 [] s t" (is "frame [?m] _ _ _ _") by blast
        have "turned inp s [?m] Continue t"
          using 3 hd by (cases "wk_sandbox s") (auto simp: turned_def traces_def at_head_def inp CtlCreateSnapshot)
        moreover have "turn_protocol (wk_id s) (wk_function_id s) inp Continue [?m]"
          by (simp add: turn_protocol_def inp CtlCreateSnapshot)
        ultimately show ?case
          unfolding wwp_simps using f by (intro exI [of _ "[?m]"] exI [of _ "[]"]) (simp add: slots_of_def inp)
      qed auto
    qed
  qed
qed

section \<open>Leaving\<close>

lemma wwp_uncache:
  assumes "wk_sandbox s = Nonexistent \<or> (\<exists>b. wk_sandbox s = Snapshot b \<and> rt_has_snapshot rt b)"
  shows "wwp B (w_uncache_sandbox rt s) (\<lambda>_ _. False)
    (\<lambda>_ s'. still s s' \<and> (case wk_sandbox s of Snapshot a \<Rightarrow> (\<exists>b. wk_sandbox s' = Snapshot b \<and> alike a b)
        | x \<Rightarrow> wk_sandbox s' = x))"
proof (cases "wk_sandbox s")
  case (Snapshot b)
  have h: "rt_has_snapshot rt b" using assms Snapshot by simp
  show ?thesis
    unfolding w_uncache_sandbox_def Snapshot sandbox_state.case if_P [OF h] wwp_catchW
    by (rule wwp_conseq [OF wwp_rt_on [OF keeps(5)]]) auto
qed (use assms in \<open>auto simp: w_uncache_sandbox_def\<close>)

text \<open>A worker that leaves without an error gives back nothing or a sandbox with a snapshot.\<close>

definition gives_back :: "('x sandbox_scheme \<Rightarrow> bool) \<Rightarrow> 'x wexit \<Rightarrow> bool" where
  "gives_back P ex =
     (case snd ex of
        WExitNone \<Rightarrow> True
      | WExitReusable b \<Rightarrow> rt_has_snapshot rt b \<and> P b
      | WExitTrashed _ \<Rightarrow> fst ex \<noteq> None)"

lemma wwp_leave:
  assumes "case status of
      None \<Rightarrow> wk_sandbox s = Nonexistent \<or> (\<exists>b. wk_sandbox s = Snapshot b \<and> rt_has_snapshot rt b \<and> P b)
    | Some _ \<Rightarrow> (\<forall>b. wk_sandbox s = Snapshot b \<longrightarrow> rt_has_snapshot rt b \<and> P b)"
    and P: "\<And>a b. alike a b \<Longrightarrow> P a \<Longrightarrow> P b"
  shows "wwp (oks s = 0) (worker_leave rt status s) (\<lambda>_ _. False)
    (\<lambda>ex s'. frame [MsgReapMe (wk_id s) (wk_function_id s)] 0 [] s s' \<and> fst ex = status \<and> gives_back P ex)"
  unfolding worker_leave_def send_reap_me_def Let_def wwp_bindE [of _ "retry_send_to_pool _ _"]
proof (rule wwp_conseq [OF wwp_send], goal_cases)
  case (3 x t)
  then have f: "frame [MsgReapMe (wk_id s) (wk_function_id s)] 0 [] s t" and t: "wk_sandbox t = wk_sandbox s" by auto
  show ?case
  proof (cases status)
    case (Some e)
    then show ?thesis
      using f t assms(1) by (cases "wk_sandbox s") (auto simp: gives_back_def)
  next
    case None
    then have n: "wk_sandbox t = Nonexistent \<or> (\<exists>b. wk_sandbox t = Snapshot b \<and> rt_has_snapshot rt b)"
      using assms(1) t by auto
    show ?thesis
      unfolding None option.case wwp_bindE
    proof (rule wwp_conseq [OF wwp_uncache [OF n]], goal_cases)
      case (3 y u)
      then show ?case
        using frame_still [OF f] None assms(1) t P
        by (cases "wk_sandbox s") (auto simp: gives_back_def alike_def)
    qed simp_all
  qed
qed simp_all

end

section \<open>Runs of a task\<close>

abbreviation is_reap_me :: "outbound_message \<Rightarrow> bool" where
  "is_reap_me m \<equiv> (case m of MsgReapMe _ _ \<Rightarrow> True | _ \<Rightarrow> False)"

lemma turn_protocol_no_reap:
  assumes "turn_protocol w fid inp st ms" shows "\<not> list_ex is_reap_me ms"
proof -
  obtain ann rest where ms: "ms = ann @ rest" "ann = [] \<or> (\<exists>sid. ann = [MsgSandboxId w sid])"
    and r: "case inp of
        RecvInvocation (Some _) \<Rightarrow> rest = (if st = Continue then [MsgNeedWork w fid] else [])
      | RecvControl (Some (CtlPrepareSandbox _)) \<Rightarrow> (\<exists>res. rest = [MsgSandboxPreparation res])
      | RecvControl (Some (CtlCreateSnapshot _)) \<Rightarrow> (\<exists>res. rest = [MsgSnapshotCreation res])
      | _ \<Rightarrow> rest = []"
    using assms unfolding turn_protocol_def
    by (elim exE conjE) (auto split: worker_input.splits option.splits control_message.splits)
  have "\<not> list_ex is_reap_me rest"
    using r by (auto split: worker_input.splits option.splits control_message.splits if_splits)
  then show ?thesis using ms by auto
qed

context sandbox_runtime
begin

text \<open>The invariant of a task that was spawned as \<open>w\<close> for \<open>fid\<close> with the sandbox id \<open>i\<close>.\<close>

definition task_ok :: "worker_id \<Rightarrow> function_id \<Rightarrow> sandbox_id option \<Rightarrow> ('rt, 'x, 'net, 'st) wtask \<Rightarrow> bool" where
  "task_ok w fid i t =
     (let s = tk_worker t; ms = pool_msgs (wk_out s) in
      \<not> tk_closed t \<and>
      (case tk_phase t of
         Exited ex \<Rightarrow>
           gives_back (\<lambda>b. known_id i ms = Some (sb_id b)) ex
         \<and> (\<exists>ms'. ms = ms' @ [MsgReapMe w fid] \<and> \<not> list_ex is_reap_me ms')
       | Crashed _ \<Rightarrow> False
       | Blocked \<Rightarrow> True
       | _ \<Rightarrow> wk_id s = w \<and> wk_function_id s = fid \<and> head_ok s \<and> resumes s \<and> \<not> list_ex is_reap_me ms
            \<and> (\<forall>sid. state_id (wk_sandbox s) = Some sid \<longrightarrow> known_id i ms = Some sid)))"

text \<open>The id of the sandbox that a turn ends with is the one the pool knows after it.\<close>

lemma traces_known:
  assumes "traces s ann b" "silent rest" and "\<forall>sid. state_id (wk_sandbox s) = Some sid \<longrightarrow> k = Some sid"
  shows "known_id k (ann @ rest) = Some (sb_id b)"
  using assms
  by (auto simp: traces_def state_id_def alike_def known_id_append known_id_silent split: option.splits)

lemma task_ok_start:
  assumes ok: "task_ok w fid i t" and ph: "tk_phase t = Starting"
  shows "task_ok w fid i (worker_start rt t)"
proof -
  define s where "s = tk_worker t"
  have k: "\<forall>sid. state_id (wk_sandbox s) = Some sid \<longrightarrow> known_id i (pool_msgs (wk_out s)) = Some sid"
    and h: "head_ok s" and n: "\<not> list_ex is_reap_me (pool_msgs (wk_out s))" and c: "\<not> tk_closed t" "resumes s"
      "wk_id s = w" "wk_function_id s = fid"
    using ok ph by (simp_all add: task_ok_def Let_def s_def)
  obtain res r where r: "rt_init rt (wk_runtime s) = (res, r)" by (cases "rt_init rt (wk_runtime s)")
  show ?thesis
  proof (cases res)
    case (Inr u)
    then show ?thesis
      using r k h n c by (simp add: worker_start_def task_ok_def Let_def head_ok_def at_head_def resumes_def flip: s_def)
  next
    case (Inl e)
    let ?P = "\<lambda>b. known_id i (pool_msgs (wk_out s)) = Some (sb_id b)"
    have "wwp (oks s = 0) (worker_leave rt (Some (WInit ''runtime initialization'')) (s\<lparr>wk_runtime := r\<rparr>)) (\<lambda>_ _. False)
        (\<lambda>ex s'. frame [MsgReapMe (wk_id s) (wk_function_id s)] 0 [] s s' \<and> fst ex = Some (WInit ''runtime initialization'') \<and> gives_back ?P ex)"
      by (rule wwp_conseq [OF wwp_leave [where P = ?P]])
        (use k h in \<open>auto simp: head_ok_def state_id_def alike_def\<close>)
    then show ?thesis
      using r Inl n c
      by (auto simp: worker_start_def settle_def task_ok_def Let_def wwp_iff frame_def known_id_append resumes_def simp flip: s_def)
  qed
qed

lemma task_ok_turn:
  assumes ok: "task_ok w fid i t" and ph: "tk_phase t = Looping"
  shows "task_ok w fid i (worker_turn rt en t)"
proof (cases "worker_select t")
  case None
  then show ?thesis using ok by (simp add: worker_turn_def)
next
  case (Some p)
  then obtain inp t' where sel: "worker_select t = Some (inp, t')" by (cases p) simp
  define s where "s = tk_worker t"
  define k where "k = known_id i (pool_msgs (wk_out s))"
  have t': "tk_worker t' = s" "\<not> tk_closed t'" and o: "channel_open inp"
    using sel ok by (auto simp: worker_select_def task_ok_def Let_def s_def split: list.splits if_splits)
  have kn: "\<forall>sid. state_id (wk_sandbox s) = Some sid \<longrightarrow> k = Some sid"
    and h: "head_ok s" and n: "\<not> list_ex is_reap_me (pool_msgs (wk_out s))" and r: "resumes s"
    and id: "wk_id s = w" "wk_function_id s = fid"
    using ok ph by (simp_all add: task_ok_def Let_def s_def k_def)
  let ?Q = "\<lambda>ph u. task_ok w fid i (t'\<lparr>tk_phase := ph, tk_worker := u\<rparr>)"
  have "wwp True (bindE (worker_iter rt en inp s) (\<lambda>st s. case st of
        Continue \<Rightarrow> (Inr Looping, s)
      | Break status \<Rightarrow> bindE (worker_leave rt status s) (\<lambda>ex s. (Inr (Exited ex), s)))) (\<lambda>_ _. False) ?Q"
    unfolding wwp_bindE [of _ "worker_iter rt en inp s"]
  proof (rule wwp_conseq [OF wwp_worker_iter [OF h r o]], goal_cases)
    case (3 st u)
    then obtain ms rs where f: "frame ms (slots_of inp) rs s u" and tu: "turned inp s ms st u"
      and pr: "turn_protocol (wk_id s) (wk_function_id s) inp st ms" by blast
    have nu: "\<not> list_ex is_reap_me (pool_msgs (wk_out u))"
      using n f turn_protocol_no_reap [OF pr] by (simp add: frame_def)
    have ru: "resumes u" and iu: "wk_id u = w" "wk_function_id u = fid"
      using r id frame_static [OF f] by (simp_all add: resumes_def)
    have ku: "known_id i (pool_msgs (wk_out u)) = known_id k ms"
      using f by (simp add: frame_def k_def known_id_append)
    show ?case
    proof (cases st)
      case Continue
      then have "head_ok u \<and> (\<forall>sid. state_id (wk_sandbox u) = Some sid \<longrightarrow> known_id k ms = Some sid)"
        using tu h kn traces_known [OF _ _ kn]
        by (cases "is_snapshot_request inp"; cases "wk_sandbox u"; cases "wk_sandbox s")
          (auto simp: turned_def head_ok_def at_head_def known_id_silent state_id_def alike_def)
      then show ?thesis using Continue nu ru iu ku t' by (simp add: task_ok_def Let_def)
    next
      case (Break status)
      let ?P = "\<lambda>b. known_id k ms = Some (sb_id b)"
      have "wwp True (worker_leave rt status u) (\<lambda>_ _. False)
          (\<lambda>ex v. frame [MsgReapMe (wk_id u) (wk_function_id u)] 0 [] u v \<and> fst ex = status \<and> gives_back ?P ex)"
        by (rule wwp_conseq [OF wwp_leave [where P = ?P]])
          (use tu Break traces_known [OF _ _ kn] in \<open>auto simp: turned_def alike_def split: option.splits\<close>)
      then show ?thesis
        unfolding Break worker_step.case wwp_bindE
      proof (rule wwp_conseq, goal_cases)
        case (3 ex v)
        then show ?case
          using nu iu ku t' by (auto simp: task_ok_def Let_def frame_def known_id_append resumes_def)
      qed simp_all
    qed
  qed simp_all
  moreover have "task_ok w fid i (t'\<lparr>tk_phase := Blocked, tk_worker := u\<rparr>)" for u
    using t' by (simp add: task_ok_def)
  ultimately show ?thesis
    by (auto simp: worker_turn_def sel t'(1) wwp_iff settle_def)
qed

lemma task_ok_step: "task_step rt E t t' \<Longrightarrow> task_ok w fid i t \<Longrightarrow> task_ok w fid i t'"
proof (induction rule: task_step.induct)
  case (start t)
  then show ?case by (intro task_ok_start)
next
  case (turn t en)
  then show ?case by (intro task_ok_turn)
qed (auto simp: task_ok_def Let_def)

lemma task_ok_run: "(task_step rt E)\<^sup>*\<^sup>* t t' \<Longrightarrow> task_ok w fid i t \<Longrightarrow> task_ok w fid i t'"
  by (induction rule: rtranclp_induct) (auto intro: task_ok_step)

lemma task_ok_spawn:
  assumes "worker_spawn w fid sct tmo chan newrt newiss sb = Inr t" and "\<forall>b. sb = Some b \<longrightarrow> rt_has_snapshot rt b"
    and "sct = OnCreationBeforeInvoc \<longrightarrow> (\<forall>sb r. \<exists>sb' r'. rt_resume_sandbox rt sb r = (Inr (), sb', r'))"
  shows "task_ok w fid (map_option sb_id sb) t"
  using assms
  by (auto simp: worker_spawn_def task_ok_def Let_def head_ok_def at_head_def resumes_def state_of_option_def
      state_id_def split: sum.splits option.splits)

text \<open>A turn comes to an end when the pool takes three messages.\<close>

lemma turn_returns:
  assumes ok: "task_ok w fid i t" and ph: "tk_phase t = Looping" and c: "3 \<le> oks (tk_worker t)"
  shows "tk_phase (worker_turn rt en t) \<noteq> Blocked"
proof (cases "worker_select t")
  case None
  then show ?thesis using ph by (simp add: worker_turn_def)
next
  case (Some p)
  then obtain inp t' where sel: "worker_select t = Some (inp, t')" by (cases p) simp
  define s where "s = tk_worker t"
  have t': "tk_worker t' = s" and o: "channel_open inp"
    using sel ok by (auto simp: worker_select_def task_ok_def Let_def s_def split: list.splits if_splits)
  have h: "head_ok s" and r: "resumes s" using ok ph by (simp_all add: task_ok_def Let_def s_def)
  have "wwp False (bindE (worker_iter rt en inp s) (\<lambda>st s. case st of
        Continue \<Rightarrow> (Inr Looping, s)
      | Break status \<Rightarrow> bindE (worker_leave rt status s) (\<lambda>ex s. (Inr (Exited ex), s)))) (\<lambda>_ _. False) (\<lambda>ph _. ph \<noteq> Blocked)"
    unfolding wwp_bindE [of _ "worker_iter rt en inp s"]
  proof (rule wwp_conseq [OF wwp_worker_iter [OF h r o]], goal_cases)
    case (3 st u)
    then obtain ms rs where f: "frame ms (slots_of inp) rs s u" "length ms \<le> 2" and tu: "turned inp s ms st u" by blast
    have u: "oks u \<noteq> 0" using frame_static(4) [OF f(1)] f(2) c by (simp add: s_def)
    show ?case
    proof (cases st)
      case (Break status)
      have "wwp (oks u = 0) (worker_leave rt status u) (\<lambda>_ _. False)
          (\<lambda>ex v. frame [MsgReapMe (wk_id u) (wk_function_id u)] 0 [] u v \<and> fst ex = status \<and> gives_back (\<lambda>_. True) ex)"
        by (rule wwp_leave) (use tu Break in \<open>auto simp: turned_def split: option.splits\<close>)
      then show ?thesis
        unfolding Break worker_step.case wwp_bindE by (rule wwp_conseq) (use u in simp_all)
    qed simp
  qed (use c in \<open>simp_all add: s_def\<close>)
  then show ?thesis by (auto simp: worker_turn_def sel t' wwp_iff settle_def)
qed

lemma turn_ready:
  assumes ok: "task_ok w fid i t" and ph: "tk_phase t = Looping" and sel: "worker_select t = Some (inp, t')"
  shows "head_ok (tk_worker t)" "resumes (tk_worker t)" "channel_open inp" "tk_worker t' = tk_worker t"
    "wk_id (tk_worker t) = w" "wk_function_id (tk_worker t) = fid"
  using sel ok ph
  by (auto simp: worker_select_def task_ok_def Let_def split: list.splits if_splits)

lemma turn_typestate:
  assumes "task_ok w fid i t" "tk_phase t = Looping" "worker_select t = Some (inp, t')"
    and it: "worker_iter rt en inp (tk_worker t') = (Inr step, s')"
  shows "state_ref (wk_sandbox (tk_worker t)) \<in> {RefNonexistent, RefPaused, RefSnapshot}
    \<and> fsm_turn (state_ref (wk_sandbox (tk_worker t))) inp step (state_ref (wk_sandbox s'))"
proof
  note h = turn_ready [OF assms(1-3)]
  show "state_ref (wk_sandbox (tk_worker t)) \<in> {RefNonexistent, RefPaused, RefSnapshot}"
    using h(1) by (cases "wk_sandbox (tk_worker t)") (simp_all add: head_ok_def at_head_def)
  obtain ms where "turned inp (tk_worker t) ms step s'"
    using wwp_worker_iter [OF h(1-3), of en] it h(4) by auto
  then show "fsm_turn (state_ref (wk_sandbox (tk_worker t))) inp step (state_ref (wk_sandbox s'))"
    by (cases step) (auto simp: fsm_turn_def turned_def split: option.splits if_splits)
qed

lemma turn_messages:
  assumes "task_ok w fid i t" "tk_phase t = Looping" "worker_select t = Some (inp, t')"
    and it: "worker_iter rt en inp (tk_worker t') = (Inr step, s')"
  shows "\<exists>ms rs. pool_msgs (wk_out s') = pool_msgs (wk_out (tk_worker t)) @ ms
    \<and> turn_protocol w fid inp step ms
    \<and> releases (wk_out s') = releases (wk_out (tk_worker t)) + slots_of inp
    \<and> responses (wk_out s') = responses (wk_out (tk_worker t)) @ rs
    \<and> length rs \<le> slots_of inp \<and> (step = Continue \<longrightarrow> length rs = slots_of inp)"
proof -
  note h = turn_ready [OF assms(1-3)]
  obtain ms rs where "frame ms (slots_of inp) rs (tk_worker t) s'" "turn_protocol w fid inp step ms"
    "length rs \<le> slots_of inp" "step = Continue \<longrightarrow> length rs = slots_of inp"
    using wwp_worker_iter [OF h(1-3), of en] it h(4-6) by auto
  then show ?thesis by (intro exI [of _ ms] exI [of _ rs]) (simp add: frame_def)
qed

end

end
