(* ===== verification/Worker_Props.thy ===== *)
theory Worker_Props
  imports Worker_Loop Pool_Props
begin

text \<open>
  The runtime \<^verbatim>\<open>worker/runtime/toy/noop/mod.rs\<close> as an instance of the contract of runtimes, and the
  properties of a worker task: it never panics, every turn follows the protocol that the pool
  expects, and what it gives back at its end is what the pool relies on when it reaps it.
\<close>

section \<open>The no-op runtime\<close>

text \<open>The sandboxes carry the id of their function. The state of the runtime is the counter
  \<^verbatim>\<open>NEXT_ID\<close>; \<open>d\<close> is the time that a creation takes.\<close>

record noop_sandbox = sandbox +
  nb_function_id :: function_id

definition noop_id :: "32 word \<Rightarrow> sandbox_id" where
  "noop_id n = (let ds = show_nat (unat n) in replicate (24 - length ds) CHR ''0'' @ ds)"

definition noop_create :: "duration \<Rightarrow> function_id \<Rightarrow> unit \<Rightarrow> timings \<Rightarrow> 32 word
    \<Rightarrow> (string + noop_sandbox) \<times> timings \<times> 32 word" where
  "noop_create d fid net tm n =
     (Inr \<lparr>sb_id = noop_id n, sb_stats = \<lparr>sb_invocations = 0, sb_restorations = 0\<rparr>, nb_function_id = fid\<rparr>,
      tm(T_CreateSandbox := of_nat d), n + 1)"

definition noop_ok :: "noop_sandbox \<Rightarrow> 32 word \<Rightarrow> (string + unit) \<times> noop_sandbox \<times> 32 word" where
  "noop_ok sb n = (Inr (), sb, n)"

definition noop_rt :: "duration \<Rightarrow> (32 word, \<lparr>nb_function_id :: function_id\<rparr>, unit, noop_sandbox) runtime_ops" where
  "noop_rt d =
     \<lparr>rt_init = (\<lambda>n. (Inr (), n)), rt_create_sandbox = noop_create d, rt_load_sandbox = noop_ok,
      rt_pause_sandbox = noop_ok, rt_resume_sandbox = noop_ok, rt_create_snapshot = (\<lambda>_ _. noop_ok),
      rt_shutdown_sandbox = noop_ok, rt_destroy_sandbox = (\<lambda>_ n. (Inr (), n)),
      rt_setup_cpuset = (\<lambda>_. noop_ok), rt_uncache_sandbox = noop_ok,
      rt_has_snapshot = (\<lambda>_. False), rt_snapshot_state = (\<lambda>_. None)\<rparr>"

interpretation noop: sandbox_runtime "noop_rt d" for d
  by unfold_locales (auto simp: noop_rt_def noop_ok_def)

section \<open>Workers that the pool spawns\<close>

text \<open>The pool gives a worker no sandbox or one with a snapshot; \<open>E\<close> is what the surroundings may do.\<close>

definition worker_reaches ::
  "('rt, 'x, 'net, 'st) runtime_ops \<Rightarrow> ('net wenv \<Rightarrow> bool) \<Rightarrow> worker_id \<Rightarrow> function_id
    \<Rightarrow> snapshot_creation_time \<Rightarrow> 'x sandbox_scheme option \<Rightarrow> ('rt, 'x, 'net, 'st) wtask \<Rightarrow> bool" where
  "worker_reaches rt E w fid sct sb t \<longleftrightarrow>
     (\<forall>b. sb = Some b \<longrightarrow> rt_has_snapshot rt b)
   \<and> (\<exists>tmo chan r0 t0. worker_spawn w fid sct tmo chan (Inr r0) (Inr ()) sb = Inr t0 \<and> (task_step rt E)\<^sup>*\<^sup>* t0 t)"

text \<open>With a snapshot before the first invocation, the worker relies on a resume that does not fail.\<close>

definition resume_total :: "('rt, 'x, 'net, 'st) runtime_ops \<Rightarrow> snapshot_creation_time \<Rightarrow> bool" where
  "resume_total rt sct \<longleftrightarrow> sct = OnCreationBeforeInvoc \<longrightarrow>
     (\<forall>sb r. \<exists>sb' r'. rt_resume_sandbox rt sb r = (Inr (), sb', r'))"

lemma worker_reaches_ok:
  assumes "sandbox_runtime rt" "worker_reaches rt E w fid sct sb t" "resume_total rt sct"
  shows "sandbox_runtime.task_ok rt w fid (map_option sb_id sb) t"
  using assms sandbox_runtime.task_ok_run [OF assms(1)] sandbox_runtime.task_ok_spawn [OF assms(1)]
  unfolding worker_reaches_def resume_total_def by blast

section \<open>A concrete worker\<close>

text \<open>Surroundings in which everything works: the network and the snapshot manager answer, the function
  responds at once. The snapshot manager declines to place a snapshot.\<close>

definition fine_env :: "unit wenv" where
  "fine_env =
     \<lparr>en_net_alloc = NetOk (), en_net_dealloc_ok = True, en_monitor_ok = True,
      en_issue = IssOk \<lparr>wr_invocation_id = ''i1'', wr_code = 0, wr_metadata = Map.empty, wr_payload = []\<rparr> 0 0,
      en_make_response = (\<lambda>_ _ _ _ _. Inl ''none''), en_metadata_value_ok = (\<lambda>_. True), en_sink = (\<lambda>_. SendOk),
      en_query_paths = Inr None, en_notify_new_ok = True, en_notify_removal_ok = True, en_elapsed = (\<lambda>_. 1)\<rparr>"

definition first_invocation :: winvocation where
  "first_invocation =
     \<lparr>wi_req = \<lparr>invocation_id = ''i1'', rq_function_id = ''f'', rq_metadata = Map.empty\<rparr>,
      wi_acquired_ns = 5, wi_cpuset = 0\<rparr>"

definition new_task :: "snapshot_creation_time \<Rightarrow> (32 word, \<lparr>nb_function_id :: function_id\<rparr>, unit, noop_sandbox) wtask" where
  "new_task sct =
     \<lparr>tk_phase = Starting,
      tk_worker = \<lparr>wk_id = 7, wk_function_id = ''f'', wk_snap_time = sct, wk_sandbox = Nonexistent,
        wk_timings = (\<lambda>_. 0), wk_issuer_timeout = 100, wk_runtime = 0,
        wk_pool_chan = [SendOk, SendTimeout, SendOk, SendOk], wk_out = []\<rparr>,
      tk_invocations = [], tk_controls = [], tk_closed = False\<rparr>"

definition task_with :: "winvocation list \<Rightarrow> control_message list \<Rightarrow> (32 word, \<lparr>nb_function_id :: function_id\<rparr>, unit, noop_sandbox) wtask" where
  "task_with ivs cs =
     (worker_start (noop_rt 1) (new_task OnCreationAfterInvoc))\<lparr>tk_invocations := ivs, tk_controls := cs\<rparr>"

lemmas worker_eval =
  worker_start_def worker_turn_def worker_select_def worker_iter_def worker_leave_def settle_def Let_def
  handle_request_def handle_with_slot_def handle_with_sandbox_def w_prepare_sandbox_def w_create_sandbox_def
  snapshot_before_invocation_def w_pause_sandbox_def w_resume_sandbox_def w_create_snapshot_def rt_on_def
  issue_and_respond_def issue_monitored_def respond_def stop_monitor_def spawn_performance_monitor_def
  issue_request_def forward_response_def header_timing_def finish_request_def send_need_work_def
  send_sandbox_id_def send_reap_me_def send_sandbox_prep_result_def retry_send_to_pool_def
  handle_prepare_sandbox_request_def try_handle_failure_def w_shutdown_def w_destroy_sandbox_def
  w_destroy_taken_def w_uncache_sandbox_def catchW_def emit_def set_timing_def add_timing_def clear_timings_def
  noop_rt_def noop_ok_def noop_create_def noop_id_def bump_invocations_def
  fine_env_def first_invocation_def new_task_def task_with_def
  fib_new_def fib_next_def max_fwd_attempts_def

lemma task_fields_same:
  "tk_invocations t = ivs \<Longrightarrow> t\<lparr>tk_invocations := ivs\<rparr> = t" "tk_controls t = cs \<Longrightarrow> t\<lparr>tk_controls := cs\<rparr> = t"
  by (cases t; simp)+

lemma noop_reaches:
  assumes "length ivs \<le> 1" "length cs \<le> 1"
  shows "worker_reaches (noop_rt 1) (\<lambda>en. en = fine_env) 7 ''f'' OnCreationAfterInvoc None (task_with ivs cs)"
proof -
  define t where "t = worker_start (noop_rt 1) (new_task OnCreationAfterInvoc)"
  let ?R = "task_step (noop_rt 1) (\<lambda>en. en = fine_env)"
  have empty: "tk_invocations t = []" "tk_controls t = []" by (simp_all add: worker_eval t_def)
  have "?R (new_task OnCreationAfterInvoc) t" unfolding t_def by (rule task_step.start) (simp add: new_task_def)
  then have 1: "?R\<^sup>*\<^sup>* (new_task OnCreationAfterInvoc) t" by blast
  have 2: "?R\<^sup>*\<^sup>* t (t\<lparr>tk_invocations := ivs\<rparr>)"
    using task_step.invocation [of t "noop_rt 1" "\<lambda>en. en = fine_env" "hd ivs"] assms(1) empty
    by (cases ivs) (simp_all add: invocation_queue_size_def task_fields_same r_into_rtranclp)
  have 3: "?R\<^sup>*\<^sup>* (t\<lparr>tk_invocations := ivs\<rparr>) (t\<lparr>tk_invocations := ivs, tk_controls := cs\<rparr>)"
    using task_step.control [of "t\<lparr>tk_invocations := ivs\<rparr>" "noop_rt 1" "\<lambda>en. en = fine_env" "hd cs"] assms(2) empty
    by (cases cs) (simp_all add: control_queue_size_def task_fields_same r_into_rtranclp)
  have sp: "worker_spawn 7 ''f'' OnCreationAfterInvoc 100 [SendOk, SendTimeout, SendOk, SendOk] (Inr 0) (Inr ()) None
      = Inr (new_task OnCreationAfterInvoc)"
    by (simp add: worker_spawn_def new_task_def state_of_option_def)
  show ?thesis
    unfolding worker_reaches_def task_with_def t_def [symmetric]
    using sp rtranclp_trans [OF rtranclp_trans [OF 1 2] 3] by blast
qed

lemma noop_resume_total: "resume_total (noop_rt d) sct"
  by (simp add: resume_total_def noop_rt_def noop_ok_def)

lemma task_with_select:
  "worker_select (task_with [iv] cs) = Some (RecvInvocation (Some iv), task_with [] cs)"
  "worker_select (task_with [] [c]) = Some (RecvControl (Some c), task_with [] [])"
  "tk_phase (task_with ivs cs) = Looping"
  by (simp_all add: worker_eval)

text \<open>The first invocation and a shutdown of a worker that has no sandbox yet.\<close>

lemma first_turn:
  "worker_iter (noop_rt 1) fine_env (RecvInvocation (Some first_invocation)) (tk_worker (task_with [] []))
     = (Inr Continue, snd (worker_iter (noop_rt 1) fine_env (RecvInvocation (Some first_invocation)) (tk_worker (task_with [] []))))"
  by (simp add: worker_eval forward_attempts.simps)

lemma noop_reaches_first:
  "worker_reaches (noop_rt 1) (\<lambda>en. en = fine_env) 7 ''f'' OnCreationAfterInvoc None (task_with [first_invocation] [])"
  by (rule noop_reaches) simp_all

lemmas first_run = noop.sandbox_runtime_axioms noop_reaches_first noop_resume_total

lemma shutdown_reaches:
  "worker_reaches (noop_rt 1) (\<lambda>en. en = fine_env) 7 ''f'' OnCreationAfterInvoc None
     (worker_turn (noop_rt 1) fine_env (task_with [] [CtlShutDown]))"
proof -
  have "task_step (noop_rt 1) (\<lambda>en. en = fine_env) (task_with [] [CtlShutDown])
      (worker_turn (noop_rt 1) fine_env (task_with [] [CtlShutDown]))"
    by (rule task_step.turn) (simp_all add: task_with_select)
  moreover have "worker_reaches (noop_rt 1) (\<lambda>en. en = fine_env) 7 ''f'' OnCreationAfterInvoc None (task_with [] [CtlShutDown])"
    by (rule noop_reaches) simp_all
  ultimately show ?thesis
    unfolding worker_reaches_def by (blast intro: rtranclp.rtrancl_into_rtrancl)
qed

lemma shutdown_turn:
  "tk_phase (worker_turn (noop_rt 1) fine_env (task_with [] [CtlShutDown])) = Exited (None, WExitNone)"
  by (simp add: worker_eval)

section \<open>Properties\<close>

text \<open>C3. The sandbox of a worker follows its state machine: at the head of the loop it does not
  exist, is paused or is a snapshot; an invocation or a preparation that succeeds leaves it paused,
  a snapshot request leaves its state alone, and when the worker leaves the loop it has no sandbox or
  a snapshot if all went well, and no sandbox or a trashed one if not.\<close>

theorem worker_typestate:
  assumes "sandbox_runtime rt" "worker_reaches rt E w fid sct sb t" "resume_total rt sct"
    and "tk_phase t = Looping" "worker_select t = Some (inp, t')"
    and "worker_iter rt en inp (tk_worker t') = (Inr step, s')"
  shows "state_ref (wk_sandbox (tk_worker t)) \<in> {RefNonexistent, RefPaused, RefSnapshot}
    \<and> fsm_turn (state_ref (wk_sandbox (tk_worker t))) inp step (state_ref (wk_sandbox s'))"
  by (rule sandbox_runtime.turn_typestate [OF assms(1) worker_reaches_ok [OF assms(1-3)] assms(4-6)])

theorem worker_typestate_witness:
  "fsm_turn (state_ref (wk_sandbox (tk_worker (task_with [first_invocation] [])))) (RecvInvocation (Some first_invocation)) Continue
    (state_ref (wk_sandbox (snd (worker_iter (noop_rt 1) fine_env (RecvInvocation (Some first_invocation)) (tk_worker (task_with [] []))))))"
  using worker_typestate [OF first_run task_with_select(3,1) first_turn] by blast

text \<open>C6. A worker never panics, as long as a resume after the snapshot before the first invocation
  does not fail. It gets stuck only in the channel to the pool: a turn at whose beginning the pool
  still takes three messages comes to its end.\<close>

theorem worker_no_panic:
  assumes "sandbox_runtime rt" "worker_reaches rt E w fid sct sb t" "resume_total rt sct"
  shows "tk_phase t \<noteq> Crashed m
    \<and> (tk_phase t = Looping \<longrightarrow> 3 \<le> count_list (wk_pool_chan (tk_worker t)) SendOk \<longrightarrow>
        tk_phase (worker_turn rt en t) \<noteq> Blocked)"
  using worker_reaches_ok [OF assms] sandbox_runtime.turn_returns [OF assms(1)]
  by (auto simp: sandbox_runtime.task_ok_def [OF assms(1)] Let_def)

theorem worker_no_panic_witness:
  "tk_phase (worker_turn (noop_rt 1) fine_env (task_with [first_invocation] [])) \<noteq> Blocked"
  using worker_no_panic [OF first_run, of "''m''" fine_env] by (simp add: task_with_select) (simp add: worker_eval)

text \<open>C4. In one turn a worker tells the pool the id of a sandbox that it has created, if any, and then
  exactly the one answer that is due: it asks for work if and only if an invocation has succeeded, it
  reports the result of a preparation or of a snapshot, and it says nothing when it shuts down. The
  slot of an invocation is released exactly once, whether it succeeds or not, and an invocation that
  succeeds has sent exactly one response.\<close>

theorem worker_turn_protocol:
  assumes "sandbox_runtime rt" "worker_reaches rt E w fid sct sb t" "resume_total rt sct"
    and "tk_phase t = Looping" "worker_select t = Some (inp, t')"
    and "worker_iter rt en inp (tk_worker t') = (Inr step, s')"
  shows "\<exists>ms rs. pool_msgs (wk_out s') = pool_msgs (wk_out (tk_worker t)) @ ms
    \<and> turn_protocol w fid inp step ms
    \<and> releases (wk_out s') = releases (wk_out (tk_worker t)) + slots_of inp
    \<and> responses (wk_out s') = responses (wk_out (tk_worker t)) @ rs
    \<and> length rs \<le> slots_of inp \<and> (step = Continue \<longrightarrow> length rs = slots_of inp)"
  by (rule sandbox_runtime.turn_messages [OF assms(1) worker_reaches_ok [OF assms(1-3)] assms(4-6)])

theorem worker_turn_protocol_witness:
  "\<exists>ms. pool_msgs (wk_out (snd (worker_iter (noop_rt 1) fine_env (RecvInvocation (Some first_invocation)) (tk_worker (task_with [] []))))) = ms
    \<and> turn_protocol 7 ''f'' (RecvInvocation (Some first_invocation)) Continue ms"
proof -
  have "wk_out (tk_worker (task_with [first_invocation] [])) = []" by (simp add: worker_eval)
  then show ?thesis using worker_turn_protocol [OF first_run task_with_select(3,1) first_turn] by auto
qed

section \<open>What the pool relies on\<close>

text \<open>The exit of a worker task as the pool sees it.\<close>

fun pool_worker_error :: "werror \<Rightarrow> worker_error" where
  "pool_worker_error (WInit d) = WorkerInit d"
| "pool_worker_error (WShutDown w) = WorkerShutDown w"
| "pool_worker_error (WChannel d) = WorkerChannel d"
| "pool_worker_error e = WorkerFailure (werror_text e)"

definition pool_exit :: "'x wexit \<Rightarrow> worker_exit" where
  "pool_exit ex =
     \<lparr>we_result = (case fst ex of None \<Rightarrow> Inr () | Some e \<Rightarrow> Inl (pool_worker_error e)),
      we_sandbox = (case snd ex of
          WExitNone \<Rightarrow> ExitNone
        | WExitReusable b \<Rightarrow> ExitReusable (sandbox.truncate b)
        | WExitTrashed b \<Rightarrow> ExitTrashed (sandbox.truncate b))\<rparr>"

lemma sb_id_truncate [simp]: "sb_id (sandbox.truncate b) = sb_id b"
  by (simp add: sandbox.truncate_def)

text \<open>C5. A worker that has left asks to be reaped with its last message, and only with that. What it
  gives back is what the pool relies on when it reaps it: a sandbox that is given back for reuse has a
  snapshot and the id that the pool has on record for the worker, which is the one it was spawned with
  or the one it has announced, and a trashed sandbox comes with an error.\<close>

theorem worker_exit_contract:
  assumes "sandbox_runtime rt" "worker_reaches rt E w fid sct sb t" "resume_total rt sct"
    and "tk_phase t = Exited ex"
    and "pe_exit en w = Some (pool_exit ex)"
    and "wh_sandbox_id h = known_id (map_option sb_id sb) (pool_msgs (wk_out (tk_worker t)))"
  shows "exit_ok en w h
    \<and> (\<exists>ms. pool_msgs (wk_out (tk_worker t)) = ms @ [MsgReapMe w fid] \<and> \<not> list_ex is_reap_me ms)
    \<and> (\<forall>b. snd ex = WExitReusable b \<longrightarrow> rt_has_snapshot rt b)"
  using worker_reaches_ok [OF assms(1-3)] assms(4-6)
  by (cases "snd ex")
    (auto simp: sandbox_runtime.task_ok_def [OF assms(1)] sandbox_runtime.gives_back_def [OF assms(1)]
      exit_ok_def pool_exit_def Let_def split: option.splits)

theorem worker_exit_contract_witness:
  "exit_ok (env_example\<lparr>pe_exit := (\<lambda>_. Some (pool_exit (None, WExitNone :: noop_sandbox wexit_sandbox)))\<rparr>) 7
    \<lparr>wh_function_id = ''f'', wh_sandbox_id = None, wh_mem_accounting = MemReclaimed\<rparr>"
proof -
  have "known_id None (pool_msgs (wk_out (tk_worker (worker_turn (noop_rt 1) fine_env (task_with [] [CtlShutDown]))))) = None"
    by (simp add: worker_eval)
  then show ?thesis
    using worker_exit_contract [OF noop.sandbox_runtime_axioms shutdown_reaches noop_resume_total shutdown_turn,
        of "env_example\<lparr>pe_exit := (\<lambda>_. Some (pool_exit (None, WExitNone :: noop_sandbox wexit_sandbox)))\<rparr>"
           "\<lparr>wh_function_id = ''f'', wh_sandbox_id = None, wh_mem_accounting = MemReclaimed\<rparr>"]
    by simp
qed

section \<open>What goes wrong\<close>


text \<open>A preparation reports a snapshot although the snapshot manager has declined to place one and
  the sandbox has none.\<close>

theorem worker_reports_no_snapshot:
  "let t = (worker_start (noop_rt 1) (new_task OnCreationBeforeInvoc))\<lparr>tk_controls := [CtlPrepareSandbox 0]\<rparr>;
       s = tk_worker (worker_turn (noop_rt 1) fine_env t) in
   \<exists>sid st. last (pool_msgs (wk_out s)) = MsgSandboxPreparation
      \<lparr>pr_worker_id = 7, pr_function_id = ''f'', pr_result = Inr (sid, True, st)\<rparr>
   \<and> (\<exists>sb. wk_sandbox s = Paused sb \<and> sb_id sb = sid \<and> \<not> rt_has_snapshot (noop_rt 1) sb)"
  by (simp add: worker_eval)

end
