(* ===== verification/Database.thy ===== *)
theory Database
  imports Fmd_Store
begin

text \<open>
  \<^verbatim>\<open>metadata/db.rs\<close>: the three tables of the persistent database.

  The database is the \<^verbatim>\<open>redb\<close> crate. The operations on its tables and multimap tables are the
  parameters \<open>table_ops\<close> and \<open>multimap_ops\<close>, and \<open>table_spec\<close> and \<open>multimap_spec\<close> have their documented
  behaviour. Keys and values are stored through \<^verbatim>\<open>Rmp\<close>, whose decoding gives back what was encoded; they
  are kept as values here. A table that does not exist is \<open>None\<close>: opening it in a write transaction
  creates it. A write transaction works on a copy of the tables, which replaces them when it is
  committed and is forgotten when it is dropped. Every access to the storage can fail: \<open>io a\<close> says
  whether the access \<open>a\<close> succeeds.
\<close>

section \<open>Tables\<close>

record ('k, 'v, 't) table_ops =
  tb_new :: 't
  tb_get :: "'k \<Rightarrow> 't \<Rightarrow> 'v option"
  tb_insert :: "'k \<Rightarrow> 'v \<Rightarrow> 't \<Rightarrow> 'v option \<times> 't"
  tb_remove :: "'k \<Rightarrow> 't \<Rightarrow> 'v option \<times> 't"
  tb_iter :: "'t \<Rightarrow> ('k \<times> 'v) list"

definition table_spec :: "('k, 'v, 't) table_ops \<Rightarrow> bool" where
  "table_spec T \<longleftrightarrow>
     (\<forall>k. tb_get T k (tb_new T) = None)
   \<and> (\<forall>k v t. fst (tb_insert T k v t) = tb_get T k t
        \<and> (\<forall>k'. tb_get T k' (snd (tb_insert T k v t)) = (if k' = k then Some v else tb_get T k' t)))
   \<and> (\<forall>k t. fst (tb_remove T k t) = tb_get T k t
        \<and> (\<forall>k'. tb_get T k' (snd (tb_remove T k t)) = (if k' = k then None else tb_get T k' t)))
   \<and> (\<forall>t. distinct (keys (tb_iter T t)) \<and> map_of (tb_iter T t) = (\<lambda>k. tb_get T k t))"

text \<open>\<^verbatim>\<open>MultimapTable::insert\<close> and \<^verbatim>\<open>remove\<close> report whether the pair was present.\<close>

record ('k, 'v, 'm) multimap_ops =
  mt_new :: 'm
  mt_get :: "'k \<Rightarrow> 'm \<Rightarrow> 'v list"
  mt_insert :: "'k \<Rightarrow> 'v \<Rightarrow> 'm \<Rightarrow> bool \<times> 'm"
  mt_remove :: "'k \<Rightarrow> 'v \<Rightarrow> 'm \<Rightarrow> bool \<times> 'm"
  mt_iter :: "'m \<Rightarrow> ('k \<times> 'v list) list"

definition multimap_spec :: "('k, 'v, 'm) multimap_ops \<Rightarrow> bool" where
  "multimap_spec M \<longleftrightarrow>
     (\<forall>k. mt_get M k (mt_new M) = [])
   \<and> (\<forall>k m. distinct (mt_get M k m))
   \<and> (\<forall>k v m. (fst (mt_insert M k v m) \<longleftrightarrow> v \<in> set (mt_get M k m))
        \<and> (\<forall>k'. set (mt_get M k' (snd (mt_insert M k v m)))
             = (if k' = k then insert v (set (mt_get M k m)) else set (mt_get M k' m))))
   \<and> (\<forall>k v m. (fst (mt_remove M k v m) \<longleftrightarrow> v \<in> set (mt_get M k m))
        \<and> (\<forall>k'. set (mt_get M k' (snd (mt_remove M k v m)))
             = (if k' = k then set (mt_get M k m) - {v} else set (mt_get M k' m))))
   \<and> (\<forall>m. distinct (keys (mt_iter M m))
        \<and> (\<forall>k vs. (k, vs) \<in> set (mt_iter M m) \<longleftrightarrow> vs = mt_get M k m \<and> vs \<noteq> []))"

section \<open>The database\<close>

record ('f, 'm, 's) db =
  db_functions :: "'f option"
  db_spf :: "'m option"
  db_snapshots :: "'s option"

record ('st, 'f, 'm, 's) redb =
  rd_functions :: "(function_id, registered_function, 'f) table_ops"
  rd_spf :: "(function_id, sandbox_id, 'm) multimap_ops"
  rd_snapshots :: "(sandbox_id, 'st, 's) table_ops"

definition redb_spec :: "('st, 'f, 'm, 's) redb \<Rightarrow> bool" where
  "redb_spec R \<longleftrightarrow> table_spec (rd_functions R) \<and> multimap_spec (rd_spf R) \<and> table_spec (rd_snapshots R)"

text \<open>The accesses that can fail; the number tells several places in one transaction apart.\<close>

datatype db_access =
  AtBegin function_id
| AtOpenFunctions nat
| AtOpenSpf nat
| AtOpenSnapshots nat
| AtLen
| AtIter
| AtRow function_id
| AtFunction function_id
| AtSid sandbox_id
| AtState sandbox_id
| AtInsertFunction function_id
| AtRemoveFunction function_id
| AtInsertSid function_id sandbox_id
| AtRemoveSid function_id sandbox_id
| AtInsertState sandbox_id
| AtRemoveState sandbox_id
| AtDelete nat
| AtCommit function_id

text \<open>The tables as they are opened in a write transaction.\<close>

definition opened_functions :: "('st, 'f, 'm, 's) redb \<Rightarrow> ('f, 'm, 's) db \<Rightarrow> 'f" where
  "opened_functions R d = (case db_functions d of None \<Rightarrow> tb_new (rd_functions R) | Some t \<Rightarrow> t)"

definition opened_spf :: "('st, 'f, 'm, 's) redb \<Rightarrow> ('f, 'm, 's) db \<Rightarrow> 'm" where
  "opened_spf R d = (case db_spf d of None \<Rightarrow> mt_new (rd_spf R) | Some t \<Rightarrow> t)"

definition opened_snapshots :: "('st, 'f, 'm, 's) redb \<Rightarrow> ('f, 'm, 's) db \<Rightarrow> 's" where
  "opened_snapshots R d = (case db_snapshots d of None \<Rightarrow> tb_new (rd_snapshots R) | Some t \<Rightarrow> t)"

section \<open>What the tables say\<close>

definition stored_function :: "('st, 'f, 'm, 's) redb \<Rightarrow> ('f, 'm, 's) db \<Rightarrow> function_id \<Rightarrow> registered_function option" where
  "stored_function R d fid = tb_get (rd_functions R) fid (opened_functions R d)"

definition listed :: "('st, 'f, 'm, 's) redb \<Rightarrow> ('f, 'm, 's) db \<Rightarrow> function_id \<Rightarrow> sandbox_id set" where
  "listed R d fid = set (mt_get (rd_spf R) fid (opened_spf R d))"

definition stored_state :: "('st, 'f, 'm, 's) redb \<Rightarrow> ('f, 'm, 's) db \<Rightarrow> sandbox_id \<Rightarrow> 'st option" where
  "stored_state R d sid = tb_get (rd_snapshots R) sid (opened_snapshots R d)"

lemma redb_specD:
  assumes "redb_spec R"
  shows "table_spec (rd_functions R)" "multimap_spec (rd_spf R)" "table_spec (rd_snapshots R)"
  using assms by (simp_all add: redb_spec_def)

lemma table_specD:
  assumes "table_spec T"
  shows "tb_get T k (tb_new T) = None" "fst (tb_insert T k v t) = tb_get T k t"
    "tb_get T k' (snd (tb_insert T k v t)) = (if k' = k then Some v else tb_get T k' t)"
    "fst (tb_remove T k t) = tb_get T k t"
    "tb_get T k' (snd (tb_remove T k t)) = (if k' = k then None else tb_get T k' t)"
    "distinct (keys (tb_iter T t))" "map_of (tb_iter T t) k = tb_get T k t"
  using assms by (simp_all add: table_spec_def)

lemma multimap_specD:
  assumes "multimap_spec M"
  shows "mt_get M k (mt_new M) = []" "distinct (mt_get M k m)"
    "fst (mt_insert M k v m) \<longleftrightarrow> v \<in> set (mt_get M k m)"
    "set (mt_get M k' (snd (mt_insert M k v m))) = (if k' = k then insert v (set (mt_get M k m)) else set (mt_get M k' m))"
    "fst (mt_remove M k v m) \<longleftrightarrow> v \<in> set (mt_get M k m)"
    "set (mt_get M k' (snd (mt_remove M k v m))) = (if k' = k then set (mt_get M k m) - {v} else set (mt_get M k' m))"
    "distinct (keys (mt_iter M m))" "(k, vs) \<in> set (mt_iter M m) \<longleftrightarrow> vs = mt_get M k m \<and> vs \<noteq> []"
  using assms by (simp_all add: multimap_spec_def)

lemma stored_function_simps:
  assumes "redb_spec R"
  shows "stored_function R (d\<lparr>db_functions := Some (snd (tb_insert (rd_functions R) fid rf (opened_functions R d)))\<rparr>)
      = (stored_function R d)(fid \<mapsto> rf)"
    "stored_function R (d\<lparr>db_functions := Some (snd (tb_remove (rd_functions R) fid (opened_functions R d)))\<rparr>)
      = (stored_function R d)(fid := None)"
  using table_specD(3,5) [OF redb_specD(1) [OF assms]]
  by (auto simp: stored_function_def opened_functions_def fun_eq_iff)

section \<open>Tables as association lists\<close>

text \<open>An instance of the specification.\<close>

definition alist_table :: "('k, 'v, ('k \<times> 'v) list) table_ops" where
  "alist_table =
     \<lparr>tb_new = [], tb_get = (\<lambda>k t. map_of t k), tb_insert = (\<lambda>k v t. (map_of t k, AList.update k v t)),
      tb_remove = (\<lambda>k t. (map_of t k, AList.delete k t)), tb_iter = AList.clearjunk\<rparr>"

definition alist_multimap :: "('k, 'v, ('k \<times> 'v) list) multimap_ops" where
  "alist_multimap =
     \<lparr>mt_new = [], mt_get = (\<lambda>k m. remdups (map snd (filter (\<lambda>x. fst x = k) m))),
      mt_insert = (\<lambda>k v m. ((k, v) \<in> set m, if (k, v) \<in> set m then m else m @ [(k, v)])),
      mt_remove = (\<lambda>k v m. ((k, v) \<in> set m, filter (\<lambda>x. x \<noteq> (k, v)) m)),
      mt_iter = (\<lambda>m. map (\<lambda>k. (k, remdups (map snd (filter (\<lambda>x. fst x = k) m)))) (remdups (map fst m)))\<rparr>"

definition alist_redb :: "('st, (function_id \<times> registered_function) list, (function_id \<times> sandbox_id) list,
    (sandbox_id \<times> 'st) list) redb" where
  "alist_redb = \<lparr>rd_functions = alist_table, rd_spf = alist_multimap, rd_snapshots = alist_table\<rparr>"

lemma table_spec_alist: "table_spec alist_table"
  by (auto simp: table_spec_def alist_table_def update_conv' delete_conv' map_of_clearjunk distinct_clearjunk fun_eq_iff)

lemma alist_mt_get: "v \<in> set (mt_get alist_multimap k m) \<longleftrightarrow> (k, v) \<in> set m"
  by (force simp: alist_multimap_def)

lemma alist_mt_iter:
  "distinct (keys (mt_iter alist_multimap m))"
  "(k, vs) \<in> set (mt_iter alist_multimap m) \<longleftrightarrow> vs = mt_get alist_multimap k m \<and> vs \<noteq> []"
proof -
  have "keys (mt_iter alist_multimap m) = remdups (map fst m)"
    by (simp add: alist_multimap_def comp_def)
  then show "distinct (keys (mt_iter alist_multimap m))" by simp
  have "k \<in> fst ` set m \<longleftrightarrow> mt_get alist_multimap k m \<noteq> []"
    by (auto simp: alist_multimap_def filter_empty_conv)
  then show "(k, vs) \<in> set (mt_iter alist_multimap m) \<longleftrightarrow> vs = mt_get alist_multimap k m \<and> vs \<noteq> []"
    by (auto simp: alist_multimap_def)
qed

lemma alist_mt_simps:
  "mt_get alist_multimap k (mt_new alist_multimap) = []" "distinct (mt_get alist_multimap k m)"
  "mt_insert alist_multimap k v m = ((k, v) \<in> set m, if (k, v) \<in> set m then m else m @ [(k, v)])"
  "mt_remove alist_multimap k v m = ((k, v) \<in> set m, filter (\<lambda>x. x \<noteq> (k, v)) m)"
  by (simp_all add: alist_multimap_def)

lemma multimap_spec_alist: "multimap_spec alist_multimap"
  unfolding multimap_spec_def
  by (intro conjI allI alist_mt_iter) (auto simp: alist_mt_get alist_mt_simps)

lemma redb_spec_alist: "redb_spec alist_redb"
  by (simp add: redb_spec_def alist_redb_def table_spec_alist multimap_spec_alist)

lemmas alist_db_defs = alist_redb_def alist_table_def alist_multimap_def

end
