(* ===== verification/Registrar.thy ===== *)
theory Registrar
  imports Database
begin

text \<open>
  \<^verbatim>\<open>metadata/registration/registrar.rs\<close> and the conversions and status codes of
  \<^verbatim>\<open>metadata/registration/mod.rs\<close>: the gRPC service that registers functions in the database and in the
  store, and that loads them from the database at start.

  The runtime's part is a parameter: how it reads a request (\<open>re_info\<close>), what it does with the record
  of a function that it registers (\<open>re_register\<close>), and the conversion of a protobuf duration by
  \<^verbatim>\<open>prost_types\<close> (\<open>re_duration\<close>). Deregistering with the runtime has no influence on the result. A
  registration has three steps between which another one can run: the check, the write to the
  database and the entry in the store.
\<close>

section \<open>Requests and answers\<close>

record pb_overrides =
  pb_max_queued :: "64 word option"
  pb_max_queue_delay :: "(int \<times> int) option"
  pb_max_live_instances :: "64 word option"

record register_request =
  rr_body :: string
  rr_admission :: "pb_overrides option"

datatype reg_error =
  RegStore registration_error
| RegRuntime string
| RegDatabase string

datatype status_kind =
  InvalidArgument
| NotFoundStatus
| AlreadyExistsStatus
| FailedPrecondition
| InternalStatus
| DataLoss
| UnimplementedStatus

fun status_of :: "reg_error \<Rightarrow> status_kind" where
  "status_of (RegStore (NotFound _)) = NotFoundStatus"
| "status_of (RegStore (AlreadyExists _)) = AlreadyExistsStatus"
| "status_of (RegStore (InUse _ _)) = FailedPrecondition"
| "status_of (RegRuntime _) = InternalStatus"
| "status_of (RegDatabase _) = DataLoss"

record reg_env =
  re_io :: "db_access \<Rightarrow> bool"
  re_info :: "string \<Rightarrow> string + fn_info"
  re_register :: "fn_info \<Rightarrow> (string + unit) \<times> fn_info"
  re_duration :: "int \<times> int \<Rightarrow> string + duration"

definition overrides_of_pb :: "reg_env \<Rightarrow> pb_overrides \<Rightarrow> string + admission_overrides" where
  "overrides_of_pb en ao =
     (let rest = (\<lambda>delay. \<lparr>ao_max_queued = map_option unat (pb_max_queued ao), ao_max_queue_delay = delay,
                           ao_max_live_instances = map_option unat (pb_max_live_instances ao)\<rparr>) in
      case pb_max_queue_delay ao of
        None \<Rightarrow> Inr (rest None)
      | Some d \<Rightarrow> map_sum id (\<lambda>d. rest (Some d)) (re_duration en d))"

section \<open>The database\<close>

definition store_to_db ::
  "('st, 'f, 'm, 's) redb \<Rightarrow> (db_access \<Rightarrow> bool) \<Rightarrow> registered_function \<Rightarrow> ('f, 'm, 's) db
    \<Rightarrow> (reg_error + unit) \<times> ('f, 'm, 's) db" where
  "store_to_db R io func d =
     (let fid = fi_id (rf_info func) in
      if \<not> io (AtBegin fid) then (Inl (RegDatabase ''failed to open write txn''), d)
      else if \<not> io (AtOpenFunctions 0) then (Inl (RegDatabase ''failed to open table FUNCTIONS''), d)
      else if \<not> io (AtInsertFunction fid) then (Inl (RegDatabase ''failed to insert new Function to the database''), d)
      else
        (let w = d\<lparr>db_functions := Some (snd (tb_insert (rd_functions R) fid func (opened_functions R d)))\<rparr> in
         if \<not> io (AtCommit fid) then (Inl (RegDatabase ''failed to commit txn to table FUNCTIONS''), d)
         else (Inr (), w)))"

definition delete_from_db ::
  "('st, 'f, 'm, 's) redb \<Rightarrow> (db_access \<Rightarrow> bool) \<Rightarrow> function_id \<Rightarrow> ('f, 'm, 's) db
    \<Rightarrow> (reg_error + unit) \<times> ('f, 'm, 's) db" where
  "delete_from_db R io fid d =
     (if \<not> io (AtBegin fid) then (Inl (RegDatabase ''failed to open write txn''), d)
      else if \<not> io (AtOpenFunctions 0) then (Inl (RegDatabase ''failed to open table FUNCTIONS''), d)
      else if \<not> io (AtRemoveFunction fid) then (Inl (RegDatabase ''failed to remove new Function to the database''), d)
      else
        (let w = d\<lparr>db_functions := Some (snd (tb_remove (rd_functions R) fid (opened_functions R d)))\<rparr> in
         if \<not> io (AtCommit fid) then (Inl (RegDatabase ''failed to commit txn to table FUNCTIONS''), d)
         else (Inr (), w)))"

fun load_functions ::
  "reg_env \<Rightarrow> (function_id \<times> registered_function) list \<Rightarrow> fmd_store \<Rightarrow> (reg_error + unit) \<times> fmd_store" where
  "load_functions en [] st = (Inr (), st)"
| "load_functions en ((fid, func) # rows) st =
     (if \<not> re_io en (AtRow fid) then (Inl (RegDatabase ''failed to read Function from database''), st)
      else
        (case re_register en (rf_info func) of
           (Inl e, _) \<Rightarrow> (Inl (RegRuntime e), st)
         | (Inr _, info) \<Rightarrow>
             (case register_function (func\<lparr>rf_info := info\<rparr>) st of
                (Inl e, st) \<Rightarrow> (Inl (RegStore e), st)
              | (Inr _, st) \<Rightarrow> load_functions en rows st)))"

definition load_from_db ::
  "('st, 'f, 'm, 's) redb \<Rightarrow> reg_env \<Rightarrow> ('f, 'm, 's) db \<Rightarrow> fmd_store \<Rightarrow> (reg_error + unit) \<times> fmd_store" where
  "load_from_db R en d st =
     (if \<not> re_io en (AtBegin []) then (Inl (RegDatabase ''failed to begin read txn''), st)
      else if \<not> re_io en (AtOpenFunctions 0) then (Inl (RegDatabase ''failed to open table FUNCTIONS''), st)
      else
        (case db_functions d of
           None \<Rightarrow> (Inr (), st)
         | Some t \<Rightarrow>
             (if \<not> re_io en AtLen then (Inl (RegDatabase ''failed to retrieve length of table FUNCTIONS''), st)
              else if \<not> re_io en AtIter then (Inl (RegDatabase ''failed to iterate through table FUNCTIONS''), st)
              else load_functions en (tb_iter (rd_functions R) t) st)))"

section \<open>The service\<close>

definition max_allowed_function_mem :: nat where
  "max_allowed_function_mem = 10 * 2 ^ 30"

text \<open>What \<^verbatim>\<open>register_function\<close> does before it writes: the record to be written, or the refusal.\<close>

definition register_check ::
  "reg_env \<Rightarrow> register_request \<Rightarrow> fmd_store \<Rightarrow> status_kind + registered_function" where
  "register_check en req st =
     (case (case rr_admission req of
              None \<Rightarrow> Inr None
            | Some ao \<Rightarrow> map_sum id Some (overrides_of_pb en ao)) of
        Inl _ \<Rightarrow> Inl InvalidArgument
      | Inr admission \<Rightarrow>
          (case re_info en (rr_body req) of
             Inl _ \<Rightarrow> Inl InvalidArgument
           | Inr fi \<Rightarrow>
               if function_exists (fi_id fi) st then Inl (status_of (RegStore (AlreadyExists (fi_id fi))))
               else if fi_memory fi > max_allowed_function_mem then Inl InvalidArgument
               else
                 (case re_register en fi of
                    (Inl e, _) \<Rightarrow> Inl (status_of (RegRuntime e))
                  | (Inr _, fi) \<Rightarrow> Inr \<lparr>rf_info = fi, rf_admission = admission\<rparr>)))"

definition register_rpc ::
  "('st, 'f, 'm, 's) redb \<Rightarrow> reg_env \<Rightarrow> register_request \<Rightarrow> fmd_store \<times> ('f, 'm, 's) db
    \<Rightarrow> (status_kind + unit) \<times> fmd_store \<times> ('f, 'm, 's) db" where
  "register_rpc R en req s =
     (case s of (st, d) \<Rightarrow>
      case register_check en req st of
        Inl e \<Rightarrow> (Inl e, st, d)
      | Inr func \<Rightarrow>
          (case store_to_db R (re_io en) func d of
             (Inl e, d) \<Rightarrow> (Inl (status_of e), st, d)
           | (Inr _, d) \<Rightarrow>
               (case register_function func st of
                  (Inl e, st) \<Rightarrow> (Inl (status_of (RegStore e)), st, d)
                | (Inr _, st) \<Rightarrow> (Inr (), st, d))))"

definition deregister_rpc ::
  "('st, 'f, 'm, 's) redb \<Rightarrow> reg_env \<Rightarrow> function_id \<Rightarrow> fmd_store \<times> ('f, 'm, 's) db
    \<Rightarrow> (status_kind + unit) \<times> fmd_store \<times> ('f, 'm, 's) db" where
  "deregister_rpc R en fid s =
     (case s of (st, d) \<Rightarrow>
      case deregister_function fid st of
        (Inl e, st) \<Rightarrow> (Inl (status_of (RegStore e)), st, d)
      | (Inr func, st) \<Rightarrow>
          (case delete_from_db R (re_io en) (fi_id (rf_info func)) d of
             (Inl e, d) \<Rightarrow> (Inl (status_of e), st, d)
           | (Inr _, d) \<Rightarrow> (Inr (), st, d)))"

definition list_functions_rpc :: "status_kind + unit" where
  "list_functions_rpc = Inl UnimplementedStatus"

section \<open>Store and database agree\<close>

text \<open>The functions in the database are those of the store, each under its own id.\<close>

definition registry_ok :: "('st, 'f, 'm, 's) redb \<Rightarrow> fmd_store \<Rightarrow> ('f, 'm, 's) db \<Rightarrow> bool" where
  "registry_ok R st d \<longleftrightarrow> store_inv st \<and> registered st = stored_function R d"

text \<open>A runtime does not change the id of a function that it registers.\<close>

definition keeps_id :: "reg_env \<Rightarrow> bool" where
  "keeps_id en \<longleftrightarrow> (\<forall>fi r fi'. re_register en fi = (r, fi') \<longrightarrow> fi_id fi' = fi_id fi)"

lemma store_to_db_cases:
  assumes "redb_spec R" and "store_to_db R io func d = (r, d')"
  shows "(\<exists>e. r = Inl (RegDatabase e) \<and> d' = d)
    \<or> r = Inr () \<and> stored_function R d' = (stored_function R d)(fi_id (rf_info func) \<mapsto> func)
      \<and> db_spf d' = db_spf d \<and> db_snapshots d' = db_snapshots d"
  using assms(2) stored_function_simps(1) [OF assms(1)]
  by (auto simp: store_to_db_def Let_def split: if_splits)

lemma delete_from_db_cases:
  assumes "redb_spec R" and "delete_from_db R io fid d = (r, d')"
  shows "(\<exists>e. r = Inl (RegDatabase e) \<and> d' = d)
    \<or> r = Inr () \<and> stored_function R d' = (stored_function R d)(fid := None)
      \<and> db_spf d' = db_spf d \<and> db_snapshots d' = db_snapshots d"
  using assms(2) stored_function_simps(2) [OF assms(1)]
  by (auto simp: delete_from_db_def Let_def split: if_splits)

lemma register_check_ok:
  assumes "keeps_id en" and "register_check en req st = Inr func"
  shows "registered st (fi_id (rf_info func)) = None"
  using assms
  by (auto simp: register_check_def keeps_id_def function_exists_def registered_def
      split: sum.splits if_splits prod.splits)

lemma register_rpc_cases:
  assumes R: "redb_spec R" and ok: "registry_ok R st d" and en: "keeps_id en"
    and c: "register_rpc R en req (st, d) = (r, st', d')"
  shows "(\<exists>e. r = Inl e \<and> st' = st \<and> d' = d)
    \<or> (\<exists>func. r = Inr () \<and> register_check en req st = Inr func \<and> registry_ok R st' d'
        \<and> registered st' = (registered st)(fi_id (rf_info func) \<mapsto> func) \<and> where_is st' = where_is st)"
proof (cases "register_check en req st")
  case (Inl e)
  then show ?thesis using c by (auto simp: register_rpc_def)
next
  case (Inr func)
  obtain s where s: "register_function func st = (Inr (), s)" "store_inv s" "where_is s = where_is st"
      "registered s = (registered st)(fi_id (rf_info func) \<mapsto> func)"
    using register_function_ok [OF _ register_check_ok [OF en Inr]] ok by (auto simp: registry_ok_def)
  obtain r1 d1 where d: "store_to_db R (re_io en) func d = (r1, d1)" by fastforce
  show ?thesis
    using store_to_db_cases [OF R d] c s ok Inr d by (auto simp: register_rpc_def registry_ok_def)
qed

lemma registered_under: "store_inv st \<Longrightarrow> registered st fid = Some rf \<Longrightarrow> fi_id (rf_info rf) = fid"
  by (auto simp: registered_def store_inv_def)

lemma deregister_function_cases:
  assumes i: "store_inv st" and c: "deregister_function fid st = (r, st')"
  shows "(\<exists>e. r = Inl e \<and> st' = st)
    \<or> (\<exists>rf. r = Inr rf \<and> registered st fid = Some rf \<and> store_inv st' \<and> where_is st' = where_is st
        \<and> registered st' = (registered st)(fid := None))"
proof (cases "\<exists>w c. where_is st w = Some (c, fid)")
  case True
  then show ?thesis using deregister_in_use [OF i] c by fastforce
next
  case False
  then show ?thesis
    using deregister_function_ok [OF i, of fid] c
    by (cases "registered st fid") (auto simp: deregister_function_def registered_def)
qed

lemma deregister_rpc_cases:
  assumes R: "redb_spec R" and ok: "registry_ok R st d"
    and c: "deregister_rpc R en fid (st, d) = (r, st', d')"
  shows "(\<exists>e. r = Inl e \<and> st' = st \<and> d' = d)
    \<or> (r = Inr () \<and> registry_ok R st' d' \<and> registered st' = (registered st)(fid := None) \<and> where_is st' = where_is st)
    \<or> (r = Inl DataLoss \<and> d' = d \<and> registered st' = (registered st)(fid := None) \<and> store_inv st'
        \<and> where_is st' = where_is st)"
proof -
  obtain r1 s1 where s: "deregister_function fid st = (r1, s1)" by fastforce
  have i: "store_inv st" using ok by (simp add: registry_ok_def)
  show ?thesis
  proof (cases r1)
    case (Inl e)
    then show ?thesis using c s deregister_function_cases [OF i s] by (auto simp: deregister_rpc_def)
  next
    case (Inr rf)
    then have rf: "registered st fid = Some rf" "store_inv s1" "where_is s1 = where_is st"
        "registered s1 = (registered st)(fid := None)"
      using deregister_function_cases [OF i s] by auto
    obtain r2 d2 where d: "delete_from_db R (re_io en) fid d = (r2, d2)" by fastforce
    show ?thesis
      using delete_from_db_cases [OF R d] c s d rf Inr registered_under [OF i rf(1)] ok
      by (auto simp: deregister_rpc_def registry_ok_def)
  qed
qed

section \<open>Loading\<close>

lemma load_functions_ok:
  assumes "keeps_id en" and "\<forall>(fid, f) \<in> set rows. fi_id (rf_info f) = fid" "distinct (keys rows)"
    and "store_inv st" "\<forall>fid \<in> set (keys rows). registered st fid = None"
    and "load_functions en rows st = (Inr (), st')"
  shows "store_inv st' \<and> where_is st' = where_is st
    \<and> registered st' = registered st ++ (\<lambda>fid. map_option (\<lambda>f. f\<lparr>rf_info := snd (re_register en (rf_info f))\<rparr>) (map_of rows fid))"
  using assms(2-)
proof (induction rows arbitrary: st)
  case Nil
  then show ?case by (simp add: map_add_def)
next
  case (Cons row rows)
  obtain fid f where row: "row = (fid, f)" by force
  obtain r info where reg: "re_register en (rf_info f) = (r, info)" by fastforce
  have id: "fi_id info = fid" using assms(1) reg Cons.prems(1) row by (auto simp: keeps_id_def)
  obtain s where s: "register_function (f\<lparr>rf_info := info\<rparr>) st = (Inr (), s)" "store_inv s" "where_is s = where_is st"
      "registered s = (registered st)(fid \<mapsto> f\<lparr>rf_info := info\<rparr>)"
    using register_function_ok [OF Cons.prems(3), of "f\<lparr>rf_info := info\<rparr>"] Cons.prems(4) row id by auto
  have l: "load_functions en rows s = (Inr (), st')"
    using Cons.prems(5) row reg s(1) by (auto split: if_splits sum.splits)
  have n: "\<forall>g \<in> set (keys rows). registered s g = None"
    using Cons.prems(2,4) row s(4) by auto
  have IH: "store_inv st' \<and> where_is st' = where_is s
    \<and> registered st' = registered s ++ (\<lambda>fid. map_option (\<lambda>f. f\<lparr>rf_info := snd (re_register en (rf_info f))\<rparr>) (map_of rows fid))"
    using Cons.prems(1,2) row by (intro Cons.IH [OF _ _ s(2) n l]) auto
  have "map_of rows fid = None" using Cons.prems(2) row by (simp add: map_of_eq_None_iff)
  then show ?case
    using IH s(3,4) row reg by (auto simp: fun_eq_iff map_add_def split: option.splits)
qed

lemma load_from_db_ok:
  assumes R: "redb_spec R" and "keeps_id en" and id: "\<And>fid f. stored_function R d fid = Some f \<Longrightarrow> fi_id (rf_info f) = fid"
    and l: "load_from_db R en d [] = (Inr (), st)"
  shows "store_inv st \<and> where_is st = Map.empty
    \<and> registered st = (\<lambda>fid. map_option (\<lambda>f. f\<lparr>rf_info := snd (re_register en (rf_info f))\<rparr>) (stored_function R d fid))"
proof -
  note T = table_specD [OF redb_specD(1) [OF R]]
  have empty: "store_inv []" "where_is [] = Map.empty" "registered [] = Map.empty"
    by (auto simp: store_inv_def where_is_def entries_def registered_def located_def fun_eq_iff)
  show ?thesis
  proof (cases "db_functions d")
    case None
    then have "stored_function R d = Map.empty" by (simp add: stored_function_def opened_functions_def T(1) fun_eq_iff)
    then show ?thesis using None l empty by (auto simp: load_from_db_def fun_eq_iff split: if_splits)
  next
    case (Some t)
    have m: "map_of (tb_iter (rd_functions R) t) = stored_function R d"
      using Some T(7) by (simp add: stored_function_def opened_functions_def fun_eq_iff)
    have "load_functions en (tb_iter (rd_functions R) t) [] = (Inr (), st)"
      using l Some by (simp add: load_from_db_def split: if_splits)
    moreover have "\<forall>(fid, f) \<in> set (tb_iter (rd_functions R) t). fi_id (rf_info f) = fid"
      using id m in_set_map_of [OF T(6)] by fastforce
    ultimately show ?thesis
      using load_functions_ok [OF assms(2) _ T(6) empty(1)] empty m by (simp add: map_add_def)
  qed
qed

end
