(* ===== verification/Reinstate.thy ===== *)
theory Reinstate
  imports Database Pool_Props
begin

text \<open>
  \<^verbatim>\<open>sbpool/pool/reinstate.rs\<close>: the pool reads the snapshots of earlier runs from the database when it
  starts, and makes the database agree with its orphan snapshots when it ends.

  The runtime's part is the record \<open>boot_rt\<close>: making an instance for a function, reinstating a sandbox
  from its stored state (\<open>None\<close> when the runtime does not implement it), and the state of a sandbox.
  \<open>io fid\<close> says which storage accesses succeed in the transaction for the function \<open>fid\<close>. The hash map
  that \<^verbatim>\<open>read_db_spf\<close> fills is walked in the order of the table. A transaction works on a pair of the
  pool and a copy of the tables; a failure keeps the pool and forgets the copy.
\<close>

record ('rt, 'st) boot_rt =
  bt_new :: "fn_info \<Rightarrow> string + 'rt"
  bt_init :: "'rt \<Rightarrow> (string + unit) \<times> 'rt"
  bt_reinstate :: "function_id \<Rightarrow> 'st \<Rightarrow> 'rt \<Rightarrow> (string + sandbox) option \<times> 'rt"
  bt_state :: "sandbox \<Rightarrow> (string + 'st) option"
  bt_id :: "'st \<Rightarrow> sandbox_id"

datatype aux_error =
  ReinstatementNotImplemented
| StateNotFound sandbox_id
| AuxRuntime pool_error
| AuxDatabase pool_error

definition start_runtime :: "('rt, 'st) boot_rt \<Rightarrow> fn_info \<Rightarrow> pool_error + 'rt" where
  "start_runtime B fi =
     (case bt_new B fi of
        Inl _ \<Rightarrow> Inl (RuntimeErr ''failed to create new Runtime instance'')
      | Inr rt \<Rightarrow>
          (case bt_init B rt of
             (Inl _, _) \<Rightarrow> Inl (RuntimeErr ''failed to initialiaze Runtime'')
           | (Inr _, rt) \<Rightarrow> Inr rt))"

section \<open>Reading the snapshots back\<close>

definition reinstate_sandbox ::
  "('rt, 'st) boot_rt \<Rightarrow> ('st, 'f, 'm, 's) redb \<Rightarrow> (db_access \<Rightarrow> bool) \<Rightarrow> bool \<Rightarrow> sandbox_id \<Rightarrow> fn_info
    \<Rightarrow> 's \<Rightarrow> 'rt \<Rightarrow> (aux_error + sandbox) \<times> 'rt" where
  "reinstate_sandbox B R io sid_ok sid fi t rt =
     (if \<not> sid_ok then (Inl (AuxDatabase (DatabaseErr ''failed to read Sandbox ID from database'')), rt)
      else if \<not> io (AtState sid) then (Inl (AuxDatabase (DatabaseErr ''failed to read SnapshotState'')), rt)
      else
        (case tb_get (rd_snapshots R) sid t of
           None \<Rightarrow> (Inl (StateNotFound sid), rt)
         | Some st \<Rightarrow>
             (case bt_reinstate B (fi_id fi) st rt of
                (Some (Inr sb), rt) \<Rightarrow> (Inr sb, rt)
              | (Some (Inl _), rt) \<Rightarrow> (Inl (AuxRuntime (RuntimeErr ''failed to reinstate Sandbox'')), rt)
              | (None, rt) \<Rightarrow> (Inl ReinstatementNotImplemented, rt))))"

definition push_sandbox :: "function_id \<Rightarrow> sandbox \<Rightarrow> (function_id \<times> sandbox list) list \<Rightarrow> (function_id \<times> sandbox list) list" where
  "push_sandbox fid sb ss =
     AList.update fid ((case map_of ss fid of None \<Rightarrow> [] | Some sbs \<Rightarrow> sbs) @ [sb]) ss"

text \<open>The sandboxes of one function; the flag says that the runtime cannot reinstate any.\<close>

fun reinstate_sids ::
  "('rt, 'st) boot_rt \<Rightarrow> ('st, 'f, 'm, 's) redb \<Rightarrow> (db_access \<Rightarrow> bool) \<Rightarrow> function_id \<Rightarrow> fn_info \<Rightarrow> 's
    \<Rightarrow> sandbox_id list \<Rightarrow> 'rt \<Rightarrow> (function_id \<times> sandbox list) list \<Rightarrow> bool \<times> (function_id \<times> sandbox list) list" where
  "reinstate_sids B R io fid fi t [] rt ss = (False, ss)"
| "reinstate_sids B R io fid fi t (sid # sids) rt ss =
     (case reinstate_sandbox B R io (io (AtSid sid)) sid fi t rt of
        (Inr sb, rt) \<Rightarrow> reinstate_sids B R io fid fi t sids rt (push_sandbox fid sb ss)
      | (Inl e, rt) \<Rightarrow>
          if e = ReinstatementNotImplemented then (True, ss)
          else reinstate_sids B R io fid fi t sids rt ss)"

fun reinstate_rows ::
  "('rt, 'st) boot_rt \<Rightarrow> ('st, 'f, 'm, 's) redb \<Rightarrow> (db_access \<Rightarrow> bool) \<Rightarrow> 'f \<Rightarrow> 's
    \<Rightarrow> (function_id \<times> sandbox_id list) list \<Rightarrow> (function_id \<times> sandbox list) list
    \<Rightarrow> pool_error + (function_id \<times> sandbox list) list" where
  "reinstate_rows B R io tf t [] ss = Inr ss"
| "reinstate_rows B R io tf t ((fid, sids) # rows) ss =
     (if \<not> io (AtRow fid) then Inl (DatabaseErr ''failed to read Sandbox IDs from database'')
      else if \<not> io (AtFunction fid) then Inl (DatabaseErr ''failed to read Function from database'')
      else
        (case tb_get (rd_functions R) fid tf of
           None \<Rightarrow> reinstate_rows B R io tf t rows ss
         | Some func \<Rightarrow>
             (case start_runtime B (rf_info func) of
                Inl e \<Rightarrow> Inl e
              | Inr rt \<Rightarrow>
                  (case reinstate_sids B R io fid (rf_info func) t sids rt ss of
                     (True, ss) \<Rightarrow> Inr ss
                   | (False, ss) \<Rightarrow> reinstate_rows B R io tf t rows ss))))"

definition reinstate_snapshots_from_db ::
  "('rt, 'st) boot_rt \<Rightarrow> ('st, 'f, 'm, 's) redb \<Rightarrow> (db_access \<Rightarrow> bool) \<Rightarrow> ('f, 'm, 's) db
    \<Rightarrow> pool_error + (function_id \<times> sandbox list) list" where
  "reinstate_snapshots_from_db B R io d =
     (if \<not> io (AtBegin []) then Inl (DatabaseErr ''failed to begin read txn'')
      else if \<not> io (AtOpenFunctions 0) then Inl (DatabaseErr ''failed to open table FUNCTIONS'')
      else
        (case db_functions d of
           None \<Rightarrow> Inr []
         | Some tf \<Rightarrow>
             if \<not> io (AtOpenSpf 0) then Inl (DatabaseErr ''failed to open table SNAPS_PER_FUNC'')
             else
               (case db_spf d of
                  None \<Rightarrow> Inr []
                | Some m \<Rightarrow>
                    if \<not> io (AtOpenSnapshots 0) then Inl (DatabaseErr ''failed to open table SNAPSHOTS'')
                    else
                      (case db_snapshots d of
                         None \<Rightarrow> Inr []
                       | Some t \<Rightarrow>
                           if \<not> io AtLen then Inl (DatabaseErr ''failed to retrieve length of table SNAPSHOTS'')
                           else if \<not> io AtIter then Inl (DatabaseErr ''failed to iterate through table SNAPS_PER_FUNC'')
                           else reinstate_rows B R io tf t (mt_iter (rd_spf R) m) []))))"

section \<open>Wiping\<close>

definition wipe_db_snapshots ::
  "(db_access \<Rightarrow> bool) \<Rightarrow> ('f, 'm, 's) db \<Rightarrow> (pool_error + unit) \<times> ('f, 'm, 's) db" where
  "wipe_db_snapshots io d =
     (if \<not> io (AtBegin []) then (Inl (DatabaseErr ''failed to open write txn''), d)
      else if \<not> io (AtDelete 0) then (Inl (DatabaseErr ''failed to delete table SNAPS_PER_FUNC''), d)
      else if \<not> io (AtDelete 1) then (Inl (DatabaseErr ''failed to delete table SNAPSHOTS''), d)
      else if \<not> io (AtCommit []) then (Inl (DatabaseErr ''failed to commit txn to table SNAPSHOTS''), d)
      else (Inr (), d\<lparr>db_spf := None, db_snapshots := None\<rparr>))"

section \<open>Synchronizing\<close>

text \<open>The states of the tracked sandboxes; the flag is false when there are no states at all.\<close>

fun upsert_states ::
  "('rt, 'st) boot_rt \<Rightarrow> ('st, 'f, 'm, 's) redb \<Rightarrow> (db_access \<Rightarrow> bool) \<Rightarrow> sandbox list \<Rightarrow> 's
    \<Rightarrow> bool \<times> sandbox_id list \<times> 's" where
  "upsert_states B R io [] t = (True, [], t)"
| "upsert_states B R io (sb # sbs) t =
     (case bt_state B sb of
        None \<Rightarrow> (False, [], t)
      | Some (Inl _) \<Rightarrow> upsert_states B R io sbs t
      | Some (Inr st) \<Rightarrow>
          (if io (AtInsertState (sb_id sb))
           then
             (case upsert_states B R io sbs (snd (tb_insert (rd_snapshots R) (sb_id sb) st t)) of
                (ok, ps, t) \<Rightarrow> (ok, bt_id B st # ps, t))
           else upsert_states B R io sbs t))"

definition update_and_forget ::
  "('rt, 'st) boot_rt \<Rightarrow> ('st, 'f, 'm, 's) redb \<Rightarrow> (db_access \<Rightarrow> bool) \<Rightarrow> sandbox list \<Rightarrow> sandbox_id list
    \<Rightarrow> ('f, 'm, 's) db \<Rightarrow> (pool_error + unit) \<times> sandbox list \<times> sandbox_id list \<times> ('f, 'm, 's) db" where
  "update_and_forget B R io sbs sids w =
     (if \<not> io (AtOpenSnapshots 1) then (Inl (DatabaseErr ''failed to open table SNAPSHOTS''), sbs, sids, w)
      else
        (case upsert_states B R io sbs (opened_snapshots R w) of
           (ok, ps, t) \<Rightarrow>
             (let w = w\<lparr>db_snapshots := Some t\<rparr> in
              if \<not> ok then (Inr (), sbs, sids, w)
              else (Inr (), filter (\<lambda>sb. sb_id sb \<notin> set ps) sbs, filter (\<lambda>sid. sid \<notin> set ps) sids, w))))"

definition remove_db_snapshots ::
  "('st, 'f, 'm, 's) redb \<Rightarrow> (db_access \<Rightarrow> bool) \<Rightarrow> sandbox_id list \<Rightarrow> ('f, 'm, 's) db
    \<Rightarrow> (pool_error + unit) \<times> ('f, 'm, 's) db" where
  "remove_db_snapshots R io sids w =
     (if \<not> io (AtOpenSnapshots 3) then (Inl (DatabaseErr ''failed to open table SNAPSHOTS''), w)
      else (Inr (), w\<lparr>db_snapshots := Some (fold (\<lambda>sid t.
              if io (AtRemoveState sid) then snd (tb_remove (rd_snapshots R) sid t) else t) sids (opened_snapshots R w))\<rparr>))"

definition remove_db_sids ::
  "('st, 'f, 'm, 's) redb \<Rightarrow> (db_access \<Rightarrow> bool) \<Rightarrow> function_id \<Rightarrow> sandbox_id list \<Rightarrow> ('f, 'm, 's) db
    \<Rightarrow> (pool_error + unit) \<times> ('f, 'm, 's) db" where
  "remove_db_sids R io fid sids w =
     (if \<not> io (AtOpenSpf 1) then (Inl (DatabaseErr ''failed to open table SNAPS_PER_FUNC''), w)
      else (Inr (), w\<lparr>db_spf := Some (fold (\<lambda>sid m.
              if io (AtRemoveSid fid sid) then snd (mt_remove (rd_spf R) fid sid m) else m) sids (opened_spf R w))\<rparr>))"

definition update_db_sids ::
  "('st, 'f, 'm, 's) redb \<Rightarrow> (db_access \<Rightarrow> bool) \<Rightarrow> function_id \<Rightarrow> sandbox_id list \<Rightarrow> ('f, 'm, 's) db
    \<Rightarrow> (pool_error + unit) \<times> ('f, 'm, 's) db" where
  "update_db_sids R io fid sids w =
     (if \<not> io (AtOpenSpf 2) then (Inl (DatabaseErr ''failed to open table SNAPS_PER_FUNC''), w)
      else (Inr (), w\<lparr>db_spf := Some (fold (\<lambda>sid m.
              if io (AtInsertSid fid sid) then snd (mt_insert (rd_spf R) fid sid m) else m) sids (opened_spf R w))\<rparr>))"

fun destroy_sids ::
  "('rt, 'st) boot_rt \<Rightarrow> ('st, 'f, 'm, 's) redb \<Rightarrow> 'q penv \<Rightarrow> (db_access \<Rightarrow> bool) \<Rightarrow> function_id \<Rightarrow> fn_info \<Rightarrow> 's
    \<Rightarrow> sandbox_id list \<Rightarrow> 'rt \<Rightarrow> 'q pool \<Rightarrow> ('q, unit) pool_result" where
  "destroy_sids B R en io fid fi t [] rt p = (Inr (), p)"
| "destroy_sids B R en io fid fi t (sid # sids) rt p =
     (case reinstate_sandbox B R io True sid fi t rt of
        (Inr sb, rt) \<Rightarrow>
          matchE (destroy_orphan_sandbox en fid sb p)
            (\<lambda>_. destroy_sids B R en io fid fi t sids rt) (\<lambda>_. destroy_sids B R en io fid fi t sids rt)
      | (Inl e, rt) \<Rightarrow>
          if e = ReinstatementNotImplemented then (Inr (), p)
          else destroy_sids B R en io fid fi t sids rt p)"

type_synonym ('q, 'f, 'm, 's) txn = "'q pool \<times> ('f, 'm, 's) db"

definition reinstate_and_destroy ::
  "('rt, 'st) boot_rt \<Rightarrow> ('st, 'f, 'm, 's) redb \<Rightarrow> 'q penv \<Rightarrow> (db_access \<Rightarrow> bool) \<Rightarrow> function_id \<Rightarrow> sandbox_id list
    \<Rightarrow> ('q, 'f, 'm, 's) txn \<Rightarrow> (pool_error fault + unit) \<times> ('q, 'f, 'm, 's) txn" where
  "reinstate_and_destroy B R en io fid sids s =
     (case s of (p, w) \<Rightarrow>
      if sids = [] then (Inr (), p, w)
      else if \<not> io (AtOpenFunctions 1) then (Inl (Err (DatabaseErr ''failed to open table FUNCTIONS'')), p, w)
      else if \<not> io (AtOpenSnapshots 2) then (Inl (Err (DatabaseErr ''failed to open table SNAPSHOTS'')), p, w)
      else
        (let w = w\<lparr>db_functions := Some (opened_functions R w), db_snapshots := Some (opened_snapshots R w)\<rparr> in
         if \<not> io (AtFunction fid) then (Inl (Err (DatabaseErr ''failed to read FunctionInfo'')), p, w)
         else
           (case stored_function R w fid of
              None \<Rightarrow> (Inr (), p, w)
            | Some func \<Rightarrow>
                (case start_runtime B (rf_info func) of
                   Inl e \<Rightarrow> (Inl (Err e), p, w)
                 | Inr rt \<Rightarrow>
                     (case destroy_sids B R en io fid (rf_info func) (opened_snapshots R w) sids rt p of
                        (r, p) \<Rightarrow> (r, p, w))))))"

text \<open>A step on the tables inside a transaction.\<close>

definition on_tables ::
  "(('f, 'm, 's) db \<Rightarrow> (pool_error + unit) \<times> ('f, 'm, 's) db) \<Rightarrow> ('q, 'f, 'm, 's) txn
    \<Rightarrow> (pool_error fault + unit) \<times> ('q, 'f, 'm, 's) txn" where
  "on_tables f s = (case s of (p, w) \<Rightarrow> case f w of (Inl e, w) \<Rightarrow> (Inl (Err e), p, w) | (Inr _, w) \<Rightarrow> (Inr (), p, w))"

definition in_txn ::
  "(db_access \<Rightarrow> bool) \<Rightarrow> function_id \<Rightarrow> (('q, 'f, 'm, 's) txn \<Rightarrow> (pool_error fault + unit) \<times> ('q, 'f, 'm, 's) txn)
    \<Rightarrow> ('q, 'f, 'm, 's) txn \<Rightarrow> (pool_error fault + unit) \<times> ('q, 'f, 'm, 's) txn" where
  "in_txn io fid body s =
     (case s of (p, d) \<Rightarrow>
      if \<not> io (AtBegin fid) then (Inl (Err (DatabaseErr ''failed to open write txn'')), p, d)
      else
        (case body (p, d) of
           (Inl e, p, _) \<Rightarrow> (Inl e, p, d)
         | (Inr _, p, w) \<Rightarrow>
             if io (AtCommit fid) then (Inr (), p, w)
             else (Inl (Err (DatabaseErr ''failed to commit txn to snapshot tables'')), p, d)))"

definition set_snapshots :: "function_id \<Rightarrow> sandbox list \<Rightarrow> 'q pool \<Rightarrow> 'q pool" where
  "set_snapshots fid sbs p = p\<lparr>snapshots := AList.update fid sbs (snapshots p)\<rparr>"

definition sync_listed ::
  "('rt, 'st) boot_rt \<Rightarrow> ('st, 'f, 'm, 's) redb \<Rightarrow> 'q penv \<Rightarrow> (db_access \<Rightarrow> bool) \<Rightarrow> function_id \<Rightarrow> sandbox_id list
    \<Rightarrow> ('q, 'f, 'm, 's) txn \<Rightarrow> (pool_error fault + unit) \<times> ('q, 'f, 'm, 's) txn" where
  "sync_listed B R en io fid sids s =
     (case s of (p, w) \<Rightarrow>
      case map_of (snapshots p) fid of
        Some sbs \<Rightarrow>
          (case update_and_forget B R io sbs sids w of
             (Inl e, sbs, _, w) \<Rightarrow> (Inl (Err e), set_snapshots fid sbs p, w)
           | (Inr _, sbs, sids, w) \<Rightarrow>
               bindE (reinstate_and_destroy B R en io fid sids (set_snapshots fid sbs p, w))
                 (\<lambda>_. on_tables (remove_db_snapshots R io sids)))
      | None \<Rightarrow>
          bindE (reinstate_and_destroy B R en io fid sids (p, w)) (\<lambda>_ s.
          bindE (on_tables (remove_db_snapshots R io sids) s)
            (\<lambda>_. on_tables (remove_db_sids R io fid sids))))"

fun sync_rows ::
  "('rt, 'st) boot_rt \<Rightarrow> ('st, 'f, 'm, 's) redb \<Rightarrow> 'q penv \<Rightarrow> (function_id \<Rightarrow> db_access \<Rightarrow> bool)
    \<Rightarrow> (function_id \<times> sandbox_id list) list \<Rightarrow> ('q, 'f, 'm, 's) txn
    \<Rightarrow> (pool_error fault + unit) \<times> ('q, 'f, 'm, 's) txn" where
  "sync_rows B R en io [] s = (Inr (), s)"
| "sync_rows B R en io ((fid, sids) # rows) s =
     bindE (in_txn (io fid) fid (sync_listed B R en (io fid) fid sids) s)
       (\<lambda>_ (p, d). sync_rows B R en io rows (p\<lparr>snapshots := AList.delete fid (snapshots p)\<rparr>, d))"

definition sync_unlisted ::
  "('rt, 'st) boot_rt \<Rightarrow> ('st, 'f, 'm, 's) redb \<Rightarrow> (db_access \<Rightarrow> bool) \<Rightarrow> function_id \<Rightarrow> sandbox list
    \<Rightarrow> ('q, 'f, 'm, 's) txn \<Rightarrow> (pool_error fault + unit) \<times> ('q, 'f, 'm, 's) txn" where
  "sync_unlisted B R io fid sbs s =
     bindE (on_tables (update_db_sids R io fid (map sb_id sbs)) s) (\<lambda>_ (p, w).
       case update_and_forget B R io sbs [] w of
         (Inl e, sbs, _, w) \<Rightarrow> (Inl (Err e), set_snapshots fid sbs p, w)
       | (Inr _, sbs, _, w) \<Rightarrow> (Inr (), set_snapshots fid sbs p, w))"

fun sync_rest ::
  "('rt, 'st) boot_rt \<Rightarrow> ('st, 'f, 'm, 's) redb \<Rightarrow> (function_id \<Rightarrow> db_access \<Rightarrow> bool)
    \<Rightarrow> (function_id \<times> sandbox list) list \<Rightarrow> ('q, 'f, 'm, 's) txn
    \<Rightarrow> (pool_error fault + unit) \<times> ('q, 'f, 'm, 's) txn" where
  "sync_rest B R io [] s = (Inr (), s)"
| "sync_rest B R io ((fid, sbs) # rest) s =
     bindE (in_txn (io fid) fid (sync_unlisted B R (io fid) fid sbs) s) (\<lambda>_. sync_rest B R io rest)"

fun read_spf_rows ::
  "(db_access \<Rightarrow> bool) \<Rightarrow> (function_id \<times> sandbox_id list) list
    \<Rightarrow> pool_error + (function_id \<times> sandbox_id list) list" where
  "read_spf_rows io [] = Inr []"
| "read_spf_rows io ((fid, sids) # rows) =
     (if \<not> io (AtRow fid) then Inl (DatabaseErr ''failed while looping through table SNAPS_PER_FUNC'')
      else if list_ex (\<lambda>sid. \<not> io (AtSid sid)) sids then Inl (DatabaseErr ''failed to read Sandbox ID'')
      else
        (case read_spf_rows io rows of
           Inl e \<Rightarrow> Inl e
         | Inr ret \<Rightarrow> Inr ((fid, sids) # ret)))"

definition read_db_spf ::
  "('st, 'f, 'm, 's) redb \<Rightarrow> (db_access \<Rightarrow> bool) \<Rightarrow> ('f, 'm, 's) db
    \<Rightarrow> pool_error + (function_id \<times> sandbox_id list) list" where
  "read_db_spf R io d =
     (if \<not> io (AtBegin []) then Inl (DatabaseErr ''failed to open read txn'')
      else if \<not> io (AtOpenSpf 0) then Inl (DatabaseErr ''failed to open table SNAPS_PER_FUNC'')
      else
        (case db_spf d of
           None \<Rightarrow> Inl (DatabaseErr ''failed to open table SNAPS_PER_FUNC'')
         | Some m \<Rightarrow>
             if \<not> io AtIter then Inl (DatabaseErr ''failed to loop through table SNAPS_PER_FUNC'')
             else read_spf_rows io (mt_iter (rd_spf R) m)))"

definition sync_db_snapshots ::
  "('rt, 'st) boot_rt \<Rightarrow> ('st, 'f, 'm, 's) redb \<Rightarrow> 'q penv \<Rightarrow> (function_id \<Rightarrow> db_access \<Rightarrow> bool)
    \<Rightarrow> ('q, 'f, 'm, 's) txn \<Rightarrow> (pool_error fault + unit) \<times> ('q, 'f, 'm, 's) txn" where
  "sync_db_snapshots B R en io s =
     (case s of (p, d) \<Rightarrow>
      case read_db_spf R (io []) d of
        Inl e \<Rightarrow> (Inl (Err e), p, d)
      | Inr rows \<Rightarrow>
          bindE (sync_rows B R en io rows (p, d)) (\<lambda>_ (p, d). sync_rest B R io (snapshots p) (p, d)))"

section \<open>The end of the shutdown\<close>

text \<open>What the last stage of \<^verbatim>\<open>shutdown\<close> asks of the database; errors are logged.\<close>

definition perform_db_op ::
  "('rt, 'st) boot_rt \<Rightarrow> ('st, 'f, 'm, 's) redb \<Rightarrow> 'q penv \<Rightarrow> (function_id \<Rightarrow> db_access \<Rightarrow> bool) \<Rightarrow> db_op
    \<Rightarrow> ('q, 'f, 'm, 's) txn \<Rightarrow> (pool_error fault + unit) \<times> ('q, 'f, 'm, 's) txn" where
  "perform_db_op B R en io op s =
     (case op of
        DbWipeSnapshots \<Rightarrow> on_tables (wipe_db_snapshots (io [])) s
      | DbSyncSnapshots \<Rightarrow> sync_db_snapshots B R en io s)"

end
