(* ===== verification/Placement.thy ===== *)
theory Placement
  imports Complex_Main Worker
begin

text \<open>
  \<^verbatim>\<open>snapman/placement\<close>, \<^verbatim>\<open>snapman/perfmon\<close> and \<^verbatim>\<open>utils/sd_static.rs\<close>: where the snapshot of a function is
  stored. The files that a policy reads are the lists of their lines, where a line that cannot be read is
  an error. A number of type \<^verbatim>\<open>f64\<close> is a rational, an infinity or not a number; parsing it is the parameter
  \<open>pf\<close>, whose rounding does not matter here.
\<close>

section \<open>Floating-point numbers\<close>

datatype f64 = NaN | NegInf | Fin rat | PosInf

fun f64_less :: "f64 \<Rightarrow> f64 \<Rightarrow> bool" where
  "f64_less NegInf (Fin _) = True"
| "f64_less NegInf PosInf = True"
| "f64_less (Fin _) PosInf = True"
| "f64_less (Fin a) (Fin b) = (a < b)"
| "f64_less _ _ = False"

section \<open>Slowdowns in a CSV file\<close>

datatype csv_error = UnexpectedCsvFormat string | ParseFloatError string | CsvIo string

record csv_entry =
  ce_bench :: function_id
  sd_spmem :: f64
  sd_soptan :: f64
  sd_sflash :: f64
  sd_cold :: f64

definition float_token :: "(string \<Rightarrow> f64 option) \<Rightarrow> string \<Rightarrow> string list \<Rightarrow> csv_error + f64 \<times> string list" where
  "float_token pf msg ts =
     (case ts of
        [] \<Rightarrow> Inl (UnexpectedCsvFormat msg)
      | t # ts \<Rightarrow> (case pf t of None \<Rightarrow> Inl (ParseFloatError t) | Some x \<Rightarrow> Inr (x, ts)))"

text \<open>\<^verbatim>\<open>nth(2)\<close> drops two columns.\<close>

definition parse_entry :: "(string \<Rightarrow> f64 option) \<Rightarrow> string \<Rightarrow> csv_error + csv_entry" where
  "parse_entry pf s =
     (case split_on CHR '','' s of
        [] \<Rightarrow> Inl (UnexpectedCsvFormat ''failed to parse FunctionId'')
      | b # ts \<Rightarrow>
          (case float_token pf ''failed to parse sd_spmem'' (drop 2 ts) of Inl e \<Rightarrow> Inl e | Inr (pm, ts) \<Rightarrow>
          (case float_token pf ''failed to parse sd_soptan'' ts of Inl e \<Rightarrow> Inl e | Inr (op, ts) \<Rightarrow>
          (case float_token pf ''failed to parse sd_sflash'' ts of Inl e \<Rightarrow> Inl e | Inr (fl, ts) \<Rightarrow>
          (case float_token pf ''failed to parse sd_cold'' ts of Inl e \<Rightarrow> Inl e | Inr (co, ts) \<Rightarrow>
             Inr \<lparr>ce_bench = b, sd_spmem = pm, sd_soptan = op, sd_sflash = fl, sd_cold = co\<rparr>)))))"

definition csv_item :: "(string \<Rightarrow> f64 option) \<Rightarrow> string option \<Rightarrow> csv_error + csv_entry" where
  "csv_item pf l = (case l of None \<Rightarrow> Inl (CsvIo ''failed to read next CSV line'') | Some s \<Rightarrow> parse_entry pf s)"

text \<open>The iterator over a file (\<open>None\<close>: it cannot be opened) skips the header.\<close>

definition csv_read :: "(string \<Rightarrow> f64 option) \<Rightarrow> string option list option \<Rightarrow> csv_error + (csv_error + csv_entry) list" where
  "csv_read pf file =
     (case file of None \<Rightarrow> Inl (CsvIo ''failed to open CSV file'') | Some ls \<Rightarrow> Inr (map (csv_item pf) (drop 1 ls)))"

fun read_ids :: "string option list \<Rightarrow> csv_error + function_id list" where
  "read_ids [] = Inr []"
| "read_ids (None # ls) = Inl (CsvIo ''failed to read next Function ID line'')"
| "read_ids (Some l # ls) = map_sum id (List.insert (trim l)) (read_ids ls)"

definition read_function_ids :: "string option list option \<Rightarrow> csv_error + function_id list" where
  "read_function_ids file =
     (case file of None \<Rightarrow> Inl (CsvIo ''failed to open Function IDs' file'') | Some ls \<Rightarrow> read_ids ls)"

section \<open>Monitors\<close>

datatype monitor_target = PidTarget "64 word" | CgroupTarget string

text \<open>The no-op monitor fails when nobody waits for its readiness.\<close>

definition noop_start :: "monitor_target list \<Rightarrow> sandbox_state_ref \<Rightarrow> bool \<Rightarrow> string + unit" where
  "noop_start targets start waiting =
     (if waiting then Inr () else Inl ''PerformanceMonitor failed to communicate readiness to Worker'')"

definition noop_finish :: "unit \<Rightarrow> string + unit" where
  "noop_finish h = Inr ()"

section \<open>Placement algorithms\<close>

record snapshot_paths =
  sp_state :: string
  sp_memory :: string

record ('pa, 'h, 'mx) placement_ops =
  pa_start :: "monitor_target list \<Rightarrow> sandbox_state_ref \<Rightarrow> bool \<Rightarrow> string + 'h"
  pa_finish :: "'h \<Rightarrow> string + 'mx"
  pa_update_metrics :: "function_id \<Rightarrow> sandbox_state_ref \<Rightarrow> 'mx \<Rightarrow> duration \<Rightarrow> 'pa \<Rightarrow> (string + unit) \<times> 'pa"
  pa_query_path :: "function_id \<Rightarrow> 'pa \<Rightarrow> (string fault + snapshot_paths option) \<times> 'pa"

definition both_at :: "string \<Rightarrow> snapshot_paths" where
  "both_at path = \<lparr>sp_state = path, sp_memory = path\<rparr>"

subsection \<open>Fixed\<close>

definition fixed_query :: "function_id \<Rightarrow> string option \<Rightarrow> (string fault + snapshot_paths option) \<times> string option" where
  "fixed_query fid p = (Inr (map_option both_at p), p)"

definition fixed_placement :: "(string option, unit, unit) placement_ops" where
  "fixed_placement =
     \<lparr>pa_start = noop_start, pa_finish = noop_finish, pa_update_metrics = (\<lambda>_ _ _ _ p. (Inr (), p)),
      pa_query_path = fixed_query\<rparr>"

subsection \<open>Static slowdowns\<close>

datatype snapshot_destination = DestNone | DestKeepAlive | OptaneDCPM | OptaneNVMe | FlashSSD

record device =
  mountpoint :: string
  slowdown_threshold :: "f64 option"

record sd_config =
  sc_csv :: "string option list option"
  slowdown_threshold_cold :: f64
  sc_devices :: "snapshot_destination \<rightharpoonup> device"
  sc_warm_device :: snapshot_destination
  fixed_warm_functions :: "string option list option option"

record sd_placement =
  sd_devices :: "snapshot_destination \<rightharpoonup> device"
  slowdowns :: "(function_id \<times> snapshot_destination) list"
  warm_device :: snapshot_destination

text \<open>The destination of one function; indexing a map without the key panics.\<close>

definition threshold :: "sd_config \<Rightarrow> snapshot_destination \<Rightarrow> csv_error fault + f64" where
  "threshold cfg dst =
     (case sc_devices cfg dst of
        None \<Rightarrow> Inl (Panic ''no entry found for key'')
      | Some dev \<Rightarrow> Inr (case slowdown_threshold dev of None \<Rightarrow> slowdown_threshold_cold cfg | Some x \<Rightarrow> x))"

definition destination :: "sd_config \<Rightarrow> function_id list \<Rightarrow> csv_entry \<Rightarrow> csv_error fault + snapshot_destination" where
  "destination cfg warm e =
     (if ce_bench e \<in> set warm then Inr DestKeepAlive
      else if f64_less (sd_cold e) (slowdown_threshold_cold cfg) then Inr DestNone
      else
        (case threshold cfg FlashSSD of Inl x \<Rightarrow> Inl x | Inr fl \<Rightarrow>
           if f64_less (sd_sflash e) fl then Inr FlashSSD
           else
             (case threshold cfg OptaneNVMe of Inl x \<Rightarrow> Inl x | Inr nv \<Rightarrow>
                if f64_less (sd_soptan e) nv then Inr OptaneNVMe
                else
                  (case threshold cfg OptaneDCPM of Inl x \<Rightarrow> Inl x | Inr pm \<Rightarrow>
                     if f64_less (sd_spmem e) pm then Inr OptaneDCPM else Inr DestKeepAlive))))"

text \<open>Collecting into a map stops at the first error; a later line of the same function wins.\<close>

fun classify ::
  "sd_config \<Rightarrow> function_id list \<Rightarrow> (csv_error + csv_entry) list \<Rightarrow> (function_id \<times> snapshot_destination) list
    \<Rightarrow> csv_error fault + (function_id \<times> snapshot_destination) list" where
  "classify cfg warm [] acc = Inr acc"
| "classify cfg warm (Inl e # es) acc = Inl (Err e)"
| "classify cfg warm (Inr e # es) acc =
     (case destination cfg warm e of
        Inl x \<Rightarrow> Inl x
      | Inr dst \<Rightarrow> classify cfg warm es (AList.update (ce_bench e) dst acc))"

definition real_devices :: "snapshot_destination list" where
  "real_devices = [OptaneDCPM, OptaneNVMe, FlashSSD]"

definition sd_new :: "(string \<Rightarrow> f64 option) \<Rightarrow> sd_config \<Rightarrow> csv_error fault + sd_placement" where
  "sd_new pf cfg =
     (if list_ex (\<lambda>dst. sc_devices cfg dst = None) real_devices then Inl (Panic ''Missing device from Config'')
      else
        (case (case fixed_warm_functions cfg of None \<Rightarrow> Inr [] | Some f \<Rightarrow> read_function_ids f) of
           Inl e \<Rightarrow> Inl (Err e)
         | Inr warm \<Rightarrow>
             (case csv_read pf (sc_csv cfg) of
                Inl e \<Rightarrow> Inl (Err e)
              | Inr es \<Rightarrow>
                  (case classify cfg warm es [] of
                     Inl x \<Rightarrow> Inl x
                   | Inr sds \<Rightarrow>
                       Inr \<lparr>sd_devices = (\<lambda>dst. if dst \<in> set real_devices then sc_devices cfg dst else None),
                            slowdowns = sds, warm_device = sc_warm_device cfg\<rparr>))))"

definition functions_kept_alive :: "sd_placement \<Rightarrow> function_id list" where
  "functions_kept_alive p = map fst (filter (\<lambda>(fid, dst). dst = DestKeepAlive) (slowdowns p))"

definition on_device :: "sd_placement \<Rightarrow> snapshot_destination \<Rightarrow> string fault + snapshot_paths option" where
  "on_device p dst =
     (case sd_devices p dst of
        None \<Rightarrow> Inl (Panic ''all 3 devices found present during initialization'')
      | Some dev \<Rightarrow> Inr (Some (both_at (mountpoint dev))))"

definition sd_query :: "function_id \<Rightarrow> sd_placement \<Rightarrow> (string fault + snapshot_paths option) \<times> sd_placement" where
  "sd_query fid p =
     (case map_of (slowdowns p) fid of
        Some DestNone \<Rightarrow> Inr None
      | Some DestKeepAlive \<Rightarrow>
          (if warm_device p = DestNone then Inr None
           else if warm_device p = DestKeepAlive then Inr None
           else on_device p (warm_device p))
      | Some dst \<Rightarrow> on_device p dst
      | None \<Rightarrow> on_device p OptaneNVMe, p)"

definition sd_placement_ops :: "(sd_placement, unit, unit) placement_ops" where
  "sd_placement_ops =
     \<lparr>pa_start = noop_start, pa_finish = noop_finish, pa_update_metrics = (\<lambda>_ _ _ _ p. (Inr (), p)),
      pa_query_path = sd_query\<rparr>"

section \<open>The contract of placement algorithms\<close>

text \<open>
  What the snapshot manager relies on: a query does not panic and keeps the state of the algorithm well
  formed (\<open>ok\<close>), an update of the metrics keeps it.
\<close>

locale placement =
  fixes P :: "('pa, 'h, 'mx) placement_ops" and ok :: "'pa \<Rightarrow> bool"
  assumes query_ok: "ok p \<Longrightarrow> pa_query_path P fid p = (r, p') \<Longrightarrow> \<not> is_panic r \<and> ok p'"
    and update_ok: "ok p \<Longrightarrow> pa_update_metrics P fid st mx dur p = (u, p') \<Longrightarrow> ok p'"

interpretation fixed: placement fixed_placement "\<lambda>_. True"
  by unfold_locales (auto simp: fixed_placement_def fixed_query_def)

definition sd_ok :: "sd_placement \<Rightarrow> bool" where
  "sd_ok p \<longleftrightarrow> (\<forall>dst \<in> set real_devices. sd_devices p dst \<noteq> None)"

lemma on_device_ok:
  assumes "sd_ok p" "dst \<noteq> DestNone" "dst \<noteq> DestKeepAlive"
  shows "\<exists>dev. sd_devices p dst = Some dev \<and> on_device p dst = Inr (Some (both_at (mountpoint dev)))"
proof -
  have "dst \<in> set real_devices" using assms(2,3) by (cases dst) (auto simp: real_devices_def)
  then show ?thesis using assms(1) by (auto simp: sd_ok_def on_device_def)
qed

lemma on_device_no_panic:
  "sd_ok p \<Longrightarrow> dst \<noteq> DestNone \<Longrightarrow> dst \<noteq> DestKeepAlive \<Longrightarrow> \<not> is_panic (on_device p dst)"
  using on_device_ok by fastforce

lemma sd_query_ok:
  assumes "sd_ok p" "sd_query fid p = (r, p')"
  shows "\<not> is_panic r \<and> sd_ok p'"
  using assms on_device_no_panic [OF assms(1)]
  by (auto simp: sd_query_def split: option.splits snapshot_destination.splits if_splits)

interpretation sd_static: placement sd_placement_ops sd_ok
  by unfold_locales (auto simp: sd_placement_ops_def dest: sd_query_ok)

lemma sd_new_ok: "sd_new pf cfg = Inr p \<Longrightarrow> sd_ok p"
  by (auto simp: sd_new_def sd_ok_def real_devices_def split: if_splits sum.splits)

end
