(* ===== verification/Snapman.thy ===== *)
theory Snapman
  imports Placement Database
begin

text \<open>
  \<^verbatim>\<open>snapman/manager.rs\<close>: the snapshot manager, which keeps the performance monitors of the workers,
  asks the placement algorithm for the paths of a snapshot, and forwards what the workers say about
  snapshots to the thread that writes to the database.

  \<open>waiting\<close> says whether the worker that sent a message still waits for the answer, \<open>sent\<close> whether the
  writer thread still takes messages. \<open>st_id\<close> is \<^verbatim>\<open>SnapshotState::id\<close>.
\<close>

section \<open>The actor\<close>

datatype 'st snapman_msg =
  SpawnMonitor worker_id "monitor_target list" sandbox_state_ref
| StopMonitor worker_id function_id sandbox_state_ref "duration option"
| QueryPaths function_id
| NewSnapshot function_id 'st
| SnapshotRemoved function_id sandbox_id

datatype snapman_reply = MonitorReady worker_id | PathsReply function_id "string + snapshot_paths option"

record ('pa, 'h, 'st) snapman =
  sm_perfmons :: "worker_id \<rightharpoonup> 'h"
  sm_placement :: 'pa
  sm_to_writer :: "'st snapman_msg list"
  sm_replies :: "snapman_reply list"

definition snapman_new :: "'pa \<Rightarrow> ('pa, 'h, 'st) snapman" where
  "snapman_new pa = \<lparr>sm_perfmons = Map.empty, sm_placement = pa, sm_to_writer = [], sm_replies = []\<rparr>"

definition sm_reply :: "bool \<Rightarrow> snapman_reply \<Rightarrow> ('pa, 'h, 'st) snapman \<Rightarrow> ('pa, 'h, 'st) snapman" where
  "sm_reply waiting r s = (if waiting then s\<lparr>sm_replies := sm_replies s @ [r]\<rparr> else s)"

definition spawn_monitor ::
  "('pa, 'h, 'mx) placement_ops \<Rightarrow> bool \<Rightarrow> worker_id \<Rightarrow> monitor_target list \<Rightarrow> sandbox_state_ref
    \<Rightarrow> ('pa, 'h, 'st) snapman \<Rightarrow> ('pa, 'h, 'st) snapman" where
  "spawn_monitor P waiting w targets start s =
     (case pa_start P targets start waiting of
        Inr h \<Rightarrow> sm_reply waiting (MonitorReady w) (s\<lparr>sm_perfmons := (sm_perfmons s)(w \<mapsto> h)\<rparr>)
      | Inl _ \<Rightarrow> s)"

definition end_monitor ::
  "('pa, 'h, 'mx) placement_ops \<Rightarrow> worker_id \<Rightarrow> function_id \<Rightarrow> sandbox_state_ref \<Rightarrow> duration option
    \<Rightarrow> ('pa, 'h, 'st) snapman \<Rightarrow> ('pa, 'h, 'st) snapman" where
  "end_monitor P w fid start dur s =
     (case sm_perfmons s w of
        None \<Rightarrow> s
      | Some h \<Rightarrow>
          (let s = s\<lparr>sm_perfmons := (sm_perfmons s)(w := None)\<rparr> in
           case pa_finish P h of
             Inl _ \<Rightarrow> s
           | Inr mx \<Rightarrow>
               (case dur of
                  None \<Rightarrow> s
                | Some d \<Rightarrow> s\<lparr>sm_placement := snd (pa_update_metrics P fid start mx d (sm_placement s))\<rparr>)))"

definition query_paths ::
  "('pa, 'h, 'mx) placement_ops \<Rightarrow> bool \<Rightarrow> function_id \<Rightarrow> ('pa, 'h, 'st) snapman
    \<Rightarrow> (string fault + unit) \<times> ('pa, 'h, 'st) snapman" where
  "query_paths P waiting fid s =
     (case pa_query_path P fid (sm_placement s) of
        (Inl (Panic m), pa) \<Rightarrow> (Inl (Panic m), s\<lparr>sm_placement := pa\<rparr>)
      | (Inl (Err e), pa) \<Rightarrow> (Inr (), sm_reply waiting (PathsReply fid (Inl e)) (s\<lparr>sm_placement := pa\<rparr>))
      | (Inr ps, pa) \<Rightarrow> (Inr (), sm_reply waiting (PathsReply fid (Inr ps)) (s\<lparr>sm_placement := pa\<rparr>)))"

definition snapman_handle ::
  "('pa, 'h, 'mx) placement_ops \<Rightarrow> bool \<Rightarrow> bool \<Rightarrow> 'st snapman_msg \<Rightarrow> ('pa, 'h, 'st) snapman
    \<Rightarrow> (string fault + unit) \<times> ('pa, 'h, 'st) snapman" where
  "snapman_handle P waiting sent msg s =
     (case msg of
        SpawnMonitor w targets start \<Rightarrow> (Inr (), spawn_monitor P waiting w targets start s)
      | StopMonitor w fid start dur \<Rightarrow> (Inr (), end_monitor P w fid start dur s)
      | QueryPaths fid \<Rightarrow> query_paths P waiting fid s
      | NewSnapshot fid st \<Rightarrow> (Inr (), if sent then s\<lparr>sm_to_writer := sm_to_writer s @ [msg]\<rparr> else s)
      | SnapshotRemoved fid sid \<Rightarrow> (Inr (), if sent then s\<lparr>sm_to_writer := sm_to_writer s @ [msg]\<rparr> else s))"

text \<open>\<^verbatim>\<open>run\<close> over the messages that arrive until the channel is closed.\<close>

fun snapman_run ::
  "('pa, 'h, 'mx) placement_ops \<Rightarrow> (bool \<times> bool \<times> 'st snapman_msg) list \<Rightarrow> ('pa, 'h, 'st) snapman
    \<Rightarrow> (string fault + unit) \<times> ('pa, 'h, 'st) snapman" where
  "snapman_run P [] s = (Inr (), s)"
| "snapman_run P ((waiting, sent, msg) # ms) s = bindE (snapman_handle P waiting sent msg s) (\<lambda>_. snapman_run P ms)"

section \<open>The database writer\<close>

definition db_new_snapshot ::
  "('st, 'f, 'm, 's) redb \<Rightarrow> ('st \<Rightarrow> sandbox_id) \<Rightarrow> (db_access \<Rightarrow> bool) \<Rightarrow> function_id \<Rightarrow> 'st
    \<Rightarrow> ('f, 'm, 's) db \<Rightarrow> ('f, 'm, 's) db" where
  "db_new_snapshot R st_id io fid st d =
     (let sid = st_id st in
      if \<not> io (AtBegin fid) then d
      else if \<not> io (AtOpenSpf 0) then d
      else if \<not> io (AtInsertSid fid sid) then d
      else
        (case mt_insert (rd_spf R) fid sid (opened_spf R d) of
           (True, _) \<Rightarrow> d
         | (False, m) \<Rightarrow>
             (if \<not> io (AtOpenSnapshots 0) then d
              else if \<not> io (AtInsertState sid) then d
              else
                (let w = d\<lparr>db_spf := Some m,
                           db_snapshots := Some (snd (tb_insert (rd_snapshots R) sid st (opened_snapshots R d)))\<rparr> in
                 if io (AtCommit fid) then w else d))))"

definition db_rm_snapshot ::
  "('st, 'f, 'm, 's) redb \<Rightarrow> (db_access \<Rightarrow> bool) \<Rightarrow> function_id \<Rightarrow> sandbox_id
    \<Rightarrow> ('f, 'm, 's) db \<Rightarrow> ('f, 'm, 's) db" where
  "db_rm_snapshot R io fid sid d =
     (if \<not> io (AtBegin fid) then d
      else
        (let w = (if \<not> io (AtOpenSpf 0) then d
                  else if \<not> io (AtRemoveSid fid sid) then d\<lparr>db_spf := Some (opened_spf R d)\<rparr>
                  else d\<lparr>db_spf := Some (snd (mt_remove (rd_spf R) fid sid (opened_spf R d)))\<rparr>) in
         if \<not> io (AtOpenSnapshots 0) then d
         else if \<not> io (AtRemoveState sid) then d
         else
           (let w = w\<lparr>db_snapshots := Some (snd (tb_remove (rd_snapshots R) sid (opened_snapshots R w)))\<rparr> in
            if io (AtCommit fid) then w else d)))"

definition db_write ::
  "('st, 'f, 'm, 's) redb \<Rightarrow> ('st \<Rightarrow> sandbox_id) \<Rightarrow> (db_access \<Rightarrow> bool) \<Rightarrow> 'st snapman_msg
    \<Rightarrow> ('f, 'm, 's) db \<Rightarrow> ('f, 'm, 's) db" where
  "db_write R st_id io msg d =
     (case msg of
        NewSnapshot fid st \<Rightarrow> db_new_snapshot R st_id io fid st d
      | SnapshotRemoved fid sid \<Rightarrow> db_rm_snapshot R io fid sid d
      | _ \<Rightarrow> d)"

text \<open>The thread handles its messages in order; the storage can fail differently for each.\<close>

fun db_writer ::
  "('st, 'f, 'm, 's) redb \<Rightarrow> ('st \<Rightarrow> sandbox_id) \<Rightarrow> ((db_access \<Rightarrow> bool) \<times> 'st snapman_msg) list
    \<Rightarrow> ('f, 'm, 's) db \<Rightarrow> ('f, 'm, 's) db" where
  "db_writer R st_id [] d = d"
| "db_writer R st_id ((io, msg) # ms) d = db_writer R st_id ms (db_write R st_id io msg d)"

section \<open>Invariant of the tables\<close>

text \<open>
  Every sandbox belongs to one function (\<open>own\<close>): ids are listed under that function only, and every
  stored state has its own id as key.
\<close>

definition tables_owned ::
  "('st, 'f, 'm, 's) redb \<Rightarrow> ('st \<Rightarrow> sandbox_id) \<Rightarrow> (sandbox_id \<Rightarrow> function_id) \<Rightarrow> ('f, 'm, 's) db \<Rightarrow> bool" where
  "tables_owned R st_id own d \<longleftrightarrow>
     (\<forall>fid sid. sid \<in> listed R d fid \<longrightarrow> fid = own sid)
   \<and> (\<forall>sid st. stored_state R d sid = Some st \<longrightarrow> st_id st = sid)"

text \<open>Every stored state is listed.\<close>

definition tables_ok ::
  "('st, 'f, 'm, 's) redb \<Rightarrow> ('st \<Rightarrow> sandbox_id) \<Rightarrow> (sandbox_id \<Rightarrow> function_id) \<Rightarrow> ('f, 'm, 's) db \<Rightarrow> bool" where
  "tables_ok R st_id own d \<longleftrightarrow> tables_owned R st_id own d
   \<and> (\<forall>sid. stored_state R d sid \<noteq> None \<longrightarrow> sid \<in> listed R d (own sid))"

text \<open>In addition, every listed id has a state.\<close>

definition tables_full ::
  "('st, 'f, 'm, 's) redb \<Rightarrow> ('st \<Rightarrow> sandbox_id) \<Rightarrow> (sandbox_id \<Rightarrow> function_id) \<Rightarrow> ('f, 'm, 's) db \<Rightarrow> bool" where
  "tables_full R st_id own d \<longleftrightarrow> tables_ok R st_id own d
   \<and> (\<forall>fid sid. sid \<in> listed R d fid \<longrightarrow> stored_state R d sid \<noteq> None)"

fun well_owned :: "('st \<Rightarrow> sandbox_id) \<Rightarrow> (sandbox_id \<Rightarrow> function_id) \<Rightarrow> 'st snapman_msg \<Rightarrow> bool" where
  "well_owned st_id own (NewSnapshot fid st) = (fid = own (st_id st))"
| "well_owned st_id own (SnapshotRemoved fid sid) = (fid = own sid)"
| "well_owned st_id own _ = True"

lemma listed_simps [simp]:
  "listed R (d\<lparr>db_functions := x\<rparr>) = listed R d" "listed R (d\<lparr>db_snapshots := y\<rparr>) = listed R d"
  "listed R (d\<lparr>db_spf := Some m\<rparr>) fid = set (mt_get (rd_spf R) fid m)"
  "stored_state R (d\<lparr>db_functions := x\<rparr>) = stored_state R d" "stored_state R (d\<lparr>db_spf := z\<rparr>) = stored_state R d"
  "stored_state R (d\<lparr>db_snapshots := Some t\<rparr>) sid = tb_get (rd_snapshots R) sid t"
  "stored_function R (d\<lparr>db_spf := z\<rparr>) = stored_function R d" "stored_function R (d\<lparr>db_snapshots := y\<rparr>) = stored_function R d"
  by (auto simp: listed_def stored_state_def stored_function_def opened_spf_def opened_snapshots_def
      opened_functions_def fun_eq_iff)

lemma listed_update:
  assumes "redb_spec R"
  shows "set (mt_get (rd_spf R) f (snd (mt_insert (rd_spf R) fid sid (opened_spf R d))))
      = (if f = fid then insert sid (listed R d fid) else listed R d f)"
    "set (mt_get (rd_spf R) f (snd (mt_remove (rd_spf R) fid sid (opened_spf R d))))
      = (if f = fid then listed R d fid - {sid} else listed R d f)"
    "set (mt_get (rd_spf R) f (opened_spf R d)) = listed R d f"
    "fst (mt_insert (rd_spf R) fid sid (opened_spf R d)) \<longleftrightarrow> sid \<in> listed R d fid"
  using multimap_specD(3,4,6) [OF redb_specD(2) [OF assms]] by (simp_all add: listed_def)

lemma stored_update:
  assumes "redb_spec R"
  shows "tb_get (rd_snapshots R) s (snd (tb_insert (rd_snapshots R) sid st (opened_snapshots R d)))
      = (if s = sid then Some st else stored_state R d s)"
    "tb_get (rd_snapshots R) s (snd (tb_remove (rd_snapshots R) sid (opened_snapshots R d)))
      = (if s = sid then None else stored_state R d s)"
    "tb_get (rd_snapshots R) s (opened_snapshots R d) = stored_state R d s"
  using table_specD(3,5) [OF redb_specD(3) [OF assms]] by (simp_all add: stored_state_def)

lemma opened_snapshots_spf [simp]: "opened_snapshots R (d\<lparr>db_spf := z\<rparr>) = opened_snapshots R d"
  by (simp add: opened_snapshots_def)

lemma db_new_snapshot_cases:
  assumes "redb_spec R" and "db_new_snapshot R st_id io fid st d = d'"
  shows "d' = d \<or> (st_id st \<notin> listed R d fid
      \<and> listed R d' = (listed R d)(fid := insert (st_id st) (listed R d fid))
      \<and> stored_state R d' = (stored_state R d)(st_id st \<mapsto> st) \<and> stored_function R d' = stored_function R d)"
  using assms(2) listed_update [OF assms(1)] stored_update [OF assms(1)]
  by (auto simp: db_new_snapshot_def Let_def fun_eq_iff prod_eq_iff split: prod.splits bool.splits if_splits)

lemma db_rm_snapshot_cases:
  assumes "redb_spec R" and "db_rm_snapshot R io fid sid d = d'"
  shows "d' = d \<or> ((listed R d' = listed R d \<or> listed R d' = (listed R d)(fid := listed R d fid - {sid}))
      \<and> stored_state R d' = (stored_state R d)(sid := None) \<and> stored_function R d' = stored_function R d)"
  using assms(2) listed_update [OF assms(1)] stored_update [OF assms(1)]
  by (auto simp: db_rm_snapshot_def Let_def fun_eq_iff split: if_splits)

lemma tables_ok_db_write:
  assumes R: "redb_spec R" and ok: "tables_ok R st_id own d" and m: "well_owned st_id own msg"
  shows "tables_ok R st_id own (db_write R st_id io msg d)"
proof (cases msg)
  case (NewSnapshot fid st)
  then show ?thesis
    using db_new_snapshot_cases [OF R refl, of st_id io fid st d] ok m
    by (fastforce simp: db_write_def tables_ok_def tables_owned_def)
next
  case (SnapshotRemoved fid sid)
  then show ?thesis
    using db_rm_snapshot_cases [OF R refl, of io fid sid d] ok m
    by (fastforce simp: db_write_def tables_ok_def tables_owned_def split: if_splits)
qed (use ok in \<open>simp_all add: db_write_def\<close>)

lemma tables_ok_db_writer:
  assumes "redb_spec R" and "tables_ok R st_id own d" and "\<forall>(io, m) \<in> set ms. well_owned st_id own m"
  shows "tables_ok R st_id own (db_writer R st_id ms d)"
  using assms(2,3) by (induction ms arbitrary: d) (auto simp: tables_ok_db_write [OF assms(1)])

section \<open>What a writer without failures does\<close>

fun persist :: "('st \<Rightarrow> sandbox_id) \<Rightarrow> 'st snapman_msg \<Rightarrow> (sandbox_id \<rightharpoonup> 'st) \<Rightarrow> (sandbox_id \<rightharpoonup> 'st)" where
  "persist st_id (NewSnapshot fid st) m = (if m (st_id st) = None then m(st_id st \<mapsto> st) else m)"
| "persist st_id (SnapshotRemoved fid sid) m = m(sid := None)"
| "persist st_id _ m = m"

lemma db_new_snapshot_clean:
  assumes "redb_spec R"
  shows "listed R (db_new_snapshot R st_id (\<lambda>_. True) fid st d) = (listed R d)(fid := insert (st_id st) (listed R d fid))"
    "stored_state R (db_new_snapshot R st_id (\<lambda>_. True) fid st d)
      = (if st_id st \<in> listed R d fid then stored_state R d else (stored_state R d)(st_id st \<mapsto> st))"
  using listed_update [OF assms] stored_update [OF assms]
  by (auto simp: db_new_snapshot_def Let_def fun_eq_iff prod_eq_iff insert_absorb split: prod.splits bool.splits)

lemma db_rm_snapshot_clean:
  assumes "redb_spec R"
  shows "listed R (db_rm_snapshot R (\<lambda>_. True) fid sid d) = (listed R d)(fid := listed R d fid - {sid})"
    "stored_state R (db_rm_snapshot R (\<lambda>_. True) fid sid d) = (stored_state R d)(sid := None)"
  using listed_update [OF assms] stored_update [OF assms]
  by (simp_all add: db_rm_snapshot_def Let_def fun_eq_iff)

lemma tables_fullD:
  assumes "tables_full R st_id own d"
  shows "tables_ok R st_id own d" "sid \<in> listed R d fid \<longleftrightarrow> fid = own sid \<and> stored_state R d sid \<noteq> None"
  using assms by (auto simp: tables_full_def tables_ok_def tables_owned_def)

lemma db_write_clean:
  assumes R: "redb_spec R" and ok: "tables_full R st_id own d" and m: "well_owned st_id own msg"
  shows "tables_full R st_id own (db_write R st_id (\<lambda>_. True) msg d)
    \<and> stored_state R (db_write R st_id (\<lambda>_. True) msg d) = persist st_id msg (stored_state R d)"
proof -
  have ok': "tables_ok R st_id own (db_write R st_id (\<lambda>_. True) msg d)"
    by (rule tables_ok_db_write [OF R tables_fullD(1) [OF ok] m])
  show ?thesis
  proof (cases msg)
    case (NewSnapshot fid st)
    then show ?thesis
      using ok' m db_new_snapshot_clean [OF R, of st_id fid st d] tables_fullD(2) [OF ok]
      by (auto simp: tables_full_def db_write_def)
  next
    case (SnapshotRemoved fid sid)
    then show ?thesis
      using ok' m db_rm_snapshot_clean [OF R, of fid sid d] tables_fullD(2) [OF ok]
      by (auto simp: tables_full_def db_write_def split: if_splits)
  qed (use ok in \<open>simp_all add: db_write_def\<close>)
qed

lemma db_writer_clean:
  assumes "redb_spec R" and "tables_full R st_id own d" and "\<forall>m \<in> set ms. well_owned st_id own m"
  shows "tables_full R st_id own (db_writer R st_id (map (Pair (\<lambda>_. True)) ms) d)
    \<and> stored_state R (db_writer R st_id (map (Pair (\<lambda>_. True)) ms) d) = fold (persist st_id) ms (stored_state R d)"
  using assms(2,3) by (induction ms arbitrary: d) (auto simp: db_write_clean [OF assms(1)])

section \<open>What the actor does\<close>

fun for_writer :: "'st snapman_msg \<Rightarrow> bool" where
  "for_writer (NewSnapshot _ _) = True"
| "for_writer (SnapshotRemoved _ _) = True"
| "for_writer _ = False"

context placement
begin

lemma handle_ok:
  assumes "ok (sm_placement s)" and "snapman_handle P waiting sent msg s = (r, s')"
  shows "r = Inr () \<and> ok (sm_placement s')
    \<and> sm_to_writer s' = sm_to_writer s @ (if sent \<and> for_writer msg then [msg] else [])"
proof (cases msg)
  case (QueryPaths fid)
  obtain r1 pa where q: "pa_query_path P fid (sm_placement s) = (r1, pa)" by fastforce
  then show ?thesis
    using assms(2) query_ok [OF assms(1) q] QueryPaths
    by (auto simp: snapman_handle_def query_paths_def sm_reply_def split: sum.splits fault.splits)
next
  case (StopMonitor w fid start dur)
  have "ok (snd (pa_update_metrics P fid start mx d (sm_placement s)))" for mx d
    using update_ok [OF assms(1), of fid start mx d] by (metis prod.collapse)
  then show ?thesis
    using assms StopMonitor
    by (auto simp: snapman_handle_def end_monitor_def Let_def split: option.splits sum.splits)
qed (use assms in \<open>auto simp: snapman_handle_def spawn_monitor_def sm_reply_def split: sum.splits\<close>)

text \<open>The actor never panics and forwards what the writer has to know, in order.\<close>

lemma run_ok:
  assumes "ok (sm_placement s)" and "snapman_run P ms s = (r, s')"
  shows "r = Inr () \<and> ok (sm_placement s')
    \<and> sm_to_writer s' = sm_to_writer s @ map (snd \<circ> snd) (filter (\<lambda>(_, sent, m). sent \<and> for_writer m) ms)"
  using assms
proof (induction ms arbitrary: s)
  case Nil
  then show ?case by simp
next
  case (Cons a ms)
  obtain waiting sent msg where a: "a = (waiting, sent, msg)" by (cases a) auto
  obtain r1 s1 where h: "snapman_handle P waiting sent msg s = (r1, s1)" by fastforce
  show ?case
    using Cons.IH [of s1] Cons.prems handle_ok [OF Cons.prems(1) h] h a by auto
qed

end

lemma tables_full_empty:
  assumes "redb_spec R" "db_spf d = None" "db_snapshots d = None"
  shows "tables_full R st_id own d"
  using assms(2,3) multimap_specD(1) [OF redb_specD(2) [OF assms(1)]] table_specD(1) [OF redb_specD(3) [OF assms(1)]]
  by (simp add: tables_full_def tables_ok_def tables_owned_def listed_def stored_state_def opened_spf_def opened_snapshots_def)

end
