(* ===== verification/Reinstate_Inv.thy ===== *)
theory Reinstate_Inv
  imports Reinstate Snapman
begin

text \<open>
  What reading the snapshots back gives, and what a synchronization leaves in the tables. The first
  holds for every failure of the storage, the second is stated for a storage without failures.
\<close>

section \<open>Runtimes that reinstate\<close>

text \<open>The state of a sandbox has its id, and a sandbox that is reinstated has the state it was made from.\<close>

definition boot_ok :: "('rt, 'st) boot_rt \<Rightarrow> bool" where
  "boot_ok B \<longleftrightarrow>
     (\<forall>sb st. bt_state B sb = Some (Inr st) \<longrightarrow> bt_id B st = sb_id sb)
   \<and> (\<forall>fid st rt sb rt'. bt_reinstate B fid st rt = (Some (Inr sb), rt') \<longrightarrow> bt_state B sb = Some (Inr st))"

text \<open>No operation of the runtime fails.\<close>

definition boot_total :: "('rt, 'st) boot_rt \<Rightarrow> bool" where
  "boot_total B \<longleftrightarrow> boot_ok B
   \<and> (\<forall>fi. \<exists>rt. start_runtime B fi = Inr rt)
   \<and> (\<forall>sb. \<exists>st. bt_state B sb = Some (Inr st))
   \<and> (\<forall>fid st rt. \<exists>sb rt'. bt_reinstate B fid st rt = (Some (Inr sb), rt'))"

lemma boot_okD:
  assumes "boot_ok B"
  shows "bt_state B sb = Some (Inr st) \<Longrightarrow> bt_id B st = sb_id sb"
    "bt_reinstate B fid st rt = (Some (Inr sb), rt') \<Longrightarrow> bt_state B sb = Some (Inr st)"
    "bt_reinstate B fid st rt = (Some (Inr sb), rt') \<Longrightarrow> sb_id sb = bt_id B st"
  using assms unfolding boot_ok_def by metis+

section \<open>Rows of the table of ids\<close>

definition row_pairs :: "(function_id \<times> sandbox_id list) list \<Rightarrow> (function_id \<times> sandbox_id) list" where
  "row_pairs rows = concat (map (\<lambda>(fid, sids). map (Pair fid) sids) rows)"

lemma row_pairs_simps [simp]:
  "row_pairs [] = []" "row_pairs ((fid, sids) # rows) = map (Pair fid) sids @ row_pairs rows"
  by (simp_all add: row_pairs_def)

lemma set_row_pairs: "(fid, sid) \<in> set (row_pairs rows) \<longleftrightarrow> (\<exists>sids. (fid, sids) \<in> set rows \<and> sid \<in> set sids)"
  by (induction rows) auto

text \<open>The rows that the database has.\<close>

definition db_rows :: "('st, 'f, 'm, 's) redb \<Rightarrow> ('f, 'm, 's) db \<Rightarrow> (function_id \<times> sandbox_id list) list" where
  "db_rows R d = mt_iter (rd_spf R) (opened_spf R d)"

lemma db_rows_ok:
  assumes "redb_spec R"
  shows "distinct (keys (db_rows R d))"
    "(fid, sids) \<in> set (db_rows R d) \<Longrightarrow> set sids = listed R d fid \<and> sids \<noteq> [] \<and> distinct sids"
    "fid \<in> set (keys (db_rows R d)) \<longleftrightarrow> listed R d fid \<noteq> {}"
    "(fid, sid) \<in> set (row_pairs (db_rows R d)) \<longleftrightarrow> sid \<in> listed R d fid"
proof -
  note M = multimap_specD [OF redb_specD(2) [OF assms]]
  have iff: "(f, ss) \<in> set (db_rows R d) \<longleftrightarrow> ss = mt_get (rd_spf R) f (opened_spf R d) \<and> ss \<noteq> []" for f ss
    unfolding db_rows_def by (rule M(8))
  show "distinct (keys (db_rows R d))" unfolding db_rows_def by (rule M(7))
  show "set sids = listed R d fid \<and> sids \<noteq> [] \<and> distinct sids" if "(fid, sids) \<in> set (db_rows R d)"
    using that M(2) unfolding iff listed_def by blast
  show "fid \<in> set (keys (db_rows R d)) \<longleftrightarrow> listed R d fid \<noteq> {}"
  proof
    assume "fid \<in> set (keys (db_rows R d))"
    then obtain ss where "(fid, ss) \<in> set (db_rows R d)" by auto
    then show "listed R d fid \<noteq> {}" unfolding iff listed_def by (metis set_empty)
  next
    assume "listed R d fid \<noteq> {}"
    then have "(fid, mt_get (rd_spf R) fid (opened_spf R d)) \<in> set (db_rows R d)" unfolding iff listed_def by simp
    then show "fid \<in> set (keys (db_rows R d))" by force
  qed
  show "(fid, sid) \<in> set (row_pairs (db_rows R d)) \<longleftrightarrow> sid \<in> listed R d fid"
    unfolding set_row_pairs listed_def using iff by auto
qed

lemma distinct_row_ids:
  assumes "distinct (keys rows)" "\<And>fid sids. (fid, sids) \<in> set rows \<Longrightarrow> distinct sids \<and> (\<forall>sid \<in> set sids. own sid = fid)"
  shows "distinct (map snd (row_pairs rows))"
  using assms
proof (induction rows)
  case Nil
  then show ?case by simp
next
  case (Cons row rows)
  obtain fid sids where row: "row = (fid, sids)" by force
  have "distinct (map snd (row_pairs rows))" using Cons by auto
  moreover have "sid \<notin> snd ` set (row_pairs rows)" if s: "sid \<in> set sids" for sid
  proof
    assume "sid \<in> snd ` set (row_pairs rows)"
    then obtain g ss where g: "(g, ss) \<in> set rows" "sid \<in> set ss" by (auto simp: set_row_pairs)
    have "own sid = g" using Cons.prems(2) g by (meson list.set_intros(2))
    moreover have "own sid = fid" using Cons.prems(2) s row by (meson list.set_intros(1))
    ultimately have "own sid = g" "own sid = fid" .
    then show False using g(1) Cons.prems(1) row by force
  qed
  ultimately show ?case using Cons.prems(2) row by (auto simp: comp_def)
qed

section \<open>Reading back\<close>

definition pair_ids :: "(function_id \<times> sandbox list) list \<Rightarrow> (function_id \<times> sandbox_id) multiset" where
  "pair_ids ss = image_mset (\<lambda>(fid, sb). (fid, sb_id sb)) (orphans ss)"

lemma push_sandbox_orphans:
  assumes "distinct (keys ss)"
  shows "orphans (push_sandbox fid sb ss) = add_mset (fid, sb) (orphans ss)" "distinct (keys (push_sandbox fid sb ss))"
proof -
  show "orphans (push_sandbox fid sb ss) = add_mset (fid, sb) (orphans ss)"
  proof (cases "map_of ss fid")
    case None
    then show ?thesis by (simp add: push_sandbox_def orphans_update_new)
  next
    case (Some sbs)
    then show ?thesis using orphans_update [OF assms Some, of "sbs @ [sb]"] by (simp add: push_sandbox_def)
  qed
  show "distinct (keys (push_sandbox fid sb ss))" using assms by (simp add: push_sandbox_def distinct_update)
qed

lemma reinstate_sandbox_ok:
  assumes "boot_ok B" and "\<And>sid st. tb_get (rd_snapshots R) sid t = Some st \<Longrightarrow> bt_id B st = sid"
    and "reinstate_sandbox B R io sid_ok sid fi t rt = (Inr sb, rt')"
  shows "sb_id sb = sid \<and> bt_state B sb = map_option Inr (tb_get (rd_snapshots R) sid t)"
proof (cases "tb_get (rd_snapshots R) sid t")
  case None
  then show ?thesis using assms(3) by (simp add: reinstate_sandbox_def split: if_splits)
next
  case (Some st)
  obtain r rt1 where r: "bt_reinstate B (fi_id fi) st rt = (r, rt1)" by fastforce
  have "r = Some (Inr sb)"
    using assms(3) Some r by (auto simp: reinstate_sandbox_def split: if_splits option.splits sum.splits)
  then show ?thesis using boot_okD(2,3) [OF assms(1)] r Some assms(2) by fastforce
qed

lemma reinstate_sids_ids:
  assumes "boot_ok B" and "\<And>sid st. tb_get (rd_snapshots R) sid t = Some st \<Longrightarrow> bt_id B st = sid"
    and "reinstate_sids B R io fid fi t sids rt ss = (b, ss')" and "distinct (keys ss)"
  shows "distinct (keys ss') \<and> pair_ids ss' \<subseteq># pair_ids ss + mset (map (Pair fid) sids)"
  using assms(3,4)
proof (induction sids arbitrary: rt ss)
  case Nil
  then show ?case by simp
next
  case (Cons sid sids)
  obtain r rt' where r: "reinstate_sandbox B R io (io (AtSid sid)) sid fi t rt = (r, rt')" by fastforce
  have skip: "pair_ids ss' \<subseteq># pair_ids ss + mset (map (Pair fid) (sid # sids))"
    if "pair_ids ss' \<subseteq># pair_ids ss + mset (map (Pair fid) sids)"
    using subset_mset.trans [OF that] by simp
  show ?case
  proof (cases r)
    case (Inr sb)
    have id: "sb_id sb = sid" using reinstate_sandbox_ok [OF assms(1,2) r [unfolded Inr]] by simp
    have "reinstate_sids B R io fid fi t sids rt' (push_sandbox fid sb ss) = (b, ss')"
      using Cons.prems(1) r Inr by simp
    from Cons.IH [OF this push_sandbox_orphans(2) [OF Cons.prems(2)]] show ?thesis
      by (simp add: pair_ids_def push_sandbox_orphans(1) [OF Cons.prems(2)] id)
  next
    case (Inl e)
    then show ?thesis
      using Cons.prems r Cons.IH [of rt' ss] skip by (auto split: if_splits)
  qed
qed

lemma reinstate_rows_ids:
  assumes "boot_ok B" and "\<And>sid st. tb_get (rd_snapshots R) sid t = Some st \<Longrightarrow> bt_id B st = sid"
    and "reinstate_rows B R io tf t rows ss = Inr ss'" and "distinct (keys ss)"
  shows "distinct (keys ss') \<and> pair_ids ss' \<subseteq>#
    pair_ids ss + mset (filter (\<lambda>(fid, _). tb_get (rd_functions R) fid tf \<noteq> None) (row_pairs rows))"
  using assms(3,4)
proof (induction rows arbitrary: ss)
  case Nil
  then show ?case by simp
next
  case (Cons row rows)
  obtain fid sids where row: "row = (fid, sids)" by force
  show ?case
  proof (cases "tb_get (rd_functions R) fid tf")
    case None
    then show ?thesis using Cons row by (auto simp: filter_map comp_def split: if_splits)
  next
    case (Some func)
    then obtain rt where rt: "start_runtime B (rf_info func) = Inr rt"
      using Cons.prems(1) row by (auto split: if_splits sum.splits)
    obtain b s1 where s1: "reinstate_sids B R io fid (rf_info func) t sids rt ss = (b, s1)" by fastforce
    have k: "distinct (keys s1)" "pair_ids s1 \<subseteq># pair_ids ss + mset (map (Pair fid) sids)"
      using reinstate_sids_ids [OF assms(1,2) s1 Cons.prems(2)] by auto
    let ?new = "mset (filter (\<lambda>(fid, _). tb_get (rd_functions R) fid tf \<noteq> None) (row_pairs rows))"
    have "distinct (keys ss') \<and> pair_ids ss' \<subseteq># pair_ids s1 + ?new"
    proof (cases b)
      case True
      then show ?thesis using Cons.prems(1) row Some rt s1 k(1) by (auto split: if_splits)
    next
      case False
      then have "reinstate_rows B R io tf t rows s1 = Inr ss'"
        using Cons.prems(1) row Some rt s1 by (auto split: if_splits)
      then show ?thesis using Cons.IH k(1) by blast
    qed
    moreover have "pair_ids s1 + ?new \<subseteq># pair_ids ss + mset (map (Pair fid) sids) + ?new"
      using k(2) by simp
    ultimately show ?thesis
      using row Some subset_mset.trans by (fastforce simp: filter_map comp_def ac_simps)
  qed
qed

text \<open>Whatever fails, no sandbox is read back twice, and only sandboxes of stored functions are.\<close>

lemma reinstate_from_db_ids:
  assumes R: "redb_spec R" and B: "boot_ok B" and ok: "tables_owned R (bt_id B) own d"
    and r: "reinstate_snapshots_from_db B R io d = Inr ss"
  shows "distinct (keys ss) \<and> (\<forall>sid. count (orphan_ids (orphans ss)) sid \<le> 1)
    \<and> (\<forall>(fid, sb) \<in># orphans ss. stored_function R d fid \<noteq> None \<and> sb_id sb \<in> listed R d fid)"
proof (cases "db_functions d = None \<or> db_spf d = None \<or> db_snapshots d = None")
  case True
  then have "ss = []"
    using r by (auto simp: reinstate_snapshots_from_db_def split: if_splits option.splits)
  then show ?thesis by (simp add: orphans_Nil)
next
  case False
  then obtain tf m t where t: "db_functions d = Some tf" "db_spf d = Some m" "db_snapshots d = Some t" by auto
  have rows: "mt_iter (rd_spf R) m = db_rows R d" using t by (simp add: db_rows_def opened_spf_def)
  have tf: "tb_get (rd_functions R) fid tf = stored_function R d fid" for fid
    using t by (simp add: stored_function_def opened_functions_def)
  have keyed: "bt_id B st = sid" if "tb_get (rd_snapshots R) sid t = Some st" for sid st
    using that ok t by (auto simp: tables_owned_def stored_state_def opened_snapshots_def)
  have "reinstate_rows B R io tf t (db_rows R d) [] = Inr ss"
    using r t rows by (simp add: reinstate_snapshots_from_db_def split: if_splits)
  from reinstate_rows_ids [OF B keyed this]
  have k: "distinct (keys ss)" and sub: "pair_ids ss \<subseteq># mset (filter (\<lambda>(fid, _). stored_function R d fid \<noteq> None) (row_pairs (db_rows R d)))"
    by (simp_all add: pair_ids_def orphans_Nil tf)
  let ?prs = "filter (\<lambda>(fid, _). stored_function R d fid \<noteq> None) (row_pairs (db_rows R d))"
  have "distinct (map snd (row_pairs (db_rows R d)))"
    using db_rows_ok(1) [OF R, of d] db_rows_ok(2) [OF R, of _ _ d] ok
    by (intro distinct_row_ids [where own = own]) (auto simp: tables_owned_def)
  then have d: "distinct (map snd ?prs)" by (simp add: distinct_map_filter)
  have "orphan_ids (orphans ss) = image_mset snd (pair_ids ss)"
    by (simp add: orphan_ids_def pair_ids_def multiset.map_comp comp_def case_prod_unfold)
  then have "orphan_ids (orphans ss) \<subseteq># mset (map snd ?prs)"
    using image_mset_subseteq_mono [OF sub, of snd] by simp
  then have "count (orphan_ids (orphans ss)) sid \<le> 1" for sid
    using d by (metis distinct_count_atmost_1 mset_subset_eq_count le_trans of_bool_def zero_le_one order_refl)
  moreover have "stored_function R d fid \<noteq> None \<and> sb_id sb \<in> listed R d fid" if "(fid, sb) \<in># orphans ss" for fid sb
  proof -
    have "(fid, sb_id sb) \<in># pair_ids ss" using that by (force simp: pair_ids_def)
    then have "(fid, sb_id sb) \<in> set ?prs" using sub mset_subset_eqD set_mset_mset by metis
    then show ?thesis using db_rows_ok(4) [OF R] by auto
  qed
  ultimately show ?thesis using k by auto
qed

section \<open>Reading back without failures\<close>

definition states :: "('rt, 'st) boot_rt \<Rightarrow> (function_id \<times> sandbox list) list \<Rightarrow> (function_id \<times> (string + 'st) option) set" where
  "states B ss = (\<lambda>(fid, sb). (fid, bt_state B sb)) ` set_mset (orphans ss)"

lemma states_push:
  "distinct (keys ss) \<Longrightarrow> states B (push_sandbox fid sb ss) = insert (fid, bt_state B sb) (states B ss)"
  by (simp add: states_def push_sandbox_orphans(1))

lemma boot_totalD:
  assumes "boot_total B"
  shows "boot_ok B" "\<exists>rt. start_runtime B fi = Inr rt" "\<exists>st. bt_state B sb = Some (Inr st)"
    "\<exists>sb rt'. bt_reinstate B fid st rt = (Some (Inr sb), rt')"
  using assms by (simp_all add: boot_total_def)

definition read_states ::
  "('st, 'f, 'm, 's) redb \<Rightarrow> 's \<Rightarrow> (function_id \<times> sandbox_id) list \<Rightarrow> (function_id \<times> (string + 'st) option) set" where
  "read_states R t ps = set (map (\<lambda>(fid, sid). (fid, map_option Inr (tb_get (rd_snapshots R) sid t)))
     (filter (\<lambda>(fid, sid). tb_get (rd_snapshots R) sid t \<noteq> None) ps))"

lemma read_states_simps [simp]:
  "read_states R t [] = {}"
  "read_states R t ((fid, sid) # ps) =
     (case tb_get (rd_snapshots R) sid t of None \<Rightarrow> read_states R t ps
      | Some st \<Rightarrow> insert (fid, Some (Inr st)) (read_states R t ps))"
  "read_states R t (ps @ qs) = read_states R t ps \<union> read_states R t qs"
  by (simp_all add: read_states_def split: option.splits)

lemma reinstate_sids_clean:
  assumes "boot_total B" and "distinct (keys ss)"
  shows "\<exists>ss'. reinstate_sids B R (\<lambda>_. True) fid fi t sids rt ss = (False, ss') \<and> distinct (keys ss')
    \<and> states B ss' = states B ss \<union> read_states R t (map (Pair fid) sids)"
  using assms(2)
proof (induction sids arbitrary: rt ss)
  case Nil
  then show ?case by simp
next
  case (Cons sid sids)
  show ?case
  proof (cases "tb_get (rd_snapshots R) sid t")
    case None
    then show ?thesis using Cons.IH [OF Cons.prems, of rt] by (simp add: reinstate_sandbox_def)
  next
    case (Some st)
    obtain sb rt' where sb: "bt_reinstate B (fi_id fi) st rt = (Some (Inr sb), rt')"
      using boot_totalD(4) [OF assms(1)] by blast
    have st: "bt_state B sb = Some (Inr st)" by (rule boot_okD(2) [OF boot_totalD(1) [OF assms(1)] sb])
    from Cons.IH [OF push_sandbox_orphans(2) [OF Cons.prems], of rt' fid sb] show ?thesis
      using Some sb st states_push [OF Cons.prems, of B fid sb] by (simp add: reinstate_sandbox_def)
  qed
qed

lemma reinstate_rows_clean:
  assumes "boot_total B" and "distinct (keys ss)"
  shows "\<exists>ss'. reinstate_rows B R (\<lambda>_. True) tf t rows ss = Inr ss' \<and> distinct (keys ss')
    \<and> states B ss' = states B ss
        \<union> read_states R t (filter (\<lambda>(fid, _). tb_get (rd_functions R) fid tf \<noteq> None) (row_pairs rows))"
  using assms(2)
proof (induction rows arbitrary: ss)
  case Nil
  then show ?case by simp
next
  case (Cons row rows)
  obtain fid sids where row: "row = (fid, sids)" by force
  show ?case
  proof (cases "tb_get (rd_functions R) fid tf")
    case None
    then show ?thesis using Cons.IH [OF Cons.prems] row by (simp add: filter_map comp_def)
  next
    case (Some func)
    obtain rt where rt: "start_runtime B (rf_info func) = Inr rt" using boot_totalD(2) [OF assms(1)] by blast
    obtain s1 where s1: "reinstate_sids B R (\<lambda>_. True) fid (rf_info func) t sids rt ss = (False, s1)" "distinct (keys s1)"
        "states B s1 = states B ss \<union> read_states R t (map (Pair fid) sids)"
      using reinstate_sids_clean [OF assms(1) Cons.prems, of R fid "rf_info func" t sids rt] by (elim exE conjE)
    obtain s2 where s2: "reinstate_rows B R (\<lambda>_. True) tf t rows s1 = Inr s2" "distinct (keys s2)"
        "states B s2 = states B s1 \<union> read_states R t (filter (\<lambda>(fid, _). tb_get (rd_functions R) fid tf \<noteq> None) (row_pairs rows))"
      using Cons.IH [OF s1(2)] by blast
    have "filter (\<lambda>(fid, _). tb_get (rd_functions R) fid tf \<noteq> None) (row_pairs (row # rows))
        = map (Pair fid) sids @ filter (\<lambda>(fid, _). tb_get (rd_functions R) fid tf \<noteq> None) (row_pairs rows)"
      using row Some by (simp add: filter_map comp_def)
    then show ?thesis
      using s1(1,3) s2 row Some rt by (intro exI [of _ s2]) (simp only: read_states_simps, simp add: Un_assoc)
  qed
qed

text \<open>The ids of a function with the states that are stored for them.\<close>

definition view :: "('st, 'f, 'm, 's) redb \<Rightarrow> ('f, 'm, 's) db \<Rightarrow> function_id \<Rightarrow> (sandbox_id \<times> 'st) set" where
  "view R d fid = {(sid, st). sid \<in> listed R d fid \<and> stored_state R d sid = Some st}"

lemma reinstate_clean:
  assumes R: "redb_spec R" and B: "boot_total B"
  shows "\<exists>ss. reinstate_snapshots_from_db B R (\<lambda>_. True) d = Inr ss
    \<and> states B ss = {(fid, Some (Inr st)) | fid st sid. (sid, st) \<in> view R d fid \<and> stored_function R d fid \<noteq> None}"
proof -
  have e: "states B [] = {}" by (simp add: states_def orphans_Nil)
  have n: "db_functions d = None \<Longrightarrow> stored_function R d fid = None" "db_spf d = None \<Longrightarrow> view R d fid = {}"
      "db_snapshots d = None \<Longrightarrow> view R d fid = {}" for fid
    using table_specD(1) [OF redb_specD(1) [OF R]] table_specD(1) [OF redb_specD(3) [OF R]] multimap_specD(1) [OF redb_specD(2) [OF R]]
    by (simp_all add: stored_function_def view_def listed_def stored_state_def opened_functions_def opened_spf_def opened_snapshots_def)
  show ?thesis
  proof (cases "db_functions d = None \<or> db_spf d = None \<or> db_snapshots d = None")
    case True
    then have "reinstate_snapshots_from_db B R (\<lambda>_. True) d = Inr []"
      by (auto simp: reinstate_snapshots_from_db_def split: option.splits)
    then show ?thesis using True n e by auto
  next
    case False
    then obtain tf m t where t: "db_functions d = Some tf" "db_spf d = Some m" "db_snapshots d = Some t" by auto
    have eq: "mt_iter (rd_spf R) m = db_rows R d" "tb_get (rd_functions R) fid tf = stored_function R d fid"
        "tb_get (rd_snapshots R) sid t = stored_state R d sid" for fid sid
      using t by (simp_all add: db_rows_def opened_spf_def stored_function_def opened_functions_def stored_state_def opened_snapshots_def)
    have "reinstate_snapshots_from_db B R (\<lambda>_. True) d = reinstate_rows B R (\<lambda>_. True) tf t (db_rows R d) []"
      using t eq(1) by (simp add: reinstate_snapshots_from_db_def)
    moreover have "read_states R t (filter (\<lambda>(fid, _). stored_function R d fid \<noteq> None) (row_pairs (db_rows R d)))
        = {(fid, Some (Inr st)) | fid st sid. (sid, st) \<in> view R d fid \<and> stored_function R d fid \<noteq> None}" (is "?A = ?B")
    proof (rule set_eqI, clarify)
      fix fid x
      have "(fid, x) \<in> ?A \<longleftrightarrow> (\<exists>sid. sid \<in> listed R d fid \<and> stored_function R d fid \<noteq> None
          \<and> stored_state R d sid \<noteq> None \<and> x = map_option Inr (stored_state R d sid))"
        using db_rows_ok(4) [OF R] by (force simp: read_states_def eq(3))
      also have "\<dots> \<longleftrightarrow> (\<exists>sid st. sid \<in> listed R d fid \<and> stored_function R d fid \<noteq> None
          \<and> stored_state R d sid = Some st \<and> x = Some (Inr st))"
        by force
      finally show "(fid, x) \<in> ?A \<longleftrightarrow> (fid, x) \<in> ?B" unfolding view_def by blast
    qed
    moreover obtain ss where "reinstate_rows B R (\<lambda>_. True) tf t (db_rows R d) [] = Inr ss"
        "states B ss = read_states R t (filter (\<lambda>(fid, _). stored_function R d fid \<noteq> None) (row_pairs (db_rows R d)))"
      using reinstate_rows_clean [OF B, of "[]" R tf t "db_rows R d"] unfolding e eq(2) by auto
    ultimately show ?thesis by metis
  qed
qed

end
