(* ===== verification/Reinstate_Sync.thy ===== *)
theory Reinstate_Sync
  imports Reinstate_Inv
begin

text \<open>
  What \<^verbatim>\<open>sync_db_snapshots\<close> leaves in the database when neither the storage nor the runtime fails: for
  every function the ids and states of the snapshots that the pool has, and nothing else.
\<close>

abbreviation fine :: "db_access \<Rightarrow> bool" where
  "fine \<equiv> \<lambda>_. True"

lemma read_spf_rows_fine: "read_spf_rows fine rows = Inr rows"
  by (induction rows) (auto simp: list_ex_iff)

section \<open>Storing the states\<close>

lemma upsert_states_clean:
  assumes R: "redb_spec R" and B: "boot_total B" and "distinct (map sb_id sbs)"
    and "upsert_states B R fine sbs t = (ok, ps, t')"
  shows "ok \<and> ps = map sb_id sbs
    \<and> (\<forall>sb \<in> set sbs. Some (map_option Inr (tb_get (rd_snapshots R) (sb_id sb) t')) = Some (bt_state B sb))
    \<and> (\<forall>sid. sid \<notin> sb_id ` set sbs \<longrightarrow> tb_get (rd_snapshots R) sid t' = tb_get (rd_snapshots R) sid t)"
  using assms(3,4)
proof (induction sbs arbitrary: t t' ok ps)
  case Nil
  then show ?case by simp
next
  case (Cons sb sbs)
  note T = table_specD [OF redb_specD(3) [OF R]]
  obtain st where st: "bt_state B sb = Some (Inr st)" using boot_totalD(3) [OF B] by blast
  have id: "bt_id B st = sb_id sb" by (rule boot_okD(1) [OF boot_totalD(1) [OF B] st])
  let ?t = "snd (tb_insert (rd_snapshots R) (sb_id sb) st t)"
  obtain ok1 ps1 t1 where u: "upsert_states B R fine sbs ?t = (ok1, ps1, t1)" by (metis prod_cases3)
  have e: "ok = ok1" "ps = sb_id sb # ps1" "t' = t1" using Cons.prems(2) st u id by auto
  have d: "distinct (map sb_id sbs)" "sb_id sb \<notin> sb_id ` set sbs" using Cons.prems(1) by auto
  show ?case using Cons.IH [OF d(1) u] d(2) st T(3) e by auto
qed

section \<open>One function\<close>

definition same_pool :: "'q pool \<Rightarrow> 'q pool \<Rightarrow> bool" where
  "same_pool p p' \<longleftrightarrow> snapshots p' = snapshots p \<and> store p' = store p"

definition same_tables :: "('st, 'f, 'm, 's) redb \<Rightarrow> ('f, 'm, 's) db \<Rightarrow> ('f, 'm, 's) db \<Rightarrow> bool" where
  "same_tables R d d' \<longleftrightarrow> stored_function R d' = stored_function R d \<and> listed R d' = listed R d \<and> stored_state R d' = stored_state R d"

lemma destroy_orphan_ok:
  assumes "registered (store p) fid \<noteq> None"
  shows "\<exists>r p'. destroy_orphan_sandbox en fid sb p = (r, p') \<and> \<not> is_panic r \<and> same_pool p p'"
  using assms
  by (auto simp: destroy_orphan_sandbox_def read_store_def get_registered_function_def store_get_def
      registered_def same_pool_def split: option.splits orphan_outcome.splits)

lemma destroy_sids_ok:
  assumes "registered (store p) fid \<noteq> None"
  shows "\<exists>p'. destroy_sids B R en io fid fi t sids rt p = (Inr (), p') \<and> same_pool p p'"
  using assms
proof (induction sids arbitrary: rt p)
  case Nil
  then show ?case by (simp add: same_pool_def)
next
  case (Cons sid sids)
  obtain r rt' where r: "reinstate_sandbox B R io True sid fi t rt = (r, rt')" by fastforce
  show ?case
  proof (cases r)
    case (Inl e)
    then show ?thesis using r Cons.IH [OF Cons.prems] by (simp add: same_pool_def)
  next
    case (Inr sb)
    obtain r1 p1 where d: "destroy_orphan_sandbox en fid sb p = (r1, p1)" "\<not> is_panic r1" "same_pool p p1"
      using destroy_orphan_ok [OF Cons.prems] by blast
    have "registered (store p1) fid \<noteq> None" using Cons.prems d(3) by (simp add: same_pool_def)
    from Cons.IH [OF this] d show ?thesis
      using r Inr by (cases r1) (auto simp: matchE_def same_pool_def is_panic_def split: fault.splits)
  qed
qed

lemma same_tables_open:
  "same_tables R w (w\<lparr>db_functions := Some (opened_functions R w), db_snapshots := Some (opened_snapshots R w)\<rparr>)"
  by (simp add: same_tables_def stored_function_def stored_state_def listed_def opened_functions_def
      opened_snapshots_def opened_spf_def fun_eq_iff)

lemma reinstate_and_destroy_ok:
  assumes B: "boot_total B" and "stored_function R w fid \<noteq> None \<longrightarrow> registered (store p) fid \<noteq> None"
  shows "\<exists>p' w'. reinstate_and_destroy B R en fine fid sids (p, w) = (Inr (), p', w') \<and> same_pool p p' \<and> same_tables R w w'"
proof (cases "sids = []")
  case True
  then show ?thesis by (simp add: reinstate_and_destroy_def same_pool_def same_tables_def)
next
  case False
  define w1 where "w1 = w\<lparr>db_functions := Some (opened_functions R w), db_snapshots := Some (opened_snapshots R w)\<rparr>"
  have w1: "same_tables R w w1" unfolding w1_def by (rule same_tables_open)
  have e: "reinstate_and_destroy B R en fine fid sids (p, w) =
      (case stored_function R w1 fid of
         None \<Rightarrow> (Inr (), p, w1)
       | Some func \<Rightarrow>
           (case start_runtime B (rf_info func) of
              Inl e \<Rightarrow> (Inl (Err e), p, w1)
            | Inr rt \<Rightarrow>
                (case destroy_sids B R en fine fid (rf_info func) (opened_snapshots R w1) sids rt p of
                   (r, p) \<Rightarrow> (r, p, w1))))"
    using False unfolding reinstate_and_destroy_def w1_def Let_def by simp
  show ?thesis
  proof (cases "stored_function R w1 fid")
    case None
    then show ?thesis using w1 by (simp add: e same_pool_def)
  next
    case (Some func)
    then have r: "registered (store p) fid \<noteq> None" using assms(2) w1 by (simp add: same_tables_def)
    obtain rt where rt: "start_runtime B (rf_info func) = Inr rt" using boot_totalD(2) [OF B] by blast
    obtain p1 where "destroy_sids B R en fine fid (rf_info func) (opened_snapshots R w1) sids rt p = (Inr (), p1)" "same_pool p p1"
      using destroy_sids_ok [OF r, of B R en fine "rf_info func" "opened_snapshots R w1" sids rt] by (elim exE conjE)
    then show ?thesis using w1 by (simp add: e Some rt)
  qed
qed

lemma fold_remove_states:
  assumes "redb_spec R"
  shows "tb_get (rd_snapshots R) sid (fold (\<lambda>sid t. snd (tb_remove (rd_snapshots R) sid t)) sids t)
    = (if sid \<in> set sids then None else tb_get (rd_snapshots R) sid t)"
  using table_specD(5) [OF redb_specD(3) [OF assms]] by (induction sids arbitrary: t) auto

lemma fold_remove_sids:
  assumes "redb_spec R"
  shows "set (mt_get (rd_spf R) f (fold (\<lambda>sid m. snd (mt_remove (rd_spf R) fid sid m)) sids m))
    = (if f = fid then set (mt_get (rd_spf R) f m) - set sids else set (mt_get (rd_spf R) f m))"
  using multimap_specD(6) [OF redb_specD(2) [OF assms]] by (induction sids arbitrary: m) auto

lemma fold_insert_sids:
  assumes "redb_spec R"
  shows "set (mt_get (rd_spf R) f (fold (\<lambda>sid m. snd (mt_insert (rd_spf R) fid sid m)) sids m))
    = (if f = fid then set (mt_get (rd_spf R) f m) \<union> set sids else set (mt_get (rd_spf R) f m))"
  using multimap_specD(4) [OF redb_specD(2) [OF assms]] by (induction sids arbitrary: m) auto

lemma table_steps_clean:
  assumes "redb_spec R"
  shows "\<exists>w'. remove_db_snapshots R fine sids w = (Inr (), w') \<and> listed R w' = listed R w \<and> stored_function R w' = stored_function R w
      \<and> (\<forall>sid. stored_state R w' sid = (if sid \<in> set sids then None else stored_state R w sid))"
    "\<exists>w'. remove_db_sids R fine fid sids w = (Inr (), w') \<and> stored_state R w' = stored_state R w \<and> stored_function R w' = stored_function R w
      \<and> listed R w' = (listed R w)(fid := listed R w fid - set sids)"
    "\<exists>w'. update_db_sids R fine fid sids w = (Inr (), w') \<and> stored_state R w' = stored_state R w \<and> stored_function R w' = stored_function R w
      \<and> listed R w' = (listed R w)(fid := listed R w fid \<union> set sids)"
  using fold_remove_states [OF assms] fold_remove_sids [OF assms] fold_insert_sids [OF assms]
  by (simp_all add: remove_db_snapshots_def remove_db_sids_def update_db_sids_def fun_eq_iff stored_update(3) [OF assms]
      listed_update(3) [OF assms])

lemma update_and_forget_clean:
  assumes R: "redb_spec R" and B: "boot_total B" and d: "distinct (map sb_id sbs)"
  shows "\<exists>w'. update_and_forget B R fine sbs sids w = (Inr (), [], filter (\<lambda>sid. sid \<notin> sb_id ` set sbs) sids, w')
    \<and> listed R w' = listed R w \<and> stored_function R w' = stored_function R w
    \<and> (\<forall>sb \<in> set sbs. map_option Inr (stored_state R w' (sb_id sb)) = bt_state B sb)
    \<and> (\<forall>sid. sid \<notin> sb_id ` set sbs \<longrightarrow> stored_state R w' sid = stored_state R w sid)"
proof -
  obtain ok ps t where u: "upsert_states B R fine sbs (opened_snapshots R w) = (ok, ps, t)" by (metis prod_cases3)
  have f: "filter (\<lambda>sb. sb_id sb \<notin> sb_id ` set sbs) sbs = []" by (simp add: filter_empty_conv)
  show ?thesis
    using upsert_states_clean [OF R B d u] u f
    by (auto simp: update_and_forget_def Let_def stored_update(3) [OF R])
qed

text \<open>The snapshots of one function that the pool has.\<close>

definition tracked :: "('rt, 'st) boot_rt \<Rightarrow> (function_id \<times> sandbox list) list \<Rightarrow> function_id \<Rightarrow> (sandbox_id \<times> 'st) set" where
  "tracked B ss fid = {(sb_id sb, st) | sb st. (\<exists>sbs. map_of ss fid = Some sbs \<and> sb \<in> set sbs) \<and> bt_state B sb = Some (Inr st)}"

text \<open>
  What a step for the function \<open>fid\<close> leaves: its own snapshots agree with the pool, those of the others
  and the ownership of the tables are as they were.
\<close>

definition synced ::
  "('rt, 'st) boot_rt \<Rightarrow> ('st, 'f, 'm, 's) redb \<Rightarrow> (sandbox_id \<Rightarrow> function_id) \<Rightarrow> function_id
    \<Rightarrow> (function_id \<times> sandbox list) list \<Rightarrow> ('f, 'm, 's) db \<Rightarrow> ('f, 'm, 's) db \<Rightarrow> bool" where
  "synced B R own fid ss d d' \<longleftrightarrow> tables_owned R (bt_id B) own d' \<and> stored_function R d' = stored_function R d
   \<and> view R d' fid = tracked B ss fid
   \<and> (\<forall>f. f \<noteq> fid \<longrightarrow> listed R d' f = listed R d f \<and> view R d' f = view R d f)"

lemma tracked_iff:
  assumes "boot_total B"
  shows "(sid, st) \<in> tracked B ss fid \<longleftrightarrow> (\<exists>sbs sb. map_of ss fid = Some sbs \<and> sb \<in> set sbs \<and> sb_id sb = sid \<and> bt_state B sb = Some (Inr st))"
  by (auto simp: tracked_def)

lemma view_iff: "(sid, st) \<in> view R d fid \<longleftrightarrow> sid \<in> listed R d fid \<and> stored_state R d sid = Some st"
  by (simp add: view_def)

text \<open>A change of the tables that touches the states of the ids in \<open>S\<close>, all owned by \<open>fid\<close>, only.\<close>

lemma syncedI:
  assumes "tables_owned R (bt_id B) own d" and "\<And>sid. sid \<in> S \<Longrightarrow> own sid = fid"
    and "\<And>sid. sid \<notin> S \<Longrightarrow> stored_state R d' sid = stored_state R d sid"
    and "\<And>f. f \<noteq> fid \<Longrightarrow> listed R d' f = listed R d f" "listed R d' fid \<subseteq> listed R d fid \<union> S"
    and "\<And>sid st. sid \<in> S \<Longrightarrow> stored_state R d' sid = Some st \<Longrightarrow> bt_id B st = sid"
    and "stored_function R d' = stored_function R d" and "view R d' fid = tracked B ss fid"
  shows "synced B R own fid ss d d'"
proof -
  have own: "own sid = f" if "sid \<in> listed R d f" for sid f using assms(1) that by (auto simp: tables_owned_def)
  have "stored_state R d' sid = stored_state R d sid" if "sid \<in> listed R d f" "f \<noteq> fid" for sid f
    using own [OF that(1)] that(2) assms(2,3) by metis
  then have "view R d' f = view R d f" if "f \<noteq> fid" for f using that assms(4) by (auto simp: view_def)
  moreover have "f = own sid" if "sid \<in> listed R d' f" for sid f
  proof (cases "f = fid")
    case True
    then have "sid \<in> listed R d fid \<union> S" using that assms(5) by blast
    then show ?thesis using assms(2) own True by blast
  next
    case False
    then have "sid \<in> listed R d f" using that assms(4) by blast
    then show ?thesis using own by blast
  qed
  moreover have "bt_id B st = sid" if "stored_state R d' sid = Some st" for sid st
    using that assms(1,3,6) by (cases "sid \<in> S") (auto simp: tables_owned_def)
  ultimately show ?thesis using assms(4,7,8) by (simp add: synced_def tables_owned_def)
qed

text \<open>The pool's snapshots: one owner per sandbox, and no sandbox twice.\<close>

definition pool_owned :: "(sandbox_id \<Rightarrow> function_id) \<Rightarrow> (function_id \<times> sandbox list) list \<Rightarrow> bool" where
  "pool_owned own ss \<longleftrightarrow> distinct (keys ss)
   \<and> (\<forall>fid sbs. map_of ss fid = Some sbs \<longrightarrow> distinct (map sb_id sbs) \<and> (\<forall>sb \<in> set sbs. own (sb_id sb) = fid))"

text \<open>
  A function that has rows in the table. Its tracked snapshots must all be listed there, because this
  step does not add rows.
\<close>

lemma sync_listed_clean:
  assumes R: "redb_spec R" and B: "boot_total B" and t: "tables_owned R (bt_id B) own d" and o: "pool_owned own (snapshots p)"
    and sids: "set sids = listed R d fid"
    and kept: "\<And>sbs sb. map_of (snapshots p) fid = Some sbs \<Longrightarrow> sb \<in> set sbs \<Longrightarrow> sb_id sb \<in> listed R d fid"
    and reg: "stored_function R d fid \<noteq> None \<longrightarrow> registered (store p) fid \<noteq> None"
  shows "\<exists>p' d'. sync_listed B R en fine fid sids (p, d) = (Inr (), p', d') \<and> store p' = store p
    \<and> AList.delete fid (snapshots p') = AList.delete fid (snapshots p) \<and> synced B R own fid (snapshots p) d d'"
proof -
  have own: "own sid = fid" if "sid \<in> set sids" for sid using t that sids by (auto simp: tables_owned_def)
  show ?thesis
  proof (cases "map_of (snapshots p) fid")
    case None
    obtain p1 w1 where 1: "reinstate_and_destroy B R en fine fid sids (p, d) = (Inr (), p1, w1)" "same_pool p p1" "same_tables R d w1"
      using reinstate_and_destroy_ok [OF B reg] by blast
    obtain w2 where 2: "remove_db_snapshots R fine sids w1 = (Inr (), w2)" "listed R w2 = listed R w1"
        "stored_function R w2 = stored_function R w1" "\<forall>sid. stored_state R w2 sid = (if sid \<in> set sids then None else stored_state R w1 sid)"
      using table_steps_clean(1) [OF R] by blast
    obtain w3 where 3: "remove_db_sids R fine fid sids w2 = (Inr (), w3)" "stored_state R w3 = stored_state R w2"
        "stored_function R w3 = stored_function R w2" "listed R w3 = (listed R w2)(fid := listed R w2 fid - set sids)"
      using table_steps_clean(2) [OF R] by blast
    have e: "sync_listed B R en fine fid sids (p, d) = (Inr (), p1, w3)"
      using None 1(1) 2(1) 3(1) by (simp add: sync_listed_def on_tables_def)
    have "synced B R own fid (snapshots p) d w3"
      using 1(3) 2 3 sids None own
      by (intro syncedI [OF t, where S = "set sids"]) (auto simp: same_tables_def view_def tracked_def)
    then show ?thesis using e 1(2) by (auto simp: same_pool_def)
  next
    case (Some sbs)
    have d: "distinct (map sb_id sbs)" and os: "\<forall>sb \<in> set sbs. own (sb_id sb) = fid" using o Some by (auto simp: pool_owned_def)
    let ?sids = "filter (\<lambda>sid. sid \<notin> sb_id ` set sbs) sids"
    obtain w1 where 1: "update_and_forget B R fine sbs sids d = (Inr (), [], ?sids, w1)" "listed R w1 = listed R d"
        "stored_function R w1 = stored_function R d" "\<forall>sb \<in> set sbs. map_option Inr (stored_state R w1 (sb_id sb)) = bt_state B sb"
        "\<forall>sid. sid \<notin> sb_id ` set sbs \<longrightarrow> stored_state R w1 sid = stored_state R d sid"
      using update_and_forget_clean [OF R B d] by blast
    have reg': "stored_function R w1 fid \<noteq> None \<longrightarrow> registered (store (set_snapshots fid [] p)) fid \<noteq> None"
      using reg 1(3) by (simp add: set_snapshots_def)
    obtain p2 w2 where 2: "reinstate_and_destroy B R en fine fid ?sids (set_snapshots fid [] p, w1) = (Inr (), p2, w2)"
        "same_pool (set_snapshots fid [] p) p2" "same_tables R w1 w2"
      using reinstate_and_destroy_ok [OF B reg'] by blast
    obtain w3 where 3: "remove_db_snapshots R fine ?sids w2 = (Inr (), w3)" "listed R w3 = listed R w2"
        "stored_function R w3 = stored_function R w2" "\<forall>sid. stored_state R w3 sid = (if sid \<in> set ?sids then None else stored_state R w2 sid)"
      using table_steps_clean(1) [OF R] by blast
    have e: "sync_listed B R en fine fid sids (p, d) = (Inr (), p2, w3)"
      using Some 1(1) 2(1) 3(1) by (simp add: sync_listed_def on_tables_def)
    have st: "stored_state R w3 sid = (if sid \<in> sb_id ` set sbs then stored_state R w1 sid
        else if sid \<in> set sids then None else stored_state R d sid)" for sid
      using 1(5) 2(3) 3(4) by (auto simp: same_tables_def)
    have "(sid, s) \<in> view R w3 fid \<longleftrightarrow> (sid, s) \<in> tracked B (snapshots p) fid" for sid s
    proof -
      have "(sid, s) \<in> view R w3 fid \<longleftrightarrow> sid \<in> set sids \<and> sid \<in> sb_id ` set sbs \<and> stored_state R w1 sid = Some s"
        using st 1(2) 2(3) 3(2) sids by (auto simp: view_def same_tables_def split: if_splits)
      also have "\<dots> \<longleftrightarrow> sid \<in> sb_id ` set sbs \<and> stored_state R w1 sid = Some s"
        using kept [OF Some] sids by auto
      also have "\<dots> \<longleftrightarrow> (sid, s) \<in> tracked B (snapshots p) fid"
        using 1(4) Some by (force simp: tracked_def)
      finally show ?thesis .
    qed
    then have v: "view R w3 fid = tracked B (snapshots p) fid" by auto
    have id: "bt_id B s = sid" if "sid \<in> set sids" "stored_state R w3 sid = Some s" for sid s
    proof -
      have "(sid, s) \<in> tracked B (snapshots p) fid"
        using that v sids 1(2) 2(3) 3(2) by (auto simp: view_def same_tables_def)
      then show ?thesis using boot_okD(1) [OF boot_totalD(1) [OF B]] by (auto simp: tracked_def)
    qed
    have "sb_id ` set sbs \<subseteq> set sids" using kept [OF Some] sids by auto
    then have "synced B R own fid (snapshots p) d w3"
      using st 1(2,3) 2(3) 3(2,3) own id v
      by (intro syncedI [OF t, where S = "set sids"]) (auto simp: same_tables_def)
    then show ?thesis using e 2(2) by (auto simp: same_pool_def set_snapshots_def delete_update_same)
  qed
qed

section \<open>All functions\<close>

lemma pool_owned_delete:
  assumes "pool_owned own ss"
  shows "pool_owned own (AList.delete fid ss)" "f \<noteq> fid \<Longrightarrow> tracked B (AList.delete fid ss) f = tracked B ss f"
  using assms by (auto simp: pool_owned_def tracked_def delete_conv' distinct_delete)

lemma sync_rows_clean:
  assumes R: "redb_spec R" and B: "boot_total B" and "tables_owned R (bt_id B) own d" and "pool_owned own (snapshots p)"
    and "distinct (keys rows)" and "\<And>fid sids. (fid, sids) \<in> set rows \<Longrightarrow> set sids = listed R d fid"
    and "\<And>fid sbs sb. fid \<in> set (keys rows) \<Longrightarrow> map_of (snapshots p) fid = Some sbs \<Longrightarrow> sb \<in> set sbs \<Longrightarrow> sb_id sb \<in> listed R d fid"
    and "\<And>fid. stored_function R d fid \<noteq> None \<Longrightarrow> registered (store p) fid \<noteq> None"
  shows "\<exists>p' d'. sync_rows B R en (\<lambda>_. fine) rows (p, d) = (Inr (), p', d') \<and> pool_owned own (snapshots p')
    \<and> map_of (snapshots p') = (\<lambda>f. if f \<in> set (keys rows) then None else map_of (snapshots p) f)
    \<and> tables_owned R (bt_id B) own d' \<and> stored_function R d' = stored_function R d
    \<and> (\<forall>f. if f \<in> set (keys rows) then view R d' f = tracked B (snapshots p) f
           else listed R d' f = listed R d f \<and> view R d' f = view R d f)"
  using assms(3-)
proof (induction rows arbitrary: p d)
  case Nil
  then show ?case by simp
next
  case (Cons row rows)
  obtain fid sids where row: "row = (fid, sids)" by force
  obtain p1 d1 where 1: "sync_listed B R en fine fid sids (p, d) = (Inr (), p1, d1)" "store p1 = store p"
      "AList.delete fid (snapshots p1) = AList.delete fid (snapshots p)" "synced B R own fid (snapshots p) d d1"
    using sync_listed_clean [OF R B Cons.prems(1,2), of sids fid en] Cons.prems(4,5,6) row by (auto 0 4)
  note S = 1(4) [unfolded synced_def]
  define p2 where "p2 = p1\<lparr>snapshots := AList.delete fid (snapshots p1)\<rparr>"
  have fid: "fid \<notin> set (keys rows)" using Cons.prems(3) row by simp
  have p2: "snapshots p2 = AList.delete fid (snapshots p)" "store p2 = store p" using 1(2,3) by (simp_all add: p2_def)
  have m: "map_of (snapshots p2) f = (if f = fid then None else map_of (snapshots p) f)" for f by (simp add: p2 delete_conv')
  have "\<exists>p' d'. sync_rows B R en (\<lambda>_. fine) rows (p2, d1) = (Inr (), p', d') \<and> pool_owned own (snapshots p')
    \<and> map_of (snapshots p') = (\<lambda>f. if f \<in> set (keys rows) then None else map_of (snapshots p2) f)
    \<and> tables_owned R (bt_id B) own d' \<and> stored_function R d' = stored_function R d1
    \<and> (\<forall>f. if f \<in> set (keys rows) then view R d' f = tracked B (snapshots p2) f
           else listed R d' f = listed R d1 f \<and> view R d' f = view R d1 f)"
  proof (rule Cons.IH)
    show "tables_owned R (bt_id B) own d1" using S by blast
    show "pool_owned own (snapshots p2)" using pool_owned_delete(1) [OF Cons.prems(2)] p2 by simp
    show "distinct (keys rows)" using Cons.prems(3) by simp
    show "set ss = listed R d1 f" if "(f, ss) \<in> set rows" for f ss
      using that S Cons.prems(4) fid by (metis image_eqI fst_conv list.set_intros(2) set_map)
    show "sb_id sb \<in> listed R d1 f" if "f \<in> set (keys rows)" "map_of (snapshots p2) f = Some sbs" "sb \<in> set sbs" for f sbs sb
      using that S Cons.prems(5) [of f sbs sb] fid m [of f] by (cases "f = fid") auto
    show "registered (store p2) f \<noteq> None" if "stored_function R d1 f \<noteq> None" for f
      using that S Cons.prems(6) p2 by metis
  qed
  then obtain p' d' where 2: "sync_rows B R en (\<lambda>_. fine) rows (p2, d1) = (Inr (), p', d')" "pool_owned own (snapshots p')"
      "map_of (snapshots p') = (\<lambda>f. if f \<in> set (keys rows) then None else map_of (snapshots p2) f)"
      "tables_owned R (bt_id B) own d'" "stored_function R d' = stored_function R d1"
      "\<And>f. if f \<in> set (keys rows) then view R d' f = tracked B (snapshots p2) f
           else listed R d' f = listed R d1 f \<and> view R d' f = view R d1 f"
    by auto
  have "sync_rows B R en (\<lambda>_. fine) (row # rows) (p, d) = (Inr (), p', d')"
    using 1(1) 2(1) row by (simp add: p2_def in_txn_def)
  moreover have "if f \<in> set (keys (row # rows)) then view R d' f = tracked B (snapshots p) f
           else listed R d' f = listed R d f \<and> view R d' f = view R d f" for f
    using 2(6) [of f] S fid row p2 pool_owned_delete(2) [OF Cons.prems(2), of f fid B] by (auto split: if_splits)
  ultimately show ?case
    using 2 S m row by (intro exI [of _ p'] exI [of _ d']) (auto simp: fun_eq_iff)
qed

lemma sync_unlisted_clean:
  assumes R: "redb_spec R" and B: "boot_total B" and t: "tables_owned R (bt_id B) own d"
    and d: "distinct (map sb_id sbs)" and o: "\<forall>sb \<in> set sbs. own (sb_id sb) = fid"
    and n: "listed R d fid = {}"
  shows "\<exists>d'. sync_unlisted B R fine fid sbs (p, d) = (Inr (), set_snapshots fid [] p, d')
    \<and> synced B R own fid [(fid, sbs)] d d'"
proof -
  obtain w1 where 1: "update_db_sids R fine fid (map sb_id sbs) d = (Inr (), w1)" "stored_state R w1 = stored_state R d"
      "stored_function R w1 = stored_function R d" "listed R w1 = (listed R d)(fid := listed R d fid \<union> set (map sb_id sbs))"
    using table_steps_clean(3) [OF R] by blast
  obtain w2 where 2: "update_and_forget B R fine sbs [] w1 = (Inr (), [], [], w2)" "listed R w2 = listed R w1"
      "stored_function R w2 = stored_function R w1" "\<forall>sb \<in> set sbs. map_option Inr (stored_state R w2 (sb_id sb)) = bt_state B sb"
      "\<forall>sid. sid \<notin> sb_id ` set sbs \<longrightarrow> stored_state R w2 sid = stored_state R w1 sid"
    using update_and_forget_clean [OF R B d, of "[]" w1] by auto
  have v: "(sid, s) \<in> view R w2 fid \<longleftrightarrow> (sid, s) \<in> tracked B [(fid, sbs)] fid" for sid s
    using 2(2,4) 1(4) n by (force simp: view_def tracked_def)
  have id: "bt_id B s = sid" if a: "sid \<in> sb_id ` set sbs" and b: "stored_state R w2 sid = Some s" for sid s
  proof -
    obtain sb where "sb \<in> set sbs" "sid = sb_id sb" using a by blast
    moreover from this have "bt_state B sb = Some (Inr s)" using 2(4) b by force
    ultimately show ?thesis using boot_okD(1) [OF boot_totalD(1) [OF B]] by blast
  qed
  have "synced B R own fid [(fid, sbs)] d w2"
    using 1 2 o v id n
    by (intro syncedI [OF t, where S = "sb_id ` set sbs"]) auto
  then show ?thesis using 1(1) 2(1) by (simp add: sync_unlisted_def on_tables_def)
qed

lemma sync_rest_clean:
  assumes R: "redb_spec R" and B: "boot_total B" and "tables_owned R (bt_id B) own d" and "pool_owned own rest"
    and "\<And>fid. fid \<in> set (keys rest) \<Longrightarrow> listed R d fid = {}"
  shows "\<exists>p' d'. sync_rest B R (\<lambda>_. fine) rest (p, d) = (Inr (), p', d')
    \<and> tables_owned R (bt_id B) own d' \<and> stored_function R d' = stored_function R d
    \<and> (\<forall>f. view R d' f = (if f \<in> set (keys rest) then tracked B rest f else view R d f))"
  using assms(3-)
proof (induction rest arbitrary: p d)
  case Nil
  then show ?case by simp
next
  case (Cons row rest)
  obtain fid sbs where row: "row = (fid, sbs)" by force
  have "distinct (map sb_id sbs)" "\<forall>sb \<in> set sbs. own (sb_id sb) = fid" "fid \<notin> set (keys rest)" "pool_owned own rest"
    using Cons.prems(2) row by (auto simp: pool_owned_def map_of_eq_None_iff split: if_splits)
  note o = this
  obtain d1 where 1: "sync_unlisted B R fine fid sbs (p, d) = (Inr (), set_snapshots fid [] p, d1)" "synced B R own fid [(fid, sbs)] d d1"
    using sync_unlisted_clean [OF R B Cons.prems(1) o(1,2) Cons.prems(3), of p] row by auto
  note S = 1(2) [unfolded synced_def]
  have l: "listed R d1 f = {}" if f: "f \<in> set (keys rest)" for f
    using S Cons.prems(3) [of f] f o(3) row by (cases "f = fid") auto
  obtain p' d' where 2: "sync_rest B R (\<lambda>_. fine) rest (set_snapshots fid [] p, d1) = (Inr (), p', d')"
      "tables_owned R (bt_id B) own d'" "stored_function R d' = stored_function R d1"
      "\<And>f. view R d' f = (if f \<in> set (keys rest) then tracked B rest f else view R d1 f)"
    using Cons.IH [OF conjunct1 [OF S] o(4) l, of "set_snapshots fid [] p"] by auto
  have "tracked B (row # rest) f = (if f = fid then tracked B [(fid, sbs)] fid else tracked B rest f)" for f
    using row by (auto simp: tracked_def)
  then have "view R d' f = (if f \<in> set (keys (row # rest)) then tracked B (row # rest) f else view R d f)" for f
    using 2(4) [of f] S o(3) row by auto
  then show ?case
    using 1(1) 2 S row by (intro exI [of _ p'] exI [of _ d']) (simp add: in_txn_def)
qed

text \<open>After a synchronization the database has, for every function, the snapshots that the pool had.\<close>

lemma sync_clean:
  assumes R: "redb_spec R" and B: "boot_total B" and t: "tables_owned R (bt_id B) own d" and o: "pool_owned own (snapshots p)"
    and spf: "db_spf d \<noteq> None"
    and kept: "\<And>fid sbs sb. listed R d fid \<noteq> {} \<Longrightarrow> map_of (snapshots p) fid = Some sbs \<Longrightarrow> sb \<in> set sbs \<Longrightarrow> sb_id sb \<in> listed R d fid"
    and reg: "\<And>fid. stored_function R d fid \<noteq> None \<Longrightarrow> registered (store p) fid \<noteq> None"
  shows "\<exists>p' d'. sync_db_snapshots B R en (\<lambda>_. fine) (p, d) = (Inr (), p', d') \<and> tables_owned R (bt_id B) own d'
    \<and> stored_function R d' = stored_function R d \<and> (\<forall>fid. view R d' fid = tracked B (snapshots p) fid)"
proof -
  note K = db_rows_ok [OF R]
  have "read_db_spf R fine d = Inr (db_rows R d)"
    using spf by (auto simp: read_db_spf_def db_rows_def opened_spf_def read_spf_rows_fine)
  moreover obtain p1 d1 where 1: "sync_rows B R en (\<lambda>_. fine) (db_rows R d) (p, d) = (Inr (), p1, d1)" "pool_owned own (snapshots p1)"
      "map_of (snapshots p1) = (\<lambda>f. if f \<in> set (keys (db_rows R d)) then None else map_of (snapshots p) f)"
      "tables_owned R (bt_id B) own d1" "stored_function R d1 = stored_function R d"
      "\<And>f. if f \<in> set (keys (db_rows R d)) then view R d1 f = tracked B (snapshots p) f
           else listed R d1 f = listed R d f \<and> view R d1 f = view R d f"
  proof -
    have "\<exists>p' d'. sync_rows B R en (\<lambda>_. fine) (db_rows R d) (p, d) = (Inr (), p', d') \<and> pool_owned own (snapshots p')
      \<and> map_of (snapshots p') = (\<lambda>f. if f \<in> set (keys (db_rows R d)) then None else map_of (snapshots p) f)
      \<and> tables_owned R (bt_id B) own d' \<and> stored_function R d' = stored_function R d
      \<and> (\<forall>f. if f \<in> set (keys (db_rows R d)) then view R d' f = tracked B (snapshots p) f
             else listed R d' f = listed R d f \<and> view R d' f = view R d f)"
      by (rule sync_rows_clean [OF R B t o K(1)]) (use K(2,3) kept reg in blast)+
    then show ?thesis using that by blast
  qed
  moreover obtain p2 d2 where 2: "sync_rest B R (\<lambda>_. fine) (snapshots p1) (p1, d1) = (Inr (), p2, d2)"
      "tables_owned R (bt_id B) own d2" "stored_function R d2 = stored_function R d1"
      "\<And>f. view R d2 f = (if f \<in> set (keys (snapshots p1)) then tracked B (snapshots p1) f else view R d1 f)"
  proof -
    have "listed R d1 f = {}" if "f \<in> set (keys (snapshots p1))" for f
    proof -
      have "map_of (snapshots p1) f \<noteq> None" using that by (simp add: map_of_eq_None_iff)
      then have "f \<notin> set (keys (db_rows R d))" using 1(3) by (metis)
      then show ?thesis using 1(6) [of f] K(3) by auto
    qed
    then show ?thesis using that sync_rest_clean [OF R B 1(4,2), of p1] by blast
  qed
  ultimately have "sync_db_snapshots B R en (\<lambda>_. fine) (p, d) = (Inr (), p2, d2)" by (simp add: sync_db_snapshots_def)
  moreover have "view R d2 f = tracked B (snapshots p) f" for f
  proof (cases "f \<in> set (keys (db_rows R d))")
    case True
    then have "f \<notin> set (keys (snapshots p1))" using 1(3) by (simp add: map_of_eq_None_iff [symmetric])
    then show ?thesis using True 1(6) [of f] 2(4) by simp
  next
    case False
    then have "tracked B (snapshots p1) f = tracked B (snapshots p) f" using 1(3) by (simp add: tracked_def)
    moreover have "view R d1 f = {}" using False 1(6) [of f] K(3) by (auto simp: view_def)
    moreover have "tracked B (snapshots p1) f = {}" if "f \<notin> set (keys (snapshots p1))"
      using that by (simp add: tracked_def map_of_eq_None_iff [symmetric])
    ultimately show ?thesis using 2(4) by auto
  qed
  ultimately show ?thesis using 1(5) 2(2,3) by auto
qed

end
