(* ===== verification/Snapshot_Props.thy ===== *)
theory Snapshot_Props
  imports Registrar Reinstate_Sync Worker_Props
begin

text \<open>
  The properties of the parts that keep state across restarts: the registrar, the snapshot manager with
  its database writer, and what the pool reads from and leaves in the database.
\<close>

section \<open>Lemmas\<close>





section \<open>A concrete database\<close>

text \<open>Tables as association lists, and a runtime whose sandboxes are their own states.\<close>

type_synonym example_db =
  "((function_id \<times> registered_function) list, (function_id \<times> sandbox_id) list, (sandbox_id \<times> sandbox) list) db"

definition boot_example :: "(unit, sandbox) boot_rt" where
  "boot_example =
     \<lparr>bt_new = (\<lambda>_. Inr ()), bt_init = (\<lambda>rt. (Inr (), rt)), bt_reinstate = (\<lambda>_ sb rt. (Some (Inr sb), rt)),
      bt_state = (\<lambda>sb. Some (Inr sb)), bt_id = sb_id\<rparr>"

definition rf_f :: registered_function where
  "rf_f = \<lparr>rf_info = \<lparr>fi_id = ''f'', fi_memory = 128\<rparr>, rf_admission = None\<rparr>"

definition rf_g :: registered_function where
  "rf_g = \<lparr>rf_info = \<lparr>fi_id = ''g'', fi_memory = 64\<rparr>, rf_admission = None\<rparr>"

text \<open>The functions of \<open>store_fresh\<close>, the orphan of the example pool, and a sandbox that is gone.\<close>

definition db_example :: example_db where
  "db_example =
     \<lparr>db_functions = Some [(''f'', rf_f), (''g'', rf_g)], db_spf = Some [(''f'', ''s1''), (''f'', ''s2'')],
      db_snapshots = Some [(''s2'', \<lparr>sb_id = ''s2'', sb_stats = \<lparr>sb_invocations = 0, sb_restorations = 0\<rparr>\<rparr>)]\<rparr>"

definition empty_db :: example_db where
  "empty_db = \<lparr>db_functions = None, db_spf = None, db_snapshots = None\<rparr>"

definition reg_example :: reg_env where
  "reg_example =
     \<lparr>re_io = (\<lambda>_. True), re_info = (\<lambda>b. if b = ''h'' then Inr \<lparr>fi_id = ''h'', fi_memory = 32\<rparr> else Inl ''bad request''),
      re_register = (\<lambda>fi. (Inr (), fi)), re_duration = (\<lambda>(s, n). if s < 0 then Inl ''negative'' else Inr (nat (s * 1000000000 + n)))\<rparr>"

lemma boot_total_example: "boot_total boot_example"
  by (simp add: boot_total_def boot_ok_def boot_example_def start_runtime_def)

lemma keeps_id_example: "keeps_id reg_example"
  by (simp add: keeps_id_def reg_example_def)

lemma empty_db_tables: "tables_full alist_redb sb_id own empty_db" "stored_state alist_redb empty_db = Map.empty"
  by (rule tables_full_empty [OF redb_spec_alist]) (auto simp: empty_db_def stored_state_def opened_snapshots_def alist_db_defs)




section \<open>The registrar\<close>



section \<open>The snapshot manager\<close>

text \<open>C13. However the storage fails, the writer keeps the tables consistent: a stored state has its own id
  as key and is listed under its function, and no id is listed under two functions. Workers announce a
  sandbox under the function that owns it.\<close>

theorem snap_tables_invariant:
  assumes "redb_spec R" "tables_ok R st_id own d" "\<forall>(io, m) \<in> set ms. well_owned st_id own m"
  shows "tables_ok R st_id own (db_writer R st_id ms d)"
  by (rule tables_ok_db_writer [OF assms])

theorem snap_tables_invariant_witness:
  "tables_ok alist_redb sb_id (\<lambda>_. ''f'') (db_writer alist_redb sb_id
     [((\<lambda>_. True), NewSnapshot ''f'' orphan_example), ((\<lambda>a. a \<noteq> AtRemoveSid ''f'' ''s1''), SnapshotRemoved ''f'' ''s1'')] empty_db)"
  by (rule snap_tables_invariant [OF redb_spec_alist tables_fullD(1) [OF empty_db_tables(1)]]) simp

text \<open>C14. The snapshot manager, with either placement algorithm, does not panic and hands what the workers
  say about snapshots to the writer, in order. Where nothing fails, the table of states is then what the
  announcements say: a new snapshot is stored unless its id is known, a removed one is not there.\<close>

theorem snapman_persists:
  assumes "redb_spec R" "tables_full R st_id own d" "\<forall>m \<in> set ms. well_owned st_id own m"
    and "placement P good" "good pa" "snapman_run P (map (\<lambda>m. (wt m, True, m)) ms) (snapman_new pa) = (r, s)"
  shows "r = Inr () \<and> sm_to_writer s = filter for_writer ms
    \<and> stored_state R (db_writer R st_id (map (Pair (\<lambda>_. True)) (sm_to_writer s)) d) = fold (persist st_id) ms (stored_state R d)"
proof -
  have run: "r = Inr ()" "sm_to_writer s = filter for_writer ms"
    using placement.run_ok [OF assms(4) _ assms(6)] assms(5) by (auto simp: snapman_new_def filter_map comp_def)
  have "fold (persist st_id) (filter for_writer ms) m = fold (persist st_id) ms m" for m
  proof (induction ms arbitrary: m)
    case (Cons a ms)
    then show ?case by (cases a) (simp_all add: fun_upd_def)
  qed simp
  then show ?thesis
    using db_writer_clean [OF assms(1,2), of "filter for_writer ms"] assms(3) run by simp
qed

theorem snapman_persists_witness:
  "let ms = [QueryPaths ''f'', NewSnapshot ''f'' orphan_example];
       s = snd (snapman_run fixed_placement (map (\<lambda>m. (True, True, m)) ms) (snapman_new (Some ''/snap'')))
   in stored_state alist_redb (db_writer alist_redb sb_id (map (Pair (\<lambda>_. True)) (sm_to_writer s)) empty_db) ''s1'' = Some orphan_example"
proof -
  define ms where "ms = [QueryPaths ''f'', NewSnapshot ''f'' orphan_example]"
  obtain r s where rs: "snapman_run fixed_placement (map (\<lambda>m. (True, True, m)) ms) (snapman_new (Some ''/snap'')) = (r, s)" by fastforce
  have "fold (persist sb_id) ms (stored_state alist_redb empty_db) ''s1'' = Some orphan_example"
    by (simp add: ms_def orphan_example_def empty_db_tables(2))
  moreover have w: "\<forall>m \<in> set ms. well_owned sb_id (\<lambda>_. ''f'') m" by (simp add: ms_def)
  moreover have "stored_state alist_redb (db_writer alist_redb sb_id (map (Pair (\<lambda>_. True)) (sm_to_writer s)) empty_db)
      = fold (persist sb_id) ms (stored_state alist_redb empty_db)"
    using snapman_persists [OF redb_spec_alist empty_db_tables(1) w fixed.placement_axioms TrueI rs] by blast
  ultimately have "stored_state alist_redb (db_writer alist_redb sb_id (map (Pair (\<lambda>_. True)) (sm_to_writer s)) empty_db) ''s1'' = Some orphan_example"
    by (simp only:)
  then show ?thesis unfolding Let_def ms_def [symmetric] rs by simp
qed

section \<open>Restarts\<close>



text \<open>C12. A start from any database whose tables are owned gives a pool that satisfies the invariant, whatever
  fails on the way, as long as the start succeeds: the store has the functions of the database, in the form
  in which the runtime has registered them, and the orphans are snapshots of registered functions, each
  sandbox once.\<close>

theorem boot_reaches:
  assumes "redb_spec R" "boot_ok B" "keeps_id re" "tables_owned R (bt_id B) own d"
    and "\<forall>fid f. stored_function R d fid = Some f \<longrightarrow> fi_id (rf_info f) = fid"
    and "load_from_db R re d [] = (Inr (), st)" "reinstate_snapshots_from_db B R io d = Inr ss"
    and "pool_new pq pct status cfg st (Inr ss) = Inr p" "managed pq (cpuset p) \<noteq> {}" "cfg_max_memory cfg < bu_max"
  shows "pool_reach pq p
    \<and> registered (store p) = (\<lambda>fid. map_option (\<lambda>f. f\<lparr>rf_info := snd (re_register re (rf_info f))\<rparr>) (stored_function R d fid))"
proof -
  have l: "store_inv st" "where_is st = Map.empty"
      "registered st = (\<lambda>fid. map_option (\<lambda>f. f\<lparr>rf_info := snd (re_register re (rf_info f))\<rparr>) (stored_function R d fid))"
    using load_from_db_ok [OF assms(1,3) _ assms(6)] assms(5) by auto
  have r: "distinct (keys ss)" "\<forall>sid. count (orphan_ids (orphans ss)) sid \<le> 1"
      "\<forall>(fid, sb) \<in># orphans ss. stored_function R d fid \<noteq> None \<and> sb_id sb \<in> listed R d fid"
    using reinstate_from_db_ids [OF assms(1,2,4,7)] by auto
  have "fresh_start ss st" unfolding fresh_start_def using l r by fastforce
  moreover have "store p = st"
    using assms(8) by (auto simp: pool_new_def split: if_splits sum.splits fault.splits)
  ultimately show ?thesis using pool_reach.start [OF assms(8,9) _ assms(10)] l(3) by simp
qed

text \<open>A database after which the example pool starts.\<close>

definition db_boot :: example_db where
  "db_boot = \<lparr>db_functions = Some [(''f'', rf_f), (''g'', rf_g)], db_spf = Some [(''f'', ''s1'')], db_snapshots = Some [(''s1'', orphan_example)]\<rparr>"

theorem boot_reaches_witness:
  "load_from_db alist_redb reg_example db_boot [] = (Inr (), store_fresh)
    \<and> reinstate_snapshots_from_db boot_example alist_redb (\<lambda>_. True) db_boot = Inr [(''f'', [orphan_example])]
    \<and> pool_reach list_pq pool_example"
proof -
  have st: "stored_function alist_redb db_boot = [''f'' \<mapsto> rf_f, ''g'' \<mapsto> rf_g]"
    by (auto simp: stored_function_def opened_functions_def db_boot_def alist_db_defs fun_eq_iff)
  have own: "tables_owned alist_redb (bt_id boot_example) (\<lambda>_. ''f'') db_boot"
    by (auto simp: tables_owned_def listed_def stored_state_def opened_spf_def opened_snapshots_def db_boot_def
        boot_example_def orphan_example_def alist_db_defs split: if_splits)
  have ids: "\<forall>fid f. stored_function alist_redb db_boot fid = Some f \<longrightarrow> fi_id (rf_info f) = fid"
    by (simp add: st rf_f_def rf_g_def)
  have l: "load_from_db alist_redb reg_example db_boot [] = (Inr (), store_fresh)"
    by (simp add: load_from_db_def db_boot_def reg_example_def alist_db_defs register_function_def store_fresh_def rf_f_def rf_g_def Let_def)
  have r: "reinstate_snapshots_from_db boot_example alist_redb (\<lambda>_. True) db_boot = Inr [(''f'', [orphan_example])]"
    by (simp add: reinstate_snapshots_from_db_def db_boot_def alist_db_defs boot_example_def start_runtime_def reinstate_sandbox_def push_sandbox_def)
  have m: "managed list_pq (cpuset pool_example) \<noteq> {}"
    by (auto simp: managed_def list_pq_def pool_example_def intro!: exI [of _ 0])
  have b: "cfg_max_memory Pool_Props.cfg_example < bu_max" by (simp add: Pool_Props.cfg_example_def)
  have "pool_reach list_pq pool_example"
    using boot_reaches [OF redb_spec_alist boot_totalD(1) [OF boot_total_example] keeps_id_example own ids l r pool_example_new m b] by blast
  then show ?thesis using l r by simp
qed

section \<open>What goes wrong\<close>

text \<open>A snapshot whose announcement the writer could not store is lost at the next synchronization, if its
  function has another one in the table: its state is stored, but its id is not listed, so that the next
  start does not find it.\<close>

theorem sync_loses_unlisted:
  "let d = db_example\<lparr>db_spf := Some [(''f'', ''s2'')]\<rparr>;
       (r, p', d') = sync_db_snapshots boot_example alist_redb Pool_Props.env_example (\<lambda>_ _. True) (pool_example, d) in
   r = Inr () \<and> snapshots pool_example = [(''f'', [orphan_example])]
   \<and> stored_state alist_redb d' (sb_id orphan_example) = Some orphan_example
   \<and> reinstate_snapshots_from_db boot_example alist_redb (\<lambda>_. True) d' = Inr []"
  by (simp add: sync_db_snapshots_def read_db_spf_def db_example_def alist_db_defs in_txn_def sync_listed_def
      pool_example_def update_and_forget_def boot_example_def orphan_example_def opened_snapshots_def
      opened_functions_def stored_function_def reinstate_and_destroy_def start_runtime_def reinstate_sandbox_def
      destroy_orphan_sandbox_def read_store_def get_registered_function_def store_get_def store_fresh_def matchE_def
      Pool_Props.env_example_def set_snapshots_def on_tables_def remove_db_snapshots_def stored_state_def
      reinstate_snapshots_from_db_def Let_def rf_f_def rf_g_def fmd_new_def)

text \<open>Two registrations of one function that overlap both pass the check; the second one to write is the one
  in the database, and the first one to enter the store is the one in the store, so that a restart
  changes the function.\<close>

theorem registration_race:
  "let en = reg_example\<lparr>re_info := (\<lambda>b. Inr \<lparr>fi_id = ''h'', fi_memory = length b\<rparr>)\<rparr> in
   \<exists>f1 f2 d1 d2 st. register_check en \<lparr>rr_body = ''x'', rr_admission = None\<rparr> store_fresh = Inr f1
    \<and> register_check en \<lparr>rr_body = ''xy'', rr_admission = None\<rparr> store_fresh = Inr f2
    \<and> store_to_db alist_redb (re_io en) f1 db_example = (Inr (), d1) \<and> store_to_db alist_redb (re_io en) f2 d1 = (Inr (), d2)
    \<and> register_function f1 store_fresh = (Inr (), st) \<and> register_function f2 st = (Inl (AlreadyExists ''h''), st)
    \<and> registered st ''h'' = Some f1 \<and> stored_function alist_redb d2 ''h'' = Some f2 \<and> f1 \<noteq> f2"
  by (simp add: register_check_def reg_example_def function_exists_def store_fresh_def store_to_db_def register_function_def
      max_allowed_function_mem_def registered_def stored_function_def opened_functions_def alist_db_defs db_example_def
      fmd_new_def Let_def)

section \<open>Placement\<close>









end
