(* ===== verification/Tap.thy ===== *)
theory Tap
  imports Subnet_Pool
begin

text \<open>
  \<^verbatim>\<open>network/tap.rs\<close>, \<^verbatim>\<open>network/ip_utils/ip.rs\<close>, \<^verbatim>\<open>network/ip_utils/link.rs\<close>, \<^verbatim>\<open>network/error.rs\<close>: TAP devices,
  their creation over \<^verbatim>\<open>ioctl\<close> and route netlink, and their removal.

  The kernel is not part of the repository. It is a state \<open>'k\<close> with the operations \<open>rtnl\<close>; what the code
  relies on is \<open>rtnl_spec\<close>, which speaks of the names and indices of the links (\<open>links\<close>) and of the devices
  that go away when their descriptor is closed (\<open>temp\<close>). \<^verbatim>\<open>ipnet\<close> is not part of it either; a network is an
  address with a prefix length, ordered by these, as \<^verbatim>\<open>Ipv4Net\<close> documents, and nothing truncates the
  address when a network is made.
\<close>

unbundle bit_operations_syntax

section \<open>Addresses and networks\<close>

type_synonym ipv4_addr = "32 word"
type_synonym mac_addr = "8 word list"

datatype ipv4_net = Ipv4Net (net_addr: ipv4_addr) (net_len: nat)

instantiation ipv4_net :: linorder
begin

definition less_eq_ipv4_net :: "ipv4_net \<Rightarrow> ipv4_net \<Rightarrow> bool" where
  "less_eq_ipv4_net m n \<longleftrightarrow> net_addr m < net_addr n \<or> net_addr m = net_addr n \<and> net_len m \<le> net_len n"

definition less_ipv4_net :: "ipv4_net \<Rightarrow> ipv4_net \<Rightarrow> bool" where
  "less_ipv4_net m n \<longleftrightarrow> net_addr m < net_addr n \<or> net_addr m = net_addr n \<and> net_len m < net_len n"

instance
  by standard (auto simp: less_eq_ipv4_net_def less_ipv4_net_def ipv4_net.expand)

end

section \<open>Errors\<close>

datatype errno = EBUSY | Errno nat

datatype net_error =
  SubnetPoolErr "(unit, ipv4_net) subnet_pool_error"
| NetIo string
| TapInit net_error
| TunSetIff errno
| TunSetPersist errno
| JoinTask
| LinkNotFound
| RouteNetlink string
| ParseMacAddr "8 word list"
| MissingNla string
| MacAddrInUse mac_addr
| NoMoreIpv4Subnets
| ForwardErr string
| TapBuild ipv4_addr nat net_error
| TapAdopt string ipv4_addr nat net_error
| ShuttingDownNet
| UnexpectedShutDown

section \<open>Links\<close>

datatype link_attr = AttrAddress "8 word list" | AttrGroup "32 word" | AttrOther

record link =
  lk_index :: "32 word"
  lk_attrs :: "link_attr list"

datatype link_change = SetGroup "32 word" | SetUp | SetAddress "8 word list"

record ifreq =
  ifr_name :: "char list"
  ifr_flags :: "16 word"

record 'k rtnl =
  nl_open_tun :: "'k \<Rightarrow> string + unit"
  nl_set_iff :: "ifreq \<Rightarrow> 'k \<Rightarrow> (errno + unit) \<times> 'k"
  nl_set_persist :: "ifreq \<Rightarrow> 'k \<Rightarrow> (errno + unit) \<times> 'k"
  nl_close :: "ifreq \<Rightarrow> 'k \<Rightarrow> 'k"
  nl_by_name :: "string \<Rightarrow> 'k \<Rightarrow> string + link option"
  nl_by_index :: "32 word \<Rightarrow> 'k \<Rightarrow> string + link option"
  nl_set :: "32 word \<Rightarrow> link_change \<Rightarrow> 'k \<Rightarrow> (string + unit) \<times> 'k"
  nl_addr_add :: "32 word \<Rightarrow> ipv4_addr \<Rightarrow> nat \<Rightarrow> bool \<Rightarrow> 'k \<Rightarrow> (string + unit) \<times> 'k"
  nl_del :: "32 word \<Rightarrow> 'k \<Rightarrow> (string + unit) \<times> 'k"

type_synonym ('k, 'a) net_result = "(net_error + 'a) \<times> 'k"

fun found :: "string + link option \<Rightarrow> net_error + link" where
  "found (Inl e) = Inl (RouteNetlink e)"
| "found (Inr None) = Inl LinkNotFound"
| "found (Inr (Some l)) = Inr l"

definition by_name :: "'k rtnl \<Rightarrow> string \<Rightarrow> 'k \<Rightarrow> net_error + link" where
  "by_name N name k = found (nl_by_name N name k)"

definition by_index :: "'k rtnl \<Rightarrow> 32 word \<Rightarrow> 'k \<Rightarrow> net_error + link" where
  "by_index N i k = found (nl_by_index N i k)"

fun link_mac :: "link_attr list \<Rightarrow> net_error + mac_addr" where
  "link_mac [] = Inl (MissingNla ''interface group'')"
| "link_mac (AttrAddress mac # _) = (if length mac = 6 then Inr mac else Inl (ParseMacAddr mac))"
| "link_mac (_ # attrs) = link_mac attrs"

text \<open>A change of a link is followed by looking it up again.\<close>

definition then_refresh :: "'k rtnl \<Rightarrow> link \<Rightarrow> (string + unit) \<times> 'k \<Rightarrow> ('k, link) net_result" where
  "then_refresh N l r = (case r of (Inl e, k) \<Rightarrow> (Inl (RouteNetlink e), k) | (Inr _, k) \<Rightarrow> (by_index N (lk_index l) k, k))"

definition devgroup :: "32 word" where
  "devgroup = 0xFAA5CE11"

definition ip_addr_add :: "'k rtnl \<Rightarrow> link \<Rightarrow> ipv4_addr \<Rightarrow> nat \<Rightarrow> 'k \<Rightarrow> ('k, link) net_result" where
  "ip_addr_add N l ip len k = then_refresh N l (nl_addr_add N (lk_index l) ip len (\<not> len > 30) k)"

definition set_link_group :: "'k rtnl \<Rightarrow> link \<Rightarrow> 'k \<Rightarrow> ('k, link) net_result" where
  "set_link_group N l k = then_refresh N l (nl_set N (lk_index l) (SetGroup devgroup) k)"

definition set_link_up :: "'k rtnl \<Rightarrow> link \<Rightarrow> 'k \<Rightarrow> ('k, link) net_result" where
  "set_link_up N l k = then_refresh N l (nl_set N (lk_index l) SetUp k)"

definition set_link_address :: "'k rtnl \<Rightarrow> link \<Rightarrow> mac_addr \<Rightarrow> 'k \<Rightarrow> ('k, link) net_result" where
  "set_link_address N l mac k = then_refresh N l (nl_set N (lk_index l) (SetAddress mac) k)"

section \<open>TAP devices\<close>

record tap_info =
  ti_name :: string
  ti_mac :: "mac_addr option"
  ti_ip :: ipv4_addr
  ti_prefix :: nat
  ti_gateway :: ipv4_addr

record tap_device =
  td_index :: "32 word"
  td_info :: tap_info

datatype tap = Builder tap_info | Device tap_device

fun tap_info_of :: "tap \<Rightarrow> tap_info" where
  "tap_info_of (Builder i) = i"
| "tap_info_of (Device d) = td_info d"

definition ifnamsiz :: nat where
  "ifnamsiz = 16"

definition tap_flags :: "16 word" where
  "tap_flags = 0x1000 OR 0x4000 OR 0x2000 OR 0x8000 OR 0x0002"

definition prepare_ifreq :: "string \<Rightarrow> ifreq" where
  "prepare_ifreq name =
     (let strlen = min (length name) (ifnamsiz - 1) in
      \<lparr>ifr_name = take strlen name @ replicate (ifnamsiz - strlen) (char_of (0 :: nat)), ifr_flags = 0 OR tap_flags\<rparr>)"

text \<open>\<^verbatim>\<open>str::from_utf8\<close> on bytes.\<close>

fun utf8 :: "nat list \<Rightarrow> bool" where
  "utf8 [] \<longleftrightarrow> True"
| "utf8 (a # bs) \<longleftrightarrow>
     (if a < 0x80 then utf8 bs
      else
        (case bs of
           b # cs \<Rightarrow>
             (if 0xC2 \<le> a \<and> a \<le> 0xDF then 0x80 \<le> b \<and> b \<le> 0xBF \<and> utf8 cs
              else
                (case cs of
                   c # ds \<Rightarrow>
                     (if 0xE0 \<le> a \<and> a \<le> 0xEF
                      then (if a = 0xE0 then 0xA0 \<le> b \<and> b \<le> 0xBF else if a = 0xED then 0x80 \<le> b \<and> b \<le> 0x9F else 0x80 \<le> b \<and> b \<le> 0xBF)
                        \<and> 0x80 \<le> c \<and> c \<le> 0xBF \<and> utf8 ds
                      else
                        (case ds of
                           d # es \<Rightarrow>
                             0xF0 \<le> a \<and> a \<le> 0xF4
                             \<and> (if a = 0xF0 then 0x90 \<le> b \<and> b \<le> 0xBF else if a = 0xF4 then 0x80 \<le> b \<and> b \<le> 0x8F else 0x80 \<le> b \<and> b \<le> 0xBF)
                             \<and> 0x80 \<le> c \<and> c \<le> 0xBF \<and> 0x80 \<le> d \<and> d \<le> 0xBF \<and> utf8 es
                         | [] \<Rightarrow> False))
                 | [] \<Rightarrow> False))
         | [] \<Rightarrow> False))"

text \<open>\<open>None\<close> is the panic on a name that is not UTF-8.\<close>

definition adjust_name :: "ifreq \<Rightarrow> nat \<Rightarrow> string option" where
  "adjust_name ifr old_len =
     (let name = butlast (ifr_name ifr) in
      if utf8 (map of_char name) then Some (take (min old_len (ifnamsiz - 1)) name) else None)"

definition create_tap_device :: "'k rtnl \<Rightarrow> ifreq \<Rightarrow> 'k \<Rightarrow> ('k, unit) net_result" where
  "create_tap_device N ifr k =
     (case nl_open_tun N k of
        Inl e \<Rightarrow> (Inl (TapInit (NetIo ''error opening /dev/net/tun'')), k)
      | Inr _ \<Rightarrow>
          (case nl_set_iff N ifr k of
             (Inl e, k) \<Rightarrow> (Inl (TunSetIff e), k)
           | (Inr _, k) \<Rightarrow>
               (case nl_set_persist N ifr k of
                  (Inl e, k) \<Rightarrow> (Inl (TunSetPersist e), nl_close N ifr k)
                | (Inr _, k) \<Rightarrow> (Inr (), nl_close N ifr k))))"

definition delete_tap :: "'k rtnl \<Rightarrow> 32 word \<Rightarrow> 'k \<Rightarrow> ('k, unit) net_result" where
  "delete_tap N i k = (case nl_del N i k of (Inl e, k) \<Rightarrow> (Inl (RouteNetlink e), k) | (Inr _, k) \<Rightarrow> (Inr (), k))"

text \<open>The blocking task of \<^verbatim>\<open>new_tap\<close>; a panic in it is a failure to join it.\<close>

definition create_named :: "'k rtnl \<Rightarrow> string \<Rightarrow> 'k \<Rightarrow> ('k, string) net_result" where
  "create_named N name k =
     (let ifr = prepare_ifreq name in
      case create_tap_device N ifr k of
        (Inl e, k) \<Rightarrow> (Inl (TapInit e), k)
      | (Inr _, k) \<Rightarrow> ((case adjust_name ifr (length name) of None \<Rightarrow> Inl JoinTask | Some n \<Rightarrow> Inr n), k))"

text \<open>On an error the new device is deleted; a failure to do so is logged.\<close>

definition or_delete :: "'k rtnl \<Rightarrow> link \<Rightarrow> ('k, 'a) net_result \<Rightarrow> ('k, 'a) net_result" where
  "or_delete N l r = (case r of (Inl e, k) \<Rightarrow> (Inl (TapInit e), snd (delete_tap N (lk_index l) k)) | (Inr x, k) \<Rightarrow> (Inr x, k))"

definition find_mac :: "'k rtnl \<Rightarrow> mac_addr option \<Rightarrow> link \<Rightarrow> 'k \<Rightarrow> ('k, link \<times> mac_addr) net_result" where
  "find_mac N mac l k =
     (case mac of
        Some addr \<Rightarrow> (case set_link_address N l addr k of (Inl e, k) \<Rightarrow> (Inl e, k) | (Inr l, k) \<Rightarrow> (Inr (l, addr), k))
      | None \<Rightarrow> (case link_mac (lk_attrs l) of Inl e \<Rightarrow> (Inl e, k) | Inr addr \<Rightarrow> (Inr (l, addr), k)))"

definition new_tap :: "'k rtnl \<Rightarrow> tap_info \<Rightarrow> 'k \<Rightarrow> ('k, tap_device) net_result" where
  "new_tap N info k =
     bindE (create_named N (ti_name info) k) (\<lambda>name k.
     case by_name N name k of
       Inl e \<Rightarrow> (Inl e, k)
     | Inr l \<Rightarrow>
         bindE (or_delete N l (find_mac N (ti_mac info) l k)) (\<lambda>(l, mac) k.
         bindE (or_delete N l (ip_addr_add N l (ti_gateway info) (ti_prefix info) k)) (\<lambda>l k.
         bindE (or_delete N l (set_link_group N l k)) (\<lambda>l k.
         bindE (or_delete N l (set_link_up N l k)) (\<lambda>l k.
         (Inr \<lparr>td_index = lk_index l, td_info = info\<lparr>ti_name := name, ti_mac := Some mac\<rparr>\<rparr>, k))))))"

definition tap_build :: "'k rtnl \<Rightarrow> tap_info \<Rightarrow> 'k \<Rightarrow> ('k, tap_device) net_result" where
  "tap_build N info k =
     (case new_tap N info k of
        (Inl e, k) \<Rightarrow> (Inl (TapBuild (ti_ip info) (ti_prefix info) e), k)
      | (Inr d, k) \<Rightarrow> (Inr d, k))"

definition adopt :: "'k rtnl \<Rightarrow> tap_info \<Rightarrow> 'k \<Rightarrow> net_error + tap_device" where
  "adopt N info k =
     (case by_name N (ti_name info) k of
        Inl e \<Rightarrow> Inl (TapAdopt (ti_name info) (ti_ip info) (ti_prefix info) e)
      | Inr l \<Rightarrow>
          (case ti_mac info of
             Some _ \<Rightarrow> Inr \<lparr>td_index = lk_index l, td_info = info\<rparr>
           | None \<Rightarrow>
               (case link_mac (lk_attrs l) of
                  Inl e \<Rightarrow> Inl e
                | Inr mac \<Rightarrow> Inr \<lparr>td_index = lk_index l, td_info = info\<lparr>ti_mac := Some mac\<rparr>\<rparr>)))"

definition build_or_adopt :: "'k rtnl \<Rightarrow> tap_info \<Rightarrow> 'k \<Rightarrow> ('k, tap_device) net_result" where
  "build_or_adopt N info k =
     (case new_tap N info k of
        (Inr d, k) \<Rightarrow> (Inr d, k)
      | (Inl e, k) \<Rightarrow>
          if e = TapInit (TunSetIff EBUSY) then (adopt N info k, k)
          else (Inl (TapBuild (ti_ip info) (ti_prefix info) e), k))"

definition tap_destroy :: "'k rtnl \<Rightarrow> tap_device \<Rightarrow> 'k \<Rightarrow> ('k, unit) net_result" where
  "tap_destroy N d k = delete_tap N (td_index d) k"

section \<open>What the kernel promises\<close>

text \<open>The name of an \<^verbatim>\<open>ifreq\<close> up to its first NUL.\<close>

definition ifname :: "ifreq \<Rightarrow> string" where
  "ifname ifr = takeWhile (\<lambda>c. c \<noteq> char_of (0 :: nat)) (ifr_name ifr)"

text \<open>The \<^verbatim>\<open>tun\<close> driver: a device that exists cannot be created again (\<^verbatim>\<open>IFF_TUN_EXCL\<close>), and one that is not
  made persistent goes away with its descriptor.\<close>

definition tun_spec :: "'k rtnl \<Rightarrow> ('k \<Rightarrow> string \<rightharpoonup> 32 word) \<Rightarrow> ('k \<Rightarrow> string set) \<Rightarrow> bool" where
  "tun_spec N links temp \<longleftrightarrow>
     (\<forall>f k. case nl_set_iff N f k of
        (Inl e, k') \<Rightarrow> links k' = links k
      | (Inr u, k') \<Rightarrow> links k (ifname f) = None \<and> (\<exists>i. links k' = (links k)(ifname f \<mapsto> i)) \<and> ifname f \<in> temp k')
     \<and> (\<forall>f k. case nl_set_persist N f k of
        (Inl e, k') \<Rightarrow> links k' = links k \<and> temp k' = temp k
      | (Inr u, k') \<Rightarrow> links k' = links k \<and> temp k' = temp k - {ifname f})
     \<and> (\<forall>f k. links (nl_close N f k) = (if ifname f \<in> temp k then (links k)(ifname f := None) else links k))"

text \<open>Route netlink: looking a link up by name or index, changing it, and deleting it.\<close>

definition netlink_spec :: "'k rtnl \<Rightarrow> ('k \<Rightarrow> string \<rightharpoonup> 32 word) \<Rightarrow> bool" where
  "netlink_spec N links \<longleftrightarrow>
     (\<forall>n k. case nl_by_name N n k of Inl e \<Rightarrow> True | Inr x \<Rightarrow> map_option lk_index x = links k n)
     \<and> (\<forall>i k. case nl_by_index N i k of Inr (Some l) \<Rightarrow> lk_index l = i | _ \<Rightarrow> True)
     \<and> (\<forall>i c k. links (snd (nl_set N i c k)) = links k)
     \<and> (\<forall>i ip len brd k. links (snd (nl_addr_add N i ip len brd k)) = links k)
     \<and> (\<forall>i k. case nl_del N i k of
        (Inl e, k') \<Rightarrow> links k' = links k
      | (Inr u, k') \<Rightarrow> links k' = (\<lambda>n. if links k n = Some i then None else links k n))"

definition rtnl_spec :: "'k rtnl \<Rightarrow> ('k \<Rightarrow> string \<rightharpoonup> 32 word) \<Rightarrow> ('k \<Rightarrow> string set) \<Rightarrow> bool" where
  "rtnl_spec N links temp \<longleftrightarrow>
     (\<forall>k n m i. links k n = Some i \<longrightarrow> links k m = Some i \<longrightarrow> n = m) \<and> tun_spec N links temp \<and> netlink_spec N links"

lemma rtnl_specD:
  assumes "rtnl_spec N links temp"
  shows "links k n = Some i \<Longrightarrow> links k m = Some i \<Longrightarrow> n = m" "tun_spec N links temp" "netlink_spec N links"
  using assms by (auto simp: rtnl_spec_def)

lemma tun_specD:
  assumes "tun_spec N links temp"
  shows "nl_set_iff N f k = (Inl e, k') \<Longrightarrow> links k' = links k"
    "nl_set_iff N f k = (Inr u, k') \<Longrightarrow>
       links k (ifname f) = None \<and> (\<exists>i. links k' = (links k)(ifname f \<mapsto> i)) \<and> ifname f \<in> temp k'"
    "nl_set_persist N f k = (Inl e', k') \<Longrightarrow> links k' = links k \<and> temp k' = temp k"
    "nl_set_persist N f k = (Inr u', k') \<Longrightarrow> links k' = links k \<and> temp k' = temp k - {ifname f}"
    "links (nl_close N f k) = (if ifname f \<in> temp k then (links k)(ifname f := None) else links k)"
proof -
  note c = assms [unfolded tun_spec_def]
  note 1 = conjunct1 [OF c, THEN spec [of _ f], THEN spec [of _ k]]
    and 2 = conjunct1 [OF conjunct2 [OF c], THEN spec [of _ f], THEN spec [of _ k]]
    and 3 = conjunct2 [OF conjunct2 [OF c], THEN spec [of _ f], THEN spec [of _ k]]
  show "nl_set_iff N f k = (Inl e, k') \<Longrightarrow> links k' = links k"
    "nl_set_iff N f k = (Inr u, k') \<Longrightarrow>
       links k (ifname f) = None \<and> (\<exists>i. links k' = (links k)(ifname f \<mapsto> i)) \<and> ifname f \<in> temp k'"
    using 1 by simp_all
  show "nl_set_persist N f k = (Inl e', k') \<Longrightarrow> links k' = links k \<and> temp k' = temp k"
    "nl_set_persist N f k = (Inr u', k') \<Longrightarrow> links k' = links k \<and> temp k' = temp k - {ifname f}"
    using 2 by simp_all
  show "links (nl_close N f k) = (if ifname f \<in> temp k then (links k)(ifname f := None) else links k)" by (rule 3)
qed

lemma netlink_specD:
  assumes "netlink_spec N links"
  shows "links (snd (nl_set N i c k)) = links k" "links (snd (nl_addr_add N i ip len brd k)) = links k"
    "by_name N n k = Inr l \<Longrightarrow> links k n = Some (lk_index l)" "by_index N i k = Inr l \<Longrightarrow> lk_index l = i"
    "nl_del N i k = (Inl e, k') \<Longrightarrow> links k' = links k"
    "nl_del N i k = (Inr u, k') \<Longrightarrow> links k' = (\<lambda>n. if links k n = Some i then None else links k n)"
proof -
  note c = assms [unfolded netlink_spec_def]
  note 1 = conjunct1 [OF c, THEN spec [of _ n], THEN spec [of _ k]]
    and 2 = conjunct1 [OF conjunct2 [OF c], THEN spec [of _ i], THEN spec [of _ k]]
    and 3 = conjunct1 [OF conjunct2 [OF conjunct2 [OF c]]]
    and 4 = conjunct1 [OF conjunct2 [OF conjunct2 [OF conjunct2 [OF c]]]]
    and 5 = conjunct2 [OF conjunct2 [OF conjunct2 [OF conjunct2 [OF c]]], THEN spec [of _ i], THEN spec [of _ k]]
  show "links (snd (nl_set N i c k)) = links k" "links (snd (nl_addr_add N i ip len brd k)) = links k"
    using 3 4 by blast+
  show "by_name N n k = Inr l \<Longrightarrow> links k n = Some (lk_index l)"
    using 1 by (cases "nl_by_name N n k" rule: found.cases) (auto simp: by_name_def)
  show "by_index N i k = Inr l \<Longrightarrow> lk_index l = i"
    using 2 by (cases "nl_by_index N i k" rule: found.cases) (auto simp: by_index_def)
  show "nl_del N i k = (Inl e, k') \<Longrightarrow> links k' = links k"
    "nl_del N i k = (Inr u, k') \<Longrightarrow> links k' = (\<lambda>n. if links k n = Some i then None else links k n)"
    using 5 by simp_all
qed

section \<open>Creating and deleting\<close>

text \<open>A plain name, one that is neither cut nor garbled on its way to the kernel and back.\<close>

definition plain_name :: "string \<Rightarrow> bool" where
  "plain_name n \<longleftrightarrow> length n < ifnamsiz \<and> (\<forall>c \<in> set n. 0 < (of_char c :: nat) \<and> (of_char c :: nat) < 0x80)"

lemma utf8_ascii: "\<forall>b \<in> set bs. b < 0x80 \<Longrightarrow> utf8 bs"
  by (induction bs) auto

lemma plain_name_kept:
  assumes "plain_name n"
  shows "ifname (prepare_ifreq n) = n" "adjust_name (prepare_ifreq n) (length n) = Some n"
proof -
  have l: "min (length n) (ifnamsiz - 1) = length n" and z: "n = takeWhile (\<lambda>c. c \<noteq> char_of (0 :: nat)) n"
    using assms by (auto simp: plain_name_def ifnamsiz_def intro!: takeWhile_eq_all_conv [THEN iffD2, symmetric])
  obtain m where m: "ifnamsiz - length n = Suc m"
    using assms by (metis plain_name_def Suc_diff_Suc)
  show "ifname (prepare_ifreq n) = n"
    unfolding ifname_def prepare_ifreq_def l Let_def m using z by (simp add: takeWhile_append2 takeWhile_append)
  have "butlast (ifr_name (prepare_ifreq n)) = n @ replicate m (char_of (0 :: nat))"
    unfolding prepare_ifreq_def l Let_def m
    using butlast_snoc [of "replicate m (char_of (0 :: nat))" "char_of (0 :: nat)"]
    by (simp add: butlast_append replicate_append_same)
  moreover have "utf8 (map of_char (n @ replicate m (char_of (0 :: nat))))"
    using assms by (intro utf8_ascii) (auto simp: plain_name_def)
  ultimately show "adjust_name (prepare_ifreq n) (length n) = Some n"
    using assms by (simp add: adjust_name_def plain_name_def Let_def ifnamsiz_def)
qed

lemma create_named_ok:
  assumes N: "rtnl_spec N links temp" and n: "plain_name n" and c: "create_named N n k = (r, k')"
  shows "case r of
      Inl e \<Rightarrow> links k' = links k
    | Inr m \<Rightarrow> m = n \<and> links k n = None \<and> (\<exists>i. links k' = (links k)(n \<mapsto> i))"
proof -
  note D = tun_specD [OF rtnl_specD(2) [OF N]] and P = plain_name_kept [OF n]
  let ?f = "prepare_ifreq n"
  show ?thesis
  proof (cases "nl_open_tun N k")
    case (Inl e)
    then show ?thesis using c by (auto simp: create_named_def create_tap_device_def)
  next
    case (Inr u)
    obtain r1 k1 where 1: "nl_set_iff N ?f k = (r1, k1)" by fastforce
    show ?thesis
    proof (cases r1)
      case (Inl e)
      then show ?thesis using c Inr 1 D(1) [of ?f k e k1] by (auto simp: create_named_def create_tap_device_def)
    next
      case (Inr v)
      then have s1: "links k n = None" "\<exists>i. links k1 = (links k)(n \<mapsto> i)" "n \<in> temp k1"
        using D(2) [of ?f k v k1] 1 P by auto
      obtain r2 k2 where 2: "nl_set_persist N ?f k1 = (r2, k2)" by fastforce
      show ?thesis
      proof (cases r2)
        case (Inl e)
        then have "links (nl_close N ?f k2) = links k"
          using D(3) [of ?f k1 e k2] 2 s1 P D(5) [of ?f k2] by (auto simp: fun_eq_iff)
        then show ?thesis using c \<open>nl_open_tun N k = Inr u\<close> 1 Inr 2 Inl by (auto simp: create_named_def create_tap_device_def)
      next
        case (Inr w)
        then have "links (nl_close N ?f k2) = links k1"
          using D(4) [of ?f k1 w k2] 2 s1 P D(5) [of ?f k2] by auto
        then show ?thesis
          using c \<open>nl_open_tun N k = Inr u\<close> 1 \<open>r1 = Inr v\<close> 2 Inr s1 P by (auto simp: create_named_def create_tap_device_def)
      qed
    qed
  qed
qed

text \<open>What happens to a device between its creation and the end of \<^verbatim>\<open>new_tap\<close>.\<close>

definition dropped :: "('k \<Rightarrow> string \<rightharpoonup> 32 word) \<Rightarrow> 'k rtnl \<Rightarrow> string \<Rightarrow> (string \<rightharpoonup> 32 word) \<Rightarrow> 'k \<Rightarrow> bool" where
  "dropped links N n L k \<longleftrightarrow> links k = L(n := None) \<or> (\<exists>i k0 e. nl_del N i k0 = (Inl e, k)) \<and> links k = L"

lemma or_delete_ok:
  assumes N: "rtnl_spec N links temp" and L: "links k = L" "L n = Some (lk_index l)"
    and r: "or_delete N l r0 = (r, k')" "snd r0 = k"
  shows "case r of Inl e \<Rightarrow> dropped links N n L k' | Inr x \<Rightarrow> r0 = (Inr x, k) \<and> k' = k"
proof (cases "fst r0")
  case (Inl e)
  then have r0: "r0 = (Inl e, k)" using r(2) by (cases r0) auto
  obtain r1 k1 where d: "nl_del N (lk_index l) k = (r1, k1)" by fastforce
  have "dropped links N n L k1"
  proof (cases r1)
    case (Inl e')
    then show ?thesis using d netlink_specD(5) [OF rtnl_specD(3) [OF N], of "lk_index l" k e' k1] L(1) by (auto simp: dropped_def)
  next
    case (Inr u)
    then have "links k1 = (\<lambda>m. if links k m = Some (lk_index l) then None else links k m)"
      using d netlink_specD(6) [OF rtnl_specD(3) [OF N], of "lk_index l" k u k1] by blast
    also have "\<dots> = L(n := None)"
    proof
      fix m
      show "(if links k m = Some (lk_index l) then None else links k m) = (L(n := None)) m"
        using L rtnl_specD(1) [OF N, of k n "lk_index l" m] by (cases "links k m = Some (lk_index l)") auto
    qed
    finally show ?thesis by (simp add: dropped_def)
  qed
  then show ?thesis using r(1) r0 d by (cases r1) (auto simp: or_delete_def delete_tap_def)
next
  case (Inr x)
  then show ?thesis using r by (cases r0) (auto simp: or_delete_def)
qed

lemma then_refresh_ok:
  assumes N: "netlink_spec N links"
  shows "links (snd (then_refresh N l r0)) = links (snd r0)"
    and "fst (then_refresh N l r0) = Inr l' \<Longrightarrow> lk_index l' = lk_index l"
  using netlink_specD(4) [OF N] by (auto simp: then_refresh_def split: prod.splits sum.splits)

lemma find_mac_cases:
  "find_mac N mac l k =
     (case mac of
        Some a \<Rightarrow> (map_sum id (\<lambda>l. (l, a)) (fst (set_link_address N l a k)), snd (set_link_address N l a k))
      | None \<Rightarrow> (map_sum id (\<lambda>a. (l, a)) (link_mac (lk_attrs l)), k))"
  by (auto simp: find_mac_def split: option.splits sum.splits prod.splits)

lemma link_steps_ok:
  assumes "netlink_spec N links"
  shows "links (snd (ip_addr_add N l ip len k)) = links k"
    "links (snd (set_link_group N l k)) = links k" "links (snd (set_link_up N l k)) = links k"
    "links (snd (set_link_address N l a k)) = links k" "links (snd (find_mac N mac l k)) = links k"
  using netlink_specD(1,2) [OF assms]
  by (simp_all add: ip_addr_add_def set_link_group_def set_link_up_def set_link_address_def find_mac_cases then_refresh_ok [OF assms]
      split: option.splits)

lemma link_steps_index:
  assumes "netlink_spec N links"
  shows "fst (ip_addr_add N l ip len k) = Inr l' \<Longrightarrow> lk_index l' = lk_index l"
    "fst (set_link_group N l k) = Inr l' \<Longrightarrow> lk_index l' = lk_index l"
    "fst (set_link_up N l k) = Inr l' \<Longrightarrow> lk_index l' = lk_index l"
    "fst (set_link_address N l a k) = Inr l' \<Longrightarrow> lk_index l' = lk_index l"
  using then_refresh_ok(2) [OF assms]
  by (simp_all add: ip_addr_add_def set_link_group_def set_link_up_def set_link_address_def)

lemma find_mac_index:
  assumes N: "netlink_spec N links" and f: "fst (find_mac N mac l k) = Inr (l', a)"
  shows "lk_index l' = lk_index l"
proof (cases mac)
  case None
  then show ?thesis using f by (cases "link_mac (lk_attrs l)") (simp_all add: find_mac_cases)
next
  case (Some b)
  then show ?thesis
    using f link_steps_index(4) [OF N, of l b k l'] by (cases "fst (set_link_address N l b k)") (simp_all add: find_mac_cases)
qed

text \<open>A step of \<^verbatim>\<open>new_tap\<close> on a device that exists: on an error the device is dropped.\<close>

lemma tap_bind:
  assumes N: "rtnl_spec N links temp" and L: "links k = L" "L n = Some (lk_index l)" "links (snd r0) = links k"
    and ok: "\<And>x k1. fst r0 = Inr x \<Longrightarrow> links k1 = L \<Longrightarrow> P (K x k1)"
    and err: "\<And>e k1. dropped links N n L k1 \<Longrightarrow> P (Inl e, k1)"
  shows "P (bindE (or_delete N l r0) K)"
proof -
  obtain r k1 where o: "or_delete N l r0 = (r, k1)" by fastforce
  show ?thesis
    using or_delete_ok [OF N, of "snd r0" L n l r0 r k1] o L ok err by (cases r; cases r0) auto
qed

definition tap_outcome ::
  "'k rtnl \<Rightarrow> ('k \<Rightarrow> string \<rightharpoonup> 32 word) \<Rightarrow> tap_info \<Rightarrow> 'k \<Rightarrow> ('k, tap_device) net_result \<Rightarrow> bool" where
  "tap_outcome N links info k x \<longleftrightarrow>
     (case x of
        (Inr d, k') \<Rightarrow> links k (ti_name info) = None \<and> links k' = (links k)(ti_name info \<mapsto> td_index d)
          \<and> (\<exists>mac. td_info d = info\<lparr>ti_mac := Some mac\<rparr>)
      | (Inl e, k') \<Rightarrow> links k' = links k
          \<or> (\<exists>i. links k' = (links k)(ti_name info \<mapsto> i) \<and> links k (ti_name info) = None)
            \<and> ((\<exists>e. by_name N (ti_name info) k' = Inl e) \<or> (\<exists>i k0 e. nl_del N i k0 = (Inl e, k'))))"

lemma new_tap_ok:
  assumes N: "rtnl_spec N links temp" and n: "plain_name (ti_name info)"
  shows "tap_outcome N links info k (new_tap N info k)"
proof -
  let ?n = "ti_name info" and ?P = "tap_outcome N links info k"
  note M = rtnl_specD(3) [OF N] and S = link_steps_ok [OF rtnl_specD(3) [OF N]] and I = link_steps_index [OF rtnl_specD(3) [OF N]]
  let ?dev = "\<lambda>mac l k. (Inr \<lparr>td_index = lk_index l, td_info = info\<lparr>ti_name := ?n, ti_mac := Some mac\<rparr>\<rparr>, k)"
  let ?up = "\<lambda>mac l k. bindE (or_delete N l (set_link_up N l k)) (?dev mac)"
  let ?group = "\<lambda>mac l k. bindE (or_delete N l (set_link_group N l k)) (?up mac)"
  let ?addr = "\<lambda>mac l k. bindE (or_delete N l (ip_addr_add N l (ti_gateway info) (ti_prefix info) k)) (?group mac)"
  obtain r0 k0 where 0: "create_named N ?n k = (r0, k0)" by fastforce
  note C = create_named_ok [OF N n 0]
  show ?thesis
  proof (cases r0)
    case (Inl e)
    then show ?thesis using 0 C by (auto simp: new_tap_def tap_outcome_def)
  next
    case (Inr m)
    then obtain i where c: "m = ?n" "links k ?n = None" "links k0 = (links k)(?n \<mapsto> i)" using C by auto
    show ?thesis
    proof (cases "by_name N ?n k0")
      case (Inl e)
      then show ?thesis using 0 \<open>r0 = Inr m\<close> c by (auto simp: new_tap_def tap_outcome_def)
    next
      case l: (Inr l)
      have L: "links k0 ?n = Some (lk_index l)" by (rule netlink_specD(3) [OF M l])
      have err: "?P (Inl e, k1)" if "dropped links N ?n (links k0) k1" for e k1
        using that c by (auto simp: tap_outcome_def dropped_def fun_upd_idem_iff)
      have dev: "?P (Inr \<lparr>td_index = lk_index l, td_info = info\<lparr>ti_mac := Some mac\<rparr>\<rparr>, k1)" if "links k1 = links k0" for mac k1
        using that c L by (auto simp: tap_outcome_def)
      have up: "?P (?up mac l1 k1)" if "links k1 = links k0" "lk_index l1 = lk_index l" for mac l1 k1
        by (rule tap_bind [OF N that(1) _ S(3)]) (use that L I(3) dev err in auto)
      have group: "?P (?group mac l1 k1)" if "links k1 = links k0" "lk_index l1 = lk_index l" for mac l1 k1
        by (rule tap_bind [OF N that(1) _ S(2)]) (use that L I(2) up err in auto)
      have addr: "?P (?addr mac l1 k1)" if "links k1 = links k0" "lk_index l1 = lk_index l" for mac l1 k1
        by (rule tap_bind [OF N that(1) _ S(1)]) (use that L I(1) group err in auto)
      have "?P (bindE (or_delete N l (find_mac N (ti_mac info) l k0)) (\<lambda>(l, mac). ?addr mac l))"
        by (rule tap_bind [OF N refl L S(5)]) (use find_mac_index [OF M] addr err in auto)
      then show ?thesis using 0 \<open>r0 = Inr m\<close> c(1) l by (simp add: new_tap_def case_prod_unfold)
    qed
  qed
qed

end
