(* ===== verification/Providers.thy ===== *)
theory Providers
  imports Tap
begin

text \<open>
  \<^verbatim>\<open>network/providers\<close>: where sandboxes get their TAP devices from. \<open>plain\<close> makes a device per sandbox
  (\<^verbatim>\<open>plain_tap.rs\<close>), \<open>pool\<close> keeps devices that are made ahead (\<^verbatim>\<open>pool_tap.rs\<close>), and \<^verbatim>\<open>air_gapped\<close> has none.
  Both give every device a \<^verbatim>\<open>/31\<close> subnet of its own, with the lower address for the host and the higher one
  for the sandbox.

  The kernel is passed to an operation and comes back from it; other tasks change it in between.
  \<open>ip_subnets\<close> and \<open>ip_hosts\<close> are \<^verbatim>\<open>Ipv4Net::subnets\<close> and \<^verbatim>\<open>Ipv4Net::hosts\<close>.
\<close>

section \<open>Names and addresses\<close>

record ipnet_ops =
  ip_subnets :: "ipv4_net \<Rightarrow> nat \<Rightarrow> unit + ipv4_net list"
  ip_hosts :: "ipv4_net \<Rightarrow> ipv4_addr list"

definition prefix_len :: nat where
  "prefix_len = 31"

definition octets :: "ipv4_addr \<Rightarrow> 8 word list" where
  "octets a = map (\<lambda>k. ucast (drop_bit k a)) [24, 16, 8, 0]"

definition hex_digit :: "nat \<Rightarrow> char" where
  "hex_digit n = char_of (if n < 10 then 48 + n else 87 + n)"

definition hex2 :: "8 word \<Rightarrow> string" where
  "hex2 w = [hex_digit (unat w div 16), hex_digit (unat w mod 16)]"

definition resource_name :: "ipv4_addr \<Rightarrow> string" where
  "resource_name a =
     (case octets a of [w, x, y, z] \<Rightarrow>
        ''uvm-'' @ hex2 w @ ''-'' @ hex2 x @ ''-'' @ hex2 y @ ''-'' @ hex2 z)"

definition subnet_tap :: "ipnet_ops \<Rightarrow> ipv4_net \<Rightarrow> net_error fault + tap_info" where
  "subnet_tap I s =
     (case ip_hosts I s of
        [] \<Rightarrow> Inl (Panic ''first host of the subnet'')
      | [_] \<Rightarrow> Inl (Panic ''last host of the subnet'')
      | gw # vm_ip # _ \<Rightarrow>
          Inr \<lparr>ti_name = resource_name vm_ip, ti_mac = None, ti_ip = vm_ip, ti_prefix = prefix_len, ti_gateway = gw\<rparr>)"

section \<open>The interface of a provider\<close>

record ('p, 'w, 'r, 'd) provider_ops =
  pv_alloc :: "'p \<Rightarrow> (net_error fault + 'r) \<times> 'p"
  pv_request :: "'d \<Rightarrow> 'w \<Rightarrow> 'p \<Rightarrow> (net_error fault + 'r) \<times> 'p \<times> 'w"
  pv_dealloc :: "'r \<Rightarrow> 'w \<Rightarrow> 'p \<Rightarrow> (net_error fault + unit) \<times> 'p \<times> 'w"
  pv_shutdown :: "'w \<Rightarrow> 'p \<Rightarrow> (net_error fault + unit) \<times> 'p \<times> 'w"

section \<open>PlainTapDevices\<close>

record plain_taps =
  pt_pool :: "ipv4_net fifo_exact_pool"

definition plain_new :: "ipnet_ops \<Rightarrow> bool \<Rightarrow> ipv4_net \<Rightarrow> net_error + plain_taps" where
  "plain_new I connected net =
     (case fifo_exact_new (ip_subnets I) prefix_len net of
        Inl e \<Rightarrow> Inl (SubnetPoolErr e)
      | Inr p \<Rightarrow>
          if \<not> connected then Inl (NetIo ''could not create new rtnetlink connection'')
          else Inr \<lparr>pt_pool = p\<rparr>)"

definition plain_alloc :: "ipnet_ops \<Rightarrow> plain_taps \<Rightarrow> (net_error fault + tap) \<times> plain_taps" where
  "plain_alloc I p =
     (case fifo_exact_get_next (pt_pool p) of
        (None, q) \<Rightarrow> (Inl (Err NoMoreIpv4Subnets), p\<lparr>pt_pool := q\<rparr>)
      | (Some s, q) \<Rightarrow> (map_sum id Builder (subnet_tap I s), p\<lparr>pt_pool := q\<rparr>))"

definition plain_request ::
  "'k rtnl \<Rightarrow> tap_info \<Rightarrow> 'k \<Rightarrow> plain_taps \<Rightarrow> (net_error fault + tap) \<times> plain_taps \<times> 'k" where
  "plain_request N info k p =
     (case fifo_exact_get (Ipv4Net (ti_gateway info) prefix_len) (pt_pool p) of
        (Inl e, q) \<Rightarrow> (Inl (Err (SubnetPoolErr e)), p\<lparr>pt_pool := q\<rparr>, k)
      | (Inr _, q) \<Rightarrow>
          (case build_or_adopt N info k of
             (r, k) \<Rightarrow> (map_sum Err Device r, p\<lparr>pt_pool := q\<rparr>, k)))"

definition plain_dealloc ::
  "'k rtnl \<Rightarrow> tap \<Rightarrow> 'k \<Rightarrow> plain_taps \<Rightarrow> (net_error fault + unit) \<times> plain_taps \<times> 'k" where
  "plain_dealloc N t k p =
     (let subnet = Ipv4Net (ti_ip (tap_info_of t)) prefix_len;
          freed = p\<lparr>pt_pool := fifo_exact_give_back subnet (pt_pool p)\<rparr> in
      case t of
        Builder _ \<Rightarrow> (Inr (), freed, k)
      | Device d \<Rightarrow>
          (case tap_destroy N d k of
             (Inl e, k) \<Rightarrow> (Inl (Err e), p, k)
           | (Inr _, k) \<Rightarrow> (Inr (), freed, k)))"

definition plain_provider :: "ipnet_ops \<Rightarrow> 'k rtnl \<Rightarrow> (plain_taps, 'k, tap, tap_info) provider_ops" where
  "plain_provider I N =
     \<lparr>pv_alloc = plain_alloc I, pv_request = plain_request N, pv_dealloc = plain_dealloc N,
      pv_shutdown = (\<lambda>k p. (Inr (), p, k))\<rparr>"

section \<open>PoolTapDevices\<close>

record pool_taps =
  po_pool :: "ipv4_net fifo_exact_pool"
  po_free :: "(ipv4_net \<times> tap) list"

definition max_pool_size :: nat where
  "max_pool_size = 65535"

text \<open>The loop of \<^verbatim>\<open>new\<close> that takes the subnets, and the tasks that make the devices. They run
  concurrently on different devices; \<open>arrange\<close> is the order in which they are done.\<close>

fun pool_plan :: "ipnet_ops \<Rightarrow> nat \<Rightarrow> ipv4_net fifo_exact_pool
    \<Rightarrow> (net_error fault + (ipv4_net \<times> tap_info) list) \<times> ipv4_net fifo_exact_pool" where
  "pool_plan I 0 q = (Inr [], q)"
| "pool_plan I (Suc n) q =
     (case fifo_exact_get_next q of
        (None, q) \<Rightarrow> (Inl (Err NoMoreIpv4Subnets), q)
      | (Some s, q) \<Rightarrow>
          (case subnet_tap I s of
             Inl e \<Rightarrow> (Inl e, q)
           | Inr info \<Rightarrow> bindE (pool_plan I n q) (\<lambda>rest q. (Inr ((s, info) # rest), q))))"

fun build_taps :: "'k rtnl \<Rightarrow> (ipv4_net \<times> tap_info) list \<Rightarrow> 'k \<Rightarrow> (net_error + ipv4_net \<times> tap) list \<times> 'k" where
  "build_taps N [] k = ([], k)"
| "build_taps N ((s, info) # plan) k =
     (case build_or_adopt N info k of
        (r, k) \<Rightarrow> (case build_taps N plan k of (rs, k) \<Rightarrow> (map_sum id (\<lambda>d. (s, Device d)) r # rs, k)))"

fun collect_results :: "('e + 'a) list \<Rightarrow> 'e + 'a list" where
  "collect_results [] = Inr []"
| "collect_results (Inl e # rs) = Inl e"
| "collect_results (Inr x # rs) = map_sum id ((#) x) (collect_results rs)"

definition pool_taps_new ::
  "ipnet_ops \<Rightarrow> 'k rtnl \<Rightarrow> ((net_error + ipv4_net \<times> tap) list \<Rightarrow> (net_error + ipv4_net \<times> tap) list) \<Rightarrow> bool
    \<Rightarrow> ipv4_net \<Rightarrow> nat \<Rightarrow> 'k \<Rightarrow> net_error fault + pool_taps \<times> 'k" where
  "pool_taps_new I N arrange connected net capacity k =
     (case fifo_exact_new (ip_subnets I) prefix_len net of
        Inl e \<Rightarrow> Inl (Err (SubnetPoolErr e))
      | Inr q \<Rightarrow>
          if \<not> connected then Inl (Err (NetIo ''could not create new rtnetlink connection''))
          else
            (case pool_plan I (min (2 ^ (prefix_len - net_len net)) (min capacity max_pool_size)) q of
               (Inl e, _) \<Rightarrow> Inl e
             | (Inr plan, q) \<Rightarrow>
                 (case build_taps N plan k of
                    (rs, k) \<Rightarrow>
                      (case collect_results (arrange rs) of
                         Inl e \<Rightarrow> Inl (Err e)
                       | Inr free \<Rightarrow> Inr (\<lparr>po_pool = q, po_free = free\<rparr>, k)))))"

definition pool_alloc :: "ipnet_ops \<Rightarrow> pool_taps \<Rightarrow> (net_error fault + tap) \<times> pool_taps" where
  "pool_alloc I p =
     (if po_free p \<noteq> [] then (Inr (snd (last (po_free p))), p\<lparr>po_free := butlast (po_free p)\<rparr>)
      else
        (case fifo_exact_get_next (po_pool p) of
           (None, q) \<Rightarrow> (Inl (Err NoMoreIpv4Subnets), p\<lparr>po_pool := q\<rparr>)
         | (Some s, q) \<Rightarrow> (map_sum id Builder (subnet_tap I s), p\<lparr>po_pool := q\<rparr>)))"

definition pool_request ::
  "'k rtnl \<Rightarrow> tap_info \<Rightarrow> 'k \<Rightarrow> pool_taps \<Rightarrow> (net_error fault + tap) \<times> pool_taps \<times> 'k" where
  "pool_request N info k p =
     (let req_subnet = Ipv4Net (ti_gateway info) prefix_len in
      case List.extract (\<lambda>t. fst t = req_subnet) (po_free p) of
        Some (before, t, after) \<Rightarrow> (Inr (snd t), p\<lparr>po_free := before @ after\<rparr>, k)
      | None \<Rightarrow>
          (case fifo_exact_get req_subnet (po_pool p) of
             (Inl e, q) \<Rightarrow> (Inl (Err (SubnetPoolErr e)), p\<lparr>po_pool := q\<rparr>, k)
           | (Inr _, q) \<Rightarrow>
               (case build_or_adopt N info k of
                  (r, k) \<Rightarrow> (map_sum Err Device r, p\<lparr>po_pool := q\<rparr>, k))))"

definition pool_dealloc :: "tap \<Rightarrow> 'k \<Rightarrow> pool_taps \<Rightarrow> (net_error fault + unit) \<times> pool_taps \<times> 'k" where
  "pool_dealloc t k p =
     (case t of
        Device d \<Rightarrow> (Inr (), p\<lparr>po_free := (Ipv4Net (ti_gateway (td_info d)) prefix_len, t) # po_free p\<rparr>, k)
      | Builder _ \<Rightarrow> (Inl (Panic ''TODO: Add proper error handling''), p, k))"

text \<open>The destruction of a device is a task of its own, so that its failure or panic is logged.\<close>

definition destroy_free :: "'k rtnl \<Rightarrow> tap \<Rightarrow> 'k \<Rightarrow> 'k" where
  "destroy_free N t k = (case t of Device d \<Rightarrow> snd (tap_destroy N d k) | Builder _ \<Rightarrow> k)"

definition pool_shutdown :: "'k rtnl \<Rightarrow> 'k \<Rightarrow> pool_taps \<Rightarrow> (net_error fault + unit) \<times> pool_taps \<times> 'k" where
  "pool_shutdown N k p = (Inr (), p\<lparr>po_free := []\<rparr>, fold (\<lambda>(_, t). destroy_free N t) (po_free p) k)"

definition pool_provider :: "ipnet_ops \<Rightarrow> 'k rtnl \<Rightarrow> (pool_taps, 'k, tap, tap_info) provider_ops" where
  "pool_provider I N =
     \<lparr>pv_alloc = pool_alloc I, pv_request = pool_request N, pv_dealloc = pool_dealloc, pv_shutdown = pool_shutdown N\<rparr>"

section \<open>AirGapped\<close>

definition air_gapped :: "(unit, 'w, unit, unit) provider_ops" where
  "air_gapped =
     \<lparr>pv_alloc = (\<lambda>p. (Inr (), p)), pv_request = (\<lambda>_ w p. (Inr (), p, w)), pv_dealloc = (\<lambda>_ w p. (Inr (), p, w)),
      pv_shutdown = (\<lambda>w p. (Inr (), p, w))\<rparr>"

end
