(* ===== verification/Netman.thy ===== *)
theory Netman
  imports Providers
begin

text \<open>
  \<^verbatim>\<open>network/manager.rs\<close>: the network manager, the only task that talks to the provider. Workers ask it for
  a resource (\<open>Allocate\<close>), the pool for a given one when it reads a snapshot back (\<open>Request\<close>), and both
  give resources back. After the quit notification it refuses new requests and waits until all its
  references are dropped; then it shuts the provider down.

  A message carries the kernel as the manager finds it, and for a request whether the caller still waits.
  The ghost field \<open>nm_given\<close> holds the results that callers have got.
\<close>

datatype ('r, 'd) net_msg = Allocate bool | RequestDesc 'd bool | Deallocate 'r

datatype ('w, 'r, 'd) net_input =
  NetMsg 'w "('r, 'd) net_msg"
| NetClosed
| NetQuit
| NetTick

datatype net_phase = NetRunning | NetDraining | NetDone "net_error fault + unit"

record ('p, 'r) netman =
  nm_provider :: 'p
  nm_phase :: net_phase
  nm_given :: "(net_error + 'r) list"

definition netman_spawn :: "'p \<Rightarrow> ('p, 'r) netman" where
  "netman_spawn p = \<lparr>nm_provider = p, nm_phase = NetRunning, nm_given = []\<rparr>"

text \<open>A result is given to the caller; if the caller is gone, a resource is deallocated at once. A failure
  of that is logged, a panic is not caught.\<close>

definition net_give ::
  "('p, 'w, 'r, 'd) provider_ops \<Rightarrow> bool \<Rightarrow> 'w \<Rightarrow> (net_error fault + 'r) \<Rightarrow> ('p, 'r) netman
    \<Rightarrow> (string + unit) \<times> ('p, 'r) netman \<times> 'w" where
  "net_give P waiting w r nm =
     (case r of
        Inl (Panic m) \<Rightarrow> (Inl m, nm, w)
      | Inl (Err e) \<Rightarrow> (Inr (), (if waiting then nm\<lparr>nm_given := nm_given nm @ [Inl e]\<rparr> else nm), w)
      | Inr x \<Rightarrow>
          (if waiting then (Inr (), nm\<lparr>nm_given := nm_given nm @ [Inr x]\<rparr>, w)
           else
             (case pv_dealloc P x w (nm_provider nm) of
                (Inl (Panic m), p, w) \<Rightarrow> (Inl m, nm\<lparr>nm_provider := p\<rparr>, w)
              | (_, p, w) \<Rightarrow> (Inr (), nm\<lparr>nm_provider := p\<rparr>, w))))"

definition net_alloc ::
  "('p, 'w, 'r, 'd) provider_ops \<Rightarrow> 'd option \<Rightarrow> bool \<Rightarrow> 'w \<Rightarrow> ('p, 'r) netman \<Rightarrow> (string + unit) \<times> ('p, 'r) netman \<times> 'w" where
  "net_alloc P desc waiting w nm =
     (case desc of
        Some d \<Rightarrow> (case pv_request P d w (nm_provider nm) of (r, p, w) \<Rightarrow> net_give P waiting w r (nm\<lparr>nm_provider := p\<rparr>))
      | None \<Rightarrow> (case pv_alloc P (nm_provider nm) of (r, p) \<Rightarrow> net_give P waiting w r (nm\<lparr>nm_provider := p\<rparr>)))"

definition net_dealloc ::
  "('p, 'w, 'r, 'd) provider_ops \<Rightarrow> 'r \<Rightarrow> 'w \<Rightarrow> ('p, 'r) netman \<Rightarrow> (string + unit) \<times> ('p, 'r) netman \<times> 'w" where
  "net_dealloc P x w nm =
     (case pv_dealloc P x w (nm_provider nm) of
        (Inl (Panic m), p, w) \<Rightarrow> (Inl m, nm\<lparr>nm_provider := p\<rparr>, w)
      | (_, p, w) \<Rightarrow> (Inr (), nm\<lparr>nm_provider := p\<rparr>, w))"

text \<open>A message in the main loop and one during the shutdown.\<close>

definition net_handle ::
  "('p, 'w, 'r, 'd) provider_ops \<Rightarrow> 'w \<Rightarrow> ('r, 'd) net_msg \<Rightarrow> ('p, 'r) netman \<Rightarrow> (string + unit) \<times> ('p, 'r) netman \<times> 'w" where
  "net_handle P w msg nm =
     (case msg of
        Allocate waiting \<Rightarrow> net_alloc P None waiting w nm
      | RequestDesc d waiting \<Rightarrow> net_alloc P (Some d) waiting w nm
      | Deallocate x \<Rightarrow> net_dealloc P x w nm)"

definition net_refuse ::
  "('p, 'w, 'r, 'd) provider_ops \<Rightarrow> 'w \<Rightarrow> ('r, 'd) net_msg \<Rightarrow> ('p, 'r) netman \<Rightarrow> (string + unit) \<times> ('p, 'r) netman \<times> 'w" where
  "net_refuse P w msg nm =
     (let refused = (\<lambda>waiting. if waiting then nm\<lparr>nm_given := nm_given nm @ [Inl ShuttingDownNet]\<rparr> else nm) in
      case msg of
        Allocate waiting \<Rightarrow> (Inr (), refused waiting, w)
      | RequestDesc d waiting \<Rightarrow> (Inr (), refused waiting, w)
      | Deallocate x \<Rightarrow> net_dealloc P x w nm)"

definition net_end :: "net_error fault + unit \<Rightarrow> ('p, 'r) netman \<Rightarrow> ('p, 'r) netman" where
  "net_end r nm = nm\<lparr>nm_phase := NetDone r\<rparr>"

definition net_after :: "(string + unit) \<times> ('p, 'r) netman \<times> 'w \<Rightarrow> ('p, 'r) netman" where
  "net_after x = (case x of (Inl m, nm, _) \<Rightarrow> net_end (Inl (Panic m)) nm | (Inr _, nm, _) \<Rightarrow> nm)"

text \<open>One iteration; when all references are gone during the shutdown, the provider is shut down on the
  kernel \<open>w0\<close>.\<close>

definition netman_step ::
  "('p, 'w, 'r, 'd) provider_ops \<Rightarrow> 'w \<Rightarrow> ('w, 'r, 'd) net_input \<Rightarrow> ('p, 'r) netman \<Rightarrow> ('p, 'r) netman" where
  "netman_step P w0 i nm =
     (case nm_phase nm of
        NetRunning \<Rightarrow>
          (case i of
             NetQuit \<Rightarrow> nm\<lparr>nm_phase := NetDraining\<rparr>
           | NetClosed \<Rightarrow> net_end (Inl (Err UnexpectedShutDown)) nm
           | NetMsg w msg \<Rightarrow> net_after (net_handle P w msg nm)
           | NetTick \<Rightarrow> nm)
      | NetDraining \<Rightarrow>
          (case i of
             NetClosed \<Rightarrow>
               (case pv_shutdown P w0 (nm_provider nm) of
                  (Inl (Panic m), p, _) \<Rightarrow> net_end (Inl (Panic m)) (nm\<lparr>nm_provider := p\<rparr>)
                | (_, p, _) \<Rightarrow> net_end (Inr ()) (nm\<lparr>nm_provider := p\<rparr>))
           | NetMsg w msg \<Rightarrow> net_after (net_refuse P w msg nm)
           | _ \<Rightarrow> nm)
      | NetDone _ \<Rightarrow> nm)"

section \<open>The contract of a provider\<close>

text \<open>
  \<open>pinv A p\<close>: the resources that are out are those of the keys \<open>A\<close>. A new resource has a key that is not
  out; one that is returned is not out any more. Keys may stay out for ever after an error.
\<close>

locale net_provider =
  fixes P :: "('p, 'w, 'r, 'd) provider_ops"
    and pinv :: "'a set \<Rightarrow> 'p \<Rightarrow> bool"
    and key :: "'r \<Rightarrow> 'a"
    and sound :: "'r \<Rightarrow> bool"
    and askable :: "'d \<Rightarrow> 'p \<Rightarrow> bool"
  assumes alloc_Inr: "pinv A p \<Longrightarrow> pv_alloc P p = (Inr x, p') \<Longrightarrow> key x \<notin> A \<and> sound x \<and> pinv (insert (key x) A) p'"
    and alloc_Inl: "pinv A p \<Longrightarrow> pv_alloc P p = (Inl e, p') \<Longrightarrow> pinv A p' \<and> (\<exists>e'. e = Err e')"
    and request_Inr: "pinv A p \<Longrightarrow> askable d p \<Longrightarrow> pv_request P d w p = (Inr x, p', w') \<Longrightarrow>
          key x \<notin> A \<and> sound x \<and> pinv (insert (key x) A) p'"
    and request_Inl: "pinv A p \<Longrightarrow> askable d p \<Longrightarrow> pv_request P d w p = (Inl e, p', w') \<Longrightarrow>
          (\<exists>B. A \<subseteq> B \<and> pinv B p') \<and> (\<exists>e'. e = Err e')"
    and dealloc_Inr: "pinv A p \<Longrightarrow> sound x \<Longrightarrow> key x \<in> A \<Longrightarrow> pv_dealloc P x w p = (Inr u, p', w') \<Longrightarrow> pinv (A - {key x}) p'"
    and dealloc_Inl: "pinv A p \<Longrightarrow> sound x \<Longrightarrow> key x \<in> A \<Longrightarrow> pv_dealloc P x w p = (Inl e, p', w') \<Longrightarrow> pinv A p'"

text \<open>A provider that takes back everything it gives out.\<close>

locale returning_provider = net_provider P pinv key sound askable
  for P :: "('p, 'w, 'r, 'd) provider_ops" and pinv :: "'a set \<Rightarrow> 'p \<Rightarrow> bool" and key :: "'r \<Rightarrow> 'a"
    and sound :: "'r \<Rightarrow> bool" and askable :: "'d \<Rightarrow> 'p \<Rightarrow> bool" +
  assumes dealloc_safe: "pinv A p \<Longrightarrow> sound x \<Longrightarrow> key x \<in> A \<Longrightarrow> pv_dealloc P x w p = (Inl e, p', w') \<Longrightarrow> \<exists>e'. e = Err e'"
    and shutdown_safe: "\<exists>p' w'. pv_shutdown P w p = (Inr (), p', w')"

text \<open>
  A run of the manager with the keys that its clients hold. \<open>None\<close> marks a run in which a client gives
  back what it does not hold, or asks for what it must not ask for.
\<close>

definition net_polite ::
  "('r \<Rightarrow> 'a) \<Rightarrow> ('r \<Rightarrow> bool) \<Rightarrow> ('d \<Rightarrow> 'p \<Rightarrow> bool) \<Rightarrow> 'a list \<Rightarrow> ('p, 'r) netman \<Rightarrow> ('w, 'r, 'd) net_input \<Rightarrow> bool" where
  "net_polite key sound askable H nm i =
     (case i of
        NetMsg _ (Deallocate x) \<Rightarrow> sound x \<and> key x \<in> set H
      | NetMsg _ (RequestDesc d _) \<Rightarrow> askable d (nm_provider nm)
      | _ \<Rightarrow> True)"

definition given_keys :: "('r \<Rightarrow> 'a) \<Rightarrow> (net_error + 'r) list \<Rightarrow> 'a list" where
  "given_keys key rs = List.map_filter (\<lambda>r. case r of Inl _ \<Rightarrow> None | Inr x \<Rightarrow> Some (key x)) rs"

definition net_held :: "('r \<Rightarrow> 'a) \<Rightarrow> 'a list \<Rightarrow> ('w, 'r, 'd) net_input \<Rightarrow> (net_error + 'r) list \<Rightarrow> 'a list" where
  "net_held key H i new =
     given_keys key new @ (case i of NetMsg _ (Deallocate x) \<Rightarrow> remove1 (key x) H | _ \<Rightarrow> H)"

fun net_session ::
  "('p, 'w, 'r, 'd) provider_ops \<Rightarrow> ('r \<Rightarrow> 'a) \<Rightarrow> ('r \<Rightarrow> bool) \<Rightarrow> ('d \<Rightarrow> 'p \<Rightarrow> bool) \<Rightarrow> 'w \<Rightarrow> ('w, 'r, 'd) net_input list
    \<Rightarrow> 'a list \<Rightarrow> ('p, 'r) netman \<Rightarrow> ('a list \<times> ('p, 'r) netman) option" where
  "net_session P key sound askable w0 [] H nm = Some (H, nm)"
| "net_session P key sound askable w0 (i # is) H nm =
     (if net_polite key sound askable H nm i
      then
        (let nm' = netman_step P w0 i nm in
         net_session P key sound askable w0 is (net_held key H i (drop (length (nm_given nm)) (nm_given nm'))) nm')
      else None)"

definition net_ok :: "('a set \<Rightarrow> 'p \<Rightarrow> bool) \<Rightarrow> 'a list \<Rightarrow> ('p, 'r) netman \<Rightarrow> bool" where
  "net_ok pinv H nm \<longleftrightarrow>
     distinct H \<and> (case nm_phase nm of NetDone _ \<Rightarrow> True | _ \<Rightarrow> \<exists>A. set H \<subseteq> A \<and> pinv A (nm_provider nm))"

lemma given_keys_simps [simp]:
  "given_keys key [] = []" "given_keys key [Inl e] = []" "given_keys key [Inr x] = [key x]"
  by (simp_all add: given_keys_def List.map_filter_simps)

text \<open>What a handler does to the keys: \<open>gone\<close> is the key that a client gives up.\<close>

definition net_moves ::
  "('a set \<Rightarrow> 'p \<Rightarrow> bool) \<Rightarrow> ('r \<Rightarrow> 'a) \<Rightarrow> 'a set \<Rightarrow> 'a set \<Rightarrow> ('p, 'r) netman \<Rightarrow> (string + unit) \<times> ('p, 'r) netman \<times> 'w \<Rightarrow> bool" where
  "net_moves pinv key A gone nm x \<longleftrightarrow>
     (case x of (r, nm', w) \<Rightarrow>
        nm_phase nm' = nm_phase nm
        \<and> (\<exists>new. nm_given nm' = nm_given nm @ new \<and> distinct (given_keys key new) \<and> set (given_keys key new) \<inter> A = {}
             \<and> (\<exists>B. A - gone \<union> set (given_keys key new) \<subseteq> B \<and> pinv B (nm_provider nm'))))"

lemma net_movesI:
  assumes "x = (r, nm', w)" "nm_phase nm' = nm_phase nm" "nm_given nm' = nm_given nm @ new"
    and "distinct (given_keys key new)" "set (given_keys key new) \<inter> A = {}"
    and "A - gone \<union> set (given_keys key new) \<subseteq> B" "pinv B (nm_provider nm')"
  shows "net_moves pinv key A gone nm x"
  using assms unfolding net_moves_def by blast

lemma net_moves_refused:
  assumes "A \<subseteq> B" "pinv B (nm_provider nm)"
  shows "net_moves pinv key A gone nm (r, if waiting then nm\<lparr>nm_given := nm_given nm @ [Inl e]\<rparr> else nm, w)"
proof (cases waiting)
  case True
  have "net_moves pinv key A gone nm (r, nm\<lparr>nm_given := nm_given nm @ [Inl e]\<rparr>, w)"
    by (rule net_movesI [OF refl, where new = "[Inl e]" and B = B]) (use assms in auto)
  then show ?thesis using True by simp
next
  case False
  have "net_moves pinv key A gone nm (r, nm, w)" by (rule net_movesI [OF refl, where new = "[]" and B = B]) (use assms in auto)
  then show ?thesis using False by simp
qed

lemma net_moves_ok:
  assumes m: "net_moves pinv key A gone nm x" and H: "set H \<subseteq> A" "distinct H" "set H' \<subseteq> set H - gone" "distinct H'"
  shows "net_ok pinv (given_keys key (drop (length (nm_given nm)) (nm_given (net_after x))) @ H') (net_after x)"
proof -
  obtain r nm' w where x: "x = (r, nm', w)" by (metis prod_cases3)
  obtain new B where n: "nm_given nm' = nm_given nm @ new" "distinct (given_keys key new)" "set (given_keys key new) \<inter> A = {}"
      "A - gone \<union> set (given_keys key new) \<subseteq> B" "pinv B (nm_provider nm')"
    using m unfolding net_moves_def x by auto
  have g: "nm_given (net_after x) = nm_given nm @ new" using x n(1) by (cases r) (auto simp: net_after_def net_end_def)
  have d: "distinct (given_keys key new @ H')" using n(2,3) H by auto
  have s: "set (given_keys key new @ H') \<subseteq> B" using n(4) H by auto
  have "net_ok pinv (given_keys key new @ H') (net_after x)"
    using d s n(5) x by (cases r) (auto simp: net_ok_def net_after_def net_end_def split: net_phase.splits)
  then show ?thesis by (simp add: g)
qed

context net_provider
begin

lemma net_dealloc_moves:
  assumes "pinv A (nm_provider nm)" "sound x" "key x \<in> A"
  shows "net_moves pinv key A {key x} nm (net_dealloc P x w nm)"
proof -
  obtain r p' w' where d: "pv_dealloc P x w (nm_provider nm) = (r, p', w')" by (metis prod_cases3)
  have "\<exists>B. A - {key x} \<subseteq> B \<and> pinv B p'"
    using d dealloc_Inr [OF assms, of w] dealloc_Inl [OF assms, of w] by (cases r) blast+
  then show ?thesis
    using d by (cases r) (auto simp: net_moves_def net_dealloc_def split: fault.splits intro: exI [of _ "[]"])
qed

lemma net_give_moves:
  assumes "case r of Inr x \<Rightarrow> key x \<notin> A \<and> sound x \<and> pinv (insert (key x) A) (nm_provider nm)
    | Inl e \<Rightarrow> (\<exists>B. A \<subseteq> B \<and> pinv B (nm_provider nm)) \<and> (\<exists>e'. e = Err e')"
  shows "net_moves pinv key A {} nm (net_give P waiting w r nm)"
proof (cases r)
  case (Inl e)
  then show ?thesis
    using assms net_moves_refused [of A _ pinv nm key "{}" "Inr ()" waiting _ w] by (auto simp: net_give_def)
next
  case (Inr x)
  then have x: "key x \<notin> A" "sound x" "pinv (insert (key x) A) (nm_provider nm)" using assms by auto
  show ?thesis
  proof (cases waiting)
    case True
    then show ?thesis using Inr x by (auto simp: net_moves_def net_give_def intro!: exI [of _ "insert (key x) A"])
  next
    case False
    obtain r' p' w' where d: "pv_dealloc P x w (nm_provider nm) = (r', p', w')" by (metis prod_cases3)
    have "\<exists>B. A \<subseteq> B \<and> pinv B p'"
      using d dealloc_Inr [OF x(3,2), of w] dealloc_Inl [OF x(3,2), of w] x(1) by (cases r') (auto intro: exI [of _ "insert (key x) A"])
    then show ?thesis
      using d Inr False by (cases r') (auto simp: net_moves_def net_give_def split: fault.splits intro: exI [of _ "[]"])
  qed
qed

lemma net_alloc_moves:
  assumes "pinv A (nm_provider nm)" and "\<forall>d. desc = Some d \<longrightarrow> askable d (nm_provider nm)"
  shows "net_moves pinv key A {} nm (net_alloc P desc waiting w nm)"
proof (cases desc)
  case None
  obtain r p' where a: "pv_alloc P (nm_provider nm) = (r, p')" by fastforce
  have "net_moves pinv key A {} (nm\<lparr>nm_provider := p'\<rparr>) (net_give P waiting w r (nm\<lparr>nm_provider := p'\<rparr>))"
    using a alloc_Inr [OF assms(1)] alloc_Inl [OF assms(1)] by (intro net_give_moves) (cases r; auto)
  then show ?thesis using None a by (simp add: net_alloc_def net_moves_def)
next
  case (Some d)
  obtain r p' w' where a: "pv_request P d w (nm_provider nm) = (r, p', w')" by (metis prod_cases3)
  have "askable d (nm_provider nm)" using assms(2) Some by simp
  then have "net_moves pinv key A {} (nm\<lparr>nm_provider := p'\<rparr>) (net_give P waiting w' r (nm\<lparr>nm_provider := p'\<rparr>))"
    using a request_Inr [OF assms(1)] request_Inl [OF assms(1)] by (intro net_give_moves) (cases r; auto)
  then show ?thesis using Some a by (simp add: net_alloc_def net_moves_def)
qed

lemma net_handle_moves:
  assumes "pinv A (nm_provider nm)" "net_polite key sound askable H nm (NetMsg w msg)" "set H \<subseteq> A"
  shows "net_moves pinv key A (case msg of Deallocate x \<Rightarrow> {key x} | _ \<Rightarrow> {}) nm (net_handle P w msg nm)"
  using assms by (cases msg) (auto simp: net_handle_def net_polite_def intro!: net_alloc_moves net_dealloc_moves)

lemma net_refuse_moves:
  assumes "pinv A (nm_provider nm)" "net_polite key sound askable H nm (NetMsg w msg)" "set H \<subseteq> A"
  shows "net_moves pinv key A (case msg of Deallocate x \<Rightarrow> {key x} | _ \<Rightarrow> {}) nm (net_refuse P w msg nm)"
proof (cases msg)
  case (Deallocate x)
  then show ?thesis using assms by (auto simp: net_refuse_def net_polite_def Let_def intro!: net_dealloc_moves)
next
  case (Allocate b)
  then show ?thesis
    using net_moves_refused [of A A pinv nm key "{}" "Inr ()" b ShuttingDownNet w, OF order_refl assms(1)] by (simp add: net_refuse_def Let_def)
next
  case (RequestDesc d b)
  then show ?thesis
    using net_moves_refused [of A A pinv nm key "{}" "Inr ()" b ShuttingDownNet w, OF order_refl assms(1)] by (simp add: net_refuse_def Let_def)
qed

lemma step_ok:
  assumes o: "net_ok pinv H nm" and p: "net_polite key sound askable H nm i"
  shows "net_ok pinv (net_held key H i (drop (length (nm_given nm)) (nm_given (netman_step P w0 i nm)))) (netman_step P w0 i nm)"
proof -
  have d: "distinct H" using o by (simp add: net_ok_def)
  have quiet: "net_ok pinv (net_held key H i []) nm'"
    if "set H \<subseteq> A \<and> pinv A (nm_provider nm') \<or> (\<exists>r. nm_phase nm' = NetDone r)" for nm' A
  proof -
    have "set (net_held key H i []) \<subseteq> set H" "distinct (net_held key H i [])"
      using d set_remove1_subset [of _ H] by (auto simp: net_held_def split: net_input.splits net_msg.splits)
    then show ?thesis using that by (auto simp: net_ok_def split: net_phase.splits)
  qed
  have msg: "net_ok pinv (net_held key H (NetMsg w msg) (drop (length (nm_given nm)) (nm_given (net_after x)))) (net_after x)"
    if "net_moves pinv key A (case msg of Deallocate x \<Rightarrow> {key x} | _ \<Rightarrow> {}) nm x" "set H \<subseteq> A" for A w msg and x :: "(string + unit) \<times> ('p, 'r) netman \<times> 'w"
    using net_moves_ok [OF that d] d by (cases msg) (auto simp: net_held_def)
  show ?thesis
  proof (cases "nm_phase nm")
    case NetRunning
    then obtain A where A: "set H \<subseteq> A" "pinv A (nm_provider nm)" using o by (auto simp: net_ok_def)
    show ?thesis
      using NetRunning A quiet [of A] msg [OF net_handle_moves [OF A(2) _ A(1)] A(1)] p
      by (cases i) (auto simp: netman_step_def net_end_def)
  next
    case NetDraining
    then obtain A where A: "set H \<subseteq> A" "pinv A (nm_provider nm)" using o by (auto simp: net_ok_def)
    show ?thesis
      using NetDraining A quiet [of A] msg [OF net_refuse_moves [OF A(2) _ A(1)] A(1)] p
      by (cases i) (auto simp: netman_step_def net_end_def split: prod.splits sum.splits fault.splits)
  next
    case (NetDone r)
    then show ?thesis using quiet [of UNIV nm] by (simp add: netman_step_def)
  qed
qed

lemma session_ok:
  "net_ok pinv H nm \<Longrightarrow> net_session P key sound askable w0 is H nm = Some (H', nm') \<Longrightarrow> net_ok pinv H' nm'"
proof (induction "is" arbitrary: H nm)
  case (Cons i "is")
  then show ?case using step_ok [OF Cons.prems(1)] by (auto simp: Let_def split: if_splits)
qed simp

end

definition net_panicked :: "('p, 'r) netman \<Rightarrow> bool" where
  "net_panicked nm \<longleftrightarrow> (\<exists>m. nm_phase nm = NetDone (Inl (Panic m)))"

context returning_provider
begin

lemma net_dealloc_safe:
  "pinv A (nm_provider nm) \<Longrightarrow> sound x \<Longrightarrow> key x \<in> A \<Longrightarrow> fst (net_dealloc P x w nm) = Inr ()"
  using dealloc_safe [of A "nm_provider nm" x w]
  by (cases "pv_dealloc P x w (nm_provider nm)") (force simp: net_dealloc_def split: sum.splits fault.splits)

lemma net_give_safe:
  assumes "case r of Inr x \<Rightarrow> sound x \<and> pinv (insert (key x) A) (nm_provider nm) | Inl e \<Rightarrow> \<exists>e'. e = Err e'"
  shows "fst (net_give P waiting w r nm) = Inr ()"
proof (cases r)
  case (Inl e)
  then show ?thesis using assms by (auto simp: net_give_def)
next
  case (Inr x)
  then have "fst (net_dealloc P x w nm) = Inr ()" using net_dealloc_safe [of "insert (key x) A" nm x w] assms by simp
  then show ?thesis using Inr by (simp add: net_give_def net_dealloc_def)
qed

lemma net_handle_safe:
  assumes A: "pinv A (nm_provider nm)" and p: "net_polite key sound askable H nm (NetMsg w msg)" and H: "set H \<subseteq> A"
  shows "fst (net_handle P w msg nm) = Inr ()" "fst (net_refuse P w msg nm) = Inr ()"
proof -
  show "fst (net_refuse P w msg nm) = Inr ()"
    using assms net_dealloc_safe by (cases msg) (auto simp: net_refuse_def net_polite_def Let_def)
  show "fst (net_handle P w msg nm) = Inr ()"
  proof (cases msg)
    case (Allocate b)
    obtain r p' where a: "pv_alloc P (nm_provider nm) = (r, p')" by fastforce
    have "case r of Inr x \<Rightarrow> sound x \<and> pinv (insert (key x) A) p' | Inl e \<Rightarrow> \<exists>e'. e = Err e'"
      using alloc_Inr [OF A] alloc_Inl [OF A] a by (cases r) auto
    then have "fst (net_give P b w r (nm\<lparr>nm_provider := p'\<rparr>)) = Inr ()" by (intro net_give_safe [where A = A]) (simp split: sum.splits)
    then show ?thesis using Allocate a by (simp add: net_handle_def net_alloc_def)
  next
    case (RequestDesc d b)
    obtain r p' w' where a: "pv_request P d w (nm_provider nm) = (r, p', w')" by (metis prod_cases3)
    have "askable d (nm_provider nm)" using p RequestDesc by (simp add: net_polite_def)
    then have "case r of Inr x \<Rightarrow> sound x \<and> pinv (insert (key x) A) p' | Inl e \<Rightarrow> \<exists>e'. e = Err e'"
      using request_Inr [OF A] request_Inl [OF A] a by (cases r) auto
    then have "fst (net_give P b w' r (nm\<lparr>nm_provider := p'\<rparr>)) = Inr ()" by (intro net_give_safe [where A = A]) (simp split: sum.splits)
    then show ?thesis using RequestDesc a by (simp add: net_handle_def net_alloc_def)
  next
    case (Deallocate x)
    then show ?thesis using assms net_dealloc_safe by (auto simp: net_handle_def net_polite_def)
  qed
qed

lemma step_safe:
  assumes o: "net_ok pinv H nm" and n: "\<not> net_panicked nm" and p: "net_polite key sound askable H nm i"
  shows "\<not> net_panicked (netman_step P w0 i nm)"
proof -
  have after: "\<not> net_panicked (net_after x)" if "fst x = Inr ()" "nm_phase (fst (snd x)) = nm_phase nm" for x :: "(string + unit) \<times> ('p, 'r) netman \<times> 'w"
    using that n by (auto simp: net_after_def net_panicked_def split: prod.splits)
  have same: "nm_phase (fst (snd x)) = nm_phase nm" if "net_moves pinv key A gone nm x" for A gone and x :: "(string + unit) \<times> ('p, 'r) netman \<times> 'w"
    using that by (auto simp: net_moves_def split: prod.splits)
  show ?thesis
  proof (cases "nm_phase nm")
    case NetRunning
    then obtain A where A: "set H \<subseteq> A" "pinv A (nm_provider nm)" using o by (auto simp: net_ok_def)
    show ?thesis
      using NetRunning n p after [OF net_handle_safe(1) [OF A(2) _ A(1)] same [OF net_handle_moves [OF A(2) _ A(1)]]]
      by (cases i) (auto simp: netman_step_def net_end_def net_panicked_def)
  next
    case NetDraining
    then obtain A where A: "set H \<subseteq> A" "pinv A (nm_provider nm)" using o by (auto simp: net_ok_def)
    obtain p' w' where s: "pv_shutdown P w0 (nm_provider nm) = (Inr (), p', w')" using shutdown_safe by blast
    show ?thesis
      using NetDraining n p s after [OF net_handle_safe(2) [OF A(2) _ A(1)] same [OF net_refuse_moves [OF A(2) _ A(1)]]]
      by (cases i) (auto simp: netman_step_def net_end_def net_panicked_def)
  next
    case (NetDone r)
    then show ?thesis using n by (simp add: netman_step_def)
  qed
qed

lemma session_safe:
  "net_ok pinv H nm \<Longrightarrow> \<not> net_panicked nm \<Longrightarrow> net_session P key sound askable w0 is H nm = Some (H', nm') \<Longrightarrow> \<not> net_panicked nm'"
proof (induction "is" arbitrary: H nm)
  case (Cons i "is")
  have p: "net_polite key sound askable H nm i" using Cons.prems(3) by (simp split: if_splits)
  show ?case
    using Cons.prems(3) p Cons.IH [OF step_ok [OF Cons.prems(1) p] step_safe [OF Cons.prems(1,2) p]] by (simp add: Let_def)
qed simp

end

end
