(* ===== verification/Net_Inv.thy ===== *)
theory Net_Inv
  imports Netman "HOL-Library.Multiset"
begin

text \<open>
  The TAP providers as instances of the contract of \<open>Netman\<close>, and the properties of the network manager
  with them.
\<close>

section \<open>Words\<close>

text \<open>The two addresses of a \<^verbatim>\<open>/31\<close> subnet.\<close>

definition host_addr :: "ipv4_addr \<Rightarrow> ipv4_addr" where
  "host_addr a = a AND NOT 1"

definition vm_addr :: "ipv4_addr \<Rightarrow> ipv4_addr" where
  "vm_addr a = a OR 1"

lemma host_vm_simps [simp]:
  "host_addr (host_addr a) = host_addr a" "host_addr (vm_addr a) = host_addr a"
  "vm_addr (host_addr a) = vm_addr a" "vm_addr (vm_addr a) = vm_addr a"
  unfolding host_addr_def vm_addr_def by (simp_all only: bit_eq_iff bit_simps) auto

lemma host_not_vm: "host_addr a = a \<Longrightarrow> vm_addr a \<noteq> a"
proof -
  have "\<not> bit (host_addr a) 0" "bit (vm_addr a) 0" unfolding host_addr_def vm_addr_def by (simp_all add: bit_simps)
  then show "host_addr a = a \<Longrightarrow> vm_addr a \<noteq> a" by metis
qed

lemma host_inj: "host_addr a = host_addr b \<Longrightarrow> vm_addr a = vm_addr b"
  by (metis host_vm_simps(3))

lemma hex_digit_eq: "m < 16 \<Longrightarrow> n < 16 \<Longrightarrow> hex_digit m = hex_digit n \<longleftrightarrow> m = n"
  by (auto simp: hex_digit_def char_of_eq_iff take_bit_eq_mod)

lemma hex2_eq: "hex2 v = hex2 w \<longleftrightarrow> v = w"
proof
  assume "hex2 v = hex2 w"
  moreover have "unat x div 16 < 16" "unat x mod 16 < 16" for x :: "8 word"
    using unsigned_less [of x, where 'a = nat] by (simp_all add: div_less_iff_less_mult)
  ultimately have "unat v div 16 = unat w div 16" "unat v mod 16 = unat w mod 16" by (auto simp: hex2_def hex_digit_eq)
  then have "unat v = unat w" by (metis div_mult_mod_eq)
  then show "v = w" by (rule unsigned_word_eqI)
qed simp

lemma octets_eq: "octets a = octets b \<longleftrightarrow> a = b"
proof
  assume o: "octets a = octets b"
  have k: "bit a (k + j) = bit b (k + j)" if "k \<in> {24, 16, 8, 0}" "j < 8" for k j
  proof -
    have "(ucast (drop_bit k a) :: 8 word) = ucast (drop_bit k b)" using o that(1) by (auto simp: octets_def)
    then have "bit (ucast (drop_bit k a) :: 8 word) j = bit (ucast (drop_bit k b) :: 8 word) j" by simp
    then show ?thesis using that by (simp add: bit_simps)
  qed
  show "a = b"
  proof (rule bit_word_eqI)
    fix n assume "n < LENGTH(32)"
    then have n: "n < 32" by simp
    have d: "n div 8 < 4" using n by simp
    have "n div 8 = 0 \<or> n div 8 = 1 \<or> n div 8 = 2 \<or> n div 8 = 3" using d by linarith
    then have "n div 8 * 8 \<in> {24, 16, 8, 0}" by (elim disjE) simp_all
    then show "bit a n = bit b n" using k [of "n div 8 * 8" "n mod 8"] by simp
  qed
qed simp

section \<open>The names of the devices\<close>

lemma hex_digit_ascii: "n < 16 \<Longrightarrow> 0 < (of_char (hex_digit n) :: nat) \<and> (of_char (hex_digit n) :: nat) < 128"
  by (auto simp: hex_digit_def take_bit_eq_mod)

lemma octets_length: "\<exists>w x y z. octets a = [w, x, y, z]"
  by (simp add: octets_def)

lemma resource_name_eq: "resource_name a = resource_name b \<longleftrightarrow> a = b"
proof
  assume e: "resource_name a = resource_name b"
  obtain w x y z w' x' y' z' where o: "octets a = [w, x, y, z]" "octets b = [w', x', y', z']"
    using octets_length by metis
  have "hex2 w = hex2 w'" "hex2 x = hex2 x'" "hex2 y = hex2 y'" "hex2 z = hex2 z'"
    using e by (simp_all add: resource_name_def o hex2_def)
  then have "octets a = octets b" by (simp add: o hex2_eq)
  then show "a = b" by (simp add: octets_eq)
qed simp

lemma hex2_ascii: "\<forall>c \<in> set (hex2 w). 0 < (of_char c :: nat) \<and> (of_char c :: nat) < 128"
proof -
  have "unat w div 16 < 16" "unat w mod 16 < 16"
    using unsigned_less [of w, where 'a = nat] by (simp_all add: div_less_iff_less_mult)
  then show ?thesis by (auto simp: hex2_def hex_digit_ascii)
qed

lemma resource_name_plain: "plain_name (resource_name a)" "length (resource_name a) = 15"
proof -
  obtain w x y z where o: "octets a = [w, x, y, z]" using octets_length by blast
  show l: "length (resource_name a) = 15" by (simp add: resource_name_def o hex2_def)
  have "\<forall>c \<in> set (resource_name a). 0 < (of_char c :: nat) \<and> (of_char c :: nat) < 128"
    using hex2_ascii [of w] hex2_ascii [of x] hex2_ascii [of y] hex2_ascii [of z] by (auto simp: resource_name_def o)
  then show "plain_name (resource_name a)" using l by (simp add: plain_name_def ifnamsiz_def)
qed

section \<open>Networks\<close>

definition ipnet_spec :: "ipnet_ops \<Rightarrow> bool" where
  "ipnet_spec I \<longleftrightarrow>
     (\<forall>net it. ip_subnets I net prefix_len = Inr it \<longrightarrow>
        sorted_wrt (<) it \<and> (\<forall>s \<in> set it. \<exists>a. s = Ipv4Net (host_addr a) prefix_len))
     \<and> (\<forall>a. ip_hosts I (Ipv4Net a prefix_len) = [host_addr a, vm_addr a])"

definition net_of :: "ipv4_addr \<Rightarrow> ipv4_net" where
  "net_of a = Ipv4Net (host_addr a) prefix_len"

text \<open>The key of a device is its subnet; the devices that are handed out have the addresses and the name
  that belong to it.\<close>

definition tap_net :: "tap \<Rightarrow> ipv4_net" where
  "tap_net t = net_of (ti_ip (tap_info_of t))"

definition info_ok :: "tap_info \<Rightarrow> bool" where
  "info_ok i \<longleftrightarrow> vm_addr (ti_ip i) = ti_ip i \<and> ti_gateway i = host_addr (ti_ip i) \<and> ti_name i = resource_name (ti_ip i)"

definition tap_ok :: "tap \<Rightarrow> bool" where
  "tap_ok t \<longleftrightarrow> info_ok (tap_info_of t)"

text \<open>Networks given by their lower address, and by their higher one.\<close>

definition even_net :: "ipv4_net \<Rightarrow> bool" where
  "even_net s \<longleftrightarrow> s = net_of (net_addr s)"

definition odd_net :: "ipv4_net \<Rightarrow> bool" where
  "odd_net s \<longleftrightarrow> s = Ipv4Net (vm_addr (net_addr s)) prefix_len"

lemma net_of_simps [simp]:
  "even_net (net_of a)" "net_of (vm_addr a) = net_of a" "net_of (host_addr a) = net_of a" "odd_net (Ipv4Net (vm_addr a) prefix_len)"
  "net_of (net_addr (net_of a)) = net_of a"
  by (simp_all add: even_net_def odd_net_def net_of_def)

lemma odd_not_even: "odd_net s \<Longrightarrow> \<not> even_net s"
  by (metis even_net_def host_not_vm ipv4_net.sel(1) net_of_def odd_net_def)

lemma odd_net_inj: "odd_net s \<Longrightarrow> odd_net t \<Longrightarrow> net_of (net_addr s) = net_of (net_addr t) \<Longrightarrow> s = t"
  by (metis host_inj ipv4_net.inject net_of_def odd_net_def)

lemma subnet_tap_ok:
  assumes "ipnet_spec I"
  shows "subnet_tap I (Ipv4Net a prefix_len) =
      Inr \<lparr>ti_name = resource_name (vm_addr a), ti_mac = None, ti_ip = vm_addr a, ti_prefix = prefix_len, ti_gateway = host_addr a\<rparr>"
  using assms by (simp add: subnet_tap_def ipnet_spec_def)

lemma subnet_tap_sound:
  assumes "ipnet_spec I" "even_net s \<or> odd_net s"
  shows "\<exists>info. subnet_tap I s = Inr info \<and> info_ok info \<and> net_of (ti_ip info) = net_of (net_addr s)"
proof -
  have "s = Ipv4Net (net_addr s) prefix_len"
    using assms(2) by (metis even_net_def ipv4_net.sel(1) net_of_def odd_net_def)
  then show ?thesis using subnet_tap_ok [OF assms(1), of "net_addr s"] by (auto simp: info_ok_def)
qed

lemma new_tap_info:
  assumes "plain_name (ti_name info)" "new_tap N info k = (Inr d, k')"
  shows "\<exists>mac. td_info d = info\<lparr>ti_mac := mac\<rparr>"
proof -
  have c: "m = ti_name info" if "create_named N (ti_name info) k = (Inr m, k1)" for m k1
    using that plain_name_kept [OF assms(1)] by (auto simp: create_named_def Let_def split: prod.splits sum.splits)
  show ?thesis
    using assms(2) c by (auto simp: new_tap_def bindE_def split: prod.splits sum.splits)
qed

lemma adopt_info: "adopt N info k = Inr d \<Longrightarrow> \<exists>mac. td_info d = info\<lparr>ti_mac := mac\<rparr>"
  by (auto simp: adopt_def split: sum.splits option.splits intro: exI [of _ "ti_mac info"])

lemma build_or_adopt_info:
  assumes "plain_name (ti_name info)" "build_or_adopt N info k = (Inr d, k')"
  shows "\<exists>mac. td_info d = info\<lparr>ti_mac := mac\<rparr>"
  using assms(2) new_tap_info [OF assms(1), of N k d] adopt_info [of N info _ d]
  by (auto simp: build_or_adopt_def split: prod.splits sum.splits if_splits)

lemma build_or_adopt_sound:
  assumes "info_ok info" "build_or_adopt N info k = (Inr d, k')"
  shows "tap_ok (Device d)" "tap_net (Device d) = net_of (ti_ip info)"
proof -
  have "plain_name (ti_name info)" using assms(1) by (simp add: info_ok_def resource_name_plain)
  then obtain mac where "td_info d = info\<lparr>ti_mac := mac\<rparr>" using build_or_adopt_info [OF _ assms(2)] by blast
  then show "tap_ok (Device d)" "tap_net (Device d) = net_of (ti_ip info)"
    using assms(1) by (auto simp: tap_ok_def tap_net_def info_ok_def)
qed

section \<open>PlainTapDevices keeps the contract\<close>

text \<open>
  The subnets come from the iterator and are requested by their lower address, but \<^verbatim>\<open>dealloc\<close> gives them
  back by the address of the sandbox. So the free ones are odd, and a subnet that was requested ahead of the
  iterator stays in \<^verbatim>\<open>taken\<close> for ever; nothing is lost or out twice all the same.
\<close>

definition freed :: "ipv4_net fifo_exact_pool \<Rightarrow> ipv4_net set" where
  "freed q = (\<lambda>s. net_of (net_addr s)) ` fe_free_set q"

definition plain_inv :: "ipnet_ops \<Rightarrow> ipv4_net set \<Rightarrow> ipv4_net set \<Rightarrow> plain_taps \<Rightarrow> bool" where
  "plain_inv I U A p \<longleftrightarrow>
     (let q = pt_pool p in
      ipnet_spec I \<and> (\<forall>s \<in> U. even_net s) \<and> cursor U (fe_iter q) \<and> A \<subseteq> U \<and> fe_taken q \<subseteq> U
      \<and> (\<forall>s \<in> fe_free_set q. odd_net s) \<and> fe_free_set q \<subseteq> set (fe_free_q q)
      \<and> U - A = freed q \<union> (set (fe_iter q) - fe_taken q) \<and> freed q \<inter> (set (fe_iter q) - fe_taken q) = {})"

definition plain_askable :: "ipv4_net set \<Rightarrow> tap_info \<Rightarrow> plain_taps \<Rightarrow> bool" where
  "plain_askable U d p \<longleftrightarrow> info_ok d \<and> net_of (ti_ip d) \<in> U \<and> \<not> fifo_exact_doubly (net_of (ti_ip d)) (pt_pool p)"

lemma iter_skip_taken_cases:
  "case iter_skip_taken T it of
     (Some x, it') \<Rightarrow> \<exists>ys. it = ys @ x # it' \<and> set ys \<subseteq> T \<and> x \<notin> T
   | (None, it') \<Rightarrow> set it \<subseteq> T \<and> it' = []"
proof (induction it)
  case (Cons y it)
  show ?case
  proof (cases "y \<in> T")
    case False
    then show ?thesis by (auto intro: exI [of _ "[]"])
  next
    case True
    obtain r it' where r: "iter_skip_taken T it = (r, it')" by fastforce
    show ?thesis
    proof (cases r)
      case None
      then show ?thesis using Cons.IH True r by simp
    next
      case (Some x)
      then obtain ys where "it = ys @ x # it'" "set ys \<subseteq> T" "x \<notin> T" using Cons.IH r by auto
      then show ?thesis using True r Some by (auto intro: exI [of _ "y # ys"])
    qed
  qed
qed simp

lemma freed_remove:
  assumes "\<forall>s \<in> fe_free_set q. odd_net s" "s \<in> fe_free_set q"
  shows "(\<lambda>s. net_of (net_addr s)) ` (fe_free_set q - {s}) = freed q - {net_of (net_addr s)}"
  using assms odd_net_inj by (auto simp: freed_def)

lemma plain_inv_next:
  assumes i: "plain_inv I U A p" and n: "fifo_exact_get_next (pt_pool p) = (r, q)"
  shows "case r of
      None \<Rightarrow> plain_inv I U A (p\<lparr>pt_pool := q\<rparr>)
    | Some s \<Rightarrow> (even_net s \<or> odd_net s) \<and> net_of (net_addr s) \<notin> A
        \<and> plain_inv I U (insert (net_of (net_addr s)) A) (p\<lparr>pt_pool := q\<rparr>)"
proof (cases "pop_free (fe_free_set (pt_pool p)) (fe_free_q (pt_pool p))")
  case (Pair r0 fq)
  let ?p = "pt_pool p"
  show ?thesis
  proof (cases r0)
    case (Some s)
    then have s: "r = Some s" "q = ?p\<lparr>fe_free_q := fq, fe_free_set := fe_free_set ?p - {s}\<rparr>"
      using n Pair by (auto simp: fifo_exact_get_next_def)
    have f: "s \<in> fe_free_set ?p" "\<forall>y \<in> fe_free_set ?p. y \<in> set (fe_free_q ?p) \<longrightarrow> y = s \<or> y \<in> set fq"
      using pop_free_Some Pair Some by metis+
    have o: "\<forall>s \<in> fe_free_set ?p. odd_net s" using i by (simp add: plain_inv_def Let_def)
    have m: "net_of (net_addr s) \<in> freed ?p" using f(1) by (simp add: freed_def)
    show ?thesis
      using i f s(1) m freed_remove [OF o f(1)]
      by (auto simp: plain_inv_def Let_def s(2) freed_def)
  next
    case None
    then have e: "fq = []" "fe_free_set ?p = {}"
      using pop_free_None [of "fe_free_set ?p" "fe_free_q ?p" fq] Pair i by (auto simp: plain_inv_def Let_def)
    obtain it where k: "iter_skip_taken (fe_taken ?p) (fe_iter ?p) = (r, it)" "q = ?p\<lparr>fe_free_q := fq, fe_iter := it\<rparr>"
      using n Pair None by (auto simp: fifo_exact_get_next_def split: prod.splits)
    note c = iter_skip_taken_cases [where T = "fe_taken ?p" and it = "fe_iter ?p", unfolded k(1)]
    have t: "cursor U it" if "fe_iter ?p = ys @ it" for ys
    proof -
      have "cursor U (ys @ it)" using i that by (simp add: plain_inv_def Let_def)
      then show ?thesis by (induction ys) (auto dest: cursor_tl)
    qed
    show ?thesis
    proof (cases r)
      case None
      then show ?thesis using i c e k(2) t [of "fe_iter ?p"] by (auto simp: plain_inv_def Let_def freed_def)
    next
      case (Some x)
      then obtain ys where y: "fe_iter ?p = ys @ x # it" "set ys \<subseteq> fe_taken ?p" "x \<notin> fe_taken ?p" using c by auto
      have d: "x \<notin> set it" using i y(1) by (auto simp: plain_inv_def Let_def cursor_def sorted_wrt_append)
      have x: "x \<in> U - A" using i y by (auto simp: plain_inv_def Let_def)
      then have "even_net x" using i by (simp add: plain_inv_def Let_def)
      then have "net_of (net_addr x) = x" by (simp add: even_net_def)
      then show ?thesis
        using i Some x y d e k(2) t [of "ys @ [x]"] by (auto simp: plain_inv_def Let_def freed_def even_net_def)
    qed
  qed
qed

lemma plain_inv_get:
  assumes i: "plain_inv I U A p" and s: "s \<in> U" "\<not> fifo_exact_doubly s (pt_pool p)"
    and g: "fifo_exact_get s (pt_pool p) = (r, q)"
  shows "case r of Inl e \<Rightarrow> q = pt_pool p | Inr s' \<Rightarrow> s' = s \<and> s \<notin> A \<and> plain_inv I U (insert s A) (p\<lparr>pt_pool := q\<rparr>)"
proof -
  let ?p = "pt_pool p"
  have "even_net s" using i s(1) by (simp add: plain_inv_def Let_def)
  then have n: "s \<notin> fe_free_set ?p" using i odd_not_even by (auto simp: plain_inv_def Let_def)
  show ?thesis
  proof (cases "fe_iter ?p")
    case Nil
    then show ?thesis using g n by (auto simp: fifo_exact_get_def)
  next
    case (Cons nxt it)
    have c: "cursor U (nxt # it)" using i Cons by (simp add: plain_inv_def Let_def)
    consider "nxt < s" | "s = nxt" | "s < nxt" by (rule linorder_cases)
    then show ?thesis
    proof cases
      case 1
      then have "s \<in> set (nxt # it)" using cursor_before [OF c s(1)] by simp
      then have m: "s \<in> set (fe_iter ?p)" using Cons by simp
      show ?thesis
      proof (cases "s \<in> fe_taken ?p")
        case True
        then show ?thesis using 1 Cons g by (auto simp: fifo_exact_get_def)
      next
        case False
        then have q: "r = Inr s" "q = ?p\<lparr>fe_taken := insert s (fe_taken ?p)\<rparr>" using 1 Cons g by (auto simp: fifo_exact_get_def)
        have u: "U - A = freed ?p \<union> (set (fe_iter ?p) - fe_taken ?p)" "freed ?p \<inter> (set (fe_iter ?p) - fe_taken ?p) = {}"
          using i by (simp_all add: plain_inv_def Let_def)
        have "s \<notin> A" "s \<notin> freed ?p" using u m False by blast+
        moreover from this have "U - insert s A = freed ?p \<union> (set (fe_iter ?p) - insert s (fe_taken ?p))"
          using u(1) by blast
        ultimately show ?thesis using i s(1) u(2) by (auto simp: plain_inv_def Let_def freed_def q)
      qed
    next
      case 2
      then have "s \<notin> fe_taken ?p" using s(2) Cons by (simp add: fifo_exact_doubly_def)
      moreover have "s \<notin> set it" using c 2 by (auto simp: cursor_def)
      moreover have u: "U - A = freed ?p \<union> (set (fe_iter ?p) - fe_taken ?p)" "freed ?p \<inter> (set (fe_iter ?p) - fe_taken ?p) = {}"
        using i by (simp_all add: plain_inv_def Let_def)
      ultimately have "s \<notin> A" "U - insert s A = freed ?p \<union> (set it - fe_taken ?p)" "freed ?p \<inter> (set it - fe_taken ?p) = {}"
        using Cons 2 by (simp_all, blast+)
      moreover have "r = Inr s" "q = ?p\<lparr>fe_iter := it\<rparr>" using 2 Cons g by (auto simp: fifo_exact_get_def)
      ultimately show ?thesis using i s(1) cursor_tl [OF c] by (auto simp: plain_inv_def Let_def freed_def)
    next
      case 3
      then have "\<not> nxt < s" "s \<noteq> nxt" by auto
      then show ?thesis using Cons g n by (auto simp: fifo_exact_get_def)
    qed
  qed
qed

lemma plain_inv_back:
  assumes i: "plain_inv I U A p" and t: "info_ok info" "net_of (ti_ip info) \<in> A"
  shows "plain_inv I U (A - {net_of (ti_ip info)}) (p\<lparr>pt_pool := fifo_exact_give_back (Ipv4Net (ti_ip info) prefix_len) (pt_pool p)\<rparr>)"
proof -
  let ?p = "pt_pool p" and ?s = "Ipv4Net (ti_ip info) prefix_len"
  have o: "odd_net ?s" using t(1) by (metis info_ok_def net_of_simps(4))
  have k: "?s \<notin> fe_taken ?p" using i odd_not_even [OF o] by (auto simp: plain_inv_def Let_def)
  have f: "?s \<notin> fe_free_set ?p"
  proof
    assume "?s \<in> fe_free_set ?p"
    then have "net_of (ti_ip info) \<in> freed ?p" by (force simp: freed_def)
    then show False using i t(2) by (auto simp: plain_inv_def Let_def)
  qed
  have "fifo_exact_give_back ?s ?p = ?p\<lparr>fe_free_set := insert ?s (fe_free_set ?p), fe_free_q := fe_free_q ?p @ [?s]\<rparr>"
    using k f by (simp add: fifo_exact_give_back_def Let_def)
  then show ?thesis
    using i t(2) o by (auto simp: plain_inv_def Let_def freed_def)
qed

lemma plain_alloc_ok:
  assumes i: "plain_inv I U A p" and a: "plain_alloc I p = (r, p')"
  shows "case r of
      Inr x \<Rightarrow> tap_net x \<notin> A \<and> tap_ok x \<and> plain_inv I U (insert (tap_net x) A) p'
    | Inl e \<Rightarrow> plain_inv I U A p' \<and> e = Err NoMoreIpv4Subnets"
proof -
  obtain r0 q where g: "fifo_exact_get_next (pt_pool p) = (r0, q)" by fastforce
  note n = plain_inv_next [OF i g]
  show ?thesis
  proof (cases r0)
    case None
    then show ?thesis using a g n by (auto simp: plain_alloc_def)
  next
    case (Some s)
    have "ipnet_spec I" using i by (simp add: plain_inv_def Let_def)
    then obtain info where "subnet_tap I s = Inr info" "info_ok info" "net_of (ti_ip info) = net_of (net_addr s)"
      using subnet_tap_sound [of I s] n Some by auto
    then show ?thesis using a g n Some by (auto simp: plain_alloc_def tap_net_def tap_ok_def)
  qed
qed

lemma info_gateway: "info_ok i \<Longrightarrow> Ipv4Net (ti_gateway i) prefix_len = net_of (ti_ip i)"
  by (simp add: info_ok_def net_of_def)

lemma plain_request_ok:
  assumes i: "plain_inv I U A p" and d: "plain_askable U d p" and a: "plain_request N d k p = (r, p', k')"
  shows "case r of
      Inr x \<Rightarrow> tap_net x \<notin> A \<and> tap_ok x \<and> plain_inv I U (insert (tap_net x) A) p'
    | Inl e \<Rightarrow> (\<exists>B. A \<subseteq> B \<and> plain_inv I U B p') \<and> (\<exists>e'. e = Err e')"
proof -
  let ?s = "net_of (ti_ip d)"
  have s: "info_ok d" "?s \<in> U" "\<not> fifo_exact_doubly ?s (pt_pool p)" using d by (simp_all add: plain_askable_def)
  obtain r0 q where g: "fifo_exact_get ?s (pt_pool p) = (r0 :: (unit, ipv4_net) subnet_pool_error + ipv4_net, q)" by fastforce
  note n = plain_inv_get [OF i s(2,3) g]
  obtain b k1 where b: "build_or_adopt N d k = (b, k1)" by fastforce
  show ?thesis
  proof (cases r0)
    case (Inl e)
    then show ?thesis using a g n i info_gateway [OF s(1)] by (auto simp: plain_request_def)
  next
    case (Inr s')
    then show ?thesis
      using a g n b info_gateway [OF s(1)] build_or_adopt_sound [OF s(1), of N k _ k1]
      by (cases b) (auto simp: plain_request_def intro: exI [of _ "insert ?s A"])
  qed
qed

lemma plain_dealloc_ok:
  assumes i: "plain_inv I U A p" and t: "tap_ok t" "tap_net t \<in> A" and a: "plain_dealloc N t k p = (r, p', k')"
  shows "case r of Inr _ \<Rightarrow> plain_inv I U (A - {tap_net t}) p' | Inl e \<Rightarrow> plain_inv I U A p' \<and> (\<exists>e'. e = Err e')"
proof -
  have b: "plain_inv I U (A - {tap_net t}) (p\<lparr>pt_pool := fifo_exact_give_back (Ipv4Net (ti_ip (tap_info_of t)) prefix_len) (pt_pool p)\<rparr>)"
    using plain_inv_back [OF i] t by (simp add: tap_ok_def tap_net_def)
  show ?thesis
    using a b i by (cases t) (auto simp: plain_dealloc_def Let_def split: prod.splits sum.splits)
qed

interpretation plain: returning_provider "plain_provider I N" "plain_inv I U" tap_net tap_ok "plain_askable U" for I N U
proof (unfold_locales, goal_cases)
  case (1 A p x p')
  then show ?case using plain_alloc_ok [of I U A p "Inr x" p'] by (simp add: plain_provider_def)
next
  case (2 A p e p')
  then show ?case using plain_alloc_ok [of I U A p "Inl e" p'] by (simp add: plain_provider_def)
next
  case (3 A p d w x p' w')
  then show ?case using plain_request_ok [of I U A p d N w "Inr x" p' w'] by (simp add: plain_provider_def)
next
  case (4 A p d w e p' w')
  then show ?case using plain_request_ok [of I U A p d N w "Inl e" p' w'] by (simp add: plain_provider_def)
next
  case (5 A p x w u p' w')
  then show ?case using plain_dealloc_ok [of I U A p x N w "Inr u" p' w'] by (simp add: plain_provider_def)
next
  case (6 A p x w e p' w')
  then show ?case using plain_dealloc_ok [of I U A p x N w "Inl e" p' w'] by (simp add: plain_provider_def)
next
  case (7 A p x w e p' w')
  then show ?case using plain_dealloc_ok [of I U A p x N w "Inl e" p' w'] by (simp add: plain_provider_def)
next
  case (8 w p)
  then show ?case by (simp add: plain_provider_def)
qed

section \<open>PoolTapDevices keeps it too\<close>

text \<open>The pool never gives a subnet back; the free devices and those that are out have different ones.\<close>

definition pool_taps_inv :: "ipnet_ops \<Rightarrow> ipv4_net set \<Rightarrow> ipv4_net set \<Rightarrow> pool_taps \<Rightarrow> bool" where
  "pool_taps_inv I U A p \<longleftrightarrow>
     ipnet_spec I \<and> (\<forall>s \<in> U. even_net s) \<and> fifo_exact_inv U (A \<union> set (map fst (po_free p))) (po_pool p)
     \<and> A \<inter> set (map fst (po_free p)) = {} \<and> distinct (map fst (po_free p))
     \<and> (\<forall>(s, t) \<in> set (po_free p). tap_ok t \<and> tap_net t = s \<and> (\<exists>d. t = Device d))"

definition pool_askable :: "ipv4_net set \<Rightarrow> tap_info \<Rightarrow> pool_taps \<Rightarrow> bool" where
  "pool_askable U d p \<longleftrightarrow> info_ok d \<and> net_of (ti_ip d) \<in> U \<and> \<not> fifo_exact_doubly (net_of (ti_ip d)) (po_pool p)"

lemma pool_alloc_ok:
  assumes i: "pool_taps_inv I U A p" and a: "pool_alloc I p = (r, p')"
  shows "case r of
      Inr x \<Rightarrow> tap_net x \<notin> A \<and> tap_ok x \<and> pool_taps_inv I U (insert (tap_net x) A) p'
    | Inl e \<Rightarrow> pool_taps_inv I U A p' \<and> e = Err NoMoreIpv4Subnets"
proof (cases "po_free p" rule: rev_cases)
  case (snoc fr st)
  obtain s t where st: "st = (s, t)" by fastforce
  have "insert s (A \<union> set (map fst fr)) = A \<union> set (map fst (po_free p))" using snoc st by auto
  then show ?thesis using i a snoc st by (auto simp: pool_alloc_def pool_taps_inv_def)
next
  case Nil
  obtain r0 q where g: "fifo_exact_get_next (po_pool p) = (r0, q)" by fastforce
  have f: "fifo_exact_inv U A (po_pool p)" and I: "ipnet_spec I" using i Nil by (simp_all add: pool_taps_inv_def)
  show ?thesis
  proof (cases r0)
    case None
    then show ?thesis using a g i Nil fifo_exact_next_None [OF f] by (auto simp: pool_alloc_def pool_taps_inv_def)
  next
    case (Some s)
    then have s: "s \<in> U - A" "fifo_exact_inv U (insert s A) q" using fifo_exact_next_Some [OF f] g by auto
    then have e: "even_net s" using i by (simp add: pool_taps_inv_def)
    then have "net_of (net_addr s) = s" by (simp add: even_net_def)
    moreover obtain info where "subnet_tap I s = Inr info" "info_ok info" "net_of (ti_ip info) = net_of (net_addr s)"
      using subnet_tap_sound [OF I] e by blast
    ultimately show ?thesis using a g Some s i Nil by (auto simp: pool_alloc_def pool_taps_inv_def tap_net_def tap_ok_def)
  qed
qed

lemma pool_request_ok:
  assumes i: "pool_taps_inv I U A p" and d: "pool_askable U d p" and a: "pool_request N d k p = (r, p', k')"
  shows "case r of
      Inr x \<Rightarrow> tap_net x \<notin> A \<and> tap_ok x \<and> pool_taps_inv I U (insert (tap_net x) A) p'
    | Inl e \<Rightarrow> (\<exists>B. A \<subseteq> B \<and> pool_taps_inv I U B p') \<and> (\<exists>e'. e = Err e')"
proof -
  let ?s = "net_of (ti_ip d)" and ?F = "set (map fst (po_free p))"
  have s: "info_ok d" "?s \<in> U" "\<not> fifo_exact_doubly ?s (po_pool p)" using d by (simp_all add: pool_askable_def)
  note gw = info_gateway [OF s(1)]
  show ?thesis
  proof (cases "List.extract (\<lambda>t. fst t = ?s) (po_free p)")
    case (Some btc)
    obtain b t c where btc: "btc = (b, t, c)" by (metis prod_cases3)
    then have f: "po_free p = b @ t # c" "fst t = ?s" using Some by (auto simp: extract_Some_iff)
    have "insert (fst t) (A \<union> set (map fst (b @ c))) = A \<union> ?F" using f by auto
    then show ?thesis using i a Some btc f gw by (auto simp: pool_request_def Let_def pool_taps_inv_def)
  next
    case None
    then have n: "?s \<notin> ?F" by (auto simp: extract_None_iff)
    have f: "fifo_exact_inv U (A \<union> ?F) (po_pool p)" using i by (simp add: pool_taps_inv_def)
    obtain r0 q where g: "fifo_exact_get ?s (po_pool p) = (r0 :: (unit, ipv4_net) subnet_pool_error + ipv4_net, q)" by fastforce
    obtain b k1 where b: "build_or_adopt N d k = (b, k1)" by fastforce
    show ?thesis
    proof (cases "?s \<in> A")
      case True
      then have "fifo_exact_get ?s (po_pool p) = (Inl (SubnetNotFree ?s) :: (unit, ipv4_net) subnet_pool_error + ipv4_net, po_pool p)"
        using fifo_exact_get_denied [OF f _ s(3)] by blast
      then have "r0 = Inl (SubnetNotFree ?s)" "q = po_pool p" using g by auto
      then show ?thesis using a g None i gw by (auto simp: pool_request_def Let_def)
    next
      case False
      then have "fst (fifo_exact_get ?s (po_pool p) :: ((unit, ipv4_net) subnet_pool_error + ipv4_net) \<times> _) = Inr ?s
        \<and> fifo_exact_inv U (insert ?s (A \<union> ?F)) (snd (fifo_exact_get ?s (po_pool p) :: ((unit, ipv4_net) subnet_pool_error + ipv4_net) \<times> _))"
        using fifo_exact_get_ok [OF f, of ?s] s(2) n by blast
      then have "r0 = Inr ?s" "fifo_exact_inv U (insert ?s (A \<union> ?F)) q" using g by auto
      then have "pool_taps_inv I U (insert ?s A) (p\<lparr>po_pool := q\<rparr>)" using i n by (auto simp: pool_taps_inv_def)
      then show ?thesis
        using a g None b False gw \<open>r0 = Inr ?s\<close> build_or_adopt_sound [OF s(1), of N k _ k1]
        by (cases b) (auto simp: pool_request_def Let_def intro: exI [of _ "insert ?s A"])
    qed
  qed
qed

lemma pool_dealloc_ok:
  assumes i: "pool_taps_inv I U A p" and t: "tap_ok t" "tap_net t \<in> A" and a: "pool_dealloc t k p = (r, p', k')"
  shows "case r of Inr _ \<Rightarrow> pool_taps_inv I U (A - {tap_net t}) p' | Inl e \<Rightarrow> pool_taps_inv I U A p'"
proof (cases t)
  case (Device d)
  have "Ipv4Net (ti_gateway (td_info d)) prefix_len = tap_net t"
    using t(1) Device info_gateway by (simp add: tap_ok_def tap_net_def)
  then have p': "r = Inr ()" "p' = p\<lparr>po_free := (tap_net t, t) # po_free p\<rparr>" using a Device by (auto simp: pool_dealloc_def)
  have d: "A \<inter> set (map fst (po_free p)) = {}" using i by (simp add: pool_taps_inv_def)
  have "A - {tap_net t} \<union> set (map fst (po_free p')) = A \<union> set (map fst (po_free p))" using t(2) p'(2) by auto
  moreover have "(A - {tap_net t}) \<inter> set (map fst (po_free p')) = {}" "distinct (map fst (po_free p'))"
    using i d t(2) p'(2) by (auto simp: pool_taps_inv_def)
  moreover have "\<forall>(s, t) \<in> set (po_free p'). tap_ok t \<and> tap_net t = s \<and> (\<exists>d. t = Device d)"
    using i t(1) p'(2) Device by (auto simp: pool_taps_inv_def)
  ultimately show ?thesis using i p' unfolding pool_taps_inv_def by simp
qed (use i a in \<open>auto simp: pool_dealloc_def\<close>)

interpretation pool_taps: net_provider "pool_provider I N" "pool_taps_inv I U" tap_net tap_ok "pool_askable U" for I N U
proof (unfold_locales, goal_cases)
  case (1 A p x p')
  then show ?case using pool_alloc_ok [of I U A p "Inr x" p'] by (simp add: pool_provider_def)
next
  case (2 A p e p')
  then show ?case using pool_alloc_ok [of I U A p "Inl e" p'] by (simp add: pool_provider_def)
next
  case (3 A p d w x p' w')
  then show ?case using pool_request_ok [of I U A p d N w "Inr x" p' w'] by (simp add: pool_provider_def)
next
  case (4 A p d w e p' w')
  then show ?case using pool_request_ok [of I U A p d N w "Inl e" p' w'] by (simp add: pool_provider_def)
next
  case (5 A p x w u p' w')
  then show ?case using pool_dealloc_ok [of I U A p x w "Inr u" p' w'] by (simp add: pool_provider_def)
next
  case (6 A p x w e p' w')
  then show ?case using pool_dealloc_ok [of I U A p x w "Inl e" p' w'] by (simp add: pool_provider_def)
qed

section \<open>The initial states\<close>

lemma subnets_even:
  assumes "ipnet_spec I" "ip_subnets I net prefix_len = Inr it"
  shows "sorted_wrt (<) it" "\<forall>s \<in> set it. even_net s"
  using assms by (fastforce simp: ipnet_spec_def even_net_def net_of_def)+

lemma plain_new_inv:
  assumes I: "ipnet_spec I" and it: "ip_subnets I net prefix_len = Inr it" and p: "plain_new I c net = Inr p"
  shows "plain_inv I (set it) {} p"
proof -
  have "pt_pool p = \<lparr>fe_iter = it, fe_taken = {}, fe_free_q = [], fe_free_set = {}\<rparr>"
    using p it by (auto simp: plain_new_def fifo_exact_new_def split: if_splits)
  then show ?thesis
    using I subnets_even [OF I it] cursor_init by (auto simp: plain_inv_def freed_def)
qed

lemma pool_plan_ok:
  assumes I: "ipnet_spec I" and U: "\<forall>s \<in> U. even_net s"
  shows "fifo_exact_inv U A q \<Longrightarrow> pool_plan I n q = (Inr plan, q') \<Longrightarrow>
    fifo_exact_inv U (A \<union> set (map fst plan)) q' \<and> A \<inter> set (map fst plan) = {} \<and> distinct (map fst plan)
    \<and> (\<forall>(s, info) \<in> set plan. info_ok info \<and> net_of (ti_ip info) = s)"
proof (induction n arbitrary: A q plan)
  case (Suc n)
  obtain r q1 where g: "fifo_exact_get_next q = (r, q1)" by fastforce
  obtain s where s: "r = Some s" using Suc.prems(2) g by (cases r) auto
  have n: "s \<in> U - A" "fifo_exact_inv U (insert s A) q1" using fifo_exact_next_Some [OF Suc.prems(1)] g s by auto
  have e: "even_net s" "net_of (net_addr s) = s" using U n(1) by (auto simp: even_net_def)
  obtain info where i: "subnet_tap I s = Inr info" "info_ok info" "net_of (ti_ip info) = s"
    using subnet_tap_sound [OF I] e by metis
  obtain rest where p: "pool_plan I n q1 = (Inr rest, q')" "plan = (s, info) # rest"
    using Suc.prems(2) g s i(1) by (auto simp: bindE_def split: prod.splits sum.splits)
  show ?case using Suc.IH [OF n(2) p(1)] p(2) i n(1) by auto
qed simp

lemma build_taps_ok:
  assumes "\<forall>(s, info) \<in> set plan. info_ok info \<and> net_of (ti_ip info) = s" "build_taps N plan k = (rs, k')"
  shows "length rs = length plan \<and> (\<forall>i < length plan. \<forall>s t. rs ! i = Inr (s, t) \<longrightarrow>
    s = fst (plan ! i) \<and> tap_ok t \<and> tap_net t = s \<and> (\<exists>d. t = Device d))"
  using assms
proof (induction plan arbitrary: k rs)
  case (Cons x plan)
  obtain s info where x: "x = (s, info)" by fastforce
  obtain r k1 where b: "build_or_adopt N info k = (r, k1)" by fastforce
  obtain rs1 where c: "build_taps N plan k1 = (rs1, k')" "rs = map_sum id (\<lambda>d. (s, Device d)) r # rs1"
    using Cons.prems(2) x b by (auto split: prod.splits)
  have h: "s' = s \<and> tap_ok t \<and> tap_net t = s' \<and> (\<exists>d. t = Device d)" if "map_sum id (\<lambda>d. (s, Device d)) r = Inr (s', t)" for s' t
    using that b Cons.prems(1) x build_or_adopt_sound [of info N k _ k1] by (cases r) auto
  have IH: "length rs1 = length plan \<and> (\<forall>i < length plan. \<forall>s t. rs1 ! i = Inr (s, t) \<longrightarrow>
    s = fst (plan ! i) \<and> tap_ok t \<and> tap_net t = s \<and> (\<exists>d. t = Device d))"
    by (rule Cons.IH [OF _ c(1)]) (use Cons.prems(1) in auto)
  show ?case using IH h c(2) x by (auto simp: less_Suc_eq_0_disj)
qed simp

lemma collect_Inr: "collect_results rs = Inr xs \<Longrightarrow> rs = map Inr xs"
proof (induction rs arbitrary: xs rule: collect_results.induct)
  case (3 x rs)
  then show ?case by (cases "collect_results rs") auto
qed auto

lemma pool_new_inv:
  assumes I: "ipnet_spec I" and it: "ip_subnets I net prefix_len = Inr it" and ar: "\<forall>rs. mset (arrange rs) = mset rs"
    and p: "pool_taps_new I N arrange c net cap k = Inr (p, k')"
  shows "pool_taps_inv I (set it) {} p"
proof -
  let ?q = "\<lparr>fe_iter = it, fe_taken = {}, fe_free_q = [], fe_free_set = {}\<rparr>"
  obtain plan q rs k1 free where n: "pool_plan I (min (2 ^ (prefix_len - net_len net)) (min cap max_pool_size)) ?q = (Inr plan, q)"
      "build_taps N plan k = (rs, k1)" "collect_results (arrange rs) = Inr free" "p = \<lparr>po_pool = q, po_free = free\<rparr>"
    using p it by (auto simp: pool_taps_new_def fifo_exact_new_def split: if_splits prod.splits sum.splits)
  have q: "fifo_exact_inv (set it) {} ?q"
    using exact_core_init subnets_even(1) [OF I it] by (auto simp: fifo_exact_inv_def)
  note P = pool_plan_ok [OF I subnets_even(2) [OF I it] q n(1)]
  have B: "length rs = length plan" "\<forall>i < length plan. \<forall>s t. rs ! i = Inr (s, t) \<longrightarrow>
    s = fst (plan ! i) \<and> tap_ok t \<and> tap_net t = s \<and> (\<exists>d. t = Device d)"
    using build_taps_ok [OF _ n(2)] P by blast+
  have m: "mset rs = mset (map Inr free)" using collect_Inr [OF n(3)] ar by metis
  have inr: "\<exists>s t. r = Inr (s, t)" if "r \<in> set rs" for r
    using that m by (metis (no_types, lifting) ex_map_conv set_mset_mset surj_pair)
  obtain st where st: "rs = map Inr st"
    using inr by (metis (no_types, opaque_lifting) ex_map_conv)
  then have f: "mset free = mset st"
    using arg_cong [OF m, of "image_mset projr"] by (simp add: multiset.map_comp comp_def)
  have e: "map fst st = map fst plan" "\<forall>(s, t) \<in> set st. tap_ok t \<and> tap_net t = s \<and> (\<exists>d. t = Device d)"
  proof -
    show "map fst st = map fst plan" using B st by (intro nth_equalityI) (auto, metis prod.collapse)
    show "\<forall>(s, t) \<in> set st. tap_ok t \<and> tap_net t = s \<and> (\<exists>d. t = Device d)"
      using B st by (auto simp: in_set_conv_nth)
  qed
  have s: "set free = set st" "mset (map fst free) = mset (map fst plan)"
    using f e(1) by (metis set_mset_mset, metis mset_map)
  then have "set (map fst free) = set (map fst plan)" "distinct (map fst free)"
    using P by (metis set_mset_mset, metis mset_eq_imp_distinct_iff)
  then show ?thesis using I subnets_even(2) [OF I it] P s(1) e(2) n(4) by (auto simp: pool_taps_inv_def)
qed

end
