(* ===== verification/Net_Props.thy ===== *)
theory Net_Props
  imports Net_Inv
begin

text \<open>
  A concrete kernel and network, and the properties of the network manager with its providers.
\<close>

section \<open>A concrete network\<close>

text \<open>A kernel with room for one device, on which nothing else fails; \<open>None\<close> is no device, the flag says
  that it is not persistent.\<close>

definition slot_links :: "(string \<times> bool) option \<Rightarrow> string \<rightharpoonup> 32 word" where
  "slot_links k = (case k of None \<Rightarrow> Map.empty | Some (n, _) \<Rightarrow> [n \<mapsto> 7])"

definition slot_temp :: "(string \<times> bool) option \<Rightarrow> string set" where
  "slot_temp k = (case k of Some (n, True) \<Rightarrow> {n} | _ \<Rightarrow> {})"

definition slot_link :: link where
  "slot_link = \<lparr>lk_index = 7, lk_attrs = [AttrOther, AttrAddress [1, 2, 3, 4, 5, 6]]\<rparr>"

definition slot_kernel :: "(string \<times> bool) option rtnl" where
  "slot_kernel =
     \<lparr>nl_open_tun = (\<lambda>_. Inr ()),
      nl_set_iff = (\<lambda>f k. case k of None \<Rightarrow> (Inr (), Some (ifname f, True))
        | Some (n, t) \<Rightarrow> (Inl (if n = ifname f then EBUSY else Errno 23), k)),
      nl_set_persist = (\<lambda>f k. (Inr (), map_option (\<lambda>(n, t). (n, t \<and> n \<noteq> ifname f)) k)),
      nl_close = (\<lambda>f k. case k of Some (n, True) \<Rightarrow> if n = ifname f then None else k | _ \<Rightarrow> k),
      nl_by_name = (\<lambda>n k. Inr (case k of Some (m, _) \<Rightarrow> if m = n then Some slot_link else None | None \<Rightarrow> None)),
      nl_by_index = (\<lambda>i k. Inr (case k of None \<Rightarrow> None | Some _ \<Rightarrow> if i = 7 then Some slot_link else None)),
      nl_set = (\<lambda>i c k. (Inr (), k)), nl_addr_add = (\<lambda>i ip len b k. (Inr (), k)),
      nl_del = (\<lambda>i k. (Inr (), if i = 7 then None else k))\<rparr>"

lemma slot_kernel_spec: "rtnl_spec slot_kernel slot_links slot_temp"
proof -
  have "tun_spec slot_kernel slot_links slot_temp"
    by (auto simp: tun_spec_def slot_kernel_def slot_links_def slot_temp_def fun_eq_iff split: option.splits bool.splits prod.splits)
  moreover have "netlink_spec slot_kernel slot_links"
    by (auto simp: netlink_spec_def slot_kernel_def slot_links_def slot_link_def fun_eq_iff split: option.splits)
  ultimately show ?thesis by (auto simp: rtnl_spec_def slot_links_def split: option.splits if_splits)
qed

text \<open>Two subnets.\<close>

definition two_subnets :: ipnet_ops where
  "two_subnets =
     \<lparr>ip_subnets = (\<lambda>_ _. Inr [Ipv4Net (host_addr 0x0A000000) prefix_len, Ipv4Net (host_addr 0x0A000002) prefix_len]),
      ip_hosts = (\<lambda>s. [host_addr (net_addr s), vm_addr (net_addr s)])\<rparr>"

lemma host_addr_values: "host_addr 0x0A000000 = 0x0A000000" "host_addr 0x0A000002 = 0x0A000002"
  "vm_addr 0x0A000000 = 0x0A000001" "vm_addr 0x0A000001 = 0x0A000001" "host_addr 0x0A000001 = 0x0A000000"
  by (simp_all add: host_addr_def vm_addr_def)

lemma two_subnets_spec: "ipnet_spec two_subnets"
  by (auto simp: ipnet_spec_def two_subnets_def less_ipv4_net_def host_addr_values intro: exI [of _ "0x0A000000 :: 32 word"] exI [of _ "0x0A000002 :: 32 word"])

abbreviation net_a :: ipv4_net where
  "net_a \<equiv> Ipv4Net 0x0A000000 prefix_len"

abbreviation net_b :: ipv4_net where
  "net_b \<equiv> Ipv4Net 0x0A000002 prefix_len"

lemma two_subnets_list: "ip_subnets two_subnets net n = Inr [net_a, net_b]"
  by (simp add: two_subnets_def host_addr_values)

definition plain_example :: plain_taps where
  "plain_example = \<lparr>pt_pool = \<lparr>fe_iter = [net_a, net_b], fe_taken = {}, fe_free_q = [], fe_free_set = {}\<rparr>\<rparr>"

definition info_a :: tap_info where
  "info_a = \<lparr>ti_name = resource_name 0x0A000001, ti_mac = None, ti_ip = 0x0A000001, ti_prefix = prefix_len, ti_gateway = 0x0A000000\<rparr>"

lemma plain_example_new: "plain_new two_subnets True net_a = Inr plain_example"
  by (simp add: plain_new_def fifo_exact_new_def two_subnets_list plain_example_def)

lemma info_a_ok: "info_ok info_a"
  by (simp add: info_ok_def info_a_def host_addr_values)

section \<open>Properties\<close>

text \<open>The names of the devices differ for different addresses, and the kernel neither cuts nor garbles
  them: they are one byte shorter than its limit.\<close>

theorem tap_names:
  "(resource_name a = resource_name b \<longleftrightarrow> a = b) \<and> length (resource_name a) = ifnamsiz - 1
   \<and> ifname (prepare_ifreq (resource_name a)) = resource_name a
   \<and> adjust_name (prepare_ifreq (resource_name a)) (length (resource_name a)) = Some (resource_name a)"
  using resource_name_eq plain_name_kept [OF resource_name_plain(1)] resource_name_plain(2) by (simp add: ifnamsiz_def)

text \<open>C17. Making a device either gives the index of a new link of that name, or fails and leaves the links
  as they were, unless the new link cannot be looked up or deleted: then it stays behind. No other link
  is touched.\<close>

theorem tap_created_or_gone:
  assumes "rtnl_spec N links temp" "info_ok info" "new_tap N info k = (r, k')"
  shows "case r of
      Inr d \<Rightarrow> links k (ti_name info) = None \<and> links k' = (links k)(ti_name info \<mapsto> td_index d)
        \<and> (\<exists>mac. td_info d = info\<lparr>ti_mac := Some mac\<rparr>)
    | Inl e \<Rightarrow> links k' = links k
        \<or> (\<exists>i. links k' = (links k)(ti_name info \<mapsto> i) \<and> links k (ti_name info) = None)
          \<and> ((\<exists>e. by_name N (ti_name info) k' = Inl e) \<or> (\<exists>i k0 e. nl_del N i k0 = (Inl e, k')))"
  using new_tap_ok [OF assms(1), of info k] assms(2,3)
  by (cases r) (auto simp: tap_outcome_def info_ok_def resource_name_plain)

theorem tap_created_or_gone_witness:
  "\<exists>d k'. new_tap slot_kernel info_a None = (Inr d, k') \<and> slot_links k' (ti_name info_a) = Some (td_index d)"
proof -
  obtain r k' where n: "new_tap slot_kernel info_a None = (r, k')" by fastforce
  have "\<exists>d. r = Inr d"
    using n plain_name_kept [OF resource_name_plain(1)]
    by (auto simp: new_tap_def create_named_def create_tap_device_def slot_kernel_def by_name_def slot_link_def or_delete_def
        find_mac_def ip_addr_add_def set_link_group_def set_link_up_def then_refresh_def by_index_def info_a_def Let_def)
  then show ?thesis using n tap_created_or_gone [OF slot_kernel_spec info_a_ok n] by auto
qed





text \<open>\<^verbatim>\<open>dealloc\<close> of the plain provider gives the subnet back by its higher address: when the iterator is
  past the subnet, the request for the device that has just been freed, as the reinstatement of a snapshot
  makes it, is refused although nobody has the subnet.\<close>

theorem plain_refuses_freed:
  assumes i: "plain_inv I U A p" and x: "tap_ok x" "tap_net x \<in> A"
    and n: "case fe_iter (pt_pool p) of nxt # _ \<Rightarrow> tap_net x < nxt | [] \<Rightarrow> True"
    and d: "plain_dealloc N x k p = (Inr (), p', k')"
  shows "plain_inv I U (A - {tap_net x}) p'
    \<and> plain_request N (tap_info_of x) k2 p' = (Inl (Err (SubnetPoolErr (SubnetNotFree (tap_net x)))), p', k2)"
proof -
  let ?s = "Ipv4Net (ti_ip (tap_info_of x)) prefix_len"
  have ok: "info_ok (tap_info_of x)" using x(1) by (simp add: tap_ok_def)
  have o: "odd_net ?s" using ok by (metis info_ok_def net_of_simps(4))
  have p': "p' = p\<lparr>pt_pool := fifo_exact_give_back ?s (pt_pool p)\<rparr>"
    using d by (auto simp: plain_dealloc_def Let_def split: tap.splits prod.splits sum.splits)
  have f: "\<forall>s \<in> fe_free_set (pt_pool p). odd_net s" using i by (simp add: plain_inv_def Let_def)
  have "fe_iter (pt_pool p') = fe_iter (pt_pool p)" "\<forall>s \<in> fe_free_set (pt_pool p'). odd_net s"
    using f o by (auto simp: p' fifo_exact_give_back_def Let_def)
  moreover have "even_net (tap_net x)" "Ipv4Net (ti_gateway (tap_info_of x)) prefix_len = tap_net x"
    using ok by (simp_all add: tap_net_def info_ok_def net_of_def even_net_def)
  ultimately have "plain_request N (tap_info_of x) k2 p' = (Inl (Err (SubnetPoolErr (SubnetNotFree (tap_net x)))), p', k2)"
    using n odd_not_even by (auto simp: plain_request_def fifo_exact_get_def Let_def split: list.splits)
  moreover have "plain_inv I U (A - {tap_net x}) p'"
    by (rule plain.dealloc_Inr [OF i x, of N k "()" p' k']) (simp add: plain_provider_def d)
  ultimately show ?thesis by blast
qed

theorem plain_refuses_freed_witness:
  "let (r1, p1) = plain_alloc two_subnets plain_example;
       (r2, p2, k2) = plain_dealloc slot_kernel (projr r1) None p1 in
   r1 = Inr (Builder info_a) \<and> r2 = Inr ()
   \<and> plain_request slot_kernel info_a k2 p2 = (Inl (Err (SubnetPoolErr (SubnetNotFree net_a))), p2, k2)"
proof -
  obtain p1 where a: "plain_alloc two_subnets plain_example = (Inr (Builder info_a), p1)" "fe_iter (pt_pool p1) = [net_b]"
    by (simp add: plain_alloc_def plain_example_def fifo_exact_get_next_def subnet_tap_def two_subnets_def host_addr_values info_a_def)
  have t: "tap_net (Builder info_a) = net_a" by (simp add: tap_net_def info_a_def net_of_def host_addr_values)
  have "plain_inv two_subnets (set [net_a, net_b]) {} plain_example"
    by (rule plain_new_inv [OF two_subnets_spec two_subnets_list plain_example_new])
  then have i: "plain_inv two_subnets (set [net_a, net_b]) {net_a} p1"
    using plain.alloc_Inr [of two_subnets "set [net_a, net_b]" "{}" plain_example slot_kernel "Builder info_a" p1] a t
    by (simp add: plain_provider_def)
  obtain p2 where d: "plain_dealloc slot_kernel (Builder info_a) None p1 = (Inr (), p2, None)"
    by (simp add: plain_dealloc_def Let_def)
  have "plain_request slot_kernel (tap_info_of (Builder info_a)) None p2
      = (Inl (Err (SubnetPoolErr (SubnetNotFree (tap_net (Builder info_a))))), p2, None)"
    by (rule conjunct2 [OF plain_refuses_freed [OF i _ _ _ d]]) (use t a info_a_ok in \<open>simp_all add: tap_ok_def less_ipv4_net_def\<close>)
  then show ?thesis using a d t by simp
qed

text \<open>When the pool of devices is used up, what it gives out is not made yet; if its caller is gone,
  the network manager panics as it takes it back.\<close>

theorem pool_builder_panics:
  assumes "ipnet_spec I" "nm_phase nm = NetRunning" "po_free (nm_provider nm) = []"
    and "fifo_exact_get_next (po_pool (nm_provider nm)) = (Some s, q)" "net_len s = prefix_len"
  shows "net_panicked (netman_step (pool_provider I N) w0 (NetMsg w (Allocate False)) nm)"
proof -
  obtain info where "subnet_tap I s = Inr info" using subnet_tap_ok [OF assms(1), of "net_addr s"] assms(5) by (metis ipv4_net.collapse)
  then show ?thesis
    using assms(2-4) by (simp add: netman_step_def net_handle_def net_alloc_def pool_provider_def pool_alloc_def net_give_def
        pool_dealloc_def net_after_def net_end_def net_panicked_def)
qed

theorem pool_builder_panics_witness:
  "net_panicked (netman_step (pool_provider two_subnets slot_kernel) None (NetMsg None (Allocate False))
     (netman_spawn \<lparr>po_pool = pt_pool plain_example, po_free = []\<rparr>))"
  by (rule pool_builder_panics [OF two_subnets_spec, of _ net_a "(pt_pool plain_example)\<lparr>fe_iter := [net_b]\<rparr>"])
    (simp_all add: netman_spawn_def plain_example_def fifo_exact_get_next_def)

end
