(* ===== verification/Fc.thy ===== *)
theory Fc
  imports Worker Tap
begin

text \<open>
  \<^verbatim>\<open>worker/runtime/fc\<close>: the runtime that drives one Firecracker process per sandbox, directly.

  The operating system and Firecracker's API server are not part of the repository. They are a state
  \<open>'w\<close> with the operations \<open>fc_os\<close>, to which the TAP devices of a sandbox belong too (\<open>'w rtnl\<close>); \<open>'p\<close> is a
  child process with its pidfd. The tasks that pump the output of a process into the log and the
  \<^verbatim>\<open>kill_on_drop\<close> of a child are left out. Every call takes the state of the system as it finds it and
  gives it back.

  A path that the code builds is a string; \<^verbatim>\<open>ROOTFS_REGISTRY\<close> and \<^verbatim>\<open>MKDIR_UVMS_ROOT_DIR\<close>, the two
  statics, are fields of the state of the runtime, as it finds them.
\<close>

section \<open>Constants\<close>

definition api_sock_basename :: string where
  "api_sock_basename = ''api.sock''"

definition logging_fifo_basename :: string where
  "logging_fifo_basename = ''log.fifo''"

definition metrics_fifo_basename :: string where
  "metrics_fifo_basename = ''mtr.fifo''"

definition vsock_uds_basename :: string where
  "vsock_uds_basename = ''v.sock''"

definition uvm_config_basename :: string where
  "uvm_config_basename = ''uvm.json''"

definition rootfs_img_ext :: string where
  "rootfs_img_ext = ''ext4''"

definition default_vmm_log_level :: string where
  "default_vmm_log_level = ''Warning''"

datatype kernel_verbosity = SilentKernel | MinimalKernel | VerboseKernel

definition base_kernel_boot_params :: string where
  "base_kernel_boot_params = ''i8042.nokbd i8042.noaux i8042.nomux ipv6.disable=1 reboot=k panic=1 swiotlb=noforce nomodule random.trust_cpu=on tsc=reliable ro init=/sbin/overlay-init''"

fun boot_params :: "kernel_verbosity \<Rightarrow> string" where
  "boot_params SilentKernel = base_kernel_boot_params @ '' 8250.nr_uarts=0''"
| "boot_params MinimalKernel = base_kernel_boot_params
     @ '' 8250.nr_uarts=1 console=ttyS0,115200n8 systemd.journald.forward_to_console=no systemd.getty_auto=no''"
| "boot_params VerboseKernel = base_kernel_boot_params
     @ '' 8250.nr_uarts=1 console=ttyS0,115200n8 systemd.journald.forward_to_console=yes''"

definition quoted :: "string \<Rightarrow> string" where
  "quoted s = CHR 0x22 # s @ [CHR 0x22]"

definition uvm_config_patterns :: "string list" where
  "uvm_config_patterns =
     [quoted ''$SNAPLACE_VCPU_COUNT'', quoted ''$SNAPLACE_MEM_SIZE_MIB'', quoted ''$SNAPLACE_VSOCK_GUEST_CID'',
      ''$SNAPLACE_KERNEL_IMG_PATH'', ''$SNAPLACE_KERNEL_BOOT_ARGS'', ''$SNAPLACE_UVM_ROOTFS'', ''$SNAPLACE_HOST_TAP_NAME'',
      ''$SNAPLACE_VSOCK_UDS_PATH'', ''$SNAPLACE_VMM_LOG_LVL'', ''$SNAPLACE_VMM_LOG_PATH'', ''$SNAPLACE_VMM_METRICS_PATH'']"

section \<open>Errors\<close>

datatype fs_errno = EEXIST | ENOENT | FsErrno nat

datatype io_source = IoErrno fs_errno | IoOther string

datatype fc_error =
  FcInit string
| FcApiSetup string string
| FcIo string io_source
| FcUtf8 string
| FcCreateVm string
| FcLoadSnapshot string
| FcNoSnapshot string
| FcPauseVm string
| FcResumeVm string
| FcCreateSnapshot string
| FcReinstateSandbox string

text \<open>A boxed error is one of this runtime or one of the network.\<close>

datatype fc_failure = FcErr fc_error | FcNet net_error

section \<open>The surroundings\<close>

datatype vm_patch = PatchPaused | PatchResumed

datatype vmm_log_level = LogTrace | LogWarning

datatype api_request =
  PutLogger vmm_log_level string
| PutMetrics string
| LoadSnapshotFrom string string
| PatchVm vm_patch
| CreateSnapshotAt string string

datatype instance_state = VmNotStarted | VmRunning | VmPaused

record instance_info =
  ii_id :: string
  ii_state :: instance_state

record ('w, 'p) fc_os =
  fo_now :: "'w \<Rightarrow> instant"
  fo_sleep :: "duration \<Rightarrow> 'w \<Rightarrow> 'w"
  fo_join :: "'w \<Rightarrow> string + unit"
  fo_create_dir_all :: "string \<Rightarrow> 'w \<Rightarrow> (io_source + unit) \<times> 'w"
  fo_mkdir :: "string \<Rightarrow> 'w \<Rightarrow> (fs_errno + unit) \<times> 'w"
  fo_open_dir :: "string \<Rightarrow> 'w \<Rightarrow> fs_errno + unit"
  fo_mkfifo :: "string \<Rightarrow> 'w \<Rightarrow> (fs_errno + unit) \<times> 'w"
  fo_is_fifo :: "string \<Rightarrow> 'w \<Rightarrow> fs_errno + bool"
  fo_unlink :: "string \<Rightarrow> 'w \<Rightarrow> (fs_errno + unit) \<times> 'w"
  fo_remove_dir_all :: "string \<Rightarrow> 'w \<Rightarrow> (io_source + unit) \<times> 'w"
  fo_write :: "string \<Rightarrow> string \<Rightarrow> 'w \<Rightarrow> (io_source + unit) \<times> 'w"
  fo_metadata :: "string \<Rightarrow> 'w \<Rightarrow> io_source + unit"
  fo_file_len :: "string \<Rightarrow> 'w \<Rightarrow> (io_source + unit) \<times> (fs_errno + nat)"
  fo_fadvise :: "string \<Rightarrow> nat option \<Rightarrow> 'w \<Rightarrow> (fs_errno + unit) \<times> 'w"
  fo_spawn :: "string \<Rightarrow> string list \<Rightarrow> 'w \<Rightarrow> (io_source + 'p) \<times> 'w"
  fo_pidfd :: "'p \<Rightarrow> 'w \<Rightarrow> io_source + unit"
  fo_kill :: "'p \<Rightarrow> 'w \<Rightarrow> (io_source + unit) \<times> 'w"
  fo_try_wait :: "'p \<Rightarrow> 'w \<Rightarrow> (io_source + int option) \<times> 'w"
  fo_pid :: "'p \<Rightarrow> 'w \<Rightarrow> nat option"
  fo_setaffinity :: "nat \<Rightarrow> cpu \<Rightarrow> 'w \<Rightarrow> (fs_errno + unit) \<times> 'w"
  fo_connect :: "string \<Rightarrow> 'w \<Rightarrow> (io_source + unit) \<times> 'w"
  fo_api :: "string \<Rightarrow> api_request \<Rightarrow> 'w \<Rightarrow> (string + unit) \<times> 'w"
  fo_describe :: "string \<Rightarrow> 'w \<Rightarrow> (string + instance_info) \<times> 'w"
  fo_hash :: "string \<Rightarrow> 64 word"
  fo_replace_all :: "string list \<Rightarrow> string \<Rightarrow> string list \<Rightarrow> string"

section \<open>Configuration, state, sandboxes\<close>

text \<open>\<open>cf_template\<close> is the file \<^verbatim>\<open>uvm_config_tmpl.json.in\<close>; \<open>cf_debug\<close> says that tracing at the level
  \<^verbatim>\<open>DEBUG\<close> or \<^verbatim>\<open>TRACE\<close> is enabled.\<close>

record fc_config =
  cf_uvms_root_path :: string
  cf_uvms_rootfs_path :: string
  cf_firecracker_bin :: string
  cf_kernel_img :: string
  cf_kernel_verbosity :: kernel_verbosity
  cf_template :: string
  cf_debug :: bool

record fc_function_info =
  ff_id :: function_id
  ff_memory :: "64 word"
  ff_vcpu_count :: "8 word"
  ff_entrypoint :: string

record 'w fc =
  fc_config :: fc_config
  fc_function_info :: fc_function_info
  fc_uvm_name :: "string option"
  fc_client :: "string option"
  fc_registry :: "function_id \<rightharpoonup> string"
  fc_root_made :: bool
  fc_world :: 'w

record snapshot_files =
  sf_state :: string
  sf_memory :: string

record 'p micro_vm = sandbox +
  mv_function_id :: function_id
  mv_tap :: tap_device
  mv_proc :: "'p option"
  mv_snapshot :: "snapshot_files option"

record micro_vm_state =
  ms_stats :: sandbox_stats
  ms_tap :: tap_info
  ms_snapshot :: snapshot_files

type_synonym ('w, 'a) fc_result = "(fc_failure fault + 'a) \<times> 'w fc"

definition path_join :: "string \<Rightarrow> string \<Rightarrow> string" where
  "path_join a b =
     (if b \<noteq> [] \<and> hd b = CHR ''/'' then b
      else if a = [] \<or> last a = CHR ''/'' then a @ b
      else a @ CHR ''/'' # b)"

definition fc_new :: "fc_config \<Rightarrow> fc_function_info \<Rightarrow> 'p micro_vm option \<Rightarrow> (function_id \<rightharpoonup> string) \<Rightarrow> bool \<Rightarrow> 'w \<Rightarrow> 'w fc" where
  "fc_new cf ff uvm reg made w =
     \<lparr>fc_config = cf, fc_function_info = ff, fc_uvm_name = map_option sb_id uvm, fc_client = None,
      fc_registry = reg, fc_root_made = made, fc_world = w\<rparr>"

definition fc_init :: "('w, 'p) fc_os \<Rightarrow> 'w fc \<Rightarrow> ('w, unit) fc_result" where
  "fc_init os s =
     (if fc_root_made s then (Inr (), s)
      else
        (case fo_create_dir_all os (cf_uvms_root_path (fc_config s)) (fc_world s) of
           (Inl e, w) \<Rightarrow>
             (Inl (Err (FcErr (FcIo (''failed to create uVMs root directory '' @ cf_uvms_root_path (fc_config s)) e))), s\<lparr>fc_world := w\<rparr>)
         | (Inr _, w) \<Rightarrow> (Inr (), s\<lparr>fc_root_made := True, fc_world := w\<rparr>)))"

section \<open>The files of a uVM\<close>

datatype ensure_files_mode = Creation | Loading

definition io_err :: "string \<Rightarrow> string \<Rightarrow> fs_errno \<Rightarrow> fc_error" where
  "io_err sc path e = FcIo (''failed to '' @ sc @ '' '' @ path) (IoErrno e)"

definition ensure_fifo :: "('w, 'p) fc_os \<Rightarrow> string \<Rightarrow> 'w \<Rightarrow> (fc_error + unit) \<times> 'w" where
  "ensure_fifo os path w =
     (case fo_mkfifo os path w of
        (Inr _, w) \<Rightarrow> (Inr (), w)
      | (Inl e, w) \<Rightarrow>
          if e \<noteq> EEXIST then (Inl (io_err ''mkfifoat(2)'' path e), w)
          else
            (case fo_is_fifo os path w of
               Inl e \<Rightarrow> (Inl (io_err ''statat(2)'' path e), w)
             | Inr True \<Rightarrow> (Inr (), w)
             | Inr False \<Rightarrow>
                 (case fo_unlink os path w of
                    (Inl e, w) \<Rightarrow> (Inl (io_err ''unlinkat(2)'' path e), w)
                  | (Inr _, w) \<Rightarrow>
                      (case fo_mkfifo os path w of
                         (Inl e, w) \<Rightarrow> (Inl (io_err ''mkfifoat(2)'' path e), w)
                       | (Inr _, w) \<Rightarrow> (Inr (), w)))))"

definition unlink_stale :: "('w, 'p) fc_os \<Rightarrow> string \<Rightarrow> 'w \<Rightarrow> (fc_error + unit) \<times> 'w" where
  "unlink_stale os path w =
     (case fo_unlink os path w of
        (Inr _, w) \<Rightarrow> (Inr (), w)
      | (Inl e, w) \<Rightarrow> if e = ENOENT then (Inr (), w) else (Inl (io_err ''unlinkat(2)'' path e), w))"

definition ensure_uvm_files :: "('w, 'p) fc_os \<Rightarrow> string \<Rightarrow> ensure_files_mode \<Rightarrow> 'w \<Rightarrow> (fc_error + unit) \<times> 'w" where
  "ensure_uvm_files os dir mode w =
     bindE (case fo_mkdir os dir w of
              (Inr _, w) \<Rightarrow> (Inr False, w)
            | (Inl e, w) \<Rightarrow> if e = EEXIST then (Inr True, w) else (Inl (io_err ''mkdir(2)'' dir e), w)) (\<lambda>existed w.
     case fo_open_dir os dir w of
       Inl e \<Rightarrow> (Inl (io_err ''open(2)'' dir e), w)
     | Inr _ \<Rightarrow>
         bindE (ensure_fifo os (path_join dir logging_fifo_basename) w) (\<lambda>_ w.
         bindE (ensure_fifo os (path_join dir metrics_fifo_basename) w) (\<lambda>_ w.
         if \<not> existed then (Inr (), w)
         else
           bindE (unlink_stale os (path_join dir api_sock_basename) w) (\<lambda>_ w.
           bindE (unlink_stale os (path_join dir vsock_uds_basename) w) (\<lambda>_ w.
           if mode \<noteq> Loading then unlink_stale os (path_join dir uvm_config_basename) w else (Inr (), w))))))"

section \<open>The configuration of a uVM\<close>

definition vsock_guest_cid :: "('w, 'p) fc_os \<Rightarrow> string \<Rightarrow> 32 word" where
  "vsock_guest_cid os vm_id = 3 + ucast (fo_hash os vm_id) mod (- 1 - 3)"

definition show_ip :: "ipv4_addr \<Rightarrow> string" where
  "show_ip a =
     (let oct = (\<lambda>k. show_nat (unat (drop_bit k a AND 255))) in
      oct 24 @ ''.'' @ oct 16 @ ''.'' @ oct 8 @ ''.'' @ oct 0)"

text \<open>\<open>None\<close> is the failed assertion.\<close>

definition prefix_to_mask :: "nat \<Rightarrow> ipv4_addr option" where
  "prefix_to_mask len = (if len \<le> 32 then Some (if len = 0 then 0 else push_bit (32 - len) (- 1)) else None)"

definition ip_boot_param :: "tap_device \<Rightarrow> string option" where
  "ip_boot_param tap =
     (case prefix_to_mask (ti_prefix (td_info tap)) of
        None \<Rightarrow> None
      | Some netmask \<Rightarrow>
          Some (''ip='' @ show_ip (ti_ip (td_info tap)) @ ''::'' @ show_ip (ti_gateway (td_info tap)) @ '':'' @ show_ip netmask
            @ ''::eth0:off:1.1.1.1:1.0.0.1:''))"

definition render_uvm_config ::
  "('w, 'p) fc_os \<Rightarrow> fc_config \<Rightarrow> fc_function_info \<Rightarrow> string \<Rightarrow> tap_device \<Rightarrow> string \<Rightarrow> string \<Rightarrow> string option" where
  "render_uvm_config os cf ff rootfs tap dir vm_id =
     (case ip_boot_param tap of
        None \<Rightarrow> None
      | Some ip \<Rightarrow>
          Some (fo_replace_all os uvm_config_patterns (cf_template cf)
            [show_nat (unat (ff_vcpu_count ff)), show_nat (unat (drop_bit 20 (ff_memory ff))), show_nat (unat (vsock_guest_cid os vm_id)),
             cf_kernel_img cf, boot_params (cf_kernel_verbosity cf) @ '' '' @ ip, rootfs, ti_name (td_info tap),
             path_join dir vsock_uds_basename, default_vmm_log_level, path_join dir logging_fifo_basename,
             path_join dir metrics_fifo_basename]))"

section \<open>The process\<close>

text \<open>\<open>attempts\<close> is how many are left; the delays are in nanoseconds.\<close>

definition max_delay :: duration where
  "max_delay = 10000000"

definition max_attempts :: nat where
  "max_attempts = 20"

definition exited_early :: io_source where
  "exited_early = IoOther ''Firecracker exited before its API socket becomes ready''"

fun await_loop ::
  "('w, 'p) fc_os \<Rightarrow> string \<Rightarrow> 'p \<Rightarrow> nat \<Rightarrow> duration \<Rightarrow> duration \<Rightarrow> io_source option \<Rightarrow> 'w \<Rightarrow> (io_source + unit) \<times> 'w" where
  "await_loop os sock p 0 prev delay lasterr w =
     (case fo_try_wait os p w of
        (Inl e, w) \<Rightarrow> (Inl e, w)
      | (Inr (Some _), w) \<Rightarrow> (Inl exited_early, w)
      | (Inr None, w) \<Rightarrow>
          (Inl (case lasterr of Some e \<Rightarrow> e | None \<Rightarrow> IoOther ''Firecracker API socket did not become ready''), w))"
| "await_loop os sock p (Suc attempts) prev delay lasterr w =
     (case fo_try_wait os p w of
        (Inl e, w) \<Rightarrow> (Inl e, w)
      | (Inr (Some _), w) \<Rightarrow> (Inl exited_early, w)
      | (Inr None, w) \<Rightarrow>
          (case fo_connect os sock w of
             (Inr _, w) \<Rightarrow> (Inr (), w)
           | (Inl e, w) \<Rightarrow>
               if attempts > 0
               then await_loop os sock p attempts delay (min (prev + delay) max_delay) (Some e) (fo_sleep os delay w)
               else await_loop os sock p attempts prev delay (Some e) w))"

definition await_fc_api_server :: "('w, 'p) fc_os \<Rightarrow> string \<Rightarrow> 'p \<Rightarrow> 'w \<Rightarrow> (io_source + unit) \<times> 'w" where
  "await_fc_api_server os sock p w = await_loop os sock p max_attempts 0 500000 None w"

definition fork_exec_fc :: "('w, 'p) fc_os \<Rightarrow> string \<Rightarrow> string \<Rightarrow> string \<Rightarrow> string option \<Rightarrow> 'w \<Rightarrow> (fc_error + 'p) \<times> 'w" where
  "fork_exec_fc os bin vm_id sock cfg w =
     (let args = [''--id'', vm_id, ''--api-sock'', sock] @ (case cfg of Some c \<Rightarrow> [''--config-file'', c] | None \<Rightarrow> []) in
      case fo_spawn os bin args w of
        (Inl e, w) \<Rightarrow> (Inl (FcIo ''failed to fork/exec firecracker process'' e), w)
      | (Inr p, w) \<Rightarrow>
          (case fo_pidfd os p w of
             Inr _ \<Rightarrow> (Inr p, w)
           | Inl e \<Rightarrow>
               (case fo_kill os p w of
                  (Inl e, w) \<Rightarrow> (Inl (FcIo ''failed to SIGKILL and reap child process'' e), w)
                | (Inr _, w) \<Rightarrow> (Inl (FcIo ''failed to pidfd_open(2) child process'' e), w))))"

datatype init_files = InitConfig string | InitFifos string string

definition initialize_fc_process ::
  "('w, 'p) fc_os \<Rightarrow> fc_config \<Rightarrow> string \<Rightarrow> string \<Rightarrow> init_files \<Rightarrow> 'w \<Rightarrow> (fc_error + 'p) \<times> 'w" where
  "initialize_fc_process os cf sock vm_id init w =
     (case init of
        InitConfig c \<Rightarrow> fork_exec_fc os (cf_firecracker_bin cf) vm_id sock (Some c) w
      | InitFifos logging metrics \<Rightarrow>
          bindE (fork_exec_fc os (cf_firecracker_bin cf) vm_id sock None w) (\<lambda>p w.
          let w = snd (await_fc_api_server os sock p w) in
          case fo_api os sock (PutLogger (if cf_debug cf then LogTrace else LogWarning) logging) w of
            (Inl e, w) \<Rightarrow> (Inl (FcApiSetup ''configuring logger'' e), snd (fo_kill os p w))
          | (Inr _, w) \<Rightarrow>
              (case fo_api os sock (PutMetrics metrics) w of
                 (Inl e, w) \<Rightarrow> (Inl (FcApiSetup ''configuring metrics'' e), snd (fo_kill os p w))
               | (Inr _, w) \<Rightarrow> (Inr p, w))))"

definition kill_and_wait :: "('w, 'p) fc_os \<Rightarrow> 'p \<Rightarrow> 'w \<Rightarrow> 'w" where
  "kill_and_wait os p w = snd (fo_kill os p w)"

text \<open>The question whether the uVM runs under the right id, with \<open>err\<close> for the error of the caller.\<close>

definition check_instance :: "('w, 'p) fc_os \<Rightarrow> string \<Rightarrow> string \<Rightarrow> 'p \<Rightarrow> (string \<Rightarrow> fc_error) \<Rightarrow> 'w \<Rightarrow> (fc_error + unit) \<times> 'w" where
  "check_instance os sock vm_id p err w =
     (case fo_describe os sock w of
        (Inl e, w) \<Rightarrow> (Inl (err e), kill_and_wait os p w)
      | (Inr ii, w) \<Rightarrow>
          if ii_state ii = VmRunning \<and> ii_id ii = vm_id then (Inr (), w)
          else (Inl (err ''uVM in invalid state''), kill_and_wait os p w))"

section \<open>The operations of the runtime\<close>

definition add_time :: "timing \<Rightarrow> duration \<Rightarrow> timings \<Rightarrow> timings" where
  "add_time t d tm = tm(t := tm t + of_nat d)"

text \<open>A computation on the system, and one that gives errors of this runtime.\<close>

definition on_world :: "((fc_error + 'a) \<times> 'w) \<Rightarrow> 'w fc \<Rightarrow> ('w, 'a) fc_result" where
  "on_world r s = (case r of (x, w) \<Rightarrow> (map_sum (Err \<circ> FcErr) id x, s\<lparr>fc_world := w\<rparr>))"

definition ensure_files_task :: "('w, 'p) fc_os \<Rightarrow> string \<Rightarrow> ensure_files_mode \<Rightarrow> (string \<Rightarrow> fc_error) \<Rightarrow> 'w \<Rightarrow> (fc_error + unit) \<times> 'w" where
  "ensure_files_task os dir mode err w =
     (case ensure_uvm_files os dir mode w of
        (r, w) \<Rightarrow>
          (case fo_join os w of
             Inl e \<Rightarrow> (Inl (err e), w)
           | Inr _ \<Rightarrow> (case r of Inl _ \<Rightarrow> (Inl (err ''uVM files''), w) | Inr _ \<Rightarrow> (Inr (), w))))"

text \<open>The second half of \<^verbatim>\<open>create_sandbox\<close>, from the configuration file on, and the whole of it from the
  point where there is a TAP device.\<close>

definition fc_boot_uvm :: "('w, 'p) fc_os \<Rightarrow> string \<Rightarrow> string \<Rightarrow> function_id \<Rightarrow> tap_device \<Rightarrow> 'w fc \<Rightarrow> ('w, 'p micro_vm) fc_result" where
  "fc_boot_uvm os dir json fid tap s =
     (let vm_id = ti_name (td_info tap);
          sock = path_join dir api_sock_basename;
          cfg = path_join dir uvm_config_basename in
      bindE (on_world (case fo_write os cfg json (fc_world s) of
          (Inl e, w) \<Rightarrow> (Inl (FcIo (''failed to write uVM config file '' @ cfg) e), w)
        | (Inr _, w) \<Rightarrow> (Inr (), w)) s) (\<lambda>_ s.
      bindE (on_world (initialize_fc_process os (fc_config s) sock vm_id (InitConfig cfg) (fc_world s)) s) (\<lambda>p s.
      bindE (on_world (case await_fc_api_server os sock p (fc_world s) of
          (Inl e, w) \<Rightarrow> (Inl (FcIo ''awaiting Firecracker's API server'' e), kill_and_wait os p w)
        | (Inr _, w) \<Rightarrow> (Inr (), w)) s) (\<lambda>_ s.
      bindE (on_world (check_instance os sock vm_id p FcCreateVm (fc_world s)) s) (\<lambda>_ s.
      (Inr \<lparr>sb_id = vm_id, sb_stats = \<lparr>sb_invocations = 0, sb_restorations = 0\<rparr>, mv_function_id = fid,
            mv_tap = tap, mv_proc = Some p, mv_snapshot = None\<rparr>,
       s\<lparr>fc_uvm_name := Some vm_id, fc_client := Some sock\<rparr>))))))"

definition fc_create_uvm :: "('w, 'p) fc_os \<Rightarrow> function_id \<Rightarrow> tap_device \<Rightarrow> 'w fc \<Rightarrow> ('w, 'p micro_vm) fc_result" where
  "fc_create_uvm os fid tap s =
     (let vm_id = ti_name (td_info tap);
          dir = path_join (cf_uvms_root_path (fc_config s)) vm_id in
      bindE (on_world (ensure_files_task os dir Creation FcCreateVm (fc_world s)) s) (\<lambda>_ s.
      case fc_registry s fid of
        None \<Rightarrow> (Inl (Err (FcErr (FcInit (''missing rootfs path for FunctionId '' @ fid)))), s)
      | Some rootfs \<Rightarrow>
          (case render_uvm_config os (fc_config s) (fc_function_info s) rootfs tap dir vm_id of
             None \<Rightarrow> (Inl (Panic ''prefix_len <= Ipv4Addr::BITS''), s)
           | Some json \<Rightarrow> fc_boot_uvm os dir json fid tap s)))"

definition fc_create_sandbox ::
  "('w, 'p) fc_os \<Rightarrow> 'w rtnl \<Rightarrow> function_id \<Rightarrow> tap \<Rightarrow> timings \<Rightarrow> 'w fc \<Rightarrow> (fc_failure fault + 'p micro_vm) \<times> timings \<times> 'w fc" where
  "fc_create_sandbox os N fid net tm s =
     (let w0 = fc_world s in
      case (case net of Device d \<Rightarrow> (Inr d, w0) | Builder i \<Rightarrow> tap_build N i w0) of
        (Inl e, w1) \<Rightarrow> (Inl (Err (FcNet e)), tm, s\<lparr>fc_world := w1\<rparr>)
      | (Inr tap, w1) \<Rightarrow>
          (case fc_create_uvm os fid tap (s\<lparr>fc_world := w1\<rparr>) of
             (r, s') \<Rightarrow>
               (r, add_time T_CreateSandbox (fo_now os (fc_world s') - fo_now os w1)
                     (add_time T_SetupResources (fo_now os w1 - fo_now os w0) tm), s')))"

definition fc_restore_uvm :: "('w, 'p) fc_os \<Rightarrow> string \<Rightarrow> snapshot_files \<Rightarrow> 'w fc \<Rightarrow> ('w, 'p) fc_result" where
  "fc_restore_uvm os vm_id snap s =
     (let dir = path_join (cf_uvms_root_path (fc_config s)) vm_id;
          sock = path_join dir api_sock_basename;
          init = InitFifos (path_join dir logging_fifo_basename) (path_join dir metrics_fifo_basename) in
      bindE (on_world (ensure_files_task os dir Loading FcLoadSnapshot (fc_world s)) s) (\<lambda>_ s.
      bindE (on_world (initialize_fc_process os (fc_config s) sock vm_id init (fc_world s)) s) (\<lambda>p s.
      bindE (on_world (case fo_api os sock (LoadSnapshotFrom (sf_state snap) (sf_memory snap)) (fc_world s) of
          (Inl e, w) \<Rightarrow> (Inl (FcLoadSnapshot e), kill_and_wait os p w)
        | (Inr _, w) \<Rightarrow> (Inr (), w)) s) (\<lambda>_ s.
      bindE (on_world (check_instance os sock vm_id p FcLoadSnapshot (fc_world s)) s) (\<lambda>_ s.
      (Inr p, s\<lparr>fc_client := Some sock\<rparr>))))))"

definition fc_load_sandbox :: "('w, 'p) fc_os \<Rightarrow> 'p micro_vm \<Rightarrow> 'w fc \<Rightarrow> (fc_failure fault + unit) \<times> 'p micro_vm \<times> 'w fc" where
  "fc_load_sandbox os uvm s =
     (case mv_snapshot uvm of
        None \<Rightarrow> (Inl (Err (FcErr (FcNoSnapshot (''loading '' @ sb_id uvm)))), uvm, s)
      | Some snap \<Rightarrow>
          (case fc_uvm_name s of
             None \<Rightarrow> (Inl (Panic ''uvm_name must be set by now''), uvm, s)
           | Some vm_id \<Rightarrow>
               (case fc_restore_uvm os vm_id snap s of
                  (Inl e, s) \<Rightarrow> (Inl e, uvm, s)
                | (Inr p, s) \<Rightarrow> (Inr (), uvm\<lparr>mv_proc := Some p\<rparr>, s))))"

definition fc_patch_vm :: "('w, 'p) fc_os \<Rightarrow> vm_patch \<Rightarrow> (string \<Rightarrow> fc_error) \<Rightarrow> 'w fc \<Rightarrow> ('w, unit) fc_result" where
  "fc_patch_vm os v err s =
     (case fc_client s of
        None \<Rightarrow> (Inl (Err (FcErr (err ''BUG: uVM without client''))), s)
      | Some sock \<Rightarrow>
          on_world (case fo_api os sock (PatchVm v) (fc_world s) of (Inl e, w) \<Rightarrow> (Inl (err e), w) | (Inr _, w) \<Rightarrow> (Inr (), w)) s)"

definition fc_pause_sandbox :: "('w, 'p) fc_os \<Rightarrow> 'p micro_vm \<Rightarrow> 'w fc \<Rightarrow> (fc_failure fault + unit) \<times> 'p micro_vm \<times> 'w fc" where
  "fc_pause_sandbox os uvm s = (case fc_patch_vm os PatchPaused FcPauseVm s of (r, s) \<Rightarrow> (r, uvm, s))"

definition fc_resume_sandbox :: "('w, 'p) fc_os \<Rightarrow> 'p micro_vm \<Rightarrow> 'w fc \<Rightarrow> (fc_failure fault + unit) \<times> 'p micro_vm \<times> 'w fc" where
  "fc_resume_sandbox os uvm s = (case fc_patch_vm os PatchResumed FcResumeVm s of (r, s) \<Rightarrow> (r, uvm, s))"

definition fc_create_snapshot ::
  "('w, 'p) fc_os \<Rightarrow> string \<Rightarrow> string \<Rightarrow> 'p micro_vm \<Rightarrow> 'w fc \<Rightarrow> (fc_failure fault + unit) \<times> 'p micro_vm \<times> 'w fc" where
  "fc_create_snapshot os state_path memory_path uvm s =
     (case fc_client s of
        None \<Rightarrow> (Inl (Err (FcErr (FcCreateSnapshot ''BUG: attempting to snapshot uVM without client''))), uvm, s)
      | Some sock \<Rightarrow>
          if \<not> utf8 (map of_char state_path) then (Inl (Err (FcErr (FcUtf8 state_path))), uvm, s)
          else if \<not> utf8 (map of_char memory_path) then (Inl (Err (FcErr (FcUtf8 memory_path))), uvm, s)
          else
            (case fo_api os sock (CreateSnapshotAt state_path memory_path) (fc_world s) of
               (Inl e, w) \<Rightarrow> (Inl (Err (FcErr (FcCreateSnapshot e))), uvm, s\<lparr>fc_world := w\<rparr>)
             | (Inr _, w) \<Rightarrow>
                 (Inr (), uvm\<lparr>mv_snapshot := Some \<lparr>sf_state = state_path, sf_memory = memory_path\<rparr>\<rparr>, s\<lparr>fc_world := w\<rparr>)))"

definition fc_shutdown_sandbox :: "('w, 'p) fc_os \<Rightarrow> 'p micro_vm \<Rightarrow> 'w fc \<Rightarrow> (fc_failure fault + unit) \<times> 'p micro_vm \<times> 'w fc" where
  "fc_shutdown_sandbox os uvm s =
     (case mv_proc uvm of
        None \<Rightarrow> (Inr (), uvm, s)
      | Some p \<Rightarrow> (Inr (), uvm\<lparr>mv_proc := None\<rparr>, s\<lparr>fc_world := kill_and_wait os p (fc_world s)\<rparr>))"

text \<open>The files go away in tasks whose failures are logged.\<close>

definition fc_remove_files :: "('w, 'p) fc_os \<Rightarrow> string \<Rightarrow> snapshot_files option \<Rightarrow> 'w \<Rightarrow> 'w" where
  "fc_remove_files os dir snap w =
     (let w = snd (fo_remove_dir_all os dir w) in
      case snap of
        None \<Rightarrow> w
      | Some f \<Rightarrow> snd (fo_unlink os (sf_memory f) (snd (fo_unlink os (sf_state f) w))))"

definition fc_destroy_sandbox :: "('w, 'p) fc_os \<Rightarrow> 'p micro_vm \<Rightarrow> 'w fc \<Rightarrow> ('w, tap) fc_result" where
  "fc_destroy_sandbox os uvm s =
     (let w = (case mv_proc uvm of None \<Rightarrow> fc_world s | Some p \<Rightarrow> kill_and_wait os p (fc_world s)) in
      case fc_uvm_name s of
        None \<Rightarrow> (Inl (Panic ''BUG: Destroying Sandbox while not owning one''), s\<lparr>fc_world := w\<rparr>)
      | Some vm_id \<Rightarrow>
          (Inr (Device (mv_tap uvm)),
           s\<lparr>fc_uvm_name := None, fc_client := None,
             fc_world := fc_remove_files os (path_join (cf_uvms_root_path (fc_config s)) vm_id) (mv_snapshot uvm) w\<rparr>))"

definition fc_setup_cpuset :: "('w, 'p) fc_os \<Rightarrow> cpu \<Rightarrow> 'p micro_vm \<Rightarrow> 'w fc \<Rightarrow> (fc_failure fault + unit) \<times> 'p micro_vm \<times> 'w fc" where
  "fc_setup_cpuset os c uvm s =
     (case Option.bind (mv_proc uvm) (\<lambda>p. fo_pid os p (fc_world s)) of
        None \<Rightarrow> (Inr (), uvm, s)
      | Some pid \<Rightarrow> (Inr (), uvm, s\<lparr>fc_world := snd (fo_setaffinity os pid c (fc_world s))\<rparr>))"

definition fforget_file :: "('w, 'p) fc_os \<Rightarrow> string \<Rightarrow> 'w \<Rightarrow> 'w" where
  "fforget_file os path w =
     (case fo_file_len os path w of
        (Inr _, Inr n) \<Rightarrow> snd (fo_fadvise os path (if n = 0 then None else Some n) w)
      | _ \<Rightarrow> w)"

definition fc_uncache_sandbox :: "('w, 'p) fc_os \<Rightarrow> 'p micro_vm \<Rightarrow> 'w fc \<Rightarrow> (fc_failure fault + unit) \<times> 'p micro_vm \<times> 'w fc" where
  "fc_uncache_sandbox os uvm s =
     (case mv_snapshot uvm of
        None \<Rightarrow> (Inr (), uvm, s)
      | Some f \<Rightarrow> (Inr (), uvm, s\<lparr>fc_world := fforget_file os (sf_memory f) (fforget_file os (sf_state f) (fc_world s))\<rparr>))"

section \<open>Functions\<close>

fun split_once :: "char \<Rightarrow> string \<Rightarrow> (string \<times> string) option" where
  "split_once c [] = None"
| "split_once c (x # xs) = (if x = c then Some ([], xs) else map_option (\<lambda>(a, b). (x # a, b)) (split_once c xs))"

definition fc_register_function :: "('w, 'p) fc_os \<Rightarrow> fc_config \<Rightarrow> function_id \<Rightarrow> 'w \<Rightarrow> (function_id \<rightharpoonup> string) \<Rightarrow> (string + unit) \<times> (function_id \<rightharpoonup> string)" where
  "fc_register_function os cf fid w reg =
     (case split_once CHR ''-'' fid of
        None \<Rightarrow> (Inl (''expected Function ID in the form $PREFIX-$SUFFIX; got '' @ fid), reg)
      | Some (prefix, _) \<Rightarrow>
          (let rootfs = path_join (cf_uvms_rootfs_path cf) (prefix @ ''.'' @ rootfs_img_ext) in
           case fo_metadata os rootfs w of
             Inl _ \<Rightarrow> (Inl (''missing rootfs image at '' @ rootfs), reg)
           | Inr _ \<Rightarrow> (Inr (), reg(fid \<mapsto> rootfs))))"

definition fc_deregister_function :: "function_id \<Rightarrow> (function_id \<rightharpoonup> string) \<Rightarrow> (string + unit) \<times> (function_id \<rightharpoonup> string)" where
  "fc_deregister_function fid reg = (Inr (), reg(fid := None))"

section \<open>Snapshots that outlive the process\<close>

definition fc_snapshot_state :: "'p micro_vm \<Rightarrow> (fc_error + micro_vm_state) option" where
  "fc_snapshot_state uvm =
     (case mv_snapshot uvm of
        None \<Rightarrow> Some (Inl (FcNoSnapshot ''snapshot state creation''))
      | Some f \<Rightarrow> Some (Inr \<lparr>ms_stats = sb_stats uvm, ms_tap = td_info (mv_tap uvm), ms_snapshot = f\<rparr>))"

definition micro_vm_state_eq :: "micro_vm_state \<Rightarrow> micro_vm_state \<Rightarrow> bool" where
  "micro_vm_state_eq a b \<longleftrightarrow> ms_tap a = ms_tap b \<and> ms_snapshot a = ms_snapshot b"

definition micro_vm_state_id :: "micro_vm_state \<Rightarrow> sandbox_id" where
  "micro_vm_state_id st = ti_name (ms_tap st)"

text \<open>The reply of the network manager to the request for the device of \<open>st\<close> is \<open>reply\<close>.\<close>

definition fc_reinstate_sandbox ::
  "'w rtnl \<Rightarrow> function_id \<Rightarrow> micro_vm_state \<Rightarrow> tap net_reply \<Rightarrow> 'w fc \<Rightarrow> (fc_error + 'p micro_vm) option \<times> 'w fc" where
  "fc_reinstate_sandbox N fid st reply s =
     (let vm = (\<lambda>tap. \<lparr>sb_id = ti_name (td_info tap), sb_stats = ms_stats st, mv_function_id = fid, mv_tap = tap,
                     mv_proc = None, mv_snapshot = Some (ms_snapshot st)\<rparr>) in
      case reply of
        NetOk (Device tap) \<Rightarrow> (Some (Inr (vm tap)), s)
      | NetOk (Builder i) \<Rightarrow>
          (case build_or_adopt N i (fc_world s) of
             (Inr tap, w) \<Rightarrow> (Some (Inr (vm tap)), s\<lparr>fc_world := w\<rparr>)
           | (Inl _, w) \<Rightarrow> (Some (Inl (FcReinstateSandbox ''failed to build or adopt'')), s\<lparr>fc_world := w\<rparr>))
      | NetFailed e \<Rightarrow> (Some (Inl (FcReinstateSandbox ''failed requested allocation'')), s)
      | NetNoReply \<Rightarrow> (Some (Inl (FcReinstateSandbox ''failed to receive from netman's oneshot channel'')), s)
      | NetClosed \<Rightarrow> (Some (Inl (FcReinstateSandbox ''failed to request from netman'')), s))"

section \<open>The runtime as a worker sees it\<close>

text \<open>An error is its name. A panic cannot be told to the worker; that there is none while the worker
  keeps to its sandbox is a theorem.\<close>

fun fc_error_name :: "fc_error \<Rightarrow> string" where
  "fc_error_name (FcInit m) = ''failed to initialize runtime: '' @ m"
| "fc_error_name (FcApiSetup m _) = ''failed API-driven Firecracker setup: '' @ m"
| "fc_error_name (FcIo m _) = ''I/O error: '' @ m"
| "fc_error_name (FcUtf8 p) = ''path '' @ p @ '' is not UTF-8''"
| "fc_error_name (FcCreateVm _) = ''failed to create new uVM''"
| "fc_error_name (FcLoadSnapshot _) = ''failed to load uVM from snapshot''"
| "fc_error_name (FcNoSnapshot m) = m @ '': snapshot not found''"
| "fc_error_name (FcPauseVm _) = ''failed to pause uVM''"
| "fc_error_name (FcResumeVm _) = ''failed to resume uVM''"
| "fc_error_name (FcCreateSnapshot _) = ''failed to create uVM snapshot''"
| "fc_error_name (FcReinstateSandbox m) = ''failed to reinstate VM from SnapshotState: '' @ m"

fun fc_failure_name :: "fc_failure fault \<Rightarrow> string" where
  "fc_failure_name (Err (FcErr e)) = fc_error_name e"
| "fc_failure_name (Err (FcNet _)) = ''network error''"
| "fc_failure_name (Panic m) = m"

definition named :: "(fc_failure fault + 'a) \<times> 'b \<Rightarrow> (string + 'a) \<times> 'b" where
  "named r = (map_sum fc_failure_name id (fst r), snd r)"

definition fc_rt ::
  "('w, 'p) fc_os \<Rightarrow> 'w rtnl
    \<Rightarrow> ('w fc, \<lparr>mv_function_id :: function_id, mv_tap :: tap_device, mv_proc :: 'p option, mv_snapshot :: snapshot_files option\<rparr>,
        tap, micro_vm_state) runtime_ops" where
  "fc_rt os N =
     \<lparr>rt_init = (\<lambda>s. named (fc_init os s)),
      rt_create_sandbox = (\<lambda>fid net tm s. named (fc_create_sandbox os N fid net tm s)),
      rt_load_sandbox = (\<lambda>sb s. named (fc_load_sandbox os sb s)),
      rt_pause_sandbox = (\<lambda>sb s. named (fc_pause_sandbox os sb s)),
      rt_resume_sandbox = (\<lambda>sb s. named (fc_resume_sandbox os sb s)),
      rt_create_snapshot = (\<lambda>p q sb s. named (fc_create_snapshot os p q sb s)),
      rt_shutdown_sandbox = (\<lambda>sb s. named (fc_shutdown_sandbox os sb s)),
      rt_destroy_sandbox =
        (\<lambda>sb s. case fc_destroy_sandbox os sb s of (r, s') \<Rightarrow> (map_sum (\<lambda>e. (sb, fc_failure_name e)) id r, s')),
      rt_setup_cpuset = (\<lambda>c sb s. named (fc_setup_cpuset os c sb s)),
      rt_uncache_sandbox = (\<lambda>sb s. named (fc_uncache_sandbox os sb s)),
      rt_has_snapshot = (\<lambda>sb. mv_snapshot sb \<noteq> None),
      rt_snapshot_state = (\<lambda>sb. map_option (map_sum fc_error_name id) (fc_snapshot_state sb))\<rparr>"

end
