(* ===== verification/Fc_Inv.thy ===== *)
theory Fc_Inv
  imports Fc Worker_Inv
begin

text \<open>
  What the operating system promises to the Firecracker runtime, and what follows for its operations: the
  files of a uVM, the processes, the delays; the runtime as an instance of the contract of \<open>Worker_Inv\<close>.
\<close>

section \<open>Files\<close>

datatype fs_node = Fifo | OtherNode

text \<open>\<open>nodes\<close> are the nodes of the file system; nobody else touches those of the uVM meanwhile.\<close>

definition mkdir_spec :: "('w, 'p) fc_os \<Rightarrow> ('w \<Rightarrow> string \<rightharpoonup> fs_node) \<Rightarrow> bool" where
  "mkdir_spec os nodes \<longleftrightarrow>
     (\<forall>d w. case fo_mkdir os d w of
        (Inl e, w') \<Rightarrow> nodes w' = nodes w
      | (Inr u, w') \<Rightarrow> nodes w' = (nodes w)(d \<mapsto> OtherNode)
          \<and> (\<forall>b. b \<noteq> [] \<and> CHR ''/'' \<notin> set b \<longrightarrow> nodes w (path_join d b) = None))"

definition node_spec :: "('w, 'p) fc_os \<Rightarrow> ('w \<Rightarrow> string \<rightharpoonup> fs_node) \<Rightarrow> bool" where
  "node_spec os nodes \<longleftrightarrow>
     (\<forall>p w. case fo_mkfifo os p w of (Inl e, w') \<Rightarrow> nodes w' = nodes w | (Inr u, w') \<Rightarrow> nodes w' = (nodes w)(p \<mapsto> Fifo))
     \<and> (\<forall>p w. case fo_is_fifo os p w of Inl e \<Rightarrow> True | Inr b \<Rightarrow> b = (nodes w p = Some Fifo))
     \<and> (\<forall>p w. case fo_unlink os p w of
        (Inl e, w') \<Rightarrow> nodes w' = nodes w \<and> (e = ENOENT \<longrightarrow> nodes w p = None)
      | (Inr u, w') \<Rightarrow> nodes w' = (nodes w)(p := None))"

definition fc_fs_spec :: "('w, 'p) fc_os \<Rightarrow> ('w \<Rightarrow> string \<rightharpoonup> fs_node) \<Rightarrow> bool" where
  "fc_fs_spec os nodes \<longleftrightarrow> mkdir_spec os nodes \<and> node_spec os nodes"

lemma mkdir_specD:
  assumes "mkdir_spec os nodes"
  shows "fo_mkdir os d w = (Inl e, w') \<Longrightarrow> nodes w' = nodes w"
    "fo_mkdir os d w = (Inr u, w') \<Longrightarrow> nodes w' = (nodes w)(d \<mapsto> OtherNode)"
    "fo_mkdir os d w = (Inr u, w') \<Longrightarrow> b \<noteq> [] \<Longrightarrow> CHR ''/'' \<notin> set b \<Longrightarrow> nodes w (path_join d b) = None"
  using spec [OF spec [OF assms [unfolded mkdir_spec_def], of d], of w] by auto

lemma node_specD:
  assumes "node_spec os nodes"
  shows "fo_mkfifo os p w = (Inl e, w') \<Longrightarrow> nodes w' = nodes w"
    "fo_mkfifo os p w = (Inr u, w') \<Longrightarrow> nodes w' = (nodes w)(p \<mapsto> Fifo)"
    "fo_is_fifo os p w = Inr b \<Longrightarrow> b = (nodes w p = Some Fifo)"
    "fo_unlink os p w = (Inl e, w') \<Longrightarrow> nodes w' = nodes w"
    "fo_unlink os p w = (Inl ENOENT, w') \<Longrightarrow> nodes w p = None"
    "fo_unlink os p w = (Inr u, w') \<Longrightarrow> nodes w' = (nodes w)(p := None)"
proof -
  note c = assms [unfolded node_spec_def]
  note 1 = conjunct1 [OF c, THEN spec [of _ p], THEN spec [of _ w]]
    and 2 = conjunct1 [OF conjunct2 [OF c], THEN spec [of _ p], THEN spec [of _ w]]
    and 3 = conjunct2 [OF conjunct2 [OF c], THEN spec [of _ p], THEN spec [of _ w]]
  show "fo_mkfifo os p w = (Inl e, w') \<Longrightarrow> nodes w' = nodes w"
    "fo_mkfifo os p w = (Inr u, w') \<Longrightarrow> nodes w' = (nodes w)(p \<mapsto> Fifo)" using 1 by auto
  show "fo_is_fifo os p w = Inr b \<Longrightarrow> b = (nodes w p = Some Fifo)" using 2 by auto
  show "fo_unlink os p w = (Inl e, w') \<Longrightarrow> nodes w' = nodes w" "fo_unlink os p w = (Inl ENOENT, w') \<Longrightarrow> nodes w p = None"
    "fo_unlink os p w = (Inr u, w') \<Longrightarrow> nodes w' = (nodes w)(p := None)" using 3 by auto
qed

lemma path_join_inj:
  "path_join d b = path_join d b' \<longleftrightarrow> b = b'" if "b \<noteq> []" "hd b \<noteq> CHR ''/''" "b' \<noteq> []" "hd b' \<noteq> CHR ''/''"
  using that by (simp add: path_join_def)

lemma path_join_not_dir: "b \<noteq> [] \<Longrightarrow> hd b \<noteq> CHR ''/'' \<Longrightarrow> path_join d b \<noteq> d"
  by (auto simp: path_join_def)

lemmas basename_defs = api_sock_basename_def logging_fifo_basename_def metrics_fifo_basename_def vsock_uds_basename_def
  uvm_config_basename_def

text \<open>The five paths of a uVM, and that they differ.\<close>

definition uvm_paths :: "string \<Rightarrow> string list" where
  "uvm_paths dir = map (path_join dir) [logging_fifo_basename, metrics_fifo_basename, api_sock_basename, vsock_uds_basename, uvm_config_basename]"

lemma basenames:
  "\<forall>b \<in> set [logging_fifo_basename, metrics_fifo_basename, api_sock_basename, vsock_uds_basename, uvm_config_basename].
     b \<noteq> [] \<and> CHR ''/'' \<notin> set b"
  "distinct [logging_fifo_basename, metrics_fifo_basename, api_sock_basename, vsock_uds_basename, uvm_config_basename]"
  by (simp_all add: basename_defs)

lemma joined_distinct:
  assumes "distinct bs" "\<forall>b \<in> set bs. b \<noteq> [] \<and> CHR ''/'' \<notin> set b"
  shows "distinct (dir # map (path_join dir) bs)"
proof -
  have h: "hd b \<noteq> CHR ''/''" if "b \<in> set bs" for b using assms(2) that by (metis list.set_sel(1))
  have "inj_on (path_join dir) (set bs)" by (rule inj_onI) (use assms(2) h in \<open>simp add: path_join_inj\<close>)
  moreover have "dir \<noteq> path_join dir b" if "b \<in> set bs" for b using path_join_not_dir [of b dir] assms(2) h that by metis
  ultimately show ?thesis using assms(1) by (auto simp: distinct_map)
qed

lemma uvm_paths_distinct: "distinct (dir # uvm_paths dir)"
  unfolding uvm_paths_def by (rule joined_distinct [OF basenames(2,1)])

lemma ensure_fifo_ok:
  assumes N: "node_spec os nodes" and e: "ensure_fifo os p w = (r, w')"
  shows "(\<forall>q. q \<noteq> p \<longrightarrow> nodes w' q = nodes w q) \<and> (r = Inr () \<longrightarrow> nodes w' p = Some Fifo)"
  using e node_specD [OF N]
  by (fastforce simp: ensure_fifo_def split: prod.splits sum.splits if_splits bool.splits)

lemma unlink_stale_ok:
  assumes N: "node_spec os nodes" and e: "unlink_stale os p w = (r, w')"
  shows "(\<forall>q. q \<noteq> p \<longrightarrow> nodes w' q = nodes w q) \<and> (r = Inr () \<longrightarrow> nodes w' p = None)"
  using e node_specD [OF N]
  by (fastforce simp: unlink_stale_def split: prod.splits sum.splits if_splits)

definition uvm_files_ready :: "('w \<Rightarrow> string \<rightharpoonup> fs_node) \<Rightarrow> string \<Rightarrow> ensure_files_mode \<Rightarrow> 'w \<Rightarrow> bool" where
  "uvm_files_ready nodes dir mode w \<longleftrightarrow>
     nodes w (path_join dir logging_fifo_basename) = Some Fifo \<and> nodes w (path_join dir metrics_fifo_basename) = Some Fifo
     \<and> nodes w (path_join dir api_sock_basename) = None \<and> nodes w (path_join dir vsock_uds_basename) = None
     \<and> (mode = Creation \<longrightarrow> nodes w (path_join dir uvm_config_basename) = None)"

definition only_changes :: "('w \<Rightarrow> string \<rightharpoonup> fs_node) \<Rightarrow> string list \<Rightarrow> 'w \<Rightarrow> 'w \<Rightarrow> bool" where
  "only_changes nodes ps w w' \<longleftrightarrow> (\<forall>q. q \<notin> set ps \<longrightarrow> nodes w' q = nodes w q)"

lemma only_changes_trans: "only_changes nodes ps w w1 \<Longrightarrow> only_changes nodes qs w1 w2 \<Longrightarrow> only_changes nodes (ps @ qs) w w2"
  by (simp add: only_changes_def)

lemma only_changes_mono: "only_changes nodes ps w w' \<Longrightarrow> set ps \<subseteq> set qs \<Longrightarrow> only_changes nodes qs w w'"
  by (auto simp: only_changes_def)

lemma only_changes_refl [simp]: "only_changes nodes ps w w"
  by (simp add: only_changes_def)

lemma fifo_step:
  assumes N: "node_spec os nodes" and c: "only_changes nodes ps w0 w"
    and ok: "\<And>w'. only_changes nodes (ps @ [p]) w0 w' \<Longrightarrow> only_changes nodes [p] w w' \<Longrightarrow> nodes w' p = Some Fifo \<Longrightarrow> P (k () w')"
    and err: "\<And>e w'. only_changes nodes (ps @ [p]) w0 w' \<Longrightarrow> P (Inl e, w')"
  shows "P (bindE (ensure_fifo os p w) k)"
proof -
  obtain r w' where e: "ensure_fifo os p w = (r, w')" by fastforce
  have o: "only_changes nodes [p] w w'" using ensure_fifo_ok [OF N e] by (auto simp: only_changes_def)
  show ?thesis using e ok err only_changes_trans [OF c o] ensure_fifo_ok [OF N e] o by (cases r) auto
qed

lemma unlink_step:
  assumes N: "node_spec os nodes" and c: "only_changes nodes ps w0 w"
    and ok: "\<And>w'. only_changes nodes (ps @ [p]) w0 w' \<Longrightarrow> only_changes nodes [p] w w' \<Longrightarrow> nodes w' p = None \<Longrightarrow> P (k () w')"
    and err: "\<And>e w'. only_changes nodes (ps @ [p]) w0 w' \<Longrightarrow> P (Inl e, w')"
  shows "P (bindE (unlink_stale os p w) k)"
proof -
  obtain r w' where e: "unlink_stale os p w = (r, w')" by fastforce
  have o: "only_changes nodes [p] w w'" using unlink_stale_ok [OF N e] by (auto simp: only_changes_def)
  show ?thesis using e ok err only_changes_trans [OF c o] unlink_stale_ok [OF N e] o by (cases r) auto
qed

lemma bindE_return: "bindE r (\<lambda>_ w. (Inr (), w)) = r"
  by (cases r; cases "fst r") auto

definition files_outcome :: "('w \<Rightarrow> string \<rightharpoonup> fs_node) \<Rightarrow> string \<Rightarrow> ensure_files_mode \<Rightarrow> 'w \<Rightarrow> (fc_error + unit) \<times> 'w \<Rightarrow> bool" where
  "files_outcome nodes dir mode w x \<longleftrightarrow>
     only_changes nodes (dir # uvm_paths dir) w (snd x) \<and> (fst x = Inr () \<longrightarrow> uvm_files_ready nodes dir mode (snd x))"

lemma files_outcomeI:
  assumes "only_changes nodes ps w w'" "set ps \<subseteq> set (dir # uvm_paths dir)" "r = Inr () \<Longrightarrow> uvm_files_ready nodes dir mode w'"
  shows "files_outcome nodes dir mode w (r, w')"
  using only_changes_mono [OF assms(1,2)] assms(3) by (simp add: files_outcome_def)

lemma ensure_files_outcome:
  assumes N: "fc_fs_spec os nodes"
  shows "files_outcome nodes dir mode w (ensure_uvm_files os dir mode w)"
proof -
  have M: "mkdir_spec os nodes" and N: "node_spec os nodes" using N by (simp_all add: fc_fs_spec_def)
  let ?log = "path_join dir logging_fifo_basename" and ?mtr = "path_join dir metrics_fifo_basename"
    and ?api = "path_join dir api_sock_basename" and ?vs = "path_join dir vsock_uds_basename"
    and ?cfg = "path_join dir uvm_config_basename"
  let ?P = "files_outcome nodes dir mode w"
  have d: "distinct [dir, ?log, ?mtr, ?api, ?vs, ?cfg]" using uvm_paths_distinct [of dir] by (simp add: uvm_paths_def)
  then have d': "distinct (rev [dir, ?log, ?mtr, ?api, ?vs, ?cfg])" by (simp only: distinct_rev)
  have in_paths: "set [dir, ?log, ?mtr, ?api, ?vs, ?cfg] = set (dir # uvm_paths dir)" by (simp add: uvm_paths_def)
  have err: "?P (Inl e, w')" if "only_changes nodes ps w w'" "set ps \<subseteq> set [dir, ?log, ?mtr, ?api, ?vs, ?cfg]" for e w' ps
    by (rule files_outcomeI [OF that(1)]) (use that(2) [unfolded in_paths] in simp_all)
  have last: "?P (if mode \<noteq> Loading then unlink_stale os ?cfg w5 else (Inr (), w5))"
    if c: "only_changes nodes [dir, ?log, ?mtr, ?api, ?vs] w w5"
      and n: "nodes w5 ?log = Some Fifo" "nodes w5 ?mtr = Some Fifo" "nodes w5 ?api = None" "nodes w5 ?vs = None" for w5
  proof (cases "mode = Loading")
    case True
    then have "uvm_files_ready nodes dir mode w5" using n by (simp add: uvm_files_ready_def)
    then show ?thesis using True by (simp add: files_outcomeI [OF c] uvm_paths_def)
  next
    case False
    have "?P (bindE (unlink_stale os ?cfg w5) (\<lambda>_ w. (Inr (), w)))"
    proof (rule unlink_step [OF N c])
      show "?P (Inr (), w')" if "only_changes nodes ([dir, ?log, ?mtr, ?api, ?vs] @ [?cfg]) w w'" "only_changes nodes [?cfg] w5 w'" "nodes w' ?cfg = None" for w'
      proof -
        have "nodes w' ?log = nodes w5 ?log" "nodes w' ?mtr = nodes w5 ?mtr" "nodes w' ?api = nodes w5 ?api" "nodes w' ?vs = nodes w5 ?vs"
          using that(2) d d' by (simp_all add: only_changes_def)
        then have "uvm_files_ready nodes dir mode w'" using n that(3) by (simp add: uvm_files_ready_def)
        then show ?thesis by (simp add: files_outcomeI [OF that(1)] uvm_paths_def)
      qed
    qed (rule err, assumption, simp)
    then show ?thesis using False by (simp add: bindE_return)
  qed
  have rest: "?P (if \<not> existed then (Inr (), w3)
       else bindE (unlink_stale os ?api w3) (\<lambda>_ w. bindE (unlink_stale os ?vs w) (\<lambda>_ w.
          if mode \<noteq> Loading then unlink_stale os ?cfg w else (Inr (), w))))"
    if c: "only_changes nodes [dir, ?log, ?mtr] w w3" and n: "nodes w3 ?log = Some Fifo" "nodes w3 ?mtr = Some Fifo"
      and e: "\<not> existed \<longrightarrow> (\<forall>p \<in> {?api, ?vs, ?cfg}. nodes w p = None)" for w3 existed
  proof (cases existed)
    case False
    have "nodes w3 p = None" if "p \<in> {?api, ?vs, ?cfg}" for p
      using c e False that d d' by (simp add: only_changes_def) (elim disjE; simp)
    then have "nodes w3 ?api = None" "nodes w3 ?vs = None" "nodes w3 ?cfg = None" by simp_all
    then have "uvm_files_ready nodes dir mode w3" using n by (simp add: uvm_files_ready_def)
    then show ?thesis using False by (simp add: files_outcomeI [OF c] uvm_paths_def)
  next
    case True
    have "?P (bindE (unlink_stale os ?api w3) (\<lambda>_ w. bindE (unlink_stale os ?vs w) (\<lambda>_ w.
          if mode \<noteq> Loading then unlink_stale os ?cfg w else (Inr (), w))))"
    proof (rule unlink_step [OF N c])
      fix w4 assume 4: "only_changes nodes ([dir, ?log, ?mtr] @ [?api]) w w4" "only_changes nodes [?api] w3 w4" "nodes w4 ?api = None"
      have n4: "nodes w4 ?log = Some Fifo" "nodes w4 ?mtr = Some Fifo" using 4(2) n d d' by (simp_all add: only_changes_def)
      show "?P (bindE (unlink_stale os ?vs w4) (\<lambda>_ w. if mode \<noteq> Loading then unlink_stale os ?cfg w else (Inr (), w)))"
      proof (rule unlink_step [OF N 4(1)])
        show "?P (if mode \<noteq> Loading then unlink_stale os ?cfg w5 else (Inr (), w5))"
          if "only_changes nodes (([dir, ?log, ?mtr] @ [?api]) @ [?vs]) w w5" "only_changes nodes [?vs] w4 w5" "nodes w5 ?vs = None" for w5
        proof -
          have "nodes w5 ?log = nodes w4 ?log" "nodes w5 ?mtr = nodes w4 ?mtr" "nodes w5 ?api = nodes w4 ?api"
            using that(2) d d' by (simp_all add: only_changes_def)
          then show ?thesis using that(1,3) n4 4(3) by (intro last) simp_all
        qed
      qed (rule err, assumption, simp)
    qed (rule err, assumption, simp)
    then show ?thesis using True by simp
  qed
  have body: "?P (case fo_open_dir os dir w1 of
       Inl e \<Rightarrow> (Inl (io_err ''open(2)'' dir e), w1)
     | Inr _ \<Rightarrow> bindE (ensure_fifo os ?log w1) (\<lambda>_ w. bindE (ensure_fifo os ?mtr w) (\<lambda>_ w.
         if \<not> existed then (Inr (), w)
         else bindE (unlink_stale os ?api w) (\<lambda>_ w. bindE (unlink_stale os ?vs w) (\<lambda>_ w.
          if mode \<noteq> Loading then unlink_stale os ?cfg w else (Inr (), w))))))"
    if c: "only_changes nodes [dir] w w1" and e: "\<not> existed \<longrightarrow> (\<forall>p \<in> {?api, ?vs, ?cfg}. nodes w p = None)" for w1 existed
  proof (cases "fo_open_dir os dir w1")
    case (Inl e)
    then show ?thesis using c by (auto intro: err)
  next
    case (Inr u)
    have "?P (bindE (ensure_fifo os ?log w1) (\<lambda>_ w. bindE (ensure_fifo os ?mtr w) (\<lambda>_ w.
         if \<not> existed then (Inr (), w)
         else bindE (unlink_stale os ?api w) (\<lambda>_ w. bindE (unlink_stale os ?vs w) (\<lambda>_ w.
          if mode \<noteq> Loading then unlink_stale os ?cfg w else (Inr (), w))))))"
    proof (rule fifo_step [OF N c])
      fix w2 assume 2: "only_changes nodes ([dir] @ [?log]) w w2" "nodes w2 ?log = Some Fifo"
      show "?P (bindE (ensure_fifo os ?mtr w2) (\<lambda>_ w. if \<not> existed then (Inr (), w)
         else bindE (unlink_stale os ?api w) (\<lambda>_ w. bindE (unlink_stale os ?vs w) (\<lambda>_ w.
          if mode \<noteq> Loading then unlink_stale os ?cfg w else (Inr (), w)))))"
      proof (rule fifo_step [OF N 2(1)])
        fix w3 assume 3: "only_changes nodes (([dir] @ [?log]) @ [?mtr]) w w3" "only_changes nodes [?mtr] w2 w3" "nodes w3 ?mtr = Some Fifo"
        have "nodes w3 ?log = Some Fifo" using 3(2) 2(2) d d' by (simp add: only_changes_def)
        then show "?P (if \<not> existed then (Inr (), w3)
         else bindE (unlink_stale os ?api w3) (\<lambda>_ w. bindE (unlink_stale os ?vs w) (\<lambda>_ w.
          if mode \<noteq> Loading then unlink_stale os ?cfg w else (Inr (), w))))"
          using 3(1) by (intro rest [OF _ _ 3(3) e]) simp_all
      qed (rule err, assumption, simp)
    qed (rule err, assumption, simp)
    then show ?thesis using Inr by simp
  qed
  obtain r w1 where m: "fo_mkdir os dir w = (r, w1)" by fastforce
  show ?thesis
  proof (cases r)
    case (Inl e)
    then have "only_changes nodes [dir] w w1" using m mkdir_specD(1) [OF M] by (fastforce simp: only_changes_def)
    then show ?thesis using m Inl body [of w1 True] err [of "[dir]" w1] by (auto simp: ensure_uvm_files_def)
  next
    case (Inr u)
    then have "only_changes nodes [dir] w w1" using m mkdir_specD(2) [OF M] by (auto simp: only_changes_def)
    moreover have "\<forall>p \<in> {?api, ?vs, ?cfg}. nodes w p = None"
      using mkdir_specD(3) [OF M m [unfolded Inr]] basenames(1) by auto
    ultimately show ?thesis using m Inr body [of w1 False] by (simp add: ensure_uvm_files_def)
  qed
qed

section \<open>Processes\<close>

text \<open>\<open>live\<close> are the processes that run. Only \<open>fo_spawn\<close> starts one; they may end by themselves at any time. A
  process that could not be killed is \<open>stuck\<close>.\<close>

definition os_quiet :: "('w, 'p) fc_os \<Rightarrow> ('w \<Rightarrow> 'p set) \<Rightarrow> bool" where
  "os_quiet os live \<longleftrightarrow>
     (\<forall>w. (\<forall>d. live (fo_sleep os d w) \<subseteq> live w) \<and> (\<forall>p. live (snd (fo_create_dir_all os p w)) \<subseteq> live w)
        \<and> (\<forall>p. live (snd (fo_mkdir os p w)) \<subseteq> live w) \<and> (\<forall>p. live (snd (fo_mkfifo os p w)) \<subseteq> live w)
        \<and> (\<forall>p. live (snd (fo_unlink os p w)) \<subseteq> live w) \<and> (\<forall>p. live (snd (fo_remove_dir_all os p w)) \<subseteq> live w)
        \<and> (\<forall>p c. live (snd (fo_write os p c w)) \<subseteq> live w) \<and> (\<forall>p n. live (snd (fo_fadvise os p n w)) \<subseteq> live w)
        \<and> (\<forall>p. live (snd (fo_try_wait os p w)) \<subseteq> live w) \<and> (\<forall>i c. live (snd (fo_setaffinity os i c w)) \<subseteq> live w)
        \<and> (\<forall>p. live (snd (fo_connect os p w)) \<subseteq> live w) \<and> (\<forall>p q. live (snd (fo_api os p q w)) \<subseteq> live w)
        \<and> (\<forall>p. live (snd (fo_describe os p w)) \<subseteq> live w))"

definition rtnl_quiet :: "'w rtnl \<Rightarrow> ('w \<Rightarrow> 'p set) \<Rightarrow> bool" where
  "rtnl_quiet N live \<longleftrightarrow>
     (\<forall>w. (\<forall>f. live (snd (nl_set_iff N f w)) \<subseteq> live w) \<and> (\<forall>f. live (snd (nl_set_persist N f w)) \<subseteq> live w)
        \<and> (\<forall>f. live (nl_close N f w) \<subseteq> live w) \<and> (\<forall>i c. live (snd (nl_set N i c w)) \<subseteq> live w)
        \<and> (\<forall>i ip n b. live (snd (nl_addr_add N i ip n b w)) \<subseteq> live w) \<and> (\<forall>i. live (snd (nl_del N i w)) \<subseteq> live w))"

definition spawn_spec :: "('w, 'p) fc_os \<Rightarrow> ('w \<Rightarrow> 'p set) \<Rightarrow> bool" where
  "spawn_spec os live \<longleftrightarrow>
     (\<forall>b a w. case fo_spawn os b a w of (Inl e, w') \<Rightarrow> live w' \<subseteq> live w | (Inr p, w') \<Rightarrow> live w' \<subseteq> insert p (live w))"

definition kill_spec :: "('w, 'p) fc_os \<Rightarrow> ('w \<Rightarrow> 'p set) \<Rightarrow> bool" where
  "kill_spec os live \<longleftrightarrow>
     (\<forall>p w. case fo_kill os p w of (Inl e, w') \<Rightarrow> live w' \<subseteq> live w | (Inr u, w') \<Rightarrow> live w' \<subseteq> live w - {p})"

definition fc_proc_spec :: "('w, 'p) fc_os \<Rightarrow> 'w rtnl \<Rightarrow> ('w \<Rightarrow> 'p set) \<Rightarrow> bool" where
  "fc_proc_spec os N live \<longleftrightarrow> os_quiet os live \<and> rtnl_quiet N live \<and> spawn_spec os live \<and> kill_spec os live"

definition stuck :: "('w, 'p) fc_os \<Rightarrow> ('w \<Rightarrow> 'p set) \<Rightarrow> 'p set" where
  "stuck os live = {p. \<exists>w e w'. fo_kill os p w = (Inl e, w') \<and> p \<in> live w'}"

text \<open>Those that are not stuck: a kill removes them.\<close>

definition fc_procs :: "('w, 'p) fc_os \<Rightarrow> 'w rtnl \<Rightarrow> ('w \<Rightarrow> 'p set) \<Rightarrow> bool" where
  "fc_procs os N L \<longleftrightarrow> os_quiet os L \<and> rtnl_quiet N L \<and> spawn_spec os L \<and> (\<forall>p w. L (kill_and_wait os p w) \<subseteq> L w - {p})"

lemma fc_procs_unstuck:
  assumes "fc_proc_spec os N live"
  shows "fc_procs os N (\<lambda>w. live w - stuck os live)"
proof -
  have 1: "os_quiet os (\<lambda>w. live w - stuck os live)" "rtnl_quiet N (\<lambda>w. live w - stuck os live)"
    using assms by (simp_all add: fc_proc_spec_def os_quiet_def rtnl_quiet_def Diff_mono)
  have 2: "spawn_spec os (\<lambda>w. live w - stuck os live)"
    using assms by (auto simp: fc_proc_spec_def spawn_spec_def split: prod.splits sum.splits) blast+
  have "live (snd (fo_kill os p w)) - stuck os live \<subseteq> live w - stuck os live - {p}" for p w
  proof (cases "fo_kill os p w")
    case (Pair r w')
    have k: "case fo_kill os p w of (Inl e, w') \<Rightarrow> live w' \<subseteq> live w | (Inr u, w') \<Rightarrow> live w' \<subseteq> live w - {p}"
      using assms by (simp add: fc_proc_spec_def kill_spec_def)
    show ?thesis
    proof (cases r)
      case (Inl e)
      then have "p \<in> live w' \<longrightarrow> p \<in> stuck os live" using Pair by (auto simp: stuck_def)
      then show ?thesis using k Pair Inl by auto
    next
      case (Inr u)
      then show ?thesis using k Pair by auto
    qed
  qed
  then show ?thesis using 1 2 by (simp add: fc_procs_def kill_and_wait_def)
qed

lemma os_quietD:
  assumes "os_quiet os L"
  shows "L (fo_sleep os d w) \<subseteq> L w"
    "fo_create_dir_all os p w = (r1, w') \<Longrightarrow> L w' \<subseteq> L w"
    "fo_mkdir os p w = (r2, w') \<Longrightarrow> L w' \<subseteq> L w"
    "fo_mkfifo os p w = (r2, w') \<Longrightarrow> L w' \<subseteq> L w"
    "fo_unlink os p w = (r2, w') \<Longrightarrow> L w' \<subseteq> L w"
    "L (snd (fo_unlink os p w)) \<subseteq> L w"
    "L (snd (fo_remove_dir_all os p w)) \<subseteq> L w"
    "fo_write os p c w = (r1, w') \<Longrightarrow> L w' \<subseteq> L w"
    "L (snd (fo_fadvise os p n w)) \<subseteq> L w"
    "fo_try_wait os q w = (r3, w') \<Longrightarrow> L w' \<subseteq> L w"
    "L (snd (fo_setaffinity os i cpu w)) \<subseteq> L w"
    "fo_connect os p w = (r1, w') \<Longrightarrow> L w' \<subseteq> L w"
    "fo_api os p req w = (r4, w') \<Longrightarrow> L w' \<subseteq> L w"
    "fo_describe os p w = (r5, w') \<Longrightarrow> L w' \<subseteq> L w"
  using spec [OF assms [unfolded os_quiet_def], of w] by (metis snd_conv)+

lemma rtnl_quietD:
  assumes "rtnl_quiet N L"
  shows "L (snd (nl_set_iff N f w)) \<subseteq> L w" "L (snd (nl_set_persist N f w)) \<subseteq> L w" "L (nl_close N f w) \<subseteq> L w"
    "L (snd (nl_set N i c w)) \<subseteq> L w" "L (snd (nl_addr_add N i ip n b w)) \<subseteq> L w" "L (snd (nl_del N i w)) \<subseteq> L w"
  using spec [OF assms [unfolded rtnl_quiet_def], of w] by blast+

lemma fc_procsD:
  assumes "fc_procs os N L"
  shows "os_quiet os L" "rtnl_quiet N L" "L (kill_and_wait os p w) \<subseteq> L w - {p}" "L (snd (fo_kill os p w)) \<subseteq> L w - {p}"
    "fo_spawn os b a w = (Inl e, w') \<Longrightarrow> L w' \<subseteq> L w" "fo_spawn os b a w = (Inr p, w') \<Longrightarrow> L w' \<subseteq> insert p (L w)"
proof -
  show "os_quiet os L" "rtnl_quiet N L" "L (kill_and_wait os p w) \<subseteq> L w - {p}" "L (snd (fo_kill os p w)) \<subseteq> L w - {p}"
    using assms by (simp_all add: fc_procs_def kill_and_wait_def)
  have "case fo_spawn os b a w of (Inl e, w') \<Rightarrow> L w' \<subseteq> L w | (Inr p, w') \<Rightarrow> L w' \<subseteq> insert p (L w)"
    using assms by (simp add: fc_procs_def spawn_spec_def)
  then show "fo_spawn os b a w = (Inl e, w') \<Longrightarrow> L w' \<subseteq> L w" "fo_spawn os b a w = (Inr p, w') \<Longrightarrow> L w' \<subseteq> insert p (L w)"
    by auto
qed

text \<open>A computation that leaves no process behind, and one that leaves the process it gives.\<close>

definition leaves :: "('w \<Rightarrow> 'p set) \<Rightarrow> 'w \<Rightarrow> 'p set \<Rightarrow> 'w \<Rightarrow> bool" where
  "leaves L w P w' \<longleftrightarrow> L w' \<subseteq> L w \<union> P"

lemma leavesI: "L w' \<subseteq> L w \<Longrightarrow> leaves L w {} w'"
  by (simp add: leaves_def)

lemma leaves_trans: "leaves L w P w1 \<Longrightarrow> leaves L w1 {} w2 \<Longrightarrow> leaves L w P w2"
  by (auto simp: leaves_def)

lemma leaves_refl [simp]: "leaves L w P w"
  by (simp add: leaves_def)

lemma leaves_spawn: "leaves L w {} w1 \<Longrightarrow> leaves L w1 {p} w2 \<Longrightarrow> leaves L w {p} w2"
  by (auto simp: leaves_def)

lemma kill_leaves:
  assumes "fc_procs os N L" "leaves L w {p} w1"
  shows "leaves L w {} (kill_and_wait os p w1)" "leaves L w {} (snd (fo_kill os p w1))"
  using fc_procsD(3,4) [OF assms(1), of p w1] assms(2) by (auto simp: leaves_def)

definition yields :: "('w \<Rightarrow> 'p set) \<Rightarrow> 'w \<Rightarrow> (('e + 'p) \<times> 'w) \<Rightarrow> bool" where
  "yields L w r \<longleftrightarrow> (case r of (Inl e, w') \<Rightarrow> leaves L w {} w' | (Inr p, w') \<Rightarrow> leaves L w {p} w')"

lemma ensure_fifo_leaves:
  assumes Q: "os_quiet os L"
  shows "leaves L w {} (snd (ensure_fifo os p w))"
proof -
  obtain r1 w1 where 1: "fo_mkfifo os p w = (r1, w1)" by fastforce
  obtain r2 w2 where 2: "fo_unlink os p w1 = (r2, w2)" by fastforce
  obtain r3 w3 where 3: "fo_mkfifo os p w2 = (r3, w3)" by fastforce
  have "leaves L w {} w1" "leaves L w {} w2" "leaves L w {} w3"
    using os_quietD(4) [OF Q 1] os_quietD(5) [OF Q 2] os_quietD(4) [OF Q 3] by (auto simp: leaves_def)
  then show ?thesis using 1 2 3 by (auto simp: ensure_fifo_def split: sum.splits bool.splits)
qed

lemma unlink_stale_leaves:
  assumes Q: "os_quiet os L"
  shows "leaves L w {} (snd (unlink_stale os p w))"
  using os_quietD(5) [OF Q] by (auto simp: unlink_stale_def leaves_def split: prod.splits sum.splits)

lemma bindE_leaves:
  assumes "leaves L w {} (snd r)" "\<And>x w'. r = (Inr x, w') \<Longrightarrow> leaves L w' {} (snd (k x w'))"
  shows "leaves L w {} (snd (bindE r k))"
  using assms leaves_trans by (cases r; cases "fst r") fastforce+

lemma ensure_uvm_files_leaves:
  assumes Q: "os_quiet os L"
  shows "leaves L w {} (snd (ensure_uvm_files os dir mode w))"
proof -
  have m: "leaves L w {} w1" if "fo_mkdir os dir w = (r, w1)" for r w1 using os_quietD(3) [OF Q that] by (rule leavesI)
  show ?thesis
    unfolding ensure_uvm_files_def
    by (rule bindE_leaves)
      (auto intro!: bindE_leaves ensure_fifo_leaves [OF Q] unlink_stale_leaves [OF Q] dest: m split: prod.split sum.split if_splits)
qed

lemma ensure_files_task_leaves:
  assumes "os_quiet os L" "ensure_files_task os dir mode err w = (r, w')"
  shows "leaves L w {} w'"
  using assms(2) ensure_uvm_files_leaves [OF assms(1), of w dir mode]
  by (auto simp: ensure_files_task_def split: prod.splits sum.splits)

lemma await_loop_leaves:
  assumes Q: "os_quiet os L"
  shows "leaves L w {} (snd (await_loop os sock p n prev delay e w))"
proof (induction n arbitrary: prev delay e w)
  case 0
  show ?case using os_quietD(10) [OF Q] by (auto simp: leaves_def split: prod.splits sum.splits option.splits)
next
  case (Suc n)
  obtain r1 w1 where 1: "fo_try_wait os p w = (r1, w1)" by fastforce
  obtain r2 w2 where 2: "fo_connect os sock w1 = (r2, w2)" by fastforce
  have l: "leaves L w {} w1" "leaves L w {} w2" using os_quietD(10) [OF Q 1] os_quietD(12) [OF Q 2] by (auto simp: leaves_def)
  have l3: "leaves L w {} (fo_sleep os delay w2)" using l os_quietD(1) [OF Q, of delay w2] by (auto simp: leaves_def)
  have "leaves L w {} (snd (await_loop os sock p n a b c (fo_sleep os delay w2)))" "leaves L w {} (snd (await_loop os sock p n a b c w2))" for a b c
    by (rule leaves_trans [OF l3 Suc.IH], rule leaves_trans [OF l(2) Suc.IH])
  then show ?case unfolding await_loop.simps(2) using 1 2 l by (auto simp del: await_loop.simps split: sum.splits option.splits)
qed

lemma await_leaves: "os_quiet os L \<Longrightarrow> await_fc_api_server os sock p w = (r, w') \<Longrightarrow> leaves L w {} w'"
  using await_loop_leaves [of os L w sock p] by (auto simp: await_fc_api_server_def) (metis snd_conv)

lemma fork_exec_yields:
  assumes P: "fc_procs os N L"
  shows "yields L w (fork_exec_fc os bin vm_id sock cfg w)"
proof -
  let ?a = "[''--id'', vm_id, ''--api-sock'', sock] @ (case cfg of Some c \<Rightarrow> [''--config-file'', c] | None \<Rightarrow> [])"
  obtain r w1 where s: "fo_spawn os bin ?a w = (r, w1)" by fastforce
  show ?thesis
  proof (cases r)
    case (Inl e)
    then show ?thesis
      using s fc_procsD(5) [OF P, of bin ?a w e w1] by (simp add: fork_exec_fc_def Let_def yields_def leaves_def)
  next
    case (Inr p)
    then have "leaves L w {p} w1" using s fc_procsD(6) [OF P, of bin ?a w p w1] by (auto simp: leaves_def)
    moreover have "leaves L w {} w2" if "fo_kill os p w1 = (x, w2)" for x w2
      using kill_leaves(2) [OF P \<open>leaves L w {p} w1\<close>] that by simp
    ultimately show ?thesis
      using s Inr by (auto simp: fork_exec_fc_def Let_def yields_def split: sum.splits prod.splits)
  qed
qed

lemma api_leaves: "os_quiet os L \<Longrightarrow> leaves L w {p} w1 \<Longrightarrow> fo_api os sock q w1 = (r, w2) \<Longrightarrow> leaves L w {p} w2"
  using os_quietD(13) [of os L sock q w1 r w2] by (auto simp: leaves_def)

lemma initialize_yields:
  assumes P: "fc_procs os N L"
  shows "yields L w (initialize_fc_process os cf sock vm_id init w)"
proof (cases init)
  case (InitConfig c)
  then show ?thesis using fork_exec_yields [OF P] by (simp add: initialize_fc_process_def)
next
  case (InitFifos l m)
  note Q = fc_procsD(1) [OF P]
  obtain r w1 where f: "fork_exec_fc os (cf_firecracker_bin cf) vm_id sock None w = (r, w1)" by fastforce
  note y = fork_exec_yields [OF P, of w "cf_firecracker_bin cf" vm_id sock None, unfolded f]
  show ?thesis
  proof (cases r)
    case (Inl e)
    then show ?thesis using f y InitFifos by (simp add: initialize_fc_process_def)
  next
    case (Inr p)
    let ?w2 = "snd (await_fc_api_server os sock p w1)"
    obtain r3 w3 where 3: "fo_api os sock (PutLogger (if cf_debug cf then LogTrace else LogWarning) l) ?w2 = (r3, w3)" by fastforce
    obtain r4 w4 where 4: "fo_api os sock (PutMetrics m) w3 = (r4, w4)" by fastforce
    have "leaves L w {p} w1" using y Inr by (simp add: yields_def)
    then have l2: "leaves L w {p} ?w2" using leaves_trans await_leaves [OF Q] by (metis prod.collapse)
    have l3: "leaves L w {p} w3" by (rule api_leaves [OF Q l2 3])
    have l4: "leaves L w {p} w4" by (rule api_leaves [OF Q l3 4])
    show ?thesis
      using f Inr InitFifos 3 4 l4 kill_leaves(2) [OF P l3] kill_leaves(2) [OF P l4]
      by (auto simp: initialize_fc_process_def Let_def yields_def split: sum.splits)
  qed
qed

lemma check_instance_leaves:
  assumes P: "fc_procs os N L" and l: "leaves L w {p} w1" and c: "check_instance os sock vm_id p err w1 = (r, w2)"
  shows "leaves L w (case r of Inl e \<Rightarrow> {} | Inr u \<Rightarrow> {p}) w2"
proof -
  obtain r0 w0 where d: "fo_describe os sock w1 = (r0, w0)" by fastforce
  have l0: "leaves L w {p} w0" using l os_quietD(14) [OF fc_procsD(1) [OF P] d] by (auto simp: leaves_def)
  show ?thesis using c d l0 kill_leaves(1) [OF P l0] by (auto simp: check_instance_def split: sum.splits if_splits)
qed

text \<open>Making a TAP device starts no process, and keeps the prefix length.\<close>

lemma create_named_leaves:
  assumes Q: "rtnl_quiet N L"
  shows "leaves L w {} (snd (create_named N name w))"
proof -
  let ?f = "prepare_ifreq name"
  obtain r1 w1 where 1: "nl_set_iff N ?f w = (r1, w1)" by fastforce
  obtain r2 w2 where 2: "nl_set_persist N ?f w1 = (r2, w2)" by fastforce
  have "leaves L w {} w1" "leaves L w {} w2" "leaves L w {} (nl_close N ?f w2)"
    using rtnl_quietD(1) [OF Q, of ?f w] rtnl_quietD(2) [OF Q, of ?f w1] rtnl_quietD(3) [OF Q, of ?f w2] 1 2 by (auto simp: leaves_def)
  then show ?thesis
    using 1 2 by (auto simp: create_named_def create_tap_device_def Let_def split: sum.splits option.splits)
qed

lemma or_delete_leaves:
  assumes Q: "rtnl_quiet N L" and l: "leaves L w {} (snd r)"
  shows "leaves L w {} (snd (or_delete N lk r))"
proof -
  have "leaves L w {} (snd (delete_tap N i (snd r)))" for i
    using l rtnl_quietD(6) [OF Q, of i "snd r"] by (auto simp: delete_tap_def leaves_def split: prod.splits sum.splits)
  then show ?thesis using l by (cases r; cases "fst r") (auto simp: or_delete_def)
qed

lemma then_refresh_leaves: "leaves L w {} (snd r) \<Longrightarrow> leaves L w {} (snd (then_refresh N lk r))"
  by (cases r; cases "fst r") (auto simp: then_refresh_def)

lemma link_steps_leave:
  assumes "rtnl_quiet N L"
  shows "leaves L w {} (snd (ip_addr_add N lk ip n w))" "leaves L w {} (snd (set_link_group N lk w))"
    "leaves L w {} (snd (set_link_up N lk w))" "leaves L w {} (snd (find_mac N mac lk w))"
  using leavesI [of L, OF rtnl_quietD(4) [OF assms]] leavesI [of L, OF rtnl_quietD(5) [OF assms]]
  by (simp_all add: ip_addr_add_def set_link_group_def set_link_up_def set_link_address_def find_mac_cases then_refresh_leaves
      split: option.split)

lemma new_tap_leaves:
  assumes Q: "rtnl_quiet N L"
  shows "leaves L w {} (snd (new_tap N info w))"
  unfolding new_tap_def
  by (rule bindE_leaves [OF create_named_leaves [OF Q]])
    (auto intro!: bindE_leaves or_delete_leaves [OF Q] link_steps_leave [OF Q] split: sum.split prod.split)

lemma tap_build_leaves: "rtnl_quiet N L \<Longrightarrow> tap_build N info w = (r, w') \<Longrightarrow> leaves L w {} w'"
  using new_tap_leaves [of N L w info] by (auto simp: tap_build_def split: prod.splits sum.splits)

lemma new_tap_prefix: "new_tap N info w = (Inr d, w') \<Longrightarrow> ti_prefix (td_info d) = ti_prefix info"
  by (auto simp: new_tap_def bindE_def split: prod.splits sum.splits)

lemma tap_build_prefix: "tap_build N info w = (Inr d, w') \<Longrightarrow> ti_prefix (td_info d) = ti_prefix info"
  using new_tap_prefix by (auto simp: tap_build_def split: prod.splits sum.splits)

section \<open>The operations of the runtime on processes\<close>

lemma bind_on_world:
  assumes "\<And>e w. r = (Inl e, w) \<Longrightarrow> P (Inl (Err (FcErr e)), s\<lparr>fc_world := w\<rparr>)"
    and "\<And>x w. r = (Inr x, w) \<Longrightarrow> P (k x (s\<lparr>fc_world := w\<rparr>))"
  shows "P (bindE (on_world r s) k)"
  using assms by (cases r; cases "fst r") (auto simp: on_world_def)

text \<open>What an attempt to start a uVM comes to: it fails without a trace, or there is one more process.\<close>

definition starts :: "('w \<Rightarrow> 'p set) \<Rightarrow> 'w fc \<Rightarrow> ('w, 'a) fc_result \<Rightarrow> ('a \<Rightarrow> 'p) \<Rightarrow> ('a \<Rightarrow> 'w fc \<Rightarrow> bool) \<Rightarrow> bool" where
  "starts L s x pr Q \<longleftrightarrow>
     (case x of
        (Inl (Panic m), s') \<Rightarrow> False
      | (Inl (Err e), s') \<Rightarrow> leaves L (fc_world s) {} (fc_world s') \<and> fc_uvm_name s' = fc_uvm_name s
      | (Inr v, s') \<Rightarrow> leaves L (fc_world s) {pr v} (fc_world s') \<and> Q v s')"

lemma prefix_to_mask_Some: "n \<le> 32 \<Longrightarrow> \<exists>m. prefix_to_mask n = Some m"
  by (simp add: prefix_to_mask_def)

definition uvm_new :: "'p micro_vm \<Rightarrow> 'w fc \<Rightarrow> bool" where
  "uvm_new v s' \<longleftrightarrow> fc_uvm_name s' = Some (sb_id v) \<and> (\<exists>p. mv_proc v = Some p)"

lemma starts_err: "leaves L (fc_world s) {} w \<Longrightarrow> starts L s (Inl (Err e), s\<lparr>fc_world := w\<rparr>) pr Q"
  by (simp add: starts_def)

lemma fc_boot_uvm_starts:
  assumes P: "fc_procs os N L"
  shows "starts L s (fc_boot_uvm os dir json fid tap s) (\<lambda>v. the (mv_proc v)) uvm_new"
proof -
  let ?vm_id = "ti_name (td_info tap)"
  let ?sock = "path_join dir api_sock_basename" and ?cfg = "path_join dir uvm_config_basename"
  note Q = fc_procsD(1) [OF P]
  obtain r2 w2 where 2: "fo_write os ?cfg json (fc_world s) = (r2, w2)" by fastforce
  have l2: "leaves L (fc_world s) {} w2" using os_quietD(8) [OF Q 2] by (rule leavesI)
  obtain r3 w3 where 3: "initialize_fc_process os (fc_config s) ?sock ?vm_id (InitConfig ?cfg) w2 = (r3, w3)" by fastforce
  note y = initialize_yields [OF P, of w2 "fc_config s" ?sock ?vm_id "InitConfig ?cfg", unfolded 3]
  show ?thesis
  proof (cases r2)
    case (Inl e)
    then show ?thesis using 2 starts_err [OF l2] by (simp add: fc_boot_uvm_def Let_def on_world_def)
  next
    case ok2: (Inr u)
    show ?thesis
    proof (cases r3)
      case (Inl e)
      then have "leaves L (fc_world s) {} w3" using y leaves_trans [OF l2] by (simp add: yields_def)
      then show ?thesis using 2 ok2 3 Inl starts_err by (simp add: fc_boot_uvm_def Let_def on_world_def)
    next
      case ok3: (Inr p)
      then have l3: "leaves L (fc_world s) {p} w3" using y leaves_spawn [OF l2] by (simp add: yields_def)
      obtain r4 w4 where 4: "await_fc_api_server os ?sock p w3 = (r4, w4)" by fastforce
      have l4: "leaves L (fc_world s) {p} w4" by (rule leaves_trans [OF l3 await_leaves [OF Q 4]])
      obtain r5 w5 where 5: "check_instance os ?sock ?vm_id p FcCreateVm w4 = (r5, w5)" by fastforce
      note l5 = check_instance_leaves [OF P l4 5]
      show ?thesis
        using 2 ok2 3 ok3 4 5 kill_leaves(1) [OF P l4] l5
        by (cases r4; cases r5) (simp_all add: fc_boot_uvm_def Let_def on_world_def starts_def uvm_new_def)
    qed
  qed
qed

lemma starts_after: "leaves L (fc_world s) {} w \<Longrightarrow> starts L (s\<lparr>fc_world := w\<rparr>) x pr Q \<Longrightarrow> starts L s x pr Q"
  by (auto simp: starts_def split: prod.splits sum.splits fault.splits intro: leaves_trans leaves_spawn)

lemma fc_create_uvm_starts:
  assumes P: "fc_procs os N L" and p: "ti_prefix (td_info tap) \<le> 32"
  shows "starts L s (fc_create_uvm os fid tap s) (\<lambda>v. the (mv_proc v)) uvm_new"
proof -
  let ?dir = "path_join (cf_uvms_root_path (fc_config s)) (ti_name (td_info tap))"
  obtain r1 w1 where 1: "ensure_files_task os ?dir Creation FcCreateVm (fc_world s) = (r1, w1)" by fastforce
  have l1: "leaves L (fc_world s) {} w1" by (rule ensure_files_task_leaves [OF fc_procsD(1) [OF P] 1])
  have boot: "starts L s (fc_boot_uvm os ?dir json fid tap (s\<lparr>fc_world := w1\<rparr>)) (\<lambda>v. the (mv_proc v)) uvm_new" for json
    by (rule starts_after [OF l1 fc_boot_uvm_starts [OF P]])
  have json: "render_uvm_config os (fc_config s) (fc_function_info s) rootfs tap ?dir (ti_name (td_info tap)) \<noteq> None" for rootfs
    using prefix_to_mask_Some [OF p] by (auto simp: render_uvm_config_def ip_boot_param_def)
  show ?thesis
  proof (cases "fc_registry s fid")
    case None
    then show ?thesis using 1 starts_err [OF l1] by (cases r1) (simp_all add: fc_create_uvm_def Let_def on_world_def)
  next
    case (Some rootfs)
    obtain json where "render_uvm_config os (fc_config s) (fc_function_info s) rootfs tap ?dir (ti_name (td_info tap)) = Some json"
      using json by blast
    then show ?thesis
      using Some 1 starts_err [OF l1] boot by (cases r1) (simp_all add: fc_create_uvm_def Let_def on_world_def)
  qed
qed

lemma fc_restore_uvm_starts:
  assumes P: "fc_procs os N L"
  shows "starts L s (fc_restore_uvm os vm_id snap s) id (\<lambda>p s'. fc_uvm_name s' = fc_uvm_name s)"
proof -
  let ?dir = "path_join (cf_uvms_root_path (fc_config s)) vm_id"
  let ?sock = "path_join ?dir api_sock_basename"
  let ?init = "InitFifos (path_join ?dir logging_fifo_basename) (path_join ?dir metrics_fifo_basename)"
  note Q = fc_procsD(1) [OF P]
  obtain r2 w2 where 2: "ensure_files_task os ?dir Loading FcLoadSnapshot (fc_world s) = (r2, w2)" by fastforce
  have l2: "leaves L (fc_world s) {} w2" by (rule ensure_files_task_leaves [OF Q 2])
  obtain r3 w3 where 3: "initialize_fc_process os (fc_config s) ?sock vm_id ?init w2 = (r3, w3)" by fastforce
  note y = initialize_yields [OF P, of w2 "fc_config s" ?sock vm_id ?init, unfolded 3]
  show ?thesis
  proof (cases r2)
    case (Inl e)
    then show ?thesis using 2 starts_err [OF l2] by (simp add: fc_restore_uvm_def Let_def on_world_def)
  next
    case ok2: (Inr u)
    show ?thesis
    proof (cases r3)
      case (Inl e)
      then have "leaves L (fc_world s) {} w3" using y leaves_trans [OF l2] by (simp add: yields_def)
      then show ?thesis using 2 ok2 3 Inl starts_err by (simp add: fc_restore_uvm_def Let_def on_world_def)
    next
      case ok3: (Inr p)
      then have l3: "leaves L (fc_world s) {p} w3" using y leaves_spawn [OF l2] by (simp add: yields_def)
      obtain r4 w4 where 4: "fo_api os ?sock (LoadSnapshotFrom (sf_state snap) (sf_memory snap)) w3 = (r4, w4)" by fastforce
      have l4: "leaves L (fc_world s) {p} w4" by (rule api_leaves [OF Q l3 4])
      obtain r5 w5 where 5: "check_instance os ?sock vm_id p FcLoadSnapshot w4 = (r5, w5)" by fastforce
      note l5 = check_instance_leaves [OF P l4 5]
      show ?thesis
        using 2 ok2 3 ok3 4 5 kill_leaves(1) [OF P l4] l5
        by (cases r4; cases r5) (simp_all add: fc_restore_uvm_def Let_def on_world_def starts_def)
    qed
  qed
qed

section \<open>A worker's use of the runtime\<close>

text \<open>The calls of the owner of at most one sandbox. \<open>EvOthers\<close> is what happens in between: the processes may
  end by themselves, and functions are registered.\<close>

datatype ('w, 'p) fc_event =
  EvCreate function_id tap timings
| EvLoad
| EvPause
| EvResume
| EvSnapshot string string
| EvShutdown
| EvCpuset cpu
| EvUncache
| EvDestroy
| EvOthers 'w "function_id \<rightharpoonup> string"

fun fc_event_ok :: "('w \<Rightarrow> 'p set) \<Rightarrow> ('w, 'p) fc_event \<Rightarrow> 'p micro_vm option \<Rightarrow> 'w fc \<Rightarrow> bool" where
  "fc_event_ok live (EvCreate fid net tm) u s \<longleftrightarrow> u = None \<and> ti_prefix (tap_info_of net) \<le> 32"
| "fc_event_ok live EvLoad u s \<longleftrightarrow> (\<exists>v. u = Some v \<and> mv_proc v = None)"
| "fc_event_ok live (EvOthers w reg) u s \<longleftrightarrow> live w \<subseteq> live (fc_world s)"
| "fc_event_ok live ev u s \<longleftrightarrow> u \<noteq> None"

definition on_uvm :: "('p micro_vm \<Rightarrow> 'w fc \<Rightarrow> (fc_failure fault + unit) \<times> 'p micro_vm \<times> 'w fc) \<Rightarrow> 'p micro_vm option \<Rightarrow> 'w fc
    \<Rightarrow> (fc_failure fault + unit) \<times> 'p micro_vm option \<times> 'w fc" where
  "on_uvm f u s = (case u of None \<Rightarrow> (Inr (), None, s) | Some v \<Rightarrow> (case f v s of (r, v, s) \<Rightarrow> (r, Some v, s)))"

fun fc_event_step :: "('w, 'p) fc_os \<Rightarrow> 'w rtnl \<Rightarrow> ('w, 'p) fc_event \<Rightarrow> 'p micro_vm option \<Rightarrow> 'w fc
    \<Rightarrow> (fc_failure fault + unit) \<times> 'p micro_vm option \<times> 'w fc" where
  "fc_event_step os N (EvCreate fid net tm) u s =
     (case fc_create_sandbox os N fid net tm s of (Inl e, _, s) \<Rightarrow> (Inl e, None, s) | (Inr v, _, s) \<Rightarrow> (Inr (), Some v, s))"
| "fc_event_step os N EvLoad u s = on_uvm (fc_load_sandbox os) u s"
| "fc_event_step os N EvPause u s = on_uvm (fc_pause_sandbox os) u s"
| "fc_event_step os N EvResume u s = on_uvm (fc_resume_sandbox os) u s"
| "fc_event_step os N (EvSnapshot p q) u s = on_uvm (fc_create_snapshot os p q) u s"
| "fc_event_step os N EvShutdown u s = on_uvm (fc_shutdown_sandbox os) u s"
| "fc_event_step os N (EvCpuset c) u s = on_uvm (fc_setup_cpuset os c) u s"
| "fc_event_step os N EvUncache u s = on_uvm (fc_uncache_sandbox os) u s"
| "fc_event_step os N EvDestroy u s =
     (case u of
        None \<Rightarrow> (Inr (), None, s)
      | Some v \<Rightarrow> (case fc_destroy_sandbox os v s of (Inl e, s) \<Rightarrow> (Inl e, u, s) | (Inr _, s) \<Rightarrow> (Inr (), None, s)))"
| "fc_event_step os N (EvOthers w reg) u s = (Inr (), u, s\<lparr>fc_world := w, fc_registry := reg\<rparr>)"

text \<open>A run; \<open>None\<close> when a call is out of place. A panic ends it.\<close>

fun fc_session :: "('w, 'p) fc_os \<Rightarrow> 'w rtnl \<Rightarrow> ('w \<Rightarrow> 'p set) \<Rightarrow> ('w, 'p) fc_event list \<Rightarrow> 'p micro_vm option \<Rightarrow> 'w fc
    \<Rightarrow> ((string + unit) \<times> 'p micro_vm option \<times> 'w fc) option" where
  "fc_session os N live [] u s = Some (Inr (), u, s)"
| "fc_session os N live (ev # evs) u s =
     (if fc_event_ok live ev u s
      then
        (case fc_event_step os N ev u s of
           (Inl (Panic m), u, s) \<Rightarrow> Some (Inl m, u, s)
         | (_, u, s) \<Rightarrow> fc_session os N live evs u s)
      else None)"

fun uvm_procs :: "'p micro_vm option \<Rightarrow> 'p set" where
  "uvm_procs None = {}"
| "uvm_procs (Some v) = set_option (mv_proc v)"

definition fc_owns :: "('w \<Rightarrow> 'p set) \<Rightarrow> 'p micro_vm option \<Rightarrow> 'w fc \<Rightarrow> bool" where
  "fc_owns L u s \<longleftrightarrow> L (fc_world s) \<subseteq> uvm_procs u \<and> (\<forall>v. u = Some v \<longrightarrow> fc_uvm_name s = Some (sb_id v))"

definition fc_keeps :: "('w \<Rightarrow> 'p set) \<Rightarrow> (fc_failure fault + unit) \<times> 'p micro_vm option \<times> 'w fc \<Rightarrow> bool" where
  "fc_keeps L x \<longleftrightarrow> (case x of (r, u, s) \<Rightarrow> fc_owns L u s \<and> (\<forall>m. r \<noteq> Inl (Panic m)))"

lemma fc_patch_vm_ok:
  assumes "os_quiet os L" "fc_patch_vm os v err s = (r, s')"
  shows "L (fc_world s') \<subseteq> L (fc_world s) \<and> fc_uvm_name s' = fc_uvm_name s \<and> (\<forall>m. r \<noteq> Inl (Panic m))"
  using assms(2) by (auto simp: fc_patch_vm_def on_world_def split: option.splits prod.splits sum.splits dest!: os_quietD(13) [OF assms(1)])

lemma fc_remove_files_leaves:
  assumes Q: "os_quiet os L"
  shows "L (fc_remove_files os dir snap w) \<subseteq> L w"
  using os_quietD(6,7) [OF Q] by (auto simp: fc_remove_files_def Let_def split: option.splits) blast+

lemma fforget_leaves: "os_quiet os L \<Longrightarrow> L (fforget_file os p w) \<subseteq> L w"
  using os_quietD(9) [of os L] by (auto simp: fforget_file_def split: prod.splits sum.splits)

lemma create_keeps:
  assumes P: "fc_procs os N L" and o: "fc_owns L None s" and p: "ti_prefix (tap_info_of net) \<le> 32"
  shows "fc_keeps L (fc_event_step os N (EvCreate fid net tm) u s)"
proof -
  have l0: "L (fc_world s) = {}" using o by (simp add: fc_owns_def)
  obtain r1 w1 where 1: "(case net of Device d \<Rightarrow> (Inr d, fc_world s) | Builder i \<Rightarrow> tap_build N i (fc_world s)) = (r1, w1)" by fastforce
  have l1: "L w1 = {}"
    using 1 l0 tap_build_leaves [OF fc_procsD(2) [OF P], of _ "fc_world s" r1 w1] by (cases net) (auto simp: leaves_def)
  show ?thesis
  proof (cases r1)
    case (Inl e)
    then show ?thesis using 1 l1 by (simp add: fc_create_sandbox_def Let_def fc_keeps_def fc_owns_def)
  next
    case (Inr tap)
    then have "ti_prefix (td_info tap) \<le> 32" using 1 p tap_build_prefix [of N _ "fc_world s" tap w1] by (cases net) auto
    note S = fc_create_uvm_starts [OF P this, of "s\<lparr>fc_world := w1\<rparr>" fid]
    obtain r2 s2 where 2: "fc_create_uvm os fid tap (s\<lparr>fc_world := w1\<rparr>) = (r2, s2)" by fastforce
    show ?thesis
      using 1 Inr 2 S l1
      by (cases r2) (auto simp: fc_create_sandbox_def Let_def fc_keeps_def fc_owns_def starts_def leaves_def uvm_new_def split: fault.splits)
  qed
qed

lemma load_keeps:
  assumes P: "fc_procs os N L" and o: "fc_owns L (Some v) s" and p: "mv_proc v = None"
  shows "fc_keeps L (fc_event_step os N EvLoad (Some v) s)"
proof (cases "mv_snapshot v")
  case None
  then show ?thesis using o by (simp add: on_uvm_def fc_load_sandbox_def fc_keeps_def)
next
  case (Some snap)
  have l0: "L (fc_world s) = {}" "fc_uvm_name s = Some (sb_id v)" using o p by (simp_all add: fc_owns_def)
  note S = fc_restore_uvm_starts [OF P, of s "sb_id v" snap]
  obtain r2 s2 where 2: "fc_restore_uvm os (sb_id v) snap s = (r2, s2)" by fastforce
  show ?thesis
    using Some l0 S 2 p
    by (cases r2) (auto simp: on_uvm_def fc_load_sandbox_def fc_keeps_def fc_owns_def starts_def leaves_def split: fault.splits)
qed

lemma destroy_keeps:
  assumes P: "fc_procs os N L" and o: "fc_owns L (Some v) s"
  shows "fc_keeps L (fc_event_step os N EvDestroy (Some v) s)"
proof -
  let ?w = "case mv_proc v of None \<Rightarrow> fc_world s | Some p \<Rightarrow> kill_and_wait os p (fc_world s)"
  have "L ?w = {}" using o fc_procsD(3) [OF P, of _ "fc_world s"] by (fastforce simp: fc_owns_def split: option.splits)
  then have "L (fc_remove_files os d f ?w) = {}" for d f using fc_remove_files_leaves [OF fc_procsD(1) [OF P], of d f ?w] by simp
  then show ?thesis using o by (simp add: fc_destroy_sandbox_def Let_def fc_keeps_def fc_owns_def)
qed

lemma event_keeps:
  assumes P: "fc_procs os N L" and o: "fc_owns L u s" and k: "fc_event_ok live ev u s"
    and L: "\<And>w. live w \<subseteq> live (fc_world s) \<Longrightarrow> L w \<subseteq> L (fc_world s)"
  shows "fc_keeps L (fc_event_step os N ev u s)"
proof -
  note Q = fc_procsD(1) [OF P]
  show ?thesis
  proof (cases ev)
    case (EvCreate fid net tm)
    then show ?thesis using create_keeps [OF P] o k by simp
  next
    case EvLoad
    then show ?thesis using load_keeps [OF P] o k by auto
  next
    case EvDestroy
    then show ?thesis using destroy_keeps [OF P] o k by auto
  next
    case (EvOthers w reg)
    then show ?thesis using o k L [of w] by (auto simp: fc_keeps_def fc_owns_def)
  next
    case EvPause
    then obtain v where v: "u = Some v" using k by auto
    obtain r s' where e: "fc_patch_vm os PatchPaused FcPauseVm s = (r, s')" by fastforce
    show ?thesis using EvPause v e o fc_patch_vm_ok [OF Q e] by (auto simp: on_uvm_def fc_pause_sandbox_def fc_keeps_def fc_owns_def)
  next
    case EvResume
    then obtain v where v: "u = Some v" using k by auto
    obtain r s' where e: "fc_patch_vm os PatchResumed FcResumeVm s = (r, s')" by fastforce
    show ?thesis using EvResume v e o fc_patch_vm_ok [OF Q e] by (auto simp: on_uvm_def fc_resume_sandbox_def fc_keeps_def fc_owns_def)
  next
    case (EvSnapshot p q)
    then obtain v where v: "u = Some v" using k by auto
    have "L w' \<subseteq> L (fc_world s)" if "fo_api os sock req (fc_world s) = (r, w')" for sock req r w' by (rule os_quietD(13) [OF Q that])
    then show ?thesis
      using EvSnapshot v o by (fastforce simp: on_uvm_def fc_create_snapshot_def fc_keeps_def fc_owns_def split: option.splits prod.splits sum.splits)
  next
    case EvShutdown
    then obtain v where v: "u = Some v" using k by auto
    show ?thesis
      using EvShutdown v o fc_procsD(3) [OF P, of _ "fc_world s"]
      by (cases "mv_proc v") (fastforce simp: on_uvm_def fc_shutdown_sandbox_def fc_keeps_def fc_owns_def)+
  next
    case (EvCpuset c)
    then obtain v where v: "u = Some v" using k by auto
    have "L (snd (fo_setaffinity os pid c (fc_world s))) \<subseteq> L (fc_world s)" for pid by (rule os_quietD(11) [OF Q])
    then show ?thesis using EvCpuset v o by (fastforce simp: on_uvm_def fc_setup_cpuset_def fc_keeps_def fc_owns_def split: option.splits)
  next
    case EvUncache
    then obtain v where v: "u = Some v" using k by auto
    have "L (fforget_file os a (fforget_file os b (fc_world s))) \<subseteq> L (fc_world s)" for a b using fforget_leaves [OF Q] by blast
    then show ?thesis using EvUncache v o by (fastforce simp: on_uvm_def fc_uncache_sandbox_def fc_keeps_def fc_owns_def split: option.splits)
  qed
qed

lemma session_keeps:
  assumes P: "fc_procs os N L" and L: "\<And>w w'. live w' \<subseteq> live w \<Longrightarrow> L w' \<subseteq> L w"
  shows "fc_owns L u s \<Longrightarrow> fc_session os N live evs u s = Some (r, u', s') \<Longrightarrow> r = Inr () \<and> fc_owns L u' s'"
proof (induction evs arbitrary: u s)
  case (Cons ev evs)
  have k: "fc_event_ok live ev u s" using Cons.prems(2) by (simp split: if_splits)
  obtain r1 u1 s1 where e: "fc_event_step os N ev u s = (r1, u1, s1)" by (metis prod_cases3)
  have "fc_keeps L (r1, u1, s1)" using event_keeps [OF P Cons.prems(1) k L] e by simp
  then show ?case
    using Cons.prems(2) Cons.IH [of u1 s1] k e by (auto simp: fc_keeps_def split: sum.splits fault.splits)
qed simp

end
