(* ===== verification/Fc_Props.thy ===== *)
theory Fc_Props
  imports Fc_Inv
begin


section \<open>The delays\<close>

fun await_delays :: "nat \<Rightarrow> duration \<Rightarrow> duration \<Rightarrow> duration list" where
  "await_delays 0 prev delay = []"
| "await_delays (Suc n) prev delay = (if n > 0 then delay # await_delays n delay (min (prev + delay) max_delay) else [])"

text \<open>Two meters on the system: the time that sleeps were asked for, and how often a connection was tried.\<close>

definition meter_spec :: "('w, 'p) fc_os \<Rightarrow> ('w \<Rightarrow> duration) \<Rightarrow> ('w \<Rightarrow> nat) \<Rightarrow> bool" where
  "meter_spec os slept tried \<longleftrightarrow>
     (\<forall>w. (\<forall>d. slept (fo_sleep os d w) = slept w + d \<and> tried (fo_sleep os d w) = tried w)
        \<and> (\<forall>p. slept (snd (fo_try_wait os p w)) = slept w \<and> tried (snd (fo_try_wait os p w)) = tried w)
        \<and> (\<forall>sock. slept (snd (fo_connect os sock w)) = slept w \<and> tried (snd (fo_connect os sock w)) = Suc (tried w)))"

lemma meterD:
  assumes "meter_spec os slept tried"
  shows "slept (fo_sleep os d w) = slept w + d" "tried (fo_sleep os d w) = tried w"
    "fo_try_wait os p w = (r, w') \<Longrightarrow> slept w' = slept w \<and> tried w' = tried w"
    "fo_connect os sock w = (q, w') \<Longrightarrow> slept w' = slept w \<and> tried w' = Suc (tried w)"
  using assms unfolding meter_spec_def by (simp, simp, metis snd_conv, metis snd_conv)

lemma await_loop_meters:
  assumes M: "meter_spec os slept tried" and "await_loop os sock p n prev delay e w = (r, w')"
  shows "slept w' \<le> slept w + sum_list (await_delays n prev delay) \<and> tried w' \<le> tried w + n
    \<and> ((\<forall>u. fst (fo_try_wait os p u) = Inr None) \<and> r \<noteq> Inr ()
       \<longrightarrow> slept w' = slept w + sum_list (await_delays n prev delay) \<and> tried w' = tried w + n)"
  using assms(2)
proof (induction n arbitrary: prev delay e w)
  case 0
  then show ?case by (auto dest: meterD(3) [OF M] split: prod.splits sum.splits option.splits)
next
  case (Suc n)
  obtain r1 w1 where 1: "fo_try_wait os p w = (r1, w1)" by fastforce
  obtain r2 w2 where 2: "fo_connect os sock w1 = (r2, w2)" by fastforce
  note m = meterD(3) [OF M 1] meterD(4) [OF M 2] meterD(1, 2) [OF M]
  have alive: "(\<forall>u. fst (fo_try_wait os p u) = Inr None) \<Longrightarrow> r1 = Inr None" using 1 by (metis fst_conv)
  show ?case
  proof (cases "r1 = Inr None \<and> (\<exists>x. r2 = Inl x)")
    case True
    then obtain x where x: "r1 = Inr None" "r2 = Inl x" by blast
    then show ?thesis
      using Suc.prems Suc.IH [of delay "min (prev + delay) max_delay" "Some x" "fo_sleep os delay w2"]
        Suc.IH [of prev delay "Some x" w2] m by (cases "n = 0") (simp_all add: 1 2)
  next
    case False
    then show ?thesis using Suc.prems m alive by (auto simp: 1 2 simp del: await_delays.simps split: sum.splits option.splits if_splits)
  qed
qed

lemma await_delays_numeral:
  "await_delays (numeral n) prev delay =
     (if pred_numeral n > 0 then delay # await_delays (pred_numeral n) delay (min (prev + delay) max_delay) else [])"
  by (simp add: numeral_eq_Suc)

lemma await_loop_numeral:
  "await_loop os sock p (numeral n) prev delay lasterr w =
     (case fo_try_wait os p w of
        (Inl e, w) \<Rightarrow> (Inl e, w)
      | (Inr (Some _), w) \<Rightarrow> (Inl exited_early, w)
      | (Inr None, w) \<Rightarrow>
          (case fo_connect os sock w of
             (Inr _, w) \<Rightarrow> (Inr (), w)
           | (Inl e, w) \<Rightarrow>
               if pred_numeral n > 0
               then await_loop os sock p (pred_numeral n) delay (min (prev + delay) max_delay) (Some e) (fo_sleep os delay w)
               else await_loop os sock p (pred_numeral n) prev delay (Some e) w))"
  by (simp add: numeral_eq_Suc)

lemma await_delays_total: "sum_list (await_delays max_attempts 0 500000) = 136500000"
  by (simp add: max_attempts_def await_delays_numeral max_delay_def)

section \<open>A concrete system\<close>

text \<open>A world in which nothing fails and at most one process runs, for the uVM \<open>vm\<close>; its API server can be
  reached or not.\<close>

record demo_world =
  dw_alive :: bool
  dw_nodes :: "string \<rightharpoonup> fs_node"
  dw_now :: instant
  dw_tries :: nat

definition demo_ok :: "demo_world \<Rightarrow> ('e + unit) \<times> demo_world" where
  "demo_ok w = (Inr (), w)"

definition demo_mkdir :: "string \<Rightarrow> demo_world \<Rightarrow> (fs_errno + unit) \<times> demo_world" where
  "demo_mkdir d w = (if dw_nodes w = Map.empty then (Inr (), w\<lparr>dw_nodes := [d \<mapsto> OtherNode]\<rparr>) else (Inl EEXIST, w))"

definition demo_mkfifo :: "string \<Rightarrow> demo_world \<Rightarrow> (fs_errno + unit) \<times> demo_world" where
  "demo_mkfifo p w = (if dw_nodes w p = None then (Inr (), w\<lparr>dw_nodes := (dw_nodes w)(p \<mapsto> Fifo)\<rparr>) else (Inl EEXIST, w))"

definition demo_unlink :: "string \<Rightarrow> demo_world \<Rightarrow> (fs_errno + unit) \<times> demo_world" where
  "demo_unlink p w = (if dw_nodes w p = None then (Inl ENOENT, w) else (Inr (), w\<lparr>dw_nodes := (dw_nodes w)(p := None)\<rparr>))"

definition demo_os :: "string \<Rightarrow> bool \<Rightarrow> (demo_world, unit) fc_os" where
  "demo_os vm reachable =
     \<lparr>fo_now = dw_now, fo_sleep = (\<lambda>d w. w\<lparr>dw_now := dw_now w + d\<rparr>), fo_join = (\<lambda>_. Inr ()), fo_create_dir_all = (\<lambda>_. demo_ok),
      fo_mkdir = demo_mkdir, fo_open_dir = (\<lambda>_ _. Inr ()), fo_mkfifo = demo_mkfifo,
      fo_is_fifo = (\<lambda>p w. Inr (dw_nodes w p = Some Fifo)), fo_unlink = demo_unlink, fo_remove_dir_all = (\<lambda>_. demo_ok),
      fo_write = (\<lambda>_ _. demo_ok), fo_metadata = (\<lambda>_ _. Inr ()), fo_file_len = (\<lambda>_ _. (Inr (), Inr 0)), fo_fadvise = (\<lambda>_ _. demo_ok),
      fo_spawn = (\<lambda>_ _ w. (Inr (), w\<lparr>dw_alive := True\<rparr>)), fo_pidfd = (\<lambda>_ _. Inr ()), fo_kill = (\<lambda>_ w. (Inr (), w\<lparr>dw_alive := False\<rparr>)),
      fo_try_wait = (\<lambda>_ w. (Inr None, w)), fo_pid = (\<lambda>_ _. Some 42), fo_setaffinity = (\<lambda>_ _. demo_ok),
      fo_connect = (\<lambda>_ w. (if reachable then Inr () else Inl (IoOther ''ENOENT''), w\<lparr>dw_tries := Suc (dw_tries w)\<rparr>)), fo_api = (\<lambda>_ _. demo_ok),
      fo_describe = (\<lambda>_ w. (Inr \<lparr>ii_id = vm, ii_state = VmRunning\<rparr>, w)), fo_hash = (\<lambda>_. 0), fo_replace_all = (\<lambda>_ t _. t)\<rparr>"



lemma demo_fs: "fc_fs_spec (demo_os vm reachable) dw_nodes"
  by (auto simp: fc_fs_spec_def mkdir_spec_def node_spec_def demo_os_def demo_mkdir_def demo_mkfifo_def demo_unlink_def split: prod.splits)

lemma demo_meters: "meter_spec (demo_os vm reachable) dw_now dw_tries"
  by (simp add: meter_spec_def demo_os_def)


definition demo_world0 :: demo_world where
  "demo_world0 = \<lparr>dw_alive = False, dw_nodes = Map.empty, dw_now = 0, dw_tries = 0\<rparr>"



lemmas demo_defs = demo_os_def demo_ok_def demo_mkdir_def demo_mkfifo_def demo_unlink_def demo_world0_def

lemma demo_files: "\<exists>w'. ensure_uvm_files (demo_os vm b) ''/uvms/uvm-1'' mode demo_world0 = (Inr (), w') \<and> \<not> dw_alive w'"
  by (simp add: ensure_uvm_files_def ensure_fifo_def demo_defs path_join_def basename_defs)

lemma demo_await: "\<exists>e w'. await_fc_api_server (demo_os vm False) sock p demo_world0 = (Inl e, w')"
  by (simp add: await_fc_api_server_def max_attempts_def await_loop_numeral demo_defs max_delay_def)

lemma utf8_demo: "utf8 (map of_char ''/s'')" "utf8 (map of_char ''/m'')"
  by (simp_all add: utf8.simps)


section \<open>Properties\<close>



text \<open>C20. The preparation of the directory of a uVM gives two pipes for the log and the metrics, no stale
  sockets, and for a new uVM no stale configuration, whatever was there before; nothing else changes.\<close>

theorem fc_files_ready:
  assumes "fc_fs_spec os nodes" "ensure_uvm_files os dir mode w = (r, w')"
  shows "(\<forall>q. q \<noteq> dir \<and> q \<notin> set (uvm_paths dir) \<longrightarrow> nodes w' q = nodes w q) \<and> (r = Inr () \<longrightarrow> uvm_files_ready nodes dir mode w')"
  using ensure_files_outcome [OF assms(1), of dir mode w] assms(2) by (simp add: files_outcome_def only_changes_def)

theorem fc_files_ready_witness:
  "\<exists>w'. ensure_uvm_files (demo_os ''uvm-1'' True) ''/uvms/uvm-1'' Creation demo_world0 = (Inr (), w')
     \<and> uvm_files_ready dw_nodes ''/uvms/uvm-1'' Creation w'"
proof -
  obtain w' where e: "ensure_uvm_files (demo_os ''uvm-1'' True) ''/uvms/uvm-1'' Creation demo_world0 = (Inr (), w')"
    using demo_files by blast
  then show ?thesis using fc_files_ready [OF demo_fs e] by blast
qed

text \<open>C37. The wait for the API server asks for at most 136.5 ms of sleep and tries to connect at most 20
  times; while the process runs it does not give up before it has used up both.\<close>

theorem fc_await_bounded:
  assumes "meter_spec os slept tried" "await_fc_api_server os sock p w = (r, w')"
  shows "slept w' \<le> slept w + 136500000 \<and> tried w' \<le> tried w + 20
    \<and> ((\<forall>u. fst (fo_try_wait os p u) = Inr None) \<and> r \<noteq> Inr () \<longrightarrow> slept w' = slept w + 136500000 \<and> tried w' = tried w + 20)"
  using await_loop_meters [OF assms(1) assms(2) [unfolded await_fc_api_server_def]] unfolding await_delays_total by (simp add: max_attempts_def)

theorem fc_await_bounded_witness:
  "\<exists>e w'. await_fc_api_server (demo_os ''uvm-1'' False) ''/api.sock'' () demo_world0 = (Inl e, w') \<and> dw_now w' = 136500000 \<and> dw_tries w' = 20"
proof -
  obtain e w' where e: "await_fc_api_server (demo_os ''uvm-1'' False) ''/api.sock'' () demo_world0 = (Inl e, w')"
    using demo_await by blast
  have "\<forall>u. fst (fo_try_wait (demo_os ''uvm-1'' False) () u) = Inr None" by (simp add: demo_os_def)
  then show ?thesis using fc_await_bounded [OF demo_meters e] e by (simp add: demo_world0_def)
qed

text \<open>A snapshotted sandbox that is stored and reinstated with its device has the same id, counters and
  snapshot, and can be loaded by a new runtime.\<close>

lemma fc_reinstates:
  assumes "mv_snapshot v = Some f" "sb_id v = ti_name (td_info (mv_tap v))" "td_info d = td_info (mv_tap v)"
  shows "\<exists>st v'. fc_snapshot_state v = Some (Inr st) \<and> micro_vm_state_id st = sb_id v
    \<and> fc_reinstate_sandbox N (mv_function_id v) st (NetOk (Device d)) s = (Some (Inr v'), s)
    \<and> v' = v\<lparr>mv_tap := d, mv_proc := None\<rparr>
    \<and> fc_snapshot_state v' = Some (Inr st) \<and> fc_uvm_name (fc_new cf ff (Some v') reg made w) = Some (sb_id v)"
  using assms by (simp add: fc_snapshot_state_def micro_vm_state_id_def fc_reinstate_sandbox_def Let_def fc_new_def)

end
