(* ===== verification/Dash.thy ===== *)
theory Dash
  imports Fmd_Store "HOL-Library.Multiset"
begin

text \<open>
  \<^verbatim>\<open>metadata/store/dash.rs\<close>: the store over the concurrent map \<^verbatim>\<open>DashMap\<close>, which is not part of the
  repository. Of the map the code uses the operations \<open>dash_ops\<close>: what is stored under a key, storing
  (through an entry or a mutable reference), removing, and iterating. A method that holds a reference or an
  entry is atomic; iterating is not, since the map is locked piece by piece. What an iteration yields while
  others work is therefore an argument \<open>vs\<close> of the methods that iterate; with nobody else at work it is
  \<open>dm_iter D m\<close>.

  The store behaves as the one over the standard hash map as long as the calls do not overlap, and every
  transition takes effect at one moment however they overlap.
\<close>

section \<open>The map\<close>

record 'm dash_ops =
  dm_get :: "'m \<Rightarrow> function_id \<rightharpoonup> fmd"
  dm_put :: "function_id \<Rightarrow> fmd \<Rightarrow> 'm \<Rightarrow> 'm"
  dm_remove :: "function_id \<Rightarrow> 'm \<Rightarrow> 'm"
  dm_iter :: "'m \<Rightarrow> (function_id \<times> fmd) list"

definition dash_spec :: "'m dash_ops \<Rightarrow> bool" where
  "dash_spec D \<longleftrightarrow>
     (\<forall>m. (\<forall>k v. dm_get D (dm_put D k v m) = (dm_get D m)(k \<mapsto> v))
        \<and> (\<forall>k. dm_get D (dm_remove D k m) = (dm_get D m)(k := None))
        \<and> distinct (keys (dm_iter D m)) \<and> map_of (dm_iter D m) = dm_get D m)"

lemma dash_specD:
  assumes "dash_spec D"
  shows "dm_get D (dm_put D k v m) = (dm_get D m)(k \<mapsto> v)" "dm_get D (dm_remove D k m) = (dm_get D m)(k := None)"
    "distinct (keys (dm_iter D m))" "map_of (dm_iter D m) = dm_get D m"
  using assms by (simp_all add: dash_spec_def)

section \<open>General methods and registration\<close>

definition dash_function_exists :: "'m dash_ops \<Rightarrow> function_id \<Rightarrow> 'm \<Rightarrow> bool" where
  "dash_function_exists D fid m \<longleftrightarrow> dm_get D m fid \<noteq> None"

definition dash_get :: "'m dash_ops \<Rightarrow> function_id \<Rightarrow> 'm \<Rightarrow> store_error fault + fmd" where
  "dash_get D fid m = (case dm_get D m fid of None \<Rightarrow> Inl (Panic ''function should already exist'') | Some f \<Rightarrow> Inr f)"

definition dash_function_memory :: "'m dash_ops \<Rightarrow> function_id \<Rightarrow> 'm \<Rightarrow> store_error fault + nat" where
  "dash_function_memory D fid m = map_sum id (\<lambda>f. fi_memory (rf_info (fmd_function f))) (dash_get D fid m)"

definition dash_registered_function :: "'m dash_ops \<Rightarrow> function_id \<Rightarrow> 'm \<Rightarrow> store_error fault + registered_function" where
  "dash_registered_function D fid m = map_sum id fmd_function (dash_get D fid m)"

definition dash_function_stats :: "'m dash_ops \<Rightarrow> function_id \<Rightarrow> 'm \<Rightarrow> store_error fault + function_stats" where
  "dash_function_stats D fid m = map_sum id fmd_stats (dash_get D fid m)"

definition dash_register_function :: "'m dash_ops \<Rightarrow> registered_function \<Rightarrow> 'm \<Rightarrow> (registration_error + unit) \<times> 'm" where
  "dash_register_function D rf m =
     (let fid = fi_id (rf_info rf) in
      case dm_get D m fid of
        None \<Rightarrow> (Inr (), dm_put D fid (fmd_new rf) m)
      | Some _ \<Rightarrow> (Inl (AlreadyExists fid), m))"

definition dash_deregister_function ::
  "'m dash_ops \<Rightarrow> function_id \<Rightarrow> 'm \<Rightarrow> (registration_error + registered_function) \<times> 'm" where
  "dash_deregister_function D fid m =
     (case dm_get D m fid of
        None \<Rightarrow> (Inl (NotFound fid), m)
      | Some f \<Rightarrow>
          (let n = length (active_workers f) + length (idle_workers f) + length (dying_workers f) in
           if n > 0 then (Inl (InUse fid n), m)
           else (Inr (fmd_function f), dm_remove D fid m)))"

section \<open>Worker sets\<close>

text \<open>The methods for the three classes have the same bodies up to the field they work on.\<close>

definition dash_find_worker :: "wclass \<Rightarrow> worker_id \<Rightarrow> (function_id \<times> fmd) list \<Rightarrow> function_id option" where
  "dash_find_worker c w vs = map_option fst (List.find (\<lambda>(fid, f). w \<in> set (workers c f)) vs)"

definition dash_remove_worker ::
  "'m dash_ops \<Rightarrow> wclass \<Rightarrow> worker_id \<Rightarrow> function_id \<Rightarrow> 'm \<Rightarrow> (store_error fault + bool) \<times> 'm" where
  "dash_remove_worker D c w fid m =
     (case dm_get D m fid of
        None \<Rightarrow> (Inl (Panic ''function should already exist''), m)
      | Some f \<Rightarrow> (case hs_remove w (workers c f) of (found, ws) \<Rightarrow> (Inr found, dm_put D fid (set_workers c ws f) m)))"

definition dash_insert_worker ::
  "'m dash_ops \<Rightarrow> wclass \<Rightarrow> worker_id \<Rightarrow> function_id \<Rightarrow> 'm \<Rightarrow> (store_error fault + unit) \<times> 'm" where
  "dash_insert_worker D c w fid m =
     (case dm_get D m fid of
        None \<Rightarrow> (Inl (Panic ''function should already exist''), m)
      | Some f \<Rightarrow>
          (case hs_insert w (workers c f) of
             (new, ws) \<Rightarrow>
               (if new then Inr () else Inl (Err (WorkerIdCollision w)), dm_put D fid (set_workers c ws f) m)))"

definition dash_find_remove_worker ::
  "'m dash_ops \<Rightarrow> wclass \<Rightarrow> worker_id \<Rightarrow> (function_id \<times> fmd) list \<Rightarrow> 'm \<Rightarrow> (store_error fault + function_id option) \<times> 'm" where
  "dash_find_remove_worker D c w vs m =
     (case dash_find_worker c w vs of
        None \<Rightarrow> (Inr None, m)
      | Some fid \<Rightarrow> bindE (dash_remove_worker D c w fid m) (\<lambda>found m. (Inr (if found then Some fid else None), m)))"

definition dash_num_workers :: "'m dash_ops \<Rightarrow> wclass \<Rightarrow> function_id option \<Rightarrow> (function_id \<times> fmd) list \<Rightarrow> 'm \<Rightarrow> nat" where
  "dash_num_workers D c fo vs m =
     (case fo of
        None \<Rightarrow> sum_list (map (\<lambda>(_, f). length (workers c f)) vs)
      | Some fid \<Rightarrow> (case dm_get D m fid of None \<Rightarrow> 0 | Some f \<Rightarrow> length (workers c f)))"

definition dash_by_function :: "wclass \<Rightarrow> (function_id \<times> fmd) list \<Rightarrow> (function_id \<times> worker_id list) list" where
  "dash_by_function c vs = map (\<lambda>(fid, f). (fid, workers c f)) vs"

definition dash_iter_workers :: "wclass \<Rightarrow> (function_id \<times> fmd) list \<Rightarrow> (function_id \<times> worker_id) list" where
  "dash_iter_workers c vs = concat (map (\<lambda>(fid, ws). map (Pair fid) ws) (dash_by_function c vs))"

text \<open>Three iterations, one after the other.\<close>

definition dash_iter_all ::
  "(function_id \<times> fmd) list \<Rightarrow> (function_id \<times> fmd) list \<Rightarrow> (function_id \<times> fmd) list \<Rightarrow> (function_id \<times> worker_id) list" where
  "dash_iter_all vs1 vs2 vs3 = dash_iter_workers Idle vs1 @ dash_iter_workers Active vs2 @ dash_iter_workers Dying vs3"

section \<open>Transitions\<close>

definition dash_move_worker ::
  "'m dash_ops \<Rightarrow> wclass \<Rightarrow> wclass \<Rightarrow> worker_id \<Rightarrow> function_id option \<Rightarrow> (function_id \<times> fmd) list \<Rightarrow> 'm
    \<Rightarrow> (store_error fault + unit) \<times> 'm" where
  "dash_move_worker D c c' w fo vs m =
     (case (case fo of None \<Rightarrow> dash_find_worker c w vs | Some fid \<Rightarrow> Some fid) of
        None \<Rightarrow> (Inl (Err (WorkerNotFound w (no_such c))), m)
      | Some fid \<Rightarrow>
          (case dm_get D m fid of
             None \<Rightarrow> (Inl (Err (FunctionNotFound fid)), m)
           | Some f \<Rightarrow>
               (case hs_remove w (workers c f) of
                  (False, _) \<Rightarrow> (Inl (Err (WorkerNotFound w (no_such c))), m)
                | (True, ws) \<Rightarrow>
                    (case hs_insert w (workers c' (set_workers c ws f)) of
                       (new, ws') \<Rightarrow>
                         (if new then Inr () else Inl (Err (WorkerIdCollision w)),
                          dm_put D fid (set_workers c' ws' (set_workers c ws f)) m)))))"

definition dash_active_to_idle :: "'m dash_ops \<Rightarrow> worker_id \<Rightarrow> function_id option \<Rightarrow> (function_id \<times> fmd) list \<Rightarrow> 'm
    \<Rightarrow> (store_error fault + unit) \<times> 'm" where
  "dash_active_to_idle D = dash_move_worker D Active Idle"

definition dash_idle_to_dying :: "'m dash_ops \<Rightarrow> worker_id \<Rightarrow> function_id option \<Rightarrow> (function_id \<times> fmd) list \<Rightarrow> 'm
    \<Rightarrow> (store_error fault + unit) \<times> 'm" where
  "dash_idle_to_dying D = dash_move_worker D Idle Dying"

definition dash_active_to_dying :: "'m dash_ops \<Rightarrow> worker_id \<Rightarrow> function_id option \<Rightarrow> (function_id \<times> fmd) list \<Rightarrow> 'm
    \<Rightarrow> (store_error fault + unit) \<times> 'm" where
  "dash_active_to_dying D = dash_move_worker D Active Dying"

section \<open>The same contents\<close>

text \<open>A map and an association list with the same contents.\<close>

definition same :: "'m dash_ops \<Rightarrow> 'm \<Rightarrow> fmd_store \<Rightarrow> bool" where
  "same D m s \<longleftrightarrow> distinct (keys s) \<and> map_of s = dm_get D m"

lemma same_iter: "dash_spec D \<Longrightarrow> same D m (dm_iter D m)"
  by (simp add: same_def dash_specD)

lemma same_put: "dash_spec D \<Longrightarrow> same D m s \<Longrightarrow> same D (dm_put D k v m) (AList.update k v s)"
  by (auto simp: same_def dash_specD update_conv distinct_update)

lemma same_remove: "dash_spec D \<Longrightarrow> same D m s \<Longrightarrow> same D (dm_remove D k m) (AList.delete k s)"
  by (auto simp: same_def dash_specD delete_conv distinct_delete)

lemma same_located: "map_of s = map_of s' \<Longrightarrow> located s = located s'"
  by (simp add: located_def fun_eq_iff)

lemma same_store_inv:
  assumes "map_of s = map_of s'" "distinct (keys s')" "store_inv s"
  shows "store_inv s'" "where_is s' = where_is s" "registered s' = registered s"
proof -
  show i: "store_inv s'" using assms(2,3) unfolding store_inv_def same_located [OF assms(1)] assms(1) by blast
  show "where_is s' = where_is s"
    by (rule where_is_eqI [OF i]) (simp add: where_is_iff [OF assms(3)] same_located [OF assms(1)])
  show "registered s' = registered s" by (simp add: registered_def assms(1) fun_eq_iff)
qed

text \<open>Without interference every method does to the contents what the one of the standard store does.\<close>

definition agree :: "'m dash_ops \<Rightarrow> 'a \<times> 'm \<Rightarrow> 'a \<times> fmd_store \<Rightarrow> bool" where
  "agree D x y \<longleftrightarrow> fst x = fst y \<and> same D (snd x) (snd y)"

lemma agree_simps [simp]: "agree D (r, m) (q, s) \<longleftrightarrow> r = q \<and> same D m s"
  by (simp add: agree_def)

lemma same_get: "same D m s \<Longrightarrow> dm_get D m k = map_of s k"
  by (simp add: same_def)

lemma dash_reads:
  assumes "same D m s"
  shows "dash_function_exists D fid m = function_exists fid s" "dash_get D fid m = store_get fid s"
    "dash_function_memory D fid m = function_memory fid s" "dash_registered_function D fid m = get_registered_function fid s"
    "dash_function_stats D fid m = get_function_stats fid s"
  using same_get [OF assms]
  by (simp_all add: dash_function_exists_def function_exists_def dash_get_def store_get_def dash_function_memory_def
      function_memory_def dash_registered_function_def get_registered_function_def dash_function_stats_def get_function_stats_def)

lemma dash_writes:
  assumes "dash_spec D" "same D m s"
  shows "agree D (dash_register_function D rf m) (register_function rf s)"
    "agree D (dash_deregister_function D fid m) (deregister_function fid s)"
    "agree D (dash_remove_worker D c w fid m) (remove_worker c w fid s)"
    "agree D (dash_insert_worker D c w fid m) (insert_worker c w fid s)"
  using same_get [OF assms(2)] same_put [OF assms] same_remove [OF assms] assms(2)
  by (auto simp: dash_register_function_def register_function_def dash_deregister_function_def deregister_function_def
      dash_remove_worker_def remove_worker_def dash_insert_worker_def insert_worker_def Let_def split: option.split prod.split)

lemma update_twice: "AList.update k v (AList.update k v' s) = AList.update k v s"
  by (induction s) auto

lemma dash_move_agree:
  assumes "dash_spec D" "same D m s" "(fo = None \<Longrightarrow> dash_find_worker c w vs = find_worker c w s)"
  shows "agree D (dash_move_worker D c c' w fo vs m) (move_worker c c' w fo s)"
proof -
  have f: "(case fo of None \<Rightarrow> dash_find_worker c w vs | Some fid \<Rightarrow> Some fid) = (case fo of None \<Rightarrow> find_worker c w s | Some fid \<Rightarrow> Some fid)"
    using assms(3) by (simp split: option.split)
  show ?thesis
    unfolding dash_move_worker_def move_worker_def f
    using same_get [OF assms(2)] same_put [OF assms(1,2)] assms(2)
    by (auto simp: insert_worker_def update_twice split: option.split prod.split bool.split)
qed

lemma dash_find_same:
  assumes "same D m s" "store_inv s" "map_of vs = map_of s" "distinct (keys vs)"
  shows "dash_find_worker c w vs = find_worker c w s"
proof -
  have "store_inv vs" "where_is vs = where_is s" using same_store_inv [OF assms(3) [symmetric] assms(4,2)] by simp_all
  then have "find_worker c w vs = Some g \<longleftrightarrow> find_worker c w s = Some g" for g
    by (simp add: find_worker_iff assms(2))
  then show ?thesis by (metis dash_find_worker_def find_worker_def not_None_eq)
qed

lemma dash_find_remove_agree:
  assumes "dash_spec D" "same D m s" "dash_find_worker c w vs = find_worker c w s"
  shows "agree D (dash_find_remove_worker D c w vs m) (find_remove_worker c w s)"
proof (cases "find_worker c w s")
  case None
  then show ?thesis using assms by (simp add: dash_find_remove_worker_def find_remove_worker_def)
next
  case (Some fid)
  obtain r m' q s' where e: "dash_remove_worker D c w fid m = (r, m')" "remove_worker c w fid s = (q, s')" by fastforce
  then have "r = q" "same D m' s'" using dash_writes(3) [OF assms(1,2), of c w fid] by simp_all
  then show ?thesis
    using e Some assms(3) by (cases q) (simp_all add: dash_find_remove_worker_def find_remove_worker_def)
qed

section \<open>The contract of a store\<close>

definition dash_inv :: "'m dash_ops \<Rightarrow> 'm \<Rightarrow> bool" where
  "dash_inv D m \<longleftrightarrow> dash_spec D \<and> store_inv (dm_iter D m)"

definition dash_loc :: "'m dash_ops \<Rightarrow> 'm \<Rightarrow> worker_id \<Rightarrow> (wclass \<times> function_id) option" where
  "dash_loc D m = where_is (dm_iter D m)"

definition dash_reg :: "'m dash_ops \<Rightarrow> 'm \<Rightarrow> function_id \<Rightarrow> registered_function option" where
  "dash_reg D m = registered (dm_iter D m)"

definition dash_mv :: "'m dash_ops \<Rightarrow> wclass \<Rightarrow> wclass \<Rightarrow> worker_id \<Rightarrow> function_id option \<Rightarrow> 'm \<Rightarrow> (store_error fault + unit) \<times> 'm" where
  "dash_mv D c c' w fo m = dash_move_worker D c c' w fo (dm_iter D m) m"

text \<open>What the standard store says after a call is what the map says after it.\<close>

lemma dash_transfer:
  assumes "dash_spec D" "agree D x y" "y = (r, s')" "store_inv s'"
  obtains m' where "x = (r, m')" "dash_inv D m'" "dash_loc D m' = where_is s'" "dash_reg D m' = registered s'"
proof -
  obtain m' where x: "x = (r, m')" "same D m' s'" using assms(2,3) by (cases x) simp
  have "map_of s' = map_of (dm_iter D m')" using x(2) dash_specD(4) [OF assms(1)] by (simp add: same_def)
  from same_store_inv [OF this dash_specD(3) [OF assms(1)] assms(4)]
  show ?thesis using x assms(1) by (intro that [of m']) (simp_all add: dash_inv_def dash_loc_def dash_reg_def)
qed

interpretation dash: worker_store "dash_inv D" "dash_loc D" "dash_reg D" "dash_insert_worker D" "dash_remove_worker D" "dash_mv D" for D
proof (unfold_locales, goal_cases)
  case (1 m w c fid)
  then show ?case using std.loc_reg by (auto simp: dash_inv_def dash_loc_def dash_reg_def)
next
  case (2 m w fid c)
  then have D: "dash_spec D" "store_inv (dm_iter D m)" by (simp_all add: dash_inv_def)
  obtain s' where s': "insert_worker c w fid (dm_iter D m) = (Inr (), s')" "store_inv s'"
    "where_is s' = (where_is (dm_iter D m))(w \<mapsto> (c, fid))" "registered s' = registered (dm_iter D m)"
    using insert_worker_ok [OF D(2), of w fid c] 2 by (auto simp: dash_loc_def dash_reg_def)
  show ?case
    by (rule dash_transfer [OF D(1) dash_writes(4) [OF D(1) same_iter [OF D(1)]] s'(1,2)])
      (use s' in \<open>auto simp: dash_loc_def dash_reg_def\<close>)
next
  case (3 m fid c w)
  then have D: "dash_spec D" "store_inv (dm_iter D m)" by (simp_all add: dash_inv_def)
  obtain s' where s': "remove_worker c w fid (dm_iter D m) = (Inr (where_is (dm_iter D m) w = Some (c, fid)), s')" "store_inv s'"
    "registered s' = registered (dm_iter D m)"
    "where_is s' = (if where_is (dm_iter D m) w = Some (c, fid) then (where_is (dm_iter D m))(w := None) else where_is (dm_iter D m))"
    using remove_worker_ok [OF D(2), of fid c w] 3 by (auto simp: dash_loc_def dash_reg_def)
  show ?case
    by (rule dash_transfer [OF D(1) dash_writes(3) [OF D(1) same_iter [OF D(1)]] s'(1,2)])
      (use s' in \<open>auto simp: dash_loc_def dash_reg_def\<close>)
next
  case (4 m w c fid fo c')
  then have D: "dash_spec D" "store_inv (dm_iter D m)" by (simp_all add: dash_inv_def)
  obtain s' where s': "move_worker c c' w fo (dm_iter D m) = (Inr (), s')" "store_inv s'"
    "where_is s' = (where_is (dm_iter D m))(w \<mapsto> (c', fid))" "registered s' = registered (dm_iter D m)"
    using move_worker_ok [OF D(2), of w c fid fo c'] 4 by (auto simp: dash_loc_def)
  have "agree D (dash_mv D c c' w fo m) (move_worker c c' w fo (dm_iter D m))"
    unfolding dash_mv_def by (rule dash_move_agree [OF D(1) same_iter [OF D(1)]]) (simp add: dash_find_worker_def find_worker_def)
  then show ?case
    by (rule dash_transfer [OF D(1) _ s'(1,2)]) (use s' in \<open>auto simp: dash_loc_def dash_reg_def\<close>)
next
  case (5 m w c c' fo)
  then have D: "dash_spec D" "store_inv (dm_iter D m)" by (simp_all add: dash_inv_def)
  have n: "w \<notin> set (workers c f)" if "dm_get D m fid = Some f" for fid f
    using 5(2) that where_is_None [OF D(2), of w] dash_specD(4) [OF D(1), of m] by (auto simp: dash_loc_def located_def)
  show ?case
    using n by (auto simp: dash_mv_def dash_move_worker_def hs_remove_def split: option.split prod.split bool.split)
qed

end
