(* ===== verification/Dash_Props.thy ===== *)
theory Dash_Props
  imports Dash
begin

text \<open>
  The two stores side by side, over sequences of calls of the trait \<^verbatim>\<open>FunctionMetadataStore\<close>, and what holds
  of the transitions of \<^verbatim>\<open>DashMapStore\<close> when calls overlap.
\<close>

section \<open>Calls and replies\<close>

datatype transition = ActiveToIdle | IdleToDying | ActiveToDying

datatype store_call =
  CallRegister registered_function
| CallDeregister function_id
| CallExists function_id
| CallMemory function_id
| CallRegistered function_id
| CallStats function_id
| CallFind wclass worker_id
| CallFindRemove wclass worker_id
| CallRemove wclass worker_id function_id
| CallInsert wclass worker_id function_id
| CallNum wclass "function_id option"
| CallIter wclass
| CallIterAll
| CallMove transition worker_id "function_id option"

fun t_from :: "transition \<Rightarrow> wclass" where
  "t_from ActiveToIdle = Active"
| "t_from IdleToDying = Idle"
| "t_from ActiveToDying = Active"

fun t_to :: "transition \<Rightarrow> wclass" where
  "t_to ActiveToIdle = Idle"
| "t_to IdleToDying = Dying"
| "t_to ActiveToDying = Dying"

text \<open>The order in which an iterator yields the workers is not part of a reply.\<close>

datatype store_reply =
  GotRegister "registration_error + unit"
| GotDeregister "registration_error + registered_function"
| GotExists bool
| GotMemory "store_error fault + nat"
| GotRegistered "store_error fault + registered_function"
| GotStats "store_error fault + function_stats"
| GotFind "function_id option"
| GotFindRemove "store_error fault + function_id option"
| GotRemove "store_error fault + bool"
| GotUnit "store_error fault + unit"
| GotNum nat
| GotWorkers "(function_id \<times> worker_id) multiset"

fun panicked :: "'e fault + 'a \<Rightarrow> bool" where
  "panicked (Inl (Panic _)) = True"
| "panicked _ = False"

fun reply_panics :: "store_reply \<Rightarrow> bool" where
  "reply_panics (GotMemory r) = panicked r"
| "reply_panics (GotRegistered r) = panicked r"
| "reply_panics (GotStats r) = panicked r"
| "reply_panics (GotFindRemove r) = panicked r"
| "reply_panics (GotRemove r) = panicked r"
| "reply_panics (GotUnit r) = panicked r"
| "reply_panics _ = False"

fun std_find_remove :: "wclass \<Rightarrow> worker_id \<Rightarrow> fmd_store \<Rightarrow> (store_error fault + function_id option) \<times> fmd_store" where
  "std_find_remove Active = find_remove_active_worker"
| "std_find_remove Idle = find_remove_idle_worker"
| "std_find_remove Dying = find_remove_dying_worker"

fun std_move :: "transition \<Rightarrow> worker_id \<Rightarrow> function_id option \<Rightarrow> fmd_store \<Rightarrow> (store_error fault + unit) \<times> fmd_store" where
  "std_move ActiveToIdle = worker_active_to_idle"
| "std_move IdleToDying = worker_idle_to_dying"
| "std_move ActiveToDying = worker_active_to_dying"

fun std_call :: "store_call \<Rightarrow> fmd_store \<Rightarrow> store_reply \<times> fmd_store" where
  "std_call (CallRegister rf) s = map_prod GotRegister id (register_function rf s)"
| "std_call (CallDeregister fid) s = map_prod GotDeregister id (deregister_function fid s)"
| "std_call (CallExists fid) s = (GotExists (function_exists fid s), s)"
| "std_call (CallMemory fid) s = (GotMemory (function_memory fid s), s)"
| "std_call (CallRegistered fid) s = (GotRegistered (get_registered_function fid s), s)"
| "std_call (CallStats fid) s = (GotStats (get_function_stats fid s), s)"
| "std_call (CallFind c w) s = (GotFind (find_worker c w s), s)"
| "std_call (CallFindRemove c w) s = map_prod GotFindRemove id (std_find_remove c w s)"
| "std_call (CallRemove c w fid) s = map_prod GotRemove id (remove_worker c w fid s)"
| "std_call (CallInsert c w fid) s = map_prod GotUnit id (insert_worker c w fid s)"
| "std_call (CallNum c fo) s = (GotNum (num_workers c fo s), s)"
| "std_call (CallIter c) s = (GotWorkers (mset (iter_workers c s)), s)"
| "std_call CallIterAll s = (GotWorkers (mset (iter_all s)), s)"
| "std_call (CallMove t w fo) s = map_prod GotUnit id (std_move t w fo s)"

fun dash_move :: "'m dash_ops \<Rightarrow> transition \<Rightarrow> worker_id \<Rightarrow> function_id option \<Rightarrow> (function_id \<times> fmd) list \<Rightarrow> 'm
    \<Rightarrow> (store_error fault + unit) \<times> 'm" where
  "dash_move D ActiveToIdle = dash_active_to_idle D"
| "dash_move D IdleToDying = dash_idle_to_dying D"
| "dash_move D ActiveToDying = dash_active_to_dying D"

fun dash_call :: "'m dash_ops \<Rightarrow> store_call \<Rightarrow> 'm \<Rightarrow> store_reply \<times> 'm" where
  "dash_call D (CallRegister rf) m = map_prod GotRegister id (dash_register_function D rf m)"
| "dash_call D (CallDeregister fid) m = map_prod GotDeregister id (dash_deregister_function D fid m)"
| "dash_call D (CallExists fid) m = (GotExists (dash_function_exists D fid m), m)"
| "dash_call D (CallMemory fid) m = (GotMemory (dash_function_memory D fid m), m)"
| "dash_call D (CallRegistered fid) m = (GotRegistered (dash_registered_function D fid m), m)"
| "dash_call D (CallStats fid) m = (GotStats (dash_function_stats D fid m), m)"
| "dash_call D (CallFind c w) m = (GotFind (dash_find_worker c w (dm_iter D m)), m)"
| "dash_call D (CallFindRemove c w) m = map_prod GotFindRemove id (dash_find_remove_worker D c w (dm_iter D m) m)"
| "dash_call D (CallRemove c w fid) m = map_prod GotRemove id (dash_remove_worker D c w fid m)"
| "dash_call D (CallInsert c w fid) m = map_prod GotUnit id (dash_insert_worker D c w fid m)"
| "dash_call D (CallNum c fo) m = (GotNum (dash_num_workers D c fo (dm_iter D m) m), m)"
| "dash_call D (CallIter c) m = (GotWorkers (mset (dash_iter_workers c (dm_iter D m))), m)"
| "dash_call D CallIterAll m = (GotWorkers (mset (dash_iter_all (dm_iter D m) (dm_iter D m) (dm_iter D m))), m)"
| "dash_call D (CallMove t w fo) m = map_prod GotUnit id (dash_move D t w fo (dm_iter D m) m)"

text \<open>A sequence of calls ends with a panic. The ids of new workers are fresh.\<close>

fun std_run :: "store_call list \<Rightarrow> fmd_store \<Rightarrow> store_reply list" where
  "std_run [] s = []"
| "std_run (x # xs) s = (case std_call x s of (r, s') \<Rightarrow> r # (if reply_panics r then [] else std_run xs s'))"

fun dash_run :: "'m dash_ops \<Rightarrow> store_call list \<Rightarrow> 'm \<Rightarrow> store_reply list" where
  "dash_run D [] m = []"
| "dash_run D (x # xs) m = (case dash_call D x m of (r, m') \<Rightarrow> r # (if reply_panics r then [] else dash_run D xs m'))"

fun call_fresh :: "store_call \<Rightarrow> fmd_store \<Rightarrow> bool" where
  "call_fresh (CallInsert c w fid) s = (where_is s w = None)"
| "call_fresh _ s = True"

fun calls_fresh :: "store_call list \<Rightarrow> fmd_store \<Rightarrow> bool" where
  "calls_fresh [] s = True"
| "calls_fresh (x # xs) s \<longleftrightarrow> call_fresh x s \<and> calls_fresh xs (snd (std_call x s))"

section \<open>The standard store keeps its invariant\<close>

lemma find_remove_eq:
  "store_inv s \<Longrightarrow> std_find_remove c w s = find_remove_worker c w s"
  by (cases c) (simp_all add: find_remove_active_worker_def find_remove_idle_worker_def find_remove_dying_eq store_invD(1))

lemma std_move_eq: "t_from t \<noteq> t_to t" "std_move t = move_worker (t_from t) (t_to t)"
  by (cases t; simp add: worker_active_to_idle_def worker_idle_to_dying_def worker_active_to_dying_def)+

lemma dash_move_eq: "dash_move D t = dash_move_worker D (t_from t) (t_to t)"
  by (cases t) (simp_all add: dash_active_to_idle_def dash_idle_to_dying_def dash_active_to_dying_def)

lemma unregistered_noop:
  assumes "registered s fid = None"
  shows "remove_worker c w fid s = (Inl (Panic ''function should already exist''), s)"
    "insert_worker c w fid s = (Inl (Panic ''function should already exist''), s)"
  using assms by (simp_all add: registered_def remove_worker_def insert_worker_def)

lemma remove_worker_inv: "store_inv s \<Longrightarrow> store_inv (snd (remove_worker c w fid s))"
  using remove_worker_ok [of s fid c w] unregistered_noop(1) [of s fid c w] by (cases "registered s fid") auto

lemma move_worker_inv:
  assumes i: "store_inv s" and c: "c \<noteq> c'"
  shows "store_inv (snd (move_worker c c' w fo s))"
proof (cases "\<exists>fid. where_is s w = Some (c, fid) \<and> fo \<in> {None, Some fid}")
  case True
  then show ?thesis using move_worker_ok [OF i _ _ c] by fastforce
next
  case False
  then have "\<exists>e. move_worker c c' w fo s = (Inl (Err e), s)"
    using move_worker_missing [OF i, of w c] by (metis option.inject prod.inject)
  then show ?thesis using i by auto
qed

lemma std_call_inv:
  assumes i: "store_inv s" and "call_fresh x s"
  shows "store_inv (snd (std_call x s))"
proof (cases x)
  case (CallRegister rf)
  then show ?thesis using register_function_ok [OF i, of rf] i
    by (cases "registered s (fi_id (rf_info rf))") (auto simp: register_function_def registered_def Let_def)
next
  case (CallDeregister fid)
  show ?thesis
  proof (cases "\<exists>rf. registered s fid = Some rf \<and> (\<forall>w c. where_is s w \<noteq> Some (c, fid))")
    case True
    then show ?thesis using deregister_function_ok [OF i, of fid] CallDeregister by fastforce
  next
    case False
    then consider "registered s fid = None" | w c where "where_is s w = Some (c, fid)" by (cases "registered s fid") auto
    then show ?thesis
    proof cases
      case 1
      then show ?thesis using i CallDeregister by (simp add: deregister_function_def registered_def)
    next
      case 2
      then show ?thesis using deregister_in_use [OF i 2] i CallDeregister by auto
    qed
  qed
next
  case (CallFindRemove c w)
  then show ?thesis using i remove_worker_inv [OF i, of c w]
    by (auto simp: find_remove_eq find_remove_worker_def bindE_def split: option.split prod.split sum.split) (metis snd_conv)+
next
  case (CallRemove c w fid)
  then show ?thesis using remove_worker_inv [OF i] by simp
next
  case (CallInsert c w fid)
  then show ?thesis using insert_worker_ok [OF i, of w fid c] unregistered_noop(2) [of s fid c w] assms
    by (cases "registered s fid") auto
next
  case (CallMove t w fo)
  then show ?thesis using std_move_eq [of t] move_worker_inv [OF i] by simp
qed (use i in simp_all)

section \<open>An instance of the map\<close>

definition alist_dash :: "fmd_store dash_ops" where
  "alist_dash = \<lparr>dm_get = map_of, dm_put = AList.update, dm_remove = AList.delete, dm_iter = (\<lambda>s. AList.clearjunk s)\<rparr>"

lemma alist_dash_spec: "dash_spec alist_dash"
  by (simp add: dash_spec_def alist_dash_def update_conv' delete_conv' distinct_clearjunk map_of_clearjunk)

lemma alist_dash_inv: "dash_inv alist_dash store_example"
  using store_example_inv alist_dash_spec by (simp add: dash_inv_def alist_dash_def store_example_def)

section \<open>The two stores agree\<close>

lemma mset_same:
  assumes "same D m s" "dash_spec D"
  shows "mset (dm_iter D m) = mset s"
  using assms dash_specD(3,4) [OF assms(2), of m] unfolding same_def
  by (metis distinct_map map_of_inject_set set_eq_iff_mset_eq_distinct)

lemma iter_same:
  assumes "mset vs = mset s"
  shows "mset (dash_iter_workers c vs) = mset (iter_workers c s)" "dash_num_workers D c None vs m = num_workers c None s"
proof -
  have e: "dash_iter_workers c vs = concat (map (\<lambda>(fid, f). map (Pair fid) (workers c f)) vs)" for vs
    by (simp add: dash_iter_workers_def dash_by_function_def comp_def split_def)
  have l: "sum_list (map g vs) = sum_list (map g s)" for g :: "function_id \<times> fmd \<Rightarrow> 'x::comm_monoid_add"
    using assms by (metis mset_map sum_mset_sum_list)
  show "mset (dash_iter_workers c vs) = mset (iter_workers c s)"
    by (simp add: e iter_workers_def mset_concat comp_def l)
  show "dash_num_workers D c None vs m = num_workers c None s"
    by (simp add: dash_num_workers_def num_workers_def l)
qed

lemma agree_map_prod: "agree D x y \<Longrightarrow> agree D (map_prod g id x) (map_prod g id y)"
  by (cases x; cases y) simp

lemma dash_call_agree:
  assumes D: "dash_spec D" and s: "same D m s" and i: "store_inv s"
  shows "agree D (dash_call D x m) (std_call x s)"
proof -
  have f: "dash_find_worker c w (dm_iter D m) = find_worker c w s" for c w
    using dash_find_same [OF s i] dash_specD(3,4) [OF D, of m] s by (simp add: same_def)
  note n = iter_same [OF mset_same [OF s D]]
  show ?thesis
  proof (cases x)
    case (CallNum c fo)
    then show ?thesis using s n(2) same_get [OF s] by (cases fo) (simp_all add: dash_num_workers_def num_workers_def)
  next
    case (CallMove t w fo)
    then show ?thesis using dash_move_agree [OF D s f] by (simp add: agree_map_prod std_move_eq dash_move_eq)
  next
    case CallFindRemove
    then show ?thesis using dash_find_remove_agree [OF D s f] i by (simp add: agree_map_prod find_remove_eq)
  qed (use s f n dash_reads [OF s] dash_writes [OF D s] in
      \<open>simp_all add: agree_map_prod dash_iter_all_def iter_all_def iter_idle_def iter_active_def iter_dying_def\<close>)
qed

text \<open>C23. The store over \<^verbatim>\<open>DashMap\<close> gives the same answers as the one over the standard hash map, for every
  sequence of calls that do not overlap, errors and the first panic included.\<close>

theorem dash_equals_std:
  assumes "dash_spec D" "store_inv s" "same D m s" "calls_fresh xs s"
  shows "dash_run D xs m = std_run xs s"
  using assms(2,3,4)
proof (induction xs arbitrary: m s)
  case Nil
  then show ?case by simp
next
  case (Cons x xs)
  obtain r m' q s' where e: "dash_call D x m = (r, m')" "std_call x s = (q, s')" by fastforce
  have "r = q" "same D m' s'" using dash_call_agree [OF assms(1) Cons.prems(2,1), of x] e by simp_all
  moreover have "store_inv s'" using std_call_inv [OF Cons.prems(1), of x] Cons.prems(3) e by simp
  ultimately show ?case using Cons.IH [of s' m'] Cons.prems(3) e by simp
qed

theorem dash_equals_std_witness:
  "dash_run alist_dash [CallInsert Active 9 ''g'', CallMove ActiveToIdle 1 None, CallFindRemove Idle 2, CallNum Idle None] store_example
   = [GotUnit (Inr ()), GotUnit (Inr ()), GotFindRemove (Inr (Some ''f'')), GotNum 2]"
proof -
  let ?xs = "[CallInsert Active 9 ''g'', CallMove ActiveToIdle 1 None, CallFindRemove Idle 2, CallNum Idle None]"
  have s: "same alist_dash store_example store_example" by (simp add: same_def alist_dash_def store_example_def)
  have "where_is store_example 9 = None" by code_simp
  then have f: "calls_fresh ?xs store_example" by simp
  have "std_run ?xs store_example = [GotUnit (Inr ()), GotUnit (Inr ()), GotFindRemove (Inr (Some ''f'')), GotNum 2]" by code_simp
  then show ?thesis using dash_equals_std [OF alist_dash_spec store_example_inv s f] by simp
qed

text \<open>C27. A transition of \<^verbatim>\<open>DashMapStore\<close> takes effect at one moment. Whatever the iteration that looks for the
  function has seen, the call either moves the worker, which is in the class it leaves at that moment and in
  no other, or it reports an error and changes nothing; it does not panic and the store stays well formed.\<close>

theorem dash_transition_atomic:
  assumes "dash_inv D m" "dash_move D t w fo vs m = (r, m')"
  shows "(\<exists>fid. r = Inr () \<and> dash_loc D m w = Some (t_from t, fid) \<and> fo \<in> {None, Some fid}
      \<and> dash_inv D m' \<and> dash_loc D m' = (dash_loc D m)(w \<mapsto> (t_to t, fid)) \<and> dash_reg D m' = dash_reg D m)
    \<or> (\<exists>e. r = Inl (Err e) \<and> m' = m)"
proof -
  have D: "dash_spec D" "store_inv (dm_iter D m)" using assms(1) by (simp_all add: dash_inv_def)
  define c c' where "c = t_from t" "c' = t_to t"
  then have t: "c \<noteq> c'" "c = t_from t" "c' = t_to t" "dash_move D t = dash_move_worker D c c'" using std_move_eq [of t] dash_move_eq [of D t] by auto
  let ?g = "case fo of None \<Rightarrow> dash_find_worker c w vs | Some fid \<Rightarrow> Some fid"
  show ?thesis
  proof (cases "\<exists>fid. ?g = Some fid \<and> dash_loc D m w = Some (c, fid)")
    case True
    then obtain fid where g: "?g = Some fid" "dash_loc D m w = Some (c, fid)" by blast
    then have "dash_move_worker D c c' w fo vs m = dash_mv D c c' w (Some fid) m"
      by (simp add: dash_mv_def dash_move_worker_def)
    moreover obtain s' where "dash_mv D c c' w (Some fid) m = (Inr (), s')" "dash_inv D s'"
        "dash_loc D s' = (dash_loc D m)(w \<mapsto> (c', fid))" "dash_reg D s' = dash_reg D m"
      using dash.mv_ok [OF assms(1) g(2) _ t(1)] by blast
    moreover have "fo \<in> {None, Some fid}" using g(1) by (cases fo) simp_all
    ultimately show ?thesis using assms(2) t g(2) by auto
  next
    case False
    have "w \<notin> set (workers c f)" if "?g = Some fid" "dm_get D m fid = Some f" for fid f
      using that False where_is_iff [OF D(2), of w c fid] dash_specD(4) [OF D(1), of m]
      by (auto simp: dash_loc_def located_def)
    then have "\<exists>e. dash_move_worker D c c' w fo vs m = (Inl (Err e), m)"
      by (auto simp: dash_move_worker_def hs_remove_def split: option.split prod.split bool.split)
    then show ?thesis using assms(2) t(4) by auto
  qed
qed

theorem dash_transition_atomic_witness:
  "\<exists>m'. dash_move alist_dash ActiveToIdle 1 None store_example store_example = (Inr (), m')
     \<and> dash_loc alist_dash m' = (dash_loc alist_dash store_example)(1 \<mapsto> (Idle, ''f''))"
proof -
  obtain r m' where e: "dash_move alist_dash ActiveToIdle 1 None store_example store_example = (r, m')" by fastforce
  have "fst (dash_move alist_dash ActiveToIdle 1 None store_example store_example) = Inr ()" by code_simp
  then have r: "r = Inr ()" using e by simp
  have l: "dash_loc alist_dash store_example 1 = Some (Active, ''f'')" by code_simp
  then show ?thesis using dash_transition_atomic [OF alist_dash_inv e] e r by auto
qed

text \<open>\<^verbatim>\<open>iter_all\<close> of \<^verbatim>\<open>DashMapStore\<close> is not a snapshot: a worker that becomes Idle after the Idle ones have
  been listed is not listed at all, although it is tracked all the time.\<close>

theorem dash_iter_all_misses:
  assumes "dash_inv D m" "dash_loc D m w = Some (Active, fid)" "dash_active_to_idle D w None (dm_iter D m) m = (r, m')"
  shows "r = Inr () \<and> dash_loc D m' w = Some (Idle, fid)
    \<and> (\<forall>g. (g, w) \<notin> set (dash_iter_all (dm_iter D m) (dm_iter D m') (dm_iter D m')))"
proof -
  have "\<exists>s'. dash_mv D Active Idle w None m = (Inr (), s') \<and> dash_inv D s' \<and> dash_loc D s' = (dash_loc D m)(w \<mapsto> (Idle, fid))"
    using dash.mv_ok [OF assms(1,2), of None Idle] by auto
  then have m': "r = Inr ()" "dash_inv D m'" "dash_loc D m' = (dash_loc D m)(w \<mapsto> (Idle, fid))"
    using assms(3) by (simp_all add: dash_mv_def dash_active_to_idle_def)
  have "set (dash_iter_workers c (dm_iter D n)) = {(fid, w). dash_loc D n w = Some (c, fid)}" if "dash_inv D n" for c n
    using set_iter_workers [of "dm_iter D n" c] that
    by (simp add: dash_inv_def dash_loc_def dash_iter_workers_def dash_by_function_def iter_workers_def comp_def split_def)
  then show ?thesis using m' assms(1,2) by (simp add: dash_iter_all_def)
qed

theorem dash_iter_all_misses_witness:
  "\<exists>m'. dash_active_to_idle alist_dash 1 None store_example store_example = (Inr (), m')
     \<and> (\<forall>g. (g, 1) \<notin> set (dash_iter_all store_example m' m'))"
proof -
  have i: "dm_iter alist_dash store_example = store_example" by (simp add: alist_dash_def store_example_def)
  obtain r m' where e: "dash_active_to_idle alist_dash 1 None (dm_iter alist_dash store_example) store_example = (r, m')" by fastforce
  have l: "dash_loc alist_dash store_example 1 = Some (Active, ''f'')" by code_simp
  have d: "dm_iter alist_dash m' = m'"
  proof -
    have "dm_iter alist_dash (snd (dash_active_to_idle alist_dash 1 None store_example store_example))
      = snd (dash_active_to_idle alist_dash 1 None store_example store_example)" by code_simp
    then show ?thesis using e i by simp
  qed
  show ?thesis using dash_iter_all_misses [OF alist_dash_inv l e] e i d by auto
qed

end
