(* ===== verification/Ctrd.thy ===== *)
theory Ctrd
  imports Fc
begin

text \<open>
  \<^verbatim>\<open>crates/firecracker-containerd-client\<close>: the client of \<^verbatim>\<open>firecracker-containerd\<close>.

  The services behind the gRPC and ttrpc channels, the content they serve and the files are not part of the
  repository: \<open>ctrd_svc\<close> is what the client can ask of them, as operations on a state \<open>'w\<close>. The namespace of
  the client, which every call carries in its header, is the first argument of each. The parsers of the OCI
  documents, SHA-256 and the serialization to JSON are parameters of it as well. A mount is opaque.
\<close>

section \<open>Errors and data\<close>

datatype grpc_code = GrpcNotFound | GrpcOther nat

record grpc_status =
  st_code :: grpc_code
  st_message :: string

datatype ttrpc_error = TtrpcStatus string | TtrpcOther string

datatype cpu_arch = Amd64 | OtherArch string

datatype os_name = Linux | OtherOs string

record manifest_entry =
  me_digest :: string
  me_platform :: "(cpu_arch \<times> os_name) option"

datatype ctrd_error =
  CtUtf string
| CtEmptyField string
| CtMassDeletion "(string \<times> grpc_status) list"
| CtTransport string
| CtTtrpc ttrpc_error
| CtStatus grpc_status
| CtJson string
| CtIo string io_source
| CtMediaType string
| CtManifestNotFound "manifest_entry list"
| CtReadContent string
| CtNoSnapshot
| CtMissingField string

datatype flush_data = Fsync | NoFlush

datatype after_load = LoadResume | LoadNoResume

datatype media_type = MediaIndex | MediaManifest | MediaOther string | MediaKnown string

type_synonym blob = "8 word list"

type_synonym mount = string

text \<open>An image record; what it points to is optional.\<close>

record ctrd_image =
  im_name :: string
  im_target :: "(string \<times> string) option"

record exec_config =
  ec_entrypoint :: "string list option"
  ec_cmd :: "string list option"

record image_config =
  ic_config :: "exec_config option"
  ic_diff_ids :: "string list"

record ctrd_container =
  ct_id :: string
  ct_labels :: "string \<rightharpoonup> string"
  ct_image :: string
  ct_runtime :: string
  ct_spec_type :: string
  ct_spec :: string
  ct_snapshotter :: string
  ct_snapshot_key :: string

record net_if =
  nf_mac :: string
  nf_host_dev :: string
  nf_primary_addr :: string
  nf_gateway :: string
  nf_nameservers :: "string list"

record create_vm_request =
  cv_id :: string
  cv_kernel_img :: string
  cv_kernel_args :: string
  cv_root_drive :: "(string \<times> bool) option"
  cv_net_ifaces :: "net_if list"
  cv_ctr_count :: "32 word"
  cv_exit_after :: bool
  cv_timeout_secs :: "32 word"
  cv_mem_mib :: "32 word"
  cv_vcpus :: "32 word"

record create_vm_response =
  cr_id :: string
  cr_pid :: nat
  cr_socket :: string
  cr_log_fifo :: string
  cr_metrics_fifo :: string
  cr_cgroup :: string

section \<open>The services\<close>

text \<open>The messages of a stream are a list; an error ends it. Durations are in nanoseconds.\<close>

record 'w svc_images =
  sv_connect :: "string \<Rightarrow> 'w \<Rightarrow> (string + unit) \<times> 'w"
  sv_connect_ttrpc :: "string \<Rightarrow> 'w \<Rightarrow> (ttrpc_error + unit) \<times> 'w"
  sv_version :: "'w \<Rightarrow> (grpc_status + string \<times> string) \<times> 'w"
  sv_ns_create :: "string \<Rightarrow> string \<Rightarrow> 'w \<Rightarrow> (grpc_status + string option) \<times> 'w"
  sv_ns_list :: "string \<Rightarrow> 'w \<Rightarrow> (grpc_status + string list) \<times> 'w"
  sv_ns_delete :: "string \<Rightarrow> string \<Rightarrow> 'w \<Rightarrow> (grpc_status + unit) \<times> 'w"
  sv_image_get :: "string \<Rightarrow> string \<Rightarrow> 'w \<Rightarrow> (grpc_status + ctrd_image option) \<times> 'w"
  sv_image_list :: "string \<Rightarrow> string list \<Rightarrow> 'w \<Rightarrow> (grpc_status + ctrd_image list) \<times> 'w"
  sv_image_delete :: "string \<Rightarrow> string \<Rightarrow> bool \<Rightarrow> 'w \<Rightarrow> (grpc_status + unit) \<times> 'w"
  sv_content_read :: "string \<Rightarrow> string \<Rightarrow> 'w \<Rightarrow> (grpc_status + (grpc_status + blob) list) \<times> 'w"
  sv_content_list :: "string \<Rightarrow> string list \<Rightarrow> 'w \<Rightarrow> (grpc_status + (grpc_status + string list) list) \<times> 'w"
  sv_content_delete :: "string \<Rightarrow> string \<Rightarrow> 'w \<Rightarrow> (grpc_status + unit) \<times> 'w"

record 'w svc_runs = "'w svc_images" +
  sv_snap_prepare :: "string \<Rightarrow> string \<Rightarrow> string \<Rightarrow> string \<Rightarrow> 'w \<Rightarrow> (grpc_status + mount list) \<times> 'w"
  sv_snap_remove :: "string \<Rightarrow> string \<Rightarrow> string \<Rightarrow> 'w \<Rightarrow> (grpc_status + unit) \<times> 'w"
  sv_snap_list :: "string \<Rightarrow> string \<Rightarrow> string list \<Rightarrow> 'w \<Rightarrow> (grpc_status + (grpc_status + string list) list) \<times> 'w"
  sv_ctr_create :: "string \<Rightarrow> ctrd_container \<Rightarrow> 'w \<Rightarrow> (grpc_status + ctrd_container option) \<times> 'w"
  sv_ctr_list :: "string \<Rightarrow> string list \<Rightarrow> 'w \<Rightarrow> (grpc_status + ctrd_container list) \<times> 'w"
  sv_ctr_delete :: "string \<Rightarrow> string \<Rightarrow> 'w \<Rightarrow> (grpc_status + unit) \<times> 'w"
  sv_task_create :: "string \<Rightarrow> string \<Rightarrow> mount list \<Rightarrow> 'w \<Rightarrow> (grpc_status + string \<times> nat) \<times> 'w"
  sv_task_start :: "string \<Rightarrow> string \<Rightarrow> 'w \<Rightarrow> (grpc_status + nat) \<times> 'w"
  sv_task_kill :: "string \<Rightarrow> string \<Rightarrow> nat \<Rightarrow> bool \<Rightarrow> 'w \<Rightarrow> (grpc_status + unit) \<times> 'w"
  sv_task_wait :: "string \<Rightarrow> string \<Rightarrow> 'w \<Rightarrow> (grpc_status + nat) \<times> 'w"
  sv_task_delete :: "string \<Rightarrow> string \<Rightarrow> 'w \<Rightarrow> (grpc_status + nat) \<times> 'w"

record 'w svc_vms = "'w svc_runs" +
  sv_vm_create :: "string \<Rightarrow> duration \<Rightarrow> create_vm_request \<Rightarrow> 'w \<Rightarrow> (ttrpc_error + create_vm_response) \<times> 'w"
  sv_vm_pause :: "string \<Rightarrow> duration \<Rightarrow> string \<Rightarrow> 'w \<Rightarrow> (ttrpc_error + unit) \<times> 'w"
  sv_vm_resume :: "string \<Rightarrow> duration \<Rightarrow> string \<Rightarrow> 'w \<Rightarrow> (ttrpc_error + unit) \<times> 'w"
  sv_vm_snapshot :: "string \<Rightarrow> duration \<Rightarrow> string \<Rightarrow> string \<Rightarrow> string \<Rightarrow> 'w \<Rightarrow> (ttrpc_error + unit) \<times> 'w"
  sv_vm_stop :: "string \<Rightarrow> duration \<Rightarrow> string \<Rightarrow> 32 word \<Rightarrow> 'w \<Rightarrow> (ttrpc_error + unit) \<times> 'w"
  sv_vm_load :: "string \<Rightarrow> duration \<Rightarrow> string \<Rightarrow> string \<Rightarrow> string \<Rightarrow> bool \<Rightarrow> 'w \<Rightarrow> (ttrpc_error + nat) \<times> 'w"
  sv_vm_unload :: "string \<Rightarrow> duration \<Rightarrow> string \<Rightarrow> 'w \<Rightarrow> (ttrpc_error + unit) \<times> 'w"

record 'w svc_files = "'w svc_vms" +
  sv_is_file :: "string \<Rightarrow> 'w \<Rightarrow> bool"
  sv_remove_file :: "string \<Rightarrow> 'w \<Rightarrow> (io_source + unit) \<times> 'w"
  sv_parent :: "string \<Rightarrow> string option"
  sv_create_dir_all :: "string \<Rightarrow> 'w \<Rightarrow> (io_source + unit) \<times> 'w"
  sv_fsync :: "string \<Rightarrow> 'w \<Rightarrow> (io_source + unit) \<times> 'w"
  sv_read_file :: "string \<Rightarrow> 'w \<Rightarrow> (io_source + string) \<times> 'w"
  sv_second_first :: "'w \<Rightarrow> bool"
  sv_lingers :: "'w \<Rightarrow> bool"

record 'w ctrd_svc = "'w svc_files" +
  sv_media_type :: "string \<Rightarrow> media_type"
  sv_parse_index :: "blob \<Rightarrow> string + manifest_entry list"
  sv_parse_manifest :: "blob \<Rightarrow> string + string"
  sv_parse_config :: "blob \<Rightarrow> string + image_config"
  sv_sha256_hex :: "string \<Rightarrow> string"
  sv_json_strings :: "string list \<Rightarrow> string + string"
  sv_builder_json :: "string \<Rightarrow> string \<Rightarrow> string \<Rightarrow> string + string"
  sv_replace_all :: "string list \<Rightarrow> string \<Rightarrow> string list \<Rightarrow> string"
  sv_spec_template :: string

text \<open>An error of a gRPC or a ttrpc call, as \<^verbatim>\<open>?\<close> converts it.\<close>

definition grpc :: "(grpc_status + 'a) \<times> 'w \<Rightarrow> (ctrd_error + 'a) \<times> 'w" where
  "grpc r = map_prod (map_sum CtStatus id) id r"

definition ttrpc :: "(ttrpc_error + 'a) \<times> 'w \<Rightarrow> (ctrd_error + 'a) \<times> 'w" where
  "ttrpc r = map_prod (map_sum CtTtrpc id) id r"

section \<open>The client\<close>

definition default_snapshotter :: string where
  "default_snapshotter = ''devmapper''"

definition context_timeout :: duration where
  "context_timeout = 10000000000"

record ctrd_client =
  cl_namespace :: string
  cl_timeout :: duration

definition ctrd_new :: "'w ctrd_svc \<Rightarrow> string \<Rightarrow> string \<Rightarrow> string \<Rightarrow> 'w \<Rightarrow> (ctrd_error + ctrd_client) \<times> 'w" where
  "ctrd_new S addr ttrpc_addr ns w =
     bindE (map_prod (map_sum CtTransport id) id (sv_connect S addr w)) (\<lambda>_ w.
     bindE (ttrpc (sv_connect_ttrpc S (''unix://'' @ ttrpc_addr) w)) (\<lambda>_ w.
     (Inr \<lparr>cl_namespace = ns, cl_timeout = context_timeout\<rparr>, w)))"

definition ctrd_with_timeout :: "'w ctrd_svc \<Rightarrow> string \<Rightarrow> string \<Rightarrow> string \<Rightarrow> duration \<Rightarrow> 'w \<Rightarrow> (ctrd_error + ctrd_client) \<times> 'w" where
  "ctrd_with_timeout S addr ttrpc_addr ns timeout w =
     bindE (ctrd_new S addr ttrpc_addr ns w) (\<lambda>c w. (Inr (c\<lparr>cl_timeout := timeout\<rparr>), w))"

definition ctrd_version :: "'w ctrd_svc \<Rightarrow> 'w \<Rightarrow> (ctrd_error + string \<times> string) \<times> 'w" where
  "ctrd_version S w = grpc (sv_version S w)"

definition create_namespace :: "'w ctrd_svc \<Rightarrow> ctrd_client \<Rightarrow> 'w \<Rightarrow> (ctrd_error + string) \<times> 'w" where
  "create_namespace S c w =
     bindE (grpc (sv_ns_create S (cl_namespace c) (cl_namespace c) w)) (\<lambda>ns w.
     case ns of None \<Rightarrow> (Inl (CtEmptyField ''CreateNamespaceResponse.Namespace''), w) | Some n \<Rightarrow> (Inr n, w))"

definition list_namespaces :: "'w ctrd_svc \<Rightarrow> string option \<Rightarrow> 'w \<Rightarrow> (ctrd_error + string list) \<times> 'w" where
  "list_namespaces S filt w = grpc (sv_ns_list S (case filt of None \<Rightarrow> [] | Some f \<Rightarrow> f) w)"

definition delete_namespace :: "'w ctrd_svc \<Rightarrow> ctrd_client \<Rightarrow> 'w \<Rightarrow> (ctrd_error + unit) \<times> 'w" where
  "delete_namespace S c w = grpc (sv_ns_delete S (cl_namespace c) (cl_namespace c) w)"

section \<open>Content and images\<close>

fun collect_blob :: "(grpc_status + blob) list \<Rightarrow> blob \<Rightarrow> ctrd_error + blob" where
  "collect_blob [] acc = (if acc = [] then Inl (CtReadContent ''empty blob'') else Inr acc)"
| "collect_blob (Inl e # ms) acc = Inl (CtReadContent (''while reading a gRPC stream message: '' @ st_message e))"
| "collect_blob (Inr d # ms) acc = collect_blob ms (acc @ d)"

definition read_content_blob :: "'w ctrd_svc \<Rightarrow> ctrd_client \<Rightarrow> string \<Rightarrow> 'w \<Rightarrow> (ctrd_error + blob) \<times> 'w" where
  "read_content_blob S c digest w = bindE (grpc (sv_content_read S (cl_namespace c) digest w)) (\<lambda>ms w. (collect_blob ms [], w))"

definition get_image :: "'w ctrd_svc \<Rightarrow> ctrd_client \<Rightarrow> string \<Rightarrow> 'w \<Rightarrow> (ctrd_error + ctrd_image) \<times> 'w" where
  "get_image S c name w =
     bindE (grpc (sv_image_get S (cl_namespace c) name w)) (\<lambda>im w.
     case im of None \<Rightarrow> (Inl (CtEmptyField ''GetImageResponse.Image''), w) | Some i \<Rightarrow> (Inr i, w))"

definition list_images :: "'w ctrd_svc \<Rightarrow> ctrd_client \<Rightarrow> string list option \<Rightarrow> 'w \<Rightarrow> (ctrd_error + ctrd_image list) \<times> 'w" where
  "list_images S c fs w = grpc (sv_image_list S (cl_namespace c) (case fs of None \<Rightarrow> [] | Some xs \<Rightarrow> xs) w)"

definition delete_image :: "'w ctrd_svc \<Rightarrow> ctrd_client \<Rightarrow> string \<Rightarrow> bool \<Rightarrow> 'w \<Rightarrow> (ctrd_error + unit) \<times> 'w" where
  "delete_image S c name sync w = grpc (sv_image_delete S (cl_namespace c) name sync w)"

definition docker_index :: string where
  "docker_index = ''application/vnd.docker.distribution.manifest.list.v2+json''"

definition docker_manifest :: string where
  "docker_manifest = ''application/vnd.docker.distribution.manifest.v2+json''"

definition handle_manifest :: "'w ctrd_svc \<Rightarrow> ctrd_client \<Rightarrow> blob \<Rightarrow> 'w \<Rightarrow> (ctrd_error + image_config) \<times> 'w" where
  "handle_manifest S c b w =
     (case sv_parse_manifest S b of
        Inl _ \<Rightarrow> (Inl (CtJson ''failed to deserialize OCI image manifest''), w)
      | Inr digest \<Rightarrow>
          bindE (read_content_blob S c digest w) (\<lambda>b w.
          case sv_parse_config S b of
            Inl _ \<Rightarrow> (Inl (CtJson ''failed to deserialize OCI image configuration''), w)
          | Inr cfg \<Rightarrow> (Inr cfg, w)))"

definition for_this_platform :: "manifest_entry \<Rightarrow> bool" where
  "for_this_platform e \<longleftrightarrow> me_platform e = Some (Amd64, Linux)"

definition handle_index :: "'w ctrd_svc \<Rightarrow> ctrd_client \<Rightarrow> blob \<Rightarrow> 'w \<Rightarrow> (ctrd_error + image_config) \<times> 'w" where
  "handle_index S c b w =
     (case sv_parse_index S b of
        Inl _ \<Rightarrow> (Inl (CtJson ''failed to deserialize OCI image index''), w)
      | Inr es \<Rightarrow>
          (case List.find for_this_platform es of
             None \<Rightarrow> (Inl (CtManifestNotFound es), w)
           | Some e \<Rightarrow> bindE (read_content_blob S c (me_digest e) w) (handle_manifest S c)))"

definition get_image_config :: "'w ctrd_svc \<Rightarrow> ctrd_client \<Rightarrow> string \<Rightarrow> 'w \<Rightarrow> (ctrd_error + image_config) \<times> 'w" where
  "get_image_config S c image_ref w =
     bindE (get_image S c image_ref w) (\<lambda>im w.
     case im_target im of
       None \<Rightarrow> (Inl (CtEmptyField ''Image.target''), w)
     | Some (mt, digest) \<Rightarrow>
         bindE (read_content_blob S c digest w) (\<lambda>b w.
         case sv_media_type S mt of
           MediaIndex \<Rightarrow> handle_index S c b w
         | MediaManifest \<Rightarrow> handle_manifest S c b w
         | MediaOther t \<Rightarrow>
             if t = docker_index then handle_index S c b w
             else if t = docker_manifest then handle_manifest S c b w
             else (Inl (CtMediaType t), w)
         | MediaKnown t \<Rightarrow> (Inl (CtMediaType t), w)))"

text \<open>The strings of both fields, in order. The last but \<open>num_strs - 1\<close> of them get a space each; the
  subtraction wraps in a release build, and the capacity that results is refused with a panic.\<close>

definition exec_strings :: "exec_config \<Rightarrow> string list" where
  "exec_strings x = (case ec_entrypoint x of None \<Rightarrow> [] | Some ss \<Rightarrow> ss) @ (case ec_cmd x of None \<Rightarrow> [] | Some ss \<Rightarrow> ss)"

definition form_process_args :: "image_config \<Rightarrow> ctrd_error fault + string" where
  "form_process_args cfg =
     (case ic_config cfg of
        None \<Rightarrow> Inl (Err (CtMissingField ''.config''))
      | Some x \<Rightarrow>
          if ec_entrypoint x = None \<and> ec_cmd x = None then Inl (Err (CtMissingField ''`.config.entrypoint` nor `.config.cmd`''))
          else
            (let strs = exec_strings x; n = length strs in
             if n = 0 then Inl (Panic ''capacity overflow'')
             else Inr (fold (\<lambda>s ret. ret @ s @ '' '') (take (n - 1) strs) [] @ hd (drop (n - 1) strs))))"

section \<open>Containerd snapshots\<close>

fun parent_snapshot_loop :: "'w ctrd_svc \<Rightarrow> string list \<Rightarrow> string \<Rightarrow> string" where
  "parent_snapshot_loop S [] ret = ret"
| "parent_snapshot_loop S (d # ds) ret = parent_snapshot_loop S ds (''sha256:'' @ sv_sha256_hex S (ret @ '' '' @ d))"

definition calculate_parent_snapshot :: "'w ctrd_svc \<Rightarrow> image_config \<Rightarrow> string" where
  "calculate_parent_snapshot S cfg =
     (case ic_diff_ids cfg of [] \<Rightarrow> [] | d # ds \<Rightarrow> parent_snapshot_loop S ds d)"

definition find_parent_snapshot :: "'w ctrd_svc \<Rightarrow> ctrd_client \<Rightarrow> string \<Rightarrow> 'w \<Rightarrow> (ctrd_error + string) \<times> 'w" where
  "find_parent_snapshot S c image_ref w = bindE (get_image_config S c image_ref w) (\<lambda>cfg w. (Inr (calculate_parent_snapshot S cfg), w))"

definition prepare_with_snapshotter ::
  "'w ctrd_svc \<Rightarrow> ctrd_client \<Rightarrow> string \<Rightarrow> string \<Rightarrow> string \<Rightarrow> 'w \<Rightarrow> (ctrd_error + mount list) \<times> 'w" where
  "prepare_with_snapshotter S c snapshotter key parent w = grpc (sv_snap_prepare S (cl_namespace c) snapshotter key parent w)"

definition prepare_snapshot :: "'w ctrd_svc \<Rightarrow> ctrd_client \<Rightarrow> string \<Rightarrow> string \<Rightarrow> 'w \<Rightarrow> (ctrd_error + mount list) \<times> 'w" where
  "prepare_snapshot S c key image_ref w =
     bindE (find_parent_snapshot S c image_ref w) (prepare_with_snapshotter S c default_snapshotter key)"

definition remove_container_snapshot :: "'w ctrd_svc \<Rightarrow> ctrd_client \<Rightarrow> string \<Rightarrow> string option \<Rightarrow> 'w \<Rightarrow> (ctrd_error + unit) \<times> 'w" where
  "remove_container_snapshot S c key sn w =
     grpc (sv_snap_remove S (cl_namespace c) (case sn of None \<Rightarrow> default_snapshotter | Some x \<Rightarrow> x) key w)"

text \<open>Deleting everything a stream lists, key by key; a failed deletion is collected, a broken stream ends it.\<close>

fun delete_keys :: "(string \<Rightarrow> 'w \<Rightarrow> (grpc_status + unit) \<times> 'w) \<Rightarrow> string list \<Rightarrow> (string \<times> grpc_status) list \<Rightarrow> 'w
    \<Rightarrow> (string \<times> grpc_status) list \<times> 'w" where
  "delete_keys del [] failed w = (failed, w)"
| "delete_keys del (k # ks) failed w =
     (case del k w of
        (Inr _, w) \<Rightarrow> delete_keys del ks failed w
      | (Inl e, w) \<Rightarrow> delete_keys del ks (failed @ [(k, e)]) w)"

fun delete_stream :: "(string \<Rightarrow> 'w \<Rightarrow> (grpc_status + unit) \<times> 'w) \<Rightarrow> (grpc_status + string list) list \<Rightarrow> (string \<times> grpc_status) list \<Rightarrow> 'w
    \<Rightarrow> (ctrd_error + unit) \<times> 'w" where
  "delete_stream del [] failed w = (if failed = [] then Inr () else Inl (CtMassDeletion failed), w)"
| "delete_stream del (Inl e # ms) failed w = (Inl (CtStatus e), w)"
| "delete_stream del (Inr ks # ms) failed w = (case delete_keys del ks failed w of (failed, w) \<Rightarrow> delete_stream del ms failed w)"

definition remove_all_container_snapshots ::
  "'w ctrd_svc \<Rightarrow> ctrd_client \<Rightarrow> string option \<Rightarrow> string list option \<Rightarrow> 'w \<Rightarrow> (ctrd_error + unit) \<times> 'w" where
  "remove_all_container_snapshots S c sn fs w =
     (let snapshotter = (case sn of None \<Rightarrow> default_snapshotter | Some x \<Rightarrow> x) in
      bindE (grpc (sv_snap_list S (cl_namespace c) snapshotter (case fs of None \<Rightarrow> [] | Some xs \<Rightarrow> xs) w))
        (\<lambda>ms. delete_stream (sv_snap_remove S (cl_namespace c) snapshotter) ms []))"

definition delete_all_content :: "'w ctrd_svc \<Rightarrow> ctrd_client \<Rightarrow> string list option \<Rightarrow> 'w \<Rightarrow> (ctrd_error + unit) \<times> 'w" where
  "delete_all_content S c fs w =
     bindE (grpc (sv_content_list S (cl_namespace c) (case fs of None \<Rightarrow> [] | Some xs \<Rightarrow> xs) w))
       (\<lambda>ms. delete_stream (sv_content_delete S (cl_namespace c)) ms [])"

section \<open>Containers and tasks\<close>

definition create_container :: "'w ctrd_svc \<Rightarrow> ctrd_client \<Rightarrow> ctrd_container \<Rightarrow> 'w \<Rightarrow> (ctrd_error + ctrd_container) \<times> 'w" where
  "create_container S c req w =
     bindE (grpc (sv_ctr_create S (cl_namespace c) req w)) (\<lambda>r w.
     case r of None \<Rightarrow> (Inl (CtEmptyField ''CreateContainerResponse.Container''), w) | Some x \<Rightarrow> (Inr x, w))"

definition list_containers :: "'w ctrd_svc \<Rightarrow> ctrd_client \<Rightarrow> string list option \<Rightarrow> 'w \<Rightarrow> (ctrd_error + ctrd_container list) \<times> 'w" where
  "list_containers S c fs w = grpc (sv_ctr_list S (cl_namespace c) (case fs of None \<Rightarrow> [] | Some xs \<Rightarrow> xs) w)"

definition delete_container :: "'w ctrd_svc \<Rightarrow> ctrd_client \<Rightarrow> string \<Rightarrow> 'w \<Rightarrow> (ctrd_error + unit) \<times> 'w" where
  "delete_container S c cid w = grpc (sv_ctr_delete S (cl_namespace c) cid w)"

record ctrd_task =
  tk_container :: string
  tk_pid :: nat
  tk_exit :: "nat option"

definition create_task :: "'w ctrd_svc \<Rightarrow> ctrd_client \<Rightarrow> string \<Rightarrow> mount list \<Rightarrow> 'w \<Rightarrow> (ctrd_error + ctrd_task) \<times> 'w" where
  "create_task S c cid rootfs w =
     bindE (grpc (sv_task_create S (cl_namespace c) cid rootfs w))
       (\<lambda>(cid, pid) w. (Inr \<lparr>tk_container = cid, tk_pid = pid, tk_exit = None\<rparr>, w))"

definition start_task :: "'w ctrd_svc \<Rightarrow> ctrd_client \<Rightarrow> ctrd_task \<Rightarrow> 'w \<Rightarrow> (ctrd_error + ctrd_task) \<times> 'w" where
  "start_task S c t w = bindE (grpc (sv_task_start S (cl_namespace c) (tk_container t) w)) (\<lambda>pid w. (Inr (t\<lparr>tk_pid := pid\<rparr>), w))"

definition kill_task :: "'w ctrd_svc \<Rightarrow> ctrd_client \<Rightarrow> string \<Rightarrow> nat \<Rightarrow> bool \<Rightarrow> 'w \<Rightarrow> (ctrd_error + unit) \<times> 'w" where
  "kill_task S c cid sig everyone w = grpc (sv_task_kill S (cl_namespace c) cid sig everyone w)"

definition wait_task :: "'w ctrd_svc \<Rightarrow> ctrd_client \<Rightarrow> string \<Rightarrow> 'w \<Rightarrow> (ctrd_error + nat) \<times> 'w" where
  "wait_task S c cid w = grpc (sv_task_wait S (cl_namespace c) cid w)"

definition delete_task :: "'w ctrd_svc \<Rightarrow> ctrd_client \<Rightarrow> string \<Rightarrow> 'w \<Rightarrow> (ctrd_error + nat) \<times> 'w" where
  "delete_task S c cid w = grpc (sv_task_delete S (cl_namespace c) cid w)"

definition task_delete :: "'w ctrd_svc \<Rightarrow> ctrd_client \<Rightarrow> ctrd_task \<Rightarrow> 'w \<Rightarrow> (ctrd_error + nat) \<times> ctrd_task \<times> 'w" where
  "task_delete S c t w =
     (case delete_task S c (tk_container t) w of
        (Inl e, w) \<Rightarrow> (Inl e, t, w)
      | (Inr n, w) \<Rightarrow> (Inr n, t\<lparr>tk_exit := Some n\<rparr>, w))"

end
