(* ===== verification/Ctrd_Vm.thy ===== *)
theory Ctrd_Vm
  imports Ctrd
begin

text \<open>
  The virtual machines of \<^verbatim>\<open>firecracker-containerd-client\<close>: the calls of the client about them, the type \<^verbatim>\<open>Vm\<close>
  (\<^verbatim>\<open>vm/mod.rs\<close>), and the builders of machines, containers and network interfaces (\<^verbatim>\<open>vm/builder.rs\<close>,
  \<^verbatim>\<open>container.rs\<close>, \<^verbatim>\<open>netif.rs\<close>, \<^verbatim>\<open>oci/spec.rs\<close>).
\<close>

section \<open>The type\<close>

record vm =
  vm_id :: string
  vm_namespace :: string
  vm_pid :: "nat option"
  vm_socket_path :: "string option"
  vm_log_fifo_path :: "string option"
  vm_metrics_path :: "string option"
  vm_cgroup_path :: "string option"
  vm_state_file :: "string option"
  vm_memory_file :: "string option"

definition nonzero :: "nat \<Rightarrow> nat option" where
  "nonzero n = (if n \<noteq> 0 then Some n else None)"

definition vm_from_response :: "create_vm_response \<Rightarrow> string \<Rightarrow> vm" where
  "vm_from_response r ns =
     \<lparr>vm_id = cr_id r, vm_namespace = ns, vm_pid = nonzero (cr_pid r), vm_socket_path = Some (cr_socket r),
      vm_log_fifo_path = Some (cr_log_fifo r), vm_metrics_path = Some (cr_metrics_fifo r), vm_cgroup_path = Some (cr_cgroup r),
      vm_state_file = None, vm_memory_file = None\<rparr>"

definition vm_has_snapshot :: "vm \<Rightarrow> bool" where
  "vm_has_snapshot v \<longleftrightarrow> vm_state_file v \<noteq> None \<and> vm_memory_file v \<noteq> None"

definition set_snapshot_state_file :: "string \<Rightarrow> vm \<Rightarrow> (ctrd_error + unit) \<times> vm" where
  "set_snapshot_state_file p v = (if \<not> vm_has_snapshot v then (Inl CtNoSnapshot, v) else (Inr (), v\<lparr>vm_state_file := Some p\<rparr>))"

definition set_snapshot_memory_file :: "string \<Rightarrow> vm \<Rightarrow> (ctrd_error + unit) \<times> vm" where
  "set_snapshot_memory_file p v = (if \<not> vm_has_snapshot v then (Inl CtNoSnapshot, v) else (Inr (), v\<lparr>vm_memory_file := Some p\<rparr>))"

definition vm_clear_pid :: "vm \<Rightarrow> vm" where
  "vm_clear_pid v = v\<lparr>vm_pid := None\<rparr>"

definition vm_eq :: "vm \<Rightarrow> vm \<Rightarrow> bool" where
  "vm_eq a b \<longleftrightarrow> vm_id a = vm_id b \<and> vm_namespace a = vm_namespace b"

section \<open>The calls of the client\<close>

definition secs :: "duration \<Rightarrow> 32 word" where
  "secs d = of_nat (d div 1000000000)"

definition create_vm :: "'w ctrd_svc \<Rightarrow> ctrd_client \<Rightarrow> create_vm_request \<Rightarrow> 'w \<Rightarrow> (ctrd_error + vm) \<times> 'w" where
  "create_vm S c req w =
     bindE (ttrpc (sv_vm_create S (cl_namespace c) (cl_timeout c) req w)) (\<lambda>r w. (Inr (vm_from_response r (cl_namespace c)), w))"

definition pause_vm :: "'w ctrd_svc \<Rightarrow> ctrd_client \<Rightarrow> string \<Rightarrow> 'w \<Rightarrow> (ctrd_error + unit) \<times> 'w" where
  "pause_vm S c vid w = ttrpc (sv_vm_pause S (cl_namespace c) (cl_timeout c) vid w)"

definition resume_vm :: "'w ctrd_svc \<Rightarrow> ctrd_client \<Rightarrow> string \<Rightarrow> 'w \<Rightarrow> (ctrd_error + unit) \<times> 'w" where
  "resume_vm S c vid w = ttrpc (sv_vm_resume S (cl_namespace c) (cl_timeout c) vid w)"

text \<open>A stale file goes away, or the directory of the file is made.\<close>

definition prepare_path :: "'w ctrd_svc \<Rightarrow> string \<Rightarrow> 'w \<Rightarrow> (ctrd_error + unit) \<times> 'w" where
  "prepare_path S p w =
     (if sv_is_file S p w
      then map_prod (map_sum (CtIo (''failed to remove file '' @ p)) id) id (sv_remove_file S p w)
      else
        (case sv_parent S p of
           None \<Rightarrow> (Inl (CtIo (''failed to process path '' @ p) (IoOther (''failed to find parent directory for '' @ p))), w)
         | Some dir \<Rightarrow>
             map_prod (map_sum (CtIo (''failed to recursively create directories '' @ dir)) id) id (sv_create_dir_all S dir w)))"

definition fsync_path :: "'w ctrd_svc \<Rightarrow> string \<Rightarrow> 'w \<Rightarrow> (ctrd_error + unit) \<times> 'w" where
  "fsync_path S p w = map_prod (map_sum (CtIo ''failed to open(2) & fsync(2) file {path:?}'') id) id (sv_fsync S p w)"

text \<open>\<^verbatim>\<open>try_join!\<close> of two futures with one system call each: in one order or the other; the first error is the
  result, and what the other future has started may still happen.\<close>

definition try_join2 ::
  "'w ctrd_svc \<Rightarrow> ('w \<Rightarrow> (ctrd_error + unit) \<times> 'w) \<Rightarrow> ('w \<Rightarrow> (ctrd_error + unit) \<times> 'w) \<Rightarrow> 'w \<Rightarrow> (ctrd_error + unit) \<times> 'w" where
  "try_join2 S f g w =
     (let run = (\<lambda>a b.
        case a w of
          (Inl e, w') \<Rightarrow> (Inl e, if sv_lingers S w' then snd (b w') else w')
        | (Inr _, w') \<Rightarrow> b w') in
      if sv_second_first S w then run g f else run f g)"

definition to_str :: "string \<Rightarrow> ctrd_error + string" where
  "to_str p = (if utf8 (map of_char p) then Inr p else Inl (CtUtf p))"

definition create_vm_snapshot :: "'w ctrd_svc \<Rightarrow> ctrd_client \<Rightarrow> string \<Rightarrow> string \<Rightarrow> string \<Rightarrow> flush_data \<Rightarrow> 'w \<Rightarrow> (ctrd_error + unit) \<times> 'w" where
  "create_vm_snapshot S c vid state mem flush w =
     bindE (try_join2 S (prepare_path S state) (prepare_path S mem) w) (\<lambda>_ w.
     bindE (to_str state, w) (\<lambda>sp w.
     bindE (to_str mem, w) (\<lambda>mp w.
     bindE (ttrpc (sv_vm_snapshot S (cl_namespace c) (cl_timeout c) vid sp mp w)) (\<lambda>_ w.
     if flush = Fsync then try_join2 S (fsync_path S state) (fsync_path S mem) w else (Inr (), w)))))"

definition stop_vm :: "'w ctrd_svc \<Rightarrow> ctrd_client \<Rightarrow> string \<Rightarrow> duration \<Rightarrow> 'w \<Rightarrow> (ctrd_error + unit) \<times> 'w" where
  "stop_vm S c vid timeout w = ttrpc (sv_vm_stop S (cl_namespace c) timeout vid (secs timeout) w)"

definition load_vm_snapshot ::
  "'w ctrd_svc \<Rightarrow> ctrd_client \<Rightarrow> string \<Rightarrow> string \<Rightarrow> string \<Rightarrow> after_load \<Rightarrow> 'w \<Rightarrow> (ctrd_error + nat option) \<times> 'w" where
  "load_vm_snapshot S c vid state mem after w =
     bindE (to_str state, w) (\<lambda>sp w.
     bindE (to_str mem, w) (\<lambda>mp w.
     bindE (ttrpc (sv_vm_load S (cl_namespace c) (cl_timeout c) vid sp mp (after = LoadResume) w)) (\<lambda>pid w. (Inr (nonzero pid), w))))"

definition unload_vm :: "'w ctrd_svc \<Rightarrow> ctrd_client \<Rightarrow> string \<Rightarrow> 'w \<Rightarrow> (ctrd_error + unit) \<times> 'w" where
  "unload_vm S c vid w = ttrpc (sv_vm_unload S (cl_namespace c) (cl_timeout c) vid w)"

section \<open>The methods of a machine\<close>

definition vm_pause :: "'w ctrd_svc \<Rightarrow> ctrd_client \<Rightarrow> vm \<Rightarrow> 'w \<Rightarrow> (ctrd_error + unit) \<times> 'w" where
  "vm_pause S c v w = pause_vm S c (vm_id v) w"

definition vm_resume :: "'w ctrd_svc \<Rightarrow> ctrd_client \<Rightarrow> vm \<Rightarrow> 'w \<Rightarrow> (ctrd_error + unit) \<times> 'w" where
  "vm_resume S c v w = resume_vm S c (vm_id v) w"

definition vm_create_snapshot ::
  "'w ctrd_svc \<Rightarrow> ctrd_client \<Rightarrow> string \<Rightarrow> string \<Rightarrow> flush_data \<Rightarrow> vm \<Rightarrow> 'w \<Rightarrow> (ctrd_error + unit) \<times> vm \<times> 'w" where
  "vm_create_snapshot S c state mem flush v w =
     (case create_vm_snapshot S c (vm_id v) state mem flush w of
        (Inl e, w) \<Rightarrow> (Inl e, v, w)
      | (Inr _, w) \<Rightarrow> (Inr (), v\<lparr>vm_state_file := Some state, vm_memory_file := Some mem\<rparr>, w))"

definition vm_stop :: "'w ctrd_svc \<Rightarrow> ctrd_client \<Rightarrow> duration \<Rightarrow> vm \<Rightarrow> 'w \<Rightarrow> (ctrd_error + unit) \<times> vm \<times> 'w" where
  "vm_stop S c timeout v w =
     (case stop_vm S c (vm_id v) timeout w of (Inl e, w) \<Rightarrow> (Inl e, v, w) | (Inr _, w) \<Rightarrow> (Inr (), v\<lparr>vm_pid := None\<rparr>, w))"

definition vm_load_from_snapshot :: "'w ctrd_svc \<Rightarrow> ctrd_client \<Rightarrow> after_load \<Rightarrow> vm \<Rightarrow> 'w \<Rightarrow> (ctrd_error + unit) \<times> vm \<times> 'w" where
  "vm_load_from_snapshot S c after v w =
     (case (vm_state_file v, vm_memory_file v) of
        (Some sf, Some mf) \<Rightarrow>
          (case load_vm_snapshot S c (vm_id v) sf mf after w of
             (Inl e, w) \<Rightarrow> (Inl e, v, w)
           | (Inr pid, w) \<Rightarrow> (Inr (), v\<lparr>vm_pid := Option.bind pid nonzero\<rparr>, w))
      | _ \<Rightarrow> (Inl CtNoSnapshot, v, w))"

definition vm_unload :: "'w ctrd_svc \<Rightarrow> ctrd_client \<Rightarrow> vm \<Rightarrow> 'w \<Rightarrow> (ctrd_error + unit) \<times> vm \<times> 'w" where
  "vm_unload S c v w =
     (case unload_vm S c (vm_id v) w of (Inl e, w) \<Rightarrow> (Inl e, v, w) | (Inr _, w) \<Rightarrow> (Inr (), v\<lparr>vm_pid := None\<rparr>, w))"

section \<open>The builder of machines\<close>

record vm_builder =
  vb_id :: string
  vb_vcpus :: "32 word"
  vb_mem_mib :: "32 word"
  vb_kernel_img :: "string option"
  vb_kernel_args :: "string option"
  vb_root_drive :: "(string \<times> bool) option"
  vb_net_ifaces :: "net_if list"
  vb_ctr_count :: "32 word"
  vb_exit_after :: bool

definition default_kernel_args :: string where
  "default_kernel_args = ''i8042.nokbd i8042.noaux 8250.nr_uarts=0 ipv6.disable=1 noapic reboot=k panic=1 pci=off nomodules ro systemd.unified_cgroup_hierarchy=0 systemd.journald.forward_to_console systemd.unit=firecracker.target init=/sbin/overlay-init''"

definition vb_new :: "string \<Rightarrow> vm_builder" where
  "vb_new vid =
     \<lparr>vb_id = vid, vb_vcpus = 1, vb_mem_mib = 128, vb_kernel_img = None, vb_kernel_args = None, vb_root_drive = None,
      vb_net_ifaces = [], vb_ctr_count = 1, vb_exit_after = True\<rparr>"

definition vb_set_vcpus :: "32 word \<Rightarrow> vm_builder \<Rightarrow> vm_builder" where
  "vb_set_vcpus n b = b\<lparr>vb_vcpus := n\<rparr>"

definition vb_set_memory :: "32 word \<Rightarrow> vm_builder \<Rightarrow> vm_builder" where
  "vb_set_memory n b = b\<lparr>vb_mem_mib := n\<rparr>"

definition vb_set_kernel_image :: "string \<Rightarrow> vm_builder \<Rightarrow> ctrd_error + vm_builder" where
  "vb_set_kernel_image p b = map_sum id (\<lambda>s. b\<lparr>vb_kernel_img := Some s\<rparr>) (to_str p)"

definition vb_set_kernel_args :: "string \<Rightarrow> vm_builder \<Rightarrow> vm_builder" where
  "vb_set_kernel_args a b = b\<lparr>vb_kernel_args := Some a\<rparr>"

definition vb_set_root_drive :: "string \<Rightarrow> bool \<Rightarrow> vm_builder \<Rightarrow> ctrd_error + vm_builder" where
  "vb_set_root_drive p read_only b = map_sum id (\<lambda>s. b\<lparr>vb_root_drive := Some (s, \<not> read_only)\<rparr>) (to_str p)"

definition vb_add_interface :: "net_if \<Rightarrow> vm_builder \<Rightarrow> vm_builder" where
  "vb_add_interface i b = b\<lparr>vb_net_ifaces := vb_net_ifaces b @ [i]\<rparr>"

definition vb_set_count :: "64 word \<Rightarrow> vm_builder \<Rightarrow> vm_builder" where
  "vb_set_count n b = b\<lparr>vb_ctr_count := ucast n\<rparr>"

definition vb_set_exit :: "bool \<Rightarrow> vm_builder \<Rightarrow> vm_builder" where
  "vb_set_exit e b = b\<lparr>vb_exit_after := e\<rparr>"

definition vb_request :: "vm_builder \<Rightarrow> duration \<Rightarrow> create_vm_request" where
  "vb_request b timeout =
     \<lparr>cv_id = vb_id b, cv_kernel_img = (case vb_kernel_img b of None \<Rightarrow> [] | Some p \<Rightarrow> p),
      cv_kernel_args = (case vb_kernel_args b of None \<Rightarrow> default_kernel_args | Some a \<Rightarrow> a), cv_root_drive = vb_root_drive b,
      cv_net_ifaces = vb_net_ifaces b, cv_ctr_count = vb_ctr_count b, cv_exit_after = vb_exit_after b,
      cv_timeout_secs = secs timeout, cv_mem_mib = vb_mem_mib b, cv_vcpus = vb_vcpus b\<rparr>"

definition vb_create :: "'w ctrd_svc \<Rightarrow> ctrd_client \<Rightarrow> duration \<Rightarrow> vm_builder \<Rightarrow> 'w \<Rightarrow> (ctrd_error + vm) \<times> 'w" where
  "vb_create S c timeout b w = create_vm S c (vb_request b timeout) w"

text \<open>The interface of a machine over its TAP device; the address of the guest is left to Firecracker.\<close>

definition net_interface :: "string \<Rightarrow> ipv4_addr \<Rightarrow> nat \<Rightarrow> ipv4_addr \<Rightarrow> ipv4_addr list \<Rightarrow> net_if" where
  "net_interface dev addr len gw nss =
     \<lparr>nf_mac = [], nf_host_dev = dev, nf_primary_addr = show_ip addr @ ''/'' @ show_nat len, nf_gateway = show_ip gw,
      nf_nameservers = map show_ip (take 2 nss)\<rparr>"

definition to_firecracker_if :: "tap_device \<Rightarrow> ipv4_addr list \<Rightarrow> net_if" where
  "to_firecracker_if tap nss =
     net_interface (ti_name (td_info tap)) (ti_ip (td_info tap)) (ti_prefix (td_info tap)) (ti_gateway (td_info tap)) nss"

section \<open>The specification and the builder of containers\<close>

datatype spec_source =
  SpecFile string string string string
| SpecBuilder string string string
| SpecTemplate string string string

definition spec_patterns :: "string list" where
  "spec_patterns = [''['' @ quoted ''$SNAPLACE_PROCESS_ARGS'' @ '']'', ''$SNAPLACE_CONTAINERD_NAMESPACE'', ''$SNAPLACE_VMID'']"

definition fill_template :: "'w ctrd_svc \<Rightarrow> string \<Rightarrow> string \<Rightarrow> string \<Rightarrow> string \<Rightarrow> ctrd_error + string" where
  "fill_template S haystack process_args ns vid =
     (case sv_json_strings S (split_on CHR '' '' process_args) of
        Inl _ \<Rightarrow> Inl (CtJson (''failed to serialize '' @ process_args))
      | Inr args \<Rightarrow> Inr (sv_replace_all S spec_patterns haystack [args, ns, vid]))"

fun into_json :: "'w ctrd_svc \<Rightarrow> spec_source \<Rightarrow> 'w \<Rightarrow> (ctrd_error + string) \<times> 'w" where
  "into_json S (SpecFile p process_args ns vid) w =
     bindE (map_prod (map_sum (CtIo (''failed to read Spec file '' @ p)) id) id (sv_read_file S p w))
       (\<lambda>haystack w. (fill_template S haystack process_args ns vid, w))"
| "into_json S (SpecBuilder process_args ns vid) w =
     (map_sum (\<lambda>_. CtJson ''failed to serialize OCI spec'') id (sv_builder_json S process_args ns vid), w)"
| "into_json S (SpecTemplate process_args ns vid) w = (fill_template S (sv_spec_template S) process_args ns vid, w)"

record ctr_builder =
  cb_id :: string
  cb_labels :: "(string \<rightharpoonup> string) option"
  cb_image :: string
  cb_runtime :: "string option"
  cb_spec :: "spec_source option"
  cb_snapshotter :: string
  cb_snapshot_key :: string

definition container_builder :: "vm \<Rightarrow> string \<Rightarrow> string \<Rightarrow> ctr_builder" where
  "container_builder v img key =
     \<lparr>cb_id = vm_id v, cb_labels = None, cb_image = img, cb_runtime = None, cb_spec = None,
      cb_snapshotter = default_snapshotter, cb_snapshot_key = key\<rparr>"

definition cb_label :: "string \<Rightarrow> string \<Rightarrow> ctr_builder \<Rightarrow> ctr_builder" where
  "cb_label k v b = b\<lparr>cb_labels := Some ((case cb_labels b of None \<Rightarrow> Map.empty | Some m \<Rightarrow> m)(k \<mapsto> v))\<rparr>"

definition cb_set_spec :: "spec_source \<Rightarrow> ctr_builder \<Rightarrow> ctr_builder" where
  "cb_set_spec src b = b\<lparr>cb_spec := Some src\<rparr>"

definition cb_set_runtime :: "string \<Rightarrow> ctr_builder \<Rightarrow> ctr_builder" where
  "cb_set_runtime r b = b\<lparr>cb_runtime := Some r\<rparr>"

definition cb_set_snapshotter :: "string \<Rightarrow> ctr_builder \<Rightarrow> ctr_builder" where
  "cb_set_snapshotter sn b = b\<lparr>cb_snapshotter := sn\<rparr>"

definition cb_create :: "'w ctrd_svc \<Rightarrow> ctrd_client \<Rightarrow> ctr_builder \<Rightarrow> 'w \<Rightarrow> (ctrd_error + ctrd_container) \<times> 'w" where
  "cb_create S c b w =
     (case cb_spec b of
        None \<Rightarrow> (Inl (CtEmptyField ''container::Builder.spec''), w)
      | Some src \<Rightarrow>
          bindE (into_json S src w) (\<lambda>json w.
          create_container S c
            \<lparr>ct_id = cb_id b, ct_labels = (case cb_labels b of None \<Rightarrow> Map.empty | Some m \<Rightarrow> m), ct_image = cb_image b,
             ct_runtime = (case cb_runtime b of None \<Rightarrow> ''aws.firecracker'' | Some r \<Rightarrow> r),
             ct_spec_type = ''types.containerd.io/opencontainers/runtime-spec/1/Spec'', ct_spec = json,
             ct_snapshotter = cb_snapshotter b, ct_snapshot_key = cb_snapshot_key b\<rparr> w))"

end
