(* ===== verification/Fcctrd.thy ===== *)
theory Fcctrd
  imports Ctrd_Vm
begin

text \<open>
  \<^verbatim>\<open>worker/runtime/fcctrd\<close>: the runtime that drives \<^verbatim>\<open>firecracker-containerd\<close> through its client, and the helper
  for processes, \<^verbatim>\<open>utils/psutils.rs\<close>.

  What the code asks of the system is the record \<open>fcctrd_env\<close>: the operations \<open>fc_os\<close> shared with the other
  runtime, the services \<open>ctrd_svc\<close>, \<^verbatim>\<open>/proc\<close>, signals, pidfds, the command line tool that pulls images, the
  delays of the retry policy, and whether the text of an error tells of an exceeded deadline. The timers
  are ideal: a tick comes when it is due. \<^verbatim>\<open>REGISTERED_IMAGES\<close>, a static, is an argument of the functions that
  use it. A panic inside \<^verbatim>\<open>spawn_blocking\<close> is an error of the join.
\<close>

section \<open>The surroundings\<close>

record ('w, 'p) fcctrd_env =
  fe_os :: "('w, 'p) fc_os"
  fe_svc :: "'w ctrd_svc"
  fe_read_stat :: "nat \<Rightarrow> 'w \<Rightarrow> io_source + string"
  fe_pid_exists :: "nat \<Rightarrow> 'w \<Rightarrow> bool"
  fe_kill_term :: "nat \<Rightarrow> 'w \<Rightarrow> (fs_errno + unit) \<times> 'w"
  fe_kill_group_term :: "nat \<Rightarrow> 'w \<Rightarrow> (fs_errno + unit) \<times> 'w"
  fe_pidfd :: "nat \<Rightarrow> 'w \<Rightarrow> bool"
  fe_await_exit :: "nat \<Rightarrow> 'w \<Rightarrow> 'w"
  fe_run_ctr :: "string \<Rightarrow> string list \<Rightarrow> 'w \<Rightarrow> (io_source + bool) \<times> 'w"
  fe_delays :: "'w \<Rightarrow> duration list"
  fe_deadline :: "ctrd_error \<Rightarrow> bool"

section \<open>Processes\<close>

datatype psutils_error = PsIo string io_source | PsParseInt string int_error_kind

record process =
  pr_pid :: nat
  pr_comm :: string
  pr_state :: char
  pr_ppid :: nat
  pr_pgrp :: nat

text \<open>\<^verbatim>\<open>u32::from_str\<close>.\<close>

fun parse_below :: "nat \<Rightarrow> nat \<Rightarrow> string \<Rightarrow> int_error_kind + nat" where
  "parse_below bnd acc [] = Inr acc"
| "parse_below bnd acc (c # cs) =
     (case to_digit c of None \<Rightarrow> Inl InvalidDigit
      | Some d \<Rightarrow> if 10 * acc + d < bnd then parse_below bnd (10 * acc + d) cs else Inl PosOverflow)"

definition parse_u32 :: "string \<Rightarrow> int_error_kind + nat" where
  "parse_u32 s =
     (let go = parse_below 0x100000000 0 in
      case s of [] \<Rightarrow> Inl Empty
      | c # cs \<Rightarrow> if c = CHR ''+'' then (if cs = [] then Inl InvalidDigit else go cs)
                  else if c = CHR ''-'' \<and> cs = [] then Inl InvalidDigit
                  else go (c # cs))"

text \<open>White space is that of ASCII.\<close>

function split_whitespace :: "string \<Rightarrow> string list" where
  "split_whitespace [] = []"
| "split_whitespace (c # cs) =
     (if is_ws c then split_whitespace cs
      else (c # takeWhile (\<lambda>x. \<not> is_ws x) cs) # split_whitespace (dropWhile (\<lambda>x. \<not> is_ws x) cs))"
  by pat_completeness auto

termination split_whitespace
  by (relation "measure length") (auto simp: less_Suc_eq_le length_dropWhile_le)

definition out_of_bounds :: "psutils_error fault + 'a" where
  "out_of_bounds = Inl (Panic ''index out of bounds'')"

definition parse_stat :: "nat \<Rightarrow> string \<Rightarrow> psutils_error fault + process" where
  "parse_stat pid st =
     (case split_whitespace st of
        [] \<Rightarrow> out_of_bounds
      | a # ws1 \<Rightarrow>
          if parse_u32 a \<noteq> Inr pid then Inl (Panic ''assertion failed: stat[0].parse() == Ok(pid)'')
          else
            (case ws1 of
               [] \<Rightarrow> out_of_bounds
             | b # ws2 \<Rightarrow>
                 if length b < 2 then Inl (Panic ''slice index starts at 1 but ends at 0'')
                 else
                   (case ws2 of
                      [] \<Rightarrow> out_of_bounds
                    | c # ws3 \<Rightarrow>
                        (case ws3 of
                           [] \<Rightarrow> out_of_bounds
                         | d # ws4 \<Rightarrow>
                             (case parse_u32 d of
                                Inl e \<Rightarrow> Inl (Err (PsParseInt ''failed to parse PPID as u32'' e))
                              | Inr ppid \<Rightarrow>
                                  (case ws4 of
                                     [] \<Rightarrow> out_of_bounds
                                   | e # _ \<Rightarrow>
                                       (case parse_u32 e of
                                          Inl e \<Rightarrow> Inl (Err (PsParseInt ''failed to parse PGID as u32'' e))
                                        | Inr pgrp \<Rightarrow>
                                            Inr \<lparr>pr_pid = pid, pr_comm = drop 1 (take (length b - 1) b), pr_state = hd c,
                                                 pr_ppid = ppid, pr_pgrp = pgrp\<rparr>)))))))"

definition process_stat :: "('w, 'p) fcctrd_env \<Rightarrow> nat \<Rightarrow> 'w \<Rightarrow> psutils_error fault + process" where
  "process_stat E pid w =
     (case fe_read_stat E pid w of
        Inl e \<Rightarrow> Inl (Err (PsIo (''failed to read '' @ quoted (''/proc/'' @ show_nat pid @ ''/stat'')) e))
      | Inr st \<Rightarrow> parse_stat pid st)"

text \<open>A tick at once and after every \<open>period\<close>, the last one when the time is up.\<close>

fun poll_ticks :: "('w, 'p) fcctrd_env \<Rightarrow> nat \<Rightarrow> duration \<Rightarrow> nat \<Rightarrow> 'w \<Rightarrow> bool \<times> 'w" where
  "poll_ticks E pid period 0 w = (if \<not> fe_pid_exists E pid w then (True, w) else (False, w))"
| "poll_ticks E pid period (Suc n) w =
     (if \<not> fe_pid_exists E pid w then (True, w) else poll_ticks E pid period n (fo_sleep (fe_os E) period w))"

definition poll_pid_until_exit :: "('w, 'p) fcctrd_env \<Rightarrow> nat \<Rightarrow> duration \<Rightarrow> duration \<Rightarrow> 'w \<Rightarrow> bool \<times> 'w" where
  "poll_pid_until_exit E pid period timeout w =
     (case poll_ticks E pid period (timeout div period) w of
        (True, w) \<Rightarrow> (True, w)
      | (False, w) \<Rightarrow> (False, if timeout mod period = 0 then w else fo_sleep (fe_os E) (timeout mod period) w))"

section \<open>Errors, configuration, state\<close>

datatype fcctrd_error =
  CeInit string
| CeCreateVm ctrd_error
| CePauseVm ctrd_error
| CeResumeVm ctrd_error
| CeCreateVmSnapshot ctrd_error
| CeLoadVmSnapshot ctrd_error
| CeUnloadVm ctrd_error
| CeStopVm ctrd_error
| CeDestroyVm
| CePrepareSnapshot ctrd_error
| CeCreateContainer ctrd_error
| CeDeleteContainer ctrd_error
| CeCreateTask ctrd_error
| CeStartTask ctrd_error
| CeReinstate string
| CeProcessUtil string psutils_error

datatype fcctrd_failure =
  CfErr fcctrd_error
| CfClient ctrd_error
| CfNet net_error
| CfPs psutils_error
| CfJoin string

record fcctrd_config =
  cc_address :: string
  cc_ttrpc_address :: string
  cc_namespace :: string
  cc_snapshotter :: string
  cc_nameservers :: "ipv4_addr list"
  cc_ctr :: string

record fcctrd_function_info =
  cfi_id :: function_id
  cfi_image_ref :: string
  cfi_memory :: "64 word"
  cfi_parent_snapshot :: "string option"
  cfi_process_args :: "string option"

record 'w fcctrd =
  rc_config :: fcctrd_config
  rc_client :: "ctrd_client option"
  rc_fi :: fcctrd_function_info
  rc_snapshot :: "string option"
  rc_world :: 'w

record ctr_vm = sandbox +
  cm_function_id :: function_id
  cm_tap :: tap_device
  cm_vm :: vm

record ctr_vm_state =
  cs_stats :: sandbox_stats
  cs_tap :: tap_info
  cs_vm :: vm

type_synonym ('w, 'a) fcctrd_result = "(fcctrd_failure fault + 'a) \<times> 'w fcctrd"

type_synonym 'w fcctrd_call = "(fcctrd_failure fault + unit) \<times> ctr_vm \<times> 'w fcctrd"

definition client_timeout :: duration where
  "client_timeout = 7500000000"

definition snap_key :: "string \<Rightarrow> string" where
  "snap_key vid = vid @ ''-snap''"

definition fcctrd_new :: "fcctrd_config \<Rightarrow> fcctrd_function_info \<Rightarrow> ctr_vm option \<Rightarrow> 'w \<Rightarrow> 'w fcctrd" where
  "fcctrd_new cf fi sb w =
     \<lparr>rc_config = cf, rc_client = None, rc_fi = fi, rc_snapshot = map_option (\<lambda>v. snap_key (vm_id (cm_vm v))) sb, rc_world = w\<rparr>"

definition fcctrd_init :: "('w, 'p) fcctrd_env \<Rightarrow> 'w fcctrd \<Rightarrow> ('w, unit) fcctrd_result" where
  "fcctrd_init E s =
     (case ctrd_with_timeout (fe_svc E) (cc_address (rc_config s)) (cc_ttrpc_address (rc_config s)) (cc_namespace (rc_config s))
             client_timeout (rc_world s) of
        (Inl e, w) \<Rightarrow> (Inl (Err (CfClient e)), s\<lparr>rc_world := w\<rparr>)
      | (Inr c, w) \<Rightarrow> (Inr (), s\<lparr>rc_client := Some c, rc_world := w\<rparr>))"

definition not_initialized :: "fcctrd_failure fault" where
  "not_initialized = Panic ''Runtime is initialized''"

definition wrap :: "(ctrd_error \<Rightarrow> fcctrd_error) \<Rightarrow> ctrd_error + 'a \<Rightarrow> fcctrd_failure fault + 'a" where
  "wrap f r = map_sum (Err \<circ> CfErr \<circ> f) id r"

section \<open>Creation\<close>

definition vm_builder_for :: "'w fcctrd \<Rightarrow> tap_device \<Rightarrow> vm_builder" where
  "vm_builder_for s tap =
     vb_set_count 1 (vb_set_exit True (vb_add_interface (to_firecracker_if tap (take 2 (cc_nameservers (rc_config s))))
       (vb_set_memory (ucast (drop_bit 20 (cfi_memory (rc_fi s)))) (vb_new (ti_name (td_info tap))))))"

text \<open>The container, its snapshot and its task, with what is undone when a step fails.\<close>

definition container_for :: "('w, 'p) fcctrd_env \<Rightarrow> ctrd_client \<Rightarrow> vm \<Rightarrow> string \<Rightarrow> string \<Rightarrow> string \<Rightarrow> 'w \<Rightarrow> (fcctrd_error + ctrd_container) \<times> 'w" where
  "container_for E c v image_ref process_args key w =
     (case cb_create (fe_svc E) c (cb_set_spec (SpecTemplate process_args (vm_namespace v) (vm_id v)) (container_builder v image_ref key)) w of
        (Inr x, w) \<Rightarrow> (Inr x, w)
      | (Inl e, w) \<Rightarrow> (Inl (CeCreateContainer e), snd (stop_vm (fe_svc E) c (vm_id v) client_timeout w)))"

definition undo_container :: "('w, 'p) fcctrd_env \<Rightarrow> ctrd_client \<Rightarrow> vm \<Rightarrow> ctrd_container \<Rightarrow> 'w \<Rightarrow> 'w" where
  "undo_container E c v x w =
     snd (stop_vm (fe_svc E) c (vm_id v) client_timeout (snd (delete_container (fe_svc E) c (ct_id x) w)))"

definition mounts_for :: "('w, 'p) fcctrd_env \<Rightarrow> ctrd_client \<Rightarrow> vm \<Rightarrow> ctrd_container \<Rightarrow> string \<Rightarrow> string \<Rightarrow> 'w \<Rightarrow> (fcctrd_error + mount list) \<times> 'w" where
  "mounts_for E c v x image_ref key w =
     (case prepare_snapshot (fe_svc E) c key image_ref w of
        (Inr m, w) \<Rightarrow> (Inr m, w)
      | (Inl e, w) \<Rightarrow> (Inl (CePrepareSnapshot e), undo_container E c v x w))"

definition task_for :: "('w, 'p) fcctrd_env \<Rightarrow> ctrd_client \<Rightarrow> vm \<Rightarrow> ctrd_container \<Rightarrow> mount list \<Rightarrow> 'w \<Rightarrow> (fcctrd_error + ctrd_task) \<times> 'w" where
  "task_for E c v x mounts w =
     (case create_task (fe_svc E) c (ct_id x) mounts w of
        (Inr t, w) \<Rightarrow> (Inr t, w)
      | (Inl e, w) \<Rightarrow> (Inl (CeCreateTask e), undo_container E c v x w))"

definition run_in_vm :: "('w, 'p) fcctrd_env \<Rightarrow> ctrd_client \<Rightarrow> vm \<Rightarrow> string \<Rightarrow> string \<Rightarrow> string \<Rightarrow> 'w \<Rightarrow> (fcctrd_error + unit) \<times> 'w" where
  "run_in_vm E c v image_ref process_args key w =
     bindE (container_for E c v image_ref process_args key w) (\<lambda>x w.
     bindE (mounts_for E c v x image_ref key w) (\<lambda>mounts w.
     bindE (task_for E c v x mounts w) (\<lambda>t w.
     case start_task (fe_svc E) c t w of
       (Inl e, w) \<Rightarrow> (Inl (CeStartTask e), w)
     | (Inr _, w) \<Rightarrow> (Inr (), w))))"

definition fcctrd_create_vm :: "('w, 'p) fcctrd_env \<Rightarrow> function_id \<Rightarrow> tap_device \<Rightarrow> 'w fcctrd \<Rightarrow> ('w, ctr_vm) fcctrd_result" where
  "fcctrd_create_vm E fid tap s =
     (case rc_client s of
        None \<Rightarrow> (Inl not_initialized, s)
      | Some c \<Rightarrow>
          (case vb_create (fe_svc E) c client_timeout (vm_builder_for s tap) (rc_world s) of
             (Inl e, w) \<Rightarrow> (Inl (Err (CfErr (CeCreateVm e))), s\<lparr>rc_world := w\<rparr>)
           | (Inr v, w) \<Rightarrow>
               if rc_snapshot s \<noteq> None then (Inl (Panic ''snapshot should not exist yet''), s\<lparr>rc_world := w\<rparr>)
               else
                 (let key = snap_key (ti_name (td_info tap)); s = s\<lparr>rc_snapshot := Some key, rc_world := w\<rparr> in
                  case cfi_process_args (rc_fi s) of
                    None \<Rightarrow> (Inl (Panic ''FunctionInfo should be initialized by now''), s)
                  | Some process_args \<Rightarrow>
                      (case run_in_vm E c v (cfi_image_ref (rc_fi s)) process_args key (rc_world s) of
                         (Inl e, w) \<Rightarrow> (Inl (Err (CfErr e)), s\<lparr>rc_world := w\<rparr>)
                       | (Inr _, w) \<Rightarrow>
                           (Inr \<lparr>sb_id = ti_name (td_info tap), sb_stats = \<lparr>sb_invocations = 0, sb_restorations = 0\<rparr>,
                                 cm_function_id = fid, cm_tap = tap, cm_vm = v\<rparr>,
                            s\<lparr>rc_world := w\<rparr>)))))"

text \<open>The time of the creation is set, not added, whether it succeeds or not.\<close>

definition fcctrd_create_sandbox ::
  "('w, 'p) fcctrd_env \<Rightarrow> 'w rtnl \<Rightarrow> function_id \<Rightarrow> tap \<Rightarrow> timings \<Rightarrow> 'w fcctrd \<Rightarrow> (fcctrd_failure fault + ctr_vm) \<times> timings \<times> 'w fcctrd" where
  "fcctrd_create_sandbox E N fid net tm s =
     (let os = fe_os E; w0 = rc_world s;
          go = (\<lambda>tap tm s. case fcctrd_create_vm E fid tap s of
                  (r, s') \<Rightarrow> (r, tm(T_CreateSandbox := of_nat (fo_now os (rc_world s') - fo_now os (rc_world s))), s')) in
      case net of
        Device tap \<Rightarrow> go tap tm s
      | Builder i \<Rightarrow>
          (case tap_build N i w0 of
             (Inl e, w) \<Rightarrow> (Inl (Err (CfNet e)), tm, s\<lparr>rc_world := w\<rparr>)
           | (Inr tap, w) \<Rightarrow> go tap (add_time T_SetupResources (fo_now os w - fo_now os w0) tm) (s\<lparr>rc_world := w\<rparr>)))"

section \<open>Loading, pausing, snapshots\<close>

definition on_vm :: "(ctrd_error \<Rightarrow> fcctrd_error) \<Rightarrow> (ctrd_client \<Rightarrow> vm \<Rightarrow> 'w \<Rightarrow> (ctrd_error + unit) \<times> vm \<times> 'w) \<Rightarrow> ctr_vm \<Rightarrow> 'w fcctrd \<Rightarrow> 'w fcctrd_call" where
  "on_vm err f u s =
     (case rc_client s of
        None \<Rightarrow> (Inl not_initialized, u, s)
      | Some c \<Rightarrow> (case f c (cm_vm u) (rc_world s) of (r, v, w) \<Rightarrow> (wrap err r, u\<lparr>cm_vm := v\<rparr>, s\<lparr>rc_world := w\<rparr>)))"

definition fcctrd_load_sandbox :: "('w, 'p) fcctrd_env \<Rightarrow> ctr_vm \<Rightarrow> 'w fcctrd \<Rightarrow> 'w fcctrd_call" where
  "fcctrd_load_sandbox E = on_vm CeLoadVmSnapshot (\<lambda>c. vm_load_from_snapshot (fe_svc E) c LoadResume)"

fun pause_retry :: "('w, 'p) fcctrd_env \<Rightarrow> ctrd_client \<Rightarrow> vm \<Rightarrow> duration list \<Rightarrow> 'w \<Rightarrow> (ctrd_error + unit) \<times> 'w" where
  "pause_retry E c v [] w = vm_pause (fe_svc E) c v w"
| "pause_retry E c v (d # ds) w =
     (case vm_pause (fe_svc E) c v w of
        (Inr _, w) \<Rightarrow> (Inr (), w)
      | (Inl e, w) \<Rightarrow> if fe_deadline E e then pause_retry E c v ds (fo_sleep (fe_os E) d w) else (Inl e, w))"

definition max_pause_retries :: nat where
  "max_pause_retries = 7"

definition fcctrd_pause_sandbox :: "('w, 'p) fcctrd_env \<Rightarrow> ctr_vm \<Rightarrow> 'w fcctrd \<Rightarrow> 'w fcctrd_call" where
  "fcctrd_pause_sandbox E =
     on_vm CePauseVm (\<lambda>c v w. case pause_retry E c v (take max_pause_retries (fe_delays E w)) w of (r, w) \<Rightarrow> (r, v, w))"

definition fcctrd_resume_sandbox :: "('w, 'p) fcctrd_env \<Rightarrow> ctr_vm \<Rightarrow> 'w fcctrd \<Rightarrow> 'w fcctrd_call" where
  "fcctrd_resume_sandbox E = on_vm CeResumeVm (\<lambda>c v w. case vm_resume (fe_svc E) c v w of (r, w) \<Rightarrow> (r, v, w))"

definition fcctrd_create_snapshot :: "('w, 'p) fcctrd_env \<Rightarrow> string \<Rightarrow> string \<Rightarrow> ctr_vm \<Rightarrow> 'w fcctrd \<Rightarrow> 'w fcctrd_call" where
  "fcctrd_create_snapshot E state mem = on_vm CeCreateVmSnapshot (\<lambda>c. vm_create_snapshot (fe_svc E) c state mem Fsync)"

text \<open>The text of an error that is taken as harmless.\<close>

definition ttrpc_closed :: ctrd_error where
  "ttrpc_closed = CtTtrpc (TtrpcStatus ''ttrpc: closed'')"

text \<open>\<^verbatim>\<open>Pid::from_raw\<close> on a pid cut to 32 bits.\<close>

definition raw_pid :: "nat \<Rightarrow> nat option" where
  "raw_pid pid = nonzero (pid mod 0x100000000)"

definition fcctrd_shutdown_sandbox :: "('w, 'p) fcctrd_env \<Rightarrow> ctr_vm \<Rightarrow> 'w fcctrd \<Rightarrow> 'w fcctrd_call" where
  "fcctrd_shutdown_sandbox E u s =
     (case rc_client s of
        None \<Rightarrow> (Inl not_initialized, u, s)
      | Some c \<Rightarrow>
          (let fd = Option.bind (Option.bind (vm_pid (cm_vm u)) raw_pid) (\<lambda>pid. if fe_pidfd E pid (rc_world s) then Some pid else None);
               await = (\<lambda>w. case fd of None \<Rightarrow> w | Some pid \<Rightarrow> fe_await_exit E pid w) in
           case vm_unload (fe_svc E) c (cm_vm u) (rc_world s) of
             (Inr _, v, w) \<Rightarrow> (Inr (), u\<lparr>cm_vm := v\<rparr>, s\<lparr>rc_world := await w\<rparr>)
           | (Inl e, v, w) \<Rightarrow>
               if e = ttrpc_closed then (Inr (), u\<lparr>cm_vm := vm_clear_pid v\<rparr>, s\<lparr>rc_world := await w\<rparr>)
               else (Inl (Err (CfErr (CeUnloadVm e))), u\<lparr>cm_vm := v\<rparr>, s\<lparr>rc_world := w\<rparr>)))"

section \<open>Destruction\<close>

definition fc_comm :: string where
  "fc_comm = ''firecracker''"

definition shim_comm :: string where
  "shim_comm = ''containerd-shim''"

text \<open>\<open>None\<close> is the panic on a missing key.\<close>

definition fcctrd_remove_snapshot :: "('w, 'p) fcctrd_env \<Rightarrow> ctrd_client \<Rightarrow> 'w fcctrd \<Rightarrow> 'w \<Rightarrow> 'w option" where
  "fcctrd_remove_snapshot E c s w =
     map_option (\<lambda>key. snd (remove_container_snapshot (fe_svc E) c key (Some (cc_snapshotter (rc_config s))) w)) (rc_snapshot s)"

definition no_snapshot_key :: "fcctrd_failure fault" where
  "no_snapshot_key = Panic ''.snapshot should have been populated by now''"

definition destroy_snapshotted :: "('w, 'p) fcctrd_env \<Rightarrow> ctr_vm \<Rightarrow> 'w fcctrd \<Rightarrow> ('w, tap) fcctrd_result" where
  "destroy_snapshotted E u s =
     (case rc_client s of
        None \<Rightarrow> (Inl not_initialized, s)
      | Some c \<Rightarrow>
          (case delete_container (fe_svc E) c (vm_id (cm_vm u)) (rc_world s) of
             (Inl e, w) \<Rightarrow> (Inl (Err (CfErr (CeDeleteContainer e))), s\<lparr>rc_world := w\<rparr>)
           | (Inr _, w) \<Rightarrow>
               (case fcctrd_remove_snapshot E c s w of
                  None \<Rightarrow> (Inl no_snapshot_key, s\<lparr>rc_world := w\<rparr>)
                | Some w \<Rightarrow>
                    (case (vm_state_file (cm_vm u), vm_memory_file (cm_vm u)) of
                       (Some sf, Some mf) \<Rightarrow>
                         (Inr (Device (cm_tap u)),
                          s\<lparr>rc_world := snd (sv_remove_file (fe_svc E) mf (snd (sv_remove_file (fe_svc E) sf w)))\<rparr>)
                     | _ \<Rightarrow> (Inl (Panic ''called `Option::unwrap()` on a `None` value''), s\<lparr>rc_world := w\<rparr>)))))"

text \<open>The stat of a process in a blocking task; its panic is an error of the join.\<close>

definition stat_task :: "('w, 'p) fcctrd_env \<Rightarrow> nat \<Rightarrow> 'w \<Rightarrow> (string + psutils_error) + process" where
  "stat_task E pid w =
     (case fo_join (fe_os E) w of
        Inl e \<Rightarrow> Inl (Inl e)
      | Inr _ \<Rightarrow>
          (case process_stat E (pid mod 0x100000000) w of
             Inl (Panic m) \<Rightarrow> Inl (Inl m)
           | Inl (Err e) \<Rightarrow> Inl (Inr e)
           | Inr p \<Rightarrow> Inr p))"

text \<open>The last resort: a signal to the process group of the shim.\<close>

definition kill_shim :: "('w, 'p) fcctrd_env \<Rightarrow> nat \<Rightarrow> tap_device \<Rightarrow> 'w fcctrd \<Rightarrow> ('w, tap) fcctrd_result" where
  "kill_shim E ppid tap s =
     (let refuse = Inl (Err (CfErr CeDestroyVm)); given = (\<lambda>w. (Inr (Device tap), s\<lparr>rc_world := fo_sleep (fe_os E) 5000000000 w\<rparr>)) in
      case stat_task E ppid (rc_world s) of
        Inr shim \<Rightarrow>
          if pr_comm shim \<noteq> shim_comm then (refuse, s)
          else
            (case raw_pid (pr_pgrp shim) of
               None \<Rightarrow> (Inl (Panic ''PGID should be valid by now''), s)
             | Some pgid \<Rightarrow>
                 (case fe_kill_group_term E pgid (rc_world s) of
                    (Inr _, w) \<Rightarrow> given w
                  | (Inl _, w) \<Rightarrow> (refuse, s\<lparr>rc_world := w\<rparr>)))
      | Inl (Inr _) \<Rightarrow> given (rc_world s)
      | Inl (Inl _) \<Rightarrow> (refuse, s))"

text \<open>What ends the machine once its container is gone. \<open>None\<close> is the panic on a pid that is zero.\<close>

definition end_machine :: "('w, 'p) fcctrd_env \<Rightarrow> ctrd_client \<Rightarrow> string \<Rightarrow> nat \<Rightarrow> bool \<Rightarrow> 'w \<Rightarrow> 'w option" where
  "end_machine E c vid pid task_deleted w =
     (if task_deleted then Some (snd (stop_vm (fe_svc E) c vid 4500000000 w))
      else if fe_pid_exists E (pid mod 0x100000000) w
      then map_option (\<lambda>pid. snd (fe_kill_term E pid w)) (raw_pid pid)
      else Some w)"

definition destroy_idle :: "('w, 'p) fcctrd_env \<Rightarrow> ctr_vm \<Rightarrow> 'w fcctrd \<Rightarrow> ('w, tap) fcctrd_result" where
  "destroy_idle E u s =
     (case (rc_client s, vm_pid (cm_vm u)) of
        (None, _) \<Rightarrow> (Inl not_initialized, s)
      | (_, None) \<Rightarrow> (Inl (Panic ''non-snapshotted uVMs should always be associated with a PID''), s)
      | (Some c, Some pid) \<Rightarrow>
          (case stat_task E pid (rc_world s) of
             Inl (Inl e) \<Rightarrow> (Inl (Err (CfJoin e)), s)
           | Inl (Inr e) \<Rightarrow> (Inl (Err (CfPs e)), s)
           | Inr fc_proc \<Rightarrow>
               if pr_comm fc_proc \<noteq> fc_comm
               then (Inl (Panic ''uvm.vm.pid is expected to refer to a firecracker process''), s)
               else
                 (let S = fe_svc E; vid = vm_id (cm_vm u);
                      w = snd (kill_task S c vid 9 True (snd (vm_resume S c (cm_vm u) (rc_world s)))) in
                  case delete_task S c vid w of
                    (td, w) \<Rightarrow>
                      (case delete_container S c vid w of
                         (Inl e, w) \<Rightarrow> (Inl (Err (CfErr (CeDeleteContainer e))), s\<lparr>rc_world := w\<rparr>)
                       | (Inr _, w) \<Rightarrow>
                           (case fcctrd_remove_snapshot E c s w of
                              None \<Rightarrow> (Inl no_snapshot_key, s\<lparr>rc_world := w\<rparr>)
                            | Some w \<Rightarrow>
                                (case end_machine E c vid pid (\<not> isl td) w of
                                   None \<Rightarrow> (Inl (Panic ''PID should be valid by now''), s\<lparr>rc_world := w\<rparr>)
                                 | Some w \<Rightarrow>
                                     (case poll_pid_until_exit E (pr_ppid fc_proc) 100000000 1500000000 w of
                                        (True, w) \<Rightarrow> (Inr (Device (cm_tap u)), s\<lparr>rc_world := w\<rparr>)
                                      | (False, w) \<Rightarrow> kill_shim E (pr_ppid fc_proc) (cm_tap u) (s\<lparr>rc_world := w\<rparr>))))))))"

definition fcctrd_destroy_sandbox :: "('w, 'p) fcctrd_env \<Rightarrow> ctr_vm \<Rightarrow> 'w fcctrd \<Rightarrow> (fcctrd_failure fault + tap) \<times> ctr_vm \<times> 'w fcctrd" where
  "fcctrd_destroy_sandbox E u s =
     (case (vm_has_snapshot (cm_vm u), vm_pid (cm_vm u) \<noteq> None) of
        (True, False) \<Rightarrow> (case destroy_snapshotted E u s of (r, s) \<Rightarrow> (r, u, s))
      | (False, True) \<Rightarrow> (case destroy_idle E u s of (r, s) \<Rightarrow> (r, u, s))
      | (True, True) \<Rightarrow>
          (case fcctrd_shutdown_sandbox E u s of
             (Inl e, u, s) \<Rightarrow> (Inl e, u, s)
           | (Inr _, u, s) \<Rightarrow> (case destroy_snapshotted E u s of (r, s) \<Rightarrow> (r, u, s)))
      | (False, False) \<Rightarrow> (Inl (Err (CfErr CeDestroyVm)), u, s))"

section \<open>CPUs and the page cache\<close>

definition fcctrd_setup_cpuset :: "('w, 'p) fcctrd_env \<Rightarrow> cpu \<Rightarrow> ctr_vm \<Rightarrow> 'w fcctrd \<Rightarrow> 'w fcctrd_call" where
  "fcctrd_setup_cpuset E c u s =
     (case vm_pid (cm_vm u) of
        None \<Rightarrow> (Inr (), u, s)
      | Some pid \<Rightarrow>
          (case raw_pid pid of
             None \<Rightarrow> (Inl (Panic ''called `Option::unwrap()` on a `None` value''), u, s)
           | Some pid \<Rightarrow> (Inr (), u, s\<lparr>rc_world := snd (fo_setaffinity (fe_os E) pid c (rc_world s))\<rparr>)))"

definition forget_option :: "('w, 'p) fc_os \<Rightarrow> string option \<Rightarrow> 'w \<Rightarrow> 'w" where
  "forget_option os p w = (case p of None \<Rightarrow> w | Some f \<Rightarrow> fforget_file os f w)"

definition fcctrd_uncache_sandbox :: "('w, 'p) fcctrd_env \<Rightarrow> ctr_vm \<Rightarrow> 'w fcctrd \<Rightarrow> 'w fcctrd_call" where
  "fcctrd_uncache_sandbox E u s =
     (Inr (), u, s\<lparr>rc_world := forget_option (fe_os E) (vm_memory_file (cm_vm u)) (forget_option (fe_os E) (vm_state_file (cm_vm u)) (rc_world s))\<rparr>)"

section \<open>Registration of functions\<close>

text \<open>An error is the message of \<^verbatim>\<open>registration::Error::Runtime\<close>.\<close>

definition runtime_error :: "string \<Rightarrow> (ctrd_error + 'a) \<times> 'w \<Rightarrow> (string fault + 'a) \<times> 'w" where
  "runtime_error msg r = map_prod (map_sum (\<lambda>_. Err msg) id) id r"

definition ensure_image :: "('w, 'p) fcctrd_env \<Rightarrow> fcctrd_config \<Rightarrow> string \<Rightarrow> 'w \<Rightarrow> (string fault + unit) \<times> 'w" where
  "ensure_image E cf image_ref w =
     (case fe_run_ctr E (cc_ctr cf)
             [''--address'', cc_address cf, ''--namespace'', cc_namespace cf, ''images'', ''pull'', ''--snapshotter'', cc_snapshotter cf, image_ref] w of
        (Inl e, w) \<Rightarrow> (Inl (Err ''failed to fork/exec firecracker-ctr''), w)
      | (Inr ok, w) \<Rightarrow> (if ok then Inr () else Inl (Err ''firecracker-ctr''), w))"

definition finalize_function_info ::
  "('w, 'p) fcctrd_env \<Rightarrow> ctrd_client \<Rightarrow> fcctrd_function_info \<Rightarrow> 'w \<Rightarrow> (string fault + unit) \<times> fcctrd_function_info \<times> 'w" where
  "finalize_function_info E c fi w =
     (case runtime_error ''failed to get OCI Image config'' (get_image_config (fe_svc E) c (cfi_image_ref fi) w) of
        (Inl e, w) \<Rightarrow> (Inl e, fi, w)
      | (Inr cfg, w) \<Rightarrow>
          (let fi = (if cfi_parent_snapshot fi = None then fi\<lparr>cfi_parent_snapshot := Some (calculate_parent_snapshot (fe_svc E) cfg)\<rparr> else fi) in
           if cfi_process_args fi \<noteq> None then (Inr (), fi, w)
           else
             (case form_process_args cfg of
                Inl (Panic m) \<Rightarrow> (Inl (Panic m), fi, w)
              | Inl (Err _) \<Rightarrow> (Inl (Err ''failed to extract command & args for the new process''), fi, w)
              | Inr args \<Rightarrow> (Inr (), fi\<lparr>cfi_process_args := Some args\<rparr>, w))))"

definition count_image :: "string \<Rightarrow> (string \<rightharpoonup> nat) \<Rightarrow> nat" where
  "count_image ref images = (case images ref of None \<Rightarrow> 0 | Some n \<Rightarrow> n)"

definition fcctrd_register_function ::
  "('w, 'p) fcctrd_env \<Rightarrow> fcctrd_config \<Rightarrow> fcctrd_function_info \<Rightarrow> (string \<rightharpoonup> nat) \<Rightarrow> 'w
    \<Rightarrow> (string fault + unit) \<times> fcctrd_function_info \<times> (string \<rightharpoonup> nat) \<times> 'w" where
  "fcctrd_register_function E cf fi images w =
     (let ref = cfi_image_ref fi in
      case runtime_error ''failed to initialize FirecrackerContainerd runtime''
             (ctrd_with_timeout (fe_svc E) (cc_address cf) (cc_ttrpc_address cf) (cc_namespace cf) client_timeout w) of
        (Inl e, w) \<Rightarrow> (Inl e, fi, images, w)
      | (Inr c, w) \<Rightarrow>
          (case if count_image ref images = 0 then ensure_image E cf ref w else (Inr (), w) of
             (Inl e, w) \<Rightarrow> (Inl e, fi, images, w)
           | (Inr _, w) \<Rightarrow>
               (let images = images(ref \<mapsto> count_image ref images + 1) in
                if cfi_parent_snapshot fi = None \<or> cfi_process_args fi = None
                then (case finalize_function_info E c fi w of (r, fi, w) \<Rightarrow> (r, fi, images, w))
                else (Inr (), fi, images, w))))"

definition fcctrd_deregister_function :: "fcctrd_function_info \<Rightarrow> (string \<rightharpoonup> nat) \<Rightarrow> (string + unit) \<times> (string \<rightharpoonup> nat)" where
  "fcctrd_deregister_function fi images =
     (Inr (), case images (cfi_image_ref fi) of None \<Rightarrow> images | Some n \<Rightarrow> images(cfi_image_ref fi \<mapsto> n - 1))"

section \<open>Snapshots that outlive the process\<close>

definition fcctrd_snapshot_state :: "ctr_vm \<Rightarrow> (fcctrd_error + ctr_vm_state) option" where
  "fcctrd_snapshot_state u = Some (Inr \<lparr>cs_stats = sb_stats u, cs_tap = td_info (cm_tap u), cs_vm = cm_vm u\<rparr>)"

definition ctr_vm_state_eq :: "ctr_vm_state \<Rightarrow> ctr_vm_state \<Rightarrow> bool" where
  "ctr_vm_state_eq a b \<longleftrightarrow> cs_tap a = cs_tap b \<and> vm_eq (cs_vm a) (cs_vm b)"

definition ctr_vm_state_id :: "ctr_vm_state \<Rightarrow> sandbox_id" where
  "ctr_vm_state_id st = ti_name (cs_tap st)"

text \<open>The reply of the network manager to the request for the device of \<open>st\<close> is \<open>reply\<close>.\<close>

definition fcctrd_reinstate_sandbox ::
  "'w rtnl \<Rightarrow> function_id \<Rightarrow> ctr_vm_state \<Rightarrow> tap net_reply \<Rightarrow> 'w fcctrd \<Rightarrow> (fcctrd_error + ctr_vm) option \<times> 'w fcctrd" where
  "fcctrd_reinstate_sandbox N fid st reply s =
     (let mk = (\<lambda>tap. \<lparr>sb_id = ti_name (td_info tap), sb_stats = cs_stats st, cm_function_id = fid, cm_tap = tap, cm_vm = cs_vm st\<rparr>) in
      case reply of
        NetOk (Device tap) \<Rightarrow> (Some (Inr (mk tap)), s)
      | NetOk (Builder i) \<Rightarrow>
          (case build_or_adopt N i (rc_world s) of
             (Inr tap, w) \<Rightarrow> (Some (Inr (mk tap)), s\<lparr>rc_world := w\<rparr>)
           | (Inl _, w) \<Rightarrow> (Some (Inl (CeReinstate ''failed to build or adopt requested'')), s\<lparr>rc_world := w\<rparr>))
      | NetFailed e \<Rightarrow> (Some (Inl (CeReinstate ''failed requested allocation'')), s)
      | NetNoReply \<Rightarrow> (Some (Inl (CeReinstate ''failed to receive from netman's oneshot channel'')), s)
      | NetClosed \<Rightarrow> (Some (Inl (CeReinstate ''failed to request from netman'')), s))"

section \<open>The runtime as a worker sees it\<close>

text \<open>An error is its name, as for the other runtime.\<close>

fun fcctrd_error_name :: "fcctrd_error \<Rightarrow> string" where
  "fcctrd_error_name (CeInit m) = ''failed to initialize runtime: '' @ m"
| "fcctrd_error_name (CeCreateVm _) = ''failed to create new VM''"
| "fcctrd_error_name (CePauseVm _) = ''failed to pause VM''"
| "fcctrd_error_name (CeResumeVm _) = ''failed to resume VM''"
| "fcctrd_error_name (CeCreateVmSnapshot _) = ''failed to create new VM snapshot''"
| "fcctrd_error_name (CeLoadVmSnapshot _) = ''failed to load VM from snapshot''"
| "fcctrd_error_name (CeUnloadVm _) = ''failed to unload VM''"
| "fcctrd_error_name (CeStopVm _) = ''failed to stop VM''"
| "fcctrd_error_name CeDestroyVm = ''failed to destroy VM''"
| "fcctrd_error_name (CePrepareSnapshot _) = ''failed to prepare container snapshot''"
| "fcctrd_error_name (CeCreateContainer _) = ''failed to create new container''"
| "fcctrd_error_name (CeDeleteContainer _) = ''failed to delete container''"
| "fcctrd_error_name (CeCreateTask _) = ''failed to create new task''"
| "fcctrd_error_name (CeStartTask _) = ''failed to start task''"
| "fcctrd_error_name (CeReinstate m) = ''failed to reinstate VM from SnapshotState: '' @ m"
| "fcctrd_error_name (CeProcessUtil m _) = ''psutil error: '' @ m"

fun fcctrd_failure_name :: "fcctrd_failure fault \<Rightarrow> string" where
  "fcctrd_failure_name (Panic m) = m"
| "fcctrd_failure_name (Err (CfErr e)) = fcctrd_error_name e"
| "fcctrd_failure_name (Err (CfClient _)) = ''client error''"
| "fcctrd_failure_name (Err (CfNet _)) = ''network error''"
| "fcctrd_failure_name (Err (CfPs _)) = ''process error''"
| "fcctrd_failure_name (Err (CfJoin _)) = ''join error''"

definition with_name :: "(fcctrd_failure fault + 'a) \<times> 'b \<Rightarrow> (string + 'a) \<times> 'b" where
  "with_name r = map_prod (map_sum fcctrd_failure_name id) id r"

definition fcctrd_rt ::
  "('w, 'p) fcctrd_env \<Rightarrow> 'w rtnl
    \<Rightarrow> ('w fcctrd, \<lparr>cm_function_id :: function_id, cm_tap :: tap_device, cm_vm :: vm\<rparr>, tap, ctr_vm_state) runtime_ops" where
  "fcctrd_rt E N =
     \<lparr>rt_init = (\<lambda>s. with_name (fcctrd_init E s)),
      rt_create_sandbox = (\<lambda>fid net tm s. with_name (fcctrd_create_sandbox E N fid net tm s)),
      rt_load_sandbox = (\<lambda>u s. with_name (fcctrd_load_sandbox E u s)),
      rt_pause_sandbox = (\<lambda>u s. with_name (fcctrd_pause_sandbox E u s)),
      rt_resume_sandbox = (\<lambda>u s. with_name (fcctrd_resume_sandbox E u s)),
      rt_create_snapshot = (\<lambda>p q u s. with_name (fcctrd_create_snapshot E p q u s)),
      rt_shutdown_sandbox = (\<lambda>u s. with_name (fcctrd_shutdown_sandbox E u s)),
      rt_destroy_sandbox =
        (\<lambda>u s. case fcctrd_destroy_sandbox E u s of (r, u, s) \<Rightarrow> (map_sum (\<lambda>e. (u, fcctrd_failure_name e)) id r, s)),
      rt_setup_cpuset = (\<lambda>c u s. with_name (fcctrd_setup_cpuset E c u s)),
      rt_uncache_sandbox = (\<lambda>u s. with_name (fcctrd_uncache_sandbox E u s)),
      rt_has_snapshot = (\<lambda>u. vm_has_snapshot (cm_vm u)),
      rt_snapshot_state = (\<lambda>u. map_option (map_sum fcctrd_error_name id) (fcctrd_snapshot_state u))\<rparr>"

end
