(* ===== verification/Fcctrd_Inv.thy ===== *)
theory Fcctrd_Inv
  imports Fcctrd Worker_Inv
begin

text \<open>
  What the runtime for \<^verbatim>\<open>firecracker-containerd\<close> does to the virtual machines and the containers of the
  services. \<open>vms\<close> and \<open>ctrs\<close> read their names off the state of the world; \<open>ctrd_spec\<close> says what the calls
  do to them. A machine or a container is stuck if a request to stop or delete it can fail and leave it there;
  \<open>V\<close> and \<open>C\<close> are the ones that are not.
\<close>

section \<open>The services\<close>

definition nonew :: "('w \<Rightarrow> 'a set) \<Rightarrow> 'w \<Rightarrow> 'w \<Rightarrow> bool" where
  "nonew X w w' \<longleftrightarrow> X w' \<subseteq> X w"

definition adds :: "('w \<Rightarrow> 'a set) \<Rightarrow> 'a \<Rightarrow> 'w \<Rightarrow> 'w \<Rightarrow> bool" where
  "adds X x w w' \<longleftrightarrow> X w' \<subseteq> insert x (X w)"

definition drops :: "('w \<Rightarrow> 'a set) \<Rightarrow> 'a \<Rightarrow> 'w \<Rightarrow> 'w \<Rightarrow> bool" where
  "drops X x w w' \<longleftrightarrow> X w' \<subseteq> X w - {x}"

text \<open>Calls that neither make a machine or a container.\<close>

definition svc_quiet :: "'w ctrd_svc \<Rightarrow> ('w \<Rightarrow> 'a set) \<Rightarrow> bool" where
  "svc_quiet S X \<longleftrightarrow>
     (\<forall>w ns. (\<forall>x. nonew X w (snd (sv_image_get S ns x w))) \<and> (\<forall>x. nonew X w (snd (sv_content_read S ns x w)))
        \<and> (\<forall>a b c. nonew X w (snd (sv_snap_prepare S ns a b c w))) \<and> (\<forall>a b. nonew X w (snd (sv_snap_remove S ns a b w)))
        \<and> (\<forall>a b. nonew X w (snd (sv_task_create S ns a b w))) \<and> (\<forall>a. nonew X w (snd (sv_task_start S ns a w)))
        \<and> (\<forall>a b c. nonew X w (snd (sv_task_kill S ns a b c w))) \<and> (\<forall>a. nonew X w (snd (sv_task_delete S ns a w)))
        \<and> (\<forall>a. nonew X w (snd (sv_ctr_delete S ns a w)))
        \<and> (\<forall>t a. nonew X w (snd (sv_vm_resume S ns t a w))) \<and> (\<forall>t a. nonew X w (snd (sv_vm_unload S ns t a w)))
        \<and> (\<forall>t a b. nonew X w (snd (sv_vm_stop S ns t a b w))) \<and> (\<forall>a. nonew X w (snd (sv_remove_file S a w))))"

definition env_quiet :: "('w, 'p) fcctrd_env \<Rightarrow> ('w \<Rightarrow> 'a set) \<Rightarrow> bool" where
  "env_quiet E X \<longleftrightarrow>
     (\<forall>w. (\<forall>d. nonew X w (fo_sleep (fe_os E) d w)) \<and> (\<forall>p. nonew X w (snd (fe_kill_term E p w)))
        \<and> (\<forall>p. nonew X w (snd (fe_kill_group_term E p w))) \<and> (\<forall>p. nonew X w (fe_await_exit E p w)))"

text \<open>A call that reports an error has made nothing; a reply names what was asked for.\<close>

definition vm_calls :: "'w ctrd_svc \<Rightarrow> ('w \<Rightarrow> string set) \<Rightarrow> ('w \<Rightarrow> string set) \<Rightarrow> bool" where
  "vm_calls S vms ctrs \<longleftrightarrow>
     (\<forall>ns t req w e w'. sv_vm_create S ns t req w = (Inl e, w') \<longrightarrow> nonew vms w w' \<and> nonew ctrs w w')
   \<and> (\<forall>ns t req w q w'. sv_vm_create S ns t req w = (Inr q, w') \<longrightarrow>
        cr_id q = cv_id req \<and> adds vms (cv_id req) w w' \<and> nonew ctrs w w')
   \<and> (\<forall>ns t v n w w'. sv_vm_stop S ns t v n w = (Inr (), w') \<longrightarrow> drops vms v w w')"

definition ctr_calls :: "'w ctrd_svc \<Rightarrow> ('w \<Rightarrow> string set) \<Rightarrow> ('w \<Rightarrow> string set) \<Rightarrow> bool" where
  "ctr_calls S vms ctrs \<longleftrightarrow>
     (\<forall>ns req w e w'. sv_ctr_create S ns req w = (Inl e, w') \<longrightarrow> nonew vms w w' \<and> nonew ctrs w w')
   \<and> (\<forall>ns req w q w'. sv_ctr_create S ns req w = (Inr q, w') \<longrightarrow>
        (\<exists>x. q = Some x \<and> ct_id x = ct_id req) \<and> nonew vms w w' \<and> adds ctrs (ct_id req) w w')
   \<and> (\<forall>ns x w w'. sv_ctr_delete S ns x w = (Inr (), w') \<longrightarrow> drops ctrs x w w')"

definition ctrd_spec :: "('w, 'p) fcctrd_env \<Rightarrow> ('w \<Rightarrow> string set) \<Rightarrow> ('w \<Rightarrow> string set) \<Rightarrow> bool" where
  "ctrd_spec E vms ctrs \<longleftrightarrow>
     svc_quiet (fe_svc E) vms \<and> svc_quiet (fe_svc E) ctrs \<and> env_quiet E vms \<and> env_quiet E ctrs
     \<and> vm_calls (fe_svc E) vms ctrs \<and> ctr_calls (fe_svc E) vms ctrs"

definition stuck_vms :: "'w ctrd_svc \<Rightarrow> ('w \<Rightarrow> string set) \<Rightarrow> string set" where
  "stuck_vms S vms = {v. \<exists>ns t n w e w'. sv_vm_stop S ns t v n w = (Inl e, w') \<and> v \<in> vms w'}"

definition stuck_ctrs :: "'w ctrd_svc \<Rightarrow> ('w \<Rightarrow> string set) \<Rightarrow> string set" where
  "stuck_ctrs S ctrs = {x. \<exists>ns w e w'. sv_ctr_delete S ns x w = (Inl e, w') \<and> x \<in> ctrs w'}"

text \<open>The bundle of facts with which the operations are followed.\<close>

definition ctrd_ok :: "('w, 'p) fcctrd_env \<Rightarrow> ('w \<Rightarrow> string set) \<Rightarrow> ('w \<Rightarrow> string set) \<Rightarrow> bool" where
  "ctrd_ok E V C \<longleftrightarrow>
     svc_quiet (fe_svc E) V \<and> svc_quiet (fe_svc E) C \<and> env_quiet E V \<and> env_quiet E C
     \<and> vm_calls (fe_svc E) V C \<and> ctr_calls (fe_svc E) V C
     \<and> (\<forall>ns t v n w. drops V v w (snd (sv_vm_stop (fe_svc E) ns t v n w)))
     \<and> (\<forall>ns x w. drops C x w (snd (sv_ctr_delete (fe_svc E) ns x w)))"

lemma nonew_minus: "nonew X w w' \<Longrightarrow> nonew (\<lambda>w. X w - A) w w'"
  by (auto simp: nonew_def)

lemma adds_minus: "adds X x w w' \<Longrightarrow> adds (\<lambda>w. X w - A) x w w'"
  by (auto simp: adds_def)

lemma drops_minus: "drops X x w w' \<Longrightarrow> drops (\<lambda>w. X w - A) x w w'"
  by (auto simp: drops_def)

lemma svc_quiet_minus: "svc_quiet S X \<Longrightarrow> svc_quiet S (\<lambda>w. X w - A)"
  by (simp add: svc_quiet_def nonew_minus)

lemma env_quiet_minus: "env_quiet E X \<Longrightarrow> env_quiet E (\<lambda>w. X w - A)"
  by (simp add: env_quiet_def nonew_minus)

lemma vm_calls_minus: "vm_calls S vms ctrs \<Longrightarrow> vm_calls S (\<lambda>w. vms w - A) (\<lambda>w. ctrs w - B)"
  unfolding vm_calls_def by (metis nonew_minus adds_minus drops_minus)

lemma ctr_calls_minus: "ctr_calls S vms ctrs \<Longrightarrow> ctr_calls S (\<lambda>w. vms w - A) (\<lambda>w. ctrs w - B)"
  unfolding ctr_calls_def by (metis nonew_minus adds_minus drops_minus)

lemma ctrd_ok_unstuck:
  assumes "ctrd_spec E vms ctrs"
  shows "ctrd_ok E (\<lambda>w. vms w - stuck_vms (fe_svc E) vms) (\<lambda>w. ctrs w - stuck_ctrs (fe_svc E) ctrs)"
proof -
  let ?S = "fe_svc E"
  have Q: "svc_quiet ?S vms" "svc_quiet ?S ctrs" "vm_calls ?S vms ctrs" "ctr_calls ?S vms ctrs"
    using assms by (simp_all add: ctrd_spec_def)
  have "drops (\<lambda>w. vms w - stuck_vms ?S vms) v w (snd (sv_vm_stop ?S ns t v n w))" for ns t v n w
  proof (cases "sv_vm_stop ?S ns t v n w")
    case (Pair r w')
    have "nonew vms w w'" using Q(1) Pair unfolding svc_quiet_def by (metis snd_conv)
    moreover have "drops vms v w w'" if "r = Inr ()" using Q(3) Pair that unfolding vm_calls_def by blast
    moreover have "v \<in> stuck_vms ?S vms" if "r = Inl e" "v \<in> vms w'" for e using Pair that unfolding stuck_vms_def by blast
    ultimately show ?thesis using Pair by (cases r) (auto simp: nonew_def drops_def)
  qed
  moreover have "drops (\<lambda>w. ctrs w - stuck_ctrs ?S ctrs) x w (snd (sv_ctr_delete ?S ns x w))" for ns x w
  proof (cases "sv_ctr_delete ?S ns x w")
    case (Pair r w')
    have "nonew ctrs w w'" using Q(2) Pair unfolding svc_quiet_def by (metis snd_conv)
    moreover have "drops ctrs x w w'" if "r = Inr ()" using Q(4) Pair that unfolding ctr_calls_def by blast
    moreover have "x \<in> stuck_ctrs ?S ctrs" if "r = Inl e" "x \<in> ctrs w'" for e using Pair that unfolding stuck_ctrs_def by blast
    ultimately show ?thesis using Pair by (cases r) (auto simp: nonew_def drops_def)
  qed
  ultimately show ?thesis
    using assms unfolding ctrd_ok_def ctrd_spec_def
    by (simp add: svc_quiet_minus env_quiet_minus vm_calls_minus ctr_calls_minus)
qed

section \<open>The calls of the client\<close>

lemma snd_calls [simp]: "snd (grpc r) = snd r" "snd (ttrpc t) = snd t" "snd (runtime_error m q) = snd q"
  by (simp_all add: grpc_def ttrpc_def runtime_error_def)

lemma grpc_eq: "grpc r = (Inr x, w) \<longleftrightarrow> r = (Inr x, w)" "(grpc r = (Inl e, w)) \<longleftrightarrow> (\<exists>e'. r = (Inl e', w) \<and> e = CtStatus e')"
  by (cases r; cases "fst r"; auto simp: grpc_def)+

lemma ttrpc_eq: "ttrpc r = (Inr x, w) \<longleftrightarrow> r = (Inr x, w)" "(ttrpc r = (Inl e, w)) \<longleftrightarrow> (\<exists>e'. r = (Inl e', w) \<and> e = CtTtrpc e')"
  by (cases r; cases "fst r"; auto simp: ttrpc_def)+

lemma nonew_refl [simp]: "nonew X w w"
  by (simp add: nonew_def)

lemma nonew_trans: "nonew X w w' \<Longrightarrow> nonew X w' w'' \<Longrightarrow> nonew X w w''"
  by (auto simp: nonew_def)

lemma nonew_bindE: "nonew X w (snd r) \<Longrightarrow> (\<And>x w'. nonew X w' (snd (k x w'))) \<Longrightarrow> nonew X w (snd (bindE r k))"
  by (cases r; cases "fst r") (auto simp: nonew_def)

lemma svc_quietD:
  assumes "svc_quiet S X"
  shows "nonew X w (snd (sv_image_get S ns x w))" "nonew X w (snd (sv_content_read S ns x w))"
    "nonew X w (snd (sv_snap_prepare S ns a b d w))" "nonew X w (snd (sv_snap_remove S ns a b w))"
    "nonew X w (snd (sv_task_create S ns a m w))" "nonew X w (snd (sv_task_start S ns a w))"
    "nonew X w (snd (sv_task_kill S ns a n f w))" "nonew X w (snd (sv_task_delete S ns a w))"
    "nonew X w (snd (sv_ctr_delete S ns a w))" "nonew X w (snd (sv_vm_resume S ns t a w))"
    "nonew X w (snd (sv_vm_unload S ns t a w))" "nonew X w (snd (sv_vm_stop S ns t a l w))" "nonew X w (snd (sv_remove_file S a w))"
  using assms by (simp_all add: svc_quiet_def)

lemma env_quietD:
  assumes "env_quiet E X"
  shows "nonew X w (fo_sleep (fe_os E) d w)" "nonew X w (snd (fe_kill_term E p w))" "nonew X w (snd (fe_kill_group_term E p w))"
    "nonew X w (fe_await_exit E p w)"
  using assms by (simp_all add: env_quiet_def)

lemma client_quiet:
  assumes "svc_quiet S X"
  shows "nonew X w (snd (read_content_blob S c dg w))" "nonew X w (snd (get_image S c name w))"
    "nonew X w (snd (prepare_with_snapshotter S c sn key parent w))" "nonew X w (snd (remove_container_snapshot S c key o' w))"
    "nonew X w (snd (create_task S c cid ms w))" "nonew X w (snd (start_task S c tk w))" "nonew X w (snd (kill_task S c cid n f w))"
    "nonew X w (snd (delete_task S c cid w))" "nonew X w (snd (delete_container S c cid w))" "nonew X w (snd (vm_resume S c v w))"
    "nonew X w (snd (stop_vm S c vid t w))" "nonew X w (snd (unload_vm S c vid w))"
  using svc_quietD [OF assms]
  by (auto simp: read_content_blob_def get_image_def prepare_with_snapshotter_def remove_container_snapshot_def create_task_def
      start_task_def kill_task_def delete_task_def delete_container_def vm_resume_def resume_vm_def stop_vm_def unload_vm_def
      intro!: nonew_bindE split: option.split)

lemma prepare_snapshot_quiet:
  assumes "svc_quiet S X"
  shows "nonew X w (snd (prepare_snapshot S c key ref w))"
proof -
  have m: "nonew X w (snd (handle_manifest S c b w))" for b w
    using client_quiet [OF assms] by (auto simp: handle_manifest_def intro!: nonew_bindE split: sum.split)
  have i: "nonew X w (snd (handle_index S c b w))" for b w
    using client_quiet [OF assms] m by (auto simp: handle_index_def intro!: nonew_bindE split: sum.split option.split)
  have "nonew X w (snd (get_image_config S c ref w))" for w
    using client_quiet [OF assms] m i
    by (auto simp: get_image_config_def intro!: nonew_bindE split: option.split media_type.split)
  then show ?thesis
    using client_quiet [OF assms] by (auto simp: prepare_snapshot_def find_parent_snapshot_def intro!: nonew_bindE)
qed

section \<open>Creation\<close>

lemma adds_quiet: "adds X x w w' \<Longrightarrow> nonew X w' w'' \<Longrightarrow> adds X x w w''"
  by (auto simp: adds_def nonew_def)

lemma nonew_adds: "nonew X w w' \<Longrightarrow> adds X x w' w'' \<Longrightarrow> adds X x w w''"
  by (auto simp: adds_def nonew_def)

lemma nonew_is_adds: "nonew X w w' \<Longrightarrow> adds X x w w'"
  by (auto simp: adds_def nonew_def)

lemma adds_drops: "adds X x w w' \<Longrightarrow> drops X x w' w'' \<Longrightarrow> nonew X w w''"
  by (auto simp: adds_def drops_def nonew_def)

lemma drops_quiet: "drops X x w w' \<Longrightarrow> nonew X w w'"
  by (auto simp: drops_def nonew_def)

lemma ctrd_okD:
  assumes "ctrd_ok E V C"
  shows "svc_quiet (fe_svc E) V" "svc_quiet (fe_svc E) C" "env_quiet E V" "env_quiet E C"
    "vm_calls (fe_svc E) V C" "ctr_calls (fe_svc E) V C"
    "drops V vid w (snd (stop_vm (fe_svc E) c vid t w))" "drops C cid w (snd (delete_container (fe_svc E) c cid w))"
  using assms by (simp_all add: ctrd_ok_def stop_vm_def delete_container_def)

lemma callsD:
  shows "ctr_calls S V C \<Longrightarrow> sv_ctr_create S ns req w = (Inr z, u) \<Longrightarrow>
      (\<exists>x. z = Some x \<and> ct_id x = ct_id req) \<and> nonew V w u \<and> adds C (ct_id req) w u"
    and "vm_calls S V C \<Longrightarrow> sv_vm_create S ns t cv w = (Inr q, u) \<Longrightarrow> cr_id q = cv_id cv \<and> adds V (cv_id cv) w u \<and> nonew C w u"
    and "vm_calls S V C \<Longrightarrow> sv_vm_create S ns t cv w = (Inl e, u) \<Longrightarrow> nonew V w u \<and> nonew C w u"
  unfolding ctr_calls_def vm_calls_def by blast+

lemma into_json_template: "into_json S (SpecTemplate a ns vid) w = (fill_template S (sv_spec_template S) a ns vid, w)"
  by simp

text \<open>The machine is there and nothing else; after a step that fails it is gone, and its container with it.\<close>

definition clean :: "('w \<Rightarrow> string set) \<Rightarrow> ('w \<Rightarrow> string set) \<Rightarrow> 'w \<Rightarrow> 'w \<Rightarrow> bool" where
  "clean V C w w' \<longleftrightarrow> nonew V w w' \<and> nonew C w w'"

definition there :: "('w \<Rightarrow> string set) \<Rightarrow> ('w \<Rightarrow> string set) \<Rightarrow> string \<Rightarrow> 'w \<Rightarrow> 'w \<Rightarrow> bool" where
  "there V C vid w w' \<longleftrightarrow> adds V vid w w' \<and> adds C vid w w'"

lemma container_for_ok:
  assumes K: "ctrd_ok E V C" and v: "adds V (vm_id v) w0 w" "nonew C w0 w" and e: "container_for E c v ref args key w = (r, w')"
  shows "case r of Inl e \<Rightarrow> clean V C w0 w' | Inr x \<Rightarrow> ct_id x = vm_id v \<and> there V C (vm_id v) w0 w'"
proof -
  let ?S = "fe_svc E"
  note stop = ctrd_okD(7) [OF K, of "vm_id v"] client_quiet(11) [OF ctrd_okD(2) [OF K]]
  have fail: "clean V C w0 (snd (stop_vm ?S c (vm_id v) client_timeout u))" if "nonew V w u" "nonew C w u" for u
    using adds_drops [OF adds_quiet [OF v(1) that(1)] stop(1)] nonew_trans [OF nonew_trans [OF v(2) that(2)] stop(2)]
    by (simp add: clean_def)
  let ?b = "cb_set_spec (SpecTemplate args (vm_namespace v) (vm_id v)) (container_builder v ref key)"
  show ?thesis
  proof (cases "fill_template ?S (sv_spec_template ?S) args (vm_namespace v) (vm_id v)")
    case (Inl e)
    then show ?thesis
      using assms(4) fail [of w] by (auto simp: container_for_def cb_create_def cb_set_spec_def container_builder_def)
  next
    case (Inr json)
    let ?req = "\<lparr>ct_id = vm_id v, ct_labels = Map.empty, ct_image = ref, ct_runtime = ''aws.firecracker'',
      ct_spec_type = ''types.containerd.io/opencontainers/runtime-spec/1/Spec'', ct_spec = json,
      ct_snapshotter = default_snapshotter, ct_snapshot_key = key\<rparr>"
    have e': "cb_create ?S c ?b w = create_container ?S c ?req w"
      using Inr by (simp add: cb_create_def cb_set_spec_def container_builder_def)
    obtain q u where q: "sv_ctr_create ?S (cl_namespace c) ?req w = (q, u)" by fastforce
    show ?thesis
    proof (cases q)
      case (Inl e)
      then have "nonew V w u" "nonew C w u" using ctrd_okD(6) [OF K] q unfolding ctr_calls_def by blast+
      then show ?thesis using assms(4) fail [of u] q Inl e' by (auto simp: container_for_def create_container_def grpc_def)
    next
      case (Inr z)
      then obtain x where x: "z = Some x" "ct_id x = vm_id v" "nonew V w u" "adds C (vm_id v) w u"
        using callsD(1) [OF ctrd_okD(6) [OF K], of "cl_namespace c" ?req w z u] q by auto
      then have "there V C (vm_id v) w0 u" using adds_quiet [OF v(1)] nonew_adds [OF v(2)] by (simp add: there_def)
      then show ?thesis using assms(4) q Inr e' x by (auto simp: container_for_def create_container_def grpc_def)
    qed
  qed
qed

lemma undo_clean:
  assumes K: "ctrd_ok E V C" and t: "there V C (vm_id v) w0 w" and x: "ct_id x = vm_id v"
  shows "clean V C w0 (undo_container E c v x w)"
proof -
  let ?S = "fe_svc E"
  let ?w1 = "snd (delete_container ?S c (vm_id v) w)"
  have 1: "nonew V w ?w1" "drops C (vm_id v) w ?w1"
    using client_quiet(9) [OF ctrd_okD(1) [OF K]] ctrd_okD(8) [OF K] by auto
  have 2: "drops V (vm_id v) ?w1 (snd (stop_vm ?S c (vm_id v) client_timeout ?w1))"
      "nonew C ?w1 (snd (stop_vm ?S c (vm_id v) client_timeout ?w1))"
    using client_quiet(11) [OF ctrd_okD(2) [OF K]] ctrd_okD(7) [OF K] by auto
  show ?thesis
    using adds_drops [OF adds_quiet [OF _ 1(1)] 2(1)] nonew_trans [OF adds_drops [OF _ 1(2)] 2(2)] t
    by (simp add: clean_def undo_container_def x there_def)
qed

lemma there_quiet: "there V C vid w w' \<Longrightarrow> nonew V w' w'' \<Longrightarrow> nonew C w' w'' \<Longrightarrow> there V C vid w w''"
  by (auto simp: there_def intro: adds_quiet)

text \<open>Everything that runs in the machine, until the task has started.\<close>

lemma run_in_vm_ok:
  assumes K: "ctrd_ok E V C" and v: "adds V (vm_id v) w0 w" "nonew C w0 w" and e: "run_in_vm E c v ref args key w = (r, w')"
  shows "there V C (vm_id v) w0 w' \<and> (\<forall>e. r = Inl e \<longrightarrow> clean V C w0 w' \<or> (\<exists>x. e = CeStartTask x))"
proof -
  note q = client_quiet [OF ctrd_okD(1) [OF K]] client_quiet [OF ctrd_okD(2) [OF K]]
    prepare_snapshot_quiet [OF ctrd_okD(1) [OF K]] prepare_snapshot_quiet [OF ctrd_okD(2) [OF K]]
  have ct: "clean V C w0 u \<Longrightarrow> there V C (vm_id v) w0 u" for u by (simp add: clean_def there_def nonew_is_adds)
  obtain r1 w1 where 1: "container_for E c v ref args key w = (r1, w1)" by fastforce
  note c1 = container_for_ok [OF K v 1]
  show ?thesis
  proof (cases r1)
    case (Inl e1)
    then show ?thesis using e 1 c1 ct by (auto simp: run_in_vm_def)
  next
    case (Inr x)
    then have x: "ct_id x = vm_id v" "there V C (vm_id v) w0 w1" using c1 by simp_all
    obtain r2 w2 where 2: "prepare_snapshot (fe_svc E) c key ref w1 = (r2, w2)" by fastforce
    have "nonew V w1 w2" "nonew C w1 w2" using q 2 by (metis snd_conv)+
    then have t2: "there V C (vm_id v) w0 w2" by (rule there_quiet [OF x(2)])
    show ?thesis
    proof (cases r2)
      case (Inl e2)
      then show ?thesis
        using e 1 \<open>r1 = Inr x\<close> 2 undo_clean [OF K t2 x(1)] ct by (auto simp: run_in_vm_def mounts_for_def)
    next
      case (Inr ms)
      obtain r3 w3 where 3: "create_task (fe_svc E) c (ct_id x) ms w2 = (r3, w3)" by fastforce
      have "nonew V w2 w3" "nonew C w2 w3" using q 3 by (metis snd_conv)+
      then have t3: "there V C (vm_id v) w0 w3" by (rule there_quiet [OF t2])
      show ?thesis
      proof (cases r3)
        case (Inl e3)
        then show ?thesis
          using e 1 \<open>r1 = Inr x\<close> 2 \<open>r2 = Inr ms\<close> 3 undo_clean [OF K t3 x(1)] ct
          by (auto simp: run_in_vm_def mounts_for_def task_for_def)
      next
        case (Inr t)
        obtain r4 w4 where 4: "start_task (fe_svc E) c t w3 = (r4, w4)" by fastforce
        have "nonew V w3 w4" "nonew C w3 w4" using q 4 by (metis snd_conv)+
        then have t4: "there V C (vm_id v) w0 w4" by (rule there_quiet [OF t3])
        then show ?thesis
          using e 1 \<open>r1 = Inr x\<close> 2 \<open>r2 = Inr ms\<close> 3 Inr 4
          by (cases r4) (auto simp: run_in_vm_def mounts_for_def task_for_def)
      qed
    qed
  qed
qed

text \<open>The whole creation, from the TAP device on.\<close>

definition create_outcome ::
  "('w \<Rightarrow> string set) \<Rightarrow> ('w \<Rightarrow> string set) \<Rightarrow> string \<Rightarrow> 'w fcctrd \<Rightarrow> (fcctrd_failure fault + ctr_vm) \<Rightarrow> 'w fcctrd \<Rightarrow> bool" where
  "create_outcome V C vid s r s' \<longleftrightarrow>
     (case r of
        Inr u \<Rightarrow> there V C vid (rc_world s) (rc_world s') \<and> sb_id u = vid \<and> vm_id (cm_vm u) = vid
          \<and> \<not> vm_has_snapshot (cm_vm u) \<and> rc_snapshot s' = Some (snap_key vid)
      | Inl (Err (CfErr e)) \<Rightarrow>
          clean V C (rc_world s) (rc_world s') \<or> ((\<exists>x. e = CeStartTask x) \<and> there V C vid (rc_world s) (rc_world s'))
      | Inl _ \<Rightarrow> False)"

lemma vm_builder_for_id: "cv_id (vb_request (vm_builder_for s tap) t) = ti_name (td_info tap)"
  by (simp add: vb_request_def vm_builder_for_def vb_set_count_def vb_set_exit_def vb_add_interface_def vb_set_memory_def vb_new_def)

lemma fcctrd_create_ok:
  assumes K: "ctrd_ok E V C" and s: "rc_client s = Some c" "rc_snapshot s = None" "cfi_process_args (rc_fi s) = Some args"
    and e: "fcctrd_create_vm E fid tap s = (r, s')"
  shows "create_outcome V C (ti_name (td_info tap)) s r s'"
proof -
  let ?S = "fe_svc E" and ?vid = "ti_name (td_info tap)"
  let ?req = "vb_request (vm_builder_for s tap) client_timeout"
  obtain q u where q: "sv_vm_create ?S (cl_namespace c) (cl_timeout c) ?req (rc_world s) = (q, u)" by fastforce
  show ?thesis
  proof (cases q)
    case (Inl x)
    then have "nonew V (rc_world s) u" "nonew C (rc_world s) u" using callsD(3) [OF ctrd_okD(5) [OF K]] q by blast+
    then show ?thesis
      using e s q Inl by (auto simp: fcctrd_create_vm_def vb_create_def create_vm_def ttrpc_def create_outcome_def clean_def)
  next
    case (Inr p)
    let ?v = "vm_from_response p (cl_namespace c)"
    have v: "vm_id ?v = ?vid" "adds V (vm_id ?v) (rc_world s) u" "nonew C (rc_world s) u"
      using callsD(2) [OF ctrd_okD(5) [OF K], of "cl_namespace c" "cl_timeout c" ?req "rc_world s" p u] q Inr
      by (auto simp: vm_from_response_def vm_builder_for_id)
    have ns: "\<not> vm_has_snapshot ?v" by (simp add: vm_has_snapshot_def vm_from_response_def)
    obtain r2 w2 where 2: "run_in_vm E c ?v (cfi_image_ref (rc_fi s)) args (snap_key ?vid) u = (r2, w2)" by fastforce
    note o = run_in_vm_ok [OF K v(2,3) 2, unfolded v(1)]
    show ?thesis
      using e s q Inr 2 o ns v(1)
      by (cases r2) (auto simp: fcctrd_create_vm_def vb_create_def create_vm_def ttrpc_def create_outcome_def Let_def)
  qed
qed

section \<open>Destruction\<close>

lemma drops_quiet_after: "drops X x w w' \<Longrightarrow> nonew X w' w'' \<Longrightarrow> drops X x w w''"
  by (auto simp: drops_def nonew_def)

lemma nonew_drops: "nonew X w w' \<Longrightarrow> drops X x w' w'' \<Longrightarrow> drops X x w w''"
  by (auto simp: drops_def nonew_def)

lemma remove_snapshot_quiet:
  assumes "svc_quiet (fe_svc E) X" "fcctrd_remove_snapshot E c s w = Some w'"
  shows "nonew X w w'"
  using assms client_quiet(4) [OF assms(1)] by (auto simp: fcctrd_remove_snapshot_def)

lemma delete_ok:
  assumes "ctrd_ok E V C" "delete_container (fe_svc E) c cid w = (r, w')"
  shows "drops C cid w w'" "nonew V w w'"
  using ctrd_okD(8) [OF assms(1), of cid w c] client_quiet(9) [OF ctrd_okD(1) [OF assms(1)], of w c cid] assms(2) by simp_all

lemma destroy_snapshotted_ok:
  assumes K: "ctrd_ok E V C" and e: "destroy_snapshotted E u s = (r, s')"
  shows "nonew V (rc_world s) (rc_world s') \<and> nonew C (rc_world s) (rc_world s')
    \<and> (\<forall>net. r = Inr net \<longrightarrow> net = Device (cm_tap u) \<and> drops C (vm_id (cm_vm u)) (rc_world s) (rc_world s'))"
proof -
  note q = ctrd_okD(1,2) [OF K]
  have rm: "nonew X w (snd (sv_remove_file (fe_svc E) a (snd (sv_remove_file (fe_svc E) b w))))" if "svc_quiet (fe_svc E) X" for X :: "'a \<Rightarrow> string set" and w a b
    using nonew_trans [OF svc_quietD(13) [OF that] svc_quietD(13) [OF that]] .
  show ?thesis
  proof (cases "rc_client s")
    case None
    then show ?thesis using e by (auto simp: destroy_snapshotted_def)
  next
    case (Some c)
    obtain r1 w1 where 1: "delete_container (fe_svc E) c (vm_id (cm_vm u)) (rc_world s) = (r1, w1)" by fastforce
    note d = delete_ok [OF K 1]
    show ?thesis
    proof (cases "r1 = Inr () \<and> fcctrd_remove_snapshot E c s w1 \<noteq> None")
      case True
      then obtain w2 where 2: "fcctrd_remove_snapshot E c s w1 = Some w2" by blast
      have d2: "drops C (vm_id (cm_vm u)) (rc_world s) w2" "nonew V (rc_world s) w2"
        using drops_quiet_after [OF d(1) remove_snapshot_quiet [OF q(2) 2]] nonew_trans [OF d(2) remove_snapshot_quiet [OF q(1) 2]] .
      then show ?thesis
        using e Some 1 True 2 drops_quiet_after [OF d2(1) rm [OF q(2)]] nonew_trans [OF d2(2) rm [OF q(1)]]
          drops_quiet [OF drops_quiet_after [OF d2(1) rm [OF q(2)]]] drops_quiet [OF d2(1)]
        by (auto simp: destroy_snapshotted_def split: option.splits)
    next
      case False
      then show ?thesis using e Some 1 d drops_quiet [OF d(1)] by (auto simp: destroy_snapshotted_def split: sum.splits option.splits)
    qed
  qed
qed

lemma poll_quiet:
  assumes "env_quiet E X"
  shows "nonew X w (snd (poll_pid_until_exit E pid period timeout w))"
proof -
  have "nonew X w (snd (poll_ticks E pid period n w))" for n
    by (induction n arbitrary: w) (auto intro: nonew_trans [OF env_quietD(1) [OF assms]])
  then have "nonew X w (snd (poll_ticks E pid period (timeout div period) w))" by simp
  then show ?thesis
    using env_quietD(1) [OF assms] by (auto simp: poll_pid_until_exit_def split: prod.splits bool.splits intro: nonew_trans)
qed

lemma kill_shim_quiet:
  assumes Q: "env_quiet E X" and e: "kill_shim E ppid tap s = (r, s')"
  shows "nonew X (rc_world s) (rc_world s') \<and> (\<forall>net. r = Inr net \<longrightarrow> net = Device tap)"
proof -
  have k: "nonew X w w'" if "fe_kill_group_term E p w = (q, w')" for p w q w' using env_quietD(3) [OF Q, of w p] that by simp
  show ?thesis
    using e env_quietD(1) [OF Q]
    by (auto simp: kill_shim_def Let_def split: sum.splits option.splits prod.splits if_splits intro: nonew_trans [OF k] k)
qed

lemma end_machine_quiet:
  assumes "svc_quiet (fe_svc E) X" "env_quiet E X" "end_machine E c vid pid td w = Some w'"
  shows "nonew X w w'"
  using assms(3) client_quiet(11) [OF assms(1)] env_quietD(2) [OF assms(2)]
  by (auto simp: end_machine_def split: if_splits)

lemma destroy_idle_ok:
  assumes K: "ctrd_ok E V C" and e: "destroy_idle E u s = (r, s')"
  shows "nonew V (rc_world s) (rc_world s') \<and> nonew C (rc_world s) (rc_world s')
    \<and> (\<forall>net. r = Inr net \<longrightarrow> net = Device (cm_tap u) \<and> drops C (vm_id (cm_vm u)) (rc_world s) (rc_world s'))"
proof (cases "(\<exists>c. rc_client s = Some c) \<and> (\<exists>pid. vm_pid (cm_vm u) = Some pid \<and> (\<exists>p. stat_task E pid (rc_world s) = Inr p \<and> pr_comm p = fc_comm))")
  case False
  then show ?thesis using e by (auto simp: destroy_idle_def split: option.splits sum.splits if_splits)
next
  case True
  then obtain c pid p where c: "rc_client s = Some c" "vm_pid (cm_vm u) = Some pid" "stat_task E pid (rc_world s) = Inr p" "pr_comm p = fc_comm"
    by blast
  let ?S = "fe_svc E" and ?vid = "vm_id (cm_vm u)"
  define w1 where "w1 = snd (kill_task ?S c ?vid 9 True (snd (vm_resume ?S c (cm_vm u) (rc_world s))))"
  obtain td w2 where 2: "delete_task ?S c ?vid w1 = (td, w2)" by fastforce
  obtain r3 w3 where 3: "delete_container ?S c ?vid w2 = (r3, w3)" by fastforce
  have q2: "nonew X (rc_world s) w2" if "svc_quiet ?S X" for X :: "'a \<Rightarrow> string set"
    using nonew_trans [OF nonew_trans [OF client_quiet(10) [OF that, of "rc_world s" c "cm_vm u"] client_quiet(7) [OF that]] client_quiet(8) [OF that, of w1 c ?vid, unfolded w1_def], folded w1_def]
      2 by simp
  have d3: "drops C ?vid (rc_world s) w3" "nonew V (rc_world s) w3"
    using nonew_drops [OF q2 [OF ctrd_okD(2) [OF K]] delete_ok(1) [OF K 3]] nonew_trans [OF q2 [OF ctrd_okD(1) [OF K]] delete_ok(2) [OF K 3]] .
  have e3: "destroy_idle E u s =
      (case r3 of
         Inl e \<Rightarrow> (Inl (Err (CfErr (CeDeleteContainer e))), s\<lparr>rc_world := w3\<rparr>)
       | Inr _ \<Rightarrow>
           (case fcctrd_remove_snapshot E c s w3 of
              None \<Rightarrow> (Inl no_snapshot_key, s\<lparr>rc_world := w3\<rparr>)
            | Some w \<Rightarrow>
                (case end_machine E c ?vid pid (\<not> isl td) w of
                   None \<Rightarrow> (Inl (Panic ''PID should be valid by now''), s\<lparr>rc_world := w\<rparr>)
                 | Some w \<Rightarrow>
                     (case poll_pid_until_exit E (pr_ppid p) 100000000 1500000000 w of
                        (True, w) \<Rightarrow> (Inr (Device (cm_tap u)), s\<lparr>rc_world := w\<rparr>)
                      | (False, w) \<Rightarrow> kill_shim E (pr_ppid p) (cm_tap u) (s\<lparr>rc_world := w\<rparr>)))))"
    using c 2 3 by (simp add: destroy_idle_def Let_def w1_def)
  have after: ?thesis if "drops C ?vid (rc_world s) w" "nonew V (rc_world s) w" "nonew C w (rc_world s')" "nonew V w (rc_world s')"
      "\<forall>net. r = Inr net \<longrightarrow> net = Device (cm_tap u)" for w
    using drops_quiet_after [OF that(1,3)] drops_quiet [OF drops_quiet_after [OF that(1,3)]] nonew_trans [OF that(2,4)] that(5) by simp
  show ?thesis
  proof (cases "\<exists>w4. r3 = Inr () \<and> fcctrd_remove_snapshot E c s w3 = Some w4")
    case False
    then show ?thesis using e e3 d3 drops_quiet [OF d3(1)] by (auto split: sum.splits option.splits)
  next
    case True
    then obtain w4 where 4: "r3 = Inr ()" "fcctrd_remove_snapshot E c s w3 = Some w4" by blast
    have d4: "drops C ?vid (rc_world s) w4" "nonew V (rc_world s) w4"
      using drops_quiet_after [OF d3(1) remove_snapshot_quiet [OF ctrd_okD(2) [OF K] 4(2)]]
        nonew_trans [OF d3(2) remove_snapshot_quiet [OF ctrd_okD(1) [OF K] 4(2)]] .
    show ?thesis
    proof (cases "end_machine E c ?vid pid (\<not> isl td) w4")
      case None
      then show ?thesis using e e3 4 d4 drops_quiet [OF d4(1)] by auto
    next
      case (Some w5)
      have d5: "drops C ?vid (rc_world s) w5" "nonew V (rc_world s) w5"
        using drops_quiet_after [OF d4(1) end_machine_quiet [OF ctrd_okD(2,4) [OF K] Some]]
          nonew_trans [OF d4(2) end_machine_quiet [OF ctrd_okD(1,3) [OF K] Some]] .
      obtain b w6 where 6: "poll_pid_until_exit E (pr_ppid p) 100000000 1500000000 w5 = (b, w6)" by fastforce
      have q6: "nonew C w5 w6" "nonew V w5 w6"
        using poll_quiet [OF ctrd_okD(4) [OF K], of w5 "pr_ppid p" 100000000 1500000000]
          poll_quiet [OF ctrd_okD(3) [OF K], of w5 "pr_ppid p" 100000000 1500000000] 6 by simp_all
      note d6 = drops_quiet_after [OF d5(1) q6(1)] nonew_trans [OF d5(2) q6(2)]
      show ?thesis
      proof (cases b)
        case True
        then show ?thesis using e e3 4 Some 6 d6 drops_quiet [OF d6(1)] by auto
      next
        case False
        then have "kill_shim E (pr_ppid p) (cm_tap u) (s\<lparr>rc_world := w6\<rparr>) = (r, s')" using e e3 4 Some 6 by simp
        from kill_shim_quiet [OF ctrd_okD(3) [OF K] this] kill_shim_quiet [OF ctrd_okD(4) [OF K] this]
        show ?thesis using after [OF d6] by simp
      qed
    qed
  qed
qed

text \<open>Destruction, for every state of the machine.\<close>

lemma shutdown_quiet:
  assumes "svc_quiet (fe_svc E) X" "env_quiet E X" "fcctrd_shutdown_sandbox E u s = (r, u', s')"
  shows "nonew X (rc_world s) (rc_world s')"
proof (cases "rc_client s")
  case None
  then show ?thesis using assms(3) by (auto simp: fcctrd_shutdown_sandbox_def)
next
  case (Some c)
  obtain q w1 where 1: "unload_vm (fe_svc E) c (vm_id (cm_vm u)) (rc_world s) = (q, w1)" by fastforce
  have q1: "nonew X (rc_world s) w1" using client_quiet(12) [OF assms(1), of "rc_world s" c "vm_id (cm_vm u)"] 1 by simp
  define fd where "fd = Option.bind (Option.bind (vm_pid (cm_vm u)) raw_pid) (\<lambda>pid. if fe_pidfd E pid (rc_world s) then Some pid else None)"
  define w2 where "w2 = (case fd of None \<Rightarrow> w1 | Some pid \<Rightarrow> fe_await_exit E pid w1)"
  have "rc_world s' = w1 \<or> rc_world s' = w2"
    using assms(3) unfolding fcctrd_shutdown_sandbox_def Some option.case fd_def [symmetric] Let_def vm_unload_def 1
    by (cases q) (auto simp: w2_def split: if_splits)
  moreover have "w2 = w1 \<or> (\<exists>p. w2 = fe_await_exit E p w1)" by (auto simp: w2_def split: option.split)
  ultimately show ?thesis using q1 nonew_trans [OF q1 env_quietD(4) [OF assms(2)]] by fastforce
qed

lemma shutdown_same:
  assumes "fcctrd_shutdown_sandbox E u s = (r, u', s')"
  shows "sb_id u' = sb_id u \<and> cm_tap u' = cm_tap u \<and> vm_id (cm_vm u') = vm_id (cm_vm u)
     \<and> vm_state_file (cm_vm u') = vm_state_file (cm_vm u) \<and> vm_memory_file (cm_vm u') = vm_memory_file (cm_vm u)"
proof (cases "rc_client s")
  case None
  then show ?thesis using assms by (auto simp: fcctrd_shutdown_sandbox_def)
next
  case (Some c)
  obtain q v w where 1: "vm_unload (fe_svc E) c (cm_vm u) (rc_world s) = (q, v, w)" by (metis prod_cases3)
  then have v: "v = cm_vm u \<or> v = (cm_vm u)\<lparr>vm_pid := None\<rparr>"
    by (cases "unload_vm (fe_svc E) c (vm_id (cm_vm u)) (rc_world s)") (auto simp: vm_unload_def split: sum.splits)
  have "u' = u\<lparr>cm_vm := v\<rparr> \<or> u' = u\<lparr>cm_vm := vm_clear_pid v\<rparr>"
    using assms by (cases q) (auto simp: fcctrd_shutdown_sandbox_def Some 1 Let_def split: if_splits)
  then show ?thesis using v by (auto simp: vm_clear_pid_def)
qed

lemma fcctrd_destroy_ok:
  assumes K: "ctrd_ok E V C" and e: "fcctrd_destroy_sandbox E u s = (r, u', s')"
  shows "nonew V (rc_world s) (rc_world s') \<and> nonew C (rc_world s) (rc_world s')
    \<and> (\<forall>net. r = Inr net \<longrightarrow> net = Device (cm_tap u) \<and> drops C (vm_id (cm_vm u)) (rc_world s) (rc_world s'))"
proof (cases "vm_has_snapshot (cm_vm u)")
  case False
  then show ?thesis
    using e destroy_idle_ok [OF K] by (cases "vm_pid (cm_vm u)") (auto simp: fcctrd_destroy_sandbox_def split: prod.splits)
next
  case snap: True
  show ?thesis
  proof (cases "vm_pid (cm_vm u)")
    case None
    then show ?thesis using e snap destroy_snapshotted_ok [OF K] by (auto simp: fcctrd_destroy_sandbox_def split: prod.splits)
  next
    case (Some pid)
    obtain r1 u1 s1 where 1: "fcctrd_shutdown_sandbox E u s = (r1, u1, s1)" by (metis prod_cases3)
    have q: "nonew V (rc_world s) (rc_world s1)" "nonew C (rc_world s) (rc_world s1)"
      using shutdown_quiet [OF _ _ 1] ctrd_okD(1-4) [OF K] by blast+
    show ?thesis
    proof (cases r1)
      case (Inl x)
      then show ?thesis using e snap Some 1 q by (auto simp: fcctrd_destroy_sandbox_def)
    next
      case (Inr x)
      then have d: "destroy_snapshotted E u1 s1 = (r, s')"
        using e snap Some 1 by (auto simp: fcctrd_destroy_sandbox_def split: prod.splits)
      show ?thesis
        using destroy_snapshotted_ok [OF K d] q shutdown_same [OF 1] nonew_trans [OF q(1)] nonew_trans [OF q(2)]
          nonew_drops [OF q(2)] by auto
    qed
  qed
qed

lemma fcctrd_destroy_same:
  "fcctrd_destroy_sandbox E u s = (r, u', s') \<Longrightarrow> sb_id u' = sb_id u \<and> vm_has_snapshot (cm_vm u') = vm_has_snapshot (cm_vm u)"
  by (auto simp: fcctrd_destroy_sandbox_def vm_has_snapshot_def dest: shutdown_same split: prod.splits bool.splits sum.splits)

end
