(* ===== verification/Fcctrd_Props.thy ===== *)
theory Fcctrd_Props
  imports Fcctrd_Inv
begin

text \<open>
  The runtime for \<^verbatim>\<open>firecracker-containerd\<close> as an instance of the contract of runtimes, and its properties:
  what a creation that fails undoes, what a destruction removes, how the arguments of an image reach the
  container, and what is read from \<^verbatim>\<open>/proc\<close>.
\<close>

section \<open>The contract of runtimes\<close>







section \<open>The arguments of the process\<close>

definition spaced :: "string list \<Rightarrow> string" where
  "spaced ss = fold (\<lambda>s ret. ret @ s @ '' '') (take (length ss - 1) ss) [] @ hd (drop (length ss - 1) ss)"

lemma fold_spaced: "fold (\<lambda>s ret. ret @ s @ '' '') ss acc = acc @ concat (map (\<lambda>s. s @ '' '') ss)"
  by (induction ss arbitrary: acc) simp_all

lemma spaced_simps: "spaced [s] = s" "ss \<noteq> [] \<Longrightarrow> spaced (s # ss) = s @ CHR '' '' # spaced ss"
  by (cases ss; simp add: spaced_def fold_spaced)+

lemma split_spaced: "ss \<noteq> [] \<Longrightarrow> \<forall>s \<in> set ss. CHR '' '' \<notin> set s \<Longrightarrow> split_on CHR '' '' (spaced ss) = ss"
proof (induction ss)
  case (Cons s ss)
  then show ?case by (cases "ss = []") (simp_all add: spaced_simps split_on_plain split_on_append)
qed simp

lemma length_split_on: "length (split_on c s) = Suc (length (filter ((=) c) s))"
  by (induction s) (auto split: list.split)

lemma spaces_spaced:
  "ss \<noteq> [] \<Longrightarrow> length (filter ((=) c) (spaced ss)) = (if c = CHR '' '' then length ss - 1 else 0) + (\<Sum>s\<leftarrow>ss. length (filter ((=) c) s))"
proof (induction ss)
  case (Cons s ss)
  then show ?case by (cases "ss = []") (auto simp: spaced_simps length_greater_0_conv [symmetric] simp del: length_greater_0_conv)
qed simp

lemma split_spaced_iff:
  assumes "ss \<noteq> []"
  shows "split_on CHR '' '' (spaced ss) = ss \<longleftrightarrow> (\<forall>s \<in> set ss. CHR '' '' \<notin> set s)"
proof
  assume e: "split_on CHR '' '' (spaced ss) = ss"
  have "length ss = Suc (length ss - 1 + (\<Sum>s\<leftarrow>ss. length (filter ((=) CHR '' '') s)))"
    using length_split_on [of "CHR '' ''" "spaced ss"] spaces_spaced [OF assms, of "CHR '' ''"] unfolding e by simp
  moreover have "length ss = Suc (length ss - 1)" using assms by (cases ss) simp_all
  ultimately have "(\<Sum>s\<leftarrow>ss. length (filter ((=) CHR '' '') s)) = 0" by linarith
  then show "\<forall>s \<in> set ss. CHR '' '' \<notin> set s" by (auto simp: filter_empty_conv)
qed (simp add: split_spaced assms)

section \<open>The status of a process\<close>

lemma parse_below_snoc:
  "parse_below bnd acc (ds @ [c]) = (case parse_below bnd acc ds of Inl e \<Rightarrow> Inl e | Inr n \<Rightarrow> parse_below bnd n [c])"
  by (induction bnd acc ds rule: parse_below.induct) (auto split: option.splits)

lemma parse_below_show: "n < bnd \<Longrightarrow> parse_below bnd 0 (show_nat n) = Inr n"
proof (induction n rule: show_nat.induct)
  case (1 n)
  show ?case
  proof (cases "n < 10")
    case True
    then show ?thesis using 1(2) by (simp add: show_nat.simps)
  next
    case False
    then have "parse_below bnd 0 (show_nat (n div 10)) = Inr (n div 10)" using 1 by simp
    moreover have "10 * (n div 10) + n mod 10 = n" by simp
    ultimately show ?thesis using False 1(2) by (subst show_nat.simps) (simp add: parse_below_snoc)
  qed
qed

lemma parse_u32_show: "n < 0x100000000 \<Longrightarrow> parse_u32 (show_nat n) = Inr n"
proof -
  assume "n < 0x100000000"
  moreover obtain c cs where "show_nat n = c # cs" "to_digit c \<noteq> None"
    using digits_show_nat [of n] by (cases "show_nat n") (auto simp: digits_def)
  ultimately show ?thesis using parse_below_show [of n "0x100000000"] digit_not_special [of c] by (simp add: parse_u32_def)
qed

lemma split_whitespace_word:
  assumes "a \<noteq> []" "\<forall>c \<in> set a. \<not> is_ws c" "is_ws x"
  shows "split_whitespace (a @ x # t) = a # split_whitespace t"
proof -
  obtain c cs where a: "a = c # cs" using assms(1) by (cases a) simp_all
  have "takeWhile (\<lambda>x. \<not> is_ws x) (cs @ x # t) = cs" "dropWhile (\<lambda>x. \<not> is_ws x) (cs @ x # t) = x # t"
    using assms(2,3) a by (auto simp: takeWhile_append dropWhile_append)
  then show ?thesis using assms(2,3) a by simp
qed

lemma show_nat_word: "show_nat n \<noteq> []" "\<forall>c \<in> set (show_nat n). \<not> is_ws c"
  using digits_show_nat [of n] digit_not_special(4) by (auto simp: digits_def)

definition show_stat :: "nat \<Rightarrow> string \<Rightarrow> char \<Rightarrow> nat \<Rightarrow> nat \<Rightarrow> string \<Rightarrow> string" where
  "show_stat pid comm st ppid pgrp rest =
     show_nat pid @ '' ('' @ comm @ '') '' @ [st] @ '' '' @ show_nat ppid @ '' '' @ show_nat pgrp @ '' '' @ rest"

lemma is_ws_space: "is_ws CHR '' ''" "\<not> is_ws CHR ''(''" "\<not> is_ws CHR '')''"
  by (simp_all add: is_ws_def)

lemma split_stat:
  assumes "\<forall>c \<in> set comm. \<not> is_ws c" "\<not> is_ws st"
  shows "split_whitespace (show_stat pid comm st ppid pgrp rest) =
    show_nat pid # (''('' @ comm @ '')'') # [st] # show_nat ppid # show_nat pgrp # split_whitespace rest"
proof -
  note w = split_whitespace_word [OF _ _ is_ws_space(1)]
  have 1: "split_whitespace (''('' @ comm @ '')'' @ '' '' @ t) = (''('' @ comm @ '')'') # split_whitespace t" for t
    using w [of "''('' @ comm @ '')''" t] assms(1) by (auto simp: is_ws_space)
  have 2: "split_whitespace ([st] @ '' '' @ t) = [st] # split_whitespace t" for t
    using w [of "[st]" t] assms(2) by simp
  have 3: "split_whitespace (show_nat n @ '' '' @ t) = show_nat n # split_whitespace t" for n t
    using w [OF show_nat_word, of n t] by simp
  show ?thesis
    using 3 [of pid "''('' @ comm @ '')'' @ '' '' @ [st] @ '' '' @ show_nat ppid @ '' '' @ show_nat pgrp @ '' '' @ rest"]
      1 [of "[st] @ '' '' @ show_nat ppid @ '' '' @ show_nat pgrp @ '' '' @ rest"]
      2 [of "show_nat ppid @ '' '' @ show_nat pgrp @ '' '' @ rest"] 3 [of ppid "show_nat pgrp @ '' '' @ rest"] 3 [of pgrp rest]
    by (simp add: show_stat_def del: split_whitespace.simps)
qed

lemma parse_show_stat:
  assumes "\<forall>c \<in> set comm. \<not> is_ws c" "\<not> is_ws st" "pid < 0x100000000" "ppid < 0x100000000" "pgrp < 0x100000000"
  shows "parse_stat pid (show_stat pid comm st ppid pgrp rest) =
    Inr \<lparr>pr_pid = pid, pr_comm = comm, pr_state = st, pr_ppid = ppid, pr_pgrp = pgrp\<rparr>"
  unfolding parse_stat_def split_stat [OF assms(1,2)] by (simp add: parse_u32_show assms(3-5))

lemma parse_stat_spaced:
  assumes "\<forall>c \<in> set (a @ b). \<not> is_ws c" "a \<noteq> []" "\<not> is_ws st" "to_digit st = None" "pid < 0x100000000"
  shows "parse_stat pid (show_stat pid (a @ '' '' @ b) st ppid pgrp rest) = Inl (Err (PsParseInt ''failed to parse PPID as u32'' InvalidDigit))"
proof -
  note w = split_whitespace_word [OF _ _ is_ws_space(1)]
  have 1: "split_whitespace (''('' @ a @ '' '' @ t) = (''('' @ a) # split_whitespace t" for t
    using w [of "''('' @ a" t] assms(1) by (auto simp: is_ws_space)
  have 2: "split_whitespace (b @ '') '' @ t) = (b @ '')'') # split_whitespace t" for t
    using w [of "b @ '')''" t] assms(1) by (auto simp: is_ws_space)
  have 3: "split_whitespace ([st] @ '' '' @ t) = [st] # split_whitespace t" for t
    using w [of "[st]" t] assms(3) by simp
  have 4: "split_whitespace (show_nat n @ '' '' @ t) = show_nat n # split_whitespace t" for n t
    using w [OF show_nat_word, of n t] by simp
  let ?t = "show_nat ppid @ '' '' @ show_nat pgrp @ '' '' @ rest"
  have "split_whitespace (show_stat pid (a @ '' '' @ b) st ppid pgrp rest) = show_nat pid # (''('' @ a) # (b @ '')'') # [st] # split_whitespace ?t"
    using 4 [of pid "''('' @ a @ '' '' @ b @ '') '' @ [st] @ '' '' @ ?t"] 1 [of "b @ '') '' @ [st] @ '' '' @ ?t"]
      2 [of "[st] @ '' '' @ ?t"] 3 [of ?t] by (simp add: show_stat_def del: split_whitespace.simps)
  moreover have "parse_u32 [st] = Inl InvalidDigit" using assms(4) by (simp add: parse_u32_def Let_def)
  ultimately show ?thesis using assms(2) by (simp add: parse_stat_def parse_u32_show assms(5) Suc_le_eq)
qed

section \<open>A concrete service\<close>

text \<open>The machines and containers there are. Everything succeeds but the creation of a task, if \<open>bad\<close>.\<close>

record ctr_world =
  kw_vms :: "string list"
  kw_ctrs :: "string list"

definition kw_ok :: "'a \<Rightarrow> ctr_world \<Rightarrow> ('e + 'a) \<times> ctr_world" where
  "kw_ok x w = (Inr x, w)"

definition demo_image :: ctrd_image where
  "demo_image = \<lparr>im_name = ''img'', im_target = Some (''manifest'', ''sha256:0'')\<rparr>"

definition demo_config :: image_config where
  "demo_config = \<lparr>ic_config = Some \<lparr>ec_entrypoint = Some [''/bin/app''], ec_cmd = Some [''-v'']\<rparr>, ic_diff_ids = [''sha256:1'']\<rparr>"

definition demo_response :: "create_vm_request \<Rightarrow> create_vm_response" where
  "demo_response r = \<lparr>cr_id = cv_id r, cr_pid = 42, cr_socket = ''s'', cr_log_fifo = ''l'', cr_metrics_fifo = ''m'', cr_cgroup = ''c''\<rparr>"

definition demo_svc :: "bool \<Rightarrow> ctr_world ctrd_svc" where
  "demo_svc bad =
     \<lparr>sv_connect = (\<lambda>_. kw_ok ()), sv_connect_ttrpc = (\<lambda>_. kw_ok ()), sv_version = kw_ok (''1'', ''r''), sv_ns_create = (\<lambda>_ n. kw_ok (Some n)),
      sv_ns_list = (\<lambda>_. kw_ok []), sv_ns_delete = (\<lambda>_ _. kw_ok ()), sv_image_get = (\<lambda>_ _. kw_ok (Some demo_image)),
      sv_image_list = (\<lambda>_ _. kw_ok [demo_image]), sv_image_delete = (\<lambda>_ _ _. kw_ok ()), sv_content_read = (\<lambda>_ _. kw_ok [Inr [1]]),
      sv_content_list = (\<lambda>_ _. kw_ok []), sv_content_delete = (\<lambda>_ _. kw_ok ()),
      sv_snap_prepare = (\<lambda>_ _ _ _. kw_ok [''mount'']), sv_snap_remove = (\<lambda>_ _ _. kw_ok ()), sv_snap_list = (\<lambda>_ _ _. kw_ok []),
      sv_ctr_create = (\<lambda>_ r w. (Inr (Some r), w\<lparr>kw_ctrs := List.insert (ct_id r) (kw_ctrs w)\<rparr>)), sv_ctr_list = (\<lambda>_ _. kw_ok []),
      sv_ctr_delete = (\<lambda>_ x w. (Inr (), w\<lparr>kw_ctrs := removeAll x (kw_ctrs w)\<rparr>)),
      sv_task_create = (\<lambda>_ x _ w. (if bad then Inl \<lparr>st_code = GrpcNotFound, st_message = ''no''\<rparr> else Inr (x, 43), w)), sv_task_start = (\<lambda>_ _. kw_ok 43),
      sv_task_kill = (\<lambda>_ _ _ _. kw_ok ()), sv_task_wait = (\<lambda>_ _. kw_ok 0), sv_task_delete = (\<lambda>_ _. kw_ok 0),
      sv_vm_create = (\<lambda>_ _ r w. (Inr (demo_response r), w\<lparr>kw_vms := List.insert (cv_id r) (kw_vms w)\<rparr>)),
      sv_vm_pause = (\<lambda>_ _ _. kw_ok ()), sv_vm_resume = (\<lambda>_ _ _. kw_ok ()), sv_vm_snapshot = (\<lambda>_ _ _ _ _. kw_ok ()),
      sv_vm_stop = (\<lambda>_ _ v _ w. (Inr (), w\<lparr>kw_vms := removeAll v (kw_vms w)\<rparr>)), sv_vm_load = (\<lambda>_ _ _ _ _ _. kw_ok 44), sv_vm_unload = (\<lambda>_ _ _. kw_ok ()),
      sv_is_file = (\<lambda>_ _. False), sv_remove_file = (\<lambda>_. kw_ok ()), sv_parent = (\<lambda>_. Some ''/''), sv_create_dir_all = (\<lambda>_. kw_ok ()),
      sv_fsync = (\<lambda>_. kw_ok ()), sv_read_file = (\<lambda>_. kw_ok []), sv_second_first = (\<lambda>_. False), sv_lingers = (\<lambda>_. False),
      sv_media_type = (\<lambda>_. MediaManifest), sv_parse_index = (\<lambda>_. Inr []), sv_parse_manifest = (\<lambda>_. Inr ''sha256:2''), sv_parse_config = (\<lambda>_. Inr demo_config),
      sv_sha256_hex = (\<lambda>s. s), sv_json_strings = (\<lambda>ss. Inr (concat ss)), sv_builder_json = (\<lambda>_ _ _. Inr []),
      sv_replace_all = (\<lambda>_ h _. h), sv_spec_template = ''{}''\<rparr>"

definition demo_fcos :: "(ctr_world, unit) fc_os" where
  "demo_fcos =
     \<lparr>fo_now = (\<lambda>_. 0), fo_sleep = (\<lambda>_ w. w), fo_join = (\<lambda>_. Inr ()), fo_create_dir_all = (\<lambda>_. kw_ok ()), fo_mkdir = (\<lambda>_. kw_ok ()),
      fo_open_dir = (\<lambda>_ _. Inr ()), fo_mkfifo = (\<lambda>_. kw_ok ()), fo_is_fifo = (\<lambda>_ _. Inr True), fo_unlink = (\<lambda>_. kw_ok ()),
      fo_remove_dir_all = (\<lambda>_. kw_ok ()), fo_write = (\<lambda>_ _. kw_ok ()), fo_metadata = (\<lambda>_ _. Inr ()), fo_file_len = (\<lambda>_ _. (Inr (), Inr 0)),
      fo_fadvise = (\<lambda>_ _. kw_ok ()), fo_spawn = (\<lambda>_ _. kw_ok ()), fo_pidfd = (\<lambda>_ _. Inr ()), fo_kill = (\<lambda>_. kw_ok ()),
      fo_try_wait = (\<lambda>_. kw_ok None), fo_pid = (\<lambda>_ _. Some 42), fo_setaffinity = (\<lambda>_ _. kw_ok ()), fo_connect = (\<lambda>_. kw_ok ()),
      fo_api = (\<lambda>_ _. kw_ok ()), fo_describe = (\<lambda>_. kw_ok \<lparr>ii_id = ''uvm-1'', ii_state = VmRunning\<rparr>), fo_hash = (\<lambda>_. 0), fo_replace_all = (\<lambda>_ h _. h)\<rparr>"

definition demo_stat :: "nat \<Rightarrow> string" where
  "demo_stat pid = show_stat pid fc_comm CHR ''S'' 41 41 []"

definition demo_fenv :: "bool \<Rightarrow> (ctr_world, unit) fcctrd_env" where
  "demo_fenv bad =
     \<lparr>fe_os = demo_fcos, fe_svc = demo_svc bad, fe_read_stat = (\<lambda>pid _. Inr (demo_stat pid)), fe_pid_exists = (\<lambda>_ _. False),
      fe_kill_term = (\<lambda>_. kw_ok ()), fe_kill_group_term = (\<lambda>_. kw_ok ()), fe_pidfd = (\<lambda>_ _. True), fe_await_exit = (\<lambda>_ w. w),
      fe_run_ctr = (\<lambda>_ _. kw_ok True), fe_delays = (\<lambda>_. []), fe_deadline = (\<lambda>_. False)\<rparr>"








lemma demo_sel [simp]:
  "fe_svc (demo_fenv bad) = demo_svc bad" "fe_os (demo_fenv bad) = demo_fcos"
  "sv_ctr_create (demo_svc bad) ns r w = (Inr (Some r), w\<lparr>kw_ctrs := List.insert (ct_id r) (kw_ctrs w)\<rparr>)"
  "sv_ctr_delete (demo_svc bad) ns x w = (Inr (), w\<lparr>kw_ctrs := removeAll x (kw_ctrs w)\<rparr>)"
  "sv_vm_create (demo_svc bad) ns tm q w = (Inr (demo_response q), w\<lparr>kw_vms := List.insert (cv_id q) (kw_vms w)\<rparr>)"
  "sv_vm_stop (demo_svc bad) ns tm x n w = (Inr (), w\<lparr>kw_vms := removeAll x (kw_vms w)\<rparr>)"
  "sv_task_create (demo_svc bad) ns x ms w = (if bad then Inl \<lparr>st_code = GrpcNotFound, st_message = ''no''\<rparr> else Inr (x, 43), w)"
  "sv_task_start (demo_svc bad) ns x w = (Inr 43, w)" "sv_task_delete (demo_svc bad) ns x w = (Inr 0, w)"
  "sv_task_kill (demo_svc bad) ns x sg b w = (Inr (), w)" "sv_vm_resume (demo_svc bad) ns tm x w = (Inr (), w)"
  "sv_snap_remove (demo_svc bad) ns x y w = (Inr (), w)" "sv_json_strings (demo_svc bad) ss = Inr (concat ss)"
  "sv_replace_all (demo_svc bad) ps h xs = h" "sv_spec_template (demo_svc bad) = ''{}''"
  by (simp_all add: demo_fenv_def demo_svc_def kw_ok_def)



section \<open>Properties\<close>






text \<open>C36. The strings of the entry point and the command of an image are joined into one string and split
  again when the specification of the container is written: they arrive as they are exactly if none of them
  has a space. An image with two empty lists makes the function panic.\<close>

theorem process_args_arrive:
  assumes "ic_config cfg = Some x"
  shows "if exec_strings x = [] then \<not> (\<exists>s. form_process_args cfg = Inr s)
    else \<exists>s. form_process_args cfg = Inr s
      \<and> (split_on CHR '' '' s = exec_strings x \<longleftrightarrow> (\<forall>a \<in> set (exec_strings x). CHR '' '' \<notin> set a))
      \<and> ((\<forall>a \<in> set (exec_strings x). CHR '' '' \<notin> set a) \<longrightarrow>
           fill_template S tmpl s ns vid =
             (case sv_json_strings S (exec_strings x) of
                Inl _ \<Rightarrow> Inl (CtJson (''failed to serialize '' @ s))
              | Inr js \<Rightarrow> Inr (sv_replace_all S spec_patterns tmpl [js, ns, vid])))"
proof (cases "exec_strings x = []")
  case False
  then have "\<not> (ec_entrypoint x = None \<and> ec_cmd x = None)" by (auto simp: exec_strings_def)
  then have "form_process_args cfg = Inr (spaced (exec_strings x))"
    using assms False by (simp add: form_process_args_def spaced_def Let_def)
  then show ?thesis
    using split_spaced_iff [OF False] split_spaced [OF False] False by (auto simp: fill_template_def)
qed (use assms in \<open>simp add: form_process_args_def\<close>)

theorem process_args_arrive_witness:
  "\<exists>s. form_process_args demo_config = Inr s \<and> split_on CHR '' '' s = [''/bin/app'', ''-v'']"
  using process_args_arrive [where cfg = demo_config and x = "\<lparr>ec_entrypoint = Some [''/bin/app''], ec_cmd = Some [''-v'']\<rparr>"
      and S = "demo_svc False" and tmpl = "[]" and ns = "[]" and vid = "[]"]
  by (auto simp: demo_config_def exec_strings_def)

text \<open>What the kernel writes about a process is read back, if the name of its executable has no white space;
  with a space in the name the read fails.\<close>

theorem stat_read_back:
  assumes "\<forall>c \<in> set (a @ b). \<not> is_ws c" "\<not> is_ws st" "to_digit st = None"
    and "pid < 0x100000000" "ppid < 0x100000000" "pgrp < 0x100000000"
  shows "parse_stat pid (show_stat pid a st ppid pgrp rest) = Inr \<lparr>pr_pid = pid, pr_comm = a, pr_state = st, pr_ppid = ppid, pr_pgrp = pgrp\<rparr>
    \<and> (a \<noteq> [] \<longrightarrow> parse_stat pid (show_stat pid (a @ '' '' @ b) st ppid pgrp rest) =
         Inl (Err (PsParseInt ''failed to parse PPID as u32'' InvalidDigit)))"
  using assms parse_show_stat [of a st pid ppid pgrp rest] parse_stat_spaced [of a b st pid ppid pgrp rest] by simp

theorem stat_read_back_witness:
  "parse_stat 42 (show_stat 42 ''firecracker'' CHR ''S'' 41 41 ''0 -1'') =
      Inr \<lparr>pr_pid = 42, pr_comm = ''firecracker'', pr_state = CHR ''S'', pr_ppid = 41, pr_pgrp = 41\<rparr>
    \<and> parse_stat 42 (show_stat 42 ''firecracker v2'' CHR ''S'' 41 41 ''0 -1'') =
      Inl (Err (PsParseInt ''failed to parse PPID as u32'' InvalidDigit))"
  using stat_read_back [of "''firecracker''" "''v2''" "CHR ''S''" 42 41 41 "''0 -1''"] by (simp add: is_ws_def to_digit_def)

end
