(* ===== verification/Spec2Isabelle.thy ===== *)
theory Spec2Isabelle
  imports Subnet_Pool Admission_Props Keepalive Pool_Props Worker_Props Snapshot_Props Net_Props Fc_Props
    Dash_Props Fcctrd_Props
begin

text \<open>
  Verification development for \<^verbatim>\<open>snaplace\<close> (\<^verbatim>\<open>crates/snaplace/src\<close>), the part of the repository that
  admits invocation requests, keeps a pool of sandboxes and runs a worker task per sandbox, with the client
  library of one of its runtimes (\<^verbatim>\<open>crates/firecracker-containerd-client\<close>). Other paths below are relative to
  \<^verbatim>\<open>crates/snaplace/src\<close>.

  \<^bold>\<open>The program.\<close> Several kinds of actors talk over channels.
  \<^item> The admission controller (\<^verbatim>\<open>admission/controller.rs\<close>) takes requests from the source, keeps a
    queue per function, waits for a running slot and asks the pool for a worker for the function whose
    head request is the oldest. It blocks a function for which the pool has no worker, and fails
    requests whose deadline passes.
  \<^item> The sandbox pool (\<^verbatim>\<open>sbpool/pool/mod.rs\<close>, \<^verbatim>\<open>sbpool/pool/control.rs\<close>) owns the handles of all
    workers, accounts for memory and CPUs, parks workers as Idle under a keep-alive timer, evicts and
    reaps them, and serves the control plane (prepare, destroy, snapshot).
  \<^item> A worker (\<^verbatim>\<open>worker/actor.rs\<close>) owns one sandbox and drives it through the runtime: create, load,
    pause, resume, snapshot, shut down, destroy.
  \<^item> The snapshot manager (\<^verbatim>\<open>snapman/manager.rs\<close>) answers where a worker is to put a snapshot, keeps the
    performance monitors, and hands what workers announce about snapshots to a thread that writes it to
    the database.
  \<^item> The network manager (\<^verbatim>\<open>network/manager.rs\<close>) is the only task that talks to the provider of network
    resources (\<^verbatim>\<open>network/providers\<close>): workers ask it for a TAP device and give it back.
  \<^item> The registrar (\<^verbatim>\<open>metadata/registration/registrar.rs\<close>) registers and deregisters functions, in the
    store and in the database, and loads the database into the store at the start.
  Admission and pool share the metadata store (\<^verbatim>\<open>metadata/store/stdhash.rs\<close>), in which the registrar
  registers functions and the pool tracks the Active, Idle and Dying workers of each. The pool reads its
  orphan snapshots back from the database when it starts, and at its shutdown it writes them there, or
  wipes them (\<^verbatim>\<open>sbpool/pool/reinstate.rs\<close>).

  \<^bold>\<open>Conventions.\<close> A method with \<^verbatim>\<open>&mut self\<close> is a function from the state to a result and the new
  state, which is kept on the error path as well. A result is a sum: \<open>Inl (Panic m)\<close> or \<open>Inl (Err e)\<close>
  (\<open>wstop\<close> in the worker, which can also block), \<open>Inr v\<close>. Every \<^verbatim>\<open>unwrap\<close>, \<^verbatim>\<open>expect\<close>, \<^verbatim>\<open>assert!\<close> and
  \<^verbatim>\<open>unreachable!\<close> is a panic branch of the model; \<^verbatim>\<open>debug_assert!\<close> and logging are left out, arithmetic
  is that of a release build. A branch of \<^verbatim>\<open>select!\<close> is an input of the iteration function. What the
  other actors, the clock and the channels do during one handler is an environment record (\<open>adm_env\<close>,
  \<open>penv\<close>, \<open>wenv\<close>) over which the theorems quantify. Code outside the repository is a parameter with its
  documented behaviour as a named hypothesis: the priority queue (\<open>pq_spec\<close>), \<^verbatim>\<open>ubyte\<close> arithmetic
  (\<open>bu_spec\<close>), the unstable sort, the random generator, the list of subnets of a network, the tables of
  the database (\<open>redb_spec\<close>), with association lists as an instance, the networks of \<^verbatim>\<open>ipnet\<close>
  (\<open>ipnet_spec\<close>), the kernel behind \<^verbatim>\<open>ioctl\<close> and route netlink (\<open>rtnl_spec\<close>), files and processes
  (\<open>fc_fs_spec\<close>, \<open>fc_proc_spec\<close>), the sharded map of \<^verbatim>\<open>dashmap\<close> (\<open>dash_spec\<close>), the services of
  \<^verbatim>\<open>firecracker-containerd\<close> (\<open>ctrd_spec\<close>); which accesses to the storage fail is a predicate over which the theorems
  quantify. What is sent is kept in log fields of the state, so that theorems can speak of messages.

  \<^bold>\<open>Theories.\<close>
  \<^item> \<open>Prelude\<close>: identifier types, results with panics (\<open>bindE\<close>, \<open>matchE\<close>), hash maps as association
    lists, shared lemmas.
  \<^item> \<open>Subnet_Pool\<close> (\<^verbatim>\<open>network/ip_utils/subnet_pool\<close>): the three pools of subnets. Locales for a pool and
    for one that also serves a given subnet, interpreted on the three pools; no subnet is handed out
    twice along a session, under the condition that \<^verbatim>\<open>get\<close> is not asked for a subnet that is taken.
  \<^item> \<open>Cpuset\<close> (\<^verbatim>\<open>sbpool/cpuset.rs\<close>): parsing of cpuset strings on 16-bit words, and allocation of the CPU
    with the fewest occupants.
  \<^item> \<open>Fmd_Store\<close> (\<^verbatim>\<open>metadata/store/stdhash.rs\<close>, \<^verbatim>\<open>metadata/fmd/stdhash.rs\<close>, \<^verbatim>\<open>metadata/stats.rs\<close>): the store,
    refined to a map from workers to class and function (locale \<open>worker_store\<close>).
  \<^item> \<open>Messages\<close> (\<^verbatim>\<open>admission/mod.rs\<close>, \<^verbatim>\<open>sbpool/event.rs\<close>): what admission and pool exchange.
  \<^item> \<open>Admission\<close>, \<open>Admission_Inv\<close>, \<open>Admission_Time\<close>, \<open>Admission_Props\<close>: the admission controller; its
    accounting, order, deadlines, capacity, progress, absence of panics.
  \<^item> \<open>Keepalive\<close> (\<^verbatim>\<open>sbpool/keepalive\<close>): keep-alive durations and eviction policies (locales
    \<open>eviction_policy\<close> and \<open>reclaiming_policy\<close>).
  \<^item> \<open>Pool\<close>, \<open>Pool_Control\<close>, \<open>Pool_Run\<close>: the state of the pool, its operations, the control operations,
    dispatching, the event loop and the stages of the shutdown.
  \<^item> \<open>Pool_Inv\<close>, \<open>Pool_Steps\<close>, \<open>Pool_Life\<close>, \<open>Pool_Ctl_Inv\<close>, \<open>Pool_Loop\<close>: the invariant \<open>pool_ok\<close>, which
    relates handles, store, timers, deadlines, CPUs, the index of sandboxes, orphan snapshots, pending
    control operations and the memory accounts, and its preservation by every operation.
  \<^item> \<open>Pool_Props\<close>: the reachable states of the pool and its properties.
  \<^item> \<open>Worker\<close>, \<open>Worker_Inv\<close>, \<open>Worker_Loop\<close>: the worker task, the contract of a runtime (locale
    \<open>sandbox_runtime\<close>) and the behaviour of each operation, turn and run under it.
  \<^item> \<open>Worker_Props\<close>: the no-op runtime as an instance of the contract, and the properties of workers; the
    theorem on the exit of a worker establishes the hypothesis \<open>exit_ok\<close> under which the pool is proved
    not to panic when it reaps.
  \<^item> \<open>Database\<close> (\<^verbatim>\<open>metadata/db.rs\<close>): the tables FUNCTIONS, SNAPS_PER_FUNC and SNAPSHOTS, over the interface
    of the database.
  \<^item> \<open>Registrar\<close>: the procedures of the registration service and loading.
  \<^item> \<open>Placement\<close> (\<^verbatim>\<open>snapman/placement\<close>, \<^verbatim>\<open>snapman/perfmon\<close>, \<^verbatim>\<open>utils/sd_static.rs\<close>): where snapshots go; locale
    \<open>placement\<close>, interpreted on both algorithms.
  \<^item> \<open>Snapman\<close>: the snapshot manager and the thread that writes to the database.
  \<^item> \<open>Reinstate\<close>, \<open>Reinstate_Inv\<close>, \<open>Reinstate_Sync\<close>: reading snapshots back, wiping and synchronizing.
  \<^item> \<open>Snapshot_Props\<close>: the properties that span restarts. The registry is the same in store and database,
    the writer keeps the tables consistent, a synchronization followed by a start gives the snapshots back,
    and a start gives a reachable state of the pool.

  \<^item> \<open>Tap\<close> (\<^verbatim>\<open>network/tap.rs\<close>, \<^verbatim>\<open>network/ip_utils\<close>): addresses and networks, TAP devices on a kernel that
    is a state with operations; a device is made completely or not at all.
  \<^item> \<open>Providers\<close> (\<^verbatim>\<open>network/providers\<close>): plain devices, a pool of devices made ahead, no devices.
  \<^item> \<open>Netman\<close>: the network manager over any provider, and the contract of a provider (locales
    \<open>net_provider\<close> and \<open>returning_provider\<close>) with what follows for every session of the manager.
  \<^item> \<open>Net_Inv\<close>, \<open>Net_Props\<close>: the TAP providers as instances of the contract, and the properties: no subnet
    is out twice, names are unique and not cut, and two ways in which devices are lost.
  \<^item> \<open>Fc\<close>, \<open>Fc_Inv\<close> (\<^verbatim>\<open>worker/runtime/fc\<close>): the runtime that drives Firecracker, over the operations
    \<open>fc_os\<close> of the system (files, processes, the API of a Firecracker process); what each operation does to
    files and live processes, and sessions of a worker with it.
  \<^item> \<open>Fc_Props\<close>: this runtime as an instance of \<open>sandbox_runtime\<close>, and its properties: no process is left
    behind, the files of a uVM are as Firecracker needs them, the wait for the API server is bounded.
  \<^item> \<open>Dash\<close>, \<open>Dash_Props\<close> (\<^verbatim>\<open>metadata/store/dash.rs\<close>): the store over a concurrent map, another instance of
    \<open>worker_store\<close>. Without overlap it behaves as the standard store; an iteration that overlaps other calls
    is the list of entries it has seen, and a transition is atomic whatever that list is.
  \<^item> \<open>Ctrd\<close>, \<open>Ctrd_Vm\<close> (\<^verbatim>\<open>crates/firecracker-containerd-client\<close>): the client of \<^verbatim>\<open>firecracker-containerd\<close>, over the
    record \<open>ctrd_svc\<close> of what it asks of the services; images, snapshots, containers, tasks, machines, and
    the builders of their requests.
  \<^item> \<open>Fcctrd\<close> (\<^verbatim>\<open>worker/runtime/fcctrd\<close>, \<^verbatim>\<open>utils/psutils.rs\<close>): the runtime over that client.
  \<^item> \<open>Fcctrd_Inv\<close>, \<open>Fcctrd_Props\<close>: what its operations do to the machines and containers of the services; the
    runtime as an instance of \<open>sandbox_runtime\<close>, and its properties: a failed creation is undone, a destroyed
    sandbox has no container, how arguments reach the container and what is read about a process.

  \<^bold>\<open>Loops.\<close> Handlers and eviction loops are total functions; the retry loop of the response sink is
  bounded by its own number of attempts, as are the wait for the API server of Firecracker (20 attempts)
  and the retries of a pause by \<^verbatim>\<open>firecracker-containerd\<close> (7 after the first). The loop that polls for the end of
  a process has ideal timers: a tick comes when it is due, so there are as many as periods in the timeout, and
  one more. The worker's retry loop to the pool may not end: its channel is the list of the results of the
  sends to come, and running out of it is the outcome \<open>WStuck\<close>; a theorem says how many successful sends are
  enough for a turn to end.

  \<^bold>\<open>Not modelled.\<close> The generated bindings (data of the protocols and stubs, no logic), the gRPC front ends,
  the configuration files, the metrics collector, the start-up wiring in \<^verbatim>\<open>orchestrator.rs\<close>, the command line
  tools, and the functions that write an OCI specification out as Rust values (\<^verbatim>\<open>oci/spec.rs\<close>, a parameter here):
  declarations, wiring and input or output.
\<close>

end
